(* ===== verification/Py_Prelude.thy ===== *)
theory Py_Prelude
  imports Complex_Main "HOL-Library.Sublist" "HOL-Library.AList"
begin

text \<open>
  Shared prelude: the parts of Python that the proxy's core modules use.
  A Python \<^verbatim>\<open>str\<close> is a \<^typ>\<open>string\<close> whose characters are code points below 256
  (Latin-1); white space, lower case and digits are those of that range. A Python
  \<^verbatim>\<open>float\<close> is a value of \<open>pyfloat\<close>: a finite float is an exact real number (rounding is
  not modelled), the three special values are kept. Loosely typed values (\<^verbatim>\<open>JsonValue\<close>,
  \<^verbatim>\<open>context.extensions\<close>) are values of \<open>json\<close>; a \<^verbatim>\<open>dict\<close> that is such a value keeps its
  insertion order as an association list. An exception is the left injection of a sum.
\<close>

named_theorems py_defs \<open>definitions of the Python helpers, for evaluation of closed terms\<close>
named_theorems model_wf \<open>well-formedness facts of the model's states\<close>

section \<open>Results\<close>

text \<open>Running a step that may raise and then the rest; the rest does not run after an exception.\<close>

definition bind_res :: "'e + 'a \<Rightarrow> ('a \<Rightarrow> 'e + 'b) \<Rightarrow> 'e + 'b" where
  "bind_res m f = (case m of Inl e \<Rightarrow> Inl e | Inr x \<Rightarrow> f x)"

definition map_err :: "('e \<Rightarrow> 'f) \<Rightarrow> 'e + 'a \<Rightarrow> 'f + 'a" where
  "map_err g m = (case m of Inl e \<Rightarrow> Inl (g e) | Inr x \<Rightarrow> Inr x)"

text \<open>A comprehension over a step that may raise: the first exception ends it.\<close>

fun traverse_res :: "('a \<Rightarrow> 'e + 'b) \<Rightarrow> 'a list \<Rightarrow> 'e + 'b list" where
  "traverse_res f [] = Inr []"
| "traverse_res f (x # xs) =
     bind_res (f x) (\<lambda>y. bind_res (traverse_res f xs) (\<lambda>ys. Inr (y # ys)))"

lemma bind_res_simps [simp]: "bind_res (Inl e) f = Inl e" "bind_res (Inr x) f = f x"
  by (simp_all add: bind_res_def)

lemma bind_res_Inr_iff: "bind_res m f = Inr y \<longleftrightarrow> (\<exists>x. m = Inr x \<and> f x = Inr y)"
  by (cases m) auto

lemma bind_res_Inl_iff: "bind_res m f = Inl e \<longleftrightarrow> m = Inl e \<or> (\<exists>x. m = Inr x \<and> f x = Inl e)"
  by (cases m) auto

lemma map_err_simps [simp]: "map_err g (Inl e) = Inl (g e)" "map_err g (Inr x) = Inr x"
  by (simp_all add: map_err_def)

lemma map_err_Inr_iff [simp]: "map_err g m = Inr x \<longleftrightarrow> m = Inr x"
  by (cases m) auto

lemma map_err_Inl_iff: "map_err g m = Inl e \<longleftrightarrow> (\<exists>e'. m = Inl e' \<and> e = g e')"
  by (cases m) auto

lemma traverse_res_Inr_iff: "traverse_res f xs = Inr ys \<longleftrightarrow> list_all2 (\<lambda>x y. f x = Inr y) xs ys"
  by (induction xs arbitrary: ys) (auto simp: bind_res_Inr_iff list_all2_Cons1)

lemma traverse_res_Inl: "traverse_res f xs = Inl e \<Longrightarrow> \<exists>x \<in> set xs. f x = Inl e"
  by (induction xs) (auto simp: bind_res_Inl_iff)

section \<open>Strings\<close>

definition py_isspace :: "char \<Rightarrow> bool" where
  "py_isspace c \<longleftrightarrow> (let n = (of_char c :: nat) in
     (9 \<le> n \<and> n \<le> 13) \<or> (28 \<le> n \<and> n \<le> 32) \<or> n = 133 \<or> n = 160)"

definition py_isdigit :: "char \<Rightarrow> bool" where
  "py_isdigit c \<longleftrightarrow> (let n = (of_char c :: nat) in 48 \<le> n \<and> n \<le> 57)"

definition py_lower_char :: "char \<Rightarrow> char" where
  "py_lower_char c = (let n = (of_char c :: nat) in
     if (65 \<le> n \<and> n \<le> 90) \<or> (192 \<le> n \<and> n \<le> 222 \<and> n \<noteq> 215) then char_of (n + 32) else c)"

definition py_lower :: "string \<Rightarrow> string" where
  "py_lower s = map py_lower_char s"

definition py_lstrip :: "string \<Rightarrow> string" where
  "py_lstrip s = dropWhile py_isspace s"

definition py_rstrip :: "string \<Rightarrow> string" where
  "py_rstrip s = rev (dropWhile py_isspace (rev s))"

definition py_strip :: "string \<Rightarrow> string" where
  "py_strip s = py_rstrip (py_lstrip s)"

definition py_startswith :: "string \<Rightarrow> string \<Rightarrow> bool" where
  "py_startswith s p \<longleftrightarrow> take (length p) s = p"

definition py_endswith :: "string \<Rightarrow> string \<Rightarrow> bool" where
  "py_endswith s p \<longleftrightarrow> py_startswith (rev s) (rev p)"

text \<open>\<^verbatim>\<open>sub in s\<close>\<close>

fun py_contains :: "string \<Rightarrow> string \<Rightarrow> bool" where
  "py_contains sub [] = (sub = [])"
| "py_contains sub (c # s) = (py_startswith (c # s) sub \<or> py_contains sub s)"

text \<open>\<^verbatim>\<open>s.find(c)\<close> for one character: \<open>None\<close> stands for \<open>-1\<close>.\<close>

fun py_find :: "char \<Rightarrow> string \<Rightarrow> nat option" where
  "py_find c [] = None"
| "py_find c (x # s) = (if x = c then Some 0 else map_option Suc (py_find c s))"

text \<open>\<^verbatim>\<open>s.partition(c)\<close>: what stands before the first \<open>c\<close> and what stands after it.\<close>

definition py_before :: "char \<Rightarrow> string \<Rightarrow> string" where
  "py_before c s = takeWhile (\<lambda>x. x \<noteq> c) s"

definition py_after :: "char \<Rightarrow> string \<Rightarrow> string" where
  "py_after c s = tl (dropWhile (\<lambda>x. x \<noteq> c) s)"

text \<open>\<^verbatim>\<open>s.split(c)\<close> for a one-character separator: never empty, keeps empty fields.\<close>

fun py_split :: "char \<Rightarrow> string \<Rightarrow> string list" where
  "py_split c [] = [ [] ]"
| "py_split c (x # s) =
     (if x = c then [] # py_split c s
      else (case py_split c s of [] \<Rightarrow> [ [x] ] | f # fs \<Rightarrow> (x # f) # fs))"

text \<open>\<^verbatim>\<open>s.split()\<close>: the maximal runs of non-space characters.\<close>

fun py_words_acc :: "string \<Rightarrow> string \<Rightarrow> string list" where
  "py_words_acc cur [] = (if cur = [] then [] else [rev cur])"
| "py_words_acc cur (c # s) =
     (if py_isspace c then (if cur = [] then py_words_acc [] s else rev cur # py_words_acc [] s)
      else py_words_acc (c # cur) s)"

definition py_words :: "string \<Rightarrow> string list" where
  "py_words s = py_words_acc [] s"

fun py_join :: "string \<Rightarrow> string list \<Rightarrow> string" where
  "py_join sep [] = []"
| "py_join sep [x] = x"
| "py_join sep (x # y # xs) = x @ sep @ py_join sep (y # xs)"

section \<open>Numbers as text\<close>

definition digit_char :: "nat \<Rightarrow> char" where
  "digit_char n = ''0123456789'' ! n"

definition digit_val :: "char \<Rightarrow> nat" where
  "digit_val c = of_char c - 48"

fun py_str_nat :: "nat \<Rightarrow> string" where
  "py_str_nat n = (if n < 10 then [digit_char n] else py_str_nat (n div 10) @ [digit_char (n mod 10)])"

declare py_str_nat.simps [simp del]

definition py_str_int :: "int \<Rightarrow> string" where
  "py_str_int i = (if i < 0 then CHR ''-'' # py_str_nat (nat (- i)) else py_str_nat (nat i))"

definition digits_val :: "string \<Rightarrow> nat" where
  "digits_val ds = foldl (\<lambda>acc c. acc * 10 + digit_val c) 0 ds"

definition all_digits :: "string \<Rightarrow> bool" where
  "all_digits ds \<longleftrightarrow> ds \<noteq> [] \<and> list_all py_isdigit ds"

text \<open>The pattern \<^verbatim>\<open>[+-]?\d+\<close> and the value \<^verbatim>\<open>int(text)\<close> of a text that matches it.\<close>

fun py_int_literal :: "string \<Rightarrow> int option" where
  "py_int_literal [] = None"
| "py_int_literal (c # s) =
     (if c = CHR ''+'' then (if all_digits s then Some (int (digits_val s)) else None)
      else if c = CHR ''-'' then (if all_digits s then Some (- int (digits_val s)) else None)
      else if all_digits (c # s) then Some (int (digits_val (c # s))) else None)"

text \<open>\<^verbatim>\<open>int(text)\<close> raises \<^verbatim>\<open>ValueError\<close> for more digits than \<^verbatim>\<open>sys.get_int_max_str_digits()\<close>, 4300 by default.\<close>

definition INT_MAX_STR_DIGITS :: nat where
  "INT_MAX_STR_DIGITS = 4300"

definition int_digits :: "string \<Rightarrow> nat" where
  "int_digits s = length (filter py_isdigit s)"

section \<open>Floats\<close>

datatype pyfloat = Finite real | PosInf | NegInf | NotANumber

text \<open>The comparison \<^verbatim>\<open>x < 0\<close>: false for \<open>nan\<close>, as every order comparison with \<open>nan\<close> is.\<close>

fun float_neg :: "pyfloat \<Rightarrow> bool" where
  "float_neg (Finite r) = (r < 0)"
| "float_neg NegInf = True"
| "float_neg PosInf = False"
| "float_neg NotANumber = False"

text \<open>Arithmetic and comparisons of a float with a finite one: \<open>r + f\<close>, \<open>f - r\<close>, \<open>r < f\<close>, \<open>r >= f\<close> and \<^verbatim>\<open>max(0.0, f)\<close>.\<close>

fun float_plus :: "real \<Rightarrow> pyfloat \<Rightarrow> pyfloat" where
  "float_plus r (Finite s) = Finite (r + s)"
| "float_plus r f = f"

fun float_minus :: "pyfloat \<Rightarrow> real \<Rightarrow> pyfloat" where
  "float_minus (Finite s) r = Finite (s - r)"
| "float_minus f r = f"

fun float_exceeds :: "pyfloat \<Rightarrow> real \<Rightarrow> bool" where
  "float_exceeds (Finite s) r = (r < s)"
| "float_exceeds PosInf r = True"
| "float_exceeds _ r = False"

fun float_reached :: "pyfloat \<Rightarrow> real \<Rightarrow> bool" where
  "float_reached (Finite s) r = (s \<le> r)"
| "float_reached NegInf r = True"
| "float_reached _ r = False"

definition max_zero :: "pyfloat \<Rightarrow> pyfloat" where
  "max_zero f = (if float_exceeds f 0 then f else Finite 0)"

lemma float_exceeds_mono: "float_exceeds f s \<Longrightarrow> r \<le> s \<Longrightarrow> float_exceeds f r"
  by (cases f) auto

lemma max_zero_minus [simp]: "float_exceeds f r \<Longrightarrow> max_zero (float_minus f r) = float_minus f r"
  by (cases f) (auto simp: max_zero_def)

lemma float_reached_mono: "float_reached f r \<Longrightarrow> r \<le> s \<Longrightarrow> float_reached f s"
  by (cases f) auto

text \<open>A \<open>digitpart\<close> of Python's number grammar: digits, single underscores between them.\<close>

fun digitpart_rest :: "string \<Rightarrow> bool" where
  "digitpart_rest [] = True"
| "digitpart_rest [c] = py_isdigit c"
| "digitpart_rest (c # d # s) =
     (if py_isdigit c then digitpart_rest (d # s)
      else c = CHR ''_'' \<and> py_isdigit d \<and> digitpart_rest s)"

fun digitpart :: "string \<Rightarrow> bool" where
  "digitpart [] = False"
| "digitpart (c # s) = (py_isdigit c \<and> digitpart_rest s)"

definition drop_underscores :: "string \<Rightarrow> string" where
  "drop_underscores s = filter (\<lambda>c. c \<noteq> CHR ''_'') s"

text \<open>
  The unsigned decimal forms: \<^verbatim>\<open>digits\<close>, \<^verbatim>\<open>digits.\<close>, \<^verbatim>\<open>.digits\<close> and \<^verbatim>\<open>digits.digits\<close>,
  with the value as a whole number and the number of its decimals.
\<close>

definition decimal_form :: "string \<Rightarrow> (nat \<times> nat) option" where
  "decimal_form s =
     (let a = py_before (CHR ''.'') s; b = py_after (CHR ''.'') s;
          a' = drop_underscores a; b' = drop_underscores b in
      if CHR ''.'' \<notin> set s then (if digitpart s then Some (digits_val a', 0) else None)
      else if (digitpart a \<and> (b = [] \<or> digitpart b)) \<or> (a = [] \<and> digitpart b)
        then Some (digits_val (a' @ b'), length b')
      else None)"

definition split_exponent :: "string \<Rightarrow> string \<times> string option" where
  "split_exponent s =
     (let m = takeWhile (\<lambda>c. c \<noteq> CHR ''e'') s; r = dropWhile (\<lambda>c. c \<noteq> CHR ''e'') s in
      (m, if r = [] then None else Some (tl r)))"

fun exponent_val :: "string \<Rightarrow> int option" where
  "exponent_val [] = None"
| "exponent_val (c # s) =
     (if c = CHR ''+'' then (if digitpart s then Some (int (digits_val (drop_underscores s))) else None)
      else if c = CHR ''-'' then (if digitpart s then Some (- int (digits_val (drop_underscores s))) else None)
      else if digitpart (c # s) then Some (int (digits_val (drop_underscores (c # s)))) else None)"

definition scale10 :: "nat \<Rightarrow> int \<Rightarrow> real" where
  "scale10 m k = (if 0 \<le> k then real m * 10 ^ nat k else real m / 10 ^ nat (- k))"

definition unsigned_float :: "string \<Rightarrow> pyfloat option" where
  "unsigned_float s =
     (if s = ''inf'' \<or> s = ''infinity'' then Some PosInf
      else if s = ''nan'' then Some NotANumber
      else (case split_exponent s of
          (m, None) \<Rightarrow> map_option (\<lambda>(v, d). Finite (scale10 v (- int d))) (decimal_form m)
        | (m, Some e) \<Rightarrow>
            (case (decimal_form m, exponent_val e) of
               (Some (v, d), Some k) \<Rightarrow> Some (Finite (scale10 v (k - int d)))
             | _ \<Rightarrow> None)))"

fun float_negate :: "pyfloat \<Rightarrow> pyfloat" where
  "float_negate (Finite r) = Finite (- r)"
| "float_negate PosInf = NegInf"
| "float_negate NegInf = PosInf"
| "float_negate NotANumber = NotANumber"

text \<open>\<^verbatim>\<open>float(text)\<close>: \<open>None\<close> is the \<^verbatim>\<open>ValueError\<close>.\<close>

definition py_float :: "string \<Rightarrow> pyfloat option" where
  "py_float text =
     (let s = py_lower (py_strip text) in
      case s of
        [] \<Rightarrow> None
      | c # r \<Rightarrow> (if c = CHR ''+'' then unsigned_float r
                 else if c = CHR ''-'' then map_option float_negate (unsigned_float r)
                 else unsigned_float s))"

section \<open>Loosely typed values\<close>

datatype json =
    JNull
  | JBool bool
  | JInt int
  | JFloat pyfloat
  | JStr string
  | JList "json list"
  | JDict "(string \<times> json) list"

text \<open>\<^verbatim>\<open>isinstance(v, int)\<close> also holds for a \<^verbatim>\<open>bool\<close>, whose value is then 0 or 1.\<close>

fun as_int :: "json \<Rightarrow> int option" where
  "as_int (JInt i) = Some i"
| "as_int (JBool b) = Some (if b then 1 else 0)"
| "as_int _ = None"

fun as_str :: "json \<Rightarrow> string option" where
  "as_str (JStr s) = Some s"
| "as_str _ = None"

fun as_list :: "json \<Rightarrow> json list option" where
  "as_list (JList xs) = Some xs"
| "as_list _ = None"

fun as_dict :: "json \<Rightarrow> (string \<times> json) list option" where
  "as_dict (JDict d) = Some d"
| "as_dict _ = None"

text \<open>\<^verbatim>\<open>d.get(key)\<close>: a missing key reads as \<^verbatim>\<open>None\<close>.\<close>

definition dict_get :: "string \<Rightarrow> (string \<times> json) list \<Rightarrow> json" where
  "dict_get k d = (case map_of d k of None \<Rightarrow> JNull | Some v \<Rightarrow> v)"

text \<open>A list all of whose items are strings (\<^verbatim>\<open>all(isinstance(item, str) for item in xs)\<close>).\<close>

fun str_items :: "json list \<Rightarrow> string list option" where
  "str_items [] = Some []"
| "str_items (v # vs) =
     (case (as_str v, str_items vs) of (Some s, Some ss) \<Rightarrow> Some (s # ss) | _ \<Rightarrow> None)"

text \<open>Python's truth of a value.\<close>

fun truthy :: "json \<Rightarrow> bool" where
  "truthy JNull = False"
| "truthy (JBool b) = b"
| "truthy (JInt i) = (i \<noteq> 0)"
| "truthy (JFloat f) = (f \<noteq> Finite 0)"
| "truthy (JStr s) = (s \<noteq> [])"
| "truthy (JList xs) = (xs \<noteq> [])"
| "truthy (JDict d) = (d \<noteq> [])"

lemmas py_char_defs = py_isspace_def py_isdigit_def py_lower_char_def digit_val_def Let_def
lemmas py_strip_defs = py_strip_def py_rstrip_def py_lstrip_def

declare py_char_defs [py_defs] py_strip_defs [py_defs] py_lower_def [py_defs]
  py_startswith_def [py_defs] py_endswith_def [py_defs] py_before_def [py_defs] py_after_def [py_defs]
  INT_MAX_STR_DIGITS_def [py_defs] int_digits_def [py_defs] py_words_def [py_defs] digit_char_def [py_defs] py_str_int_def [py_defs] digits_val_def [py_defs]
  all_digits_def [py_defs] drop_underscores_def [py_defs] decimal_form_def [py_defs]
  split_exponent_def [py_defs] scale10_def [py_defs] unsigned_float_def [py_defs]
  py_float_def [py_defs] dict_get_def [py_defs]

section \<open>Lemmas on strings\<close>

lemma py_split_nonempty [simp]: "py_split c s \<noteq> []"
  by (induction s) (auto split: list.splits)

lemma py_strip_Nil [simp]: "py_strip [] = []"
  by (simp add: py_strip_defs)

lemma py_lstrip_fixed: "s = [] \<or> \<not> py_isspace (hd s) \<Longrightarrow> py_lstrip s = s"
  by (cases s) (auto simp: py_lstrip_def)

lemma py_rstrip_fixed: "s = [] \<or> \<not> py_isspace (last s) \<Longrightarrow> py_rstrip s = s"
  by (cases s rule: rev_cases) (auto simp: py_rstrip_def)

lemma py_lstrip_hd: "py_lstrip s = [] \<or> \<not> py_isspace (hd (py_lstrip s))"
  unfolding py_lstrip_def by (metis hd_dropWhile dropWhile_eq_Nil_conv)

lemma py_rstrip_last: "py_rstrip s = [] \<or> \<not> py_isspace (last (py_rstrip s))"
  using py_lstrip_hd [of "rev s"] by (auto simp: py_rstrip_def py_lstrip_def last_rev)

lemma py_rstrip_prefix: "\<exists>w. s = py_rstrip s @ w \<and> list_all py_isspace w"
proof -
  have "rev s = takeWhile py_isspace (rev s) @ dropWhile py_isspace (rev s)" by simp
  then have "s = py_rstrip s @ rev (takeWhile py_isspace (rev s))"
    unfolding py_rstrip_def by (metis rev_append rev_rev_ident)
  moreover have "list_all py_isspace (rev (takeWhile py_isspace (rev s)))"
    by (auto simp: list_all_iff dest: set_takeWhileD)
  ultimately show ?thesis by blast
qed

lemma py_rstrip_hd: "py_rstrip s \<noteq> [] \<Longrightarrow> hd (py_rstrip s) = hd s"
  by (metis hd_append2 py_rstrip_prefix)

lemma py_strip_ends:
  assumes "py_strip s \<noteq> []"
  shows "\<not> py_isspace (hd (py_strip s))" and "\<not> py_isspace (last (py_strip s))"
proof -
  from assms have ne: "py_lstrip s \<noteq> []"
    by (auto simp: py_strip_def py_rstrip_def)
  show "\<not> py_isspace (hd (py_strip s))"
    using assms py_rstrip_hd [of "py_lstrip s"] py_lstrip_hd [of s] ne by (simp add: py_strip_def)
  show "\<not> py_isspace (last (py_strip s))"
    using assms py_rstrip_last [of "py_lstrip s"] by (simp add: py_strip_def)
qed

lemma py_strip_fixed:
  "s = [] \<or> (\<not> py_isspace (hd s) \<and> \<not> py_isspace (last s)) \<Longrightarrow> py_strip s = s"
  by (auto simp: py_strip_def py_lstrip_fixed py_rstrip_fixed)

lemma py_strip_idem [simp]: "py_strip (py_strip s) = py_strip s"
  by (cases "py_strip s = []") (auto intro!: py_strip_fixed dest: py_strip_ends)

lemma py_contains_iff: "py_contains sub s \<longleftrightarrow> (\<exists>a b. s = a @ sub @ b)"
proof (induction s)
  case Nil
  then show ?case by auto
next
  case (Cons c s)
  have "(\<exists>a b. c # s = a @ sub @ b) \<longleftrightarrow> (\<exists>b. c # s = sub @ b) \<or> (\<exists>a b. s = a @ sub @ b)"
    by (metis append_Cons append_Nil append_self_conv2 list.sel(3) neq_Nil_conv)
  moreover have "py_startswith (c # s) sub \<longleftrightarrow> (\<exists>b. c # s = sub @ b)"
    unfolding py_startswith_def by (metis append_eq_conv_conj append_take_drop_id)
  ultimately show ?case using Cons by simp
qed

lemma py_startswith_append [simp]: "py_startswith (p @ s) p"
  by (simp add: py_startswith_def)

section \<open>Decimal text of natural numbers\<close>

lemma digits_val_snoc: "digits_val (ds @ [d]) = digits_val ds * 10 + digit_val d"
  by (simp add: digits_val_def)

lemma digit_char_cases: "n < 10 \<Longrightarrow> n \<in> {0, 1, 2, 3, 4, 5, 6, 7, 8, 9 :: nat}"
  by auto

lemma digit_val_digit_char: "n < 10 \<Longrightarrow> digit_val (digit_char n) = n"
  by (drule digit_char_cases) (auto simp: digit_char_def digit_val_def)

lemma isdigit_digit_char: "n < 10 \<Longrightarrow> py_isdigit (digit_char n)"
  by (drule digit_char_cases) (auto simp: digit_char_def py_isdigit_def)

lemma py_str_nat_digits: "all_digits (py_str_nat n)"
proof (induction n rule: py_str_nat.induct)
  case (1 n)
  then show ?case
    by (cases "n < 10") (simp_all add: py_str_nat.simps [of n] all_digits_def isdigit_digit_char)
qed

lemma digits_val_py_str_nat [simp]: "digits_val (py_str_nat n) = n"
proof (induction n rule: py_str_nat.induct)
  case (1 n)
  then show ?case
    by (cases "n < 10")
      (simp_all add: py_str_nat.simps [of n] digits_val_snoc digit_val_digit_char,
       simp add: digits_val_def digit_val_digit_char)
qed

lemma digit_not_sign: "py_isdigit c \<Longrightarrow> c \<noteq> CHR ''+'' \<and> c \<noteq> CHR ''-''"
  by (auto simp: py_isdigit_def)

lemma py_int_literal_str_nat: "py_int_literal (py_str_nat n) = Some (int n)"
proof (cases "py_str_nat n")
  case Nil
  with py_str_nat_digits [of n] show ?thesis by (simp add: all_digits_def)
next
  case (Cons c s)
  with py_str_nat_digits [of n] digits_val_py_str_nat [of n] show ?thesis
    by (auto simp: all_digits_def dest: digit_not_sign)
qed

text \<open>\<^verbatim>\<open>int(str(i)) == i\<close> for every integer.\<close>

lemma py_int_literal_str_int: "py_int_literal (py_str_int i) = Some i"
  using py_str_nat_digits [of "nat (- i)"]
  by (auto simp: py_str_int_def py_int_literal_str_nat)

section \<open>Digests\<close>

text \<open>Reading and writing JSON and the SHA-256 digest, as arguments of the definitions that use them.\<close>

record hasher =
  json_loads :: "string \<Rightarrow> json option"
  json_dumps :: "json \<Rightarrow> string"
  sha256_hex :: "string \<Rightarrow> string"

section \<open>Ordered dictionaries\<close>

text \<open>An \<^verbatim>\<open>OrderedDict\<close> is an association list; moving a key to its end deletes the entry and appends it.\<close>

lemma map_of_AList_delete: "map_of (AList.delete k xs) = (map_of xs)(k := None)"
  by (induction xs) auto

lemma set_AList_update: "p \<in> set (AList.update k v xs) \<Longrightarrow> p = (k, v) \<or> p \<in> set xs"
  by (induction xs) (auto split: if_splits)

lemma length_delete_less: "k \<in> fst ` set xs \<Longrightarrow> length (AList.delete k xs) < length xs"
proof (induction xs)
  case (Cons p xs)
  have "length (AList.delete k xs) \<le> length xs"
    by (simp add: AList.delete_eq)
  with Cons show ?case by auto
qed simp

lemma map_of_moved [simp]: "map_of (AList.delete k xs @ [(k, v)]) = (map_of xs)(k \<mapsto> v)"
  by (auto simp: map_of_AList_delete map_add_def split: option.splits)

lemma set_moved: "set (AList.delete k xs @ [(k, v)]) \<subseteq> insert (k, v) (set xs)"
  by (auto simp: AList.delete_eq)

lemma distinct_moved: "distinct (map fst xs) \<Longrightarrow> distinct (map fst (AList.delete k xs @ [(k, v)]))"
  by (auto simp: AList.delete_eq distinct_map_filter)

lemma length_moved: "map_of xs k = Some w \<Longrightarrow> length (AList.delete k xs @ [(k, v)]) \<le> length xs"
  using length_delete_less [of k xs] map_of_SomeD [of xs k w] by force

end
