(* ===== verification/Model_Utils.thy ===== *)
theory Model_Utils
  imports Py_Prelude
begin

text \<open>
  Model selectors as text, \<^verbatim>\<open>src/core/domain/model_utils.py\<close>: explicit \<^verbatim>\<open>backend:model\<close>
  selectors, the split into backend and model, and the URI parameters of a selector.
  \<^verbatim>\<open>urllib.parse.parse_qs\<close> is modelled for percent escapes of ASCII characters; an escape of a
  byte above 127 (UTF-8) stays as it is, its decoded text being outside the character set.
  None of the modelled operations raises, so the \<^verbatim>\<open>except\<close> fall-backs of
  \<^verbatim>\<open>parse_model_with_params\<close> are not reached.
\<close>

section \<open>Data\<close>

type_synonym uri_params = "(string \<times> string) list"

record ParsedModel =
  pm_backend_type :: string
  pm_model_name :: string

record ParsedModelWithParams =
  backend_type :: string
  model_name :: string
  uri_params :: uri_params

definition RESERVED_SELECTOR_NAMESPACES :: "string list" where
  "RESERVED_SELECTOR_NAMESPACES = [''alias'', ''auto'']"

section \<open>Query strings\<close>

definition hex_val :: "char \<Rightarrow> nat option" where
  "hex_val c = (let n = of_char c in
     if 48 \<le> n \<and> n \<le> 57 then Some (n - 48)
     else if 65 \<le> n \<and> n \<le> 70 then Some (n - 55)
     else if 97 \<le> n \<and> n \<le> 102 then Some (n - 87) else None)"

fun unquote :: "string \<Rightarrow> string" where
  "unquote [] = []"
| "unquote [a] = [a]"
| "unquote [a, b] = [a, b]"
| "unquote (a # b # c # s) =
     (case (a = CHR ''%'', hex_val b, hex_val c) of
        (True, Some h, Some l) \<Rightarrow>
          (if h * 16 + l < 128 then char_of (h * 16 + l) # unquote s else a # unquote (b # c # s))
      | _ \<Rightarrow> a # unquote (b # c # s))"

definition plus_to_space :: "string \<Rightarrow> string" where
  "plus_to_space s = map (\<lambda>c. if c = CHR ''+'' then CHR '' '' else c) s"

definition qs_text :: "string \<Rightarrow> string" where
  "qs_text s = unquote (plus_to_space s)"

text \<open>One \<^verbatim>\<open>name=value\<close> field: fields with no \<open>=\<close> or with a blank value are dropped.\<close>

definition qs_pair :: "string \<Rightarrow> (string \<times> string) option" where
  "qs_pair field =
     (if CHR ''='' \<in> set field \<and> py_after (CHR ''='') field \<noteq> []
      then Some (qs_text (py_before (CHR ''='') field), qs_text (py_after (CHR ''='') field))
      else None)"

text \<open>\<^verbatim>\<open>parse_qs(query, keep_blank_values=False)\<close>: all values per name, names in first-seen order.\<close>

definition parse_qs :: "string \<Rightarrow> (string \<times> string list) list" where
  "parse_qs query =
     foldl (\<lambda>d (k, v). AList.update k ((case map_of d k of None \<Rightarrow> [] | Some vs \<Rightarrow> vs) @ [v]) d)
       [] (List.map_filter qs_pair (py_split (CHR ''&'') query))"

section \<open>Operations\<close>

definition has_explicit_backend_selector :: "string \<Rightarrow> bool" where
  "has_explicit_backend_selector model =
     (let route_portion = py_before (CHR ''?'') model in
      case py_find (CHR '':'') route_portion of
        None \<Rightarrow> False
      | Some first_colon_index \<Rightarrow>
          (let namespace = py_lower (py_strip (take first_colon_index route_portion)) in
           if namespace \<in> set RESERVED_SELECTOR_NAMESPACES then False
           else (case py_find (CHR ''/'') route_portion of
                   None \<Rightarrow> True
                 | Some first_slash_index \<Rightarrow> first_colon_index < first_slash_index)))"

definition parse_model_backend :: "string \<Rightarrow> string \<Rightarrow> ParsedModel" where
  "parse_model_backend model default_backend =
     (if has_explicit_backend_selector model
      then \<lparr>pm_backend_type = py_before (CHR '':'') model,
            pm_model_name = py_before (CHR ''?'') (py_after (CHR '':'') model)\<rparr>
      else \<lparr>pm_backend_type = default_backend, pm_model_name = py_before (CHR ''?'') model\<rparr>)"

text \<open>The last \<open>?\<close> of a text, as \<^verbatim>\<open>model[:rfind]\<close> and \<^verbatim>\<open>model[rfind + 1:]\<close>.\<close>

definition before_last :: "char \<Rightarrow> string \<Rightarrow> string" where
  "before_last c s = rev (py_after c (rev s))"

definition after_last :: "char \<Rightarrow> string \<Rightarrow> string" where
  "after_last c s = rev (py_before c (rev s))"

definition split_query :: "string \<Rightarrow> string \<times> string" where
  "split_query model =
     (if py_startswith model ''hybrid:['' \<and> py_endswith model '']'' \<and> CHR ''?'' \<in> set model
      then (before_last (CHR ''?'') model @ '']'', butlast (after_last (CHR ''?'') model))
      else if CHR ''?'' \<in> set model
      then (py_before (CHR ''?'') model, py_after (CHR ''?'') model)
      else (model, []))"

definition params_of_query :: "string \<Rightarrow> uri_params" where
  "params_of_query query_string =
     (if query_string = [] then []
      else map (\<lambda>(key, value_list). (key, last value_list)) (parse_qs query_string))"

definition parse_model_with_params :: "string \<Rightarrow> string \<Rightarrow> ParsedModelWithParams" where
  "parse_model_with_params model default_backend =
     (let (base_model, query_string) = split_query model;
          parsed_model = parse_model_backend base_model default_backend in
      \<lparr>backend_type = pm_backend_type parsed_model,
       model_name = pm_model_name parsed_model,
       uri_params = params_of_query query_string\<rparr>)"

lemmas model_utils_defs =
  RESERVED_SELECTOR_NAMESPACES_def hex_val_def plus_to_space_def qs_text_def qs_pair_def
  parse_qs_def has_explicit_backend_selector_def parse_model_backend_def before_last_def
  after_last_def split_query_def params_of_query_def parse_model_with_params_def

declare model_utils_defs [py_defs] List.map_filter_def [py_defs]

section \<open>Lemmas\<close>

lemma py_before_notin: "c \<notin> set s \<Longrightarrow> py_before c s = s"
  by (auto simp: py_before_def takeWhile_eq_all_conv)

lemma py_before_hit: "c \<notin> set s \<Longrightarrow> py_before c (s @ c # t) = s"
  by (simp add: py_before_def takeWhile_append)

lemma py_after_hit: "c \<notin> set s \<Longrightarrow> py_after c (s @ c # t) = t"
  by (simp add: py_after_def dropWhile_append)

lemma notin_py_before [simp]: "c \<notin> set (py_before c s)"
  by (auto simp: py_before_def dest: set_takeWhileD)

lemma py_before_after: "c \<in> set s \<Longrightarrow> s = py_before c s @ c # py_after c s"
  by (induction s) (auto simp: py_before_def py_after_def)

lemma py_find_hit: "c \<notin> set s \<Longrightarrow> py_find c (s @ c # t) = Some (length s)"
  by (induction s) auto

lemma py_find_None_iff: "py_find c s = None \<longleftrightarrow> c \<notin> set s"
  by (induction s) auto

lemma py_find_Some_ge: "c \<notin> set s \<Longrightarrow> py_find c (s @ t) = Some i \<Longrightarrow> length s \<le> i"
  by (induction s arbitrary: i) auto

lemma py_before_append_notin: "c \<notin> set s \<Longrightarrow> py_before c (s @ t) = s @ py_before c t"
  by (simp add: py_before_def takeWhile_append)

text \<open>
  A backend name that is usable in an explicit selector: no separator in it and not one of the
  reserved namespaces.
\<close>

definition plain_backend_name :: "string \<Rightarrow> bool" where
  "plain_backend_name b \<longleftrightarrow>
     CHR '':'' \<notin> set b \<and> CHR ''/'' \<notin> set b \<and> CHR ''?'' \<notin> set b \<and>
     py_lower (py_strip b) \<notin> set RESERVED_SELECTOR_NAMESPACES"

lemma explicit_selector_of_plain:
  assumes "plain_backend_name b"
  shows "has_explicit_backend_selector (b @ CHR '':'' # m)"
proof -
  have route: "py_before (CHR ''?'') (b @ CHR '':'' # m) = b @ CHR '':'' # py_before (CHR ''?'') m"
    using assms by (simp add: plain_backend_name_def py_before_append_notin, simp add: py_before_def)
  have colon: "py_find (CHR '':'') (b @ CHR '':'' # py_before (CHR ''?'') m) = Some (length b)"
    using assms by (simp add: plain_backend_name_def py_find_hit)
  have slash: "length b < i" if "py_find (CHR ''/'') (b @ CHR '':'' # py_before (CHR ''?'') m) = Some i" for i
    using py_find_Some_ge [of "CHR ''/''" "b @ [CHR '':'']" "py_before (CHR ''?'') m" i] that assms
    by (auto simp: plain_backend_name_def)
  show ?thesis
    using assms colon slash
    by (auto simp: has_explicit_backend_selector_def route plain_backend_name_def split: option.splits)
qed

lemma split_query_plain: "CHR ''?'' \<notin> set s \<Longrightarrow> split_query s = (s, [])"
  by (simp add: split_query_def)

section \<open>Properties\<close>

text \<open>
  An explicit selector \<^verbatim>\<open>backend:model\<close> whose backend name holds no separator and is not the
  reserved \<^verbatim>\<open>alias\<close> or \<^verbatim>\<open>auto\<close> namespace, and whose model has no query, parses back into exactly
  that backend and that model with no URI parameters, whatever default backend is configured; the
  model may itself contain colons and slashes.
\<close>

lemma parse_explicit_selector_roundtrip:
  assumes "plain_backend_name b" and "CHR ''?'' \<notin> set m"
  shows "parse_model_with_params (b @ '':'' @ m) dflt =
    \<lparr>backend_type = b, model_name = m, uri_params = []\<rparr>"
proof -
  have q: "CHR ''?'' \<notin> set (b @ CHR '':'' # m)"
    using assms by (auto simp: plain_backend_name_def)
  have c: "CHR '':'' \<notin> set b"
    using assms by (simp add: plain_backend_name_def)
  show ?thesis
    using explicit_selector_of_plain [OF assms(1), of m] split_query_plain [OF q] c assms(2)
    by (simp add: parse_model_with_params_def parse_model_backend_def params_of_query_def
        py_before_hit py_after_hit py_before_notin)
qed

theorem parse_explicit_selector_roundtrip_witness:
  "plain_backend_name ''openrouter'' \<and>
   parse_model_with_params (''openrouter'' @ '':'' @ ''anthropic/claude:beta'') ''openai'' =
    \<lparr>backend_type = ''openrouter'', model_name = ''anthropic/claude:beta'', uri_params = []\<rparr>"
proof -
  have p: "plain_backend_name ''openrouter''"
    by (simp add: plain_backend_name_def py_defs)
  have q: "CHR ''?'' \<notin> set ''anthropic/claude:beta''" by simp
  show ?thesis
    using p parse_explicit_selector_roundtrip [OF p q, of "''openai''"] by blast
qed

text \<open>
  The documented hybrid selector with a query on both of its models loses its second model in
  \<^verbatim>\<open>parse_model_with_params\<close>: the model name that comes back is cut at the first query and only the
  last query is read.
\<close>

lemma parse_hybrid_two_queries_truncates:
  "parse_model_with_params
     ''hybrid:[openai:gpt-4?temperature=0.9,anthropic:claude-3?temperature=0.1]'' dflt =
    \<lparr>backend_type = ''hybrid'', model_name = ''[openai:gpt-4'',
     uri_params = [(''temperature'', ''0.1'')]\<rparr>"
  by (simp add: py_defs)

end
