(* ===== verification/Composite_Domain.thy ===== *)
theory Composite_Domain
  imports Model_Utils
begin

text \<open>
  The typed contracts of composite selector routing, \<^verbatim>\<open>src/core/domain/composite_routing.py\<close>:
  validation errors with bounded operator text, leaf selectors, group nodes and route plans with
  their field validators, and the request-scoped attempt context with its hop budget and its
  bounded branch history. A constructor of a validated model returns \<open>Inl\<close> of the message of the
  first validator that rejects.
\<close>

section \<open>Enumerations\<close>

datatype RoutingSurface = MAIN | AUXILIARY | QUALITY_VERIFIER | REPLACEMENT_BRIDGE

datatype CompositeValidationErrorCode =
    SYNTAX_ERROR | UNSUPPORTED_CONSTRUCT | INVALID_WEIGHT | INVALID_MAX_CONTEXT
  | INVALID_HANDICAP | INVALID_TTFT_TIMEOUT | INVALID_LEAF

datatype CompositeBranchOutcomeCategory =
    VALIDATION_REJECTED | INELIGIBLE | RUNTIME_FAILED | NOT_SELECTED | SELECTED | EXHAUSTED

section \<open>Bounded operator text\<close>

definition TRUNCATION_MARKER :: string where
  "TRUNCATION_MARKER = ''...(truncated)''"

definition MAX_OPERATOR_MESSAGE_CHARS :: nat where "MAX_OPERATOR_MESSAGE_CHARS = 256"

definition MAX_SELECTOR_ECHO_CHARS :: nat where "MAX_SELECTOR_ECHO_CHARS = 512"

definition truncate_for_operator_visibility :: "string \<Rightarrow> nat \<Rightarrow> string" where
  "truncate_for_operator_visibility s limit =
     (if length s \<le> limit then s
      else take (limit - length TRUNCATION_MARKER) s @ TRUNCATION_MARKER)"

record CompositeValidationErrorEnvelope =
  env_code :: CompositeValidationErrorCode
  env_message :: string
  env_selector_echo :: string

definition compact :: "string \<Rightarrow> string" where
  "compact s = py_join '' '' (py_words s)"

definition make_envelope ::
  "CompositeValidationErrorCode \<Rightarrow> string \<Rightarrow> string \<Rightarrow> CompositeValidationErrorEnvelope" where
  "make_envelope code message selector =
     \<lparr>env_code = code,
      env_message = truncate_for_operator_visibility (compact message) MAX_OPERATOR_MESSAGE_CHARS,
      env_selector_echo = truncate_for_operator_visibility (compact selector) MAX_SELECTOR_ECHO_CHARS\<rparr>"

section \<open>Leaf selectors, nodes and plans\<close>

record CompositeLeafSelector =
  raw_selector :: string
  normalized_selector :: string
  weight_annotation :: "int option"
  first_annotation :: bool
  thinker_annotation :: bool
  max_context_tokens :: "int option"
  handicap_seconds :: pyfloat
  ttft_timeout_seconds :: pyfloat
  leaf_uri_params :: uri_params
  leaf_backend_type :: string
  leaf_model_name :: string
  embedded_selector :: "string option"

text \<open>The field validators of the leaf selector, in field order.\<close>

definition validate_leaf_selector :: "CompositeLeafSelector \<Rightarrow> string + CompositeLeafSelector" where
  "validate_leaf_selector l =
     (if py_strip (raw_selector l) = [] \<or> py_strip (normalized_selector l) = []
      then Inl ''selector text cannot be empty''
      else if (case weight_annotation l of None \<Rightarrow> False | Some w \<Rightarrow> w \<le> 0)
      then Inl ''weight annotation must be positive''
      else if (case max_context_tokens l of None \<Rightarrow> False | Some n \<Rightarrow> n \<le> 0)
      then Inl ''max_context_tokens must be positive''
      else if float_neg (handicap_seconds l) \<or> float_neg (ttft_timeout_seconds l)
      then Inl ''parallel timing values must be non-negative''
      else Inr (l\<lparr>raw_selector := py_strip (raw_selector l),
                 normalized_selector := py_strip (normalized_selector l)\<rparr>))"

datatype CompositeLeafNode = CompositeLeafNode (leaf_selector: CompositeLeafSelector)

datatype CompositeNode =
    LeafNode CompositeLeafNode
  | FailoverGroupNode "CompositeLeafNode list"
  | WeightedGroupNode "CompositeLeafNode list"
  | ParallelGroupNode "CompositeLeafNode list"

definition mk_failover_group :: "CompositeLeafNode list \<Rightarrow> string + CompositeNode" where
  "mk_failover_group children =
     (if length children < 2 then Inl ''failover groups require at least two branches''
      else Inr (FailoverGroupNode children))"

definition mk_weighted_group :: "CompositeLeafNode list \<Rightarrow> string + CompositeNode" where
  "mk_weighted_group children =
     (if length children < 2 then Inl ''weighted groups require at least two branches''
      else Inr (WeightedGroupNode children))"

definition mk_parallel_group :: "CompositeLeafNode list \<Rightarrow> string + CompositeNode" where
  "mk_parallel_group children =
     (if length children < 2 then Inl ''parallel groups require at least two branches''
      else Inr (ParallelGroupNode children))"

record CompositeRoutePlan =
  plan_source_selector :: string
  plan_normalized_selector :: string
  root_node :: CompositeNode

definition mk_route_plan :: "string \<Rightarrow> string \<Rightarrow> CompositeNode \<Rightarrow> string + CompositeRoutePlan" where
  "mk_route_plan source normalized node =
     (if py_strip source = [] \<or> py_strip normalized = [] then Inl ''selector cannot be empty''
      else Inr \<lparr>plan_source_selector = py_strip source,
                plan_normalized_selector = py_strip normalized, root_node = node\<rparr>)"

record CompositeRoutingInput =
  ri_selector :: string
  ri_surface :: RoutingSurface
  require_explicit_backend :: bool
  configured_max_hops :: "int option"
  max_branch_history :: int
  ri_default_backend :: string
  prefer_first_weighted_branch :: bool
  request_context_tokens :: "int option"
  weighted_cycle_state :: "json option"

definition validate_routing_input :: "CompositeRoutingInput \<Rightarrow> string + CompositeRoutingInput" where
  "validate_routing_input ri =
     (if py_strip (ri_selector ri) = [] then Inl ''selector cannot be empty''
      else Inr (ri\<lparr>ri_selector := py_strip (ri_selector ri),
                  max_branch_history := max 1 (max_branch_history ri),
                  request_context_tokens := map_option (max 0) (request_context_tokens ri)\<rparr>))"

section \<open>Branch records and the attempt context\<close>

record CompositeBranchRecord =
  selector_fragment :: string
  outcome_category :: CompositeBranchOutcomeCategory
  br_backend :: "string option"
  br_model :: "string option"
  reason_code :: "string option"

definition mk_branch_record :: "CompositeBranchRecord \<Rightarrow> string + CompositeBranchRecord" where
  "mk_branch_record r =
     (if py_strip (selector_fragment r) = [] then Inl ''selector_fragment cannot be empty''
      else Inr (r\<lparr>selector_fragment :=
        truncate_for_operator_visibility (py_strip (selector_fragment r)) MAX_SELECTOR_ECHO_CHARS\<rparr>))"

record CompositeRoutingAttemptContext =
  ac_surface :: RoutingSurface
  max_hops :: int
  history_limit :: int
  hop_count :: int
  content_started :: bool
  exhaustion_reason :: "string option"
  branch_history :: "CompositeBranchRecord list"
  branch_history_omitted :: int

definition DEFAULT_MAX_FAILOVER_HOPS :: int where "DEFAULT_MAX_FAILOVER_HOPS = 5"

definition DEFAULT_BRANCH_HISTORY_LIMIT :: int where "DEFAULT_BRANCH_HISTORY_LIMIT = 32"

definition resolve_max_hops :: "int option \<Rightarrow> int" where
  "resolve_max_hops configured =
     (case configured of
        Some n \<Rightarrow> (if n > 0 then n else DEFAULT_MAX_FAILOVER_HOPS)
      | None \<Rightarrow> DEFAULT_MAX_FAILOVER_HOPS)"

definition create_attempt_context ::
  "RoutingSurface \<Rightarrow> int option \<Rightarrow> int \<Rightarrow> CompositeRoutingAttemptContext" where
  "create_attempt_context surface configured limit =
     \<lparr>ac_surface = surface, max_hops = resolve_max_hops configured, history_limit = max 1 limit,
      hop_count = 0, content_started = False, exhaustion_reason = None, branch_history = [],
      branch_history_omitted = 0\<rparr>"

definition is_exhausted :: "CompositeRoutingAttemptContext \<Rightarrow> bool" where
  "is_exhausted c \<longleftrightarrow> hop_count c \<ge> max_hops c"

definition remaining_hops :: "CompositeRoutingAttemptContext \<Rightarrow> int" where
  "remaining_hops c = (let remaining = max_hops c - hop_count c in if remaining > 0 then remaining else 0)"

definition note_exhaustion ::
  "string \<Rightarrow> CompositeRoutingAttemptContext \<Rightarrow> CompositeRoutingAttemptContext" where
  "note_exhaustion code c =
     (if exhaustion_reason c = None then c\<lparr>exhaustion_reason := Some code\<rparr> else c)"

definition consume_hop ::
  "string \<Rightarrow> CompositeRoutingAttemptContext \<Rightarrow> bool \<times> CompositeRoutingAttemptContext" where
  "consume_hop code c =
     (if is_exhausted c then (False, note_exhaustion code c)
      else let c' = c\<lparr>hop_count := hop_count c + 1\<rparr> in
        (True, if is_exhausted c' then note_exhaustion code c' else c'))"

definition mark_content_started :: "CompositeRoutingAttemptContext \<Rightarrow> CompositeRoutingAttemptContext" where
  "mark_content_started c = c\<lparr>content_started := True\<rparr>"

definition record_branch ::
  "CompositeBranchRecord \<Rightarrow> CompositeRoutingAttemptContext \<Rightarrow> CompositeRoutingAttemptContext" where
  "record_branch r c =
     (let h = branch_history c @ [r]; overflow = int (length h) - history_limit c in
      if int (length h) > history_limit c \<and> overflow > 0
      then c\<lparr>branch_history := drop (nat overflow) h,
             branch_history_omitted := branch_history_omitted c + overflow\<rparr>
      else c\<lparr>branch_history := h\<rparr>)"

section \<open>The attempt context as a step machine\<close>

datatype attempt_event = ConsumeHop string | MarkContentStarted | RecordBranch CompositeBranchRecord

fun attempt_step ::
  "CompositeRoutingAttemptContext \<Rightarrow> attempt_event \<Rightarrow> CompositeRoutingAttemptContext" where
  "attempt_step c (ConsumeHop code) = snd (consume_hop code c)"
| "attempt_step c MarkContentStarted = mark_content_started c"
| "attempt_step c (RecordBranch r) = record_branch r c"

definition attempt_run ::
  "CompositeRoutingAttemptContext \<Rightarrow> attempt_event list \<Rightarrow> CompositeRoutingAttemptContext" where
  "attempt_run c es = foldl attempt_step c es"

text \<open>The records that a run was asked to keep.\<close>

fun recorded :: "attempt_event list \<Rightarrow> CompositeBranchRecord list" where
  "recorded [] = []"
| "recorded (RecordBranch r # es) = r # recorded es"
| "recorded (_ # es) = recorded es"

text \<open>The number of hops that a run asked for.\<close>

fun hops_asked :: "attempt_event list \<Rightarrow> nat" where
  "hops_asked [] = 0"
| "hops_asked (ConsumeHop _ # es) = Suc (hops_asked es)"
| "hops_asked (_ # es) = hops_asked es"

lemmas attempt_defs = consume_hop_def note_exhaustion_def is_exhausted_def mark_content_started_def
  record_branch_def remaining_hops_def Let_def

text \<open>
  Abstraction of the bounded history: all records ever seen are the omitted ones followed by the
  kept ones.
\<close>

definition history_abs ::
  "CompositeBranchRecord list \<Rightarrow> CompositeRoutingAttemptContext \<Rightarrow> bool" where
  "history_abs seen c \<longleftrightarrow>
     0 < history_limit c \<and>
     branch_history c = drop (length seen - nat (history_limit c)) seen \<and>
     branch_history_omitted c = int (length seen - nat (history_limit c))"

lemma truncate_length:
  "length TRUNCATION_MARKER \<le> limit \<Longrightarrow>
   length (truncate_for_operator_visibility s limit) \<le> limit"
  by (auto simp: truncate_for_operator_visibility_def)

lemma make_envelope_bounds:
  "length (env_message (make_envelope code m s)) \<le> MAX_OPERATOR_MESSAGE_CHARS"
  "length (env_selector_echo (make_envelope code m s)) \<le> MAX_SELECTOR_ECHO_CHARS"
  by (simp_all add: make_envelope_def truncate_length TRUNCATION_MARKER_def
      MAX_OPERATOR_MESSAGE_CHARS_def MAX_SELECTOR_ECHO_CHARS_def)

lemma history_abs_record:
  assumes "history_abs seen c"
  shows "history_abs (seen @ [r]) (record_branch r c)"
proof -
  obtain n where n: "history_limit c = int n" "0 < n"
    using assms by (auto simp: history_abs_def intro: nonneg_int_cases [of "history_limit c"])
  show ?thesis
  proof (cases "length seen < n")
    case True
    with assms n show ?thesis by (auto simp: history_abs_def record_branch_def Let_def)
  next
    case False
    then have len: "int (length (branch_history c @ [r])) = int n + 1"
      using assms n by (simp add: history_abs_def)
    have "drop 1 (drop (length seen - n) seen @ [r]) = drop (Suc (length seen) - n) (seen @ [r])"
      using False n by (simp add: Suc_diff_le)
    with False len assms n show ?thesis
      by (simp add: history_abs_def record_branch_def Let_def Suc_diff_le)
  qed
qed

lemma attempt_step_history:
  "history_abs seen c \<Longrightarrow> history_abs (seen @ recorded [e]) (attempt_step c e)"
  by (cases e) (simp_all add: history_abs_record, simp_all add: attempt_defs history_abs_def)

lemma recorded_Cons: "recorded (e # es) = recorded [e] @ recorded es"
  by (cases e) auto

lemma attempt_run_history:
  "history_abs seen c \<Longrightarrow> history_abs (seen @ recorded es) (attempt_run c es)"
proof (induction es arbitrary: seen c)
  case Nil
  then show ?case by (simp add: attempt_run_def)
next
  case (Cons e es)
  from Cons.IH [OF attempt_step_history [OF Cons.prems, of e]]
  show ?case by (simp add: attempt_run_def recorded_Cons [of e es])
qed

lemma attempt_step_frame [simp]:
  "max_hops (attempt_step c e) = max_hops c"
  "history_limit (attempt_step c e) = history_limit c"
  by (cases e; simp add: attempt_defs)+

lemma attempt_step_hops:
  "hop_count (attempt_step c e) =
     (if hops_asked [e] = 1 \<and> hop_count c < max_hops c then hop_count c + 1 else hop_count c)"
  by (cases e) (auto simp: attempt_defs)

lemma hops_asked_Cons: "hops_asked (e # es) = hops_asked [e] + hops_asked es"
  by (cases e) auto

lemma hops_asked_single: "hops_asked [e] \<le> 1"
  by (cases e) auto

lemma attempt_run_hops:
  "hop_count c \<le> max_hops c \<Longrightarrow>
   hop_count (attempt_run c es) = min (max_hops c) (hop_count c + int (hops_asked es))"
proof (induction es arbitrary: c)
  case Nil
  then show ?case by (simp add: attempt_run_def)
next
  case (Cons e es)
  have le: "hop_count (attempt_step c e) \<le> max_hops (attempt_step c e)"
    using Cons.prems by (auto simp: attempt_step_hops)
  from Cons.IH [OF le] show ?case
    using Cons.prems hops_asked_single [of e]
    by (auto simp: attempt_run_def hops_asked_Cons [of e es] attempt_step_hops)
qed

lemma attempt_run_frame [simp]:
  "max_hops (attempt_run c es) = max_hops c" "history_limit (attempt_run c es) = history_limit c"
  by (induction es arbitrary: c) (simp_all add: attempt_run_def)

lemma resolve_max_hops_pos: "resolve_max_hops n > 0"
  by (simp add: resolve_max_hops_def DEFAULT_MAX_FAILOVER_HOPS_def split: option.splits)

section \<open>Properties\<close>

text \<open>
  For every run of hop requests, branch records and content marks on a fresh attempt context,
  the hop count is exactly the number of hops asked for, cut off at the budget, the budget is
  positive whatever was configured, and the context reports exhaustion exactly when the requests
  reached the budget.
\<close>

lemma attempt_hop_budget:
  "let c = attempt_run (create_attempt_context surface configured limit) es in
     0 < max_hops c \<and>
     hop_count c = min (max_hops c) (int (hops_asked es)) \<and>
     (is_exhausted c \<longleftrightarrow> int (hops_asked es) \<ge> max_hops c) \<and>
     remaining_hops c = max_hops c - hop_count c"
  using attempt_run_hops [of "create_attempt_context surface configured limit" es]
    resolve_max_hops_pos [of configured]
  by (auto simp: create_attempt_context_def is_exhausted_def remaining_hops_def Let_def)

text \<open>
  The branch history of an attempt context is a sliding window: after any run it holds the last
  \<^verbatim>\<open>history_limit\<close> records in order, never more, and \<^verbatim>\<open>branch_history_omitted\<close> counts exactly
  the records that were dropped.
\<close>

lemma attempt_history_window:
  "let c = attempt_run (create_attempt_context surface configured limit) es;
       n = length (recorded es) - nat (max 1 limit) in
     branch_history c = drop n (recorded es) \<and>
     branch_history_omitted c = int n \<and>
     int (length (branch_history c)) \<le> max 1 limit"
proof -
  have "history_abs [] (create_attempt_context surface configured limit)"
    by (simp add: history_abs_def create_attempt_context_def)
  from attempt_run_history [OF this, of es] show ?thesis
    by (auto simp: history_abs_def create_attempt_context_def Let_def)
qed

end
