(* ===== verification/Selector_Parser.thy ===== *)
theory Selector_Parser
  imports Composite_Domain
begin

text \<open>
  The composite selector parser, \<^verbatim>\<open>src/core/services/composite_selector_parser.py\<close>, operation by
  operation: detection of the top-level operator, splitting outside brackets, annotation prefixes,
  leaves, the thinker side channel and whole plans. The parameter \<open>float_str\<close> of the operations
  that format a timing is Python's text of a finite float that is not a whole number.
  \<^verbatim>\<open>int(text)\<close> has CPython's default limit on the number of digits.
\<close>

section \<open>Errors\<close>

datatype parse_error =
    CompositeSelectorValidationError CompositeValidationErrorEnvelope
  | PydanticError string
  | ValueErrorRaised
  | IntegerLimitRaised
  | OverflowErrorRaised

definition raise_validation_error ::
  "CompositeValidationErrorCode \<Rightarrow> string \<Rightarrow> string \<Rightarrow> parse_error + 'a" where
  "raise_validation_error code selector message =
     Inl (CompositeSelectorValidationError (make_envelope code message selector))"

section \<open>Scanning outside brackets\<close>

definition COMPOSITE_OPERATORS :: string where
  "COMPOSITE_OPERATORS = ''|^!''"

fun detect_from :: "nat \<Rightarrow> string \<Rightarrow> char option" where
  "detect_from depth [] = None"
| "detect_from depth (c # s) =
     (if c = CHR ''['' then detect_from (depth + 1) s
      else if c = CHR '']'' \<and> depth > 0 then detect_from (depth - 1) s
      else if depth = 0 \<and> c \<in> set COMPOSITE_OPERATORS then Some c
      else detect_from depth s)"

definition detect_primary_operator :: "string \<Rightarrow> char option" where
  "detect_primary_operator selector = detect_from 0 selector"

fun contains_from :: "nat \<Rightarrow> string \<Rightarrow> char \<Rightarrow> bool" where
  "contains_from depth [] operator = False"
| "contains_from depth (c # s) operator =
     (if c = CHR ''['' then contains_from (depth + 1) s operator
      else if c = CHR '']'' \<and> depth > 0 then contains_from (depth - 1) s operator
      else if depth = 0 \<and> c = operator then True
      else contains_from depth s operator)"

definition contains_operator_outside_brackets :: "string \<Rightarrow> char \<Rightarrow> bool" where
  "contains_operator_outside_brackets selector operator = contains_from 0 selector operator"

fun split_from :: "nat \<Rightarrow> string \<Rightarrow> string \<Rightarrow> char \<Rightarrow> string list" where
  "split_from depth cur [] operator = [cur]"
| "split_from depth cur (c # s) operator =
     (let depth' = (if c = CHR ''['' then depth + 1
                    else if c = CHR '']'' \<and> depth > 0 then depth - 1 else depth) in
      if c = operator \<and> depth' = 0 then cur # split_from depth' [] s operator
      else split_from depth' (cur @ [c]) s operator)"

definition split_top_level :: "string \<Rightarrow> char \<Rightarrow> string list" where
  "split_top_level selector operator = split_from 0 [] selector operator"

section \<open>Annotation prefixes\<close>

record PrefixAnnotations =
  pa_weight :: "int option"
  pa_first :: bool
  pa_thinker :: bool
  pa_max_context :: "int option"
  pa_handicap :: "pyfloat option"
  pa_ttft_timeout :: "pyfloat option"

definition no_annotations :: PrefixAnnotations where
  "no_annotations = \<lparr>pa_weight = None, pa_first = False, pa_thinker = False,
     pa_max_context = None, pa_handicap = None, pa_ttft_timeout = None\<rparr>"

definition ANNOTATION_TRUE_VALUES :: "string list" where
  "ANNOTATION_TRUE_VALUES = [''true'', ''yes'', ''1'']"

definition ANNOTATION_FALSE_VALUES :: "string list" where
  "ANNOTATION_FALSE_VALUES = [''false'', ''no'', ''0'']"

definition annotation_text :: "string option \<Rightarrow> string" where
  "annotation_text raw_value = (case raw_value of None \<Rightarrow> [] | Some v \<Rightarrow> py_strip v)"

definition parse_non_negative_number_annotation ::
  "string \<Rightarrow> string option \<Rightarrow> string \<Rightarrow> CompositeValidationErrorCode \<Rightarrow> parse_error + pyfloat" where
  "parse_non_negative_number_annotation key raw_value source_selector error_code =
     (let value_text = annotation_text raw_value;
          invalid = raise_validation_error error_code source_selector
            (''Invalid ['' @ key @ ''=N] annotation '' @ [CHR 0x27] @ value_text @ [CHR 0x27] @ ''.'') in
      if value_text = [] then invalid
      else (case py_float value_text of
              None \<Rightarrow> invalid
            | Some f \<Rightarrow>
                (if float_neg f
                 then raise_validation_error error_code source_selector
                   (key @ '' must be a non-negative number, received '' @ value_text @ ''.'')
                 else Inr f)))"

definition parse_positive_integer_annotation ::
  "string \<Rightarrow> string option \<Rightarrow> string \<Rightarrow> CompositeValidationErrorCode \<Rightarrow> parse_error + int" where
  "parse_positive_integer_annotation key raw_value source_selector error_code =
     (let value_text = annotation_text raw_value;
          invalid = raise_validation_error error_code source_selector
            (''Invalid ['' @ key @ ''=N] annotation '' @ [CHR 0x27] @ value_text @ [CHR 0x27] @ ''.'') in
      if value_text = [] then invalid
      else (case py_int_literal value_text of
              None \<Rightarrow> invalid
            | Some n \<Rightarrow>
                (if int_digits value_text > INT_MAX_STR_DIGITS then Inl IntegerLimitRaised
                 else if n \<le> 0
                 then raise_validation_error error_code source_selector
                   (key @ '' must be a positive integer, received '' @ py_str_int n @ ''.'')
                 else Inr n)))"

definition parse_flag_annotation :: "string \<Rightarrow> string option \<Rightarrow> string \<Rightarrow> parse_error + bool" where
  "parse_flag_annotation key raw_value source_selector =
     (case raw_value of
        None \<Rightarrow> Inr True
      | Some v \<Rightarrow>
          (let shown = ''Unsupported ['' @ key @ ''] annotation '' @ [CHR 0x27] @ ''['' @ key @ ''='' @ v
                 @ '']'' @ [CHR 0x27] @ ''. '';
               normalized_value = py_lower (py_strip v) in
           if normalized_value \<in> set ANNOTATION_TRUE_VALUES then Inr True
           else if normalized_value \<in> set ANNOTATION_FALSE_VALUES
           then raise_validation_error UNSUPPORTED_CONSTRUCT source_selector
             (shown @ ''Use ['' @ key @ ''] without negation.'')
           else raise_validation_error UNSUPPORTED_CONSTRUCT source_selector
             (shown @ ''Accepted forms: ['' @ key @ ''], ['' @ key @ ''=1], ['' @ key @ ''=yes], [''
              @ key @ ''=true].'')))"

definition parse_first_annotation :: "string option \<Rightarrow> string \<Rightarrow> parse_error + bool" where
  "parse_first_annotation = parse_flag_annotation ''first''"

definition parse_thinker_annotation :: "string option \<Rightarrow> string \<Rightarrow> parse_error + bool" where
  "parse_thinker_annotation = parse_flag_annotation ''thinker''"

text \<open>One entry of an annotation block: its key in lower case and its value, if it has one.\<close>

definition entry_key :: "string \<Rightarrow> string" where
  "entry_key entry =
     (if CHR ''='' \<in> set entry then py_lower (py_strip (py_before (CHR ''='') entry))
      else py_lower (py_strip entry))"

definition entry_value :: "string \<Rightarrow> string option" where
  "entry_value entry =
     (if CHR ''='' \<in> set entry then Some (py_strip (py_after (CHR ''='') entry)) else None)"

definition duplicate_annotation :: "string \<Rightarrow> string \<Rightarrow> parse_error + 'a" where
  "duplicate_annotation source_selector form =
     raise_validation_error UNSUPPORTED_CONSTRUCT source_selector
       (''Duplicate '' @ form @ '' annotations are not supported.'')"

definition apply_entry :: "string \<Rightarrow> PrefixAnnotations \<Rightarrow> string \<Rightarrow> parse_error + PrefixAnnotations" where
  "apply_entry source_selector a entry =
     (let key = entry_key entry; raw_value = entry_value entry in
      if key = ''weight'' then
        (if pa_weight a \<noteq> None then duplicate_annotation source_selector ''[weight=N]''
         else bind_res (parse_positive_integer_annotation ''weight'' raw_value source_selector INVALID_WEIGHT)
           (\<lambda>n. Inr (a\<lparr>pa_weight := Some n\<rparr>)))
      else if key = ''max_context'' then
        (if pa_max_context a \<noteq> None then duplicate_annotation source_selector ''[max_context=N]''
         else bind_res (parse_positive_integer_annotation ''max_context'' raw_value source_selector INVALID_MAX_CONTEXT)
           (\<lambda>n. Inr (a\<lparr>pa_max_context := Some n\<rparr>)))
      else if key = ''first'' then
        (if pa_first a then duplicate_annotation source_selector ''[first]''
         else bind_res (parse_first_annotation raw_value source_selector) (\<lambda>b. Inr (a\<lparr>pa_first := b\<rparr>)))
      else if key = ''thinker'' then
        (if pa_thinker a then duplicate_annotation source_selector ''[thinker]''
         else bind_res (parse_thinker_annotation raw_value source_selector) (\<lambda>b. Inr (a\<lparr>pa_thinker := b\<rparr>)))
      else if key = ''handicap'' then
        (if pa_handicap a \<noteq> None then duplicate_annotation source_selector ''[handicap=N]''
         else bind_res (parse_non_negative_number_annotation ''handicap'' raw_value source_selector INVALID_HANDICAP)
           (\<lambda>f. Inr (a\<lparr>pa_handicap := Some f\<rparr>)))
      else if key = ''ttft_timeout'' then
        (if pa_ttft_timeout a \<noteq> None then duplicate_annotation source_selector ''[ttft_timeout=N]''
         else bind_res (parse_non_negative_number_annotation ''ttft_timeout'' raw_value source_selector INVALID_TTFT_TIMEOUT)
           (\<lambda>f. Inr (a\<lparr>pa_ttft_timeout := Some f\<rparr>)))
      else raise_validation_error UNSUPPORTED_CONSTRUCT source_selector
        (''Unsupported annotation key '' @ [CHR 0x27] @ key @ [CHR 0x27] @ ''.''))"

fun apply_entries ::
  "string \<Rightarrow> PrefixAnnotations \<Rightarrow> string list \<Rightarrow> parse_error + PrefixAnnotations" where
  "apply_entries source_selector a [] = Inr a"
| "apply_entries source_selector a (e # es) =
     bind_res (apply_entry source_selector a e) (\<lambda>a'. apply_entries source_selector a' es)"

text \<open>The body of one round of the annotation loop, on the text between the brackets.\<close>

definition apply_block :: "string \<Rightarrow> PrefixAnnotations \<Rightarrow> string \<Rightarrow> parse_error + PrefixAnnotations" where
  "apply_block source_selector a block =
     (let annotation_block = py_strip block;
          entries = map py_strip (py_split (CHR '','') annotation_block) in
      if annotation_block = [] then
        raise_validation_error UNSUPPORTED_CONSTRUCT source_selector
          ''Empty annotation block is not supported.''
      else if [] \<in> set entries then
        raise_validation_error UNSUPPORTED_CONSTRUCT source_selector
          ''Malformed annotation list in selector branch.''
      else apply_entries source_selector a entries)"

text \<open>The loop \<^verbatim>\<open>while remaining.startswith("[")\<close>.\<close>

function annotation_loop ::
  "string \<Rightarrow> PrefixAnnotations \<Rightarrow> string \<Rightarrow> parse_error + PrefixAnnotations \<times> string" where
  "annotation_loop source_selector a remaining =
     (if remaining \<noteq> [] \<and> hd remaining = CHR ''['' then
        (case py_find (CHR '']'') remaining of
           None \<Rightarrow> raise_validation_error SYNTAX_ERROR source_selector
             ''Unclosed annotation prefix bracket in selector branch.''
         | Some closing_index \<Rightarrow>
             bind_res (apply_block source_selector a (drop 1 (take closing_index remaining)))
               (\<lambda>a'. annotation_loop source_selector a' (drop (closing_index + 1) remaining)))
      else Inr (a, remaining))"
  by pat_completeness auto
termination
  by (relation "measure (\<lambda>(s, a, r). length r)") auto

declare annotation_loop.simps [simp del]

definition extract_prefix_annotations ::
  "string \<Rightarrow> string \<Rightarrow> parse_error + PrefixAnnotations \<times> string" where
  "extract_prefix_annotations leaf_text source_selector =
     bind_res (annotation_loop source_selector no_annotations leaf_text)
       (\<lambda>(a, remaining).
          if py_startswith leaf_text ''['' \<and> (remaining = [] \<or> py_isspace (hd remaining)) then
            raise_validation_error UNSUPPORTED_CONSTRUCT source_selector
              ''Annotation prefixes must appear immediately before a selector without whitespace.''
          else Inr (a, py_strip remaining))"

section \<open>Leaves\<close>

record LeafParseResult =
  lpr_leaf :: CompositeLeafSelector
  normalized_leaf_for_plan :: string

text \<open>\<^verbatim>\<open>int(value)\<close> raises on an infinite float (OverflowError) and on nan (ValueError).\<close>

fun format_annotation_number :: "(real \<Rightarrow> string) \<Rightarrow> pyfloat \<Rightarrow> parse_error + string" where
  "format_annotation_number float_str (Finite r) =
     Inr (if r = of_int \<lfloor>r\<rfloor> then py_str_int \<lfloor>r\<rfloor> else float_str r)"
| "format_annotation_number float_str PosInf = Inl OverflowErrorRaised"
| "format_annotation_number float_str NegInf = Inl OverflowErrorRaised"
| "format_annotation_number float_str NotANumber = Inl ValueErrorRaised"

definition format_timing ::
  "(real \<Rightarrow> string) \<Rightarrow> string \<Rightarrow> pyfloat \<Rightarrow> parse_error + string list" where
  "format_timing float_str name f =
     (if f = Finite 0 then Inr []
      else bind_res (format_annotation_number float_str f) (\<lambda>s. Inr [name @ ''='' @ s]))"

definition format_parallel_leaf_for_plan ::
  "(real \<Rightarrow> string) \<Rightarrow> string \<Rightarrow> pyfloat \<Rightarrow> pyfloat \<Rightarrow> parse_error + string" where
  "format_parallel_leaf_for_plan float_str normalized_leaf handicap ttft =
     bind_res (format_timing float_str ''handicap'' handicap)
       (\<lambda>hs. bind_res (format_timing float_str ''ttft_timeout'' ttft)
         (\<lambda>ts. Inr (if hs @ ts = [] then normalized_leaf
                   else ''['' @ py_join '','' (hs @ ts) @ '']'' @ normalized_leaf)))"

text \<open>The annotations a leaf may not carry outside its kind of group.\<close>

definition check_group_annotations ::
  "bool \<Rightarrow> bool \<Rightarrow> string \<Rightarrow> PrefixAnnotations \<Rightarrow> parse_error + unit" where
  "check_group_annotations is_weighted is_parallel source_selector a =
     (if pa_weight a \<noteq> None \<and> \<not> is_weighted then
        raise_validation_error UNSUPPORTED_CONSTRUCT source_selector
          (''Weight annotations are only supported for weighted ('' @ [CHR 0x27] @ ''^'' @ [CHR 0x27] @ '') selectors.'')
      else if pa_first a \<and> \<not> is_weighted then
        raise_validation_error UNSUPPORTED_CONSTRUCT source_selector
          (''First annotations are only supported for weighted ('' @ [CHR 0x27] @ ''^'' @ [CHR 0x27] @ '') selectors.'')
      else if pa_thinker a \<and> \<not> is_weighted then
        raise_validation_error UNSUPPORTED_CONSTRUCT source_selector
          (''Thinker annotations are only supported for weighted ('' @ [CHR 0x27] @ ''^'' @ [CHR 0x27] @ '') selectors.'')
      else if pa_handicap a \<noteq> None \<and> \<not> is_parallel then
        raise_validation_error UNSUPPORTED_CONSTRUCT source_selector
          (''Handicap annotations are only supported for parallel ('' @ [CHR 0x27] @ ''!'' @ [CHR 0x27] @ '') selectors.'')
      else if pa_ttft_timeout a \<noteq> None \<and> \<not> is_parallel then
        raise_validation_error UNSUPPORTED_CONSTRUCT source_selector
          (''[ttft_timeout] annotations are only supported for parallel ('' @ [CHR 0x27] @ ''!'' @ [CHR 0x27] @ '') selectors.'')
      else Inr ())"

definition resolved_weight_of :: "int option \<Rightarrow> int" where
  "resolved_weight_of w = (case w of None \<Rightarrow> 1 | Some n \<Rightarrow> n)"

definition timing_or_zero :: "pyfloat option \<Rightarrow> pyfloat" where
  "timing_or_zero f = (case f of None \<Rightarrow> Finite 0 | Some x \<Rightarrow> x)"

text \<open>The annotation prefix and text under which a leaf appears in the normalized plan.\<close>

definition max_context_prefix :: "PrefixAnnotations \<Rightarrow> string" where
  "max_context_prefix a =
     (case pa_max_context a of None \<Rightarrow> [] | Some n \<Rightarrow> ''[max_context='' @ py_str_int n @ '']'')"

definition weighted_prefix :: "PrefixAnnotations \<Rightarrow> string" where
  "weighted_prefix a =
     ''[weight='' @ py_str_int (resolved_weight_of (pa_weight a)) @ '']''
     @ (if pa_first a then ''[first]'' else []) @ (if pa_thinker a then ''[thinker]'' else [])
     @ max_context_prefix a"

definition plan_text ::
  "(real \<Rightarrow> string) \<Rightarrow> bool \<Rightarrow> bool \<Rightarrow> string \<Rightarrow> PrefixAnnotations \<Rightarrow> string \<Rightarrow> parse_error + string" where
  "plan_text float_str is_weighted is_parallel raw_leaf a normalized_leaf =
     (if is_weighted then Inr (weighted_prefix a @ normalized_leaf)
      else if is_parallel then
        format_parallel_leaf_for_plan float_str normalized_leaf
          (timing_or_zero (pa_handicap a)) (timing_or_zero (pa_ttft_timeout a))
      else if pa_max_context a \<noteq> None then Inr (max_context_prefix a @ normalized_leaf)
      else Inr raw_leaf)"

text \<open>The checks of the parsed backend and model of a leaf.\<close>

definition check_leaf_target :: "bool \<Rightarrow> string \<Rightarrow> ParsedModelWithParams \<Rightarrow> parse_error + unit" where
  "check_leaf_target require_explicit normalized_leaf parsed =
     (if require_explicit \<and> \<not> has_explicit_backend_selector normalized_leaf then
        raise_validation_error INVALID_LEAF normalized_leaf
          ''Selector must use explicit backend:model syntax for this routing surface.''
      else if has_explicit_backend_selector normalized_leaf then
        (if py_strip (backend_type parsed) = [] \<or> py_strip (model_name parsed) = [] then
           raise_validation_error INVALID_LEAF normalized_leaf
             ''Explicit backend selector must contain both backend and model segments.''
         else Inr ())
      else if py_strip (model_name parsed) = [] then
        raise_validation_error INVALID_LEAF normalized_leaf
          ''Leaf selector model segment cannot be empty.''
      else Inr ())"

text \<open>The leaf that is built from the annotations, the selector text and its parsed target.\<close>

definition leaf_record ::
  "CompositeRoutingInput \<Rightarrow> bool \<Rightarrow> string \<Rightarrow> PrefixAnnotations \<Rightarrow> string \<Rightarrow> CompositeLeafSelector" where
  "leaf_record ri is_weighted raw_leaf_text a normalized_leaf =
     (let parsed = parse_model_with_params normalized_leaf (ri_default_backend ri) in
      \<lparr>raw_selector = raw_leaf_text, normalized_selector = normalized_leaf,
       weight_annotation = (if is_weighted then Some (resolved_weight_of (pa_weight a)) else None),
       first_annotation = (if is_weighted then pa_first a else False),
       thinker_annotation = (if is_weighted then pa_thinker a else False),
       max_context_tokens = pa_max_context a,
       handicap_seconds = timing_or_zero (pa_handicap a),
       ttft_timeout_seconds = timing_or_zero (pa_ttft_timeout a),
       leaf_uri_params = uri_params parsed,
       leaf_backend_type = backend_type parsed,
       leaf_model_name = model_name parsed,
       embedded_selector = None\<rparr>)"

definition parse_leaf ::
  "(real \<Rightarrow> string) \<Rightarrow> CompositeRoutingInput \<Rightarrow> bool \<Rightarrow> bool \<Rightarrow> string \<Rightarrow> parse_error + LeafParseResult" where
  "parse_leaf float_str ri is_weighted is_parallel leaf_text =
     (let raw_leaf_text = py_strip leaf_text in
      if raw_leaf_text = [] then
        raise_validation_error SYNTAX_ERROR (ri_selector ri) ''Composite selector contains an empty branch.''
      else
        bind_res (extract_prefix_annotations raw_leaf_text (ri_selector ri)) (\<lambda>(a, normalized_leaf).
        bind_res (check_group_annotations is_weighted is_parallel (ri_selector ri) a) (\<lambda>_.
        bind_res (plan_text float_str is_weighted is_parallel raw_leaf_text a normalized_leaf) (\<lambda>for_plan.
        bind_res (check_leaf_target (require_explicit_backend ri) normalized_leaf
            (parse_model_with_params normalized_leaf (ri_default_backend ri))) (\<lambda>_.
        bind_res (map_err PydanticError (validate_leaf_selector
            (leaf_record ri is_weighted raw_leaf_text a normalized_leaf))) (\<lambda>leaf.
        Inr \<lparr>lpr_leaf = leaf, normalized_leaf_for_plan = for_plan\<rparr>))))))"

definition embedded_leaf :: "string \<Rightarrow> string \<Rightarrow> int option \<Rightarrow> CompositeLeafSelector" where
  "embedded_leaf raw_text selector_text context_tokens =
     \<lparr>raw_selector = raw_text, normalized_selector = selector_text, weight_annotation = Some 1,
      first_annotation = False, thinker_annotation = False, max_context_tokens = context_tokens,
      handicap_seconds = Finite 0, ttft_timeout_seconds = Finite 0, leaf_uri_params = [],
      leaf_backend_type = [], leaf_model_name = [], embedded_selector = Some selector_text\<rparr>"

definition has_top_level_operator :: "string \<Rightarrow> bool" where
  "has_top_level_operator s =
     list_ex (contains_operator_outside_brackets s) COMPOSITE_OPERATORS"

definition parse_leaf_allowing_embedded_selector ::
  "(real \<Rightarrow> string) \<Rightarrow> CompositeRoutingInput \<Rightarrow> string \<Rightarrow> parse_error + LeafParseResult" where
  "parse_leaf_allowing_embedded_selector float_str ri leaf_text =
     (let raw_leaf_text = py_strip leaf_text;
          finish = (\<lambda>leaf for_plan. bind_res (map_err PydanticError (validate_leaf_selector leaf))
            (\<lambda>l. Inr \<lparr>lpr_leaf = l, normalized_leaf_for_plan = for_plan\<rparr>)) in
      if raw_leaf_text = [] then
        raise_validation_error SYNTAX_ERROR (ri_selector ri) ''Composite selector contains an empty branch.''
      else if \<not> py_startswith raw_leaf_text ''[thinker]'' \<and> has_top_level_operator raw_leaf_text then
        finish (embedded_leaf raw_leaf_text raw_leaf_text None) (''[weight=1]'' @ raw_leaf_text)
      else
        bind_res (extract_prefix_annotations raw_leaf_text (ri_selector ri)) (\<lambda>(a, normalized_leaf).
          if pa_weight a \<noteq> None \<or> pa_first a then parse_leaf float_str ri True False raw_leaf_text
          else if pa_thinker a then parse_leaf float_str ri True False raw_leaf_text
          else if has_top_level_operator normalized_leaf then
            (if pa_handicap a \<noteq> None \<or> pa_ttft_timeout a \<noteq> None then
               raise_validation_error UNSUPPORTED_CONSTRUCT (ri_selector ri)
                 ''Executor-route annotations must be inside the embedded selector.''
             else finish (embedded_leaf raw_leaf_text normalized_leaf (pa_max_context a))
               (''[weight=1]'' @ normalized_leaf))
          else parse_leaf float_str ri True False raw_leaf_text))"

section \<open>Plans\<close>

definition plan_of ::
  "CompositeRoutingInput \<Rightarrow> char \<Rightarrow> (CompositeLeafNode list \<Rightarrow> string + CompositeNode) \<Rightarrow>
   LeafParseResult list \<Rightarrow> parse_error + CompositeRoutePlan" where
  "plan_of ri operator mk leaves =
     bind_res (map_err PydanticError (mk (map (\<lambda>r. CompositeLeafNode (lpr_leaf r)) leaves)))
       (\<lambda>node. map_err PydanticError
         (mk_route_plan (ri_selector ri) (py_join [operator] (map normalized_leaf_for_plan leaves)) node))"

definition try_parse_thinker_side_channel_selector ::
  "(real \<Rightarrow> string) \<Rightarrow> CompositeRoutingInput \<Rightarrow> string list \<Rightarrow> parse_error + CompositeRoutePlan option" where
  "try_parse_thinker_side_channel_selector float_str ri parts =
     (if length parts \<noteq> 2 then Inr None
      else bind_res (traverse_res (parse_leaf_allowing_embedded_selector float_str ri) parts) (\<lambda>parsed_parts.
        let thinker_parts = filter (\<lambda>r. thinker_annotation (lpr_leaf r)) parsed_parts;
            executor_parts = filter (\<lambda>r. \<not> thinker_annotation (lpr_leaf r)) parsed_parts in
        if length thinker_parts \<noteq> 1 \<or> length executor_parts \<noteq> 1 then Inr None
        else if (case embedded_selector (lpr_leaf (hd executor_parts)) of None \<Rightarrow> True | Some s \<Rightarrow> s = [])
        then Inr None
        else bind_res (plan_of ri (CHR ''^'') mk_weighted_group parsed_parts) (\<lambda>p. Inr (Some p))))"

definition count_leaves :: "(CompositeLeafSelector \<Rightarrow> bool) \<Rightarrow> LeafParseResult list \<Rightarrow> nat" where
  "count_leaves P leaves = length (filter (\<lambda>r. P (lpr_leaf r)) leaves)"

definition check_weighted_leaves :: "CompositeRoutingInput \<Rightarrow> LeafParseResult list \<Rightarrow> parse_error + unit" where
  "check_weighted_leaves ri leaves =
     (if count_leaves first_annotation leaves > 1 then
        raise_validation_error UNSUPPORTED_CONSTRUCT (ri_selector ri)
          ''Only one branch can have a [first] annotation in a weighted group.''
      else if count_leaves thinker_annotation leaves > 1 then
        raise_validation_error UNSUPPORTED_CONSTRUCT (ri_selector ri)
          ''Only one branch can have a [thinker] annotation in a weighted group.''
      else if list_ex (\<lambda>r. first_annotation (lpr_leaf r) \<and> thinker_annotation (lpr_leaf r)) leaves then
        raise_validation_error UNSUPPORTED_CONSTRUCT (ri_selector ri)
          (''A thinker branch cannot also have a [first] annotation; ''
           @ ''there is no prior session context to reflect on during the first turn.'')
      else Inr ())"

definition other_operators :: "char \<Rightarrow> string" where
  "other_operators operator = filter (\<lambda>c. c \<noteq> operator) COMPOSITE_OPERATORS"

definition has_mixed_operator :: "char \<Rightarrow> string list \<Rightarrow> bool" where
  "has_mixed_operator operator parts =
     list_ex (\<lambda>segment. list_ex (contains_operator_outside_brackets segment) (other_operators operator)) parts"

definition mixed_operator_error :: "string \<Rightarrow> parse_error + 'a" where
  "mixed_operator_error selector =
     raise_validation_error UNSUPPORTED_CONSTRUCT selector
       (''Composite selector cannot mix failover ('' @ [CHR 0x27] @ ''|'' @ [CHR 0x27] @ ''), weighted (''
        @ [CHR 0x27] @ ''^'' @ [CHR 0x27] @ ''), and parallel ('' @ [CHR 0x27] @ ''!'' @ [CHR 0x27]
        @ '') operators in one string.'')"

definition parse :: "(real \<Rightarrow> string) \<Rightarrow> CompositeRoutingInput \<Rightarrow> parse_error + CompositeRoutePlan" where
  "parse float_str ri =
     (let selector = py_strip (ri_selector ri) in
      if selector = [] then
        raise_validation_error SYNTAX_ERROR (ri_selector ri) ''Composite selector cannot be empty.''
      else (case detect_primary_operator selector of
        None \<Rightarrow>
          bind_res (parse_leaf float_str ri False False selector) (\<lambda>single.
            map_err PydanticError (mk_route_plan (ri_selector ri) (normalized_leaf_for_plan single)
              (LeafNode (CompositeLeafNode (lpr_leaf single)))))
      | Some operator \<Rightarrow>
          (let parts = split_top_level selector operator in
           if has_mixed_operator operator parts then
             (if operator = CHR ''^'' then
                bind_res (try_parse_thinker_side_channel_selector float_str ri parts) (\<lambda>special_plan.
                  case special_plan of Some p \<Rightarrow> Inr p | None \<Rightarrow> mixed_operator_error selector)
              else mixed_operator_error selector)
           else if operator = CHR ''|'' then
             bind_res (traverse_res (parse_leaf float_str ri False False) parts)
               (\<lambda>leaves. plan_of ri operator mk_failover_group leaves)
           else if operator = CHR ''^'' then
             bind_res (traverse_res (parse_leaf float_str ri True False) parts) (\<lambda>leaves.
               bind_res (check_weighted_leaves ri leaves)
                 (\<lambda>_. plan_of ri operator mk_weighted_group leaves))
           else if operator = CHR ''!'' then
             (if list_ex (\<lambda>segment. contains_operator_outside_brackets segment (CHR ''!'')) parts then
                raise_validation_error UNSUPPORTED_CONSTRUCT selector
                  (''Parallel ('' @ [CHR 0x27] @ ''!'' @ [CHR 0x27] @ '') operator cannot appear inside a branch selector.'')
              else bind_res (traverse_res (parse_leaf float_str ri False True) parts)
                (\<lambda>leaves. plan_of ri operator mk_parallel_group leaves))
           else raise_validation_error SYNTAX_ERROR selector
             ''Composite selector contains an unsupported operator token.'')))"

lemmas selector_scan_defs = COMPOSITE_OPERATORS_def detect_primary_operator_def
  contains_operator_outside_brackets_def split_top_level_def has_top_level_operator_def
  other_operators_def has_mixed_operator_def

lemmas annotation_defs = no_annotations_def ANNOTATION_TRUE_VALUES_def ANNOTATION_FALSE_VALUES_def
  annotation_text_def parse_non_negative_number_annotation_def parse_positive_integer_annotation_def
  parse_flag_annotation_def parse_first_annotation_def parse_thinker_annotation_def entry_key_def
  entry_value_def apply_entry_def apply_block_def extract_prefix_annotations_def

lemmas leaf_defs = format_timing_def format_parallel_leaf_for_plan_def check_group_annotations_def
  resolved_weight_of_def timing_or_zero_def max_context_prefix_def weighted_prefix_def plan_text_def
  check_leaf_target_def validate_leaf_selector_def leaf_record_def parse_leaf_def embedded_leaf_def
  parse_leaf_allowing_embedded_selector_def

lemmas plan_defs = plan_of_def mk_failover_group_def mk_weighted_group_def mk_parallel_group_def
  mk_route_plan_def try_parse_thinker_side_channel_selector_def count_leaves_def
  check_weighted_leaves_def parse_def

lemmas selector_eval = py_defs selector_scan_defs annotation_defs leaf_defs plan_defs
  annotation_loop.simps py_str_nat.simps

end
