(* ===== verification/Selector_Theorems.thy ===== *)
theory Selector_Theorems
  imports Selector_Parser
begin

text \<open>
  Correctness of the composite selector parser: splitting is lossless and complete, accepted plans
  are well formed, use one operator and keep the branches in order, and every rejection is a bounded
  validation error except for non-finite timings.
\<close>

section \<open>Scanning\<close>

text \<open>The bracket depth after a text.\<close>

fun scan_depth :: "nat \<Rightarrow> string \<Rightarrow> nat" where
  "scan_depth depth [] = depth"
| "scan_depth depth (c # s) =
     scan_depth (if c = CHR ''['' then depth + 1
                 else if c = CHR '']'' \<and> depth > 0 then depth - 1 else depth) s"

definition plain_operator :: "char \<Rightarrow> bool" where
  "plain_operator c \<longleftrightarrow> c \<noteq> CHR ''['' \<and> c \<noteq> CHR '']''"

lemma composite_operator_plain: "c \<in> set COMPOSITE_OPERATORS \<Longrightarrow> plain_operator c"
  by (auto simp: COMPOSITE_OPERATORS_def plain_operator_def)

lemma scan_depth_append: "scan_depth d (a @ b) = scan_depth (scan_depth d a) b"
  by (induction a arbitrary: d) auto

lemma contains_from_append:
  "contains_from d (a @ b) op \<longleftrightarrow> contains_from d a op \<or> contains_from (scan_depth d a) b op"
  by (induction a arbitrary: d) auto

lemma split_from_nonempty [simp]: "split_from d cur s op \<noteq> []"
  by (induction s arbitrary: d cur) (auto simp: Let_def)

lemma py_join_Cons: "xs \<noteq> [] \<Longrightarrow> py_join sep (x # xs) = x @ sep @ py_join sep xs"
  by (cases xs) auto

lemma join_split_from: "py_join [op] (split_from d cur s op) = cur @ s"
  by (induction s arbitrary: d cur) (auto simp: Let_def py_join_Cons)

lemma split_from_clean:
  "plain_operator op \<Longrightarrow> \<not> contains_from 0 cur op \<Longrightarrow> scan_depth 0 cur = d \<Longrightarrow>
   p \<in> set (split_from d cur s op) \<Longrightarrow> \<not> contains_from 0 p op"
proof (induction s arbitrary: d cur)
  case Nil
  then show ?case by simp
next
  case (Cons c s)
  let ?d = "if c = CHR ''['' then d + 1 else if c = CHR '']'' \<and> d > 0 then d - 1 else d"
  show ?case
  proof (cases "c = op \<and> ?d = 0")
    case True
    then have "p = cur \<or> p \<in> set (split_from 0 [] s op)"
      using Cons.prems(4) by (auto simp: Let_def split: if_splits)
    then show ?thesis using Cons.prems Cons.IH [of "[]" 0] by auto
  next
    case False
    have clean: "\<not> contains_from 0 (cur @ [c]) op"
      using False Cons.prems(1-3) by (auto simp: contains_from_append plain_operator_def)
    have depth: "scan_depth 0 (cur @ [c]) = ?d"
      using Cons.prems(3) by (simp add: scan_depth_append)
    have "p \<in> set (split_from ?d (cur @ [c]) s op)"
      using False Cons.prems(4) by (simp only: split_from.simps Let_def if_False)
    then show ?thesis by (rule Cons.IH [OF Cons.prems(1) clean depth])
  qed
qed

lemma split_from_single_iff:
  "plain_operator op \<Longrightarrow> length (split_from d cur s op) = Suc 0 \<longleftrightarrow> \<not> contains_from d s op"
  by (induction s arbitrary: d cur) (auto simp: Let_def plain_operator_def)

lemma detect_from_Some:
  "detect_from d s = Some op \<Longrightarrow> op \<in> set COMPOSITE_OPERATORS \<and> contains_from d s op"
  by (induction s arbitrary: d) (auto split: if_splits)

lemma detect_from_None:
  "detect_from d s = None \<Longrightarrow> op \<in> set COMPOSITE_OPERATORS \<Longrightarrow> \<not> contains_from d s op"
  by (induction s arbitrary: d) (auto split: if_splits)

lemma split_two_parts:
  assumes "detect_primary_operator s = Some op"
  shows "2 \<le> length (split_top_level s op)"
proof -
  have op: "plain_operator op" "contains_from 0 s op"
    using assms detect_from_Some composite_operator_plain by (auto simp: detect_primary_operator_def)
  then have "length (split_top_level s op) \<noteq> Suc 0"
    by (simp add: split_top_level_def split_from_single_iff)
  moreover have "split_top_level s op \<noteq> []" by (simp add: split_top_level_def)
  ultimately show ?thesis by (cases "split_top_level s op"; cases "tl (split_top_level s op)") auto
qed

section \<open>Annotations\<close>

definition annotations_ok :: "PrefixAnnotations \<Rightarrow> bool" where
  "annotations_ok a \<longleftrightarrow>
     (\<forall>w. pa_weight a = Some w \<longrightarrow> 0 < w) \<and> (\<forall>n. pa_max_context a = Some n \<longrightarrow> 0 < n) \<and>
     (\<forall>f. pa_handicap a = Some f \<longrightarrow> \<not> float_neg f) \<and> (\<forall>f. pa_ttft_timeout a = Some f \<longrightarrow> \<not> float_neg f)"

lemma positive_annotation_pos:
  "parse_positive_integer_annotation k v s c = Inr n \<Longrightarrow> 0 < n"
  by (auto simp: parse_positive_integer_annotation_def Let_def raise_validation_error_def
      split: if_splits option.splits)

lemma timing_annotation_nonneg:
  "parse_non_negative_number_annotation k v s c = Inr f \<Longrightarrow> \<not> float_neg f"
  by (auto simp: parse_non_negative_number_annotation_def Let_def raise_validation_error_def
      split: if_splits option.splits)

lemma apply_entry_ok:
  "apply_entry s a e = Inr a' \<Longrightarrow> annotations_ok a \<Longrightarrow> annotations_ok a'"
  unfolding apply_entry_def Let_def
  by (auto simp: annotations_ok_def bind_res_Inr_iff duplicate_annotation_def raise_validation_error_def
      split: if_splits dest: positive_annotation_pos timing_annotation_nonneg)

lemma apply_entries_ok:
  "apply_entries s a es = Inr a' \<Longrightarrow> annotations_ok a \<Longrightarrow> annotations_ok a'"
  by (induction es arbitrary: a) (auto simp: bind_res_Inr_iff dest: apply_entry_ok)

lemma apply_block_ok:
  "apply_block s a b = Inr a' \<Longrightarrow> annotations_ok a \<Longrightarrow> annotations_ok a'"
  by (auto simp: apply_block_def Let_def raise_validation_error_def split: if_splits dest: apply_entries_ok)

lemma annotation_loop_ok:
  "annotation_loop s a r = Inr (a', r') \<Longrightarrow> annotations_ok a \<Longrightarrow> annotations_ok a'"
proof (induction s a r rule: annotation_loop.induct)
  case (1 s a r)
  from 1(2,3) show ?case
    by (subst (asm) annotation_loop.simps)
      (auto simp: bind_res_Inr_iff raise_validation_error_def split: if_splits option.splits
        intro: 1(1) dest: apply_block_ok [OF _ 1(3)])
qed

lemma no_annotations_ok: "annotations_ok no_annotations"
  by (simp add: annotations_ok_def no_annotations_def)

lemma py_strip_nonempty: "s \<noteq> [] \<Longrightarrow> \<not> py_isspace (hd s) \<Longrightarrow> py_strip s \<noteq> []"
proof -
  assume a: "s \<noteq> []" "\<not> py_isspace (hd s)"
  then have "hd s \<in> set (rev s)" by simp
  with a(2) have "dropWhile py_isspace (rev s) \<noteq> []" by (metis dropWhile_eq_Nil_conv)
  then show ?thesis using a by (simp add: py_strip_def py_rstrip_def py_lstrip_fixed)
qed

lemma extract_prefix_ok:
  assumes "extract_prefix_annotations t s = Inr (a, n)"
  shows "annotations_ok a" and "py_strip t = t \<Longrightarrow> t \<noteq> [] \<Longrightarrow> n \<noteq> []" and "py_strip n = n"
proof -
  obtain r where r: "annotation_loop s no_annotations t = Inr (a, r)" "n = py_strip r"
    "\<not> (py_startswith t ''['' \<and> (r = [] \<or> py_isspace (hd r)))"
    using assms unfolding extract_prefix_annotations_def bind_res_Inr_iff raise_validation_error_def
    by (force split: if_splits)
  show "annotations_ok a" using r(1) no_annotations_ok by (rule annotation_loop_ok)
  show "py_strip n = n" using r(2) by simp
  assume t: "py_strip t = t" "t \<noteq> []"
  show "n \<noteq> []"
  proof (cases "hd t = CHR ''[''")
    case True
    then have "py_startswith t ''[''" using t by (cases t) (auto simp: py_startswith_def)
    with r(3) have "r \<noteq> []" "\<not> py_isspace (hd r)" by simp_all
    with r(2) py_strip_nonempty [of r] show ?thesis by simp
  next
    case False
    then have "r = t" using r(1) by (subst (asm) annotation_loop.simps) simp
    with r t show ?thesis by simp
  qed
qed

section \<open>Leaves\<close>

text \<open>What every leaf of an accepted plan satisfies.\<close>

definition leaf_common :: "CompositeLeafSelector \<Rightarrow> bool" where
  "leaf_common l \<longleftrightarrow>
     normalized_selector l \<noteq> [] \<and> py_strip (normalized_selector l) = normalized_selector l \<and>
     (\<forall>n. max_context_tokens l = Some n \<longrightarrow> 0 < n) \<and>
     (embedded_selector l = None \<longrightarrow> py_strip (leaf_model_name l) \<noteq> [])"

definition leaf_unweighted :: "CompositeLeafSelector \<Rightarrow> bool" where
  "leaf_unweighted l \<longleftrightarrow>
     weight_annotation l = None \<and> \<not> first_annotation l \<and> \<not> thinker_annotation l"

definition leaf_weighted :: "CompositeLeafSelector \<Rightarrow> bool" where
  "leaf_weighted l \<longleftrightarrow> (\<exists>w. weight_annotation l = Some w \<and> 0 < w)"

definition leaf_untimed :: "CompositeLeafSelector \<Rightarrow> bool" where
  "leaf_untimed l \<longleftrightarrow> handicap_seconds l = Finite 0 \<and> ttft_timeout_seconds l = Finite 0"

definition leaf_timed :: "CompositeLeafSelector \<Rightarrow> bool" where
  "leaf_timed l \<longleftrightarrow> (\<exists>h t. handicap_seconds l = Finite h \<and> 0 \<le> h \<and>
     ttft_timeout_seconds l = Finite t \<and> 0 \<le> t)"

definition leaf_fits :: "bool \<Rightarrow> bool \<Rightarrow> CompositeLeafSelector \<Rightarrow> bool" where
  "leaf_fits is_weighted is_parallel l \<longleftrightarrow> leaf_common l \<and>
     (if is_weighted then leaf_weighted l else leaf_unweighted l) \<and>
     (if is_parallel then leaf_timed l else leaf_untimed l)"

lemma format_number_finite:
  "format_annotation_number fs f = Inr x \<Longrightarrow> \<exists>r. f = Finite r"
  by (cases f) auto

lemma format_timing_finite:
  "format_timing fs n f = Inr x \<Longrightarrow> \<exists>r. f = Finite r"
  by (auto simp: format_timing_def bind_res_Inr_iff split: if_splits dest: format_number_finite)

lemma plan_text_parallel_finite:
  "plan_text fs False True raw a n = Inr x \<Longrightarrow>
   (\<exists>h. timing_or_zero (pa_handicap a) = Finite h) \<and> (\<exists>t. timing_or_zero (pa_ttft_timeout a) = Finite t)"
  by (auto simp: plan_text_def format_parallel_leaf_for_plan_def bind_res_Inr_iff
      dest!: format_timing_finite)

lemma check_group_annotations_Inr:
  "check_group_annotations w p s a = Inr u \<Longrightarrow>
   (w \<or> (pa_weight a = None \<and> \<not> pa_first a \<and> \<not> pa_thinker a)) \<and>
   (p \<or> (pa_handicap a = None \<and> pa_ttft_timeout a = None))"
  by (auto simp: check_group_annotations_def raise_validation_error_def split: if_splits)

lemma check_leaf_target_Inr:
  "check_leaf_target e n p = Inr u \<Longrightarrow>
   py_strip (model_name p) \<noteq> [] \<and> (e \<longrightarrow> has_explicit_backend_selector n)"
  by (auto simp: check_leaf_target_def raise_validation_error_def split: if_splits)

lemma validate_leaf_Inr:
  "validate_leaf_selector l = Inr l' \<Longrightarrow>
   l' = l\<lparr>raw_selector := py_strip (raw_selector l), normalized_selector := py_strip (normalized_selector l)\<rparr> \<and>
   py_strip (normalized_selector l) \<noteq> []"
  by (auto simp: validate_leaf_selector_def split: if_splits)

lemma timing_or_zero_nonneg:
  assumes "annotations_ok a"
  shows "timing_or_zero (pa_handicap a) = Finite h \<Longrightarrow> 0 \<le> h"
    and "timing_or_zero (pa_ttft_timeout a) = Finite t \<Longrightarrow> 0 \<le> t"
  using assms by (auto simp: annotations_ok_def timing_or_zero_def split: option.splits)

text \<open>Everything a successful leaf parse went through.\<close>

lemma parse_leaf_Inr:
  assumes "parse_leaf fs ri w p t = Inr r"
  obtains a n u v where
    "py_strip t \<noteq> []"
    "extract_prefix_annotations (py_strip t) (ri_selector ri) = Inr (a, n)"
    "check_group_annotations w p (ri_selector ri) a = Inr u"
    "plan_text fs w p (py_strip t) a n = Inr (normalized_leaf_for_plan r)"
    "check_leaf_target (require_explicit_backend ri) n (parse_model_with_params n (ri_default_backend ri)) = Inr v"
    "lpr_leaf r = leaf_record ri w (py_strip t) a n"
proof -
  have ne: "py_strip t \<noteq> []"
    using assms by (auto simp: parse_leaf_def Let_def raise_validation_error_def split: if_splits)
  from assms ne obtain a n u v where
    a: "extract_prefix_annotations (py_strip t) (ri_selector ri) = Inr (a, n)"
      "check_group_annotations w p (ri_selector ri) a = Inr u"
      "plan_text fs w p (py_strip t) a n = Inr (normalized_leaf_for_plan r)"
      "check_leaf_target (require_explicit_backend ri) n (parse_model_with_params n (ri_default_backend ri)) = Inr v"
    and v: "validate_leaf_selector (leaf_record ri w (py_strip t) a n) = Inr (lpr_leaf r)"
    unfolding parse_leaf_def Let_def by (auto simp: bind_res_Inr_iff)
  show thesis
    using that [OF ne a] validate_leaf_Inr [OF v] extract_prefix_ok(3) [OF a(1)]
    by (simp add: leaf_record_def Let_def)
qed

lemma resolved_weight_pos: "annotations_ok a \<Longrightarrow> 0 < resolved_weight_of (pa_weight a)"
  by (auto simp: annotations_ok_def resolved_weight_of_def split: option.splits)

lemma parse_leaf_fits:
  assumes "parse_leaf fs ri w p t = Inr r" and "\<not> (w \<and> p)"
  shows "leaf_fits w p (lpr_leaf r)" and "raw_selector (lpr_leaf r) = py_strip t"
    and "embedded_selector (lpr_leaf r) = None"
proof -
  obtain a n u v where
    ne: "py_strip t \<noteq> []" and ex: "extract_prefix_annotations (py_strip t) (ri_selector ri) = Inr (a, n)"
    and ck: "check_group_annotations w p (ri_selector ri) a = Inr u"
    and pt: "plan_text fs w p (py_strip t) a n = Inr (normalized_leaf_for_plan r)"
    and tg: "check_leaf_target (require_explicit_backend ri) n (parse_model_with_params n (ri_default_backend ri)) = Inr v"
    and lf: "lpr_leaf r = leaf_record ri w (py_strip t) a n"
    by (rule parse_leaf_Inr [OF assms(1)])
  note ok = extract_prefix_ok [OF ex]
  note lf = lf leaf_record_def Let_def
  have common: "leaf_common (lpr_leaf r)"
    using ok ne check_leaf_target_Inr [OF tg] by (auto simp: leaf_common_def lf annotations_ok_def)
  have weight: "if w then leaf_weighted (lpr_leaf r) else leaf_unweighted (lpr_leaf r)"
    using resolved_weight_pos [OF ok(1)] by (auto simp: leaf_weighted_def leaf_unweighted_def lf)
  have timed: "if p then leaf_timed (lpr_leaf r) else leaf_untimed (lpr_leaf r)"
  proof (cases p)
    case True
    with pt assms(2) have "plan_text fs False True (py_strip t) a n = Inr (normalized_leaf_for_plan r)" by simp
    from plan_text_parallel_finite [OF this] timing_or_zero_nonneg [OF ok(1)] True show ?thesis
      by (auto simp: leaf_timed_def lf)
  next
    case False
    with check_group_annotations_Inr [OF ck] show ?thesis
      by (auto simp: leaf_untimed_def lf timing_or_zero_def)
  qed
  show "leaf_fits w p (lpr_leaf r)" using common weight timed by (simp add: leaf_fits_def)
  show "raw_selector (lpr_leaf r) = py_strip t" "embedded_selector (lpr_leaf r) = None" by (simp_all add: lf)
qed

section \<open>Plans\<close>

fun node_children :: "CompositeNode \<Rightarrow> CompositeLeafSelector list" where
  "node_children (LeafNode n) = [leaf_selector n]"
| "node_children (FailoverGroupNode ns) = map leaf_selector ns"
| "node_children (WeightedGroupNode ns) = map leaf_selector ns"
| "node_children (ParallelGroupNode ns) = map leaf_selector ns"

fun node_wf :: "CompositeNode \<Rightarrow> bool" where
  "node_wf (LeafNode n) = leaf_fits False False (leaf_selector n)"
| "node_wf (FailoverGroupNode ns) =
     (2 \<le> length ns \<and> (\<forall>n \<in> set ns. leaf_fits False False (leaf_selector n)))"
| "node_wf (WeightedGroupNode ns) =
     (2 \<le> length ns \<and> (\<forall>n \<in> set ns. leaf_fits True False (leaf_selector n)) \<and>
      length (filter (\<lambda>n. first_annotation (leaf_selector n)) ns) \<le> 1 \<and>
      length (filter (\<lambda>n. thinker_annotation (leaf_selector n)) ns) \<le> 1)"
| "node_wf (ParallelGroupNode ns) =
     (2 \<le> length ns \<and> (\<forall>n \<in> set ns. leaf_fits False True (leaf_selector n)))"

text \<open>The branch texts of a selector: its top-level parts, or the selector itself.\<close>

definition branch_texts :: "string \<Rightarrow> string list" where
  "branch_texts selector =
     (case detect_primary_operator selector of
        None \<Rightarrow> [selector] | Some operator \<Rightarrow> split_top_level selector operator)"

abbreviation leaf_nodes :: "LeafParseResult list \<Rightarrow> CompositeLeafNode list" where
  "leaf_nodes leaves \<equiv> map (\<lambda>r. CompositeLeafNode (lpr_leaf r)) leaves"

lemma plan_of_Inr:
  "plan_of ri op mk leaves = Inr plan \<Longrightarrow>
   mk (leaf_nodes leaves) = Inr (root_node plan) \<and>
   plan_source_selector plan = py_strip (ri_selector ri) \<and>
   plan_normalized_selector plan = py_strip (py_join [op] (map normalized_leaf_for_plan leaves))"
  by (auto simp: plan_of_def mk_route_plan_def bind_res_Inr_iff split: if_splits)

lemma plan_of_group:
  "plan_of ri op mk_failover_group leaves = Inr plan \<Longrightarrow>
     root_node plan = FailoverGroupNode (leaf_nodes leaves) \<and> 2 \<le> length leaves"
  "plan_of ri op mk_weighted_group leaves = Inr plan \<Longrightarrow>
     root_node plan = WeightedGroupNode (leaf_nodes leaves) \<and> 2 \<le> length leaves"
  "plan_of ri op mk_parallel_group leaves = Inr plan \<Longrightarrow>
     root_node plan = ParallelGroupNode (leaf_nodes leaves) \<and> 2 \<le> length leaves"
  by (auto dest!: plan_of_Inr simp: mk_failover_group_def mk_weighted_group_def mk_parallel_group_def
      split: if_splits)

text \<open>
  Embedded leaves: the parse of one side of the thinker side channel.
\<close>

lemma embedded_finish:
  assumes "bind_res (map_err PydanticError (validate_leaf_selector (embedded_leaf raw n c)))
      (\<lambda>l. Inr \<lparr>lpr_leaf = l, normalized_leaf_for_plan = x\<rparr>) = Inr r"
    and "py_strip raw = raw" "py_strip n = n" "\<And>k. c = Some k \<Longrightarrow> 0 < k"
  shows "leaf_fits True False (lpr_leaf r)" "raw_selector (lpr_leaf r) = raw"
    "\<not> thinker_annotation (lpr_leaf r)" "\<not> first_annotation (lpr_leaf r)"
  using assms
  by (auto simp: bind_res_Inr_iff embedded_leaf_def leaf_fits_def leaf_common_def leaf_weighted_def
      leaf_untimed_def dest!: validate_leaf_Inr)

lemma parse_embedded_fits:
  assumes "parse_leaf_allowing_embedded_selector fs ri t = Inr r"
  shows "leaf_fits True False (lpr_leaf r) \<and> raw_selector (lpr_leaf r) = py_strip t"
proof -
  have inner: "parse_leaf fs ri True False (py_strip t) = Inr r \<Longrightarrow>
      leaf_fits True False (lpr_leaf r) \<and> raw_selector (lpr_leaf r) = py_strip t"
    using parse_leaf_fits [of fs ri True False "py_strip t" r] by simp
  have ex: "extract_prefix_annotations (py_strip t) (ri_selector ri) = Inr (a, n) \<Longrightarrow>
      annotations_ok a \<and> py_strip n = n" for a n
    using extract_prefix_ok by blast
  from assms show ?thesis
    unfolding parse_leaf_allowing_embedded_selector_def Let_def raise_validation_error_def
    by (auto simp: bind_res_Inr_iff [where m = "extract_prefix_annotations _ _"] annotations_ok_def
        split: if_splits prod.splits dest!: inner ex dest: embedded_finish)
qed

lemma parse_embedded_first:
  assumes "parse_leaf_allowing_embedded_selector fs ri t = Inr r" "embedded_selector (lpr_leaf r) \<noteq> None"
  shows "\<not> first_annotation (lpr_leaf r) \<and> \<not> thinker_annotation (lpr_leaf r)"
proof -
  have inner: "parse_leaf fs ri True False (py_strip t) = Inr r \<Longrightarrow> False"
    using parse_leaf_fits(3) [of fs ri True False "py_strip t" r] assms(2) by simp
  have leaf: "bind_res (map_err PydanticError (validate_leaf_selector (embedded_leaf raw n c)))
      (\<lambda>l. Inr \<lparr>lpr_leaf = l, normalized_leaf_for_plan = x\<rparr>) = Inr r \<Longrightarrow>
      \<not> first_annotation (lpr_leaf r) \<and> \<not> thinker_annotation (lpr_leaf r)" for raw n c x
    by (auto simp: bind_res_Inr_iff embedded_leaf_def dest!: validate_leaf_Inr)
  from assms(1) show ?thesis
    unfolding parse_leaf_allowing_embedded_selector_def Let_def raise_validation_error_def
    by (auto simp: bind_res_Inr_iff [where m = "extract_prefix_annotations _ _"]
        split: if_splits prod.splits dest: inner leaf)
qed

text \<open>The side channel accepts exactly one thinker and one opaque executor route.\<close>

lemma side_channel_Inr:
  assumes "try_parse_thinker_side_channel_selector fs ri parts = Inr (Some plan)"
  obtains r1 r2 where
    "traverse_res (parse_leaf_allowing_embedded_selector fs ri) parts = Inr [r1, r2]"
    "plan_of ri (CHR ''^'') mk_weighted_group [r1, r2] = Inr plan"
    "thinker_annotation (lpr_leaf r1) \<longleftrightarrow> \<not> thinker_annotation (lpr_leaf r2)"
    "thinker_annotation (lpr_leaf r1) \<longrightarrow> embedded_selector (lpr_leaf r2) \<noteq> None"
    "thinker_annotation (lpr_leaf r2) \<longrightarrow> embedded_selector (lpr_leaf r1) \<noteq> None"
proof -
  obtain rs where rs: "length parts = 2"
      "traverse_res (parse_leaf_allowing_embedded_selector fs ri) parts = Inr rs"
      "plan_of ri (CHR ''^'') mk_weighted_group rs = Inr plan"
      "length (filter (\<lambda>r. thinker_annotation (lpr_leaf r)) rs) = 1"
      "length (filter (\<lambda>r. \<not> thinker_annotation (lpr_leaf r)) rs) = 1"
      "embedded_selector (lpr_leaf (hd (filter (\<lambda>r. \<not> thinker_annotation (lpr_leaf r)) rs))) \<noteq> None"
    using assms unfolding try_parse_thinker_side_channel_selector_def Let_def
    by (auto simp: bind_res_Inr_iff split: if_splits option.splits)
  have "length rs = 2" using rs(1,2) by (metis list_all2_lengthD traverse_res_Inr_iff)
  then obtain r1 r2 where "rs = [r1, r2]" by (auto simp: numeral_2_eq_2 length_Suc_conv)
  with rs show thesis by (intro that [of r1 r2]) (auto split: if_splits)
qed

lemma traverse_children:
  assumes "traverse_res f parts = Inr rs" and "\<And>t r. f t = Inr r \<Longrightarrow> P (lpr_leaf r) \<and> raw_selector (lpr_leaf r) = py_strip t"
  shows "\<forall>n \<in> set (leaf_nodes rs). P (leaf_selector n)"
    and "map raw_selector (map leaf_selector (leaf_nodes rs)) = map py_strip parts"
proof -
  have "list_all2 (\<lambda>t r. f t = Inr r) parts rs" using assms(1) by (simp add: traverse_res_Inr_iff)
  then show "\<forall>n \<in> set (leaf_nodes rs). P (leaf_selector n)"
    and "map raw_selector (map leaf_selector (leaf_nodes rs)) = map py_strip parts"
    by (induction rule: list_all2_induct) (auto dest: assms(2))
qed

text \<open>The five ways in which a selector is accepted.\<close>

lemma parse_Inr_cases:
  assumes "parse fs ri = Inr plan"
  obtains
    (leaf) r where "detect_primary_operator (py_strip (ri_selector ri)) = None"
      "parse_leaf fs ri False False (py_strip (ri_selector ri)) = Inr r"
      "root_node plan = LeafNode (CompositeLeafNode (lpr_leaf r))"
      "plan_normalized_selector plan = py_strip (normalized_leaf_for_plan r)"
  | (failover) rs where "detect_primary_operator (py_strip (ri_selector ri)) = Some (CHR ''|'')"
      "\<not> has_mixed_operator (CHR ''|'') (branch_texts (py_strip (ri_selector ri)))"
      "traverse_res (parse_leaf fs ri False False) (branch_texts (py_strip (ri_selector ri))) = Inr rs"
      "plan_of ri (CHR ''|'') mk_failover_group rs = Inr plan"
  | (weighted) rs where "detect_primary_operator (py_strip (ri_selector ri)) = Some (CHR ''^'')"
      "\<not> has_mixed_operator (CHR ''^'') (branch_texts (py_strip (ri_selector ri)))"
      "traverse_res (parse_leaf fs ri True False) (branch_texts (py_strip (ri_selector ri))) = Inr rs"
      "check_weighted_leaves ri rs = Inr ()"
      "plan_of ri (CHR ''^'') mk_weighted_group rs = Inr plan"
  | (parallel) rs where "detect_primary_operator (py_strip (ri_selector ri)) = Some (CHR ''!'')"
      "\<not> has_mixed_operator (CHR ''!'') (branch_texts (py_strip (ri_selector ri)))"
      "traverse_res (parse_leaf fs ri False True) (branch_texts (py_strip (ri_selector ri))) = Inr rs"
      "plan_of ri (CHR ''!'') mk_parallel_group rs = Inr plan"
  | (side_channel) "detect_primary_operator (py_strip (ri_selector ri)) = Some (CHR ''^'')"
      "has_mixed_operator (CHR ''^'') (branch_texts (py_strip (ri_selector ri)))"
      "try_parse_thinker_side_channel_selector fs ri (branch_texts (py_strip (ri_selector ri))) = Inr (Some plan)"
proof (cases "detect_primary_operator (py_strip (ri_selector ri))")
  case None
  then obtain r where
    "parse_leaf fs ri False False (py_strip (ri_selector ri)) = Inr r"
    "root_node plan = LeafNode (CompositeLeafNode (lpr_leaf r))"
    "plan_normalized_selector plan = py_strip (normalized_leaf_for_plan r)"
    using assms unfolding parse_def Let_def raise_validation_error_def
    by (auto simp: bind_res_Inr_iff mk_route_plan_def split: if_splits)
  then show thesis by (rule leaf [OF None])
next
  case (Some op)
  show thesis
    using assms failover weighted parallel side_channel Some
    unfolding parse_def Let_def raise_validation_error_def mixed_operator_error_def
    by (auto simp: bind_res_Inr_iff branch_texts_def split: if_splits option.splits)
qed

lemma check_weighted_leaves_Inr:
  assumes "check_weighted_leaves ri rs = Inr u"
  shows "length (filter (\<lambda>n. first_annotation (leaf_selector n)) (leaf_nodes rs)) \<le> 1"
    and "length (filter (\<lambda>n. thinker_annotation (leaf_selector n)) (leaf_nodes rs)) \<le> 1"
    and "\<forall>n \<in> set (leaf_nodes rs). \<not> (first_annotation (leaf_selector n) \<and> thinker_annotation (leaf_selector n))"
  using assms
  by (auto simp: check_weighted_leaves_def count_leaves_def raise_validation_error_def filter_map o_def
      list_ex_iff not_less split: if_splits)

lemma side_channel_node:
  assumes "try_parse_thinker_side_channel_selector fs ri parts = Inr (Some plan)"
  shows "node_wf (root_node plan)" and "map raw_selector (node_children (root_node plan)) = map py_strip parts"
proof -
  obtain r1 r2 where
    tr: "traverse_res (parse_leaf_allowing_embedded_selector fs ri) parts = Inr [r1, r2]"
    and pl: "plan_of ri (CHR ''^'') mk_weighted_group [r1, r2] = Inr plan"
    and th: "thinker_annotation (lpr_leaf r1) \<longleftrightarrow> \<not> thinker_annotation (lpr_leaf r2)"
      "thinker_annotation (lpr_leaf r1) \<longrightarrow> embedded_selector (lpr_leaf r2) \<noteq> None"
      "thinker_annotation (lpr_leaf r2) \<longrightarrow> embedded_selector (lpr_leaf r1) \<noteq> None"
    by (rule side_channel_Inr [OF assms])
  have root: "root_node plan = WeightedGroupNode (leaf_nodes [r1, r2])"
    using plan_of_group(2) [OF pl] by simp
  obtain t1 t2 where t: "parts = [t1, t2]" "parse_leaf_allowing_embedded_selector fs ri t1 = Inr r1"
      "parse_leaf_allowing_embedded_selector fs ri t2 = Inr r2"
    using tr by (auto simp: traverse_res_Inr_iff list_all2_Cons2)
  note ch = traverse_children [OF tr parse_embedded_fits]
  have first: "\<not> (first_annotation (lpr_leaf r1) \<and> first_annotation (lpr_leaf r2))"
    using th parse_embedded_first [OF t(2)] parse_embedded_first [OF t(3)] by blast
  show "node_wf (root_node plan)" using ch(1) first th(1) by (auto simp: root)
  show "map raw_selector (node_children (root_node plan)) = map py_strip parts"
    using ch(2) by (simp add: root)
qed

lemma traverse_leaf_nodes:
  assumes "traverse_res (parse_leaf fs ri w p) parts = Inr rs" and "\<not> (w \<and> p)"
  shows "\<forall>n \<in> set (leaf_nodes rs). leaf_fits w p (leaf_selector n)"
    and "map raw_selector (map leaf_selector (leaf_nodes rs)) = map py_strip parts"
  using traverse_children [OF assms(1), where P = "leaf_fits w p"] parse_leaf_fits [OF _ assms(2)]
  by blast+

section \<open>Rejections\<close>

text \<open>A validation error whose operator-visible texts are within their limits.\<close>

definition bounded_validation :: "parse_error \<Rightarrow> bool" where
  "bounded_validation e \<longleftrightarrow> (\<exists>env. e = CompositeSelectorValidationError env \<and>
     length (env_message env) \<le> MAX_OPERATOR_MESSAGE_CHARS \<and>
     length (env_selector_echo env) \<le> MAX_SELECTOR_ECHO_CHARS)"

definition timing_overflow :: "parse_error \<Rightarrow> bool" where
  "timing_overflow e \<longleftrightarrow> e = OverflowErrorRaised \<or> e = ValueErrorRaised"

text \<open>\<^verbatim>\<open>int(text)\<close> of a text with too many digits.\<close>

definition integer_limit :: "parse_error \<Rightarrow> bool" where
  "integer_limit e \<longleftrightarrow> e = IntegerLimitRaised"

definition rejected :: "parse_error \<Rightarrow> bool" where
  "rejected e \<longleftrightarrow> bounded_validation e \<or> integer_limit e"

text \<open>Every exception of a computation satisfies a predicate.\<close>

definition errs :: "('e \<Rightarrow> bool) \<Rightarrow> 'e + 'a \<Rightarrow> bool" where
  "errs P m \<longleftrightarrow> (\<forall>e. m = Inl e \<longrightarrow> P e)"

lemma errs_Inr [simp, intro]: "errs P (Inr x)"
  by (simp add: errs_def)

lemma errs_bind [intro]: "errs P m \<Longrightarrow> (\<And>x. m = Inr x \<Longrightarrow> errs P (f x)) \<Longrightarrow> errs P (bind_res m f)"
  by (cases m) (auto simp: errs_def)

lemma errs_mono: "errs P m \<Longrightarrow> (\<And>e. P e \<Longrightarrow> Q e) \<Longrightarrow> errs Q m"
  by (auto simp: errs_def)

lemma errs_traverse: "(\<And>x. x \<in> set xs \<Longrightarrow> errs P (f x)) \<Longrightarrow> errs P (traverse_res f xs)"
  by (induction xs) (auto intro!: errs_bind)

lemma errs_raise [simp, intro]: "errs rejected (raise_validation_error c s m)"
  by (simp add: errs_def raise_validation_error_def rejected_def bounded_validation_def make_envelope_bounds)

lemma errs_duplicate [simp, intro]: "errs rejected (duplicate_annotation s f)"
  by (simp add: duplicate_annotation_def)

lemma errs_mixed [simp, intro]: "errs rejected (mixed_operator_error s)"
  by (simp add: mixed_operator_error_def)

lemma errs_positive [simp, intro]: "errs rejected (parse_positive_integer_annotation k v s c)"
  by (auto simp: parse_positive_integer_annotation_def Let_def split: option.splits) (simp add: errs_def rejected_def integer_limit_def)

lemma errs_timing [simp, intro]: "errs rejected (parse_non_negative_number_annotation k v s c)"
  by (auto simp: parse_non_negative_number_annotation_def Let_def split: option.splits)

lemma errs_flag [simp, intro]:
  "errs rejected (parse_first_annotation v s)" "errs rejected (parse_thinker_annotation v s)"
  by (auto simp: parse_first_annotation_def parse_thinker_annotation_def parse_flag_annotation_def Let_def
      split: option.splits)

lemma errs_entry [simp, intro]: "errs rejected (apply_entry s a e)"
  unfolding apply_entry_def Let_def by (auto intro!: errs_bind)

lemma errs_entries [simp, intro]: "errs rejected (apply_entries s a es)"
  by (induction es arbitrary: a) (auto intro!: errs_bind)

lemma errs_block [simp, intro]: "errs rejected (apply_block s a b)"
  by (auto simp: apply_block_def Let_def)

lemma errs_loop [simp, intro]: "errs rejected (annotation_loop s a r)"
proof (induction s a r rule: annotation_loop.induct)
  case (1 s a r)
  then show ?case
    by (subst annotation_loop.simps) (auto split: option.splits intro!: errs_bind)
qed

lemma errs_extract [simp, intro]: "errs rejected (extract_prefix_annotations t s)"
  unfolding extract_prefix_annotations_def by (auto intro!: errs_bind)

lemma errs_checks [simp, intro]:
  "errs rejected (check_group_annotations w p s a)"
  "errs rejected (check_leaf_target e n q)"
  "errs rejected (check_weighted_leaves ri rs)"
  by (simp_all add: check_group_annotations_def check_leaf_target_def check_weighted_leaves_def)

lemma errs_format: "errs timing_overflow (format_timing fs n f)"
  by (cases f) (auto simp: format_timing_def timing_overflow_def errs_def bind_res_def)

lemma errs_plan_text: "errs (\<lambda>e. p \<and> timing_overflow e) (plan_text fs w p raw a n)"
proof (cases "p \<and> \<not> w")
  case True
  then show ?thesis
    by (auto simp: plan_text_def format_parallel_leaf_for_plan_def errs_format intro!: errs_bind)
next
  case False
  then show ?thesis by (auto simp: plan_text_def)
qed

lemma validate_leaf_record:
  assumes "extract_prefix_annotations (py_strip t) s = Inr (a, n)" "py_strip t \<noteq> []"
  shows "validate_leaf_selector (leaf_record ri w (py_strip t) a n) = Inr (leaf_record ri w (py_strip t) a n)"
proof -
  note ok = extract_prefix_ok [OF assms(1)]
  have "\<not> float_neg (timing_or_zero (pa_handicap a))" "\<not> float_neg (timing_or_zero (pa_ttft_timeout a))"
    "0 < resolved_weight_of (pa_weight a)" "\<And>k. pa_max_context a = Some k \<Longrightarrow> 0 < k"
    using ok(1) resolved_weight_pos by (auto simp: annotations_ok_def timing_or_zero_def split: option.splits)
  then show ?thesis
    using ok(2,3) assms(2)
    by (auto simp: validate_leaf_selector_def leaf_record_def Let_def split: option.splits dest: leD)
qed

text \<open>An exception of a leaf parse: a validation error, or the overflow of a parallel timing.\<close>

definition leaf_error :: "bool \<Rightarrow> parse_error \<Rightarrow> bool" where
  "leaf_error is_parallel e \<longleftrightarrow> rejected e \<or> (is_parallel \<and> timing_overflow e)"

lemma leaf_errorI: "errs rejected m \<Longrightarrow> errs (leaf_error p) m"
  by (auto simp: errs_def leaf_error_def)

lemma errs_parse_leaf: "errs (leaf_error p) (parse_leaf fs ri w p t)"
proof -
  have ptext: "errs (leaf_error p) (plan_text fs w p raw a n)" for raw a n
    using errs_plan_text [of p fs w raw a n] by (auto simp: errs_def leaf_error_def)
  show ?thesis
    unfolding parse_leaf_def Let_def
    by (auto intro!: errs_bind ptext simp: validate_leaf_record intro: leaf_errorI)
qed

lemma validate_embedded:
  "py_strip raw = raw \<Longrightarrow> raw \<noteq> [] \<Longrightarrow> py_strip n = n \<Longrightarrow> n \<noteq> [] \<Longrightarrow> (\<And>k. c = Some k \<Longrightarrow> 0 < k) \<Longrightarrow>
   validate_leaf_selector (embedded_leaf raw n c) = Inr (embedded_leaf raw n c)"
  by (auto simp: validate_leaf_selector_def embedded_leaf_def split: option.splits)

lemma errs_parse_embedded: "errs rejected (parse_leaf_allowing_embedded_selector fs ri t)"
proof -
  have leaf: "errs rejected (parse_leaf fs ri True False (py_strip t))"
    using errs_parse_leaf [of False fs ri True "py_strip t"] by (auto simp: errs_def leaf_error_def)
  have emb: "validate_leaf_selector (embedded_leaf (py_strip t) n (pa_max_context a)) =
      Inr (embedded_leaf (py_strip t) n (pa_max_context a))"
    if "py_strip t \<noteq> []" "extract_prefix_annotations (py_strip t) (ri_selector ri) = Inr (a, n)" for a n
    using extract_prefix_ok [OF that(2)] that(1) by (intro validate_embedded) (auto simp: annotations_ok_def)
  have whole: "validate_leaf_selector (embedded_leaf (py_strip t) (py_strip t) None) =
      Inr (embedded_leaf (py_strip t) (py_strip t) None)" if "py_strip t \<noteq> []"
    using that by (intro validate_embedded) auto
  show ?thesis
    unfolding parse_leaf_allowing_embedded_selector_def Let_def
    by (auto intro!: errs_bind leaf simp: emb whole)
qed

text \<open>The normalized text of a leaf starts with a visible character.\<close>

definition visible_start :: "string \<Rightarrow> bool" where
  "visible_start s \<longleftrightarrow> s \<noteq> [] \<and> \<not> py_isspace (hd s)"

lemma visible_start_append: "visible_start s \<Longrightarrow> visible_start (s @ u)"
  by (auto simp: visible_start_def)

lemma visible_bracket: "visible_start (CHR ''['' # u)"
  by (simp add: visible_start_def py_isspace_def)

lemma visible_stripped: "py_strip s = s \<Longrightarrow> s \<noteq> [] \<Longrightarrow> visible_start s"
  using py_strip_ends(1) [of s] by (auto simp: visible_start_def)

lemma visible_join: "xs \<noteq> [] \<Longrightarrow> visible_start (hd xs) \<Longrightarrow> visible_start (py_join sep xs)"
  by (cases xs; cases "tl xs") (auto intro: visible_start_append)

lemma visible_strip: "visible_start s \<Longrightarrow> py_strip s \<noteq> []"
  using py_strip_nonempty by (auto simp: visible_start_def)

lemma plan_text_visible:
  assumes "plan_text fs w p raw a n = Inr x" "visible_start raw" "visible_start n"
  shows "visible_start x"
  using assms
  by (auto simp: plan_text_def weighted_prefix_def max_context_prefix_def format_parallel_leaf_for_plan_def
      bind_res_Inr_iff visible_bracket split: if_splits option.splits)

lemma parse_leaf_visible:
  assumes "parse_leaf fs ri w p t = Inr r"
  shows "visible_start (normalized_leaf_for_plan r)"
proof (rule parse_leaf_Inr [OF assms])
  fix a n
  assume ne: "py_strip t \<noteq> []" and ex: "extract_prefix_annotations (py_strip t) (ri_selector ri) = Inr (a, n)"
    and pt: "plan_text fs w p (py_strip t) a n = Inr (normalized_leaf_for_plan r)"
  from extract_prefix_ok [OF ex] ne show ?thesis
    by (intro plan_text_visible [OF pt] visible_stripped) auto
qed

lemma parse_embedded_visible:
  assumes "parse_leaf_allowing_embedded_selector fs ri t = Inr r"
  shows "visible_start (normalized_leaf_for_plan r)"
  using assms parse_leaf_visible [of fs ri True False "py_strip t" r]
  unfolding parse_leaf_allowing_embedded_selector_def Let_def raise_validation_error_def
  by (auto simp: bind_res_Inr_iff visible_bracket split: if_splits prod.splits)

lemma errs_plan_of:
  assumes "py_strip (ri_selector ri) \<noteq> []" "rs \<noteq> []" "visible_start (normalized_leaf_for_plan (hd rs))"
    and "\<exists>node. mk (leaf_nodes rs) = Inr node"
  shows "errs P (plan_of ri op mk rs)"
proof -
  have "visible_start (py_join [op] (map normalized_leaf_for_plan rs))"
    using assms(2,3) by (intro visible_join) (auto simp: hd_map)
  with visible_strip assms(1,4) show ?thesis by (auto simp: plan_of_def mk_route_plan_def)
qed

lemma errs_group_plan:
  assumes "traverse_res f parts = Inr rs" "2 \<le> length parts" "py_strip (ri_selector ri) \<noteq> []"
    and "\<And>t r. f t = Inr r \<Longrightarrow> visible_start (normalized_leaf_for_plan r)"
  shows "errs P (plan_of ri op mk_failover_group rs)" "errs P (plan_of ri op mk_weighted_group rs)"
    "errs P (plan_of ri op mk_parallel_group rs)"
proof -
  have l: "list_all2 (\<lambda>t r. f t = Inr r) parts rs" using assms(1) by (simp add: traverse_res_Inr_iff)
  then have len: "2 \<le> length rs" using assms(2) by (simp add: list_all2_lengthD [symmetric])
  then have ne: "rs \<noteq> []" by auto
  have "visible_start (normalized_leaf_for_plan (hd rs))"
    using l ne assms(4) by (cases rs) (auto simp: list_all2_Cons2)
  with errs_plan_of [OF assms(3) ne] len
  show "errs P (plan_of ri op mk_failover_group rs)" "errs P (plan_of ri op mk_weighted_group rs)"
    "errs P (plan_of ri op mk_parallel_group rs)"
    by (auto simp: mk_failover_group_def mk_weighted_group_def mk_parallel_group_def)
qed

lemma errs_side_channel:
  assumes "py_strip (ri_selector ri) \<noteq> []"
  shows "errs rejected (try_parse_thinker_side_channel_selector fs ri parts)"
proof -
  have plan: "errs rejected (plan_of ri (CHR ''^'') mk_weighted_group rs)"
    if "length parts = 2" "traverse_res (parse_leaf_allowing_embedded_selector fs ri) parts = Inr rs" for rs
    using that by (intro errs_group_plan(2) [OF that(2) _ assms parse_embedded_visible]) auto
  show ?thesis
    unfolding try_parse_thinker_side_channel_selector_def Let_def
    by (auto intro!: errs_bind errs_traverse errs_parse_embedded plan split: option.splits)
qed

section \<open>Operators of a plan\<close>

text \<open>The operator of a plan, and the one form in which two operators may occur.\<close>

fun node_operator :: "CompositeNode \<Rightarrow> char option" where
  "node_operator (LeafNode n) = None"
| "node_operator (FailoverGroupNode ns) = Some (CHR ''|'')"
| "node_operator (WeightedGroupNode ns) = Some (CHR ''^'')"
| "node_operator (ParallelGroupNode ns) = Some (CHR ''!'')"

fun thinker_side_channel :: "CompositeNode \<Rightarrow> bool" where
  "thinker_side_channel (WeightedGroupNode [a, b]) =
     (thinker_annotation (leaf_selector a) \<and> embedded_selector (leaf_selector b) \<noteq> None \<or>
      thinker_annotation (leaf_selector b) \<and> embedded_selector (leaf_selector a) \<noteq> None)"
| "thinker_side_channel _ = False"

lemma detect_none_contains:
  "detect_from d s = None \<Longrightarrow> op \<in> set COMPOSITE_OPERATORS \<Longrightarrow> \<not> contains_from d s op"
  by (induction d s rule: detect_from.induct) (auto split: if_splits)

lemma unmixed_parts_plain:
  assumes "op \<in> set COMPOSITE_OPERATORS" "\<not> has_mixed_operator op (split_top_level s op)"
    "t \<in> set (split_top_level s op)"
  shows "\<not> has_top_level_operator t"
  using assms split_from_clean [OF composite_operator_plain [OF assms(1)], of "[]" 0 _ s]
  by (auto simp: has_mixed_operator_def has_top_level_operator_def other_operators_def list_ex_iff
      split_top_level_def contains_operator_outside_brackets_def)

section \<open>Whole parses\<close>

lemma parse_node_wf:
  assumes "parse fs ri = Inr plan"
  shows "node_wf (root_node plan)"
  using assms
proof (cases rule: parse_Inr_cases)
  case (leaf r)
  then show ?thesis using parse_leaf_fits(1) [OF leaf(2)] by simp
next
  case (failover rs)
  then show ?thesis
    using traverse_leaf_nodes(1) [OF failover(3)] plan_of_group(1) [OF failover(4)] by simp
next
  case (weighted rs)
  then show ?thesis
    using traverse_leaf_nodes(1) [OF weighted(3)] plan_of_group(2) [OF weighted(5)]
      check_weighted_leaves_Inr [OF weighted(4)] by simp
next
  case (parallel rs)
  then show ?thesis
    using traverse_leaf_nodes(1) [OF parallel(3)] plan_of_group(3) [OF parallel(4)] by simp
next
  case side_channel
  then show ?thesis using side_channel_node(1) by blast
qed

lemma parse_rejects:
  assumes "parse fs ri = Inl e"
  shows "rejected e \<or>
    (detect_primary_operator (py_strip (ri_selector ri)) = Some (CHR ''!'') \<and> timing_overflow e)"
proof (cases "py_strip (ri_selector ri) = []")
  case True
  with assms have "raise_validation_error SYNTAX_ERROR (ri_selector ri)
      ''Composite selector cannot be empty.'' = (Inl e :: parse_error + CompositeRoutePlan)"
    by (simp add: parse_def)
  then show ?thesis using errs_raise by (auto simp: errs_def)
next
  case ne: False
  let ?s = "py_strip (ri_selector ri)"
  have leaf: "errs rejected (parse_leaf fs ri w False t)" for w t
    using errs_parse_leaf [of False fs ri w t] by (auto simp: errs_def leaf_error_def)
  show ?thesis
  proof (cases "detect_primary_operator ?s")
    case None
    have "errs rejected (parse fs ri)"
      unfolding parse_def Let_def using None ne parse_leaf_visible [of fs ri False False ?s] visible_strip
      by (auto intro!: errs_bind leaf simp: mk_route_plan_def)
    then show ?thesis using assms by (auto simp: errs_def)
  next
    case (Some op)
    note parts = split_two_parts [OF Some]
    note grp = errs_group_plan [OF _ parts ne parse_leaf_visible]
    show ?thesis
    proof (cases "op = CHR ''!''")
      case True
      have "errs (leaf_error True) (parse fs ri)"
        unfolding parse_def Let_def using Some ne True
        by (auto intro!: errs_bind errs_traverse errs_parse_leaf intro: grp leaf_errorI)
      then show ?thesis using assms Some True by (auto simp: errs_def leaf_error_def)
    next
      case False
      have "errs rejected (parse fs ri)"
        unfolding parse_def Let_def using Some ne False
        by (auto intro!: errs_bind errs_traverse leaf errs_side_channel split: option.splits intro: grp)
      then show ?thesis using assms by (auto simp: errs_def)
    qed
  qed
qed

section \<open>Properties\<close>



text \<open>
  C9. Every accepted plan is well formed: groups have at least two branches, every branch has a
  non-empty selector and model and a positive context limit if any, weights (positive), \<^verbatim>\<open>[first]\<close>
  and \<^verbatim>\<open>[thinker]\<close> occur in weighted groups only and at most one branch is first and at most one
  is the thinker, and timings occur in parallel groups only, finite and not negative.
\<close>

theorem parse_plan_well_formed:
  assumes "parse fs ri = Inr plan"
  shows "node_wf (root_node plan)"
  by (rule parse_node_wf [OF assms])

text \<open>
  An accepted plan keeps all branches of the selector and their order: the source texts of its
  branches are exactly the top-level parts of the selector with their surrounding white space
  removed.
\<close>

lemma parse_keeps_branches_in_order:
  assumes "parse fs ri = Inr plan"
  shows "map raw_selector (node_children (root_node plan)) =
    map py_strip (branch_texts (py_strip (ri_selector ri)))"
  using assms
proof (cases rule: parse_Inr_cases)
  case (leaf r)
  then show ?thesis using parse_leaf_fits(2) [OF leaf(2)] by (simp add: branch_texts_def)
next
  case (failover rs)
  then show ?thesis
    using traverse_leaf_nodes(2) [OF failover(3)] plan_of_group(1) [OF failover(4)] by simp
next
  case (weighted rs)
  then show ?thesis
    using traverse_leaf_nodes(2) [OF weighted(3)] plan_of_group(2) [OF weighted(5)] by simp
next
  case (parallel rs)
  then show ?thesis
    using traverse_leaf_nodes(2) [OF parallel(3)] plan_of_group(3) [OF parallel(4)] by simp
next
  case side_channel
  then show ?thesis using side_channel_node(2) by blast
qed

text \<open>
  C20. Every rejection is typed: the parser raises a composite validation error whose message and
  selector echo are within the operator limits of 256 and 512 characters, and nothing else, with
  two exceptions: a weight or context limit with more than 4300 digits raises the \<^verbatim>\<open>ValueError\<close> of \<^verbatim>\<open>int\<close>,
  and in a parallel selector formatting a non-finite timing raises an untyped \<^verbatim>\<open>OverflowError\<close> or
  \<^verbatim>\<open>ValueError\<close>. In particular no field validator of the plan ever fires.
\<close>

theorem parse_rejections_typed_and_bounded:
  assumes "parse fs ri = Inl e"
  shows "bounded_validation e \<or> integer_limit e \<or>
    (detect_primary_operator (py_strip (ri_selector ri)) = Some (CHR ''!'') \<and> timing_overflow e)"
  using parse_rejects [OF assms] by (auto simp: rejected_def)

text \<open>
  A plan has exactly one kind of operator, the first one of its selector outside brackets, and no
  branch contains an operator outside brackets. The only exception is the thinker side channel: a
  weighted group of two branches of which one is the thinker and the other carries its composite
  selector unparsed.
\<close>

lemma parse_single_operator:
  assumes "parse fs ri = Inr plan"
  shows "detect_primary_operator (py_strip (ri_selector ri)) = node_operator (root_node plan) \<and>
    ((\<forall>t \<in> set (branch_texts (py_strip (ri_selector ri))). \<not> has_top_level_operator t) \<or>
     thinker_side_channel (root_node plan))"
  using assms
proof (cases rule: parse_Inr_cases)
  case (leaf r)
  then show ?thesis
    by (auto simp: branch_texts_def has_top_level_operator_def list_ex_iff detect_primary_operator_def
        contains_operator_outside_brackets_def dest: detect_none_contains)
next
  case (failover rs)
  then show ?thesis
    using plan_of_group(1) [OF failover(4)] unmixed_parts_plain [of "CHR ''|''" "py_strip (ri_selector ri)"]
    by (simp add: branch_texts_def COMPOSITE_OPERATORS_def)
next
  case (weighted rs)
  then show ?thesis
    using plan_of_group(2) [OF weighted(5)] unmixed_parts_plain [of "CHR ''^''" "py_strip (ri_selector ri)"]
    by (simp add: branch_texts_def COMPOSITE_OPERATORS_def)
next
  case (parallel rs)
  then show ?thesis
    using plan_of_group(3) [OF parallel(4)] unmixed_parts_plain [of "CHR ''!''" "py_strip (ri_selector ri)"]
    by (simp add: branch_texts_def COMPOSITE_OPERATORS_def)
next
  case side_channel
  then show ?thesis by (elim side_channel_Inr) (auto dest!: plan_of_group(2))
qed

end
