(* ===== verification/Selector_Examples.thy ===== *)
theory Selector_Examples
  imports Selector_Theorems
begin

text \<open>
  Concrete runs of the selector parser: an accepted weighted selector and a rejected one, on which the
  properties of the parser are applied, and three runs that show where the parser departs from what
  its error contract and its checks intend.
\<close>

section \<open>Inputs\<close>

definition plain_input :: "string \<Rightarrow> CompositeRoutingInput" where
  "plain_input selector =
     \<lparr>ri_selector = selector, ri_surface = MAIN, require_explicit_backend = False,
      configured_max_hops = None, max_branch_history = DEFAULT_BRANCH_HISTORY_LIMIT,
      ri_default_backend = [], prefer_first_weighted_branch = False, request_context_tokens = None,
      weighted_cycle_state = None\<rparr>"

definition no_float :: "real \<Rightarrow> string" where
  "no_float r = []"

definition sample_leaf :: "string \<Rightarrow> string \<Rightarrow> int \<Rightarrow> string \<Rightarrow> string \<Rightarrow> CompositeLeafSelector" where
  "sample_leaf raw normalized w b m =
     \<lparr>raw_selector = raw, normalized_selector = normalized, weight_annotation = Some w,
      first_annotation = False, thinker_annotation = False, max_context_tokens = None,
      handicap_seconds = Finite 0, ttft_timeout_seconds = Finite 0, leaf_uri_params = [],
      leaf_backend_type = b, leaf_model_name = m, embedded_selector = None\<rparr>"

definition sample_plan :: CompositeRoutePlan where
  "sample_plan =
     \<lparr>plan_source_selector = ''[weight=3]a:m^b:n'', plan_normalized_selector = ''[weight=3]a:m^[weight=1]b:n'',
      root_node = WeightedGroupNode
        [CompositeLeafNode (sample_leaf ''[weight=3]a:m'' ''a:m'' 3 ''a'' ''m''),
         CompositeLeafNode (sample_leaf ''b:n'' ''b:n'' 1 ''b'' ''n'')]\<rparr>"

lemmas input_eval = selector_eval plain_input_def DEFAULT_BRANCH_HISTORY_LIMIT_def

lemma parse_sample: "parse no_float (plain_input ''[weight=3]a:m^b:n'') = Inr sample_plan"
  by (simp add: input_eval sample_plan_def sample_leaf_def)

section \<open>Applications of the properties\<close>

theorem parse_plan_well_formed_witness:
  "parse no_float (plain_input ''[weight=3]a:m^b:n'') = Inr sample_plan \<and> node_wf (root_node sample_plan)"
  using parse_sample parse_plan_well_formed [OF parse_sample] by simp

theorem parse_keeps_branches_in_order_witness:
  "map raw_selector (node_children (root_node sample_plan)) =
   map py_strip (branch_texts (py_strip (ri_selector (plain_input ''[weight=3]a:m^b:n''))))"
  using parse_keeps_branches_in_order [OF parse_sample] by simp

theorem parse_single_operator_witness:
  "detect_primary_operator (py_strip (ri_selector (plain_input ''[weight=3]a:m^b:n''))) =
   node_operator (root_node sample_plan)"
  using parse_single_operator [OF parse_sample] by simp

definition empty_branch_error :: parse_error where
  "empty_branch_error = CompositeSelectorValidationError (make_envelope SYNTAX_ERROR
     ''Composite selector contains an empty branch.'' ''a:m|'')"

lemma parse_empty_branch: "parse no_float (plain_input ''a:m|'') = Inl empty_branch_error"
  by (simp add: input_eval empty_branch_error_def raise_validation_error_def)

theorem parse_rejections_typed_and_bounded_witness:
  "parse no_float (plain_input ''a:m|'') = Inl empty_branch_error \<and> bounded_validation empty_branch_error"
  using parse_empty_branch parse_rejections_typed_and_bounded [OF parse_empty_branch]
  by (simp add: timing_overflow_def integer_limit_def empty_branch_error_def)

section \<open>Departures\<close>

text \<open>
  Two annotations that the parser reads as floats crash it in a parallel selector: \<^verbatim>\<open>inf\<close> and
  \<^verbatim>\<open>nan\<close> pass the check for non-negative numbers and then reach \<^verbatim>\<open>int(value)\<close>, which raises
  \<^verbatim>\<open>OverflowError\<close> and \<^verbatim>\<open>ValueError\<close> instead of a composite validation error.
\<close>

lemma parallel_non_finite_timing_crashes:
  "parse fs (plain_input ''[handicap=inf]a:m!b:n'') = Inl OverflowErrorRaised \<and>
   parse fs (plain_input ''[ttft_timeout=nan]a:m!b:n'') = Inl ValueErrorRaised"
  by (rule conjI) (simp_all add: input_eval)

text \<open>
  A weight or context limit with more than 4300 digits passes the check of its pattern, and then \<^verbatim>\<open>int\<close> raises
  a plain \<^verbatim>\<open>ValueError\<close>.
\<close>

lemma huge_integer_annotation_crashes:
  assumes "list_all py_isdigit ds" "length ds > 4300"
  shows "parse_positive_integer_annotation key (Some ds) source code = Inl IntegerLimitRaised"
proof -
  have d: "\<And>c. c \<in> set ds \<Longrightarrow> py_isdigit c" using assms(1) by (simp add: list_all_iff)
  obtain c s where ds: "ds = c # s" using assms(2) by (cases ds) auto
  have "\<not> py_isspace c" if "c \<in> set ds" for c using d [OF that] by (auto simp: py_isdigit_def py_isspace_def Let_def)
  then have st: "py_strip ds = ds" using ds by (intro py_strip_fixed) auto
  have "int_digits ds = length ds" using d by (simp add: int_digits_def)
  moreover have "py_int_literal ds = Some (int (digits_val ds))"
    using assms(1) d digit_not_sign by (auto simp: ds all_digits_def)
  ultimately show ?thesis
    using assms(2) by (cases "ds = []") (simp_all add: parse_positive_integer_annotation_def annotation_text_def st Let_def INT_MAX_STR_DIGITS_def)
qed

text \<open>
  The rule that a thinker branch cannot also be the first branch is enforced for plain weighted
  selectors only: the same branch is accepted as soon as the other side of the group is a composite
  selector.
\<close>

lemma side_channel_skips_first_thinker_check:
  "(\<exists>env. parse fs (plain_input ''[first][thinker]a:m^b:n'') = Inl (CompositeSelectorValidationError env)) \<and>
   (\<exists>plan. parse fs (plain_input ''[first][thinker]a:m^b:n|c:o'') = Inr plan \<and>
      (\<exists>l \<in> set (node_children (root_node plan)). first_annotation l \<and> thinker_annotation l))"
  by (rule conjI) (simp_all add: input_eval raise_validation_error_def)

end
