(* ===== verification/Routing_Context.thy ===== *)
theory Routing_Context
  imports Composite_Domain
begin

text \<open>
  What the routing services share: string-keyed dictionaries (\<^verbatim>\<open>context.extensions\<close>,
  \<^verbatim>\<open>request.extra_body\<close>, error details), the request, its context and the resolved target, the
  exception classes of \<^verbatim>\<open>src/core/common/exceptions.py\<close>, and the runtime-state helpers of
  \<^verbatim>\<open>src/core/services/composite_routing_state.py\<close>. The interface of a dictionary is the locale
  \<open>dictionary\<close>; the association lists of the model interpret it.
\<close>

section \<open>Dictionaries\<close>

type_synonym jdict = "(string \<times> json) list"

text \<open>\<^verbatim>\<open>d[key] = v\<close> keeps the position of a known key; \<^verbatim>\<open>d.pop(key, None)\<close> removes the key.\<close>

definition dict_set :: "string \<Rightarrow> json \<Rightarrow> jdict \<Rightarrow> jdict" where
  "dict_set k v d = AList.update k v d"

definition dict_pop :: "string \<Rightarrow> jdict \<Rightarrow> jdict" where
  "dict_pop k d = filter (\<lambda>p. fst p \<noteq> k) d"

definition dict_has :: "string \<Rightarrow> jdict \<Rightarrow> bool" where
  "dict_has k d \<longleftrightarrow> k \<in> fst ` set d"

locale dictionary =
  fixes get :: "'k \<Rightarrow> 'd \<Rightarrow> 'v" and put :: "'k \<Rightarrow> 'v \<Rightarrow> 'd \<Rightarrow> 'd" and del :: "'k \<Rightarrow> 'd \<Rightarrow> 'd"
    and absent :: 'v
  assumes get_put: "get k (put k' v d) = (if k = k' then v else get k d)"
    and get_del: "get k (del k' d) = (if k = k' then absent else get k d)"
begin

definition same_except :: "'k set \<Rightarrow> 'd \<Rightarrow> 'd \<Rightarrow> bool" where
  "same_except ks d d' \<longleftrightarrow> (\<forall>k. k \<notin> ks \<longrightarrow> get k d' = get k d)"

lemma same_except_refl: "same_except ks d d"
  by (simp add: same_except_def)

lemma same_except_put: "k \<in> ks \<Longrightarrow> same_except ks d d' \<Longrightarrow> same_except ks d (put k v d')"
  by (auto simp: same_except_def get_put)

lemma same_except_del: "k \<in> ks \<Longrightarrow> same_except ks d d' \<Longrightarrow> same_except ks d (del k d')"
  by (auto simp: same_except_def get_del)

lemma same_except_trans: "same_except ks d d' \<Longrightarrow> same_except ks d' d'' \<Longrightarrow> same_except ks d d''"
  by (simp add: same_except_def)

lemma same_except_get: "same_except ks d d' \<Longrightarrow> k \<notin> ks \<Longrightarrow> get k d' = get k d"
  by (simp add: same_except_def)

text \<open>Putting the previous value back after a temporary entry restores every reading.\<close>

lemma restore_put: "get k' (if get k d = absent then del k (put k v d) else put k (get k d) (put k v d)) = get k' d"
  by (auto simp: get_put get_del)

end

lemma map_of_filter_key: "map_of (filter (\<lambda>p. fst p \<noteq> k) d) k' = (if k' = k then None else map_of d k')"
  by (induction d) auto

interpretation jd: dictionary dict_get dict_set dict_pop JNull
  by unfold_locales (auto simp: dict_get_def dict_set_def dict_pop_def update_conv' map_of_filter_key)

declare jd.get_put [simp] jd.get_del [simp]

section \<open>Requests, contexts and targets\<close>

record ChatRequest =
  req_model :: string
  req_messages :: "json list"
  req_extra_body :: "jdict option"

record RequestContext =
  ctx_session_id :: "string option"
  extensions :: jdict

record BackendTarget =
  tgt_backend :: string
  tgt_model :: string
  tgt_uri_params :: jdict

definition ext_get :: "string \<Rightarrow> RequestContext \<Rightarrow> json" where
  "ext_get k ctx = dict_get k (extensions ctx)"

definition ext_set :: "string \<Rightarrow> json \<Rightarrow> RequestContext \<Rightarrow> RequestContext" where
  "ext_set k v ctx = ctx\<lparr>extensions := dict_set k v (extensions ctx)\<rparr>"

definition ext_pop :: "string \<Rightarrow> RequestContext \<Rightarrow> RequestContext" where
  "ext_pop k ctx = ctx\<lparr>extensions := dict_pop k (extensions ctx)\<rparr>"

interpretation ext: dictionary ext_get ext_set ext_pop JNull
  by unfold_locales (simp_all add: ext_get_def ext_set_def ext_pop_def)

declare ext.get_put [simp] ext.get_del [simp]

lemma ext_session [simp]:
  "ctx_session_id (ext_set k v ctx) = ctx_session_id ctx" "ctx_session_id (ext_pop k ctx) = ctx_session_id ctx"
  by (simp_all add: ext_set_def ext_pop_def)

definition uri_json :: "uri_params \<Rightarrow> jdict" where
  "uri_json ps = map (\<lambda>(k, v). (k, JStr v)) ps"

section \<open>Exceptions\<close>

datatype exn_class =
    LLMProxyError | AuthenticationError | BackendError | ServiceUnavailableError | ConfigurationError
  | RateLimitExceededError | ValidationError | InvalidRequestError | ServiceResolutionError
  | LoopDetectionError | TranslationError | ParsingError | JSONParsingError | APIConnectionError
  | APITimeoutError | RoutingError | SessionCancelledError | DuplicateRequestError
  | SelectorValidationError | OtherProxyError string | CancelledErrorClass | OtherException string

text \<open>The proper base classes of an exception class, nearest first, within the proxy's hierarchy.\<close>

fun base_classes :: "exn_class \<Rightarrow> exn_class list" where
  "base_classes LLMProxyError = []"
| "base_classes CancelledErrorClass = []"
| "base_classes (OtherException _) = []"
| "base_classes ServiceUnavailableError = [BackendError, LLMProxyError]"
| "base_classes RateLimitExceededError = [BackendError, LLMProxyError]"
| "base_classes APIConnectionError = [BackendError, LLMProxyError]"
| "base_classes APITimeoutError = [BackendError, LLMProxyError]"
| "base_classes DuplicateRequestError = [BackendError, LLMProxyError]"
| "base_classes JSONParsingError = [ParsingError, LLMProxyError]"
| "base_classes SelectorValidationError = [ValidationError, LLMProxyError]"
| "base_classes _ = [LLMProxyError]"

fun class_name :: "exn_class \<Rightarrow> string" where
  "class_name LLMProxyError = ''LLMProxyError''"
| "class_name AuthenticationError = ''AuthenticationError''"
| "class_name BackendError = ''BackendError''"
| "class_name ServiceUnavailableError = ''ServiceUnavailableError''"
| "class_name ConfigurationError = ''ConfigurationError''"
| "class_name RateLimitExceededError = ''RateLimitExceededError''"
| "class_name ValidationError = ''ValidationError''"
| "class_name InvalidRequestError = ''InvalidRequestError''"
| "class_name ServiceResolutionError = ''ServiceResolutionError''"
| "class_name LoopDetectionError = ''LoopDetectionError''"
| "class_name TranslationError = ''TranslationError''"
| "class_name ParsingError = ''ParsingError''"
| "class_name JSONParsingError = ''JSONParsingError''"
| "class_name APIConnectionError = ''APIConnectionError''"
| "class_name APITimeoutError = ''APITimeoutError''"
| "class_name RoutingError = ''RoutingError''"
| "class_name SessionCancelledError = ''SessionCancelledError''"
| "class_name DuplicateRequestError = ''DuplicateRequestError''"
| "class_name SelectorValidationError = ''CompositeSelectorValidationError''"
| "class_name (OtherProxyError n) = n"
| "class_name CancelledErrorClass = ''CancelledError''"
| "class_name (OtherException n) = n"

record exn =
  exn_class :: exn_class
  exn_message :: string
  exn_details :: jdict
  exn_status :: int
  exn_code :: "string option"

definition isinstance :: "exn \<Rightarrow> exn_class list \<Rightarrow> bool" where
  "isinstance e cs \<longleftrightarrow> (\<exists>c \<in> set (exn_class e # base_classes (exn_class e)). c \<in> set cs)"

text \<open>The constructors of a routing error and of a configuration error, and Python's \<^verbatim>\<open>ValueError\<close>.\<close>

definition routing_status :: "jdict \<Rightarrow> int" where
  "routing_status details =
     (let code = dict_get ''code'' details in
      if code = JStr ''unknown_model'' then 404
      else if code = JStr ''unsupported_on_instance'' then 400
      else if code = JStr ''temporarily_unavailable'' then 503
      else if code = JStr ''policy_rejected'' then 403
      else 503)"

definition mk_routing_error :: "string \<Rightarrow> jdict \<Rightarrow> exn" where
  "mk_routing_error message details =
     \<lparr>exn_class = RoutingError, exn_message = message, exn_details = details,
      exn_status = routing_status details, exn_code = None\<rparr>"

definition mk_configuration_error :: "string \<Rightarrow> exn" where
  "mk_configuration_error message =
     \<lparr>exn_class = ConfigurationError, exn_message = message, exn_details = [], exn_status = 400,
      exn_code = None\<rparr>"

definition value_error :: "string \<Rightarrow> exn" where
  "value_error message =
     \<lparr>exn_class = OtherException ''ValueError'', exn_message = message, exn_details = [], exn_status = 500,
      exn_code = None\<rparr>"

section \<open>Composite routing state\<close>

definition COMPOSITE_ROUTING_STATE_KEY :: string where
  "COMPOSITE_ROUTING_STATE_KEY = ''composite_routing_state''"
definition COMPOSITE_ROUTING_SURFACE_KEY :: string where
  "COMPOSITE_ROUTING_SURFACE_KEY = ''composite_routing_surface''"
definition COMPOSITE_LEAF_RESOLUTION_FLAG :: string where
  "COMPOSITE_LEAF_RESOLUTION_FLAG = ''composite_leaf_resolution''"
definition COMPOSITE_LEAF_RESOLUTION_EXTRA_BODY_KEY :: string where
  "COMPOSITE_LEAF_RESOLUTION_EXTRA_BODY_KEY = ''_composite_leaf_resolution''"
definition COMPOSITE_LEAF_SELECTOR_EXTRA_BODY_KEY :: string where
  "COMPOSITE_LEAF_SELECTOR_EXTRA_BODY_KEY = ''_composite_leaf_selector''"
definition COMPOSITE_LEAF_PARSED_BACKEND_EXTRA_BODY_KEY :: string where
  "COMPOSITE_LEAF_PARSED_BACKEND_EXTRA_BODY_KEY = ''_composite_leaf_parsed_backend''"
definition COMPOSITE_LEAF_PARSED_MODEL_EXTRA_BODY_KEY :: string where
  "COMPOSITE_LEAF_PARSED_MODEL_EXTRA_BODY_KEY = ''_composite_leaf_parsed_model''"
definition COMPOSITE_SELECTED_LEAF_SELECTOR_KEY :: string where
  "COMPOSITE_SELECTED_LEAF_SELECTOR_KEY = ''composite_selected_leaf_selector''"
definition COMPOSITE_SELECTED_LEAF_IS_THINKER_KEY :: string where
  "COMPOSITE_SELECTED_LEAF_IS_THINKER_KEY = ''composite_selected_leaf_is_thinker''"
definition WEIGHTED_CYCLE_STATE_KEY :: string where
  "WEIGHTED_CYCLE_STATE_KEY = ''interleaved_thinking_weighted_cycle_state''"
definition SUPPRESS_THINKER_SELECTION_KEY :: string where
  "SUPPRESS_THINKER_SELECTION_KEY = ''interleaved_thinking_suppress_thinker_selection''"
definition RESOLVED_URI_PARAMS_EXTRA_BODY_KEY :: string where
  "RESOLVED_URI_PARAMS_EXTRA_BODY_KEY = ''_resolved_uri_params''"
definition COMPOSITE_ROUTING_DIAGNOSTICS_KEY :: string where
  "COMPOSITE_ROUTING_DIAGNOSTICS_KEY = ''composite_routing_diagnostics''"
definition FAILOVER_MODE :: string where "FAILOVER_MODE = ''failover''"
definition WEIGHTED_RETRY_MODE :: string where "WEIGHTED_RETRY_MODE = ''weighted_retry''"

lemmas key_defs = COMPOSITE_ROUTING_STATE_KEY_def COMPOSITE_ROUTING_SURFACE_KEY_def
  COMPOSITE_LEAF_RESOLUTION_FLAG_def COMPOSITE_SELECTED_LEAF_SELECTOR_KEY_def
  COMPOSITE_SELECTED_LEAF_IS_THINKER_KEY_def WEIGHTED_CYCLE_STATE_KEY_def
  SUPPRESS_THINKER_SELECTION_KEY_def COMPOSITE_ROUTING_DIAGNOSTICS_KEY_def

record FailoverRuntimeState =
  fs_branches :: "string list"
  next_index :: int
  fs_hop_count :: int
  fs_max_hops :: int

record WeightedRetryBranch =
  wb_selector :: string
  wb_weight :: int

record WeightedRetryRuntimeState =
  ws_branches :: "WeightedRetryBranch list"
  excluded_selectors :: "string list"
  selected_selector :: string
  ws_hop_count :: int
  ws_max_hops :: int

fun surface_value :: "RoutingSurface \<Rightarrow> string" where
  "surface_value MAIN = ''main''"
| "surface_value AUXILIARY = ''auxiliary''"
| "surface_value QUALITY_VERIFIER = ''quality_verifier''"
| "surface_value REPLACEMENT_BRIDGE = ''replacement_bridge''"

definition surface_of :: "string \<Rightarrow> RoutingSurface option" where
  "surface_of s = find (\<lambda>x. surface_value x = s) [MAIN, AUXILIARY, QUALITY_VERIFIER, REPLACEMENT_BRIDGE]"

fun outcome_value :: "CompositeBranchOutcomeCategory \<Rightarrow> string" where
  "outcome_value VALIDATION_REJECTED = ''validation_rejected''"
| "outcome_value INELIGIBLE = ''ineligible''"
| "outcome_value RUNTIME_FAILED = ''runtime_failed''"
| "outcome_value NOT_SELECTED = ''not_selected''"
| "outcome_value SELECTED = ''selected''"
| "outcome_value EXHAUSTED = ''exhausted''"

definition resolve_composite_routing_surface :: "RequestContext option \<Rightarrow> RoutingSurface" where
  "resolve_composite_routing_surface context =
     (case context of
        None \<Rightarrow> MAIN
      | Some ctx \<Rightarrow>
          (let raw_purpose = ext_get ''call_purpose'' ctx;
               by_purpose = (if raw_purpose = JStr ''auxiliary'' then AUXILIARY
                 else if raw_purpose = JStr ''replacement'' \<or> raw_purpose = JStr ''model_replacement''
                 then REPLACEMENT_BRIDGE else MAIN) in
           if (case as_str raw_purpose of None \<Rightarrow> False | Some s \<Rightarrow> py_startswith s ''quality_verifier'')
           then QUALITY_VERIFIER
           else (case as_str (ext_get COMPOSITE_ROUTING_SURFACE_KEY ctx) of
                   None \<Rightarrow> by_purpose
                 | Some raw_surface \<Rightarrow>
                     (case surface_of raw_surface of Some x \<Rightarrow> x | None \<Rightarrow> by_purpose))))"

fun top_level_from :: "nat \<Rightarrow> string \<Rightarrow> char \<Rightarrow> bool" where
  "top_level_from depth [] operator = False"
| "top_level_from depth (c # s) operator =
     (if c = CHR ''['' then top_level_from (depth + 1) s operator
      else if c = CHR '']'' \<and> depth > 0 then top_level_from (depth - 1) s operator
      else if c = operator \<and> depth = 0 then True
      else top_level_from depth s operator)"

definition contains_top_level_operator :: "string \<Rightarrow> char \<Rightarrow> bool" where
  "contains_top_level_operator selector operator = top_level_from 0 selector operator"

definition is_composite_selector :: "string \<Rightarrow> bool" where
  "is_composite_selector model = list_ex (contains_top_level_operator model) ''|^!''"

definition build_budget_exhausted_error :: "int \<Rightarrow> int \<Rightarrow> exn" where
  "build_budget_exhausted_error hops limit =
     mk_routing_error ''Composite routing attempt budget exhausted.''
       [(''code'', JStr ''temporarily_unavailable''), (''category'', JStr ''availability''),
        (''retryable'', JBool True), (''reason'', JStr ''attempt_budget_exhausted''),
        (''hop_count'', JInt hops), (''max_hops'', JInt limit)]"

definition build_failover_exhausted_error :: "FailoverRuntimeState \<Rightarrow> exn" where
  "build_failover_exhausted_error state =
     mk_routing_error ''Composite failover branches were exhausted.''
       [(''code'', JStr ''temporarily_unavailable''), (''category'', JStr ''availability''),
        (''retryable'', JBool True), (''reason'', JStr ''failover_exhausted''),
        (''next_index'', JInt (next_index state)), (''branch_count'', JInt (int (length (fs_branches state))))]"

end
