(* ===== verification/Weighted_Selector.thy ===== *)
theory Weighted_Selector
  imports Routing_Context
begin

text \<open>
  Weighted branch selection, \<^verbatim>\<open>src/core/services/weighted_branch_selector.py\<close>. The value of the
  injectable random provider is the argument \<open>random_value\<close>. Products and sums are exact, where the
  code rounds \<^verbatim>\<open>random_value * total_weight\<close> to a double.
\<close>

section \<open>Operations\<close>

definition resolved_weight :: "CompositeLeafNode \<Rightarrow> int" where
  "resolved_weight n = (case weight_annotation (leaf_selector n) of None \<Rightarrow> 1 | Some w \<Rightarrow> w)"

text \<open>The loop that normalizes the weights: the first weight that is not positive ends it.\<close>

definition check_weight :: "int \<Rightarrow> exn + int" where
  "check_weight w =
     (if w \<le> 0 then Inl (value_error (''Invalid branch weight '' @ py_str_int w @ ''; weights must be positive.''))
      else Inr w)"

definition clamp_random :: "real \<Rightarrow> real" where
  "clamp_random r = (if r < 0 then 0 else if r \<ge> 1 then 9999999999999999 / 10 ^ 16 else r)"

text \<open>The loop \<^verbatim>\<open>for index, weight in enumerate(normalized_weights)\<close>, with its fall-back result.\<close>

fun pick_from :: "real \<Rightarrow> real \<Rightarrow> nat \<Rightarrow> int list \<Rightarrow> nat option" where
  "pick_from threshold cumulative index [] = None"
| "pick_from threshold cumulative index (w # ws) =
     (if threshold < cumulative + of_int w then Some index
      else pick_from threshold (cumulative + of_int w) (index + 1) ws)"

definition select_index_from_weights :: "real \<Rightarrow> int list \<Rightarrow> exn + nat" where
  "select_index_from_weights random_value weights =
     (if weights = [] then Inl (value_error ''Weighted selection requires at least one weight.'')
      else bind_res (traverse_res check_weight weights) (\<lambda>normalized_weights.
        let total_weight = sum_list normalized_weights in
        if total_weight \<le> 0
        then Inl (value_error ''Weighted selection must have a positive total weight.'')
        else (case pick_from (clamp_random random_value * of_int total_weight) 0 0 normalized_weights of
                Some index \<Rightarrow> Inr index
              | None \<Rightarrow> Inr (length normalized_weights - 1))))"

text \<open>The position of the branch that \<open>select\<close> returns: branches are objects, told apart by position.\<close>

definition select_position :: "real \<Rightarrow> bool \<Rightarrow> CompositeLeafNode list \<Rightarrow> exn + nat" where
  "select_position random_value prefer_first children =
     (if children = [] then Inl (value_error ''Weighted node must contain at least one branch.'')
      else
        (let first_branches = filter (\<lambda>i. first_annotation (leaf_selector (children ! i))) [0..<length children];
             by_weight = bind_res (traverse_res (\<lambda>c. check_weight (resolved_weight c)) children)
               (\<lambda>normalized_weights. select_index_from_weights random_value normalized_weights) in
         if prefer_first then
           (if length first_branches = 1 then Inr (first_branches ! 0)
            else if length first_branches > 1
            then Inl (value_error (''multiple branches annotated with [first]; ''
              @ ''exactly one is required when prefer_first is enabled''))
            else by_weight)
         else by_weight))"

definition select :: "real \<Rightarrow> bool \<Rightarrow> CompositeLeafNode list \<Rightarrow> exn + CompositeLeafNode" where
  "select random_value prefer_first children =
     bind_res (select_position random_value prefer_first children) (\<lambda>index. Inr (children ! index))"

section \<open>The cumulative rule\<close>

text \<open>The share of the unit interval before branch \<open>i\<close>, in units of weight.\<close>

definition weight_before :: "int list \<Rightarrow> nat \<Rightarrow> int" where
  "weight_before ws i = sum_list (take i ws)"

definition positive_weights :: "int list \<Rightarrow> bool" where
  "positive_weights ws \<longleftrightarrow> ws \<noteq> [] \<and> list_all (\<lambda>w. 0 < w) ws"

lemma check_weights_ok: "list_all (\<lambda>w. 0 < w) ws \<Longrightarrow> traverse_res check_weight ws = Inr ws"
  by (induction ws) (auto simp: check_weight_def)

lemma positive_sum: "list_all (\<lambda>w. 0 < w) ws \<Longrightarrow> 0 \<le> sum_list (ws :: int list)"
  by (induction ws) auto

lemma positive_weights_sum: "positive_weights ws \<Longrightarrow> 0 < sum_list ws"
  by (cases ws) (auto simp: positive_weights_def dest: positive_sum)

lemma weight_before_simps [simp]:
  "weight_before ws 0 = 0" "weight_before (w # ws) (Suc i) = w + weight_before ws i"
  by (simp_all add: weight_before_def)

lemma weight_before_nonneg: "list_all (\<lambda>w. 0 < w) ws \<Longrightarrow> 0 \<le> weight_before ws i"
  unfolding weight_before_def by (intro positive_sum) (auto simp: list_all_iff dest: in_set_takeD)

lemma clamp_random_range: "0 \<le> clamp_random r" "clamp_random r < 1"
  by (auto simp: clamp_random_def)

lemma pick_from_Some_iff:
  assumes "list_all (\<lambda>w. 0 < w) ws" "c \<le> t"
  shows "pick_from t c k ws = Some i \<longleftrightarrow>
    k \<le> i \<and> i - k < length ws \<and> c + of_int (weight_before ws (i - k)) \<le> t \<and>
    t < c + of_int (weight_before ws (Suc (i - k)))"
  using assms
proof (induction ws arbitrary: c k)
  case (Cons w ws)
  then have pos: "0 < w" "list_all (\<lambda>w. 0 < w) ws" by auto
  show ?case
  proof (cases "t < c + of_int w")
    case True
    have "\<not> c + of_int (weight_before (w # ws) (Suc j)) \<le> t" for j
      using True weight_before_nonneg [OF pos(2), of j] by (simp add: not_le add_increasing2)
    then have "c + of_int (weight_before (w # ws) (i - k)) \<le> t \<Longrightarrow> i - k = 0"
      by (cases "i - k") auto
    with True Cons.prems show ?thesis by (auto simp: le_antisym)
  next
    case False
    note IH = Cons.IH [OF pos(2), of "c + of_int w" "Suc k"]
    show ?thesis
    proof (cases "i \<le> k")
      case True
      with False IH show ?thesis by auto
    next
      case ge: False
      then obtain j where j: "i = k + Suc j" by (metis less_imp_Suc_add not_le add_Suc_right)
      from False IH show ?thesis by (auto simp: j algebra_simps)
    qed
  qed
qed simp

lemma pick_from_total:
  "t < c + of_int (sum_list ws) \<Longrightarrow> c \<le> t \<Longrightarrow> pick_from t c k ws \<noteq> None"
  by (induction ws arbitrary: c k) (auto simp: algebra_simps)

lemma select_index_pick:
  assumes "positive_weights ws"
  shows "\<exists>i. select_index_from_weights r ws = Inr i \<and>
    pick_from (clamp_random r * of_int (sum_list ws)) 0 0 ws = Some i"
proof -
  have pos: "list_all (\<lambda>w. 0 < w) ws" "ws \<noteq> []" "0 < sum_list ws"
    using assms positive_weights_sum by (auto simp: positive_weights_def)
  have "clamp_random r * of_int (sum_list ws) < of_int (sum_list ws)"
    using clamp_random_range [of r] pos(3) by simp
  then have "pick_from (clamp_random r * of_int (sum_list ws)) 0 0 ws \<noteq> None"
    using clamp_random_range(1) [of r] pos(3) by (intro pick_from_total) auto
  then show ?thesis using pos by (auto simp: select_index_from_weights_def check_weights_ok Let_def)
qed

lemma select_index_range:
  assumes "positive_weights ws" "select_index_from_weights r ws = Inr i"
  shows "i < length ws"
proof -
  have "pick_from (clamp_random r * of_int (sum_list ws)) 0 0 ws = Some i"
    using select_index_pick [OF assms(1), of r] assms(2) by auto
  moreover have "0 \<le> clamp_random r * of_int (sum_list ws)"
    using clamp_random_range(1) positive_weights_sum [OF assms(1)] by simp
  ultimately show ?thesis
    using assms(1) by (auto simp: pick_from_Some_iff positive_weights_def)
qed

lemma traverse_weights:
  "list_all (\<lambda>w. 0 < w) (map resolved_weight cs) \<Longrightarrow>
   traverse_res (\<lambda>c. check_weight (resolved_weight c)) cs = Inr (map resolved_weight cs)"
  by (induction cs) (auto simp: check_weight_def)

lemma select_by_weight:
  assumes "positive_weights (map resolved_weight cs)"
    and "\<not> prefer_first \<or> \<not> list_ex (\<lambda>c. first_annotation (leaf_selector c)) cs"
  shows "\<exists>i < length cs. select_index_from_weights r (map resolved_weight cs) = Inr i \<and>
    select_position r prefer_first cs = Inr i"
proof -
  have pos: "list_all (\<lambda>w. 0 < w) (map resolved_weight cs)" "cs \<noteq> []"
    using assms(1) by (auto simp: positive_weights_def)
  obtain i where i: "select_index_from_weights r (map resolved_weight cs) = Inr i"
    using select_index_pick [OF assms(1)] by blast
  have "filter (\<lambda>i. first_annotation (leaf_selector (cs ! i))) [0..<length cs] = []" if prefer_first
    using assms(2) that by (auto simp: list_ex_iff filter_empty_conv)
  with i pos traverse_weights [OF pos(1)] have "select_position r prefer_first cs = Inr i"
    by (auto simp: select_position_def Let_def)
  with i select_index_range [OF assms(1) i] show ?thesis by auto
qed

lemma select_by_first:
  assumes "length (filter (\<lambda>c. first_annotation (leaf_selector c)) cs) \<le> 1"
    and "prefer_first" "list_ex (\<lambda>c. first_annotation (leaf_selector c)) cs"
  shows "\<exists>i < length cs. first_annotation (leaf_selector (cs ! i)) \<and> select_position r prefer_first cs = Inr i"
proof -
  let ?is = "filter (\<lambda>i. first_annotation (leaf_selector (cs ! i))) [0..<length cs]"
  have "map ((!) cs) ?is = filter (\<lambda>c. first_annotation (leaf_selector c)) (map ((!) cs) [0..<length cs])"
    by (simp add: filter_map o_def)
  then have "map ((!) cs) ?is = filter (\<lambda>c. first_annotation (leaf_selector c)) cs"
    by (simp add: map_nth)
  then have "length ?is = length (filter (\<lambda>c. first_annotation (leaf_selector c)) cs)"
    by (metis length_map)
  moreover have "filter (\<lambda>c. first_annotation (leaf_selector c)) cs \<noteq> []"
    using assms(3) by (auto simp: list_ex_iff filter_empty_conv)
  ultimately have one: "length ?is = 1"
    using assms(1) by (cases "filter (\<lambda>c. first_annotation (leaf_selector c)) cs") auto
  then obtain i where i: "?is = [i]" by (auto simp: length_Suc_conv)
  then have "i \<in> set ?is" by simp
  then have "i < length cs" "first_annotation (leaf_selector (cs ! i))" by auto
  moreover have "select_position r prefer_first cs = Inr i"
    using assms(2) i \<open>i < length cs\<close> by (auto simp: select_position_def Let_def)
  ultimately show ?thesis by blast
qed

lemma select_position_range:
  assumes "positive_weights (map resolved_weight cs)"
    and "length (filter (\<lambda>c. first_annotation (leaf_selector c)) cs) \<le> 1"
  shows "\<exists>i < length cs. select_position r prefer_first cs = Inr i"
  using select_by_weight [OF assms(1), of prefer_first r] select_by_first [OF assms(2), of prefer_first r]
  by blast

section \<open>Properties\<close>

text \<open>
  Weighted selection is proportional: with positive weights and a random value in the unit
  interval, branch \<open>i\<close> is chosen exactly when the value, scaled by the total weight, falls between
  the weight before the branch and that weight plus its own, so that its share of the interval is
  its weight divided by the total.
\<close>

lemma select_index_proportional:
  assumes "positive_weights ws" "0 \<le> r" "r < 1"
  shows "select_index_from_weights r ws = Inr i \<longleftrightarrow>
    i < length ws \<and> of_int (weight_before ws i) / of_int (sum_list ws) \<le> r \<and>
    r < of_int (weight_before ws i + ws ! i) / of_int (sum_list ws)"
proof -
  have pos: "list_all (\<lambda>w. 0 < w) ws" "0 < sum_list ws"
    using assms(1) positive_weights_sum by (auto simp: positive_weights_def)
  have "clamp_random r = r" using assms by (simp add: clamp_random_def)
  then have "select_index_from_weights r ws = Inr i \<longleftrightarrow> pick_from (r * of_int (sum_list ws)) 0 0 ws = Some i"
    using select_index_pick [OF assms(1), of r] by auto
  also have "\<dots> \<longleftrightarrow> i < length ws \<and> of_int (weight_before ws i) \<le> r * of_int (sum_list ws) \<and>
      r * of_int (sum_list ws) < of_int (weight_before ws (Suc i))"
    using pos assms(2) by (auto simp: pick_from_Some_iff)
  also have "\<dots> \<longleftrightarrow> i < length ws \<and> of_int (weight_before ws i) \<le> r * of_int (sum_list ws) \<and>
      r * of_int (sum_list ws) < of_int (weight_before ws i + ws ! i)"
    by (auto simp: weight_before_def take_Suc_conv_app_nth)
  finally show ?thesis using pos(2) by (simp add: divide_le_eq less_divide_eq)
qed

theorem select_index_proportional_witness:
  "select_index_from_weights (4 / 5) [3, 1] = Inr 1 \<and> positive_weights [3, 1]"
proof -
  have p: "positive_weights [3, 1]" by (simp add: positive_weights_def)
  show ?thesis using p select_index_proportional [OF p, of "4 / 5" 1] by simp
qed

text \<open>
  Weighted selection always returns a branch of the group when the weights are positive, for
  every value of the random provider, also one outside the unit interval: the branch marked first
  when first is preferred and exactly one branch is marked, and otherwise, if none is marked, the
  branch at the index that the weights give.
\<close>

lemma select_total:
  assumes "positive_weights (map resolved_weight cs)"
    and "length (filter (\<lambda>c. first_annotation (leaf_selector c)) cs) \<le> 1"
  shows "\<exists>c \<in> set cs. select r prefer_first cs = Inr c \<and>
    (prefer_first \<and> list_ex (\<lambda>c. first_annotation (leaf_selector c)) cs \<longrightarrow> first_annotation (leaf_selector c)) \<and>
    (\<not> (prefer_first \<and> list_ex (\<lambda>c. first_annotation (leaf_selector c)) cs) \<longrightarrow>
      (\<exists>i < length cs. c = cs ! i \<and> select_index_from_weights r (map resolved_weight cs) = Inr i))"
proof (cases "prefer_first \<and> list_ex (\<lambda>c. first_annotation (leaf_selector c)) cs")
  case True
  with select_by_first [OF assms(2), of prefer_first r] show ?thesis
    by (auto simp: select_def intro: nth_mem bexI [of _ "cs ! _"])
next
  case False
  then have "\<not> prefer_first \<or> \<not> list_ex (\<lambda>c. first_annotation (leaf_selector c)) cs" by blast
  from select_by_weight [OF assms(1) this, of r] False show ?thesis by (auto simp: select_def)
qed

definition sample_branch :: "int option \<Rightarrow> bool \<Rightarrow> string \<Rightarrow> CompositeLeafNode" where
  "sample_branch w f m = CompositeLeafNode
     \<lparr>raw_selector = m, normalized_selector = m, weight_annotation = w, first_annotation = f,
      thinker_annotation = False, max_context_tokens = None, handicap_seconds = Finite 0,
      ttft_timeout_seconds = Finite 0, leaf_uri_params = [], leaf_backend_type = [],
      leaf_model_name = m, embedded_selector = None\<rparr>"

theorem select_total_witness:
  "select (1 / 10) True [sample_branch (Some 3) False ''m'', sample_branch None True ''n''] =
   Inr (sample_branch None True ''n'')"
proof -
  let ?cs = "[sample_branch (Some 3) False ''m'', sample_branch None True ''n'']"
  have "positive_weights (map resolved_weight ?cs)"
    by (simp add: positive_weights_def resolved_weight_def sample_branch_def)
  moreover have "length (filter (\<lambda>c. first_annotation (leaf_selector c)) ?cs) \<le> 1"
    by (simp add: sample_branch_def)
  ultimately obtain c where "c \<in> set ?cs" "select (1 / 10) True ?cs = Inr c"
      "first_annotation (leaf_selector c)"
    using select_total [of ?cs "1 / 10" True] by (auto simp: sample_branch_def)
  then show ?thesis by (auto simp: sample_branch_def)
qed

end
