(* ===== verification/Diagnostics.thy ===== *)
theory Diagnostics
  imports Routing_Context
begin

text \<open>
  The diagnostics publisher, \<^verbatim>\<open>src/core/services/composite_diagnostics_publisher.py\<close>: it writes one
  dictionary under \<^verbatim>\<open>composite_routing_diagnostics\<close> into the extensions of the request context. All
  keys of the modelled dictionaries are strings, so the \<^verbatim>\<open>isinstance(key, str)\<close> filters keep every
  entry.
\<close>

definition json_opt_int :: "int option \<Rightarrow> json" where
  "json_opt_int n = (case n of None \<Rightarrow> JNull | Some i \<Rightarrow> JInt i)"

fun error_code_value :: "CompositeValidationErrorCode \<Rightarrow> string" where
  "error_code_value SYNTAX_ERROR = ''syntax_error''"
| "error_code_value UNSUPPORTED_CONSTRUCT = ''unsupported_construct''"
| "error_code_value INVALID_WEIGHT = ''invalid_weight''"
| "error_code_value INVALID_MAX_CONTEXT = ''invalid_max_context''"
| "error_code_value INVALID_HANDICAP = ''invalid_handicap''"
| "error_code_value INVALID_TTFT_TIMEOUT = ''invalid_ttft_timeout''"
| "error_code_value INVALID_LEAF = ''invalid_leaf''"

definition envelope_dump :: "CompositeValidationErrorEnvelope \<Rightarrow> json" where
  "envelope_dump env =
     JDict [(''code'', JStr (error_code_value (env_code env))), (''message'', JStr (env_message env)),
            (''selector_echo'', JStr (env_selector_echo env)), (''details'', JDict [])]"

definition should_publish :: "string \<Rightarrow> RoutingSurface \<Rightarrow> bool" where
  "should_publish selector surface \<longleftrightarrow>
     contains_top_level_operator selector (CHR ''|'') \<or>
     contains_top_level_operator selector (CHR ''^'') \<or> surface = REPLACEMENT_BRIDGE"

definition ensure_payload :: "RequestContext \<Rightarrow> string \<Rightarrow> RoutingSurface \<Rightarrow> jdict" where
  "ensure_payload ctx selector surface =
     (let payload = (case as_dict (ext_get COMPOSITE_ROUTING_DIAGNOSTICS_KEY ctx) of None \<Rightarrow> [] | Some d \<Rightarrow> d) in
      dict_set ''selector'' (JStr selector) (dict_set ''surface'' (JStr (surface_value surface)) payload))"

definition persist_diagnostics :: "RequestContext \<Rightarrow> jdict \<Rightarrow> RequestContext" where
  "persist_diagnostics ctx payload = ext_set COMPOSITE_ROUTING_DIAGNOSTICS_KEY (JDict payload) ctx"

text \<open>The part that both kinds of publication share: the branch history and the omitted count.\<close>

definition add_branch_history :: "jdict list option \<Rightarrow> int option \<Rightarrow> jdict \<Rightarrow> jdict" where
  "add_branch_history history omitted d =
     (case history of
        None \<Rightarrow> d
      | Some h \<Rightarrow>
          (let d' = dict_set ''branch_history'' (JList (map JDict h)) d in
           case omitted of
             None \<Rightarrow> d'
           | Some n \<Rightarrow> if n > 0 then dict_set ''branch_history_omitted'' (JInt n) d' else d'))"

definition publish_validation_error ::
  "RequestContext option \<Rightarrow> string \<Rightarrow> RoutingSurface \<Rightarrow> CompositeValidationErrorEnvelope \<Rightarrow> RequestContext option" where
  "publish_validation_error context selector surface env =
     map_option (\<lambda>ctx. persist_diagnostics ctx
       (dict_set ''error'' (JDict [(''code'', JStr ''routing_validation_failed''),
          (''message'', JStr (env_message env)), (''validation'', envelope_dump env)])
        (ensure_payload ctx selector surface))) context"

definition selected_target_entry :: "string \<Rightarrow> BackendTarget \<Rightarrow> jdict" where
  "selected_target_entry selected target =
     [(''selector'', JStr selected), (''backend'', JStr (tgt_backend target)), (''model'', JStr (tgt_model target))]
     @ (if tgt_uri_params target \<noteq> [] then [(''uri_params'', JDict (tgt_uri_params target))] else [])"

definition publish_selected_target ::
  "RequestContext option \<Rightarrow> string \<Rightarrow> RoutingSurface \<Rightarrow> string \<Rightarrow> BackendTarget \<Rightarrow> jdict list option \<Rightarrow>
   int option \<Rightarrow> RequestContext option" where
  "publish_selected_target context selector surface selected target history omitted =
     map_option (\<lambda>ctx. persist_diagnostics ctx (add_branch_history history omitted
       (dict_set ''selected_target'' (JDict (selected_target_entry selected target))
         (ensure_payload ctx selector surface)))) context"

definition publish_exhaustion ::
  "RequestContext option \<Rightarrow> string \<Rightarrow> RoutingSurface \<Rightarrow> string \<Rightarrow> jdict \<Rightarrow> jdict list option \<Rightarrow>
   int option \<Rightarrow> RequestContext option" where
  "publish_exhaustion context selector surface reason details history omitted =
     map_option (\<lambda>ctx. persist_diagnostics ctx (add_branch_history history omitted
       (dict_set ''exhaustion'' (JDict (foldl (\<lambda>d (k, v). dict_set k v d) [(''reason'', JStr reason)] details))
         (ensure_payload ctx selector surface)))) context"

text \<open>Publishing touches the diagnostics entry only.\<close>

definition diag_frame :: "RequestContext option \<Rightarrow> RequestContext option \<Rightarrow> bool" where
  "diag_frame c c' \<longleftrightarrow>
     (case (c, c') of
        (None, None) \<Rightarrow> True
      | (Some x, Some y) \<Rightarrow> ctx_session_id y = ctx_session_id x \<and>
          ext.same_except {COMPOSITE_ROUTING_DIAGNOSTICS_KEY} x y
      | _ \<Rightarrow> False)"

lemma diag_frame_refl [simp]: "diag_frame c c"
  by (cases c) (simp_all add: diag_frame_def ext.same_except_refl)

lemma persist_frame: "diag_frame (Some ctx) (Some (persist_diagnostics ctx p))"
  by (simp add: diag_frame_def persist_diagnostics_def ext.same_except_put ext.same_except_refl)

lemma publish_frame [simp]:
  "diag_frame c (publish_validation_error c s u env)"
  "diag_frame c (publish_selected_target c s u x t h om)"
  "diag_frame c (publish_exhaustion c s u r d h om)"
  using persist_frame
  by (cases c; simp add: publish_validation_error_def publish_selected_target_def publish_exhaustion_def
      diag_frame_def)+

end
