(* ===== verification/Coordinator.thy ===== *)
theory Coordinator
  imports Weighted_Selector Diagnostics
begin

text \<open>
  The composite routing coordinator, \<^verbatim>\<open>src/core/services/composite_routing_coordinator.py\<close>. The leaf
  resolver (\<^verbatim>\<open>_LeafTargetResolver\<close>, an injected interface) is the argument \<open>resolver\<close>: it returns a
  target or raises, and may change the request context. \<open>estimate\<close> is
  \<^verbatim>\<open>count_tokens(extract_prompt_text(messages), model)\<close>, with \<open>Inr None\<close> for the four exceptions that the
  code catches there and \<open>Inl e\<close> for any other exception (the tokenizer loads its tables over the network), and \<open>random_value\<close> is the value of the random provider. A branch is an object of
  its group, a pair of its position and its value, so that equal branches stay distinct.
\<close>

type_synonym estimator = "json list \<Rightarrow> string \<Rightarrow> exn + int option"
type_synonym leaf_resolver =
  "ChatRequest \<Rightarrow> RequestContext option \<Rightarrow> CompositeLeafSelector \<Rightarrow> (exn + BackendTarget) \<times> RequestContext option"
type_synonym routed = "(exn + BackendTarget) \<times> RequestContext option"
type_synonym branch_ref = "nat \<times> CompositeLeafNode"
type_synonym token_cache = "string \<rightharpoonup> int"

abbreviation leaf_of :: "branch_ref \<Rightarrow> CompositeLeafSelector" where
  "leaf_of b \<equiv> leaf_selector (snd b)"

section \<open>Eligibility by context size\<close>

definition model_hint_of :: "CompositeLeafSelector \<Rightarrow> string" where
  "model_hint_of leaf = (let model_hint = py_strip (leaf_model_name leaf) in
     if model_hint = [] then normalized_selector leaf else model_hint)"

definition resolve_request_tokens_for_leaf ::
  "estimator \<Rightarrow> int option \<Rightarrow> ChatRequest \<Rightarrow> CompositeLeafSelector \<Rightarrow> token_cache \<Rightarrow>
   (exn + int option) \<times> token_cache" where
  "resolve_request_tokens_for_leaf estimate context_tokens request leaf cache =
     (case context_tokens of
        Some n \<Rightarrow> (Inr (Some n), cache)
      | None \<Rightarrow>
          (case cache (model_hint_of leaf) of
             Some n \<Rightarrow> (Inr (Some n), cache)
           | None \<Rightarrow>
               (case estimate (req_messages request) (model_hint_of leaf) of
                  Inl e \<Rightarrow> (Inl e, cache)
                | Inr None \<Rightarrow> (Inr None, cache)
                | Inr (Some n) \<Rightarrow> (Inr (Some n), cache(model_hint_of leaf \<mapsto> n)))))"

definition is_branch_eligible_for_max_context ::
  "estimator \<Rightarrow> int option \<Rightarrow> ChatRequest \<Rightarrow> CompositeLeafSelector \<Rightarrow> token_cache \<Rightarrow>
   (exn + bool) \<times> token_cache" where
  "is_branch_eligible_for_max_context estimate context_tokens request leaf cache =
     (case max_context_tokens leaf of
        None \<Rightarrow> (Inr True, cache)
      | Some limit \<Rightarrow>
          (case resolve_request_tokens_for_leaf estimate context_tokens request leaf cache of
             (Inl e, cache') \<Rightarrow> (Inl e, cache')
           | (Inr None, cache') \<Rightarrow> (Inr True, cache')
           | (Inr (Some n), cache') \<Rightarrow> (Inr (n \<le> limit), cache')))"

definition branch_history_entry ::
  "string \<Rightarrow> CompositeBranchOutcomeCategory \<Rightarrow> string option \<Rightarrow> string option \<Rightarrow> string option \<Rightarrow> jdict" where
  "branch_history_entry fragment outcome reason b m =
     (let opt = (\<lambda>k x. case x of None \<Rightarrow> [] | Some s \<Rightarrow> if s = [] then [] else [(k, JStr s)]) in
      [(''selector_fragment'', JStr fragment), (''outcome_category'', JStr (outcome_value outcome))]
      @ opt ''reason_code'' reason @ opt ''backend'' b @ opt ''model'' m)"

definition ineligible_entry :: "CompositeLeafSelector \<Rightarrow> string \<Rightarrow> jdict" where
  "ineligible_entry leaf reason =
     branch_history_entry (normalized_selector leaf) INELIGIBLE (Some reason) None None"

fun filter_children_by_max_context ::
  "estimator \<Rightarrow> int option \<Rightarrow> ChatRequest \<Rightarrow> branch_ref list \<Rightarrow> token_cache \<Rightarrow>
   exn + branch_ref list \<times> jdict list" where
  "filter_children_by_max_context estimate context_tokens request [] cache = Inr ([], [])"
| "filter_children_by_max_context estimate context_tokens request (b # bs) cache =
     (case is_branch_eligible_for_max_context estimate context_tokens request (leaf_of b) cache of
        (Inl e, cache') \<Rightarrow> Inl e
      | (Inr ok, cache') \<Rightarrow>
          bind_res (filter_children_by_max_context estimate context_tokens request bs cache')
            (\<lambda>(eligible, history).
               if ok then Inr (b # eligible, history)
               else Inr (eligible, ineligible_entry (leaf_of b) ''max_context_exceeded'' # history)))"

section \<open>Interleaved thinking\<close>

definition should_suppress_thinker_selection :: "RequestContext option \<Rightarrow> bool" where
  "should_suppress_thinker_selection context =
     (case context of None \<Rightarrow> False | Some ctx \<Rightarrow> truthy (ext_get SUPPRESS_THINKER_SELECTION_KEY ctx))"

definition filter_thinker_children_if_needed :: "RequestContext option \<Rightarrow> branch_ref list \<Rightarrow> branch_ref list" where
  "filter_thinker_children_if_needed context children =
     (if \<not> should_suppress_thinker_selection context then children
      else filter (\<lambda>b. \<not> thinker_annotation (leaf_of b)) children)"

definition has_thinker_branch :: "branch_ref list \<Rightarrow> bool" where
  "has_thinker_branch children = list_ex (\<lambda>b. thinker_annotation (leaf_of b)) children"

definition build_interleaved_thinking_sequence :: "branch_ref list \<Rightarrow> branch_ref list" where
  "build_interleaved_thinking_sequence children =
     concat (map (\<lambda>b. if thinker_annotation (leaf_of b) then []
                     else replicate (nat (resolved_weight (snd b))) b) children)
     @ filter (\<lambda>b. thinker_annotation (leaf_of b)) children"

fun first_annotation_sequence_index :: "branch_ref list \<Rightarrow> nat option" where
  "first_annotation_sequence_index [] = None"
| "first_annotation_sequence_index (b # bs) =
     (if first_annotation (leaf_of b) then Some 0 else map_option Suc (first_annotation_sequence_index bs))"

definition first_or_zero :: "branch_ref list \<Rightarrow> nat" where
  "first_or_zero sequence = (case first_annotation_sequence_index sequence of None \<Rightarrow> 0 | Some i \<Rightarrow> i)"

definition sequence_selectors :: "branch_ref list \<Rightarrow> json" where
  "sequence_selectors sequence = JList (map (\<lambda>b. JStr (normalized_selector (leaf_of b))) sequence)"

definition cycle_start :: "branch_ref list \<Rightarrow> string \<Rightarrow> json option \<Rightarrow> bool \<Rightarrow> nat" where
  "cycle_start sequence selector cycle_state prefer_first =
     (let fresh = (if prefer_first then first_or_zero sequence else 0) in
      case cycle_state of
        Some (JDict d) \<Rightarrow>
          (case as_int (dict_get ''next_index'' d) of
             Some i \<Rightarrow>
               (if dict_get ''selector'' d = JStr selector \<and>
                   dict_get ''sequence'' d = sequence_selectors sequence \<and> i \<ge> 0
                then nat (i mod int (length sequence)) else fresh)
           | None \<Rightarrow> fresh)
      | _ \<Rightarrow> fresh)"

definition cycle_state_dict :: "branch_ref list \<Rightarrow> string \<Rightarrow> nat \<Rightarrow> json" where
  "cycle_state_dict sequence selector i =
     JDict [(''selector'', JStr selector), (''sequence'', sequence_selectors sequence), (''next_index'', JInt (int i))]"

definition select_interleaved_thinking_weighted_cycle_leaf ::
  "branch_ref list \<Rightarrow> string \<Rightarrow> json option \<Rightarrow> bool \<Rightarrow> RequestContext option \<Rightarrow>
   (exn + branch_ref) \<times> RequestContext option" where
  "select_interleaved_thinking_weighted_cycle_leaf children selector cycle_state prefer_first context =
     (let sequence = build_interleaved_thinking_sequence children in
      if sequence = [] then (Inl (value_error ''Weighted node must contain at least one branch.''), context)
      else
        (let i = cycle_start sequence selector cycle_state prefer_first in
         (Inr (sequence ! i),
          map_option (ext_set WEIGHTED_CYCLE_STATE_KEY
            (cycle_state_dict sequence selector ((i + 1) mod length sequence))) context)))"

section \<open>State of a failover chain\<close>

definition failover_state_json :: "FailoverRuntimeState \<Rightarrow> json" where
  "failover_state_json state =
     JDict [(''mode'', JStr FAILOVER_MODE), (''branches'', JList (map JStr (fs_branches state))),
            (''next_index'', JInt (next_index state)), (''hop_count'', JInt (fs_hop_count state)),
            (''max_hops'', JInt (fs_max_hops state))]"

definition persist_state :: "FailoverRuntimeState \<Rightarrow> RequestContext option \<Rightarrow> RequestContext option" where
  "persist_state state context = map_option (ext_set COMPOSITE_ROUTING_STATE_KEY (failover_state_json state)) context"

definition fresh_failover_state :: "string list \<Rightarrow> int option \<Rightarrow> FailoverRuntimeState" where
  "fresh_failover_state branches configured =
     \<lparr>fs_branches = branches, next_index = 0, fs_hop_count = 0, fs_max_hops = resolve_max_hops configured\<rparr>"

text \<open>The stored state of a chain, if it is one of the same branches and well formed.\<close>

definition stored_failover_state :: "string list \<Rightarrow> json \<Rightarrow> FailoverRuntimeState option" where
  "stored_failover_state branches raw_state =
     (case as_dict raw_state of
        None \<Rightarrow> None
      | Some d \<Rightarrow>
          (case (as_int (dict_get ''next_index'' d), as_int (dict_get ''hop_count'' d), as_int (dict_get ''max_hops'' d)) of
             (Some i, Some h, Some m) \<Rightarrow>
               (if dict_get ''mode'' d = JStr FAILOVER_MODE \<and>
                   dict_get ''branches'' d = JList (map JStr branches) \<and> i \<ge> 0 \<and> h \<ge> 0 \<and> m > 0
                then Some \<lparr>fs_branches = branches, next_index = min i (int (length branches)),
                           fs_hop_count = h, fs_max_hops = m\<rparr>
                else None)
           | _ \<Rightarrow> None))"

definition load_or_init_state ::
  "RequestContext option \<Rightarrow> string list \<Rightarrow> int option \<Rightarrow> FailoverRuntimeState \<times> RequestContext option" where
  "load_or_init_state context branches configured =
     (case context of
        None \<Rightarrow> (fresh_failover_state branches configured, None)
      | Some ctx \<Rightarrow>
          (case stored_failover_state branches (ext_get COMPOSITE_ROUTING_STATE_KEY ctx) of
             Some state \<Rightarrow> (state, context)
           | None \<Rightarrow>
               (let initialized = fresh_failover_state branches configured in
                (initialized, persist_state initialized context))))"

definition persist_weighted_retry_state ::
  "branch_ref list \<Rightarrow> branch_ref \<Rightarrow> int option \<Rightarrow> RequestContext option \<Rightarrow> RequestContext option" where
  "persist_weighted_retry_state eligible selected configured context =
     map_option (ext_set COMPOSITE_ROUTING_STATE_KEY
       (JDict [(''mode'', JStr WEIGHTED_RETRY_MODE),
          (''branches'', JList (map (\<lambda>b. JDict [(''selector'', JStr (normalized_selector (leaf_of b))),
             (''weight'', JInt (resolved_weight (snd b)))]) eligible)),
          (''excluded_selectors'', JList []),
          (''selected_selector'', JStr (normalized_selector (leaf_of selected))),
          (''hop_count'', JInt 0), (''max_hops'', JInt (resolve_max_hops configured))])) context"

section \<open>Branch errors and history\<close>

definition append_branch_history :: "jdict list \<Rightarrow> jdict \<Rightarrow> int \<Rightarrow> int \<Rightarrow> jdict list \<times> int" where
  "append_branch_history history entry limit omitted =
     (let h = history @ [entry]; overflow = int (length h) - limit in
      if int (length h) \<le> limit then (h, omitted)
      else if overflow > 0 then (drop (nat overflow) h, omitted + overflow)
      else (h, omitted))"

definition is_failover_eligible_leaf_resolution_error :: "exn \<Rightarrow> bool" where
  "is_failover_eligible_leaf_resolution_error e = isinstance e [RoutingError, ValidationError, ConfigurationError]"

definition extract_reason_code :: "exn \<Rightarrow> string" where
  "extract_reason_code e =
     (let by_type = class_name (exn_class e) in
      if isinstance e [RoutingError] then
        (case as_str (dict_get ''code'' (exn_details e)) of
           Some code \<Rightarrow> if py_strip code \<noteq> [] then py_strip code else by_type
         | None \<Rightarrow> by_type)
      else by_type)"

definition classify_branch_error :: "exn \<Rightarrow> CompositeBranchOutcomeCategory \<times> string" where
  "classify_branch_error e =
     (let reason_code = extract_reason_code e; category = dict_get ''category'' (exn_details e) in
      if isinstance e [RoutingError] \<and> (category = JStr ''validation'' \<or> reason_code = ''unknown_model'')
      then (VALIDATION_REJECTED, reason_code)
      else if isinstance e [RoutingError] \<and>
        (category = JStr ''availability'' \<or> reason_code = ''temporarily_unavailable'')
      then (INELIGIBLE, reason_code)
      else if isinstance e [ValidationError, ConfigurationError] then (VALIDATION_REJECTED, reason_code)
      else (RUNTIME_FAILED, reason_code))"

section \<open>Resolution of one leaf\<close>

definition coordinator_resolve_leaf ::
  "leaf_resolver \<Rightarrow> ChatRequest \<Rightarrow> RequestContext option \<Rightarrow> CompositeLeafSelector \<Rightarrow> routed" where
  "coordinator_resolve_leaf resolver request context leaf =
     (case resolver request context leaf of
        (Inl e, context') \<Rightarrow> (Inl e, context')
      | (Inr target, context') \<Rightarrow>
          (Inr target,
           map_option (\<lambda>ctx. ext_set COMPOSITE_SELECTED_LEAF_IS_THINKER_KEY (JBool (thinker_annotation leaf))
             (ext_set COMPOSITE_SELECTED_LEAF_SELECTOR_KEY (JStr (normalized_selector leaf)) ctx)) context'))"

section \<open>Failover chains\<close>

record chain_state =
  ch_state :: FailoverRuntimeState
  ch_history :: "jdict list"
  ch_omitted :: int
  ch_cache :: token_cache
  ch_context :: "RequestContext option"

text \<open>An entry is appended when diagnostics are published.\<close>

definition note_branch :: "bool \<Rightarrow> int \<Rightarrow> jdict \<Rightarrow> chain_state \<Rightarrow> chain_state" where
  "note_branch publish limit entry s =
     (if publish then
        (case append_branch_history (ch_history s) entry limit (ch_omitted s) of
           (h, n) \<Rightarrow> s\<lparr>ch_history := h, ch_omitted := n\<rparr>)
      else s)"

definition save_chain :: "chain_state \<Rightarrow> chain_state" where
  "save_chain s = s\<lparr>ch_context := persist_state (ch_state s) (ch_context s)\<rparr>"

definition advance_chain :: "int \<Rightarrow> chain_state \<Rightarrow> chain_state" where
  "advance_chain i s = save_chain (s\<lparr>ch_state := (ch_state s)\<lparr>next_index := i\<rparr>\<rparr>)"

definition publish_chain_exhaustion ::
  "CompositeRoutingInput \<Rightarrow> bool \<Rightarrow> string \<Rightarrow> jdict \<Rightarrow> jdict list \<Rightarrow> int \<Rightarrow> RequestContext option \<Rightarrow> RequestContext option" where
  "publish_chain_exhaustion ri publish reason details history omitted context =
     (if publish then publish_exhaustion context (ri_selector ri) (ri_surface ri) reason details (Some history) (Some omitted)
      else context)"

text \<open>The history of an exhausted chain ends with an entry of its own, within the same limit.\<close>

definition exhaustion_history :: "CompositeRoutingInput \<Rightarrow> CompositeLeafSelector \<Rightarrow> string \<Rightarrow> chain_state \<Rightarrow> jdict list \<times> int" where
  "exhaustion_history ri leaf reason s =
     append_branch_history (ch_history s) (branch_history_entry (normalized_selector leaf) EXHAUSTED (Some reason) None None)
       (max_branch_history ri) (ch_omitted s)"

definition exhausted_details :: "FailoverRuntimeState \<Rightarrow> jdict" where
  "exhausted_details state =
     [(''next_index'', JInt (next_index state)), (''branch_count'', JInt (int (length (fs_branches state))))]"

definition budget_details :: "FailoverRuntimeState \<Rightarrow> jdict" where
  "budget_details state = [(''hop_count'', JInt (fs_hop_count state)), (''max_hops'', JInt (fs_max_hops state))]"

text \<open>What a branch does to the chain when its resolution raises an error that failover handles.\<close>

definition branch_failed ::
  "CompositeRoutingInput \<Rightarrow> bool \<Rightarrow> nat \<Rightarrow> nat \<Rightarrow> CompositeLeafSelector \<Rightarrow> exn \<Rightarrow> chain_state \<Rightarrow> routed + chain_state" where
  "branch_failed ri publish n_children i leaf e s0 =
     (let s = note_branch publish (max_branch_history ri)
                (branch_history_entry (normalized_selector leaf) (fst (classify_branch_error e))
                  (Some (snd (classify_branch_error e))) None None) s0;
          state = ch_state s in
      if fs_hop_count state \<ge> fs_max_hops state then
        (let s = save_chain s; (h, n) = exhaustion_history ri leaf ''attempt_budget_exhausted'' s in
         Inl (Inl (build_budget_exhausted_error (fs_hop_count state) (fs_max_hops state)),
              publish_chain_exhaustion ri publish ''attempt_budget_exhausted'' (budget_details state) h n (ch_context s)))
      else if int i \<ge> int n_children - 1 then
        (let s = advance_chain (int n_children) s; (h, n) = exhaustion_history ri leaf ''failover_exhausted'' s in
         Inl (Inl (build_failover_exhausted_error (ch_state s)),
              publish_chain_exhaustion ri publish ''failover_exhausted'' (exhausted_details (ch_state s)) h n (ch_context s)))
      else
        Inr (advance_chain (int i + 1) (s\<lparr>ch_state := state\<lparr>fs_hop_count := fs_hop_count state + 1\<rparr>\<rparr>)))"

definition branch_resolved ::
  "CompositeRoutingInput \<Rightarrow> bool \<Rightarrow> nat \<Rightarrow> CompositeLeafSelector \<Rightarrow> BackendTarget \<Rightarrow> chain_state \<Rightarrow> routed" where
  "branch_resolved ri publish i leaf target s0 =
     (let s = advance_chain (int i + 1) (note_branch publish (max_branch_history ri)
                (branch_history_entry (normalized_selector leaf) SELECTED None
                  (Some (tgt_backend target)) (Some (tgt_model target))) s0) in
      (Inr target,
       if publish then publish_selected_target (ch_context s) (ri_selector ri) (ri_surface ri)
         (normalized_selector leaf) target (Some (ch_history s)) (Some (ch_omitted s))
       else ch_context s))"

text \<open>The loop \<^verbatim>\<open>while branch_index < len(node.children)\<close> over the children from the index on.\<close>

fun failover_loop ::
  "estimator \<Rightarrow> leaf_resolver \<Rightarrow> CompositeRoutingInput \<Rightarrow> ChatRequest \<Rightarrow> bool \<Rightarrow> nat \<Rightarrow> nat \<Rightarrow>
   CompositeLeafNode list \<Rightarrow> chain_state \<Rightarrow> routed" where
  "failover_loop estimate resolver ri request publish n_children i [] s =
     (Inl (build_failover_exhausted_error (ch_state s)),
      publish_chain_exhaustion ri publish ''failover_exhausted'' (exhausted_details (ch_state s))
        (ch_history s) (ch_omitted s) (ch_context s))"
| "failover_loop estimate resolver ri request publish n_children i (b # bs) s =
     (let leaf = leaf_selector b; limit = max_branch_history ri in
      if should_suppress_thinker_selection (ch_context s) \<and> thinker_annotation leaf then
        failover_loop estimate resolver ri request publish n_children (i + 1) bs
          (advance_chain (int i + 1)
            (note_branch publish limit (ineligible_entry leaf ''interleaved_thinking_cooldown'') s))
      else
        (case is_branch_eligible_for_max_context estimate (request_context_tokens ri) request leaf (ch_cache s) of
           (Inl e, cache) \<Rightarrow> (Inl e, ch_context s)
         | (Inr False, cache) \<Rightarrow>
             failover_loop estimate resolver ri request publish n_children (i + 1) bs
               (advance_chain (int i + 1)
                 (note_branch publish limit (ineligible_entry leaf ''max_context_exceeded'') (s\<lparr>ch_cache := cache\<rparr>)))
         | (Inr True, cache) \<Rightarrow>
             (case coordinator_resolve_leaf resolver request (ch_context s) leaf of
                (Inr target, context') \<Rightarrow>
                  branch_resolved ri publish i leaf target (s\<lparr>ch_cache := cache, ch_context := context'\<rparr>)
              | (Inl e, context') \<Rightarrow>
                  (if \<not> is_failover_eligible_leaf_resolution_error e then (Inl e, context')
                   else (case branch_failed ri publish n_children i leaf e (s\<lparr>ch_cache := cache, ch_context := context'\<rparr>) of
                           Inl result \<Rightarrow> result
                         | Inr s' \<Rightarrow> failover_loop estimate resolver ri request publish n_children (i + 1) bs s')))))"

definition attempted_entry :: "string \<Rightarrow> jdict" where
  "attempted_entry selector = branch_history_entry selector INELIGIBLE (Some ''already_attempted'') None None"

definition execute_failover_chain ::
  "estimator \<Rightarrow> leaf_resolver \<Rightarrow> CompositeLeafNode list \<Rightarrow> CompositeRoutingInput \<Rightarrow> ChatRequest \<Rightarrow>
   RequestContext option \<Rightarrow> bool \<Rightarrow> routed" where
  "execute_failover_chain estimate resolver children ri request context publish =
     (let branches = map (\<lambda>c. normalized_selector (leaf_selector c)) children;
          (state, context') = load_or_init_state context branches (configured_max_hops ri);
          branch_index = nat (min (max 0 (next_index state)) (int (length children)));
          s = foldl (\<lambda>s skipped. note_branch publish (max_branch_history ri) (attempted_entry skipped) s)
                \<lparr>ch_state = state, ch_history = [], ch_omitted = 0, ch_cache = Map.empty, ch_context = context'\<rparr>
                (take branch_index branches) in
      failover_loop estimate resolver ri request publish (length children) branch_index (drop branch_index children) s)"

section \<open>Leaf and weighted plans\<close>

definition availability_error :: "string \<Rightarrow> string \<Rightarrow> exn" where
  "availability_error message reason =
     mk_routing_error message
       [(''code'', JStr ''temporarily_unavailable''), (''category'', JStr ''availability''),
        (''retryable'', JBool True), (''reason'', JStr reason)]"

definition execute_leaf ::
  "estimator \<Rightarrow> leaf_resolver \<Rightarrow> CompositeLeafSelector \<Rightarrow> CompositeRoutingInput \<Rightarrow> ChatRequest \<Rightarrow>
   RequestContext option \<Rightarrow> bool \<Rightarrow> routed" where
  "execute_leaf estimate resolver leaf ri request context publish =
     (case fst (is_branch_eligible_for_max_context estimate (request_context_tokens ri) request leaf Map.empty) of
        Inl e \<Rightarrow> (Inl e, context)
      | Inr False \<Rightarrow>
        (Inl (availability_error ''Leaf selector exceeded max_context constraint.'' ''max_context_exceeded''),
         if publish then publish_exhaustion context (ri_selector ri) (ri_surface ri) ''max_context_exceeded''
           [(''request_context_tokens'', json_opt_int (request_context_tokens ri)),
            (''max_context_tokens'', json_opt_int (max_context_tokens leaf))]
           (Some [ineligible_entry leaf ''max_context_exceeded'']) None
         else context)
      | Inr True \<Rightarrow>
        (case coordinator_resolve_leaf resolver request context leaf of
           (Inl e, context') \<Rightarrow> (Inl e, context')
         | (Inr resolved, context') \<Rightarrow>
             (Inr resolved,
              if publish then publish_selected_target context' (ri_selector ri) (ri_surface ri)
                (normalized_selector leaf) resolved None None
              else context')))"

text \<open>The children that remain after thinker suppression.\<close>

definition after_suppression :: "branch_ref list \<Rightarrow> branch_ref list \<Rightarrow> RequestContext option \<Rightarrow> branch_ref list" where
  "after_suppression children eligible context =
     (if has_thinker_branch children \<and> should_suppress_thinker_selection context \<and>
         \<not> list_ex (\<lambda>b. \<not> thinker_annotation (leaf_of b)) eligible
      then []
      else if \<not> has_thinker_branch children then filter_thinker_children_if_needed context eligible
      else eligible)"

definition select_weighted_branch ::
  "real \<Rightarrow> CompositeRoutePlan \<Rightarrow> CompositeRoutingInput \<Rightarrow> branch_ref list \<Rightarrow> branch_ref list \<Rightarrow>
   RequestContext option \<Rightarrow> (exn + branch_ref) \<times> RequestContext option" where
  "select_weighted_branch random_value plan ri children eligible context =
     (if has_thinker_branch children then
        select_interleaved_thinking_weighted_cycle_leaf eligible (plan_normalized_selector plan)
          (weighted_cycle_state ri) (prefer_first_weighted_branch ri) context
      else if length eligible = 1 then (Inr (eligible ! 0), context)
      else (bind_res (select_position random_value (prefer_first_weighted_branch ri) (map snd eligible))
              (\<lambda>i. Inr (eligible ! i)), context))"

definition weighted_entry :: "bool \<Rightarrow> branch_ref \<Rightarrow> branch_ref \<Rightarrow> jdict" where
  "weighted_entry thinker selected b =
     (if fst b = fst selected then branch_history_entry (normalized_selector (leaf_of b)) SELECTED None None None
      else branch_history_entry (normalized_selector (leaf_of b)) NOT_SELECTED
        (Some (if thinker then ''interleaved_thinking_weighted_cycle_non_winner'' else ''weighted_random_non_winner''))
        None None)"

definition execute_weighted ::
  "estimator \<Rightarrow> leaf_resolver \<Rightarrow> real \<Rightarrow> CompositeRoutePlan \<Rightarrow> CompositeLeafNode list \<Rightarrow> CompositeRoutingInput \<Rightarrow>
   ChatRequest \<Rightarrow> RequestContext option \<Rightarrow> bool \<Rightarrow> routed" where
  "execute_weighted estimate resolver random_value plan nodes ri request context publish =
     (case filter_children_by_max_context estimate (request_context_tokens ri) request (enumerate 0 nodes) Map.empty of
        Inl e \<Rightarrow> (Inl e, context)
      | Inr (in_context, filtered) \<Rightarrow>
     (let children = enumerate 0 nodes;
          eligible = after_suppression children in_context context;
          tokens = (''request_context_tokens'', json_opt_int (request_context_tokens ri));
          branch_count = (''branch_count'', JInt (int (length children))) in
      if in_context = [] then
        (Inl (availability_error ''All weighted branches exceeded max_context constraints.'' ''max_context_exhausted''),
         if publish then publish_exhaustion context (ri_selector ri) (ri_surface ri) ''max_context_exhausted''
           [tokens, branch_count] (Some filtered) None
         else context)
      else if eligible = [] then
        (Inl (availability_error ''All weighted branches were excluded by interleaved thinking suppression.''
                ''interleaved_thinking_suppressed''),
         if publish then publish_exhaustion context (ri_selector ri) (ri_surface ri) ''interleaved_thinking_suppressed''
           [branch_count, tokens]
           (Some (filtered @ map (\<lambda>b. ineligible_entry (leaf_of b) ''interleaved_thinking_suppressed'')
              (filter (\<lambda>b. thinker_annotation (leaf_of b)) children))) None
         else context)
      else
        (case select_weighted_branch random_value plan ri children eligible context of
           (Inl e, context1) \<Rightarrow> (Inl e, context1)
         | (Inr selected, context1) \<Rightarrow>
             (case coordinator_resolve_leaf resolver request context1 (leaf_of selected) of
                (Inl e, context2) \<Rightarrow> (Inl e, context2)
              | (Inr resolved, context2) \<Rightarrow>
                  (let context3 = persist_weighted_retry_state eligible selected (configured_max_hops ri) context2 in
                   (Inr resolved,
                    if publish then publish_selected_target context3 (ri_selector ri) (ri_surface ri)
                      (normalized_selector (leaf_of selected)) resolved
                      (Some (filtered @ map (weighted_entry (has_thinker_branch children) selected) eligible)) None
                    else context3))))))"

definition execute ::
  "estimator \<Rightarrow> leaf_resolver \<Rightarrow> real \<Rightarrow> CompositeRoutePlan \<Rightarrow> CompositeRoutingInput \<Rightarrow> ChatRequest \<Rightarrow>
   RequestContext option \<Rightarrow> routed" where
  "execute estimate resolver random_value plan ri request context =
     (let publish = should_publish (ri_selector ri) (ri_surface ri) in
      case root_node plan of
        LeafNode n \<Rightarrow> execute_leaf estimate resolver (leaf_selector n) ri request context publish
      | WeightedGroupNode ns \<Rightarrow> execute_weighted estimate resolver random_value plan ns ri request context publish
      | ParallelGroupNode ns \<Rightarrow>
          (Inl (mk_configuration_error (''Parallel composite routing plans must be executed through ''
             @ ''ParallelCompletionOrchestrator, not CompositeRoutingCoordinator.'')), context)
      | FailoverGroupNode ns \<Rightarrow> execute_failover_chain estimate resolver ns ri request context publish)"

end
