(* ===== verification/Recovery_Bridge.thy ===== *)
theory Recovery_Bridge
  imports Coordinator
begin

text \<open>
  The bridge from runtime failures to the next attempt,
  \<^verbatim>\<open>src/core/services/composite_failure_recovery_bridge.py\<close>: it reads the state that the coordinator
  stored in the request context and builds the request of the next branch. \<open>random_value\<close> is the value of
  the random provider of its weighted selector. \<^verbatim>\<open>model_copy\<close> with a new model and extra body is record
  update.
\<close>

section \<open>Stored states\<close>

definition load_failover_state :: "RequestContext \<Rightarrow> FailoverRuntimeState option" where
  "load_failover_state ctx =
     (case as_dict (ext_get COMPOSITE_ROUTING_STATE_KEY ctx) of
        None \<Rightarrow> None
      | Some d \<Rightarrow>
          (if dict_get ''mode'' d \<noteq> JStr FAILOVER_MODE then None
           else (case as_list (dict_get ''branches'' d) of
             None \<Rightarrow> None
           | Some items \<Rightarrow>
             (case (str_items items, as_int (dict_get ''next_index'' d), as_int (dict_get ''hop_count'' d),
                    as_int (dict_get ''max_hops'' d)) of
                (Some branches, Some i, Some h, Some m) \<Rightarrow>
                  (if i < 0 \<or> h < 0 \<or> m \<le> 0 then None
                   else Some \<lparr>fs_branches = branches, next_index = i, fs_hop_count = h, fs_max_hops = m\<rparr>)
              | _ \<Rightarrow> None))))"

text \<open>One stored weighted branch, as the loop over \<^verbatim>\<open>branches\<close> checks it.\<close>

definition load_weighted_branch :: "json \<Rightarrow> WeightedRetryBranch option" where
  "load_weighted_branch branch =
     (case as_dict branch of
        None \<Rightarrow> None
      | Some d \<Rightarrow>
          (case (as_str (dict_get ''selector'' d), as_int (dict_get ''weight'' d)) of
             (Some selector, Some w) \<Rightarrow>
               (if py_strip selector = [] \<or> w \<le> 0 then None
                else Some \<lparr>wb_selector = py_strip selector, wb_weight = w\<rparr>)
           | _ \<Rightarrow> None))"

fun load_weighted_branches :: "json list \<Rightarrow> WeightedRetryBranch list option" where
  "load_weighted_branches [] = Some []"
| "load_weighted_branches (b # bs) =
     (case load_weighted_branch b of
        None \<Rightarrow> None
      | Some x \<Rightarrow> map_option ((#) x) (load_weighted_branches bs))"

definition load_weighted_state :: "RequestContext \<Rightarrow> WeightedRetryRuntimeState option" where
  "load_weighted_state ctx =
     (case as_dict (ext_get COMPOSITE_ROUTING_STATE_KEY ctx) of
        None \<Rightarrow> None
      | Some d \<Rightarrow>
          (if dict_get ''mode'' d \<noteq> JStr WEIGHTED_RETRY_MODE then None
           else (case (as_list (dict_get ''branches'' d), as_list (dict_get ''excluded_selectors'' d)) of
             (Some bs, Some es) \<Rightarrow>
               (case (str_items es, as_str (dict_get ''selected_selector'' d), as_int (dict_get ''hop_count'' d),
                      as_int (dict_get ''max_hops'' d)) of
                  (Some excluded, Some selected, Some h, Some m) \<Rightarrow>
                    (if py_strip selected = [] \<or> h < 0 \<or> m \<le> 0 \<or> bs = [] then None
                     else (case load_weighted_branches bs of
                       None \<Rightarrow> None
                     | Some normalized \<Rightarrow>
                         (if selected \<notin> set (map wb_selector normalized) then None
                          else Some \<lparr>ws_branches = normalized, excluded_selectors = excluded,
                            selected_selector = selected, ws_hop_count = h, ws_max_hops = m\<rparr>)))
                | _ \<Rightarrow> None)
           | _ \<Rightarrow> None)))"

definition serialize_weighted_state :: "WeightedRetryRuntimeState \<Rightarrow> json" where
  "serialize_weighted_state weighted =
     JDict [(''mode'', JStr WEIGHTED_RETRY_MODE),
       (''branches'', JList (map (\<lambda>b. JDict [(''selector'', JStr (wb_selector b)), (''weight'', JInt (wb_weight b))])
          (ws_branches weighted))),
       (''excluded_selectors'', JList (map JStr (excluded_selectors weighted))),
       (''selected_selector'', JStr (selected_selector weighted)),
       (''hop_count'', JInt (ws_hop_count weighted)), (''max_hops'', JInt (ws_max_hops weighted))]"

section \<open>Which errors allow a reroll\<close>

definition reroll_error_code :: "exn \<Rightarrow> string option" where
  "reroll_error_code e =
     (case exn_code e of
        Some c \<Rightarrow> if c \<noteq> [] then Some c
                  else (case as_str (dict_get ''code'' (exn_details e)) of Some d \<Rightarrow> Some d | None \<Rightarrow> Some c)
      | None \<Rightarrow> as_str (dict_get ''code'' (exn_details e)))"

definition is_weighted_reroll_eligible :: "exn \<Rightarrow> bool" where
  "is_weighted_reroll_eligible e =
     (if exn_class e = CancelledErrorClass then False
      else if isinstance e [AuthenticationError, SessionCancelledError, ConfigurationError, ValidationError,
        InvalidRequestError, RoutingError, TranslationError, ParsingError] then False
      else if isinstance e [BackendError] then
        (if exn_status e \<in> {401, 403, 499} then False
         else \<not> (case reroll_error_code e of
                   None \<Rightarrow> False
                 | Some c \<Rightarrow> c \<in> {''invalid_api_key'', ''authentication_failed'', ''unauthorized'', ''forbidden''}))
      else False)"

section \<open>The next request\<close>

definition next_extra_body :: "string \<Rightarrow> ChatRequest \<Rightarrow> jdict" where
  "next_extra_body selector request =
     (let parsed = parse_model_with_params selector [];
          extra_body = (case req_extra_body request of None \<Rightarrow> [] | Some d \<Rightarrow> d);
          with_params = dict_set RESOLVED_URI_PARAMS_EXTRA_BODY_KEY (JDict (uri_json (uri_params parsed))) extra_body in
      if backend_type parsed \<noteq> [] then dict_set ''backend_type'' (JStr (backend_type parsed)) with_params
      else dict_pop ''backend_type'' with_params)"

definition next_request :: "string \<Rightarrow> ChatRequest \<Rightarrow> ChatRequest" where
  "next_request selector request =
     request\<lparr>req_model := selector, req_extra_body := Some (next_extra_body selector request)\<rparr>"

definition bridge_publish_exhaustion :: "RequestContext \<Rightarrow> ChatRequest \<Rightarrow> string \<Rightarrow> jdict \<Rightarrow> RequestContext" where
  "bridge_publish_exhaustion ctx request reason details =
     the (publish_exhaustion (Some ctx) (req_model request) (resolve_composite_routing_surface (Some ctx))
       reason details None None)"

text \<open>The branches that are not excluded, and the exclusions of the next round.\<close>

definition remaining_branches :: "string list \<Rightarrow> WeightedRetryBranch list \<Rightarrow> WeightedRetryBranch list" where
  "remaining_branches excluded branches = filter (\<lambda>b. wb_selector b \<notin> set excluded) branches"

definition build_weighted_retry_request ::
  "real \<Rightarrow> ChatRequest \<Rightarrow> RequestContext \<Rightarrow> WeightedRetryRuntimeState \<Rightarrow> exn option \<Rightarrow>
   (exn + ChatRequest option) \<times> RequestContext" where
  "build_weighted_retry_request random_value request ctx weighted error =
     (if (case error of None \<Rightarrow> True | Some e \<Rightarrow> \<not> is_weighted_reroll_eligible e) then (Inr None, ctx)
      else if ws_hop_count weighted \<ge> ws_max_hops weighted then
        (Inl (build_budget_exhausted_error (ws_hop_count weighted) (ws_max_hops weighted)),
         bridge_publish_exhaustion ctx request ''attempt_budget_exhausted''
           [(''hop_count'', JInt (ws_hop_count weighted)), (''max_hops'', JInt (ws_max_hops weighted))])
      else
        (let selected = selected_selector weighted;
             excluded1 = (if selected \<notin> set (excluded_selectors weighted)
                          then excluded_selectors weighted @ [selected] else excluded_selectors weighted);
             remaining1 = remaining_branches excluded1 (ws_branches weighted);
             excluded = (if remaining1 = [] then [selected] else excluded1);
             remaining = (if remaining1 = [] then remaining_branches [selected] (ws_branches weighted) else remaining1) in
         if remaining = [] then
           (Inr None, ext_set COMPOSITE_ROUTING_STATE_KEY
             (serialize_weighted_state (weighted\<lparr>excluded_selectors := excluded\<rparr>)) ctx)
         else
           (case (if length remaining = 1 then Inr 0
                  else select_index_from_weights random_value (map wb_weight remaining)) of
              Inl e \<Rightarrow> (Inl e, ctx)
            | Inr i \<Rightarrow>
                (let next_selector = wb_selector (remaining ! i) in
                 (Inr (Some (next_request next_selector request)),
                  ext_set COMPOSITE_ROUTING_STATE_KEY
                    (serialize_weighted_state (weighted\<lparr>excluded_selectors := excluded,
                       selected_selector := next_selector, ws_hop_count := ws_hop_count weighted + 1\<rparr>)) ctx)))))"

definition build_failover_request ::
  "ChatRequest \<Rightarrow> RequestContext \<Rightarrow> FailoverRuntimeState \<Rightarrow> (exn + ChatRequest option) \<times> RequestContext" where
  "build_failover_request request ctx state =
     (if fs_hop_count state \<ge> fs_max_hops state then
        (Inl (build_budget_exhausted_error (fs_hop_count state) (fs_max_hops state)),
         bridge_publish_exhaustion ctx request ''attempt_budget_exhausted'' (budget_details state))
      else if next_index state \<ge> int (length (fs_branches state)) then
        (Inl (build_failover_exhausted_error state),
         bridge_publish_exhaustion ctx request ''failover_exhausted'' (exhausted_details state))
      else
        (Inr (Some (next_request (fs_branches state ! nat (next_index state)) request)),
         ext_set COMPOSITE_ROUTING_STATE_KEY
           (failover_state_json (state\<lparr>next_index := next_index state + 1, fs_hop_count := fs_hop_count state + 1\<rparr>)) ctx))"

definition build_next_request ::
  "real \<Rightarrow> ChatRequest \<Rightarrow> RequestContext option \<Rightarrow> bool \<Rightarrow> exn option \<Rightarrow>
   (exn + ChatRequest option) \<times> RequestContext option" where
  "build_next_request random_value request context content_begun error =
     (case context of
        None \<Rightarrow> (Inr None, None)
      | Some ctx \<Rightarrow>
          (if content_begun \<or> truthy (ext_get ''meaningful_output_emitted'' ctx) then (Inr None, Some ctx)
           else (case load_weighted_state ctx of
             Some weighted \<Rightarrow> map_prod id Some (build_weighted_retry_request random_value request ctx weighted error)
           | None \<Rightarrow>
               (case load_failover_state ctx of
                  None \<Rightarrow> (Inr None, Some ctx)
                | Some state \<Rightarrow> map_prod id Some (build_failover_request request ctx state)))))"

end
