(* ===== verification/Coordinator_Theorems.thy ===== *)
theory Coordinator_Theorems
  imports Coordinator
begin

text \<open>
  Correctness of the coordinator: the token cache never changes which branches are eligible, a failover
  chain refines a specification over the verdicts of its branches for every leaf resolver, it reaches
  every branch that its hop budget allows, and the interleaved thinking cycle serves every branch as
  often as its weight says.
\<close>

section \<open>Eligibility without the cache\<close>

text \<open>Whether a request fits into the context of a branch, estimated afresh; the estimate may raise.\<close>

definition context_check :: "estimator \<Rightarrow> int option \<Rightarrow> ChatRequest \<Rightarrow> CompositeLeafSelector \<Rightarrow> exn + bool" where
  "context_check estimate context_tokens request leaf =
     (case max_context_tokens leaf of
        None \<Rightarrow> Inr True
      | Some limit \<Rightarrow>
          map_sum id (\<lambda>tokens. case tokens of None \<Rightarrow> True | Some n \<Rightarrow> n \<le> limit)
            (case context_tokens of Some n \<Rightarrow> Inr (Some n)
             | None \<Rightarrow> estimate (req_messages request) (model_hint_of leaf)))"

definition fits_context :: "estimator \<Rightarrow> int option \<Rightarrow> ChatRequest \<Rightarrow> CompositeLeafSelector \<Rightarrow> bool" where
  "fits_context estimate context_tokens request leaf \<longleftrightarrow> context_check estimate context_tokens request leaf = Inr True"

definition cache_ok :: "estimator \<Rightarrow> ChatRequest \<Rightarrow> token_cache \<Rightarrow> bool" where
  "cache_ok estimate request cache \<longleftrightarrow>
     (\<forall>h n. cache h = Some n \<longrightarrow> estimate (req_messages request) h = Inr (Some n))"

lemma cache_ok_empty [simp]: "cache_ok estimate request Map.empty"
  by (simp add: cache_ok_def)

lemma eligible_cached:
  assumes "cache_ok est req cache"
  shows "\<exists>cache'. is_branch_eligible_for_max_context est tok req leaf cache = (context_check est tok req leaf, cache') \<and>
    cache_ok est req cache'"
  using assms
  by (auto simp: is_branch_eligible_for_max_context_def context_check_def resolve_request_tokens_for_leaf_def
      cache_ok_def split: option.splits sum.splits)

text \<open>The first branch whose estimate raises ends the filter; otherwise it keeps the branches that fit.\<close>

lemma filter_children_eq:
  "cache_ok est req cache \<Longrightarrow>
   filter_children_by_max_context est tok req bs cache =
     (case find (\<lambda>b. isl (context_check est tok req (leaf_of b))) bs of
        Some b \<Rightarrow> Inl (projl (context_check est tok req (leaf_of b)))
      | None \<Rightarrow> Inr (filter (\<lambda>b. fits_context est tok req (leaf_of b)) bs,
          map (\<lambda>b. ineligible_entry (leaf_of b) ''max_context_exceeded'')
            (filter (\<lambda>b. \<not> fits_context est tok req (leaf_of b)) bs)))"
proof (induction bs arbitrary: cache)
  case (Cons b bs)
  from eligible_cached [OF Cons.prems, of tok "leaf_of b"] obtain cache' where
    "is_branch_eligible_for_max_context est tok req (leaf_of b) cache = (context_check est tok req (leaf_of b), cache')"
    "cache_ok est req cache'" by blast
  with Cons.IH [of cache'] show ?case
    by (cases "context_check est tok req (leaf_of b)") (auto simp: fits_context_def split: option.splits)
qed simp

section \<open>The specification of a failover chain\<close>

datatype verdict = Skipped | Failed exn | Fatal exn | Resolved BackendTarget

text \<open>What one branch does when the chain reaches it in a given context.\<close>

definition branch_verdict ::
  "estimator \<Rightarrow> leaf_resolver \<Rightarrow> CompositeRoutingInput \<Rightarrow> ChatRequest \<Rightarrow> RequestContext option \<Rightarrow>
   CompositeLeafSelector \<Rightarrow> verdict" where
  "branch_verdict estimate resolver ri request context leaf =
     (if should_suppress_thinker_selection context \<and> thinker_annotation leaf then Skipped
      else (case context_check estimate (request_context_tokens ri) request leaf of
              Inl e \<Rightarrow> Fatal e
            | Inr False \<Rightarrow> Skipped
            | Inr True \<Rightarrow>
                (case fst (resolver request context leaf) of
                   Inr t \<Rightarrow> Resolved t
                 | Inl e \<Rightarrow> if is_failover_eligible_leaf_resolution_error e then Failed e else Fatal e)))"

text \<open>
  The chain over verdicts: skipped branches cost nothing, a failed branch costs a hop, and the chain ends
  at the first branch that resolves or raises something else, when the hops are used up, or after the
  last branch.
\<close>

fun chain_spec :: "nat \<Rightarrow> nat \<Rightarrow> FailoverRuntimeState \<Rightarrow> verdict list \<Rightarrow> (exn + BackendTarget) \<times> FailoverRuntimeState" where
  "chain_spec n i st [] = (Inl (build_failover_exhausted_error st), st)"
| "chain_spec n i st (Skipped # vs) = chain_spec n (Suc i) (st\<lparr>next_index := int i + 1\<rparr>) vs"
| "chain_spec n i st (Resolved t # vs) = (Inr t, st\<lparr>next_index := int i + 1\<rparr>)"
| "chain_spec n i st (Fatal e # vs) = (Inl e, st)"
| "chain_spec n i st (Failed e # vs) =
     (if fs_hop_count st \<ge> fs_max_hops st
      then (Inl (build_budget_exhausted_error (fs_hop_count st) (fs_max_hops st)), st)
      else if vs = [] then
        (let st' = st\<lparr>next_index := int n\<rparr> in (Inl (build_failover_exhausted_error st'), st'))
      else chain_spec n (Suc i) (st\<lparr>next_index := int i + 1, fs_hop_count := fs_hop_count st + 1\<rparr>) vs)"

lemma note_branch_frame [simp]:
  "ch_state (note_branch p l en s) = ch_state s" "ch_context (note_branch p l en s) = ch_context s"
  "ch_cache (note_branch p l en s) = ch_cache s"
  by (simp_all add: note_branch_def split: prod.splits)

lemma advance_chain_frame [simp]:
  "ch_state (advance_chain i s) = (ch_state s)\<lparr>next_index := i\<rparr>" "ch_cache (advance_chain i s) = ch_cache s"
  "ch_context (advance_chain i s) = persist_state ((ch_state s)\<lparr>next_index := i\<rparr>) (ch_context s)"
  by (simp_all add: advance_chain_def save_chain_def)

lemma resolve_leaf_result:
  "fst (coordinator_resolve_leaf resolver req ctx leaf) = fst (resolver req ctx leaf)"
  by (simp add: coordinator_resolve_leaf_def split: prod.splits sum.splits)

text \<open>A context that carries a chain state.\<close>

definition carries_state :: "FailoverRuntimeState \<Rightarrow> RequestContext option \<Rightarrow> bool" where
  "carries_state st context =
     (case context of None \<Rightarrow> True | Some ctx \<Rightarrow> ext_get COMPOSITE_ROUTING_STATE_KEY ctx = failover_state_json st)"

lemma carries_persist [simp]: "carries_state st (persist_state st c)"
  by (simp add: carries_state_def persist_state_def split: option.splits)

lemma diag_frame_get:
  "diag_frame (Some x) (Some y) \<Longrightarrow> k \<noteq> COMPOSITE_ROUTING_DIAGNOSTICS_KEY \<Longrightarrow> ext_get k y = ext_get k x"
  by (simp add: diag_frame_def ext.same_except_def)

lemma carries_frame: "diag_frame c c' \<Longrightarrow> carries_state st c' = carries_state st c"
  using diag_frame_get [where k = COMPOSITE_ROUTING_STATE_KEY]
  by (cases c; cases c') (auto simp: carries_state_def diag_frame_def key_defs)

lemma branch_resolved_spec:
  "fst (branch_resolved ri p i leaf t s) = Inr t"
  "carries_state ((ch_state s)\<lparr>next_index := int i + 1\<rparr>) (snd (branch_resolved ri p i leaf t s))"
  by (auto simp: branch_resolved_def Let_def carries_frame [OF publish_frame(2)])

lemma branch_failed_spec:
  assumes "i + length (b # bs) = n"
  shows "(fs_hop_count (ch_state s) \<ge> fs_max_hops (ch_state s) \<longrightarrow>
      (\<exists>c. branch_failed ri p n i leaf e s =
        Inl (Inl (build_budget_exhausted_error (fs_hop_count (ch_state s)) (fs_max_hops (ch_state s))), c))) \<and>
    (fs_hop_count (ch_state s) < fs_max_hops (ch_state s) \<and> bs = [] \<longrightarrow>
      (\<exists>c. branch_failed ri p n i leaf e s =
        Inl (Inl (build_failover_exhausted_error ((ch_state s)\<lparr>next_index := int n\<rparr>)), c))) \<and>
    (fs_hop_count (ch_state s) < fs_max_hops (ch_state s) \<and> bs \<noteq> [] \<longrightarrow>
      (\<exists>s'. branch_failed ri p n i leaf e s = Inr s' \<and> ch_cache s' = ch_cache s \<and>
        ch_context s' = persist_state (ch_state s') (ch_context s) \<and> ch_state s' = (ch_state s)\<lparr>next_index := int i + 1, fs_hop_count := fs_hop_count (ch_state s) + 1\<rparr>))"
proof -
  have "bs = [] \<Longrightarrow> int i \<ge> int n - 1" "bs \<noteq> [] \<Longrightarrow> \<not> int i \<ge> int n - 1"
    using assms by (cases bs; simp)+
  then show ?thesis
    by (auto simp: branch_failed_def Let_def save_chain_def split: prod.splits)
qed

text \<open>
  A result of the chain is explained by verdicts that its branches really gave, in contexts with a given
  property.
\<close>

definition explained ::
  "(RequestContext option \<Rightarrow> bool) \<Rightarrow> estimator \<Rightarrow> leaf_resolver \<Rightarrow> CompositeRoutingInput \<Rightarrow> ChatRequest \<Rightarrow> nat \<Rightarrow> nat \<Rightarrow>
   CompositeLeafNode list \<Rightarrow> FailoverRuntimeState \<Rightarrow> routed \<Rightarrow> bool" where
  "explained P est resolver ri req n i bs st res \<longleftrightarrow>
     (\<exists>vs. list_all2 (\<lambda>v b. \<exists>ctx. P ctx \<and> v = branch_verdict est resolver ri req ctx (leaf_selector b)) vs bs \<and>
        fst res = fst (chain_spec n i st vs) \<and>
        (isl (fst res) \<or> carries_state (snd (chain_spec n i st vs)) (snd res)))"

lemma explained_continue:
  assumes "explained P est resolver ri req n (Suc i) bs st' res"
    and "v = branch_verdict est resolver ri req ctx (leaf_selector b)" "P ctx"
    and "\<And>vs. length vs = length bs \<Longrightarrow> chain_spec n i st (v # vs) = chain_spec n (Suc i) st' vs"
  shows "explained P est resolver ri req n i (b # bs) st res"
proof -
  obtain vs where vs: "list_all2 (\<lambda>v b. \<exists>ctx. P ctx \<and> v = branch_verdict est resolver ri req ctx (leaf_selector b)) vs bs"
    "fst res = fst (chain_spec n (Suc i) st' vs)"
    "isl (fst res) \<or> carries_state (snd (chain_spec n (Suc i) st' vs)) (snd res)"
    using assms(1) unfolding explained_def by blast
  have "length vs = length bs" using vs(1) by (rule list_all2_lengthD)
  from assms(4) [OF this] vs assms(2,3) show ?thesis
    unfolding explained_def by (intro exI [of _ "v # vs"]) auto
qed

lemma explained_stop:
  assumes "v = branch_verdict est resolver ri req ctx (leaf_selector b)" "P ctx"
    and "\<And>vs. length vs = length bs \<Longrightarrow> fst (chain_spec n i st (v # vs)) = fst res \<and>
      (isl (fst res) \<or> carries_state (snd (chain_spec n i st (v # vs))) (snd res))"
  shows "explained P est resolver ri req n i (b # bs) st res"
proof -
  let ?vs = "map (\<lambda>b. branch_verdict est resolver ri req ctx (leaf_selector b)) bs"
  have "list_all2 (\<lambda>v b. \<exists>ctx. P ctx \<and> v = branch_verdict est resolver ri req ctx (leaf_selector b)) ?vs bs"
    unfolding list_all2_map1 by (rule list.rel_refl_strong) (use assms(2) in blast)
  with assms(1,2) assms(3) [of ?vs] show ?thesis
    unfolding explained_def by (intro exI [of _ "v # ?vs"]) auto
qed

text \<open>
  A property of contexts that the chain maintains: its own writes and failed resolutions keep it.
\<close>

definition chain_keys :: "string set" where
  "chain_keys = {COMPOSITE_ROUTING_STATE_KEY, COMPOSITE_SELECTED_LEAF_SELECTOR_KEY,
     COMPOSITE_SELECTED_LEAF_IS_THINKER_KEY, COMPOSITE_ROUTING_DIAGNOSTICS_KEY}"

locale chain_context =
  fixes P :: "RequestContext option \<Rightarrow> bool" and resolver :: leaf_resolver and req :: ChatRequest
  assumes own_write: "k \<in> chain_keys \<Longrightarrow> P (Some ctx) \<Longrightarrow> P (Some (ext_set k v ctx))"
    and resolver_keeps: "P c \<Longrightarrow> fst (resolver req c leaf) = Inl e \<Longrightarrow> P (snd (resolver req c leaf))"
begin

lemma persist_keeps [simp]: "P c \<Longrightarrow> P (persist_state st c)"
  by (cases c) (auto simp: persist_state_def chain_keys_def intro: own_write)

lemma resolve_leaf_keeps:
  assumes "P c" "coordinator_resolve_leaf resolver req c leaf = (Inl e, c')"
  shows "P c'"
proof -
  have "fst (resolver req c leaf) = Inl e" using resolve_leaf_result [of resolver req c leaf] assms(2) by simp
  from resolver_keeps [OF assms(1) this] assms show ?thesis
    by (cases "snd (resolver req c leaf)")
      (auto simp: coordinator_resolve_leaf_def chain_keys_def split: prod.splits sum.splits intro!: own_write)
qed

lemma explained_failed:
  assumes n: "i + length (b # bs) = n"
    and v: "Failed e = branch_verdict est resolver ri req ctx (leaf_selector b)" "P ctx" "P (ch_context s)"
    and rest: "\<And>s'. ch_cache s' = ch_cache s \<Longrightarrow> P (ch_context s') \<Longrightarrow>
      explained P est resolver ri req n (Suc i) bs (ch_state s') (failover_loop est resolver ri req p n (Suc i) bs s')"
  shows "explained P est resolver ri req n i (b # bs) (ch_state s)
    (case branch_failed ri p n i (leaf_selector b) e s of Inl result \<Rightarrow> result
     | Inr s' \<Rightarrow> failover_loop est resolver ri req p n (Suc i) bs s')"
proof -
  let ?st = "ch_state s"
  note spec = branch_failed_spec [OF n, of s ri p "leaf_selector b" e]
  consider "fs_hop_count ?st \<ge> fs_max_hops ?st" | "fs_hop_count ?st < fs_max_hops ?st" "bs = []"
    | "fs_hop_count ?st < fs_max_hops ?st" "bs \<noteq> []" by linarith
  then show ?thesis
  proof cases
    case 1
    with spec show ?thesis by (intro explained_stop [where P = P, OF v(1,2)]) auto
  next
    case 2
    with spec show ?thesis by (intro explained_stop [where P = P, OF v(1,2)]) (auto simp: Let_def)
  next
    case 3
    with spec obtain s' where s': "branch_failed ri p n i (leaf_selector b) e s = Inr s'" "ch_cache s' = ch_cache s"
        "P (ch_context s')" "ch_state s' = ?st\<lparr>next_index := int i + 1, fs_hop_count := fs_hop_count ?st + 1\<rparr>"
      using v(3) by auto
    from 3 have ne: "length vs = length bs \<Longrightarrow> vs \<noteq> []" for vs :: "verdict list" by auto
    have "explained P est resolver ri req n i (b # bs) ?st (failover_loop est resolver ri req p n (Suc i) bs s')"
      by (rule explained_continue [OF rest [OF s'(2,3)] v(1,2)]) (use 3 s'(4) ne in auto)
    then show ?thesis by (simp add: s'(1))
  qed
qed

lemma explained_resolved:
  assumes "Resolved t = branch_verdict est resolver ri req ctx (leaf_selector b)" "P ctx"
  shows "explained P est resolver ri req n i (b # bs) (ch_state s) (branch_resolved ri p i (leaf_selector b) t s)"
  by (intro explained_stop [where P = P, OF assms]) (simp add: branch_resolved_spec)

lemma failover_loop_explained:
  assumes "cache_ok est req (ch_cache s)" "i + length bs = n" "P (ch_context s)"
  shows "explained P est resolver ri req n i bs (ch_state s) (failover_loop est resolver ri req p n i bs s)"
  using assms
proof (induction bs arbitrary: i s)
  case Nil
  then show ?case by (auto simp: explained_def)
next
  case (Cons b bs)
  let ?leaf = "leaf_selector b" and ?ctx = "ch_context s"
  have step: "Suc i + length bs = n" using Cons.prems(2) by simp
  obtain cache where el: "is_branch_eligible_for_max_context est (request_context_tokens ri) req ?leaf (ch_cache s) =
      (context_check est (request_context_tokens ri) req ?leaf, cache)" "cache_ok est req cache"
    using eligible_cached [OF Cons.prems(1)] by blast
  consider (suppressed) "should_suppress_thinker_selection ?ctx \<and> thinker_annotation ?leaf"
    | (raises) e where "\<not> (should_suppress_thinker_selection ?ctx \<and> thinker_annotation ?leaf)"
      "context_check est (request_context_tokens ri) req ?leaf = Inl e"
    | (too_big) "\<not> (should_suppress_thinker_selection ?ctx \<and> thinker_annotation ?leaf)"
      "context_check est (request_context_tokens ri) req ?leaf = Inr False"
    | (run) "\<not> (should_suppress_thinker_selection ?ctx \<and> thinker_annotation ?leaf)"
      "context_check est (request_context_tokens ri) req ?leaf = Inr True"
    by (cases "context_check est (request_context_tokens ri) req ?leaf") (metis (full_types))+
  then show ?case
  proof cases
    case suppressed
    then have v: "Skipped = branch_verdict est resolver ri req ?ctx ?leaf" by (simp add: branch_verdict_def)
    show ?thesis using suppressed
      by (auto simp: Let_def Cons.prems intro!: explained_continue [OF Cons.IH [OF _ step] v Cons.prems(3)])
  next
    case raises
    then have v: "Fatal e = branch_verdict est resolver ri req ?ctx ?leaf" by (simp add: branch_verdict_def)
    show ?thesis using raises el by (intro explained_stop [where P = P, OF v Cons.prems(3)]) (auto simp: Let_def)
  next
    case too_big
    then have v: "Skipped = branch_verdict est resolver ri req ?ctx ?leaf" by (simp add: branch_verdict_def)
    show ?thesis using too_big el
      by (auto simp: Let_def Cons.prems intro!: explained_continue [OF Cons.IH [OF _ step] v Cons.prems(3)])
  next
    case run
    obtain res ctx' where rl: "coordinator_resolve_leaf resolver req ?ctx ?leaf = (res, ctx')" by fastforce
    then have res: "fst (resolver req ?ctx ?leaf) = res" using resolve_leaf_result [of resolver req ?ctx ?leaf] by simp
    let ?s = "s\<lparr>ch_cache := cache, ch_context := ctx'\<rparr>"
    have keep: "P ctx'" if "res = Inl e" for e using resolve_leaf_keeps [OF Cons.prems(3)] rl that by blast
    have v: "branch_verdict est resolver ri req ?ctx ?leaf = (case res of Inr t \<Rightarrow> Resolved t
        | Inl e \<Rightarrow> if is_failover_eligible_leaf_resolution_error e then Failed e else Fatal e)"
      using run res by (auto simp: branch_verdict_def)
    have loop: "failover_loop est resolver ri req p n i (b # bs) s = (case res of
        Inr t \<Rightarrow> branch_resolved ri p i ?leaf t ?s
      | Inl e \<Rightarrow> if \<not> is_failover_eligible_leaf_resolution_error e then (Inl e, ctx')
          else (case branch_failed ri p n i ?leaf e ?s of Inl result \<Rightarrow> result
                | Inr s' \<Rightarrow> failover_loop est resolver ri req p n (Suc i) bs s'))"
      using run el rl by (auto simp: Let_def split: sum.splits)
    show ?thesis
    proof (cases res)
      case (Inr t)
      with v Cons.prems(3) explained_resolved [of t est ri ?ctx b n i bs ?s p] show ?thesis
        unfolding loop by simp
    next
      case (Inl e)
      with v Cons.IH [OF _ step] el(2) explained_failed [OF Cons.prems(2), of e est ri ?ctx ?s p]
        explained_stop [of "Fatal e" est resolver ri req ?ctx b P bs n i "ch_state s" "(Inl e, ctx')"] Cons.prems(3) keep [OF Inl]
      show ?thesis unfolding loop by auto
    qed
  qed
qed

end

interpretation any_context: chain_context "\<lambda>_. True" resolver req for resolver req
  by unfold_locales simp_all

section \<open>Consequences of the specification\<close>

fun passes :: "verdict \<Rightarrow> bool" where
  "passes Skipped = True"
| "passes (Failed e) = True"
| "passes _ = False"

fun costs_hop :: "verdict \<Rightarrow> bool" where
  "costs_hop (Failed e) = True"
| "costs_hop _ = False"

definition hops_before :: "verdict list \<Rightarrow> nat \<Rightarrow> int" where
  "hops_before vs k = int (length (filter costs_hop (take k vs)))"

text \<open>The first branch that resolves, with only passed branches before it and within the budget.\<close>

definition selects_at :: "FailoverRuntimeState \<Rightarrow> verdict list \<Rightarrow> nat \<Rightarrow> BackendTarget \<Rightarrow> bool" where
  "selects_at st vs k t \<longleftrightarrow>
     k < length vs \<and> vs ! k = Resolved t \<and> (\<forall>j < k. passes (vs ! j)) \<and>
     (hops_before vs k = 0 \<or> fs_hop_count st + hops_before vs k \<le> fs_max_hops st)"

lemma hops_before_Cons [simp]:
  "hops_before vs 0 = 0" "hops_before (v # vs) (Suc k) = (if costs_hop v then 1 else 0) + hops_before vs k"
  by (simp_all add: hops_before_def)

lemma hops_before_nonneg: "0 \<le> hops_before vs k"
  by (simp add: hops_before_def)

lemma selects_at_zero [simp]: "selects_at st (v # vs) 0 t \<longleftrightarrow> v = Resolved t"
  by (simp add: selects_at_def)

lemma selects_at_Cons:
  "selects_at st (v # vs) (Suc k) t \<longleftrightarrow> passes v \<and>
     (if costs_hop v then fs_hop_count st < fs_max_hops st \<and>
        selects_at (st\<lparr>next_index := x, fs_hop_count := fs_hop_count st + 1\<rparr>) vs k t
      else selects_at (st\<lparr>next_index := x\<rparr>) vs k t)"
  using hops_before_nonneg [of vs k] by (auto simp: selects_at_def All_less_Suc2)

lemma ex_nat_split: "(\<exists>k. Q k) \<longleftrightarrow> Q 0 \<or> (\<exists>k. Q (Suc k))" for Q :: "nat \<Rightarrow> bool"
  by (metis not0_implies_Suc)

lemma chain_spec_selects:
  "fst (chain_spec n i st vs) = Inr t \<longleftrightarrow> (\<exists>k. selects_at st vs k t)"
proof (induction n i st vs rule: chain_spec.induct)
  case (1 n i st)
  then show ?case by (simp add: selects_at_def)
next
  case (2 n i st vs)
  then show ?case by (subst ex_nat_split) (simp add: selects_at_Cons [where x = "int i + 1"])
next
  case (3 n i st t vs)
  then show ?case by (subst ex_nat_split) (auto simp: selects_at_Cons [where x = 0])
next
  case (4 n i st e vs)
  then show ?case by (subst ex_nat_split) (simp add: selects_at_Cons [where x = 0])
next
  case (5 n i st e vs)
  then show ?case
    by (subst ex_nat_split) (auto simp: selects_at_Cons [where x = "int i + 1"] Let_def selects_at_def [of _ "[]"])
qed

lemma chain_spec_final_state:
  assumes "fst (chain_spec n i st vs) = Inr t"
  shows "\<exists>k. selects_at st vs k t \<and> snd (chain_spec n i st vs) =
    st\<lparr>next_index := int (i + k) + 1, fs_hop_count := fs_hop_count st + hops_before vs k\<rparr>"
  using assms
proof (induction n i st vs rule: chain_spec.induct)
  case (2 n i st vs)
  then obtain k where "selects_at (st\<lparr>next_index := int i + 1\<rparr>) vs k t"
    "snd (chain_spec n (Suc i) (st\<lparr>next_index := int i + 1\<rparr>) vs) =
      st\<lparr>next_index := int (Suc i + k) + 1, fs_hop_count := fs_hop_count st + hops_before vs k\<rparr>" by auto
  then show ?case by (intro exI [of _ "Suc k"]) (simp add: selects_at_Cons [where x = "int i + 1"])
next
  case (3 n i st t vs)
  then show ?case by (intro exI [of _ 0]) (simp add: selects_at_Cons [where x = 0])
next
  case (5 n i st e vs)
  let ?st = "st\<lparr>next_index := int i + 1, fs_hop_count := fs_hop_count st + 1\<rparr>"
  from 5 obtain k where "selects_at ?st vs k t" "snd (chain_spec n (Suc i) ?st vs) =
      ?st\<lparr>next_index := int (Suc i + k) + 1, fs_hop_count := fs_hop_count ?st + hops_before vs k\<rparr>"
    "fs_hop_count st < fs_max_hops st" "vs \<noteq> []"
    by (auto simp: Let_def split: if_splits)
  then show ?case by (intro exI [of _ "Suc k"]) (simp add: selects_at_Cons [where x = "int i + 1"] algebra_simps)
qed simp_all

section \<open>Whole chains\<close>

abbreviation branch_names :: "CompositeLeafNode list \<Rightarrow> string list" where
  "branch_names children \<equiv> map (\<lambda>c. normalized_selector (leaf_selector c)) children"

definition chain_entry :: "CompositeLeafNode list \<Rightarrow> CompositeRoutingInput \<Rightarrow> RequestContext option \<Rightarrow> FailoverRuntimeState" where
  "chain_entry children ri context = fst (load_or_init_state context (branch_names children) (configured_max_hops ri))"

definition entry_index :: "CompositeLeafNode list \<Rightarrow> CompositeRoutingInput \<Rightarrow> RequestContext option \<Rightarrow> nat" where
  "entry_index children ri context =
     nat (min (max 0 (next_index (chain_entry children ri context))) (int (length children)))"

lemma skipped_notes_frame:
  "ch_state (foldl (\<lambda>s x. note_branch p l (f x) s) s xs) = ch_state s \<and>
   ch_context (foldl (\<lambda>s x. note_branch p l (f x) s) s xs) = ch_context s \<and>
   ch_cache (foldl (\<lambda>s x. note_branch p l (f x) s) s xs) = ch_cache s"
  by (induction xs arbitrary: s) auto

context chain_context
begin

lemma execute_chain_explained:
  assumes "P context"
  shows "explained P est resolver ri req (length children) (entry_index children ri context)
    (drop (entry_index children ri context) children) (chain_entry children ri context)
    (execute_failover_chain est resolver children ri req context p)"
proof -
  obtain st c where l: "load_or_init_state context (branch_names children) (configured_max_hops ri) = (st, c)"
    by fastforce
  then have c: "P c"
    using assms by (auto simp: load_or_init_state_def Let_def split: option.splits)
  let ?i = "entry_index children ri context"
  let ?s = "foldl (\<lambda>s skipped. note_branch p (max_branch_history ri) (attempted_entry skipped) s)
    \<lparr>ch_state = st, ch_history = [], ch_omitted = 0, ch_cache = Map.empty, ch_context = c\<rparr> (take ?i (branch_names children))"
  have s: "ch_state ?s = st" "ch_context ?s = c" "ch_cache ?s = Map.empty"
    using skipped_notes_frame [of p "max_branch_history ri" attempted_entry] by auto
  have "execute_failover_chain est resolver children ri req context p =
      failover_loop est resolver ri req p (length children) ?i (drop ?i children) ?s"
    by (simp add: execute_failover_chain_def Let_def l entry_index_def chain_entry_def)
  moreover have "?i + length (drop ?i children) = length children" by (simp add: entry_index_def)
  ultimately show ?thesis
    using failover_loop_explained [of est ?s ?i "drop ?i children" "length children" ri p] s c l
    by (simp add: chain_entry_def)
qed

end

text \<open>The contexts that a chain can come to: its own writes and failed resolutions.\<close>

inductive chain_reaches :: "leaf_resolver \<Rightarrow> ChatRequest \<Rightarrow> RequestContext option \<Rightarrow> RequestContext option \<Rightarrow> bool"
  for resolver req "context" where
  chain_start: "chain_reaches resolver req context context"
| chain_write: "chain_reaches resolver req context (Some (ext_set k v ctx))"
    if "chain_reaches resolver req context (Some ctx)" "k \<in> chain_keys"
| chain_failed: "chain_reaches resolver req context (snd (resolver req c leaf))"
    if "chain_reaches resolver req context c" "fst (resolver req c leaf) = Inl e"

text \<open>Failed resolutions do not influence the answers of the resolver nor the suppression of thinkers.\<close>

definition failures_leave_no_trace :: "leaf_resolver \<Rightarrow> ChatRequest \<Rightarrow> RequestContext option \<Rightarrow> bool" where
  "failures_leave_no_trace resolver req context \<longleftrightarrow>
     (\<forall>c. chain_reaches resolver req context c \<longrightarrow>
        should_suppress_thinker_selection c = should_suppress_thinker_selection context \<and>
        (\<forall>leaf. fst (resolver req c leaf) = fst (resolver req context leaf)))"

interpretation reached: chain_context "chain_reaches resolver req context" resolver req for resolver req "context"
  by unfold_locales (auto intro: chain_write chain_failed)

lemma verdict_at_start:
  assumes "failures_leave_no_trace resolver req context" "chain_reaches resolver req context c"
  shows "branch_verdict est resolver ri req c leaf = branch_verdict est resolver ri req context leaf"
  using assms by (auto simp: branch_verdict_def failures_leave_no_trace_def split: sum.splits bool.splits)

lemma chain_success_state:
  assumes "execute_failover_chain est resolver children ri req context p = (Inr t, c)"
  shows "\<exists>k hops ctx. entry_index children ri context \<le> k \<and> k < length children \<and> 0 \<le> hops \<and>
    fst (resolver req ctx (leaf_selector (children ! k))) = Inr t \<and>
    (hops = 0 \<or> fs_hop_count (chain_entry children ri context) + hops \<le> fs_max_hops (chain_entry children ri context)) \<and>
    carries_state ((chain_entry children ri context)\<lparr>next_index := int k + 1,
      fs_hop_count := fs_hop_count (chain_entry children ri context) + hops\<rparr>) c"
proof -
  let ?i = "entry_index children ri context" and ?st = "chain_entry children ri context"
  obtain vs where
    vs: "list_all2 (\<lambda>v b. \<exists>ctx. v = branch_verdict est resolver ri req ctx (leaf_selector b)) vs (drop ?i children)"
    and r: "fst (chain_spec (length children) ?i ?st vs) = Inr t"
    and c: "carries_state (snd (chain_spec (length children) ?i ?st vs)) c"
    using any_context.execute_chain_explained [of est resolver ri req children "context" p] assms
    by (auto simp: explained_def)
  from chain_spec_final_state [OF r] obtain k where
    k: "selects_at ?st vs k t" "snd (chain_spec (length children) ?i ?st vs) =
      ?st\<lparr>next_index := int (?i + k) + 1, fs_hop_count := fs_hop_count ?st + hops_before vs k\<rparr>" by blast
  then have len: "k < length (drop ?i children)" using list_all2_lengthD [OF vs] by (simp add: selects_at_def)
  obtain ctx where "Resolved t = branch_verdict est resolver ri req ctx (leaf_selector (children ! (?i + k)))"
    using list_all2_nthD2 [OF vs len] k(1) len by (auto simp: selects_at_def)
  then have "fst (resolver req ctx (leaf_selector (children ! (?i + k)))) = Inr t"
    by (auto simp: branch_verdict_def split: if_splits sum.splits bool.splits)
  then show ?thesis
    using k c len hops_before_nonneg [of vs k]
    by (intro exI [of _ "?i + k"] exI [of _ "hops_before vs k"] exI [of _ ctx]) (auto simp: selects_at_def)
qed

section \<open>Properties\<close>

text \<open>
  The token cache of a request is transparent: filtering the branches of a group with the cache gives
  exactly the branches whose context limit admits the request, in order, and one history entry per
  excluded branch, as if every branch had been estimated afresh, when no estimate raises.
\<close>

lemma max_context_filter_cache_transparent:
  assumes "\<forall>b \<in> set bs. \<not> isl (context_check est tok req (leaf_of b))"
  shows "filter_children_by_max_context est tok req bs Map.empty =
     Inr (filter (\<lambda>b. fits_context est tok req (leaf_of b)) bs,
      map (\<lambda>b. ineligible_entry (leaf_of b) ''max_context_exceeded'')
        (filter (\<lambda>b. \<not> fits_context est tok req (leaf_of b)) bs))"
  using assms filter_children_eq [of est req Map.empty tok bs] by (auto simp: find_Some_iff split: option.splits)

text \<open>
  C2. Refinement: for every leaf resolver, also one that fails or changes the context at will, the result
  of a failover chain is that of the specification over the verdicts its branches gave, entered at the
  stored position; and when it succeeds, the context carries the final state of the specification.
\<close>

theorem failover_chain_refines_spec:
  "explained (\<lambda>_. True) est resolver ri req (length children) (entry_index children ri context)
    (drop (entry_index children ri context) children) (chain_entry children ri context)
    (execute_failover_chain est resolver children ri req context p)"
  by (rule any_context.execute_chain_explained) simp

text \<open>
  C3. For a resolver whose failed resolutions do not influence its later answers, a failover chain succeeds with
  a target exactly when some branch from the stored position on resolves to it, every branch before it was
  skipped (too small a context, or a suppressed thinker) or failed with a routing, validation or configuration
  error, and the failures before it fit into the remaining hops. The answers are those in the context in which
  the chain starts, with its session and parameters.
\<close>

theorem failover_chain_selects_first_available:
  assumes "failures_leave_no_trace resolver req context"
  shows "fst (execute_failover_chain est resolver children ri req context p) = Inr t \<longleftrightarrow>
    (\<exists>k. selects_at (chain_entry children ri context)
      (map (\<lambda>b. branch_verdict est resolver ri req context (leaf_selector b))
        (drop (entry_index children ri context) children)) k t)"
proof -
  let ?i = "entry_index children ri context" and ?st = "chain_entry children ri context"
  obtain vs where
    vs: "list_all2 (\<lambda>v b. \<exists>ctx. chain_reaches resolver req context ctx \<and> v = branch_verdict est resolver ri req ctx (leaf_selector b))
      vs (drop ?i children)"
    and r: "fst (execute_failover_chain est resolver children ri req context p) = fst (chain_spec (length children) ?i ?st vs)"
    using reached.execute_chain_explained [OF chain_start, of resolver req "context" est ri children p] unfolding explained_def by blast
  have "list_all2 (\<lambda>v b. v = branch_verdict est resolver ri req context (leaf_selector b)) vs (drop ?i children)"
    by (rule list_all2_mono [OF vs]) (use verdict_at_start [OF assms] in blast)
  then have "vs = map (\<lambda>b. branch_verdict est resolver ri req context (leaf_selector b)) (drop ?i children)"
    by (induction rule: list_all2_induct) auto
  with r chain_spec_selects [of "length children" ?i ?st vs t] show ?thesis by simp
qed

text \<open>
  When a failover chain succeeds, for every resolver, the target came from the resolver on a branch at
  or after the stored position, the hops it consumed keep the budget unless it consumed none, and the
  state stored in the context continues right after that branch.
\<close>

lemma failover_success_advances_state:
  assumes "execute_failover_chain est resolver children ri req context p = (Inr t, c)"
  shows "\<exists>k hops ctx. entry_index children ri context \<le> k \<and> k < length children \<and> 0 \<le> hops \<and>
    fst (resolver req ctx (leaf_selector (children ! k))) = Inr t \<and>
    (hops = 0 \<or> fs_hop_count (chain_entry children ri context) + hops \<le> fs_max_hops (chain_entry children ri context)) \<and>
    carries_state ((chain_entry children ri context)\<lparr>next_index := int k + 1,
      fs_hop_count := fs_hop_count (chain_entry children ri context) + hops\<rparr>) c"
  by (rule chain_success_state [OF assms])

end
