(* ===== verification/Thinking_Cycle.thy ===== *)
theory Thinking_Cycle
  imports Coordinator_Theorems
begin

text \<open>
  The interleaved thinking cycle and weighted execution of the coordinator: successive turns walk the
  sequence of branches, so that within one cycle every executor branch is served as often as its weight
  says and the thinker once; weighted execution only ever resolves a branch of the group that fits the
  context; and a thinker that should be suppressed is nevertheless chosen in the middle of a cycle.
\<close>

section \<open>Successive turns\<close>

text \<open>Turns of one session: every turn is given the cycle state that the turn before it stored.\<close>

fun cycle_turns ::
  "branch_ref list \<Rightarrow> string \<Rightarrow> bool \<Rightarrow> json option \<Rightarrow> RequestContext \<Rightarrow> nat \<Rightarrow> branch_ref list" where
  "cycle_turns children selector prefer_first cycle_state ctx 0 = []"
| "cycle_turns children selector prefer_first cycle_state ctx (Suc k) =
     (case select_interleaved_thinking_weighted_cycle_leaf children selector cycle_state prefer_first (Some ctx) of
        (Inr b, Some ctx') \<Rightarrow>
          b # cycle_turns children selector prefer_first (Some (ext_get WEIGHTED_CYCLE_STATE_KEY ctx')) ctx' k
      | _ \<Rightarrow> [])"

abbreviation thinking_sequence :: "branch_ref list \<Rightarrow> branch_ref list" where
  "thinking_sequence \<equiv> build_interleaved_thinking_sequence"

lemma first_index_bound: "first_annotation_sequence_index bs = Some i \<Longrightarrow> i < length bs"
  by (induction bs arbitrary: i) (auto split: if_splits)

lemma cycle_start_bound: "sq \<noteq> [] \<Longrightarrow> cycle_start sq selector cs pf < length sq"
  using first_index_bound [of sq]
  by (auto simp: cycle_start_def first_or_zero_def Let_def nat_less_iff split: option.splits json.splits)

lemma cycle_start_stored:
  "sq \<noteq> [] \<Longrightarrow> i < length sq \<Longrightarrow> cycle_start sq selector (Some (cycle_state_dict sq selector i)) pf = i"
  by (simp add: cycle_start_def cycle_state_dict_def dict_get_def)

lemma cycle_turns_walk:
  assumes "thinking_sequence children \<noteq> []"
  shows "cycle_turns children selector pf cs ctx k =
    map (\<lambda>j. thinking_sequence children !
      ((cycle_start (thinking_sequence children) selector cs pf + j) mod length (thinking_sequence children))) [0..<k]"
proof (induction k arbitrary: cs ctx)
  case (Suc k)
  let ?sq = "thinking_sequence children"
  let ?i = "cycle_start ?sq selector cs pf"
  let ?c = "ext_set WEIGHTED_CYCLE_STATE_KEY (cycle_state_dict ?sq selector (Suc ?i mod length ?sq)) ctx"
  have turn: "select_interleaved_thinking_weighted_cycle_leaf children selector cs pf (Some ctx) = (Inr (?sq ! ?i), Some ?c)"
    using assms by (simp add: select_interleaved_thinking_weighted_cycle_leaf_def Let_def)
  have next_start: "cycle_start ?sq selector (Some (cycle_state_dict ?sq selector (Suc ?i mod length ?sq))) pf = Suc ?i mod length ?sq"
    using assms by (intro cycle_start_stored) auto
  have "cycle_turns children selector pf cs ctx (Suc k) =
      ?sq ! ?i # map (\<lambda>j. ?sq ! ((Suc ?i mod length ?sq + j) mod length ?sq)) [0..<k]"
    using turn next_start by (simp add: Suc.IH)
  also have "\<dots> = map (\<lambda>j. ?sq ! ((?i + j) mod length ?sq)) [0..<Suc k]"
    using cycle_start_bound [OF assms, of selector cs pf]
    by (simp add: upt_conv_Cons map_Suc_upt [symmetric] o_def mod_add_left_eq del: upt_Suc)
  finally show ?case .
qed simp

lemma walk_rotate:
  "xs \<noteq> [] \<Longrightarrow> map (\<lambda>j. xs ! ((i + j) mod length xs)) [0..<length xs] = rotate i xs"
  by (rule nth_equalityI) (simp_all add: nth_rotate)

lemma count_list_rotate [simp]: "count_list (rotate i xs) x = count_list xs x"
proof -
  have "count_list (drop k xs @ take k xs) x = count_list xs x" for k
    by (metis add.commute append_take_drop_id count_list_append)
  then show ?thesis by (simp add: rotate_drop_take)
qed

lemma count_list_concat: "count_list (concat xss) x = sum_list (map (\<lambda>xs. count_list xs x) xss)"
  by (induction xss) auto

lemma count_list_replicate: "count_list (replicate n y) x = (if x = y then n else 0)"
  by (induction n) auto

lemma sum_list_single:
  "distinct xs \<Longrightarrow> sum_list (map (\<lambda>y. if x = y then f y else (0::nat)) xs) = (if x \<in> set xs then f x else 0)"
  by (induction xs) auto

lemma count_list_distinct: "distinct xs \<Longrightarrow> count_list xs x = (if x \<in> set xs then 1 else 0)"
  by (induction xs) auto

lemma sequence_count:
  assumes "distinct children" "b \<in> set children"
  shows "count_list (thinking_sequence children) b =
    (if thinker_annotation (leaf_of b) then 1 else nat (resolved_weight (snd b)))"
proof -
  have "sum_list (map (\<lambda>c. count_list (if thinker_annotation (leaf_of c) then []
        else replicate (nat (resolved_weight (snd c))) c) b) children) =
      sum_list (map (\<lambda>c. if b = c then (if thinker_annotation (leaf_of c) then 0 else nat (resolved_weight (snd c))) else 0) children)"
    by (rule arg_cong [of _ _ sum_list], rule map_cong) (auto simp: count_list_replicate)
  then show ?thesis
    using assms
    by (simp add: build_interleaved_thinking_sequence_def count_list_concat sum_list_single o_def
        count_list_distinct)
qed

lemma sequence_nonempty:
  assumes "children \<noteq> []" "\<forall>b \<in> set children. 0 < resolved_weight (snd b)"
  shows "thinking_sequence children \<noteq> []"
  using assms by (cases children) (auto simp: build_interleaved_thinking_sequence_def)

section \<open>Weighted execution\<close>

lemma cycle_leaf_member:
  assumes "select_interleaved_thinking_weighted_cycle_leaf children selector cs pf c = (Inr b, c')"
  shows "b \<in> set children"
proof -
  let ?sq = "thinking_sequence children"
  have "?sq \<noteq> []" and b: "b = ?sq ! cycle_start ?sq selector cs pf"
    using assms by (auto simp: select_interleaved_thinking_weighted_cycle_leaf_def Let_def split: if_splits)
  then have "b \<in> set ?sq" using cycle_start_bound [of ?sq selector cs pf] by (simp add: b)
  then show ?thesis by (auto simp: build_interleaved_thinking_sequence_def split: if_splits)
qed

lemma after_suppression_subset: "set (after_suppression children eligible c) \<subseteq> set eligible"
  by (auto simp: after_suppression_def filter_thinker_children_if_needed_def split: if_splits)

text \<open>A group whose weights are positive and that has at most one first branch, as the parser builds it.\<close>

definition group_ok :: "CompositeLeafNode list \<Rightarrow> bool" where
  "group_ok nodes \<longleftrightarrow> (\<forall>n \<in> set nodes. 0 < resolved_weight n) \<and>
     length (filter (\<lambda>n. first_annotation (leaf_selector n)) nodes) \<le> 1"

lemma group_ok_filter:
  assumes "group_ok nodes"
  shows "group_ok (filter Q nodes)"
proof -
  have "length (filter (\<lambda>n. first_annotation (leaf_selector n)) (filter Q nodes)) \<le>
      length (filter (\<lambda>n. first_annotation (leaf_selector n)) nodes)"
    using length_filter_le [of Q "filter (\<lambda>n. first_annotation (leaf_selector n)) nodes"]
    by (simp add: conj_commute)
  with assms show ?thesis unfolding group_ok_def by auto
qed

lemma map_snd_filter_enumerate: "map snd (filter (\<lambda>b. R (snd b)) (enumerate n xs)) = filter R xs"
  by (induction xs arbitrary: n) auto

lemma select_position_group:
  assumes "group_ok nodes" "nodes \<noteq> []"
  shows "\<exists>i < length nodes. select_position r pf nodes = Inr i"
  using assms by (intro select_position_range) (auto simp: group_ok_def positive_weights_def list_all_iff)

text \<open>The eligible branches of a group are those that fit, in order, or none at all.\<close>

abbreviation fitting :: "estimator \<Rightarrow> CompositeRoutingInput \<Rightarrow> ChatRequest \<Rightarrow> CompositeLeafNode list \<Rightarrow> branch_ref list" where
  "fitting est ri req nodes \<equiv>
     filter (\<lambda>b. fits_context est (request_context_tokens ri) req (leaf_of b)) (enumerate 0 nodes)"

lemma after_suppression_cases:
  "after_suppression children eligible c = [] \<or> after_suppression children eligible c = eligible \<or>
   after_suppression children eligible c = filter (\<lambda>b. \<not> thinker_annotation (leaf_of b)) eligible"
  by (simp add: after_suppression_def filter_thinker_children_if_needed_def)

lemma eligible_group_ok:
  assumes "group_ok nodes"
  shows "group_ok (map snd (after_suppression children (fitting est ri req nodes) c))"
proof -
  have f: "map snd (fitting est ri req nodes) =
      filter (\<lambda>n. fits_context est (request_context_tokens ri) req (leaf_selector n)) nodes"
    by (rule map_snd_filter_enumerate)
  have g: "map snd (filter (\<lambda>b. \<not> thinker_annotation (leaf_of b)) (fitting est ri req nodes)) =
      filter (\<lambda>n. fits_context est (request_context_tokens ri) req (leaf_selector n) \<and> \<not> thinker_annotation (leaf_selector n)) nodes"
    using map_snd_filter_enumerate [of "\<lambda>n. fits_context est (request_context_tokens ri) req (leaf_selector n) \<and>
      \<not> thinker_annotation (leaf_selector n)"] by (simp add: conj_commute)
  from after_suppression_cases [of children "fitting est ri req nodes" c] show ?thesis
    using assms by (elim disjE) (simp_all only: f g group_ok_filter list.map, simp add: group_ok_def)
qed

lemma select_weighted_branch_total:
  assumes "group_ok (map snd eligible)" "eligible \<noteq> []"
  shows "\<exists>b c'. select_weighted_branch r plan ri children eligible c = (Inr b, c') \<and> b \<in> set eligible"
proof (cases "has_thinker_branch children")
  case True
  have "thinking_sequence eligible \<noteq> []"
    using assms by (intro sequence_nonempty) (auto simp: group_ok_def)
  then obtain b c' where "select_weighted_branch r plan ri children eligible c = (Inr b, c')"
    using True by (simp add: select_weighted_branch_def select_interleaved_thinking_weighted_cycle_leaf_def Let_def)
  then show ?thesis using True cycle_leaf_member by (auto simp: select_weighted_branch_def)
next
  case False
  obtain i where "i < length eligible" "select_position r (prefer_first_weighted_branch ri) (map snd eligible) = Inr i"
    using select_position_group [of "map snd eligible" r "prefer_first_weighted_branch ri"] assms by auto
  then have "select_weighted_branch r plan ri children eligible c =
      (Inr (if length eligible = 1 then eligible ! 0 else eligible ! i), c)" "eligible ! i \<in> set eligible"
    using False by (simp_all add: select_weighted_branch_def)
  with assms(2) show ?thesis by (auto intro: nth_mem)
qed

abbreviation eligible_of ::
  "estimator \<Rightarrow> CompositeRoutingInput \<Rightarrow> ChatRequest \<Rightarrow> CompositeLeafNode list \<Rightarrow> RequestContext option \<Rightarrow> branch_ref list" where
  "eligible_of est ri req nodes c \<equiv> after_suppression (enumerate 0 nodes) (fitting est ri req nodes) c"

text \<open>The estimate for some branch of a list raises an exception that the coordinator does not catch.\<close>

definition estimate_raised :: "estimator \<Rightarrow> CompositeRoutingInput \<Rightarrow> ChatRequest \<Rightarrow> CompositeLeafSelector list \<Rightarrow> exn \<Rightarrow> bool" where
  "estimate_raised est ri req leaves e \<longleftrightarrow> (\<exists>leaf \<in> set leaves. context_check est (request_context_tokens ri) req leaf = Inl e)"

lemma execute_weighted_unfold:
  assumes "group_ok nodes"
  shows "(\<exists>e. estimate_raised est ri req (map leaf_selector nodes) e \<and>
      execute_weighted est resolver r plan nodes ri req context p = (Inl e, context)) \<or>
    (\<exists>m reason c. reason \<in> {''max_context_exhausted'', ''interleaved_thinking_suppressed''} \<and>
      execute_weighted est resolver r plan nodes ri req context p = (Inl (availability_error m reason), c)) \<or>
    (\<exists>b ctx. b \<in> set (fitting est ri req nodes) \<and>
      fst (execute_weighted est resolver r plan nodes ri req context p) = fst (resolver req ctx (leaf_of b)) \<and>
      (isl (fst (resolver req ctx (leaf_of b))) \<or>
       (\<exists>c. diag_frame (persist_weighted_retry_state (eligible_of est ri req nodes context) b (configured_max_hops ri) c)
         (snd (execute_weighted est resolver r plan nodes ri req context p)))))"
proof (cases "find (\<lambda>b. isl (context_check est (request_context_tokens ri) req (leaf_of b))) (enumerate 0 nodes)")
  case (Some b)
  then have "b \<in> set (enumerate 0 nodes)" and l: "isl (context_check est (request_context_tokens ri) req (leaf_of b))"
    by (auto simp: find_Some_iff)
  then have "leaf_of b \<in> set (map leaf_selector nodes)" by (auto simp: in_set_enumerate_eq) (metis imageI nth_mem)
  moreover obtain e where "context_check est (request_context_tokens ri) req (leaf_of b) = Inl e" using l by (auto simp: isl_def)
  ultimately show ?thesis
    using Some filter_children_eq [OF cache_ok_empty, where est = est and req = req and tok = "request_context_tokens ri" and bs = "enumerate 0 nodes"]
    by (intro disjI1 exI [of _ e]) (auto simp: execute_weighted_def estimate_raised_def)
next
  case None
  have fc: "filter_children_by_max_context est (request_context_tokens ri) req (enumerate 0 nodes) Map.empty =
      Inr (fitting est ri req nodes, map (\<lambda>b. ineligible_entry (leaf_of b) ''max_context_exceeded'')
        (filter (\<lambda>b. \<not> fits_context est (request_context_tokens ri) req (leaf_of b)) (enumerate 0 nodes)))"
    using None filter_children_eq [OF cache_ok_empty, where est = est and req = req and tok = "request_context_tokens ri" and bs = "enumerate 0 nodes"] by simp
  show ?thesis
  proof (cases "fitting est ri req nodes = [] \<or> eligible_of est ri req nodes context = []")
    case True
    then show ?thesis unfolding execute_weighted_def Let_def fc by auto
  next
    case False
    then obtain b c1 where b: "select_weighted_branch r plan ri (enumerate 0 nodes) (eligible_of est ri req nodes context) context = (Inr b, c1)"
        "b \<in> set (eligible_of est ri req nodes context)"
      using select_weighted_branch_total [OF eligible_group_ok [OF assms]] by blast
    have sub: "b \<in> set (fitting est ri req nodes)"
      using b(2) after_suppression_subset by blast
    obtain res c2 where rl: "coordinator_resolve_leaf resolver req c1 (leaf_of b) = (res, c2)" by fastforce
    have "res = fst (resolver req c1 (leaf_of b))"
      using resolve_leaf_result [of resolver req c1 "leaf_of b"] rl by simp
    with False b(1) sub rl show ?thesis
      unfolding execute_weighted_def Let_def fc
      by (intro disjI2 exI [of _ b] exI [of _ c1]) (auto split: sum.splits intro: exI [of _ c2])
  qed
qed

lemma weighted_outcomes:
  assumes "group_ok nodes"
  shows "(\<exists>e. estimate_raised est ri req (map leaf_selector nodes) e \<and>
      execute_weighted est resolver r plan nodes ri req context p = (Inl e, context)) \<or>
    (\<exists>m reason c. reason \<in> {''max_context_exhausted'', ''interleaved_thinking_suppressed''} \<and>
      execute_weighted est resolver r plan nodes ri req context p = (Inl (availability_error m reason), c)) \<or>
    (\<exists>b ctx. b \<in> set (enumerate 0 nodes) \<and> fits_context est (request_context_tokens ri) req (leaf_of b) \<and>
      fst (execute_weighted est resolver r plan nodes ri req context p) = fst (resolver req ctx (leaf_of b)))"
  using execute_weighted_unfold [OF assms, of est ri req resolver r plan "context" p]
  unfolding set_filter mem_Collect_eq by meson

section \<open>Properties\<close>

text \<open>
  C32. Interleaved thinking is fair on turns on which thinkers are not suppressed: whatever state a cycle starts
  in, during as many successive turns as the cycle is long every executor branch is selected as often as its
  weight says and every thinker branch exactly once; and a cycle that starts fresh serves all executors before
  the thinker.
\<close>

theorem thinking_cycle_fair:
  assumes "distinct children" "\<forall>b \<in> set children. 0 < resolved_weight (snd b)" "b \<in> set children"
    and "\<not> should_suppress_thinker_selection (Some ctx)"
  shows "count_list (cycle_turns children selector pf cs ctx (length (thinking_sequence children))) b =
      (if thinker_annotation (leaf_of b) then 1 else nat (resolved_weight (snd b))) \<and>
    cycle_turns children selector False None ctx (length (thinking_sequence children)) = thinking_sequence children"
proof -
  have ne: "thinking_sequence children \<noteq> []" using assms(2,3) by (intro sequence_nonempty) auto
  have "cycle_turns children selector pf cs ctx (length (thinking_sequence children)) =
      rotate (cycle_start (thinking_sequence children) selector cs pf) (thinking_sequence children)" for pf cs
    by (simp only: cycle_turns_walk [OF ne] walk_rotate [OF ne])
  then show ?thesis using sequence_count [OF assms(1,3)] by (simp add: cycle_start_def)
qed

text \<open>
  Weighted execution of a group with positive weights and at most one first branch never raises an
  error of its own except that no branch fits the context or that thinking is suppressed, or that the token
  estimate raises: otherwise it asks the resolver for one branch of the group that fits, and its outcome is
  the resolver's.
\<close>

lemmas weighted_execution_outcomes = weighted_outcomes

section \<open>Concrete runs\<close>

definition thinker_leaf :: "bool \<Rightarrow> string \<Rightarrow> CompositeLeafNode" where
  "thinker_leaf thinker m = CompositeLeafNode
     \<lparr>raw_selector = m, normalized_selector = m, weight_annotation = Some 2, first_annotation = False,
      thinker_annotation = thinker, max_context_tokens = None, handicap_seconds = Finite 0,
      ttft_timeout_seconds = Finite 0, leaf_uri_params = [], leaf_backend_type = [],
      leaf_model_name = m, embedded_selector = None\<rparr>"

definition thinker_nodes :: "CompositeLeafNode list" where
  "thinker_nodes = [thinker_leaf True ''t:big'', thinker_leaf False ''e:small'']"

definition thinker_plan :: CompositeRoutePlan where
  "thinker_plan = \<lparr>plan_source_selector = ''s'', plan_normalized_selector = ''s'',
     root_node = WeightedGroupNode thinker_nodes\<rparr>"

definition echo_resolver :: leaf_resolver where
  "echo_resolver req ctx leaf =
     (Inr \<lparr>tgt_backend = [], tgt_model = normalized_selector leaf, tgt_uri_params = []\<rparr>, ctx)"

definition no_estimate :: estimator where
  "no_estimate messages m = Inr None"

definition sample_request :: ChatRequest where
  "sample_request = \<lparr>req_model = ''s'', req_messages = [], req_extra_body = None\<rparr>"

definition cycle_input :: "json option \<Rightarrow> CompositeRoutingInput" where
  "cycle_input cs =
     \<lparr>ri_selector = ''s'', ri_surface = MAIN, require_explicit_backend = False,
      configured_max_hops = None, max_branch_history = 4, ri_default_backend = [],
      prefer_first_weighted_branch = False, request_context_tokens = None, weighted_cycle_state = cs\<rparr>"

definition open_context :: "RequestContext" where
  "open_context = \<lparr>ctx_session_id = None, extensions = []\<rparr>"

definition suppressed_context :: "RequestContext" where
  "suppressed_context = \<lparr>ctx_session_id = None, extensions = [(SUPPRESS_THINKER_SELECTION_KEY, JBool True)]\<rparr>"

theorem thinking_cycle_fair_witness:
  "count_list (cycle_turns (enumerate 0 thinker_nodes) ''s'' False None open_context 3) (1, thinker_leaf False ''e:small'') = 2"
proof -
  have seq: "length (thinking_sequence (enumerate 0 thinker_nodes)) = 3"
    by (simp add: build_interleaved_thinking_sequence_def thinker_nodes_def thinker_leaf_def resolved_weight_def)
  have "distinct (enumerate 0 thinker_nodes)" "(1, thinker_leaf False ''e:small'') \<in> set (enumerate 0 thinker_nodes)"
    "\<forall>b \<in> set (enumerate 0 thinker_nodes). 0 < resolved_weight (snd b)"
    "\<not> should_suppress_thinker_selection (Some open_context)"
    by (simp_all add: thinker_nodes_def thinker_leaf_def resolved_weight_def open_context_def should_suppress_thinker_selection_def
        ext_get_def dict_get_def)
  from thinking_cycle_fair [OF this(1,3,2,4), of "''s''" False None, THEN conjunct1] show ?thesis
    unfolding seq by (simp add: thinker_leaf_def resolved_weight_def)
qed

lemma sample_context_check [simp]: "\<not> isl (context_check no_estimate tok req leaf)"
  by (simp add: context_check_def no_estimate_def isl_map_sum split: option.split)

theorem weighted_execution_outcomes_witness:
  "group_ok thinker_nodes \<and>
   (\<exists>b ctx. b \<in> set (enumerate 0 thinker_nodes) \<and>
     fst (execute_weighted no_estimate echo_resolver (1 / 2) thinker_plan thinker_nodes (cycle_input None) sample_request None False) =
     fst (echo_resolver sample_request ctx (leaf_of b)))"
proof -
  have ok: "group_ok thinker_nodes"
    by (simp add: group_ok_def thinker_nodes_def thinker_leaf_def resolved_weight_def)
  have "fst (execute_weighted no_estimate echo_resolver (1 / 2) thinker_plan thinker_nodes (cycle_input None) sample_request None False) \<in> range Inr"
    by (simp add: execute_weighted_def Let_def is_branch_eligible_for_max_context_def thinker_nodes_def thinker_leaf_def
        after_suppression_def has_thinker_branch_def should_suppress_thinker_selection_def select_weighted_branch_def
        select_interleaved_thinking_weighted_cycle_leaf_def build_interleaved_thinking_sequence_def resolved_weight_def
        coordinator_resolve_leaf_def echo_resolver_def)
  with ok weighted_execution_outcomes [OF ok, of no_estimate "cycle_input None" sample_request echo_resolver "1 / 2" thinker_plan None False]
  show ?thesis by auto
qed

text \<open>
  Suppression of the thinker is not enforced in the middle of a cycle: with the suppression flag set and
  an executor branch available, a stored cycle state that points at the thinker makes weighted execution
  select the thinker, while with a fresh cycle it selects the executor.
\<close>

lemma suppressed_thinker_still_selected:
  "let nodes = thinker_nodes; sq = thinking_sequence (enumerate 0 nodes); cs = Some (cycle_state_dict sq ''s'' 2);
       run = (\<lambda>c. execute no_estimate echo_resolver (1 / 2) thinker_plan (cycle_input c) sample_request (Some suppressed_context)) in
   should_suppress_thinker_selection (Some suppressed_context) \<and>
   map_sum id tgt_model (fst (run None)) = Inr ''e:small'' \<and>
   map_sum id tgt_model (fst (run cs)) = Inr ''t:big'' \<and>
   map_option (ext_get COMPOSITE_SELECTED_LEAF_IS_THINKER_KEY) (snd (run cs)) = Some (JBool True)"
  unfolding Let_def execute_def
  by (simp add: thinker_plan_def execute_weighted_def Let_def is_branch_eligible_for_max_context_def thinker_nodes_def thinker_leaf_def
      after_suppression_def has_thinker_branch_def should_suppress_thinker_selection_def select_weighted_branch_def
      select_interleaved_thinking_weighted_cycle_leaf_def build_interleaved_thinking_sequence_def resolved_weight_def
      coordinator_resolve_leaf_def echo_resolver_def cycle_input_def suppressed_context_def cycle_start_stored
      should_publish_def contains_top_level_operator_def persist_weighted_retry_state_def key_defs ext_get_def
      dict_get_def cycle_start_def cycle_state_dict_def sequence_selectors_def ext_set_def dict_set_def
      numeral_2_eq_2)

end
