(* ===== verification/Bridge_Theorems.thy ===== *)
theory Bridge_Theorems
  imports Recovery_Bridge Thinking_Cycle
begin

text \<open>
  Correctness of the recovery bridge: stored states load back, a run of retries stays within the hop budget
  and so ends, nothing is retried once output was emitted, a reroll never repeats the branch that just
  failed and visits every branch before it repeats one, and the bridge continues exactly where the
  coordinator stopped.
\<close>

section \<open>Stored states load back\<close>

definition failover_state_ok :: "FailoverRuntimeState \<Rightarrow> bool" where
  "failover_state_ok st \<longleftrightarrow> 0 \<le> next_index st \<and> 0 \<le> fs_hop_count st \<and> 0 < fs_max_hops st"

definition weighted_branch_ok :: "WeightedRetryBranch \<Rightarrow> bool" where
  "weighted_branch_ok b \<longleftrightarrow> py_strip (wb_selector b) = wb_selector b \<and> wb_selector b \<noteq> [] \<and> 0 < wb_weight b"

definition weighted_state_ok :: "WeightedRetryRuntimeState \<Rightarrow> bool" where
  "weighted_state_ok w \<longleftrightarrow> list_all weighted_branch_ok (ws_branches w) \<and>
     selected_selector w \<in> set (map wb_selector (ws_branches w)) \<and> 0 \<le> ws_hop_count w \<and> 0 < ws_max_hops w"

lemma str_items_map [simp]: "str_items (map JStr xs) = Some xs"
  by (induction xs) auto

lemma load_weighted_branches_map:
  "list_all weighted_branch_ok bs \<Longrightarrow>
   load_weighted_branches (map (\<lambda>b. JDict [(''selector'', JStr (wb_selector b)), (''weight'', JInt (wb_weight b))]) bs) = Some bs"
  by (induction bs) (auto simp: load_weighted_branch_def weighted_branch_ok_def dict_get_def)

lemma load_weighted_branches_ok: "load_weighted_branches js = Some bs \<Longrightarrow> list_all weighted_branch_ok bs"
  by (induction js arbitrary: bs)
    (auto simp: load_weighted_branch_def weighted_branch_ok_def split: option.splits if_splits)

lemma mode_distinct [simp]: "FAILOVER_MODE \<noteq> WEIGHTED_RETRY_MODE" "WEIGHTED_RETRY_MODE \<noteq> FAILOVER_MODE"
  by (simp_all add: FAILOVER_MODE_def WEIGHTED_RETRY_MODE_def)

lemma load_weighted_ok:
  assumes "load_weighted_state ctx = Some w"
  shows "weighted_state_ok w"
  using assms load_weighted_branches_ok
  unfolding load_weighted_state_def weighted_state_ok_def
  by (auto split: option.splits if_splits prod.splits)

lemma load_failover_ok: "load_failover_state ctx = Some st \<Longrightarrow> failover_state_ok st"
  unfolding load_failover_state_def failover_state_ok_def
  by (auto split: option.splits if_splits prod.splits)

lemma load_weighted_stored:
  assumes "weighted_state_ok w" "ext_get COMPOSITE_ROUTING_STATE_KEY ctx = serialize_weighted_state w"
  shows "load_weighted_state ctx = Some w"
proof -
  have "py_strip (selected_selector w) \<noteq> []" "ws_branches w \<noteq> []"
    using assms(1) by (auto simp: weighted_state_ok_def weighted_branch_ok_def list_all_iff)
  with assms show ?thesis
    by (simp add: load_weighted_state_def serialize_weighted_state_def weighted_state_ok_def dict_get_def
        load_weighted_branches_map not_less)
qed

lemma load_failover_stored:
  assumes "failover_state_ok st" "ext_get COMPOSITE_ROUTING_STATE_KEY ctx = failover_state_json st"
  shows "load_failover_state ctx = Some st" "load_weighted_state ctx = None"
  using assms
  by (simp_all add: load_failover_state_def load_weighted_state_def failover_state_json_def
      failover_state_ok_def dict_get_def not_less not_le)

lemma stored_failover_json:
  "failover_state_ok st \<Longrightarrow> next_index st \<le> int (length (fs_branches st)) \<Longrightarrow>
   stored_failover_state (fs_branches st) (failover_state_json st) = Some st"
  by (simp add: stored_failover_state_def failover_state_json_def failover_state_ok_def dict_get_def)

section \<open>Attempts and their budget\<close>

text \<open>The hops that the state of a context still allows.\<close>

definition retry_budget :: "RequestContext \<Rightarrow> nat" where
  "retry_budget ctx =
     (case load_weighted_state ctx of
        Some w \<Rightarrow> nat (ws_max_hops w - ws_hop_count w)
      | None \<Rightarrow>
          (case load_failover_state ctx of None \<Rightarrow> 0 | Some st \<Rightarrow> nat (fs_max_hops st - fs_hop_count st)))"

text \<open>One retry: the bridge returned a request. The random value and the error are arbitrary.\<close>

inductive retry_step :: "RequestContext \<Rightarrow> string \<Rightarrow> RequestContext \<Rightarrow> bool" where
  "build_next_request r request (Some ctx) False error = (Inr (Some request'), Some ctx') \<Longrightarrow>
   retry_step ctx (req_model request') ctx'"

inductive retry_run :: "RequestContext \<Rightarrow> string list \<Rightarrow> RequestContext \<Rightarrow> bool" where
  retry_none: "retry_run ctx [] ctx"
| retry_more: "retry_step ctx m ctx' \<Longrightarrow> retry_run ctx' ms ctx'' \<Longrightarrow> retry_run ctx (m # ms) ctx''"

inductive_cases retry_run_NilE: "retry_run ctx [] ctx'"
inductive_cases retry_run_ConsE: "retry_run ctx (m # ms) ctx'"
inductive_cases retry_stepE: "retry_step ctx m ctx'"

text \<open>What a weighted retry does to the stored state.\<close>

definition reroll ::
  "WeightedRetryRuntimeState \<Rightarrow> string \<Rightarrow> WeightedRetryRuntimeState \<Rightarrow> bool" where
  "reroll w m w' \<longleftrightarrow>
     (let tried = insert (selected_selector w) (set (excluded_selectors w));
          names = wb_selector ` set (ws_branches w) in
      ws_hop_count w < ws_max_hops w \<and> m \<in> names \<and> m \<noteq> selected_selector w \<and>
      ws_branches w' = ws_branches w \<and> selected_selector w' = m \<and> ws_hop_count w' = ws_hop_count w + 1 \<and>
      ws_max_hops w' = ws_max_hops w \<and>
      (if names \<subseteq> tried then set (excluded_selectors w') = {selected_selector w}
       else set (excluded_selectors w') = tried \<and> m \<notin> tried))"

lemma remaining_weights_positive:
  "list_all weighted_branch_ok bs \<Longrightarrow> remaining_branches ex bs \<noteq> [] \<Longrightarrow>
   positive_weights (map wb_weight (remaining_branches ex bs))"
  by (auto simp: positive_weights_def remaining_branches_def weighted_branch_ok_def list_all_iff)

lemma remaining_empty_iff: "remaining_branches ex bs = [] \<longleftrightarrow> wb_selector ` set bs \<subseteq> set ex"
  by (auto simp: remaining_branches_def filter_empty_conv)

lemma remaining_nth:
  assumes "i < length (remaining_branches ex bs)"
  shows "wb_selector (remaining_branches ex bs ! i) \<in> wb_selector ` set bs - set ex"
  using nth_mem [OF assms] by (auto simp: remaining_branches_def)

lemma pick_in_range:
  assumes "list_all weighted_branch_ok bs" "remaining_branches ex bs \<noteq> []"
    and "(if length (remaining_branches ex bs) = 1 then Inr 0
      else select_index_from_weights r (map wb_weight (remaining_branches ex bs))) = Inr i"
  shows "i < length (remaining_branches ex bs)"
  using assms(3) select_index_range [OF remaining_weights_positive [OF assms(1,2)], of r i]
  by (auto split: if_splits)

text \<open>The exclusions of the next round: the tried branches, or the failed one alone when all were tried.\<close>

definition next_excluded :: "WeightedRetryRuntimeState \<Rightarrow> string list" where
  "next_excluded w =
     (let tried = (if selected_selector w \<notin> set (excluded_selectors w)
                   then excluded_selectors w @ [selected_selector w] else excluded_selectors w) in
      if remaining_branches tried (ws_branches w) = [] then [selected_selector w] else tried)"

lemma weighted_retry_Some:
  assumes "build_weighted_retry_request r req ctx w error = (Inr (Some req'), ctx')"
  obtains i where
    "ws_hop_count w < ws_max_hops w"
    "remaining_branches (next_excluded w) (ws_branches w) \<noteq> []"
    "(if length (remaining_branches (next_excluded w) (ws_branches w)) = 1 then Inr 0
      else select_index_from_weights r (map wb_weight (remaining_branches (next_excluded w) (ws_branches w)))) = Inr i"
    "req_model req' = wb_selector (remaining_branches (next_excluded w) (ws_branches w) ! i)"
    "ctx' = ext_set COMPOSITE_ROUTING_STATE_KEY (serialize_weighted_state (w\<lparr>excluded_selectors := next_excluded w,
       selected_selector := req_model req', ws_hop_count := ws_hop_count w + 1\<rparr>)) ctx"
proof -
  let ?rem = "remaining_branches (next_excluded w) (ws_branches w)"
  let ?pick = "if length ?rem = 1 then Inr 0 else select_index_from_weights r (map wb_weight ?rem)"
  let ?tried = "if selected_selector w \<notin> set (excluded_selectors w)
    then excluded_selectors w @ [selected_selector w] else excluded_selectors w"
  have guard: "\<not> (case error of None \<Rightarrow> True | Some e \<Rightarrow> \<not> is_weighted_reroll_eligible e)"
  proof
    assume "case error of None \<Rightarrow> True | Some e \<Rightarrow> \<not> is_weighted_reroll_eligible e"
    with assms show False by (simp add: build_weighted_retry_request_def)
  qed
  have hops: "\<not> ws_max_hops w \<le> ws_hop_count w"
  proof
    assume "ws_max_hops w \<le> ws_hop_count w"
    with guard assms show False by (simp add: build_weighted_retry_request_def)
  qed
  have ex: "(if remaining_branches ?tried (ws_branches w) = [] then [selected_selector w] else ?tried) = next_excluded w"
    "(if remaining_branches ?tried (ws_branches w) = [] then remaining_branches [selected_selector w] (ws_branches w)
      else remaining_branches ?tried (ws_branches w)) = ?rem"
    by (simp_all add: next_excluded_def Let_def)
  have body: "build_weighted_retry_request r req ctx w error =
      (if ?rem = [] then (Inr None, ext_set COMPOSITE_ROUTING_STATE_KEY
          (serialize_weighted_state (w\<lparr>excluded_selectors := next_excluded w\<rparr>)) ctx)
       else (case ?pick of Inl e \<Rightarrow> (Inl e, ctx) | Inr i \<Rightarrow>
          (Inr (Some (next_request (wb_selector (?rem ! i)) req)),
           ext_set COMPOSITE_ROUTING_STATE_KEY (serialize_weighted_state (w\<lparr>excluded_selectors := next_excluded w,
             selected_selector := wb_selector (?rem ! i), ws_hop_count := ws_hop_count w + 1\<rparr>)) ctx)))"
    unfolding build_weighted_retry_request_def Let_def ex if_not_P [OF guard] if_not_P [OF hops] ..
  have ne: "?rem \<noteq> []" using assms unfolding body by auto
  then obtain i where i: "?pick = Inr i"
    using assms unfolding body by (cases ?pick) auto
  have "req' = next_request (wb_selector (?rem ! i)) req"
    "ctx' = ext_set COMPOSITE_ROUTING_STATE_KEY (serialize_weighted_state (w\<lparr>excluded_selectors := next_excluded w,
       selected_selector := wb_selector (?rem ! i), ws_hop_count := ws_hop_count w + 1\<rparr>)) ctx"
    using assms unfolding body i if_not_P [OF ne] by simp_all
  with hops ne i show thesis by (intro that [of i]) (simp_all add: next_request_def)
qed

lemma next_excluded_selected: "selected_selector w \<in> set (next_excluded w)"
  by (auto simp: next_excluded_def Let_def)

lemma next_excluded_set:
  "set (next_excluded w) =
     (if wb_selector ` set (ws_branches w) \<subseteq> insert (selected_selector w) (set (excluded_selectors w))
      then {selected_selector w} else insert (selected_selector w) (set (excluded_selectors w)))"
proof -
  have "set (if selected_selector w \<notin> set (excluded_selectors w)
      then excluded_selectors w @ [selected_selector w] else excluded_selectors w) =
      insert (selected_selector w) (set (excluded_selectors w))" by auto
  then show ?thesis
    unfolding next_excluded_def Let_def remaining_empty_iff by (simp only: if_distrib [of set] list.set)
qed

lemma weighted_retry_reroll:
  assumes "build_weighted_retry_request r req ctx w error = (Inr (Some req'), ctx')" "weighted_state_ok w"
  shows "\<exists>w'. reroll w (req_model req') w' \<and> weighted_state_ok w' \<and>
    ctx' = ext_set COMPOSITE_ROUTING_STATE_KEY (serialize_weighted_state w') ctx"
proof -
  let ?rem = "remaining_branches (next_excluded w) (ws_branches w)"
  let ?w = "w\<lparr>excluded_selectors := next_excluded w, selected_selector := req_model req', ws_hop_count := ws_hop_count w + 1\<rparr>"
  obtain i where i: "ws_hop_count w < ws_max_hops w" "?rem \<noteq> []"
    "(if length ?rem = 1 then Inr 0 else select_index_from_weights r (map wb_weight ?rem)) = Inr i"
    "req_model req' = wb_selector (?rem ! i)" "ctx' = ext_set COMPOSITE_ROUTING_STATE_KEY (serialize_weighted_state ?w) ctx"
    by (rule weighted_retry_Some [OF assms(1)])
  have "i < length ?rem"
    using assms(2) by (intro pick_in_range [OF _ i(2,3)]) (simp add: weighted_state_ok_def)
  from remaining_nth [OF this] have m: "req_model req' \<in> wb_selector ` set (ws_branches w)" "req_model req' \<notin> set (next_excluded w)"
    by (simp_all add: i(4))
  then have "req_model req' \<noteq> selected_selector w" using next_excluded_selected by metis
  with m i(1) have "reroll w (req_model req') ?w"
    by (auto simp: reroll_def Let_def next_excluded_set split: if_splits)
  moreover have "weighted_state_ok ?w" using assms(2) m(1) by (auto simp: weighted_state_ok_def)
  ultimately show ?thesis using i(5) by blast
qed

lemma failover_retry_Some:
  assumes "build_failover_request req ctx st = (Inr (Some req'), ctx')" "failover_state_ok st"
  shows "nat (next_index st) < length (fs_branches st)" "req_model req' = fs_branches st ! nat (next_index st)"
    "fs_hop_count st < fs_max_hops st"
    "ctx' = ext_set COMPOSITE_ROUTING_STATE_KEY (failover_state_json
      (st\<lparr>next_index := next_index st + 1, fs_hop_count := fs_hop_count st + 1\<rparr>)) ctx"
  using assms by (auto simp: build_failover_request_def next_request_def failover_state_ok_def split: if_splits)

text \<open>Every retry is a reroll of a weighted state or the next branch of a failover state.\<close>

lemma map_prod_pair: "map_prod id Some p = (x, Some y) \<longleftrightarrow> p = (x, y)"
  by (cases p) auto

lemma retry_step_cases:
  assumes "retry_step ctx m ctx'"
  obtains (weighted) w w' where "load_weighted_state ctx = Some w" "load_weighted_state ctx' = Some w'" "reroll w m w'"
  | (failover) st where "load_weighted_state ctx = None" "load_failover_state ctx = Some st"
      "nat (next_index st) < length (fs_branches st)" "m = fs_branches st ! nat (next_index st)"
      "fs_hop_count st < fs_max_hops st" "load_weighted_state ctx' = None"
      "load_failover_state ctx' = Some (st\<lparr>next_index := next_index st + 1, fs_hop_count := fs_hop_count st + 1\<rparr>)"
proof -
  obtain r req error req' where 1: "m = req_model req'"
      "build_next_request r req (Some ctx) False error = (Inr (Some req'), Some ctx')"
    using assms by (auto elim: retry_stepE)
  show thesis
  proof (cases "load_weighted_state ctx")
    case (Some w)
    with 1 have "build_weighted_retry_request r req ctx w error = (Inr (Some req'), ctx')"
      by (auto simp: build_next_request_def map_prod_pair split: if_splits)
    from weighted_retry_reroll [OF this load_weighted_ok [OF Some]] obtain w' where
      "reroll w m w'" "weighted_state_ok w'" "ctx' = ext_set COMPOSITE_ROUTING_STATE_KEY (serialize_weighted_state w') ctx"
      using 1 by blast
    with load_weighted_stored [of w' ctx'] weighted [OF Some] show thesis by simp
  next
    case None
    then obtain st where st: "load_failover_state ctx = Some st" "build_failover_request req ctx st = (Inr (Some req'), ctx')"
      using 1 by (auto simp: build_next_request_def map_prod_pair split: if_splits option.splits)
    note ok = load_failover_ok [OF st(1)]
    note so = failover_retry_Some [OF st(2) ok]
    have "failover_state_ok (st\<lparr>next_index := next_index st + 1, fs_hop_count := fs_hop_count st + 1\<rparr>)"
      using ok by (simp add: failover_state_ok_def)
    from load_failover_stored [OF this, of ctx'] so failover [OF None st(1) so(1)] 1 show thesis by simp
  qed
qed

lemma retry_step_budget:
  assumes "retry_step ctx m ctx'"
  shows "retry_budget ctx = Suc (retry_budget ctx')"
  using assms
proof (cases rule: retry_step_cases)
  case (weighted w w')
  then have "ws_hop_count w < ws_max_hops w" "ws_hop_count w' = ws_hop_count w + 1" "ws_max_hops w' = ws_max_hops w"
    by (auto simp: reroll_def Let_def)
  with weighted(1,2) show ?thesis by (simp add: retry_budget_def)
next
  case (failover st)
  then show ?thesis by (simp add: retry_budget_def)
qed

lemma retry_run_budget: "retry_run ctx ms ctx' \<Longrightarrow> retry_budget ctx = length ms + retry_budget ctx'"
  by (induction rule: retry_run.induct) (auto dest: retry_step_budget)

section \<open>Rounds of rerolls\<close>

lemma reroll_distinct:
  assumes "retry_run ctx ms ctx'" "load_weighted_state ctx = Some w"
    and "set ns = insert (selected_selector w) (set (excluded_selectors w))" "distinct ns"
    and "length ns + length ms \<le> card (wb_selector ` set (ws_branches w))"
  shows "distinct (ns @ ms)"
  using assms
proof (induction ctx ms ctx' arbitrary: ns w rule: retry_run.induct)
  case (retry_none ctx)
  then show ?case by simp
next
  case (retry_more ctx m ctx' ms ctx'')
  let ?names = "wb_selector ` set (ws_branches w)"
  obtain w' where w': "load_weighted_state ctx' = Some w'" "reroll w m w'"
    using retry_more.prems(1) by (rule_tac retry_step_cases [OF retry_more.hyps(1)]) simp_all
  have "\<not> ?names \<subseteq> set ns"
  proof
    assume "?names \<subseteq> set ns"
    then have "card ?names \<le> length ns" using card_mono [of "set ns" ?names] card_length [of ns] by simp
    with retry_more.prems(4) show False by simp
  qed
  then have m: "m \<notin> set ns" "set (excluded_selectors w') = set ns" "selected_selector w' = m" "ws_branches w' = ws_branches w"
    using w'(2) retry_more.prems(2) unfolding reroll_def Let_def by (auto split: if_splits)
  have "distinct ((ns @ [m]) @ ms)"
    using retry_more.prems(3,4) m by (intro retry_more.IH [OF w'(1)]) auto
  then show ?case by simp
qed

section \<open>Properties\<close>


text \<open>
  C4. Retries terminate: in every run of retries, with arbitrary errors and random values, each retry uses up
  exactly one hop of the stored budget, so a run has at most as many retries as hops were left.
\<close>

theorem retries_within_budget:
  assumes "retry_run ctx ms ctx'"
  shows "length ms + retry_budget ctx' = retry_budget ctx"
  using retry_run_budget [OF assms] by simp

text \<open>
  C30. Every branch before a repetition: while no more branches were tried than the weighted group has
  selectors, successive rerolls of a fresh weighted state never return to a branch that was tried before,
  the initially selected one included.
\<close>

theorem rerolls_visit_all_before_repeating:
  assumes "retry_run ctx ms ctx'" "load_weighted_state ctx = Some w" "excluded_selectors w = []"
    and "length ms < card (wb_selector ` set (ws_branches w))"
  shows "distinct (selected_selector w # ms)"
  using reroll_distinct [OF assms(1,2), of "[selected_selector w]"] assms(3,4) by simp

text \<open>
  Nothing is retried after output: once content has started or meaningful output was recorded in the
  context, the bridge returns no request and leaves the context as it is.
\<close>

lemma no_retry_after_output:
  assumes "content_begun \<or> truthy (ext_get ''meaningful_output_emitted'' ctx)"
  shows "build_next_request r req (Some ctx) content_begun error = (Inr None, Some ctx)"
  using assms by (simp add: build_next_request_def)

end
