(* ===== verification/Composite_Routing.thy ===== *)
theory Composite_Routing
  imports Selector_Examples Bridge_Theorems
begin

text \<open>
  The composite routing service, \<^verbatim>\<open>src/core/services/composite_routing_service.py\<close>, and the adapter that
  resolves a leaf through the backend model resolver,
  \<^verbatim>\<open>src/core/services/composite_leaf_target_resolver_adapter.py\<close>, with the properties that span the
  parser, the coordinator and the bridge. The backend model resolver, an injected interface, is the
  argument \<open>resolve\<close>.
\<close>

section \<open>The leaf adapter\<close>

type_synonym backend_resolver = "ChatRequest \<Rightarrow> RequestContext option \<Rightarrow> (exn + BackendTarget) \<times> RequestContext option"

definition leaf_extra_body :: "ChatRequest \<Rightarrow> RequestContext option \<Rightarrow> CompositeLeafSelector \<Rightarrow> jdict" where
  "leaf_extra_body request context leaf =
     (let selector = normalized_selector leaf;
          explicit = has_explicit_backend_selector selector;
          d0 = (case req_extra_body request of None \<Rightarrow> [] | Some d \<Rightarrow> d);
          d1 = dict_set COMPOSITE_LEAF_RESOLUTION_EXTRA_BODY_KEY (JBool True) d0;
          d2 = dict_set COMPOSITE_LEAF_SELECTOR_EXTRA_BODY_KEY (JStr selector) d1;
          d3 = dict_set COMPOSITE_LEAF_PARSED_BACKEND_EXTRA_BODY_KEY
                 (JStr (if explicit then leaf_backend_type leaf else [])) d2;
          d4 = dict_set COMPOSITE_LEAF_PARSED_MODEL_EXTRA_BODY_KEY (JStr (leaf_model_name leaf)) d3;
          params = JDict (uri_json (leaf_uri_params leaf));
          d5 = (if explicit then dict_pop ''backend_type'' (dict_set RESOLVED_URI_PARAMS_EXTRA_BODY_KEY params d4)
                else if leaf_uri_params leaf \<noteq> [] then dict_set RESOLVED_URI_PARAMS_EXTRA_BODY_KEY params d4
                else d4) in
      case context of
        Some ctx \<Rightarrow>
          (case ctx_session_id ctx of
             Some sid \<Rightarrow> if sid \<noteq> [] \<and> \<not> dict_has ''session_id'' d5 then dict_set ''session_id'' (JStr sid) d5 else d5
           | None \<Rightarrow> d5)
      | None \<Rightarrow> d5)"

definition leaf_request :: "ChatRequest \<Rightarrow> RequestContext option \<Rightarrow> CompositeLeafSelector \<Rightarrow> ChatRequest" where
  "leaf_request request context leaf =
     request\<lparr>req_model := normalized_selector leaf, req_extra_body := Some (leaf_extra_body request context leaf)\<rparr>"

text \<open>The resolution flag is set for the call and put back after it, also when the call raises.\<close>

definition resolve_leaf :: "backend_resolver \<Rightarrow> leaf_resolver" where
  "resolve_leaf resolve request context leaf =
     (case context of
        None \<Rightarrow> resolve (leaf_request request None leaf) None
      | Some ctx \<Rightarrow>
          (let previous_flag = ext_get COMPOSITE_LEAF_RESOLUTION_FLAG ctx;
               (result, context') = resolve (leaf_request request context leaf)
                 (Some (ext_set COMPOSITE_LEAF_RESOLUTION_FLAG (JBool True) ctx)) in
           (result,
            map_option (if previous_flag = JNull then ext_pop COMPOSITE_LEAF_RESOLUTION_FLAG
                        else ext_set COMPOSITE_LEAF_RESOLUTION_FLAG previous_flag) context')))"

section \<open>The service\<close>

definition exn_of_parse_error :: "parse_error \<Rightarrow> exn" where
  "exn_of_parse_error e =
     (let other = (\<lambda>name. \<lparr>exn_class = OtherException name, exn_message = [], exn_details = [], exn_status = 500,
            exn_code = None\<rparr>) in
      case e of
        CompositeSelectorValidationError env \<Rightarrow>
          \<lparr>exn_class = SelectorValidationError, exn_message = env_message env,
           exn_details = [(''composite_validation'', envelope_dump env)], exn_status = 400, exn_code = None\<rparr>
      | PydanticError m \<Rightarrow> (other ''ValidationError'')\<lparr>exn_message := m\<rparr>
      | ValueErrorRaised \<Rightarrow> other ''ValueError''
      | IntegerLimitRaised \<Rightarrow> other ''ValueError''
      | OverflowErrorRaised \<Rightarrow> other ''OverflowError'')"

definition publish_routing_error_diagnostics ::
  "RequestContext option \<Rightarrow> CompositeRoutingInput \<Rightarrow> exn \<Rightarrow> RequestContext option" where
  "publish_routing_error_diagnostics context ri e =
     (case as_str (dict_get ''reason'' (exn_details e)) of
        None \<Rightarrow> context
      | Some reason \<Rightarrow>
          (if reason = ''attempt_budget_exhausted'' \<or> reason = ''failover_exhausted''
           then publish_exhaustion context (ri_selector ri) (ri_surface ri) reason (exn_details e) None None
           else context))"

definition resolve_target ::
  "(real \<Rightarrow> string) \<Rightarrow> estimator \<Rightarrow> backend_resolver \<Rightarrow> real \<Rightarrow> CompositeRoutingInput \<Rightarrow> ChatRequest \<Rightarrow>
   RequestContext option \<Rightarrow> routed" where
  "resolve_target float_str estimate resolve random_value ri request context =
     (case parse float_str ri of
        Inl (CompositeSelectorValidationError env) \<Rightarrow>
          (Inl (exn_of_parse_error (CompositeSelectorValidationError env)),
           publish_validation_error context (ri_selector ri) (ri_surface ri) env)
      | Inl e \<Rightarrow> (Inl (exn_of_parse_error e), context)
      | Inr plan \<Rightarrow>
          (case execute estimate (resolve_leaf resolve) random_value plan ri request context of
             (Inl e, context') \<Rightarrow>
               (Inl e, if isinstance e [RoutingError] \<and> should_publish (ri_selector ri) (ri_surface ri)
                       then publish_routing_error_diagnostics context' ri e else context')
           | (Inr target, context') \<Rightarrow> (Inr target, context')))"

section \<open>Errors of the coordinator\<close>

text \<open>The routing errors that the coordinator raises itself.\<close>

definition coordinator_error :: "exn \<Rightarrow> bool" where
  "coordinator_error e \<longleftrightarrow>
     (\<exists>m reason. reason \<in> {''max_context_exceeded'', ''max_context_exhausted'', ''interleaved_thinking_suppressed''} \<and>
        e = availability_error m reason) \<or>
     (\<exists>h n. e = build_budget_exhausted_error h n) \<or> (\<exists>st. e = build_failover_exhausted_error st)"

lemma coordinator_errorI:
  "reason \<in> {''max_context_exceeded'', ''max_context_exhausted'', ''interleaved_thinking_suppressed''} \<Longrightarrow>
   coordinator_error (availability_error m reason)"
  by (auto simp: coordinator_error_def)

text \<open>An error that the resolver raised on a leaf of the plan.\<close>

definition raised_by :: "leaf_resolver \<Rightarrow> ChatRequest \<Rightarrow> CompositeLeafSelector list \<Rightarrow> exn \<Rightarrow> bool" where
  "raised_by resolver req leaves e \<longleftrightarrow> (\<exists>leaf \<in> set leaves. \<exists>ctx. fst (resolver req ctx leaf) = Inl e)"

lemma chain_spec_errors:
  assumes "fst (chain_spec n i st vs) = Inl e"
  shows "coordinator_error e \<or> Fatal e \<in> set vs"
  using assms by (induction n i st vs rule: chain_spec.induct) (auto simp: coordinator_error_def Let_def split: if_splits)

lemma failover_errors:
  assumes "execute_failover_chain est resolver nodes ri req context p = (Inl e, c)"
  shows "coordinator_error e \<or> raised_by resolver req (map leaf_selector nodes) e \<or> estimate_raised est ri req (map leaf_selector nodes) e"
proof -
  let ?i = "entry_index nodes ri context"
  obtain vs where
    vs: "list_all2 (\<lambda>v b. \<exists>ctx. v = branch_verdict est resolver ri req ctx (leaf_selector b)) vs (drop ?i nodes)"
    and r: "fst (chain_spec (length nodes) ?i (chain_entry nodes ri context) vs) = Inl e"
    using any_context.execute_chain_explained [of est resolver ri req nodes "context" p] assms
    by (auto simp: explained_def)
  have "raised_by resolver req (map leaf_selector nodes) e \<or> estimate_raised est ri req (map leaf_selector nodes) e" if fatal: "Fatal e \<in> set vs"
  proof -
    obtain j where j: "j < length vs" "vs ! j = Fatal e" using fatal by (auto simp: in_set_conv_nth)
    then have "j < length (drop ?i nodes)" using list_all2_lengthD [OF vs] by simp
    then have "drop ?i nodes ! j \<in> set (drop ?i nodes)" by (rule nth_mem)
    moreover obtain ctx where "Fatal e = branch_verdict est resolver ri req ctx (leaf_selector (drop ?i nodes ! j))"
      using list_all2_nthD [OF vs j(1)] j(2) by auto
    ultimately obtain b where "b \<in> set (drop ?i nodes)"
        "Fatal e = branch_verdict est resolver ri req ctx (leaf_selector b)" by blast
    then show ?thesis
      by (auto simp: raised_by_def estimate_raised_def branch_verdict_def split: if_splits sum.splits bool.splits dest: in_set_dropD)
  qed
  with chain_spec_errors [OF r] show ?thesis by blast
qed

lemma leaf_errors:
  assumes "execute_leaf est resolver leaf ri req context p = (Inl e, c)"
  shows "coordinator_error e \<or> raised_by resolver req [leaf] e \<or> estimate_raised est ri req [leaf] e"
proof (cases "context_check est (request_context_tokens ri) req leaf = Inr True")
  case True
  then have "fst (coordinator_resolve_leaf resolver req context leaf) = Inl e"
    using assms eligible_cached [OF cache_ok_empty [of est req], of "request_context_tokens ri" leaf]
    by (auto simp: execute_leaf_def split: prod.splits sum.splits if_splits)
  then show ?thesis by (auto simp: resolve_leaf_result raised_by_def)
next
  case False
  then show ?thesis
    using assms eligible_cached [OF cache_ok_empty [of est req], of "request_context_tokens ri" leaf]
    by (cases "context_check est (request_context_tokens ri) req leaf")
      (auto simp: execute_leaf_def estimate_raised_def split: bool.splits intro: coordinator_errorI)
qed

lemma node_wf_group_ok:
  assumes "node_wf (WeightedGroupNode ns)"
  shows "group_ok ns"
  using assms by (auto simp: group_ok_def leaf_fits_def leaf_weighted_def resolved_weight_def split: option.splits)

lemma weighted_errors:
  assumes "execute_weighted est resolver r plan ns ri req context p = (Inl e, c)" "group_ok ns"
  shows "coordinator_error e \<or> raised_by resolver req (map leaf_selector ns) e \<or> estimate_raised est ri req (map leaf_selector ns) e"
proof -
  have "set ns = snd ` set (enumerate 0 ns)"
    using list.set_map [of snd "enumerate 0 ns"] by simp
  then have mem: "b \<in> set (enumerate 0 ns) \<Longrightarrow> leaf_of b \<in> leaf_selector ` set ns" for b by simp
  from weighted_outcomes [OF assms(2), of est ri req resolver r plan "context" p]
  show ?thesis
  proof (elim disjE exE conjE)
    fix e'
    assume "estimate_raised est ri req (map leaf_selector ns) e'"
      "execute_weighted est resolver r plan ns ri req context p = (Inl e', context)"
    with assms(1) show ?thesis by simp
  next
    fix m reason c'
    assume "reason \<in> {''max_context_exhausted'', ''interleaved_thinking_suppressed''}"
      "execute_weighted est resolver r plan ns ri req context p = (Inl (availability_error m reason), c')"
    with assms(1) show ?thesis by (auto intro: coordinator_errorI)
  next
    fix b ctx
    assume "b \<in> set (enumerate 0 ns)"
      "fst (execute_weighted est resolver r plan ns ri req context p) = fst (resolver req ctx (leaf_of b))"
    then have "leaf_of b \<in> set (map leaf_selector ns)" "fst (resolver req ctx (leaf_of b)) = Inl e"
      using assms(1) mem [of b] by simp_all
    then show ?thesis unfolding raised_by_def by blast
  qed
qed

lemma execute_errors:
  assumes "execute est resolver r plan ri req context = (Inl e, c)" "node_wf (root_node plan)"
  shows "coordinator_error e \<or> raised_by resolver req (node_children (root_node plan)) e \<or>
    estimate_raised est ri req (node_children (root_node plan)) e \<or>
    (\<exists>ns m. root_node plan = ParallelGroupNode ns \<and> e = mk_configuration_error m)"
proof (cases "root_node plan")
  case (LeafNode n)
  then show ?thesis using assms leaf_errors by (auto simp: execute_def Let_def)
next
  case (FailoverGroupNode ns)
  then show ?thesis using assms failover_errors by (auto simp: execute_def Let_def)
next
  case (WeightedGroupNode ns)
  then show ?thesis using assms weighted_errors node_wf_group_ok by (auto simp: execute_def Let_def)
next
  case (ParallelGroupNode ns)
  then show ?thesis using assms by (auto simp: execute_def Let_def)
qed

lemma chain_entry_ok:
  "failover_state_ok (chain_entry children ri c) \<and> fs_branches (chain_entry children ri c) = branch_names children"
  using resolve_max_hops_pos
  by (auto simp: chain_entry_def load_or_init_state_def fresh_failover_state_def failover_state_ok_def
      stored_failover_state_def Let_def split: option.splits if_splits prod.splits)

section \<open>Properties\<close>


text \<open>
  The leaf adapter leaves no trace: whatever the backend model resolver does and whether or not it
  raises, the leaf-resolution flag of the context reads after the call as it did before, while the resolver
  itself is called with the flag set and with the leaf's normalized selector as model.
\<close>

lemma leaf_resolution_flag_restored:
  "map_option (ext_get COMPOSITE_LEAF_RESOLUTION_FLAG) (snd (resolve_leaf resolve req (Some ctx) leaf)) =
     map_option (\<lambda>_. ext_get COMPOSITE_LEAF_RESOLUTION_FLAG ctx)
       (snd (resolve (leaf_request req (Some ctx) leaf) (Some (ext_set COMPOSITE_LEAF_RESOLUTION_FLAG (JBool True) ctx)))) \<and>
   fst (resolve_leaf resolve req (Some ctx) leaf) =
     fst (resolve (leaf_request req (Some ctx) leaf) (Some (ext_set COMPOSITE_LEAF_RESOLUTION_FLAG (JBool True) ctx))) \<and>
   req_model (leaf_request req (Some ctx) leaf) = normalized_selector leaf"
  by (auto simp: resolve_leaf_def leaf_request_def Let_def option.map_comp o_def split: prod.splits)

text \<open>
  C31. The bridge continues the chain: after a failover chain whose branches have no context limits resolved branch
  \<open>k\<close>, the next retry on the resulting context, if hops are left and output has not started, goes to branch
  \<open>k + 1\<close>, and it is refused with the typed exhaustion errors when the hops or the branches are used up.
\<close>

theorem bridge_continues_failover_chain:
  assumes "execute_failover_chain est resolver children ri req context p = (Inr t, Some ctx)"
    and "\<not> truthy (ext_get ''meaningful_output_emitted'' ctx)"
    and "\<forall>b \<in> set children. max_context_tokens (leaf_selector b) = None"
  shows "\<exists>k hops c st. k < length children \<and> 0 \<le> hops \<and> fst (resolver req c (leaf_selector (children ! k))) = Inr t \<and>
    st = (chain_entry children ri context)\<lparr>next_index := int k + 1,
      fs_hop_count := fs_hop_count (chain_entry children ri context) + hops\<rparr> \<and>
    map_sum id (map_option req_model) (fst (build_next_request r req' (Some ctx) False error)) =
      (if fs_hop_count st \<ge> fs_max_hops st then Inl (build_budget_exhausted_error (fs_hop_count st) (fs_max_hops st))
       else if k + 1 \<ge> length children then Inl (build_failover_exhausted_error st)
       else Inr (Some (branch_names children ! (k + 1))))"
proof -
  obtain k hops c where k: "k < length children" "0 \<le> hops" "fst (resolver req c (leaf_selector (children ! k))) = Inr t"
    "carries_state ((chain_entry children ri context)\<lparr>next_index := int k + 1,
      fs_hop_count := fs_hop_count (chain_entry children ri context) + hops\<rparr>) (Some ctx)"
    using chain_success_state [OF assms(1)] by blast
  let ?st = "(chain_entry children ri context)\<lparr>next_index := int k + 1,
      fs_hop_count := fs_hop_count (chain_entry children ri context) + hops\<rparr>"
  have ok: "failover_state_ok ?st" and br: "fs_branches ?st = branch_names children"
    using chain_entry_ok [of children ri "context"] k(2) by (simp_all add: failover_state_ok_def)
  have "ext_get COMPOSITE_ROUTING_STATE_KEY ctx = failover_state_json ?st"
    using k(4) by (simp add: carries_state_def)
  note ld = load_failover_stored [OF ok this]
  have "build_next_request r req' (Some ctx) False error = map_prod id Some (build_failover_request req' ctx ?st)"
    using assms(2) ld by (simp add: build_next_request_def)
  then have "map_sum id (map_option req_model) (fst (build_next_request r req' (Some ctx) False error)) =
      (if fs_hop_count ?st \<ge> fs_max_hops ?st then Inl (build_budget_exhausted_error (fs_hop_count ?st) (fs_max_hops ?st))
       else if k + 1 \<ge> length children then Inl (build_failover_exhausted_error ?st)
       else Inr (Some (branch_names children ! (k + 1))))"
    using br by (auto simp: build_failover_request_def next_request_def nat_add_distrib)
  with k(1,2,3) show ?thesis by blast
qed

end
