(* ===== verification/Routing_Examples.thy ===== *)
theory Routing_Examples
  imports Composite_Routing
begin

text \<open>
  Concrete runs of the coordinator, the bridge and the service, on which their properties are applied, and
  the run that shows that the bridge does not enforce the context limits of a failover chain.
\<close>

section \<open>Inputs\<close>

definition chain_leaf :: "string \<Rightarrow> int option \<Rightarrow> CompositeLeafNode" where
  "chain_leaf m limit = CompositeLeafNode
     \<lparr>raw_selector = m, normalized_selector = m, weight_annotation = None, first_annotation = False,
      thinker_annotation = False, max_context_tokens = limit, handicap_seconds = Finite 0,
      ttft_timeout_seconds = Finite 0, leaf_uri_params = [], leaf_backend_type = [], leaf_model_name = m,
      embedded_selector = None\<rparr>"

definition sample_chain :: "CompositeLeafNode list" where
  "sample_chain = [chain_leaf ''a:m'' None, chain_leaf ''b:n'' (Some 10), chain_leaf ''c:o'' None]"

definition big_request_input :: CompositeRoutingInput where
  "big_request_input = (plain_input ''a:m|[max_context=10]b:n|c:o'')\<lparr>request_context_tokens := Some 1000\<rparr>"

definition empty_context :: RequestContext where
  "empty_context = \<lparr>ctx_session_id = None, extensions = []\<rparr>"

text \<open>A resolver for which the first branch of the sample chain is unavailable.\<close>

definition first_down :: leaf_resolver where
  "first_down req ctx leaf =
     (if normalized_selector leaf = ''a:m'' then (Inl (mk_routing_error ''down'' []), ctx) else echo_resolver req ctx leaf)"

definition echo_target :: "string \<Rightarrow> BackendTarget" where
  "echo_target m = \<lparr>tgt_backend = [], tgt_model = m, tgt_uri_params = []\<rparr>"

lemmas chain_eval = execute_failover_chain_def load_or_init_state_def fresh_failover_state_def stored_failover_state_def
  sample_chain_def chain_leaf_def big_request_input_def plain_input_def empty_context_def echo_resolver_def
  is_branch_eligible_for_max_context_def resolve_request_tokens_for_leaf_def coordinator_resolve_leaf_def
  should_suppress_thinker_selection_def branch_resolved_def branch_failed_def advance_chain_def save_chain_def
  note_branch_def persist_state_def failover_state_json_def first_down_def mk_routing_error_def
  is_failover_eligible_leaf_resolution_error_def isinstance_def resolve_max_hops_def DEFAULT_MAX_FAILOVER_HOPS_def
  ext_get_def ext_set_def dict_set_def dict_get_def key_defs Let_def echo_target_def

text \<open>The context after the first branch of the chain resolved.\<close>

definition after_first_state :: FailoverRuntimeState where
  "after_first_state = \<lparr>fs_branches = [''a:m'', ''b:n'', ''c:o''], next_index = 1, fs_hop_count = 0, fs_max_hops = 5\<rparr>"

definition after_first :: RequestContext where
  "after_first = ext_set COMPOSITE_ROUTING_STATE_KEY (failover_state_json after_first_state)
     (ext_set COMPOSITE_SELECTED_LEAF_IS_THINKER_KEY (JBool False)
       (ext_set COMPOSITE_SELECTED_LEAF_SELECTOR_KEY (JStr ''a:m'')
         (ext_set COMPOSITE_ROUTING_STATE_KEY (failover_state_json (after_first_state\<lparr>next_index := 0\<rparr>)) empty_context)))"

lemma chain_first:
  "execute_failover_chain no_estimate echo_resolver sample_chain big_request_input sample_request (Some empty_context) False =
   (Inr (echo_target ''a:m''), Some after_first)"
  by (simp add: chain_eval after_first_def after_first_state_def)

lemma after_first_silent: "\<not> truthy (ext_get ''meaningful_output_emitted'' after_first)"
  by (simp add: after_first_def key_defs) (simp add: empty_context_def ext_get_def dict_get_def)

lemma after_first_load: "load_failover_state after_first = Some after_first_state" "load_weighted_state after_first = None"
  by (rule load_failover_stored [of after_first_state]; simp add: failover_state_ok_def after_first_def after_first_state_def)+

lemma first_down_no_trace: "failures_leave_no_trace first_down sample_request context"
proof -
  have "should_suppress_thinker_selection c = should_suppress_thinker_selection context"
    if "chain_reaches first_down sample_request context c" for c
    using that
    by induction (auto simp: first_down_def echo_resolver_def should_suppress_thinker_selection_def chain_keys_def key_defs
        split: if_splits)
  moreover have "fst (first_down sample_request c leaf) = fst (first_down sample_request c' leaf)" for c c' leaf
    by (simp add: first_down_def echo_resolver_def)
  ultimately show ?thesis unfolding failures_leave_no_trace_def by blast
qed

lemma chain_third:
  "fst (execute_failover_chain no_estimate first_down sample_chain big_request_input sample_request (Some empty_context) False) =
   Inr (echo_target ''c:o'')"
  by (simp add: chain_eval)

section \<open>Applications of the properties\<close>

theorem failover_chain_selects_first_available_witness:
  "\<exists>k. selects_at (chain_entry sample_chain big_request_input (Some empty_context))
    (map (\<lambda>b. branch_verdict no_estimate first_down big_request_input sample_request (Some empty_context) (leaf_selector b))
      (drop (entry_index sample_chain big_request_input (Some empty_context)) sample_chain)) k (echo_target ''c:o'')"
  using failover_chain_selects_first_available [OF first_down_no_trace] chain_third by blast

theorem failover_success_advances_state_witness:
  "\<exists>k ctx. k < length sample_chain \<and>
    fst (echo_resolver sample_request ctx (leaf_selector (sample_chain ! k))) = Inr (echo_target ''a:m'')"
  using failover_success_advances_state [OF chain_first] by blast

definition plain_chain :: "CompositeLeafNode list" where
  "plain_chain = [chain_leaf ''a:m'' None, chain_leaf ''b:n'' None, chain_leaf ''c:o'' None]"

lemma plain_chain_first:
  "execute_failover_chain no_estimate echo_resolver plain_chain big_request_input sample_request (Some empty_context) False =
   (Inr (echo_target ''a:m''), Some after_first)"
  by (simp add: plain_chain_def chain_eval after_first_def after_first_state_def)

theorem bridge_continues_failover_chain_witness:
  "\<exists>k hops st. k < 3 \<and>
    st = (chain_entry plain_chain big_request_input (Some empty_context))\<lparr>next_index := int k + 1,
      fs_hop_count := fs_hop_count (chain_entry plain_chain big_request_input (Some empty_context)) + hops\<rparr>"
proof -
  have "\<forall>b \<in> set plain_chain. max_context_tokens (leaf_selector b) = None"
    by (simp add: plain_chain_def chain_leaf_def)
  from bridge_continues_failover_chain [OF plain_chain_first after_first_silent this, of 0 sample_request None]
  obtain k hops st where "k < length plain_chain"
    "st = (chain_entry plain_chain big_request_input (Some empty_context))\<lparr>next_index := int k + 1,
      fs_hop_count := fs_hop_count (chain_entry plain_chain big_request_input (Some empty_context)) + hops\<rparr>" by blast
  then show ?thesis by (intro exI [of _ k] exI [of _ hops] exI [of _ st]) (simp add: plain_chain_def)
qed

definition sample_weighted :: WeightedRetryRuntimeState where
  "sample_weighted = \<lparr>ws_branches = [\<lparr>wb_selector = ''a:m'', wb_weight = 3\<rparr>, \<lparr>wb_selector = ''b:n'', wb_weight = 1\<rparr>],
     excluded_selectors = [], selected_selector = ''a:m'', ws_hop_count = 0, ws_max_hops = 5\<rparr>"

definition weighted_context :: RequestContext where
  "weighted_context = ext_set COMPOSITE_ROUTING_STATE_KEY (serialize_weighted_state sample_weighted) empty_context"

lemma sample_weighted_ok: "weighted_state_ok sample_weighted"
  by (simp add: weighted_state_ok_def weighted_branch_ok_def sample_weighted_def py_defs)

lemma weighted_context_load: "load_weighted_state weighted_context = Some sample_weighted"
  by (rule load_weighted_stored [OF sample_weighted_ok]) (simp add: weighted_context_def)


definition backend_down :: exn where
  "backend_down = \<lparr>exn_class = BackendError, exn_message = [], exn_details = [], exn_status = 502, exn_code = None\<rparr>"

lemma weighted_retry_sample: "\<exists>ctx'. retry_run weighted_context [''b:n''] ctx'"
proof -
  have el: "is_weighted_reroll_eligible backend_down"
    by (simp add: is_weighted_reroll_eligible_def isinstance_def backend_down_def reroll_error_code_def dict_get_def)
  have "\<not> truthy (ext_get ''meaningful_output_emitted'' weighted_context)"
    by (simp add: weighted_context_def key_defs empty_context_def) (simp add: ext_get_def dict_get_def)
  then have "\<exists>ctx'. build_next_request 0 sample_request (Some weighted_context) False (Some backend_down) =
      (Inr (Some (next_request ''b:n'' sample_request)), Some ctx')"
    using el by (simp add: build_next_request_def weighted_context_load build_weighted_retry_request_def Let_def
        remaining_branches_def sample_weighted_def)
  then obtain ctx' where "build_next_request 0 sample_request (Some weighted_context) False (Some backend_down) =
      (Inr (Some (next_request ''b:n'' sample_request)), Some ctx')" by blast
  from retry_step.intros [OF this] have "retry_step weighted_context ''b:n'' ctx'" by (simp add: next_request_def)
  then show ?thesis using retry_more [OF _ retry_none] by blast
qed

theorem retries_within_budget_witness: "\<exists>ctx'. 1 + retry_budget ctx' = retry_budget weighted_context"
proof -
  obtain ctx' where "retry_run weighted_context [''b:n''] ctx'" using weighted_retry_sample by blast
  from retries_within_budget [OF this] show ?thesis by auto
qed

theorem rerolls_visit_all_before_repeating_witness:
  "(\<exists>ctx'. retry_run weighted_context [''b:n''] ctx') \<and> distinct [''a:m'', ''b:n'']"
proof -
  obtain ctx' where run: "retry_run weighted_context [''b:n''] ctx'" using weighted_retry_sample by blast
  have "excluded_selectors sample_weighted = []"
    "length [''b:n''] < card (wb_selector ` set (ws_branches sample_weighted))"
    by (simp_all add: sample_weighted_def)
  from rerolls_visit_all_before_repeating [OF run weighted_context_load this] run show ?thesis
    by (auto simp: sample_weighted_def)
qed


section \<open>Context limits after a failure\<close>

text \<open>
  The bridge does not enforce context limits: for a request of 1000 tokens the coordinator routes the chain
  \<^verbatim>\<open>a:m|[max_context=10]b:n|c:o\<close> around the second branch, but when the first branch fails at run time the
  bridge sends the same request to that second branch, whose limit is 10 tokens.
\<close>

lemma bridge_ignores_max_context:
  "let ri = big_request_input; c = snd (execute_failover_chain no_estimate echo_resolver sample_chain ri sample_request (Some empty_context) False) in
   fst (execute_failover_chain no_estimate first_down sample_chain ri sample_request (Some empty_context) False) = Inr (echo_target ''c:o'') \<and>
   \<not> fits_context no_estimate (request_context_tokens ri) sample_request (leaf_selector (sample_chain ! 1)) \<and>
   map_sum id (map_option req_model) (fst (build_next_request 0 sample_request c False (Some backend_down))) = Inr (Some ''b:n'')"
proof -
  have "map_sum id (map_option req_model) (fst (build_next_request 0 sample_request (Some after_first) False (Some backend_down))) = Inr (Some ''b:n'')"
    using after_first_silent after_first_load
    by (simp add: build_next_request_def build_failover_request_def next_request_def after_first_state_def)
  moreover have "\<not> fits_context no_estimate (request_context_tokens big_request_input) sample_request (leaf_selector (sample_chain ! 1))"
    by (simp add: fits_context_def context_check_def big_request_input_def sample_chain_def chain_leaf_def)
  ultimately show ?thesis unfolding Let_def by (simp add: chain_first chain_third)
qed

section \<open>Errors of the token count\<close>

text \<open>
  The log message of the coordinator says that a branch remains eligible when its tokens cannot be counted; an
  exception other than the four that are caught, such as a failed download of the tokenizer tables, leaves the
  routing service instead.
\<close>

lemma token_count_failure_escapes:
  assumes "max_context_tokens leaf = Some n" "request_context_tokens ri = None"
    and "estimate (req_messages req) (model_hint_of leaf) = Inl e"
  shows "execute_leaf estimate resolver leaf ri req context p = (Inl e, context)"
  using assms by (simp add: execute_leaf_def is_branch_eligible_for_max_context_def resolve_request_tokens_for_leaf_def)

end
