(* ===== verification/Upstream_Errors.thy ===== *)
theory Upstream_Errors
  imports Py_Prelude
begin

text \<open>
  An exception of a backend call as the resilience layer inspects it, and the provider error classifier
  (\<^verbatim>\<open>src/core/services/provider_error_classifier.py\<close>). The exception may be of any class, so it is given by what
  the code asks of it: the name of its class, which of the tested classes it is an instance of, its attributes
  (\<^verbatim>\<open>getattr(error, name, None)\<close>), the attributes of its \<^verbatim>\<open>response\<close>, and its text \<^verbatim>\<open>str(error)\<close>.
\<close>

section \<open>Errors\<close>

datatype error_kind =
    IsAuthenticationError | IsRateLimitExceededError | IsAPITimeoutError | IsAPIConnectionError
  | IsTimeoutError | IsConnectionError | IsHttpxTimeout | IsHttpxTransport

record upstream_error =
  err_name :: string
  err_kinds :: "error_kind list"
  err_attrs :: "(string \<times> json) list"
  err_response :: "(string \<times> json) list option"
  err_text :: string

definition attr :: "string \<Rightarrow> upstream_error \<Rightarrow> json" where
  "attr k e = dict_get k (err_attrs e)"

definition response_attr :: "string \<Rightarrow> upstream_error \<Rightarrow> json" where
  "response_attr k e = (case err_response e of None \<Rightarrow> JNull | Some d \<Rightarrow> dict_get k d)"

definition is_kind :: "upstream_error \<Rightarrow> error_kind list \<Rightarrow> bool" where
  "is_kind e ks \<longleftrightarrow> list_ex (\<lambda>k. k \<in> set ks) (err_kinds e)"

text \<open>Which attributes hold what the code expects of them.\<close>

definition dict_attr :: "string \<Rightarrow> upstream_error \<Rightarrow> (string \<times> json) list" where
  "dict_attr k e = (case as_dict (attr k e) of None \<Rightarrow> [] | Some d \<Rightarrow> d)"

text \<open>Text with something other than white space in it.\<close>

definition filled_text :: "json \<Rightarrow> string option" where
  "filled_text v = (case as_str v of None \<Rightarrow> None | Some s \<Rightarrow> if py_strip s = [] then None else Some s)"

definition first_some :: "'a option list \<Rightarrow> 'a option" where
  "first_some xs = (case filter (\<lambda>x. x \<noteq> None) xs of [] \<Rightarrow> None | x # _ \<Rightarrow> x)"

lemma first_some_simps [simp]:
  "first_some [] = None" "first_some (Some x # xs) = Some x" "first_some (None # xs) = first_some xs"
  by (simp_all add: first_some_def)

section \<open>Classification\<close>

record ProviderErrorClassification =
  cls_code :: string
  cls_category :: string
  cls_retryable :: bool
  cls_reason :: string

definition PERMANENT_MODEL_CODES :: "string list" where
  "PERMANENT_MODEL_CODES = [''model_not_found'', ''model_not_supported'', ''unsupported_model'', ''unsupported_on_instance'']"

definition TEMPORARY_CODES :: "string list" where
  "TEMPORARY_CODES = [''rate_limit'', ''rate_limited'', ''rate_limit_exceeded'', ''quota_exceeded'', ''temporarily_unavailable'']"

definition classifier_status_code :: "upstream_error \<Rightarrow> int option" where
  "classifier_status_code e =
     first_some [as_int (attr ''status_code'' e), as_int (dict_get ''status_code'' (dict_attr ''details'' e))]"

definition nested_dict :: "(string \<times> json) list \<Rightarrow> (string \<times> json) list" where
  "nested_dict d = (case as_dict (dict_get ''error'' d) of None \<Rightarrow> [] | Some d' \<Rightarrow> d')"

definition extract_message :: "upstream_error \<Rightarrow> string" where
  "extract_message e =
     (let detail = dict_attr ''detail'' e; details = dict_attr ''details'' e in
      case first_some [filled_text (dict_get ''message'' detail), filled_text (dict_get ''message'' (nested_dict detail)),
        filled_text (dict_get ''message'' details), filled_text (dict_get ''message'' (nested_dict details)),
        filled_text (attr ''message'' e)] of
        Some s \<Rightarrow> s
      | None \<Rightarrow> err_text e)"

definition extract_code :: "upstream_error \<Rightarrow> string option" where
  "extract_code e =
     (let detail = dict_attr ''detail'' e; details = dict_attr ''details'' e in
      first_some [as_str (dict_get ''code'' detail), as_str (dict_get ''code'' (nested_dict detail)),
        as_str (dict_get ''code'' details), as_str (dict_get ''code'' (nested_dict details)), as_str (attr ''code'' e)])"

definition is_permanent_model_not_found :: "int option \<Rightarrow> string \<Rightarrow> string \<Rightarrow> bool" where
  "is_permanent_model_not_found status_code code message \<longleftrightarrow>
     code \<in> set PERMANENT_MODEL_CODES \<or>
     (status_code = Some 400 \<or> status_code = Some 404) \<and> py_contains ''model'' message \<and>
       (py_contains ''not found'' message \<or> py_contains ''does not exist'' message \<or>
        py_contains ''unknown model'' message \<or> py_contains ''unsupported'' message) \<or>
     py_contains ''model_not_found'' message"

definition classify :: "upstream_error \<Rightarrow> ProviderErrorClassification" where
  "classify e =
     (let status_code = classifier_status_code e; message = extract_message e;
          code = (case extract_code e of None \<Rightarrow> [] | Some c \<Rightarrow> py_strip (py_lower c)) in
      if is_permanent_model_not_found status_code code (py_lower message) then
        \<lparr>cls_code = ''unsupported_on_instance'', cls_category = ''availability'', cls_retryable = False, cls_reason = message\<rparr>
      else if status_code = Some 429 \<or> code \<in> set TEMPORARY_CODES then
        \<lparr>cls_code = ''temporarily_unavailable'', cls_category = ''availability'', cls_retryable = True, cls_reason = message\<rparr>
      else if status_code = Some 401 \<or> status_code = Some 403 then
        \<lparr>cls_code = ''policy_rejected'', cls_category = ''policy'', cls_retryable = False, cls_reason = message\<rparr>
      else
        \<lparr>cls_code = ''unclassified_error'', cls_category = ''execution'', cls_retryable = False, cls_reason = message\<rparr>)"

end
