(* ===== verification/Rate_Limit_State.thy ===== *)
theory Rate_Limit_State
  imports Py_Prelude
begin

text \<open>
  The rate-limit state manager, \<^verbatim>\<open>src/core/services/resilience/rate_limit_state.py\<close>: availability of a backend
  instance and of a model on an instance. The two stores are \<^verbatim>\<open>cachetools.TTLCache\<close> objects, third-party code,
  so the operations take them as an argument (\<open>stores\<close>) and the theorems assume the documented laws
  \<open>ttl_cache_laws\<close>. The manager reads two clocks, \<^verbatim>\<open>time.time()\<close> for cooldowns and the clock of the cache for
  its entries; an operation runs at one \<open>instant\<close> of both, exact real numbers. Durations come from upstream errors and may be
  infinite or not a number.
\<close>

section \<open>The cache\<close>

text \<open>
  What the manager uses of a cache: \<open>cpeek\<close> is the value a lookup finds, \<open>ctouch\<close> what a lookup does to the
  recency order, \<open>cmut\<close> a change of the stored object through a reference to it, which touches no timer.
\<close>

record ('c, 'k, 'v) cache_ops =
  cpeek :: "real \<Rightarrow> 'k \<Rightarrow> 'c \<Rightarrow> 'v option"
  ctouch :: "real \<Rightarrow> 'k \<Rightarrow> 'c \<Rightarrow> 'c"
  cset :: "real \<Rightarrow> 'k \<Rightarrow> 'v \<Rightarrow> 'c \<Rightarrow> 'c"
  cpop :: "real \<Rightarrow> 'k \<Rightarrow> 'c \<Rightarrow> 'c"
  cmut :: "'k \<Rightarrow> ('v \<Rightarrow> 'v) \<Rightarrow> 'c \<Rightarrow> 'c"
  citems :: "real \<Rightarrow> 'c \<Rightarrow> ('k \<times> 'v) list"

text \<open>
  The documented behaviour of a \<^verbatim>\<open>TTLCache\<close> with \<open>maxsize\<close> and \<open>ttl\<close>: an entry is found until its time to live
  has passed since it was set; expired entries are gone for good; setting a key may evict other entries, but none
  while there is room; lookups and removals leave the other entries alone; the items are the live entries.
\<close>

definition ttl_cache_laws :: "('c, 'k, 'v) cache_ops \<Rightarrow> nat \<Rightarrow> real \<Rightarrow> bool" where
  "ttl_cache_laws ops maxsize ttl \<longleftrightarrow>
     (\<forall>t0 t k v c. t0 \<le> t \<longrightarrow> cpeek ops t k (cset ops t0 k v c) = (if t < t0 + ttl then Some v else None)) \<and>
     (\<forall>t0 t k k' v c. t0 \<le> t \<and> k' \<noteq> k \<longrightarrow>
        cpeek ops t k' (cset ops t0 k v c) = cpeek ops t k' c \<or> cpeek ops t k' (cset ops t0 k v c) = None) \<and>
     (\<forall>t0 t k k' v c. t0 \<le> t \<and> k' \<noteq> k \<and> (length (citems ops t0 c) < maxsize \<or> cpeek ops t0 k c \<noteq> None) \<longrightarrow>
        cpeek ops t k' (cset ops t0 k v c) = cpeek ops t k' c) \<and>
     (\<forall>t0 t k k' c. t0 \<le> t \<longrightarrow> cpeek ops t k' (cpop ops t0 k c) = (if k' = k then None else cpeek ops t k' c)) \<and>
     (\<forall>t0 t k k' c. cpeek ops t k' (ctouch ops t0 k c) = cpeek ops t k' c) \<and>
     (\<forall>t k k' f c. cpeek ops t k' (cmut ops k f c) = (if k' = k then map_option f (cpeek ops t k' c) else cpeek ops t k' c)) \<and>
     (\<forall>t t' k c. t \<le> t' \<longrightarrow> cpeek ops t' k c = cpeek ops t k c \<or> cpeek ops t' k c = None) \<and>
     (\<forall>t c. distinct (map fst (citems ops t c)) \<and> (\<forall>k v. (k, v) \<in> set (citems ops t c) \<longleftrightarrow> cpeek ops t k c = Some v))"

lemma peek_set: "ttl_cache_laws ops maxsize ttl \<Longrightarrow> t0 \<le> t \<Longrightarrow> cpeek ops t k (cset ops t0 k v c) = (if t < t0 + ttl then Some v else None)"
  by (simp add: ttl_cache_laws_def)

lemma peek_set_other: "ttl_cache_laws ops maxsize ttl \<Longrightarrow> t0 \<le> t \<Longrightarrow> k' \<noteq> k \<Longrightarrow>
      cpeek ops t k' (cset ops t0 k v c) = cpeek ops t k' c \<or> cpeek ops t k' (cset ops t0 k v c) = None"
  by (simp add: ttl_cache_laws_def)

lemma peek_set_room: "ttl_cache_laws ops maxsize ttl \<Longrightarrow> t0 \<le> t \<Longrightarrow> k' \<noteq> k \<Longrightarrow> length (citems ops t0 c) < maxsize \<or> cpeek ops t0 k c \<noteq> None \<Longrightarrow>
      cpeek ops t k' (cset ops t0 k v c) = cpeek ops t k' c"
  by (simp add: ttl_cache_laws_def)

lemma peek_pop: "ttl_cache_laws ops maxsize ttl \<Longrightarrow> t0 \<le> t \<Longrightarrow> cpeek ops t k' (cpop ops t0 k c) = (if k' = k then None else cpeek ops t k' c)"
  by (simp add: ttl_cache_laws_def)

lemma peek_touch: "ttl_cache_laws ops maxsize ttl \<Longrightarrow> cpeek ops t k' (ctouch ops t0 k c) = cpeek ops t k' c"
  by (simp add: ttl_cache_laws_def)

lemma peek_mut: "ttl_cache_laws ops maxsize ttl \<Longrightarrow> cpeek ops t k' (cmut ops k f c) = (if k' = k then map_option f (cpeek ops t k' c) else cpeek ops t k' c)"
  by (simp add: ttl_cache_laws_def)

lemma peek_later: "ttl_cache_laws ops maxsize ttl \<Longrightarrow> t \<le> t' \<Longrightarrow> cpeek ops t' k c = cpeek ops t k c \<or> cpeek ops t' k c = None"
  by (simp add: ttl_cache_laws_def)

lemma items_distinct: "ttl_cache_laws ops maxsize ttl \<Longrightarrow> distinct (map fst (citems ops t c))"
  by (simp add: ttl_cache_laws_def)

lemma items_iff: "ttl_cache_laws ops maxsize ttl \<Longrightarrow> (k, v) \<in> set (citems ops t c) \<longleftrightarrow> cpeek ops t k c = Some v"
  by (simp add: ttl_cache_laws_def)

text \<open>While all keys that are ever used fit into the cache, no entry is evicted for room.\<close>

definition keys_within :: "('c, 'k, 'v) cache_ops \<Rightarrow> nat \<Rightarrow> 'k set \<Rightarrow> real \<Rightarrow> 'c \<Rightarrow> bool" where
  "keys_within ops maxsize K now c \<longleftrightarrow> finite K \<and> card K \<le> maxsize \<and> (\<forall>t k. now \<le> t \<and> cpeek ops t k c \<noteq> None \<longrightarrow> k \<in> K)"

lemma peek_set_within:
  assumes "ttl_cache_laws ops maxsize ttl" "keys_within ops maxsize K now c" "k \<in> K" "i \<noteq> k" "now \<le> t"
  shows "cpeek ops t i (cset ops now k v c) = cpeek ops t i c"
proof -
  let ?items = "citems ops now c"
  have "length ?items < maxsize \<or> cpeek ops now k c \<noteq> None"
  proof (cases "cpeek ops now k c")
    case None
    have sub: "set (map fst ?items) \<subseteq> K - {k}"
      using assms(2) None items_iff [OF assms(1)] by (fastforce simp: keys_within_def)
    have "length ?items = card (set (map fst ?items))"
      using distinct_card [OF items_distinct [OF assms(1)], of now c] by simp
    also have "\<dots> \<le> card (K - {k})" using assms(2) by (intro card_mono sub) (simp add: keys_within_def)
    also have "\<dots> < card K" using assms(2,3) by (intro psubset_card_mono) (auto simp: keys_within_def)
    finally show ?thesis using assms(2) by (simp add: keys_within_def)
  qed simp
  then show ?thesis by (rule peek_set_room [OF assms(1,5,4)])
qed

lemma keys_within_set:
  assumes "ttl_cache_laws ops maxsize ttl" "keys_within ops maxsize K now c" "k \<in> K"
  shows "keys_within ops maxsize K now (cset ops now k v c)"
  unfolding keys_within_def
proof (intro conjI allI impI)
  fix t j assume "now \<le> t \<and> cpeek ops t j (cset ops now k v c) \<noteq> None"
  then show "j \<in> K"
    using assms(2,3) peek_set_within [OF assms, of j t v] by (cases "j = k") (auto simp: keys_within_def)
qed (use assms(2) in \<open>auto simp: keys_within_def\<close>)

section \<open>State\<close>

datatype InstanceStatus = ACTIVE | RATE_LIMITED | DISABLED

record InstanceState =
  status :: InstanceStatus
  cooldown_until :: "pyfloat option"
  disabled_reason :: "string option"
  disabled_at :: "real option"

definition mk_instance_state :: "InstanceStatus \<Rightarrow> InstanceState" where
  "mk_instance_state st = \<lparr>status = st, cooldown_until = None, disabled_reason = None, disabled_at = None\<rparr>"

record ModelState =
  model_cooldown_until :: "pyfloat option"
  retry_count :: int
  unsupported_permanent :: bool
  unsupported_reason :: "string option"
  unsupported_at :: "real option"

record AvailabilityResult =
  available :: bool
  availability_reason :: string
  availability_cooldown :: "pyfloat option"

definition is_available :: AvailabilityResult where
  "is_available = \<lparr>available = True, availability_reason = [], availability_cooldown = None\<rparr>"

definition unavailable :: "string \<Rightarrow> pyfloat option \<Rightarrow> AvailabilityResult" where
  "unavailable r c = \<lparr>available = False, availability_reason = r, availability_cooldown = c\<rparr>"

record instant =
  wall :: real
  cache_time :: real

record ('ci, 'cm) stores =
  icache :: "('ci, string, InstanceState) cache_ops"
  mcache :: "('cm, string \<times> string, ModelState) cache_ops"

record ('ci, 'cm) rate_limits =
  instance_state :: 'ci
  model_state :: 'cm

definition get_instance :: "('ci, 'cm) stores \<Rightarrow> instant \<Rightarrow> string \<Rightarrow> ('ci, 'cm) rate_limits \<Rightarrow> InstanceState option \<times> ('ci, 'cm) rate_limits" where
  "get_instance S now i m = (cpeek (icache S) (cache_time now) i (instance_state m),
     m\<lparr>instance_state := ctouch (icache S) (cache_time now) i (instance_state m)\<rparr>)"

definition get_model :: "('ci, 'cm) stores \<Rightarrow> instant \<Rightarrow> string \<times> string \<Rightarrow> ('ci, 'cm) rate_limits \<Rightarrow> ModelState option \<times> ('ci, 'cm) rate_limits" where
  "get_model S now k m = (cpeek (mcache S) (cache_time now) k (model_state m),
     m\<lparr>model_state := ctouch (mcache S) (cache_time now) k (model_state m)\<rparr>)"

definition set_instance :: "('ci, 'cm) stores \<Rightarrow> instant \<Rightarrow> string \<Rightarrow> InstanceState \<Rightarrow> ('ci, 'cm) rate_limits \<Rightarrow> ('ci, 'cm) rate_limits" where
  "set_instance S now i s m = m\<lparr>instance_state := cset (icache S) (cache_time now) i s (instance_state m)\<rparr>"

definition set_model :: "('ci, 'cm) stores \<Rightarrow> instant \<Rightarrow> string \<times> string \<Rightarrow> ModelState \<Rightarrow> ('ci, 'cm) rate_limits \<Rightarrow> ('ci, 'cm) rate_limits" where
  "set_model S now k s m = m\<lparr>model_state := cset (mcache S) (cache_time now) k s (model_state m)\<rparr>"

definition pop_instance :: "('ci, 'cm) stores \<Rightarrow> instant \<Rightarrow> string \<Rightarrow> ('ci, 'cm) rate_limits \<Rightarrow> ('ci, 'cm) rate_limits" where
  "pop_instance S now i m = m\<lparr>instance_state := cpop (icache S) (cache_time now) i (instance_state m)\<rparr>"

definition pop_model :: "('ci, 'cm) stores \<Rightarrow> instant \<Rightarrow> string \<times> string \<Rightarrow> ('ci, 'cm) rate_limits \<Rightarrow> ('ci, 'cm) rate_limits" where
  "pop_model S now k m = m\<lparr>model_state := cpop (mcache S) (cache_time now) k (model_state m)\<rparr>"

section \<open>Instance-level operations\<close>

text \<open>\<^verbatim>\<open>cooldown_until and time.time() < cooldown_until\<close>; a timestamp of zero counts as unset.\<close>

definition cooling :: "instant \<Rightarrow> pyfloat option \<Rightarrow> bool" where
  "cooling now c \<longleftrightarrow> (case c of None \<Rightarrow> False | Some u \<Rightarrow> u \<noteq> Finite 0 \<and> float_exceeds u (wall now))"

definition get_instance_status ::
  "('ci, 'cm) stores \<Rightarrow> instant \<Rightarrow> string \<Rightarrow> ('ci, 'cm) rate_limits \<Rightarrow> InstanceStatus \<times> ('ci, 'cm) rate_limits" where
  "get_instance_status S now i m =
     (case get_instance S now i m of
        (None, m1) \<Rightarrow> (ACTIVE, m1)
      | (Some s, m1) \<Rightarrow>
          (if status s = DISABLED then (DISABLED, m1)
           else if status s = RATE_LIMITED then
             (if cooling now (cooldown_until s) then (RATE_LIMITED, m1) else (ACTIVE, pop_instance S now i m1))
           else (ACTIVE, m1)))"

definition is_instance_available ::
  "('ci, 'cm) stores \<Rightarrow> instant \<Rightarrow> string \<Rightarrow> ('ci, 'cm) rate_limits \<Rightarrow> bool \<times> ('ci, 'cm) rate_limits" where
  "is_instance_available S now i m = (case get_instance_status S now i m of (st, m1) \<Rightarrow> (st = ACTIVE, m1))"

definition or_default :: "string \<Rightarrow> string option \<Rightarrow> string" where
  "or_default d r = (case r of None \<Rightarrow> d | Some s \<Rightarrow> if s = [] then d else s)"

definition check_instance_availability ::
  "('ci, 'cm) stores \<Rightarrow> instant \<Rightarrow> string \<Rightarrow> ('ci, 'cm) rate_limits \<Rightarrow> AvailabilityResult \<times> ('ci, 'cm) rate_limits" where
  "check_instance_availability S now i m =
     (case get_instance_status S now i m of (st, m1) \<Rightarrow>
        if st = ACTIVE then (is_available, m1)
        else (case get_instance S now i m1 of
            (None, m2) \<Rightarrow> (is_available, m2)
          | (Some s, m2) \<Rightarrow>
              (if st = DISABLED
               then (unavailable (''Instance disabled: '' @ or_default ''unknown'' (disabled_reason s)) None, m2)
               else (unavailable ''Instance rate limited'' (Some (max_zero
                 (case cooldown_until s of None \<Rightarrow> Finite 0 | Some u \<Rightarrow> if u = Finite 0 then Finite 0 else float_minus u (wall now)))), m2))))"

definition set_instance_cooldown ::
  "('ci, 'cm) stores \<Rightarrow> instant \<Rightarrow> string \<Rightarrow> pyfloat \<Rightarrow> ('ci, 'cm) rate_limits \<Rightarrow> ('ci, 'cm) rate_limits" where
  "set_instance_cooldown S now i secs m =
     (case get_instance S now i m of (s, m1) \<Rightarrow>
        if (case s of None \<Rightarrow> False | Some s \<Rightarrow> status s = DISABLED) then m1
        else set_instance S now i ((mk_instance_state RATE_LIMITED)\<lparr>cooldown_until := Some (float_plus (wall now) secs)\<rparr>) m1)"

definition disable_instance ::
  "('ci, 'cm) stores \<Rightarrow> instant \<Rightarrow> string \<Rightarrow> string \<Rightarrow> ('ci, 'cm) rate_limits \<Rightarrow> ('ci, 'cm) rate_limits" where
  "disable_instance S now i reason m = set_instance S now i
     ((mk_instance_state DISABLED)\<lparr>disabled_reason := Some reason, disabled_at := Some (wall now)\<rparr>) m"

definition reactivate_instance ::
  "('ci, 'cm) stores \<Rightarrow> instant \<Rightarrow> string \<Rightarrow> ('ci, 'cm) rate_limits \<Rightarrow> bool \<times> ('ci, 'cm) rate_limits" where
  "reactivate_instance S now i m =
     (case get_instance S now i m of
        (None, m1) \<Rightarrow> (False, m1)
      | (Some s, m1) \<Rightarrow>
          (if status s = ACTIVE then (False, m1) else (True, set_instance S now i (mk_instance_state ACTIVE) m1)))"

section \<open>Model-level operations\<close>

definition drop_expired_cooldown ::
  "('ci, 'cm) stores \<Rightarrow> instant \<Rightarrow> string \<times> string \<Rightarrow> ModelState \<Rightarrow> ('ci, 'cm) rate_limits \<Rightarrow> ('ci, 'cm) rate_limits" where
  "drop_expired_cooldown S now k s m =
     (if unsupported_permanent s then set_model S now k (s\<lparr>model_cooldown_until := None\<rparr>) m else pop_model S now k m)"

definition is_model_available ::
  "('ci, 'cm) stores \<Rightarrow> instant \<Rightarrow> string \<Rightarrow> string \<Rightarrow> ('ci, 'cm) rate_limits \<Rightarrow> bool \<times> ('ci, 'cm) rate_limits" where
  "is_model_available S now i mdl m =
     (case is_instance_available S now i m of (ok, m1) \<Rightarrow>
        if \<not> ok then (False, m1)
        else (case get_model S now (i, mdl) m1 of
            (None, m2) \<Rightarrow> (True, m2)
          | (Some s, m2) \<Rightarrow>
              (if unsupported_permanent s then (False, m2)
               else (case model_cooldown_until s of
                   None \<Rightarrow> (True, m2)
                 | Some u \<Rightarrow>
                     (if float_reached u (wall now) then (True, drop_expired_cooldown S now (i, mdl) s m2) else (False, m2))))))"

definition check_model_availability ::
  "('ci, 'cm) stores \<Rightarrow> instant \<Rightarrow> string \<Rightarrow> string \<Rightarrow> ('ci, 'cm) rate_limits \<Rightarrow> AvailabilityResult \<times> ('ci, 'cm) rate_limits" where
  "check_model_availability S now i mdl m =
     (case check_instance_availability S now i m of (r, m1) \<Rightarrow>
        if \<not> available r then (r, m1)
        else (case get_model S now (i, mdl) m1 of
            (None, m2) \<Rightarrow> (is_available, m2)
          | (Some s, m2) \<Rightarrow>
              (if unsupported_permanent s
               then (unavailable (''Model '' @ mdl @ '' permanently unsupported on '' @ i @ '': ''
                       @ or_default ''unknown reason'' (unsupported_reason s)) None, m2)
               else (case model_cooldown_until s of
                   None \<Rightarrow> (is_available, m2)
                 | Some u \<Rightarrow>
                     (if float_reached u (wall now) then (is_available, drop_expired_cooldown S now (i, mdl) s m2)
                      else (unavailable (''Model '' @ mdl @ '' rate limited on '' @ i) (Some (max_zero (float_minus u (wall now)))), m2))))))"

definition set_model_cooldown ::
  "('ci, 'cm) stores \<Rightarrow> instant \<Rightarrow> string \<Rightarrow> string \<Rightarrow> pyfloat \<Rightarrow> ('ci, 'cm) rate_limits \<Rightarrow> ('ci, 'cm) rate_limits" where
  "set_model_cooldown S now i mdl secs m =
     (case get_model S now (i, mdl) m of (old, m1) \<Rightarrow>
        if (case old of None \<Rightarrow> False | Some s \<Rightarrow> unsupported_permanent s) then m1
        else set_model S now (i, mdl)
          \<lparr>model_cooldown_until = Some (float_plus (wall now) secs), retry_count = (case old of None \<Rightarrow> 1 | Some s \<Rightarrow> retry_count s + 1),
           unsupported_permanent = False, unsupported_reason = None, unsupported_at = None\<rparr> m1)"

definition mark_model_unsupported ::
  "('ci, 'cm) stores \<Rightarrow> instant \<Rightarrow> string \<Rightarrow> string \<Rightarrow> string \<Rightarrow> ('ci, 'cm) rate_limits \<Rightarrow> ('ci, 'cm) rate_limits" where
  "mark_model_unsupported S now i mdl reason m =
     (case get_model S now (i, mdl) m of (old, m1) \<Rightarrow>
        set_model S now (i, mdl)
          \<lparr>model_cooldown_until = None, retry_count = (case old of None \<Rightarrow> 0 | Some s \<Rightarrow> retry_count s),
           unsupported_permanent = True, unsupported_reason = Some reason, unsupported_at = Some (wall now)\<rparr> m1)"

definition clear_model_unsupported ::
  "('ci, 'cm) stores \<Rightarrow> instant \<Rightarrow> string \<Rightarrow> string \<Rightarrow> ('ci, 'cm) rate_limits \<Rightarrow> bool \<times> ('ci, 'cm) rate_limits" where
  "clear_model_unsupported S now i mdl m =
     (case get_model S now (i, mdl) m of
        (None, m1) \<Rightarrow> (False, m1)
      | (Some s, m1) \<Rightarrow>
          (if \<not> unsupported_permanent s then (False, m1)
           else if model_cooldown_until s = None \<and> retry_count s = 0 then (True, pop_model S now (i, mdl) m1)
           else (True, set_model S now (i, mdl)
             (s\<lparr>unsupported_permanent := False, unsupported_reason := None, unsupported_at := None\<rparr>) m1)))"

text \<open>The loop over the copied list of items, with the count of cleared pairs.\<close>

fun clear_unsupported_items ::
  "('ci, 'cm) stores \<Rightarrow> instant \<Rightarrow> string \<Rightarrow> ((string \<times> string) \<times> ModelState) list \<Rightarrow> ('ci, 'cm) rate_limits \<Rightarrow> int \<times> ('ci, 'cm) rate_limits" where
  "clear_unsupported_items S now i [] m = (0, m)"
| "clear_unsupported_items S now i (((c, mdl), s) # items) m =
     (if c \<noteq> i \<or> \<not> unsupported_permanent s then clear_unsupported_items S now i items m
      else (case clear_model_unsupported S now i mdl m of (b, m1) \<Rightarrow>
        (case clear_unsupported_items S now i items m1 of (n, m2) \<Rightarrow> (if b then n + 1 else n, m2))))"

definition clear_unsupported_for_instance ::
  "('ci, 'cm) stores \<Rightarrow> instant \<Rightarrow> string \<Rightarrow> ('ci, 'cm) rate_limits \<Rightarrow> int \<times> ('ci, 'cm) rate_limits" where
  "clear_unsupported_for_instance S now i m =
     clear_unsupported_items S now i (citems (mcache S) (cache_time now) (model_state m)) m"

section \<open>Cooldown management\<close>

text \<open>The time left of a cooldown that is set, not zero and not over.\<close>

definition remaining_of :: "instant \<Rightarrow> pyfloat option \<Rightarrow> pyfloat option" where
  "remaining_of now c = (case c of None \<Rightarrow> None | Some u \<Rightarrow>
     if u \<noteq> Finite 0 \<and> float_exceeds (float_minus u (wall now)) 0 then Some (float_minus u (wall now)) else None)"

definition get_cooldown_remaining ::
  "('ci, 'cm) stores \<Rightarrow> instant \<Rightarrow> string \<Rightarrow> string option \<Rightarrow> ('ci, 'cm) rate_limits \<Rightarrow> pyfloat option \<times> ('ci, 'cm) rate_limits" where
  "get_cooldown_remaining S now i mdl m =
     (case get_instance S now i m of (s, m1) \<Rightarrow>
        (case Option.bind s (\<lambda>s. remaining_of now (cooldown_until s)) of
           Some r \<Rightarrow> (Some r, m1)
         | None \<Rightarrow>
             (case mdl of
                None \<Rightarrow> (None, m1)
              | Some x \<Rightarrow>
                  (if x = [] then (None, m1)
                   else (case get_model S now (i, x) m1 of (ms, m2) \<Rightarrow>
                     (Option.bind ms (\<lambda>s. remaining_of now (model_cooldown_until s)), m2))))))"

definition clear_cooldown ::
  "('ci, 'cm) stores \<Rightarrow> instant \<Rightarrow> string \<Rightarrow> string option \<Rightarrow> ('ci, 'cm) rate_limits \<Rightarrow> ('ci, 'cm) rate_limits" where
  "clear_cooldown S now i mdl m =
     (case mdl of
        Some (x # xs) \<Rightarrow>
          (if cpeek (mcache S) (cache_time now) (i, x # xs) (model_state m) \<noteq> None then
             m\<lparr>model_state := ctouch (mcache S) (cache_time now) (i, x # xs)
                (cmut (mcache S) (i, x # xs) (\<lambda>s. s\<lparr>model_cooldown_until := None, retry_count := 0\<rparr>) (model_state m))\<rparr>
           else m)
      | _ \<Rightarrow>
          (case get_instance S now i m of
             (None, m1) \<Rightarrow> m1
           | (Some s, m1) \<Rightarrow>
               (if status s = RATE_LIMITED
                then m1\<lparr>instance_state := cmut (icache S) i (\<lambda>s. s\<lparr>status := ACTIVE, cooldown_until := None\<rparr>) (instance_state m1)\<rparr>
                else m1)))"

lemmas manager_defs = get_instance_def get_model_def set_instance_def set_model_def pop_instance_def pop_model_def

end
