(* ===== verification/Keyed_Machine.thy ===== *)
theory Keyed_Machine
  imports Main
begin

text \<open>
  Machines that keep one state per key and answer every event: running them over a timed trace, and the
  interface under which the states of different keys do not influence each other. A client proves for
  single events that the machine refines a specification of one key; the run lemmas are proved once here.
\<close>

fun run_machine :: "('t \<Rightarrow> 'e \<Rightarrow> 's \<Rightarrow> 'r \<times> 's) \<Rightarrow> 's \<Rightarrow> ('t \<times> 'e) list \<Rightarrow> 'r list \<times> 's" where
  "run_machine step s [] = ([], s)"
| "run_machine step s ((t, e) # es) =
     (case step t e s of (r, s') \<Rightarrow> (case run_machine step s' es of (rs, s'') \<Rightarrow> (r # rs, s'')))"

lemma run_machine_Cons [simp]:
  "run_machine step s (x # es) =
     (fst (step (fst x) (snd x) s) # fst (run_machine step (snd (step (fst x) (snd x) s)) es),
      snd (run_machine step (snd (step (fst x) (snd x) s)) es))"
  by (cases x) (simp split: prod.splits)

declare run_machine.simps(2) [simp del]

lemma run_machine_append:
  "run_machine step s (xs @ ys) =
     (fst (run_machine step s xs) @ fst (run_machine step (snd (run_machine step s xs)) ys),
      snd (run_machine step (snd (run_machine step s xs)) ys))"
  by (induction xs arbitrary: s) simp_all

lemma run_machine_length [simp]: "length (fst (run_machine step s es)) = length es"
  by (induction es arbitrary: s) simp_all

lemma run_machine_nth:
  "i < length es \<Longrightarrow> fst (run_machine step s es) ! i =
     fst (step (fst (es ! i)) (snd (es ! i)) (snd (run_machine step s (take i es))))"
proof (induction es arbitrary: s i)
  case (Cons x es)
  then show ?case by (cases i) auto
qed simp

text \<open>The events of one key, and the answers to them.\<close>

definition events_of :: "('e \<Rightarrow> 'k) \<Rightarrow> 'k \<Rightarrow> ('t \<times> 'e) list \<Rightarrow> ('t \<times> 'e) list" where
  "events_of key k es = filter (\<lambda>x. key (snd x) = k) es"

fun answers_of :: "('e \<Rightarrow> 'k) \<Rightarrow> 'k \<Rightarrow> ('t \<times> 'e) list \<Rightarrow> 'r list \<Rightarrow> 'r list" where
  "answers_of key k (x # es) (r # rs) =
     (if key (snd x) = k then r # answers_of key k es rs else answers_of key k es rs)"
| "answers_of key k _ _ = []"

lemma events_of_simps [simp]:
  "events_of key k [] = []"
  "events_of key k (x # es) = (if key (snd x) = k then x # events_of key k es else events_of key k es)"
  by (simp_all add: events_of_def)

text \<open>An invariant of the steps of a machine is an invariant of its runs.\<close>

locale machine_invariant =
  fixes step :: "'t \<Rightarrow> 'e \<Rightarrow> 's \<Rightarrow> 'r \<times> 's" and inv :: "'s \<Rightarrow> bool"
  assumes inv_step: "inv s \<Longrightarrow> inv (snd (step t e s))"
begin

lemma inv_run: "inv s \<Longrightarrow> inv (snd (run_machine step s es))"
  by (induction es arbitrary: s) (simp_all add: inv_step)

end

text \<open>
  A machine whose keys are isolated from each other, and that refines a machine for one key, as long as its events are
  among the expected ones.
\<close>

locale keyed_machine_on =
  fixes step :: "'t \<Rightarrow> 'e \<Rightarrow> 's \<Rightarrow> 'r \<times> 's" and inv :: "'s \<Rightarrow> bool" and expected :: "'e \<Rightarrow> bool"
    and key :: "'e \<Rightarrow> 'k" and view :: "'s \<Rightarrow> 'k \<Rightarrow> 'a" and spec :: "'t \<Rightarrow> 'e \<Rightarrow> 'a \<Rightarrow> 'r \<times> 'a"
  assumes expected_step: "inv s \<Longrightarrow> expected e \<Longrightarrow> inv (snd (step t e s))"
    and expected_same: "inv s \<Longrightarrow> expected e \<Longrightarrow> spec t e (view s (key e)) = (fst (step t e s), view (snd (step t e s)) (key e))"
    and expected_other: "inv s \<Longrightarrow> expected e \<Longrightarrow> k \<noteq> key e \<Longrightarrow> view (snd (step t e s)) k = view s k"
begin

lemma expected_run: "inv s \<Longrightarrow> list_all (\<lambda>x. expected (snd x)) es \<Longrightarrow> inv (snd (run_machine step s es))"
  by (induction es arbitrary: s) (simp_all add: expected_step)

lemma expected_run_refines:
  "inv s \<Longrightarrow> list_all (\<lambda>x. expected (snd x)) es \<Longrightarrow> run_machine spec (view s k) (events_of key k es) =
    (answers_of key k es (fst (run_machine step s es)), view (snd (run_machine step s es)) k)"
proof (induction es arbitrary: s)
  case (Cons x es)
  have ok: "expected (snd x)" using Cons.prems(2) by simp
  note IH = Cons.IH [OF expected_step [OF Cons.prems(1) ok, of "fst x"]]
  show ?case
  proof (cases "key (snd x) = k")
    case True
    with expected_same [OF Cons.prems(1) ok, of "fst x"] IH Cons.prems(2) show ?thesis by auto
  next
    case False
    with expected_other [OF Cons.prems(1) ok, of k "fst x"] IH Cons.prems(2) show ?thesis by auto
  qed
qed simp

end

text \<open>Machines that expect every event.\<close>

locale keyed_machine = machine_invariant step inv
  for step :: "'t \<Rightarrow> 'e \<Rightarrow> 's \<Rightarrow> 'r \<times> 's" and inv :: "'s \<Rightarrow> bool" +
  fixes key :: "'e \<Rightarrow> 'k" and view :: "'s \<Rightarrow> 'k \<Rightarrow> 'a" and spec :: "'t \<Rightarrow> 'e \<Rightarrow> 'a \<Rightarrow> 'r \<times> 'a"
  assumes same_key: "inv s \<Longrightarrow> spec t e (view s (key e)) = (fst (step t e s), view (snd (step t e s)) (key e))"
    and other_key: "inv s \<Longrightarrow> k \<noteq> key e \<Longrightarrow> view (snd (step t e s)) k = view s k"

sublocale keyed_machine \<subseteq> every: keyed_machine_on step inv "\<lambda>_. True" key view spec
  by unfold_locales (simp_all add: inv_step same_key other_key)

context keyed_machine
begin

lemma run_refines:
  "inv s \<Longrightarrow> run_machine spec (view s k) (events_of key k es) =
    (answers_of key k es (fst (run_machine step s es)), view (snd (run_machine step s es)) k)"
  by (rule every.expected_run_refines) (simp_all add: list_all_iff)

end

section \<open>Components that drive others\<close>

fun run_steps :: "('t \<Rightarrow> 'e \<Rightarrow> 's \<Rightarrow> 's) \<Rightarrow> ('t \<times> 'e) list \<Rightarrow> 's \<Rightarrow> 's" where
  "run_steps step [] s = s"
| "run_steps step (x # es) s = run_steps step es (step (fst x) (snd x) s)"

lemma run_steps_append: "run_steps step (xs @ ys) s = run_steps step ys (run_steps step xs s)"
  by (induction xs arbitrary: s) auto

text \<open>
  A component whose state has a part that belongs to another component: every step runs a few steps of the other
  component on that part. A run then is, on that part, a run of the other component.
\<close>

locale driven =
  fixes step :: "'t \<Rightarrow> 'e \<Rightarrow> 's \<Rightarrow> 's" and part :: "'s \<Rightarrow> 'm" and run :: "'x list \<Rightarrow> 'm \<Rightarrow> 'm"
    and issues :: "'t \<Rightarrow> 'e \<Rightarrow> 'x \<Rightarrow> bool"
  assumes run_Nil: "run [] m = m"
    and run_append: "run (xs @ ys) m = run ys (run xs m)"
    and step_runs: "\<exists>xs. part (step t e s) = run xs (part s) \<and> (\<forall>x \<in> set xs. issues t e x)"
begin

lemma driven_run:
  "\<exists>xss. list_all2 (\<lambda>y xs. \<forall>x \<in> set xs. issues (fst y) (snd y) x) es xss \<and> part (run_steps step es s) = run (concat xss) (part s)"
proof (induction es arbitrary: s)
  case Nil
  then show ?case by (intro exI [of _ "[]"]) (simp add: run_Nil)
next
  case (Cons y es)
  obtain xs where xs: "part (step (fst y) (snd y) s) = run xs (part s)" "\<forall>x \<in> set xs. issues (fst y) (snd y) x"
    using step_runs by blast
  obtain xss where "list_all2 (\<lambda>y xs. \<forall>x \<in> set xs. issues (fst y) (snd y) x) es xss"
    "part (run_steps step es (step (fst y) (snd y) s)) = run (concat xss) (part (step (fst y) (snd y) s))"
    using Cons.IH by blast
  with xs show ?case by (intro exI [of _ "xs # xss"]) (simp add: run_append)
qed

end

end
