(* ===== verification/Circuit_Breaker.thy ===== *)
theory Circuit_Breaker
  imports Complex_Main Keyed_Machine
begin

text \<open>
  The circuit breaker state manager, \<^verbatim>\<open>src/core/services/resilience/circuit_breaker_state.py\<close>, with its
  configuration (\<^verbatim>\<open>CircuitBreakerConfig\<close> of \<^verbatim>\<open>src/core/config/models/misc.py\<close>). Every operation runs under
  the manager's lock, so it is one step on the dictionary of per-instance states; \<open>now\<close> is the value of
  \<^verbatim>\<open>time.monotonic()\<close>, an exact real number. The specification of one instance is a circuit that is
  closed, open or half open; the manager refines it, and evicting a pristine entry is invisible.
\<close>

section \<open>State\<close>

record CircuitBreakerConfig =
  enabled :: bool
  failure_threshold :: int
  open_cooldown_seconds :: real
  half_open_success_threshold :: int
  half_open_max_inflight :: int

text \<open>The field constraints of the configuration.\<close>

definition config_ok :: "CircuitBreakerConfig \<Rightarrow> bool" where
  "config_ok cfg \<longleftrightarrow>
     1 \<le> failure_threshold cfg \<and> failure_threshold cfg \<le> 100 \<and>
     0 < open_cooldown_seconds cfg \<and> open_cooldown_seconds cfg \<le> 3600 \<and>
     1 \<le> half_open_success_threshold cfg \<and> half_open_success_threshold cfg \<le> 10 \<and>
     1 \<le> half_open_max_inflight cfg \<and> half_open_max_inflight cfg \<le> 10"

datatype breaker_mode = STATE_CLOSED | STATE_OPEN | STATE_HALF_OPEN

record CircuitBreakerState =
  cb_mode :: breaker_mode
  consecutive_failures :: int
  open_until :: "real option"
  half_open_inflight :: int
  half_open_successes :: int
  last_failure_reason :: string

definition fresh_breaker :: CircuitBreakerState where
  "fresh_breaker = \<lparr>cb_mode = STATE_CLOSED, consecutive_failures = 0, open_until = None,
     half_open_inflight = 0, half_open_successes = 0, last_failure_reason = []\<rparr>"

record CircuitBreakerDecision =
  should_proceed :: bool
  decision_mode :: breaker_mode
  cooldown_remaining :: "real option"
  decision_reason :: string

type_synonym breaker_states = "string \<rightharpoonup> CircuitBreakerState"

section \<open>Operations\<close>

definition transition_to_open :: "CircuitBreakerConfig \<Rightarrow> real \<Rightarrow> CircuitBreakerState \<Rightarrow> CircuitBreakerState" where
  "transition_to_open cfg now s = s\<lparr>cb_mode := STATE_OPEN, open_until := Some (now + open_cooldown_seconds cfg),
     half_open_inflight := 0, half_open_successes := 0\<rparr>"

definition transition_to_half_open :: "CircuitBreakerState \<Rightarrow> CircuitBreakerState" where
  "transition_to_half_open s = s\<lparr>cb_mode := STATE_HALF_OPEN, open_until := None, consecutive_failures := 0,
     half_open_inflight := 0, half_open_successes := 0\<rparr>"

definition transition_to_closed :: "CircuitBreakerState \<Rightarrow> CircuitBreakerState" where
  "transition_to_closed s = s\<lparr>cb_mode := STATE_CLOSED, open_until := None, consecutive_failures := 0,
     half_open_inflight := 0, half_open_successes := 0, last_failure_reason := []\<rparr>"

definition pristine :: "CircuitBreakerState \<Rightarrow> bool" where
  "pristine s \<longleftrightarrow> cb_mode s = STATE_CLOSED \<and> consecutive_failures s = 0 \<and> open_until s = None \<and>
     half_open_inflight s = 0 \<and> half_open_successes s = 0 \<and> last_failure_reason s = []"

text \<open>\<^verbatim>\<open>_evict_if_pristine\<close> on the dictionary into which the changed state was written.\<close>

definition evict_if_pristine :: "string \<Rightarrow> CircuitBreakerState \<Rightarrow> breaker_states \<Rightarrow> breaker_states" where
  "evict_if_pristine i s states = (if pristine s then states(i := None) else states)"

definition decide :: "bool \<Rightarrow> breaker_mode \<Rightarrow> real option \<Rightarrow> string \<Rightarrow> CircuitBreakerDecision" where
  "decide p m c r = \<lparr>should_proceed = p, decision_mode = m, cooldown_remaining = c, decision_reason = r\<rparr>"

text \<open>An open circuit whose cooldown has passed becomes half open; \<open>None\<close> while it has not.\<close>

definition wake :: "real \<Rightarrow> CircuitBreakerState \<Rightarrow> CircuitBreakerState option" where
  "wake now s =
     (if cb_mode s = STATE_OPEN then
        (case open_until s of
           Some t \<Rightarrow> if now < t then None else Some (transition_to_half_open s)
         | None \<Rightarrow> Some (transition_to_half_open s))
      else Some s)"

definition check ::
  "CircuitBreakerConfig \<Rightarrow> real \<Rightarrow> string \<Rightarrow> breaker_states \<Rightarrow> CircuitBreakerDecision \<times> breaker_states" where
  "check cfg now i states =
     (if \<not> enabled cfg then (decide True STATE_CLOSED None ''circuit_breaker_disabled'', states)
      else (case states i of
        None \<Rightarrow> (decide True STATE_CLOSED None ''circuit_closed'', states)
      | Some s0 \<Rightarrow>
          (case wake now s0 of
             None \<Rightarrow> (decide False STATE_OPEN (Some (max 0 (the (open_until s0) - now))) ''circuit_open'', states)
           | Some s \<Rightarrow>
               (if cb_mode s = STATE_HALF_OPEN then
                  (if half_open_inflight s \<ge> half_open_max_inflight cfg
                   then (decide False STATE_HALF_OPEN None ''half_open_probe_inflight'', states(i \<mapsto> s))
                   else (decide True STATE_HALF_OPEN None ''half_open_probe_allowed'', states(i \<mapsto> s)))
                else (decide True STATE_CLOSED None ''circuit_closed'', states(i \<mapsto> s))))))"

definition try_acquire_half_open_probe ::
  "CircuitBreakerConfig \<Rightarrow> real \<Rightarrow> string \<Rightarrow> breaker_states \<Rightarrow> bool \<times> breaker_states" where
  "try_acquire_half_open_probe cfg now i states =
     (if \<not> enabled cfg then (True, states)
      else (case states i of
        None \<Rightarrow> (True, states)
      | Some s0 \<Rightarrow>
          (case wake now s0 of
             None \<Rightarrow> (False, states)
           | Some s \<Rightarrow>
               (if cb_mode s \<noteq> STATE_HALF_OPEN then (True, states(i \<mapsto> s))
                else if half_open_inflight s \<ge> half_open_max_inflight cfg then (False, states(i \<mapsto> s))
                else (True, states(i \<mapsto> s\<lparr>half_open_inflight := half_open_inflight s + 1\<rparr>))))))"

definition release_half_open_probe :: "CircuitBreakerConfig \<Rightarrow> string \<Rightarrow> breaker_states \<Rightarrow> breaker_states" where
  "release_half_open_probe cfg i states =
     (if \<not> enabled cfg then states
      else (case states i of
        None \<Rightarrow> states
      | Some s \<Rightarrow>
          (if cb_mode s = STATE_HALF_OPEN \<and> half_open_inflight s > 0
           then states(i \<mapsto> s\<lparr>half_open_inflight := half_open_inflight s - 1\<rparr>) else states)))"

definition record_failure ::
  "CircuitBreakerConfig \<Rightarrow> real \<Rightarrow> string \<Rightarrow> string \<Rightarrow> breaker_states \<Rightarrow> breaker_states" where
  "record_failure cfg now i reason states =
     (if \<not> enabled cfg then states
      else
        (let s0 = (case states i of None \<Rightarrow> fresh_breaker | Some s \<Rightarrow> s);
             s = s0\<lparr>last_failure_reason := reason\<rparr> in
         if cb_mode s = STATE_HALF_OPEN then
           states(i \<mapsto> transition_to_open cfg now
             (if half_open_inflight s > 0 then s\<lparr>half_open_inflight := half_open_inflight s - 1\<rparr> else s))
         else if cb_mode s = STATE_OPEN then states(i \<mapsto> transition_to_open cfg now s)
         else
           (let s' = s\<lparr>consecutive_failures := consecutive_failures s + 1, half_open_successes := 0\<rparr> in
            states(i \<mapsto> (if consecutive_failures s' \<ge> failure_threshold cfg
                         then transition_to_open cfg now s' else s')))))"

definition record_success :: "CircuitBreakerConfig \<Rightarrow> string \<Rightarrow> breaker_states \<Rightarrow> breaker_states" where
  "record_success cfg i states =
     (if \<not> enabled cfg then states
      else (case states i of
        None \<Rightarrow> states
      | Some s0 \<Rightarrow>
          (if cb_mode s0 = STATE_HALF_OPEN then
             (let s1 = (if half_open_inflight s0 > 0 then s0\<lparr>half_open_inflight := half_open_inflight s0 - 1\<rparr> else s0);
                  s = s1\<lparr>half_open_successes := half_open_successes s1 + 1\<rparr> in
              if half_open_successes s \<ge> half_open_success_threshold cfg
              then evict_if_pristine i (transition_to_closed s) (states(i \<mapsto> transition_to_closed s))
              else states(i \<mapsto> s))
           else if cb_mode s0 = STATE_CLOSED then
             (let s = s0\<lparr>consecutive_failures := 0, last_failure_reason := []\<rparr> in
              evict_if_pristine i s (states(i \<mapsto> s)))
           else states)))"

section \<open>The manager as a machine\<close>

datatype breaker_event =
    Check string | TryAcquire string | Release string | Failure string string | Success string

datatype breaker_answer = Decision CircuitBreakerDecision | Acquired bool | Done

fun event_instance :: "breaker_event \<Rightarrow> string" where
  "event_instance (Check i) = i"
| "event_instance (TryAcquire i) = i"
| "event_instance (Release i) = i"
| "event_instance (Failure i r) = i"
| "event_instance (Success i) = i"

fun breaker_step ::
  "CircuitBreakerConfig \<Rightarrow> real \<Rightarrow> breaker_event \<Rightarrow> breaker_states \<Rightarrow> breaker_answer \<times> breaker_states" where
  "breaker_step cfg now (Check i) states = map_prod Decision id (check cfg now i states)"
| "breaker_step cfg now (TryAcquire i) states = map_prod Acquired id (try_acquire_half_open_probe cfg now i states)"
| "breaker_step cfg now (Release i) states = (Done, release_half_open_probe cfg i states)"
| "breaker_step cfg now (Failure i r) states = (Done, record_failure cfg now i r states)"
| "breaker_step cfg now (Success i) states = (Done, record_success cfg i states)"

section \<open>The specification of one instance\<close>

datatype circuit = Closed int | Open real | HalfOpen int int

fun circuit_of :: "CircuitBreakerState \<Rightarrow> circuit" where
  "circuit_of s =
     (case cb_mode s of
        STATE_CLOSED \<Rightarrow> Closed (consecutive_failures s)
      | STATE_OPEN \<Rightarrow> Open (the (open_until s))
      | STATE_HALF_OPEN \<Rightarrow> HalfOpen (half_open_inflight s) (half_open_successes s))"

definition circuit_view :: "breaker_states \<Rightarrow> string \<Rightarrow> circuit" where
  "circuit_view states i = (case states i of None \<Rightarrow> Closed 0 | Some s \<Rightarrow> circuit_of s)"

fun spec_wake :: "real \<Rightarrow> circuit \<Rightarrow> circuit" where
  "spec_wake now (Open t) = (if now < t then Open t else HalfOpen 0 0)"
| "spec_wake now c = c"

fun spec_check :: "CircuitBreakerConfig \<Rightarrow> real \<Rightarrow> circuit \<Rightarrow> CircuitBreakerDecision" where
  "spec_check cfg now (Open t) = decide False STATE_OPEN (Some (t - now)) ''circuit_open''"
| "spec_check cfg now (Closed n) = decide True STATE_CLOSED None ''circuit_closed''"
| "spec_check cfg now (HalfOpen i s) =
     (if i \<ge> half_open_max_inflight cfg then decide False STATE_HALF_OPEN None ''half_open_probe_inflight''
      else decide True STATE_HALF_OPEN None ''half_open_probe_allowed'')"

fun spec_acquire :: "CircuitBreakerConfig \<Rightarrow> circuit \<Rightarrow> bool \<times> circuit" where
  "spec_acquire cfg (Open t) = (False, Open t)"
| "spec_acquire cfg (Closed n) = (True, Closed n)"
| "spec_acquire cfg (HalfOpen i s) =
     (if i \<ge> half_open_max_inflight cfg then (False, HalfOpen i s) else (True, HalfOpen (i + 1) s))"

fun spec_failure :: "CircuitBreakerConfig \<Rightarrow> real \<Rightarrow> circuit \<Rightarrow> circuit" where
  "spec_failure cfg now (Closed n) =
     (if n + 1 \<ge> failure_threshold cfg then Open (now + open_cooldown_seconds cfg) else Closed (n + 1))"
| "spec_failure cfg now _ = Open (now + open_cooldown_seconds cfg)"

fun spec_success :: "CircuitBreakerConfig \<Rightarrow> circuit \<Rightarrow> circuit" where
  "spec_success cfg (Closed n) = Closed 0"
| "spec_success cfg (Open t) = Open t"
| "spec_success cfg (HalfOpen i s) =
     (if s + 1 \<ge> half_open_success_threshold cfg then Closed 0 else HalfOpen (max 0 (i - 1)) (s + 1))"

fun spec_release :: "circuit \<Rightarrow> circuit" where
  "spec_release (HalfOpen i s) = HalfOpen (max 0 (i - 1)) s"
| "spec_release c = c"

fun circuit_step ::
  "CircuitBreakerConfig \<Rightarrow> real \<Rightarrow> breaker_event \<Rightarrow> circuit \<Rightarrow> breaker_answer \<times> circuit" where
  "circuit_step cfg now (Check i) c =
     (if enabled cfg then (Decision (spec_check cfg now (spec_wake now c)), spec_wake now c)
      else (Decision (decide True STATE_CLOSED None ''circuit_breaker_disabled''), c))"
| "circuit_step cfg now (TryAcquire i) c =
     (if enabled cfg then map_prod Acquired id (spec_acquire cfg (spec_wake now c)) else (Acquired True, c))"
| "circuit_step cfg now (Release i) c = (Done, if enabled cfg then spec_release c else c)"
| "circuit_step cfg now (Failure i r) c = (Done, if enabled cfg then spec_failure cfg now c else c)"
| "circuit_step cfg now (Success i) c = (Done, if enabled cfg then spec_success cfg c else c)"

text \<open>The fields that a mode does not use have their neutral values.\<close>

definition breaker_ok :: "CircuitBreakerState \<Rightarrow> bool" where
  "breaker_ok s \<longleftrightarrow>
     0 \<le> half_open_inflight s \<and> 0 \<le> half_open_successes s \<and>
     (cb_mode s \<noteq> STATE_HALF_OPEN \<longrightarrow> half_open_inflight s = 0 \<and> half_open_successes s = 0) \<and>
     (cb_mode s = STATE_OPEN \<longleftrightarrow> open_until s \<noteq> None)"

definition breakers_ok :: "breaker_states \<Rightarrow> bool" where
  "breakers_ok states \<longleftrightarrow> (\<forall>i s. states i = Some s \<longrightarrow> breaker_ok s)"

lemmas breaker_defs = check_def try_acquire_half_open_probe_def release_half_open_probe_def record_failure_def
  record_success_def wake_def transition_to_open_def transition_to_half_open_def transition_to_closed_def
  evict_if_pristine_def pristine_def fresh_breaker_def Let_def

end
