(* ===== verification/Error_Handlers.thy ===== *)
theory Error_Handlers
  imports Upstream_Errors Rate_Limit_State Circuit_Breaker
begin

text \<open>
  The error handlers of the resilience layer, \<^verbatim>\<open>src/core/services/resilience/handlers/\<close>: the rate-limit handler, the
  authentication handler, the chain of \<^verbatim>\<open>base_handler.py\<close> and the circuit-breaker handler in front of it. A handler
  runs at one instant on the rate-limit state. \<open>repr_of\<close> is Python's \<^verbatim>\<open>str\<close> on floats, lists and dictionaries and \<open>fixed1\<close> its
  \<^verbatim>\<open>.1f\<close> format of a float; they only reach texts. An operation on a value of a wrong type raises, the left injection.
\<close>

section \<open>Actions\<close>

datatype ActionType = PROCEED | REJECT | COOLDOWN | DISABLE_INSTANCE | FALLBACK | RETRY

record ResilienceAction =
  act_type :: ActionType
  act_duration :: pyfloat
  act_reason :: string
  act_permanent :: bool

definition mk_action :: "ActionType \<Rightarrow> string \<Rightarrow> ResilienceAction" where
  "mk_action ty r = \<lparr>act_type = ty, act_duration = Finite 0, act_reason = r, act_permanent = False\<rparr>"

record ErrorContext =
  ec_instance_id :: string
  ec_model :: string
  ec_error :: upstream_error
  ec_extra :: "(string \<times> json) list"

datatype handler_exn = PyTypeError

text \<open>\<^verbatim>\<open>str(v)\<close>\<close>

fun py_text :: "(json \<Rightarrow> string) \<Rightarrow> json \<Rightarrow> string" where
  "py_text repr_of JNull = ''None''"
| "py_text repr_of (JBool b) = (if b then ''True'' else ''False'')"
| "py_text repr_of (JInt i) = py_str_int i"
| "py_text repr_of (JStr s) = s"
| "py_text repr_of v = repr_of v"

section \<open>The rate-limit handler\<close>

definition INSTANCE_WIDE_INDICATORS :: "string list" where
  "INSTANCE_WIDE_INDICATORS = [''account'', ''organization'', ''org'', ''api_key'', ''api key'', ''apikey'', ''billing'', ''quota'', ''subscription'']"

definition DEFAULT_COOLDOWN_SECONDS :: pyfloat where
  "DEFAULT_COOLDOWN_SECONDS = Finite 60"

text \<open>\<^verbatim>\<open>v == n\<close> for an integer \<open>n\<close>.\<close>

fun num_eq :: "json \<Rightarrow> int \<Rightarrow> bool" where
  "num_eq (JInt i) n = (i = n)"
| "num_eq (JBool b) n = ((if b then 1 else 0) = n)"
| "num_eq (JFloat (Finite r)) n = (r = of_int n)"
| "num_eq _ n = False"

text \<open>\<^verbatim>\<open>float(v)\<close>: \<open>None\<close> is the \<^verbatim>\<open>ValueError\<close> or \<^verbatim>\<open>TypeError\<close> that the code suppresses.\<close>

fun float_of :: "json \<Rightarrow> pyfloat option" where
  "float_of (JInt i) = Some (Finite (of_int i))"
| "float_of (JBool b) = Some (Finite (if b then 1 else 0))"
| "float_of (JFloat f) = Some f"
| "float_of (JStr s) = py_float s"
| "float_of _ = None"

definition rl_can_handle :: "upstream_error \<Rightarrow> bool" where
  "rl_can_handle e \<longleftrightarrow> is_kind e [IsRateLimitExceededError] \<or> num_eq (attr ''status_code'' e) 429 \<or>
     num_eq (response_attr ''status_code'' e) 429"

fun parse_retry_after_header :: "json \<Rightarrow> pyfloat option" where
  "parse_retry_after_header (JInt i) = Some (Finite (of_int i))"
| "parse_retry_after_header (JBool b) = Some (Finite (if b then 1 else 0))"
| "parse_retry_after_header (JFloat f) = Some f"
| "parse_retry_after_header (JStr s) = py_float s"
| "parse_retry_after_header _ = None"

text \<open>\<^verbatim>\<open>str.isdigit\<close> also accepts the superscript digits of Latin-1.\<close>

definition duration_digit :: "char \<Rightarrow> bool" where
  "duration_digit c \<longleftrightarrow> py_isdigit c \<or> (of_char c :: nat) \<in> {178, 179, 185}"

text \<open>
  The loop over the characters with the text of the current number and the seconds so far. The number consists of
  digits and points, so \<^verbatim>\<open>float\<close> gives a finite value or raises.
\<close>

fun duration_loop :: "string \<Rightarrow> real \<Rightarrow> string \<Rightarrow> real option" where
  "duration_loop cur seconds [] = Some seconds"
| "duration_loop cur seconds (c # s) =
     (if duration_digit c \<or> c = CHR ''.'' then duration_loop (cur @ [c]) seconds s
      else if c = CHR ''h'' \<or> c = CHR ''m'' \<or> c = CHR ''s'' then
        (case py_float cur of
           Some (Finite r) \<Rightarrow>
             duration_loop [] (seconds + r * (if c = CHR ''h'' then 3600 else if c = CHR ''m'' then 60 else 1)) s
         | _ \<Rightarrow> None)
      else duration_loop cur seconds s)"

definition parse_duration_string :: "string \<Rightarrow> pyfloat option" where
  "parse_duration_string d =
     (if py_endswith d ''s'' \<and> \<not> py_contains ''m'' d \<and> \<not> py_contains ''h'' d then py_float (butlast d)
      else (case duration_loop [] 0 d of
          Some r \<Rightarrow> if r > 0 then Some (Finite r) else None
        | None \<Rightarrow> None))"

definition duration_of :: "json \<Rightarrow> pyfloat option" where
  "duration_of v = Option.bind (as_str v) parse_duration_string"

text \<open>One entry of a Google-style list of details.\<close>

definition google_detail :: "json \<Rightarrow> pyfloat option" where
  "google_detail v = (case as_dict v of
     None \<Rightarrow> None
   | Some d \<Rightarrow> first_some [duration_of (dict_get ''retryDelay'' d),
       Option.bind (as_dict (dict_get ''metadata'' d)) (\<lambda>m. duration_of (dict_get ''quotaResetDelay'' m))])"

definition google_details :: "json \<Rightarrow> json list" where
  "google_details details =
     (case details of
        JDict d \<Rightarrow>
          (case as_dict (case map_of d ''error'' of None \<Rightarrow> details | Some v \<Rightarrow> v) of
             Some info \<Rightarrow> (case as_list (dict_get ''details'' info) of Some xs \<Rightarrow> xs | None \<Rightarrow> [])
           | None \<Rightarrow> [])
      | JList xs \<Rightarrow> xs
      | _ \<Rightarrow> [])"

definition reset_at_remaining :: "instant \<Rightarrow> upstream_error \<Rightarrow> pyfloat option" where
  "reset_at_remaining now e =
     (case float_of (attr ''reset_at'' e) of
        None \<Rightarrow> None
      | Some f \<Rightarrow> if float_exceeds (float_minus f (wall now)) 0 then Some (float_minus f (wall now)) else None)"

definition header_value :: "(string \<times> json) list \<Rightarrow> json" where
  "header_value h = (if truthy (dict_get ''retry-after'' h) then dict_get ''retry-after'' h else dict_get ''Retry-After'' h)"

definition extract_retry_after :: "pyfloat \<Rightarrow> instant \<Rightarrow> upstream_error \<Rightarrow> pyfloat" where
  "extract_retry_after default_cooldown now e =
     (let details = (if truthy (attr ''details'' e) then attr ''details'' e else JDict []);
          d = (case as_dict details of None \<Rightarrow> [] | Some d \<Rightarrow> d) in
      case first_some ([reset_at_remaining now e, float_of (dict_get ''retry_after_seconds'' d),
          Option.bind (as_dict (dict_get ''headers'' d)) (\<lambda>h. parse_retry_after_header (header_value h))]
          @ map google_detail (google_details details) @ [float_of (attr ''retry_after'' e)]) of
        Some f \<Rightarrow> f
      | None \<Rightarrow> default_cooldown)"

text \<open>\<^verbatim>\<open>d.get(key, "")\<close>\<close>

definition get_or_empty :: "string \<Rightarrow> (string \<times> json) list \<Rightarrow> json" where
  "get_or_empty k d = (case map_of d k of None \<Rightarrow> JStr [] | Some v \<Rightarrow> v)"

definition message_parts :: "(json \<Rightarrow> string) \<Rightarrow> upstream_error \<Rightarrow> string list" where
  "message_parts repr_of e =
     (if truthy (attr ''message'' e) then [py_text repr_of (attr ''message'' e)] else []) @
     (if truthy (attr ''detail'' e) then
        (case as_dict (attr ''detail'' e) of
           Some d \<Rightarrow> [py_text repr_of (get_or_empty ''message'' d), py_text repr_of (get_or_empty ''error'' d)]
         | None \<Rightarrow> [py_text repr_of (attr ''detail'' e)])
      else []) @
     (if truthy (attr ''details'' e) then
        (case as_dict (attr ''details'' e) of
           Some d \<Rightarrow> [py_text repr_of (get_or_empty ''message'' d), py_text repr_of (get_or_empty ''error'' d)]
         | None \<Rightarrow> [])
      else []) @ [err_text e]"

definition is_instance_wide_limit :: "(json \<Rightarrow> string) \<Rightarrow> upstream_error \<Rightarrow> bool" where
  "is_instance_wide_limit repr_of e \<longleftrightarrow>
     list_ex (\<lambda>w. py_contains w (py_lower (py_join '' '' (message_parts repr_of e)))) INSTANCE_WIDE_INDICATORS"

definition rl_do_handle ::
  "(json \<Rightarrow> string) \<Rightarrow> (pyfloat \<Rightarrow> string) \<Rightarrow> ('ci, 'cm) stores \<Rightarrow> pyfloat \<Rightarrow> instant \<Rightarrow> ErrorContext \<Rightarrow>
   ('ci, 'cm) rate_limits \<Rightarrow> ResilienceAction \<times> ('ci, 'cm) rate_limits" where
  "rl_do_handle repr_of fixed1 S default_cooldown now ctx m =
     (let retry_after = extract_retry_after default_cooldown now (ec_error ctx) in
      if is_instance_wide_limit repr_of (ec_error ctx) then
        ((mk_action COOLDOWN (''Instance-wide rate limit for '' @ fixed1 retry_after @ ''s''))\<lparr>act_duration := retry_after\<rparr>,
         set_instance_cooldown S now (ec_instance_id ctx) retry_after m)
      else
        ((mk_action COOLDOWN (''Model rate limit for '' @ fixed1 retry_after @ ''s''))\<lparr>act_duration := retry_after\<rparr>,
         set_model_cooldown S now (ec_instance_id ctx) (ec_model ctx) retry_after m))"

section \<open>The authentication handler\<close>

text \<open>\<^verbatim>\<open>v in frozenset([401])\<close> raises for a value that cannot be hashed.\<close>

fun unhashable :: "json \<Rightarrow> bool" where
  "unhashable (JList _) = True"
| "unhashable (JDict _) = True"
| "unhashable _ = False"

definition in_auth_codes :: "json \<Rightarrow> handler_exn + bool" where
  "in_auth_codes v = (if unhashable v then Inl PyTypeError else Inr (num_eq v 401))"

definition auth_can_handle :: "upstream_error \<Rightarrow> handler_exn + bool" where
  "auth_can_handle e =
     (if is_kind e [IsAuthenticationError] \<or> py_contains ''To continue, validate'' (err_text e) then Inr True
      else bind_res (in_auth_codes (attr ''status_code'' e)) (\<lambda>b.
        if b then Inr True
        else (case err_response e of None \<Rightarrow> Inr False | Some d \<Rightarrow> in_auth_codes (dict_get ''status_code'' d))))"

text \<open>\<^verbatim>\<open>msg.get("message") or msg.get("error") or str(msg)\<close> may be any truthy value.\<close>

definition dict_message :: "(json \<Rightarrow> string) \<Rightarrow> (string \<times> json) list \<Rightarrow> json" where
  "dict_message repr_of d =
     (if truthy (dict_get ''message'' d) then dict_get ''message'' d
      else if truthy (dict_get ''error'' d) then dict_get ''error'' d
      else JStr (py_text repr_of (JDict d)))"

definition reason_message :: "(json \<Rightarrow> string) \<Rightarrow> upstream_error \<Rightarrow> json" where
  "reason_message repr_of e =
     (let msg = (if truthy (attr ''message'' e) then attr ''message'' e else attr ''detail'' e);
          message = (if \<not> truthy msg then JNull
            else case as_dict msg of Some d \<Rightarrow> dict_message repr_of d | None \<Rightarrow> JStr (py_text repr_of msg)) in
      if truthy message then message else JStr (err_text e))"

text \<open>Only a string can be measured, cut and joined.\<close>

definition build_reason :: "(json \<Rightarrow> string) \<Rightarrow> upstream_error \<Rightarrow> handler_exn + string" where
  "build_reason repr_of e =
     (case as_str (reason_message repr_of e) of
        None \<Rightarrow> Inl PyTypeError
      | Some s \<Rightarrow>
          (let s' = (if length s > 200 then take 197 s @ ''...'' else s) in
           Inr (py_join '' - '' ((if truthy (attr ''status_code'' e) then [''HTTP '' @ py_text repr_of (attr ''status_code'' e)] else []) @ [s']))))"

text \<open>The backends whose authentication failures never disable the instance, with the reason given.\<close>

definition auth_exempt :: "(json \<Rightarrow> string) \<Rightarrow> ErrorContext \<Rightarrow> string option" where
  "auth_exempt repr_of ctx =
     (let backend_type = py_lower (py_text repr_of (get_or_empty ''backend_type'' (ec_extra ctx)));
          instance_id = py_lower (ec_instance_id ctx) in
      if py_contains ''oauth-auto'' backend_type then Some ''OAuth auto backends manage auth failures per account''
      else if py_startswith instance_id ''opencode-go'' then
        Some ''Auth errors for opencode-go do not permanently disable the instance''
      else if dict_get ''is_personal_backend'' (ec_extra ctx) = JBool True \<or> py_contains ''oauth'' backend_type
        \<or> py_contains ''oauth'' instance_id \<or> py_contains ''codex'' instance_id then
        Some ''Auth errors for personal/OAuth backends are not permanently disabled''
      else None)"

definition auth_do_handle ::
  "(json \<Rightarrow> string) \<Rightarrow> ('ci, 'cm) stores \<Rightarrow> instant \<Rightarrow> ErrorContext \<Rightarrow> ('ci, 'cm) rate_limits \<Rightarrow>
   handler_exn + (ResilienceAction \<times> ('ci, 'cm) rate_limits)" where
  "auth_do_handle repr_of S now ctx m =
     (case auth_exempt repr_of ctx of
        Some r \<Rightarrow> Inr (mk_action PROCEED r, m)
      | None \<Rightarrow> bind_res (build_reason repr_of (ec_error ctx)) (\<lambda>r.
          Inr ((mk_action DISABLE_INSTANCE r)\<lparr>act_permanent := True\<rparr>, disable_instance S now (ec_instance_id ctx) r m)))"

section \<open>The chain\<close>

datatype handler = RateLimitErrorHandler pyfloat | AuthErrorHandler

definition no_handler :: "ErrorContext \<Rightarrow> ResilienceAction" where
  "no_handler ctx = mk_action PROCEED (''No handler for '' @ err_name (ec_error ctx))"

fun handle_chain ::
  "(json \<Rightarrow> string) \<Rightarrow> (pyfloat \<Rightarrow> string) \<Rightarrow> ('ci, 'cm) stores \<Rightarrow> instant \<Rightarrow> handler list \<Rightarrow> ErrorContext \<Rightarrow>
   ('ci, 'cm) rate_limits \<Rightarrow> handler_exn + (ResilienceAction \<times> ('ci, 'cm) rate_limits)" where
  "handle_chain repr_of fixed1 S now [] ctx m = Inr (no_handler ctx, m)"
| "handle_chain repr_of fixed1 S now (RateLimitErrorHandler d # hs) ctx m =
     (if rl_can_handle (ec_error ctx) then Inr (rl_do_handle repr_of fixed1 S d now ctx m)
      else handle_chain repr_of fixed1 S now hs ctx m)"
| "handle_chain repr_of fixed1 S now (AuthErrorHandler # hs) ctx m =
     bind_res (auth_can_handle (ec_error ctx)) (\<lambda>b.
       if b then auth_do_handle repr_of S now ctx m else handle_chain repr_of fixed1 S now hs ctx m)"

section \<open>The circuit-breaker handler\<close>

definition TRANSIENT_STATUS_CODES :: "int list" where
  "TRANSIENT_STATUS_CODES = [500, 502, 503, 504]"

definition NON_TRANSIENT_STATUS_CODES :: "int list" where
  "NON_TRANSIENT_STATUS_CODES = [401, 403, 429]"

definition extract_status_code :: "upstream_error \<Rightarrow> int option" where
  "extract_status_code e = first_some [as_int (attr ''status_code'' e), as_int (response_attr ''status_code'' e),
     as_int (dict_get ''status_code'' (dict_attr ''details'' e))]"

definition is_timeout_or_transport_error :: "upstream_error \<Rightarrow> bool" where
  "is_timeout_or_transport_error e \<longleftrightarrow>
     is_kind e [IsAPITimeoutError, IsAPIConnectionError, IsTimeoutError, IsConnectionError, IsHttpxTimeout, IsHttpxTransport]"

definition status_in :: "int list \<Rightarrow> upstream_error \<Rightarrow> bool" where
  "status_in codes e \<longleftrightarrow> (case extract_status_code e of None \<Rightarrow> False | Some c \<Rightarrow> c \<in> set codes)"

definition cb_can_handle :: "upstream_error \<Rightarrow> bool" where
  "cb_can_handle e \<longleftrightarrow> \<not> is_kind e [IsRateLimitExceededError, IsAuthenticationError] \<and>
     \<not> status_in NON_TRANSIENT_STATUS_CODES e \<and>
     (is_timeout_or_transport_error e \<or> status_in TRANSIENT_STATUS_CODES e)"

definition build_failure_reason :: "upstream_error \<Rightarrow> string" where
  "build_failure_reason e =
     (if status_in TRANSIENT_STATUS_CODES e then ''http_'' @ py_str_int (the (extract_status_code e))
      else if is_timeout_or_transport_error e then
        (if is_kind e [IsAPITimeoutError, IsTimeoutError] then ''timeout'' else ''transport_error'')
      else py_lower (err_name e))"

text \<open>\<open>next\<close> is the rest of the chain, when there is one; an exception of it leaves the recorded failure in place.\<close>

definition cb_handle ::
  "CircuitBreakerConfig \<Rightarrow> instant \<Rightarrow> (ErrorContext \<Rightarrow> 'm \<Rightarrow> handler_exn + (ResilienceAction \<times> 'm)) option \<Rightarrow> ErrorContext \<Rightarrow>
   breaker_states \<times> 'm \<Rightarrow> (handler_exn + ResilienceAction) \<times> breaker_states \<times> 'm" where
  "cb_handle cfg now nxt ctx st =
     (let recorded = cb_can_handle (ec_error ctx);
          cb = (if recorded then record_failure cfg (cache_time now) (ec_instance_id ctx) (build_failure_reason (ec_error ctx)) (fst st)
                else fst st);
          fallback = (if recorded then mk_action PROCEED ''circuit_breaker_failure_recorded'' else no_handler ctx) in
      case nxt of
        None \<Rightarrow> (Inr fallback, cb, snd st)
      | Some f \<Rightarrow>
          (case f ctx (snd st) of
             Inl x \<Rightarrow> (Inl x, cb, snd st)
           | Inr (a, m) \<Rightarrow>
               (if act_type a \<noteq> PROCEED \<or> act_reason a \<noteq> [] \<and> \<not> py_startswith (act_reason a) ''No handler for ''
                then (Inr a, cb, m) else (Inr fallback, cb, m))))"

end
