(* ===== verification/Resilience.thy ===== *)
theory Resilience
  imports Error_Handlers
begin

text \<open>
  The resilience coordinator, \<^verbatim>\<open>src/core/services/resilience/coordinator.py\<close>, wired as in
  \<^verbatim>\<open>src/core/di/registrations/_resilience_coordination.py\<close>: the circuit-breaker manager, when there is one, is shared
  with the circuit-breaker handler in front of the error chain. \<open>healthy\<close> is the answer of the endpoint registry
  when health gating is enabled. The breaker and the caches read the same monotonic clock.
\<close>

record ('ci, 'cm) resilience =
  rs_stores :: "('ci, 'cm) stores"
  rs_breaker :: "CircuitBreakerConfig option"
  rs_chain :: "handler list option"
  rs_healthy :: "(string \<Rightarrow> bool) option"
  rs_repr :: "json \<Rightarrow> string"
  rs_fixed1 :: "pyfloat \<Rightarrow> string"

type_synonym ('ci, 'cm) resilience_state = "breaker_states \<times> ('ci, 'cm) rate_limits"

record ResilienceDecision =
  dec_action :: ActionType
  dec_reason :: string
  dec_cooldown_remaining :: "pyfloat option"
  dec_instance_id :: string
  dec_model :: string

definition dec_should_proceed :: "ResilienceDecision \<Rightarrow> bool" where
  "dec_should_proceed d \<longleftrightarrow> dec_action d = PROCEED"

definition reject :: "string \<Rightarrow> pyfloat option \<Rightarrow> string \<Rightarrow> string \<Rightarrow> ResilienceDecision" where
  "reject r c i mdl = \<lparr>dec_action = REJECT, dec_reason = r, dec_cooldown_remaining = c, dec_instance_id = i, dec_model = mdl\<rparr>"

text \<open>The chain that the dependency injection builds.\<close>

definition default_chain :: "handler list" where
  "default_chain = [RateLimitErrorHandler DEFAULT_COOLDOWN_SECONDS, AuthErrorHandler]"

section \<open>Before a call\<close>

definition check_circuit ::
  "CircuitBreakerConfig option \<Rightarrow> instant \<Rightarrow> string \<Rightarrow> breaker_states \<Rightarrow> CircuitBreakerDecision option \<times> breaker_states" where
  "check_circuit cb now i states =
     (case cb of
        None \<Rightarrow> (None, states)
      | Some cfg \<Rightarrow>
          (case check cfg (cache_time now) i states of (d, states') \<Rightarrow>
             (if should_proceed d then None else Some d, states')))"

definition check_limits ::
  "('ci, 'cm) stores \<Rightarrow> instant \<Rightarrow> string \<Rightarrow> string \<Rightarrow> ('ci, 'cm) rate_limits \<Rightarrow> ResilienceDecision \<times> ('ci, 'cm) rate_limits" where
  "check_limits S now i mdl m =
     (case get_instance_status S now i m of (st, m1) \<Rightarrow>
        if st = DISABLED then
          (case check_instance_availability S now i m1 of (r, m2) \<Rightarrow>
             (reject (or_default ''Instance disabled'' (Some (availability_reason r))) None i mdl, m2))
        else if st = RATE_LIMITED then
          (case check_instance_availability S now i m1 of (r, m2) \<Rightarrow>
             (reject ''Instance rate limited (all models)'' (availability_cooldown r) i mdl, m2))
        else
          (case check_model_availability S now i mdl m1 of (r, m2) \<Rightarrow>
             (if \<not> available r
              then (reject (or_default (''Model '' @ mdl @ '' rate limited'') (Some (availability_reason r))) (availability_cooldown r) i mdl, m2)
              else (\<lparr>dec_action = PROCEED, dec_reason = [], dec_cooldown_remaining = None, dec_instance_id = i, dec_model = mdl\<rparr>, m2))))"

definition check_availability ::
  "('ci, 'cm) resilience \<Rightarrow> instant \<Rightarrow> string \<Rightarrow> string \<Rightarrow> ('ci, 'cm) resilience_state \<Rightarrow> ResilienceDecision \<times> ('ci, 'cm) resilience_state" where
  "check_availability R now i mdl st =
     (if (case rs_healthy R of None \<Rightarrow> False | Some h \<Rightarrow> \<not> h (py_before (CHR '':'') i))
      then (reject ''endpoint_unhealthy'' None i mdl, st)
      else (case check_circuit (rs_breaker R) now i (fst st) of
          (Some d, cb) \<Rightarrow> (reject (decision_reason d) (map_option Finite (cooldown_remaining d)) i mdl, cb, snd st)
        | (None, cb) \<Rightarrow>
            (case check_limits (rs_stores R) now i mdl (snd st) of (d, m) \<Rightarrow> (d, cb, m))))"

definition try_acquire_circuit_breaker_probe ::
  "('ci, 'cm) resilience \<Rightarrow> instant \<Rightarrow> string \<Rightarrow> ('ci, 'cm) resilience_state \<Rightarrow> bool \<times> ('ci, 'cm) resilience_state" where
  "try_acquire_circuit_breaker_probe R now i st =
     (case rs_breaker R of
        None \<Rightarrow> (True, st)
      | Some cfg \<Rightarrow> (case try_acquire_half_open_probe cfg (cache_time now) i (fst st) of (b, cb) \<Rightarrow> (b, cb, snd st)))"

definition release_circuit_breaker_probe ::
  "('ci, 'cm) resilience \<Rightarrow> string \<Rightarrow> ('ci, 'cm) resilience_state \<Rightarrow> ('ci, 'cm) resilience_state" where
  "release_circuit_breaker_probe R i st =
     (case rs_breaker R of None \<Rightarrow> st | Some cfg \<Rightarrow> (release_half_open_probe cfg i (fst st), snd st))"

section \<open>After a call\<close>

definition note_success ::
  "('ci, 'cm) resilience \<Rightarrow> instant \<Rightarrow> string \<Rightarrow> string \<Rightarrow> ('ci, 'cm) resilience_state \<Rightarrow> ('ci, 'cm) resilience_state" where
  "note_success R now i mdl st =
     (case rs_breaker R of None \<Rightarrow> fst st | Some cfg \<Rightarrow> record_success cfg i (fst st),
      clear_cooldown (rs_stores R) now i (Some mdl) (snd st))"

text \<open>The handler at the front of the chain on the whole state.\<close>

definition run_chain ::
  "('ci, 'cm) resilience \<Rightarrow> instant \<Rightarrow> handler list \<Rightarrow> ErrorContext \<Rightarrow> ('ci, 'cm) resilience_state \<Rightarrow>
   (handler_exn + ResilienceAction) \<times> ('ci, 'cm) resilience_state" where
  "run_chain R now hs ctx st =
     (let rest = handle_chain (rs_repr R) (rs_fixed1 R) (rs_stores R) now hs in
      case rs_breaker R of
        Some cfg \<Rightarrow> cb_handle cfg now (if hs = [] then None else Some rest) ctx st
      | None \<Rightarrow>
          (case rest ctx (snd st) of
             Inl x \<Rightarrow> (Inl x, st)
           | Inr (a, m) \<Rightarrow> (Inr a, fst st, m)))"

definition unhandled :: "upstream_error \<Rightarrow> ResilienceAction" where
  "unhandled e = mk_action PROCEED (''Unhandled error: '' @ err_name e)"

definition note_failure ::
  "('ci, 'cm) resilience \<Rightarrow> instant \<Rightarrow> string \<Rightarrow> string \<Rightarrow> upstream_error \<Rightarrow> ('ci, 'cm) resilience_state \<Rightarrow>
   (handler_exn + ResilienceAction) \<times> ('ci, 'cm) resilience_state" where
  "note_failure R now i mdl e st =
     (let ctx = \<lparr>ec_instance_id = i, ec_model = mdl, ec_error = e, ec_extra = dict_attr ''__resilience_context__'' e\<rparr>;
          c = classify e in
      if cls_code c = ''unsupported_on_instance'' then
        (Inr (mk_action PROCEED ''unsupported_on_instance''),
         fst st, mark_model_unsupported (rs_stores R) now i mdl (cls_reason c) (snd st))
      else (case rs_chain R of
          None \<Rightarrow> (Inr (unhandled e), st)
        | Some hs \<Rightarrow>
            (case run_chain R now hs ctx st of
               (Inr a, st') \<Rightarrow> (Inr (if act_type a \<noteq> PROCEED \<or> act_reason a \<noteq> [] then a else unhandled e), st')
             | (Inl x, st') \<Rightarrow> (Inl x, st'))))"

end
