(* ===== verification/Rate_Limit_Theorems.thy ===== *)
theory Rate_Limit_Theorems
  imports Rate_Limit_State Keyed_Machine
begin

text \<open>
  Correctness of the rate-limit state manager under the laws of its caches: the availability checks agree with one
  specification and are invisible, disabled and cooling instances stay refused over every trace that does not
  lift the restriction, and clearing the unsupported models of an instance clears them all.
\<close>

section \<open>What the manager stores\<close>

text \<open>The sizes and the time to live that the constructor chooses.\<close>

definition stores_ok :: "('ci, 'cm) stores \<Rightarrow> bool" where
  "stores_ok S \<longleftrightarrow> ttl_cache_laws (icache S) 1000 3600 \<and> ttl_cache_laws (mcache S) 10000 3600"

definition instance_at :: "('ci, 'cm) stores \<Rightarrow> real \<Rightarrow> ('ci, 'cm) rate_limits \<Rightarrow> string \<Rightarrow> InstanceState option" where
  "instance_at S t m i = cpeek (icache S) t i (instance_state m)"

definition model_at :: "('ci, 'cm) stores \<Rightarrow> real \<Rightarrow> ('ci, 'cm) rate_limits \<Rightarrow> string \<times> string \<Rightarrow> ModelState option" where
  "model_at S t m k = cpeek (mcache S) t k (model_state m)"

lemma stores_okD: "stores_ok S \<Longrightarrow> ttl_cache_laws (icache S) 1000 3600" "stores_ok S \<Longrightarrow> ttl_cache_laws (mcache S) 10000 3600"
  by (simp_all add: stores_ok_def)

lemmas icache_laws = peek_set [OF stores_okD(1)] peek_pop [OF stores_okD(1)] peek_touch [OF stores_okD(1)] peek_mut [OF stores_okD(1)]
lemmas mcache_laws = peek_set [OF stores_okD(2)] peek_pop [OF stores_okD(2)] peek_touch [OF stores_okD(2)] peek_mut [OF stores_okD(2)]

text \<open>The effect of the store operations on what is found later.\<close>

lemma fst_get [simp]:
  "fst (get_instance S now i m) = instance_at S (cache_time now) m i"
  "fst (get_model S now k m) = model_at S (cache_time now) m k"
  by (simp_all add: get_instance_def get_model_def instance_at_def model_at_def)

lemma instance_at_simps [simp]:
  "stores_ok S \<Longrightarrow> instance_at S t (snd (get_instance S now k m)) i = instance_at S t m i"
  "instance_at S t (snd (get_model S now p m)) i = instance_at S t m i"
  "instance_at S t (set_model S now p x m) i = instance_at S t m i"
  "instance_at S t (pop_model S now p m) i = instance_at S t m i"
  "instance_at S t (m\<lparr>model_state := c\<rparr>) i = instance_at S t m i"
  "stores_ok S \<Longrightarrow> cache_time now \<le> t \<Longrightarrow>
    instance_at S t (pop_instance S now k m) i = (if i = k then None else instance_at S t m i)"
  "stores_ok S \<Longrightarrow> cache_time now \<le> t \<Longrightarrow>
    instance_at S t (set_instance S now i s m) i = (if t < cache_time now + 3600 then Some s else None)"
  by (simp_all add: instance_at_def manager_defs icache_laws)

lemma model_at_simps [simp]:
  "stores_ok S \<Longrightarrow> model_at S t (snd (get_model S now k m)) p = model_at S t m p"
  "model_at S t (snd (get_instance S now i m)) p = model_at S t m p"
  "model_at S t (set_instance S now i x m) p = model_at S t m p"
  "model_at S t (pop_instance S now i m) p = model_at S t m p"
  "model_at S t (m\<lparr>instance_state := c\<rparr>) p = model_at S t m p"
  "stores_ok S \<Longrightarrow> cache_time now \<le> t \<Longrightarrow>
    model_at S t (pop_model S now k m) p = (if p = k then None else model_at S t m p)"
  "stores_ok S \<Longrightarrow> cache_time now \<le> t \<Longrightarrow>
    model_at S t (set_model S now k s m) k = (if t < cache_time now + 3600 then Some s else None)"
  by (simp_all add: model_at_def manager_defs mcache_laws)

lemma get_pair:
  "get_instance S now i m = (instance_at S (cache_time now) m i, snd (get_instance S now i m))"
  "get_model S now k m = (model_at S (cache_time now) m k, snd (get_model S now k m))"
  by (simp_all add: prod_eq_iff)

section \<open>Specification\<close>

datatype verdict = Free | Disabled string | InstanceLimited pyfloat | Unsupported string | ModelLimited pyfloat

definition instance_verdict :: "instant \<Rightarrow> InstanceState option \<Rightarrow> verdict" where
  "instance_verdict now e = (case e of None \<Rightarrow> Free
     | Some s \<Rightarrow> if status s = DISABLED then Disabled (or_default ''unknown'' (disabled_reason s))
         else if status s = RATE_LIMITED \<and> cooling now (cooldown_until s)
         then InstanceLimited (float_minus (the (cooldown_until s)) (wall now)) else Free)"

definition model_verdict :: "instant \<Rightarrow> ModelState option \<Rightarrow> verdict" where
  "model_verdict now e = (case e of None \<Rightarrow> Free
     | Some s \<Rightarrow> if unsupported_permanent s then Unsupported (or_default ''unknown reason'' (unsupported_reason s))
         else (case model_cooldown_until s of None \<Rightarrow> Free
           | Some u \<Rightarrow> if float_reached u (wall now) then Free else ModelLimited (max_zero (float_minus u (wall now)))))"

text \<open>The verdict on an instance takes precedence over the verdict on a model.\<close>

definition verdict :: "('ci, 'cm) stores \<Rightarrow> instant \<Rightarrow> string \<Rightarrow> string \<Rightarrow> ('ci, 'cm) rate_limits \<Rightarrow> verdict" where
  "verdict S now i mdl m =
     (case instance_verdict now (instance_at S (cache_time now) m i) of
        Free \<Rightarrow> model_verdict now (model_at S (cache_time now) m (i, mdl))
      | v \<Rightarrow> v)"

fun result_of :: "string \<Rightarrow> string \<Rightarrow> verdict \<Rightarrow> AvailabilityResult" where
  "result_of i mdl Free = is_available"
| "result_of i mdl (Disabled r) = unavailable (''Instance disabled: '' @ r) None"
| "result_of i mdl (InstanceLimited s) = unavailable ''Instance rate limited'' (Some s)"
| "result_of i mdl (Unsupported r) = unavailable (''Model '' @ mdl @ '' permanently unsupported on '' @ i @ '': '' @ r) None"
| "result_of i mdl (ModelLimited s) = unavailable (''Model '' @ mdl @ '' rate limited on '' @ i) (Some s)"

lemma available_simps [simp]: "available is_available" "\<not> available (unavailable r c)"
  by (simp_all add: is_available_def unavailable_def)

lemma available_result_of [simp]: "available (result_of i mdl v) \<longleftrightarrow> v = Free"
  by (cases v) simp_all

fun verdict_status :: "verdict \<Rightarrow> InstanceStatus" where
  "verdict_status (Disabled r) = DISABLED"
| "verdict_status (InstanceLimited s) = RATE_LIMITED"
| "verdict_status _ = ACTIVE"

section \<open>The checks\<close>

lemma instance_verdict_cases: "instance_verdict now e = Free \<or> (\<exists>r. instance_verdict now e = Disabled r) \<or> (\<exists>s. instance_verdict now e = InstanceLimited s)"
  by (simp add: instance_verdict_def split: option.splits)

lemma status_check:
  "fst (get_instance_status S now i m) = verdict_status (instance_verdict now (instance_at S (cache_time now) m i))"
  unfolding get_instance_status_def
  by (subst get_pair(1)) (auto simp: instance_verdict_def split: option.splits InstanceStatus.splits)

text \<open>An entry may disappear from a store when it has nothing to say from now on.\<close>

definition later :: "instant \<Rightarrow> instant \<Rightarrow> bool" where
  "later now t \<longleftrightarrow> wall now \<le> wall t \<and> cache_time now \<le> cache_time t"

definition harmless :: "('ci, 'cm) stores \<Rightarrow> instant \<Rightarrow> ('ci, 'cm) rate_limits \<Rightarrow> ('ci, 'cm) rate_limits \<Rightarrow> bool" where
  "harmless S now m m' \<longleftrightarrow> (\<forall>t. later now t \<longrightarrow>
     (\<forall>i. instance_verdict t (instance_at S (cache_time t) m' i) = instance_verdict t (instance_at S (cache_time t) m i)) \<and>
     (\<forall>p. model_verdict t (model_at S (cache_time t) m' p) = model_verdict t (model_at S (cache_time t) m p)))"

lemma harmless_refl [simp, intro]: "harmless S now m m"
  by (simp add: harmless_def)

lemma harmless_trans [trans]: "harmless S now m1 m2 \<Longrightarrow> harmless S now m2 m3 \<Longrightarrow> harmless S now m1 m3"
  by (simp add: harmless_def)

lemma harmless_verdict: "harmless S now m m' \<Longrightarrow> later now t \<Longrightarrow> verdict S t i mdl m' = verdict S t i mdl m"
  by (simp add: harmless_def verdict_def split: verdict.split)

lemma later_refl [simp]: "later now now"
  by (simp add: later_def)

lemma harmless_get [simp]: "stores_ok S \<Longrightarrow> harmless S now m (snd (get_instance S now i m))"
  "stores_ok S \<Longrightarrow> harmless S now m (snd (get_model S now k m))"
  by (simp_all add: harmless_def)

lemma not_cooling_later: "\<not> cooling now c \<Longrightarrow> later now t \<Longrightarrow> \<not> cooling t c"
  by (auto simp: cooling_def later_def split: option.splits dest: float_exceeds_mono)

lemma peek_instance_later:
  "stores_ok S \<Longrightarrow> later now t \<Longrightarrow> instance_at S (cache_time t) m i = None \<or>
    instance_at S (cache_time t) m i = instance_at S (cache_time now) m i"
  unfolding instance_at_def later_def using peek_later [OF stores_okD(1)] by metis

lemma peek_model_later:
  "stores_ok S \<Longrightarrow> later now t \<Longrightarrow> model_at S (cache_time t) m k = None \<or>
    model_at S (cache_time t) m k = model_at S (cache_time now) m k"
  unfolding model_at_def later_def using peek_later [OF stores_okD(2)] by metis

lemma harmless_pop_instance:
  assumes "stores_ok S" "instance_at S (cache_time now) m i = Some s" "status s = RATE_LIMITED" "\<not> cooling now (cooldown_until s)"
  shows "harmless S now m (pop_instance S now i m)"
proof -
  have "instance_verdict t (instance_at S (cache_time t) m i) = Free" if "later now t" for t
    using peek_instance_later [OF assms(1) that, of m i] not_cooling_later [OF assms(4) that] assms(2,3)
    by (auto simp: instance_verdict_def)
  moreover have "instance_verdict t None = Free" for t by (simp add: instance_verdict_def)
  ultimately show ?thesis using assms(1) by (auto simp: harmless_def later_def)
qed

lemma harmless_pop_model:
  assumes "stores_ok S" "model_at S (cache_time now) m k = Some s" "\<not> unsupported_permanent s"
    "model_cooldown_until s = Some u" "float_reached u (wall now)"
  shows "harmless S now m (pop_model S now k m)"
proof -
  have "model_verdict t (model_at S (cache_time t) m k) = Free" if "later now t" for t
    using peek_model_later [OF assms(1) that, of m k] assms(2-5) that
    by (auto simp: model_verdict_def later_def dest: float_reached_mono)
  moreover have "model_verdict t None = Free" for t by (simp add: model_verdict_def)
  ultimately show ?thesis using assms(1) by (auto simp: harmless_def later_def)
qed

lemma harmless_status: "stores_ok S \<Longrightarrow> harmless S now m (snd (get_instance_status S now i m))"
  unfolding get_instance_status_def
  by (subst get_pair(1))
    (auto split: option.splits intro: harmless_trans [OF harmless_get(1) harmless_pop_instance])

lemma status_kept:
  assumes "stores_ok S" "fst (get_instance_status S now i m) \<noteq> ACTIVE"
  shows "instance_at S t (snd (get_instance_status S now i m)) i = instance_at S t m i"
  using assms unfolding get_instance_status_def
  by (subst (asm) get_pair(1), subst get_pair(1)) (auto split: option.splits if_splits)

lemma check_instance_result:
  assumes "stores_ok S"
  shows "fst (check_instance_availability S now i m) = result_of i mdl (instance_verdict now (instance_at S (cache_time now) m i)) \<and>
    harmless S now m (snd (check_instance_availability S now i m))"
proof (cases "fst (get_instance_status S now i m) = ACTIVE")
  case True
  then have "instance_verdict now (instance_at S (cache_time now) m i) = Free"
    using instance_verdict_cases [of now "instance_at S (cache_time now) m i"] by (auto simp: status_check)
  with True harmless_status [OF assms, of now m i] show ?thesis
    by (simp add: check_instance_availability_def split_beta)
next
  case False
  note k = status_kept [OF assms False]
  obtain s where s: "instance_at S (cache_time now) m i = Some s"
    using False by (cases "instance_at S (cache_time now) m i") (auto simp: status_check instance_verdict_def)
  have h: "harmless S now m (snd (get_instance S now i (snd (get_instance_status S now i m))))"
    by (rule harmless_trans [OF harmless_status [OF assms] harmless_get(1) [OF assms]])
  show ?thesis
    using False s k h unfolding check_instance_availability_def split_beta fst_get
    by (auto simp: status_check instance_verdict_def cooling_def split: option.splits if_splits)
qed

lemma check_model_result:
  assumes "stores_ok S"
  shows "fst (check_model_availability S now i mdl m) = result_of i mdl (verdict S now i mdl m) \<and>
    harmless S now m (snd (check_model_availability S now i mdl m))"
proof -
  define m1 where "m1 = snd (check_instance_availability S now i m)"
  note c = check_instance_result [OF assms, of now i m mdl]
  show ?thesis
  proof (cases "instance_verdict now (instance_at S (cache_time now) m i) = Free")
    case False
    then show ?thesis using c
      by (auto simp: check_model_availability_def verdict_def split_beta split: verdict.splits)
  next
    case True
    have h: "harmless S now m m1" using c by (simp add: m1_def)
    then have v: "verdict S now i mdl m = model_verdict now (model_at S (cache_time now) m1 (i, mdl))"
      using True by (simp add: verdict_def harmless_def)
    have g: "harmless S now m (snd (get_model S now (i, mdl) m1))"
      by (rule harmless_trans [OF h harmless_get(2) [OF assms]])
    have p: "harmless S now m (pop_model S now (i, mdl) (snd (get_model S now (i, mdl) m1)))"
      if "model_at S (cache_time now) m1 (i, mdl) = Some s" "\<not> unsupported_permanent s"
        "model_cooldown_until s = Some u" "float_reached u (wall now)" for s u
      using that assms by (intro harmless_trans [OF g harmless_pop_model]) simp_all
    show ?thesis
      using c True g p
      by (auto simp: check_model_availability_def split_beta v m1_def [symmetric] model_verdict_def
          drop_expired_cooldown_def split: option.split)
  qed
qed

lemma is_model_available_result:
  assumes "stores_ok S"
  shows "fst (is_model_available S now i mdl m) = (verdict S now i mdl m = Free) \<and>
    harmless S now m (snd (is_model_available S now i mdl m))"
proof -
  define m1 where "m1 = snd (get_instance_status S now i m)"
  have h: "harmless S now m m1" unfolding m1_def by (rule harmless_status [OF assms])
  have g: "harmless S now m (snd (get_model S now (i, mdl) m1))"
    by (rule harmless_trans [OF h harmless_get(2) [OF assms]])
  have p: "harmless S now m (pop_model S now (i, mdl) (snd (get_model S now (i, mdl) m1)))"
    if "model_at S (cache_time now) m1 (i, mdl) = Some s" "\<not> unsupported_permanent s"
      "model_cooldown_until s = Some u" "float_reached u (wall now)" for s u
    using that assms by (intro harmless_trans [OF g harmless_pop_model]) simp_all
  have v: "verdict S now i mdl m = (case instance_verdict now (instance_at S (cache_time now) m1 i) of
      Free \<Rightarrow> model_verdict now (model_at S (cache_time now) m1 (i, mdl)) | w \<Rightarrow> w)"
    using harmless_verdict [OF h later_refl, of i mdl] by (simp add: verdict_def)
  have s: "fst (get_instance_status S now i m) = verdict_status (instance_verdict now (instance_at S (cache_time now) m1 i))"
    using h by (simp add: status_check harmless_def)
  show ?thesis
    using g p h instance_verdict_cases [of now "instance_at S (cache_time now) m1 i"]
    by (auto simp: is_model_available_def is_instance_available_def split_beta v s m1_def [symmetric]
        model_verdict_def drop_expired_cooldown_def split: option.split if_splits)
qed

lemma cooldown_remaining_result:
  assumes "stores_ok S"
  shows "harmless S now m (snd (get_cooldown_remaining S now i x m))"
  using harmless_get(1) [OF assms, of now m i]
    harmless_trans [OF harmless_get(1) [OF assms, of now m i] harmless_get(2) [OF assms]]
  by (simp add: get_cooldown_remaining_def split_beta split: option.split)

section \<open>Traces\<close>

datatype limit_event =
    GetStatus string | CheckInstance string | CheckModel string string | IsModelAvailable string string
  | Remaining string "string option" | InstanceCooldown string pyfloat | Disable string string | Reactivate string
  | ModelCooldown string string pyfloat | MarkUnsupported string string string | ClearUnsupported string string
  | ClearUnsupportedFor string | ClearCooldown string "string option"

fun limit_step :: "('ci, 'cm) stores \<Rightarrow> instant \<Rightarrow> limit_event \<Rightarrow> ('ci, 'cm) rate_limits \<Rightarrow> ('ci, 'cm) rate_limits" where
  "limit_step S now (GetStatus i) m = snd (get_instance_status S now i m)"
| "limit_step S now (CheckInstance i) m = snd (check_instance_availability S now i m)"
| "limit_step S now (CheckModel i x) m = snd (check_model_availability S now i x m)"
| "limit_step S now (IsModelAvailable i x) m = snd (is_model_available S now i x m)"
| "limit_step S now (Remaining i x) m = snd (get_cooldown_remaining S now i x m)"
| "limit_step S now (InstanceCooldown i d) m = set_instance_cooldown S now i d m"
| "limit_step S now (Disable i r) m = disable_instance S now i r m"
| "limit_step S now (Reactivate i) m = snd (reactivate_instance S now i m)"
| "limit_step S now (ModelCooldown i x d) m = set_model_cooldown S now i x d m"
| "limit_step S now (MarkUnsupported i x r) m = mark_model_unsupported S now i x r m"
| "limit_step S now (ClearUnsupported i x) m = snd (clear_model_unsupported S now i x m)"
| "limit_step S now (ClearUnsupportedFor i) m = snd (clear_unsupported_for_instance S now i m)"
| "limit_step S now (ClearCooldown i x) m = clear_cooldown S now i x m"

fun event_target :: "limit_event \<Rightarrow> string" where
  "event_target (GetStatus i) = i"
| "event_target (CheckInstance i) = i"
| "event_target (CheckModel i x) = i"
| "event_target (IsModelAvailable i x) = i"
| "event_target (Remaining i x) = i"
| "event_target (InstanceCooldown i d) = i"
| "event_target (Disable i r) = i"
| "event_target (Reactivate i) = i"
| "event_target (ModelCooldown i x d) = i"
| "event_target (MarkUnsupported i x r) = i"
| "event_target (ClearUnsupported i x) = i"
| "event_target (ClearUnsupportedFor i) = i"
| "event_target (ClearCooldown i x) = i"

fun run_limits :: "('ci, 'cm) stores \<Rightarrow> (instant \<times> limit_event) list \<Rightarrow> ('ci, 'cm) rate_limits \<Rightarrow> ('ci, 'cm) rate_limits" where
  "run_limits S [] m = m"
| "run_limits S ((now, e) # es) m = run_limits S es (limit_step S now e m)"

text \<open>A trace that starts at one instant, ends at another and never goes back in time.\<close>

fun chrono :: "instant \<Rightarrow> (instant \<times> 'e) list \<Rightarrow> instant \<Rightarrow> bool" where
  "chrono a [] b \<longleftrightarrow> later a b"
| "chrono a ((t, e) # es) b \<longleftrightarrow> later a t \<and> chrono t es b"

text \<open>The checks only remove the entry of a cooldown that is over.\<close>

definition pruned :: "('ci, 'cm) stores \<Rightarrow> instant \<Rightarrow> string \<Rightarrow> ('ci, 'cm) rate_limits \<Rightarrow> string \<Rightarrow> bool" where
  "pruned S now k m i \<longleftrightarrow> i = k \<and> (\<exists>s. instance_at S (cache_time now) m i = Some s \<and>
     status s = RATE_LIMITED \<and> \<not> cooling now (cooldown_until s))"

lemma instance_at_status:
  assumes "stores_ok S" "cache_time now \<le> t"
  shows "instance_at S t (snd (get_instance_status S now k m)) i = (if pruned S now k m i then None else instance_at S t m i)"
  using assms unfolding get_instance_status_def
  by (subst get_pair(1)) (auto simp: pruned_def split: option.splits)

lemma instance_at_checks:
  assumes "stores_ok S" "cache_time now \<le> t"
  shows "instance_at S t (snd (check_instance_availability S now k m)) i = (if pruned S now k m i then None else instance_at S t m i)"
    and "instance_at S t (snd (check_model_availability S now k x m)) i = (if pruned S now k m i then None else instance_at S t m i)"
    and "instance_at S t (snd (is_model_available S now k x m)) i = (if pruned S now k m i then None else instance_at S t m i)"
proof -
  show c: "instance_at S t (snd (check_instance_availability S now k m)) i = (if pruned S now k m i then None else instance_at S t m i)"
    using instance_at_status [OF assms, of k m i] assms(1)
    by (auto simp: check_instance_availability_def split_beta split: option.split)
  then show "instance_at S t (snd (check_model_availability S now k x m)) i = (if pruned S now k m i then None else instance_at S t m i)"
    by (auto simp: check_model_availability_def split_beta drop_expired_cooldown_def split: option.split)
  show "instance_at S t (snd (is_model_available S now k x m)) i = (if pruned S now k m i then None else instance_at S t m i)"
    using instance_at_status [OF assms, of k m i]
    by (auto simp: is_model_available_def is_instance_available_def split_beta drop_expired_cooldown_def split: option.split)
qed

lemma instance_at_model_ops:
  assumes "stores_ok S"
  shows "instance_at S t (snd (get_cooldown_remaining S now k y m)) i = instance_at S t m i"
    and "instance_at S t (set_model_cooldown S now k x d m) i = instance_at S t m i"
    and "instance_at S t (mark_model_unsupported S now k x r m) i = instance_at S t m i"
    and "instance_at S t (snd (clear_model_unsupported S now k x m)) i = instance_at S t m i"
  using assms
  by (auto simp: get_cooldown_remaining_def set_model_cooldown_def mark_model_unsupported_def clear_model_unsupported_def
      split_beta split: option.split)

lemma instance_at_clear_items:
  "stores_ok S \<Longrightarrow> instance_at S t (snd (clear_unsupported_items S now k items m)) i = instance_at S t m i"
proof (induction items arbitrary: m)
  case (Cons x items)
  then show ?case by (cases x) (auto simp: instance_at_model_ops split_beta)
qed simp

section \<open>Restrictions that stay\<close>

text \<open>While all instances that are ever named fit into the store, no entry is evicted for room.\<close>

definition live_within :: "('ci, 'cm) stores \<Rightarrow> string set \<Rightarrow> instant \<Rightarrow> ('ci, 'cm) rate_limits \<Rightarrow> bool" where
  "live_within S I now m \<longleftrightarrow> finite I \<and> card I \<le> 1000 \<and> (\<forall>t k s. instance_at S t m k = Some s \<longrightarrow> cache_time now \<le> t \<longrightarrow> k \<in> I)"

lemma set_instance_room:
  assumes "stores_ok S" "live_within S I now m" "k \<in> I" "i \<noteq> k" "cache_time now \<le> t"
  shows "instance_at S t (set_instance S now k s m) i = instance_at S t m i"
proof -
  have "keys_within (icache S) 1000 I (cache_time now) (instance_state m)"
    using assms(2) by (auto simp: keys_within_def live_within_def instance_at_def)
  from peek_set_within [OF stores_okD(1) [OF assms(1)] this assms(3-5)] show ?thesis
    by (simp add: instance_at_def set_instance_def)
qed

lemma set_instance_live:
  assumes "stores_ok S" "live_within S I now m" "k \<in> I"
  shows "live_within S I now (set_instance S now k s m)"
  unfolding live_within_def
proof (intro conjI allI impI)
  fix t j x assume "instance_at S t (set_instance S now k s m) j = Some x" "cache_time now \<le> t"
  then show "j \<in> I"
    using assms(2,3) set_instance_room [OF assms, of j t s] by (cases "j = k") (auto simp: live_within_def)
qed (use assms(2) in \<open>auto simp: live_within_def\<close>)

text \<open>What an event does to the entry of an instance: nothing, or it belongs to that instance.\<close>

lemma clear_cooldown_instance:
  assumes "stores_ok S"
  shows "instance_at S t (clear_cooldown S now k y m) i =
    (if i = k \<and> (y = None \<or> y = Some []) \<and> (\<exists>s. instance_at S (cache_time now) m i = Some s \<and> status s = RATE_LIMITED)
     then map_option (\<lambda>s. s\<lparr>status := ACTIVE, cooldown_until := None\<rparr>) (instance_at S t m i) else instance_at S t m i)"
proof -
  have mut: "instance_at S t (m'\<lparr>instance_state := cmut (icache S) k f (instance_state m')\<rparr>) j =
      (if j = k then map_option f (instance_at S t m' j) else instance_at S t m' j)" for m' f j
    using icache_laws(4) [OF assms] by (simp add: instance_at_def)
  have inst: "instance_at S t (case get_instance S now k m of (None, m1) \<Rightarrow> m1
      | (Some s, m1) \<Rightarrow> if status s = RATE_LIMITED
          then m1\<lparr>instance_state := cmut (icache S) k (\<lambda>s. s\<lparr>status := ACTIVE, cooldown_until := None\<rparr>) (instance_state m1)\<rparr> else m1) i =
    (if i = k \<and> (\<exists>s. instance_at S (cache_time now) m i = Some s \<and> status s = RATE_LIMITED)
     then map_option (\<lambda>s. s\<lparr>status := ACTIVE, cooldown_until := None\<rparr>) (instance_at S t m i) else instance_at S t m i)"
    using assms by (subst get_pair(1)) (auto simp: mut split: option.split)
  consider "y = None \<or> y = Some []" | x xs where "y = Some (x # xs)" by (metis list.exhaust option.exhaust)
  then show ?thesis
  proof cases
    case 1
    then have "clear_cooldown S now k y m = clear_cooldown S now k None m" by (auto simp: clear_cooldown_def)
    with 1 inst show ?thesis unfolding clear_cooldown_def option.case by simp
  qed (simp add: clear_cooldown_def)
qed

lemma live_within_mono:
  assumes "live_within S I now m"
    and "\<And>t k s. cache_time now \<le> t \<Longrightarrow> instance_at S t m' k = Some s \<Longrightarrow> \<exists>s'. instance_at S t m k = Some s'"
  shows "live_within S I now m'"
  using assms unfolding live_within_def by blast

lemma limit_step_live:
  assumes "stores_ok S" "live_within S I now m" "event_target e \<in> I"
  shows "live_within S I now (limit_step S now e m)"
proof (cases e)
  case (ClearCooldown k y)
  then show ?thesis using assms
    by (auto intro!: live_within_mono [OF assms(2)] simp: clear_cooldown_instance split: if_splits)
next
  case (Disable k r)
  then show ?thesis using assms set_instance_live [OF assms(1,2)] by (simp add: disable_instance_def)
next
  case (Reactivate k)
  have "live_within S I now (snd (get_instance S now k m))" using assms by (simp add: live_within_def)
  with Reactivate show ?thesis using assms set_instance_live [OF assms(1)]
    by (auto simp: reactivate_instance_def split_beta split: option.split)
next
  case (InstanceCooldown k d)
  have "live_within S I now (snd (get_instance S now k m))" using assms by (simp add: live_within_def)
  with InstanceCooldown show ?thesis using assms set_instance_live [OF assms(1)]
    by (auto simp: set_instance_cooldown_def split_beta)
qed (use assms in \<open>auto intro!: live_within_mono [OF assms(2)] simp: instance_at_status instance_at_checks instance_at_model_ops
    instance_at_clear_items clear_unsupported_for_instance_def split: if_splits\<close>)

definition blocked ::
  "('ci, 'cm) stores \<Rightarrow> (InstanceState \<Rightarrow> bool) \<Rightarrow> real \<Rightarrow> instant \<Rightarrow> ('ci, 'cm) rate_limits \<Rightarrow> string \<Rightarrow> bool" where
  "blocked S Q T now m i \<longleftrightarrow> (\<forall>t. cache_time now \<le> t \<longrightarrow> t < T \<longrightarrow> (\<exists>s. instance_at S t m i = Some s \<and> Q s))"

text \<open>An event that leaves every entry with \<open>Q\<close> of the instance in place, or replaces it by another one.\<close>

definition upholds :: "(InstanceState \<Rightarrow> bool) \<Rightarrow> instant \<Rightarrow> string \<Rightarrow> limit_event \<Rightarrow> bool" where
  "upholds Q now i e \<longleftrightarrow>
     (\<forall>s. Q s \<longrightarrow> status s = RATE_LIMITED \<longrightarrow> cooling now (cooldown_until s)) \<and>
     (\<forall>r. Q ((mk_instance_state DISABLED)\<lparr>disabled_reason := Some r, disabled_at := Some (wall now)\<rparr>)) \<and>
     e \<noteq> Reactivate i \<and>
     (\<forall>d. e = InstanceCooldown i d \<longrightarrow> (\<forall>s. Q s \<longrightarrow> status s = DISABLED) \<or>
       Q ((mk_instance_state RATE_LIMITED)\<lparr>cooldown_until := Some (float_plus (wall now) d)\<rparr>)) \<and>
     (\<forall>y s. e = ClearCooldown i y \<longrightarrow> y = None \<or> y = Some [] \<longrightarrow> Q s \<longrightarrow> status s \<noteq> RATE_LIMITED)"

lemma blocked_same: "blocked S Q T now m i \<Longrightarrow> (\<And>t. cache_time now \<le> t \<Longrightarrow> instance_at S t m' i = instance_at S t m i) \<Longrightarrow> blocked S Q T now m' i"
  by (simp add: blocked_def)

lemma blocked_set:
  assumes "stores_ok S" "live_within S I now m" "k \<in> I" "blocked S Q T now m i" "T \<le> cache_time now + 3600" "k = i \<Longrightarrow> Q s"
  shows "blocked S Q T now (set_instance S now k s m) i"
  using assms set_instance_room [OF assms(1-3), of i] by (cases "k = i") (auto simp: blocked_def)

lemma blocked_step:
  assumes ok: "stores_ok S" and l: "live_within S I now m" and k: "event_target e \<in> I"
    and T: "cache_time now < T" "T \<le> cache_time now + 3600"
    and b: "blocked S Q T now m i" and u: "upholds Q now i e"
  shows "blocked S Q T now (limit_step S now e m) i"
proof -
  obtain s where s: "instance_at S (cache_time now) m i = Some s" "Q s"
    using b T(1) unfolding blocked_def by blast
  have np: "\<not> pruned S now j m i" for j using s u by (auto simp: pruned_def upholds_def)
  have g: "blocked S Q T now (snd (get_instance S now j m)) i" "live_within S I now (snd (get_instance S now j m))" for j
    using ok b l by (simp_all add: blocked_def live_within_def)
  note set = blocked_set [OF ok g(2) _ g(1) T(2)]
  show ?thesis
  proof (cases e)
    case (ClearCooldown j y)
    then show ?thesis using b s u ok
      by (intro blocked_same [OF b]) (auto simp: clear_cooldown_instance upholds_def)
  next
    case (Disable j r)
    then show ?thesis using k u
      by (auto intro!: blocked_set [OF ok l _ b T(2)] simp: upholds_def disable_instance_def)
  next
    case (Reactivate j)
    then show ?thesis using k u g by (auto simp: reactivate_instance_def split_beta upholds_def split: option.split intro!: set)
  next
    case (InstanceCooldown j d)
    then show ?thesis using k u g s by (auto simp: set_instance_cooldown_def split_beta upholds_def intro!: set)
  qed (use ok np in \<open>auto intro!: blocked_same [OF b] simp: instance_at_status instance_at_checks instance_at_model_ops
      instance_at_clear_items clear_unsupported_for_instance_def\<close>)
qed

lemma chrono_later: "chrono a es b \<Longrightarrow> later a b"
  by (induction a es b rule: chrono.induct) (auto simp: later_def)

lemma chrono_before: "chrono a es b \<Longrightarrow> x \<in> set es \<Longrightarrow> later (fst x) b"
  by (induction a es b rule: chrono.induct) (auto dest: chrono_later)

lemma live_later: "live_within S I a m \<Longrightarrow> later a b \<Longrightarrow> live_within S I b m"
  unfolding live_within_def later_def by (meson order_trans)

lemma blocked_later: "blocked S Q T a m i \<Longrightarrow> later a b \<Longrightarrow> blocked S Q T b m i"
  unfolding blocked_def later_def by (meson order_trans)

lemma blocked_run:
  assumes "stores_ok S" "chrono a es b" "cache_time b < T" "T \<le> cache_time a + 3600" "live_within S I a m" "blocked S Q T a m i"
    and "\<forall>x \<in> set es. event_target (snd x) \<in> I \<and> upholds Q (fst x) i (snd x)"
  shows "blocked S Q T b (run_limits S es m) i"
  using assms(2-)
proof (induction es arbitrary: a m)
  case Nil
  then show ?case by (auto intro: blocked_later)
next
  case (Cons x es)
  obtain t e where x: "x = (t, e)" by fastforce
  have l: "later a t" "later t b" using Cons.prems(1) chrono_later [of t es b] by (simp_all add: x)
  have T: "cache_time t < T" "T \<le> cache_time t + 3600" using Cons.prems(2,3) l by (simp_all add: later_def)
  note live = live_later [OF Cons.prems(4) l(1)]
  have e: "event_target e \<in> I" "upholds Q t i e" using Cons.prems(6) by (simp_all add: x)
  have "blocked S Q T t (limit_step S t e m) i"
    by (rule blocked_step [OF assms(1) live e(1) T blocked_later [OF Cons.prems(5) l(1)] e(2)])
  with Cons.prems show ?case
    by (auto simp: x intro!: Cons.IH [OF _ _ T(2) limit_step_live [OF assms(1) live e(1)]])
qed

section \<open>Clearing unsupported models\<close>

definition cleared :: "ModelState \<Rightarrow> ModelState" where
  "cleared s = s\<lparr>unsupported_permanent := False, unsupported_reason := None, unsupported_at := None\<rparr>"

text \<open>What is found at a later time for a pair that was unsupported when it was cleared.\<close>

definition found_cleared :: "instant \<Rightarrow> real \<Rightarrow> ModelState \<Rightarrow> ModelState option" where
  "found_cleared now t s =
     (if model_cooldown_until s = None \<and> retry_count s = 0 \<or> cache_time now + 3600 \<le> t then None else Some (cleared s))"

lemma set_model_live:
  assumes "stores_ok S" "model_at S (cache_time now) m k = Some s0" "cache_time now \<le> t" "p \<noteq> k"
  shows "model_at S t (set_model S now k s m) p = model_at S t m p"
  using peek_set_room [OF stores_okD(2) [OF assms(1)] assms(3,4)] assms(2) by (simp add: model_at_def set_model_def)

lemma clear_model_unsupported_result:
  assumes "stores_ok S" "model_at S (cache_time now) m (i, x) = Some s" "unsupported_permanent s"
  shows "fst (clear_model_unsupported S now i x m)" and "cache_time now \<le> t \<Longrightarrow>
    model_at S t (snd (clear_model_unsupported S now i x m)) p = (if p = (i, x) then found_cleared now t s else model_at S t m p)"
proof -
  define m1 where "m1 = snd (get_model S now (i, x) m)"
  have g: "get_model S now (i, x) m = (Some s, m1)" using get_pair(2) [of S now "(i, x)" m] assms(2) by (simp add: m1_def)
  show "fst (clear_model_unsupported S now i x m)" using assms(3) by (simp add: clear_model_unsupported_def g)
  have m1: "model_at S t m1 q = model_at S t m q" for t q using assms(1) by (simp add: m1_def)
  show "model_at S t (snd (clear_model_unsupported S now i x m)) p = (if p = (i, x) then found_cleared now t s else model_at S t m p)"
    if t: "cache_time now \<le> t"
    using assms m1 t set_model_live [OF assms(1), of now m1 "(i, x)" s t p]
    by (cases "p = (i, x)") (auto simp: clear_model_unsupported_def g found_cleared_def cleared_def)
qed

lemma clear_items_result:
  assumes "stores_ok S" "distinct (map fst items)" "\<forall>y \<in> set items. model_at S (cache_time now) m (fst y) = Some (snd y)"
  shows "fst (clear_unsupported_items S now i items m) =
      int (length (filter (\<lambda>y. fst (fst y) = i \<and> unsupported_permanent (snd y)) items))" (is ?n)
    and "\<forall>t p. cache_time now \<le> t \<longrightarrow> model_at S t (snd (clear_unsupported_items S now i items m)) p =
      (case map_of items p of
         Some s \<Rightarrow> if fst p = i \<and> unsupported_permanent s then found_cleared now t s else model_at S t m p
       | None \<Rightarrow> model_at S t m p)" (is ?p)
proof -
  have "?n \<and> ?p"
    using assms(2,3)
  proof (induction items arbitrary: m)
    case (Cons y items)
    obtain c x s where y: "y = ((c, x), s)" by (metis prod.exhaust)
    show ?case
    proof (cases "c = i \<and> unsupported_permanent s")
      case False
      have n: "map_of items (c, x) = None" using Cons.prems(1) by (simp add: y map_of_eq_None_iff)
      from False Cons show ?thesis by (auto simp: y n split: option.split)
    next
      case True
      define m1 where "m1 = snd (clear_model_unsupported S now i x m)"
      have s: "model_at S (cache_time now) m (i, x) = Some s" using Cons.prems(2) True by (simp add: y)
      note r = clear_model_unsupported_result [OF assms(1) s conjunct2 [OF True]]
      have "model_at S (cache_time now) m1 (fst z) = Some (snd z)" if "z \<in> set items" for z
        using that Cons.prems r(2) [of "cache_time now" "fst z"] True by (force simp: y m1_def)
      then have a: "\<forall>z \<in> set items. model_at S (cache_time now) m1 (fst z) = Some (snd z)" by blast
      have d: "distinct (map fst items)" using Cons.prems(1) by simp
      note IH = conjunct1 [OF Cons.IH [OF d a]] conjunct2 [OF Cons.IH [OF d a], rule_format]
      have "clear_unsupported_items S now i (y # items) m =
          (fst (clear_unsupported_items S now i items m1) + 1, snd (clear_unsupported_items S now i items m1))"
        using True r(1) by (simp add: y m1_def split_beta)
      moreover have "map_of items (i, x) = None" using Cons.prems(1) True by (simp add: y map_of_eq_None_iff)
      ultimately show ?thesis using IH r(2) True by (auto simp: y m1_def split: option.split)
    qed
  qed simp
  then show ?n ?p by blast+
qed

lemma count_by_key:
  assumes "distinct (map fst items)"
  shows "length (filter (\<lambda>y. fst (fst y) = i \<and> P (snd y)) items) = card {x. \<exists>s. ((i, x), s) \<in> set items \<and> P s}"
proof -
  let ?f = "filter (\<lambda>y. fst (fst y) = i \<and> P (snd y)) items"
  have inj: "inj_on (\<lambda>y. snd (fst y)) (set ?f)"
  proof (rule inj_onI)
    fix y z assume yz: "y \<in> set ?f" "z \<in> set ?f" "snd (fst y) = snd (fst z)"
    then have "fst y = fst z" by (simp add: prod_eq_iff)
    moreover have "inj_on fst (set items)" using assms by (simp add: distinct_map)
    ultimately show "y = z" using yz by (simp add: inj_on_eq_iff)
  qed
  have "distinct ?f" using assms by (simp add: distinct_map)
  then have "length ?f = card (set ?f)" by (rule distinct_card [symmetric])
  then have "length ?f = card ((\<lambda>y. snd (fst y)) ` set ?f)" by (simp only: card_image [OF inj])
  moreover have "(\<lambda>y. snd (fst y)) ` set ?f = {x. \<exists>s. ((i, x), s) \<in> set items \<and> P s}"
  proof (intro set_eqI iffI)
    fix x assume "x \<in> {x. \<exists>s. ((i, x), s) \<in> set items \<and> P s}"
    then obtain s where "((i, x), s) \<in> set ?f" by auto
    then show "x \<in> (\<lambda>y. snd (fst y)) ` set ?f" by (rule rev_image_eqI) simp
  qed auto
  ultimately show ?thesis by simp
qed

section \<open>Properties\<close>

text \<open>
  One notion of availability: the two availability checks of a model and the check of its instance all follow the
  same verdict, in which the instance takes precedence over the model, with the reason and the remaining time it names.
\<close>

lemma availability_checks_agree:
  assumes "stores_ok S"
  shows "fst (check_model_availability S now i mdl m) = result_of i mdl (verdict S now i mdl m) \<and>
    fst (is_model_available S now i mdl m) = available (fst (check_model_availability S now i mdl m)) \<and>
    fst (is_instance_available S now i m) = available (fst (check_instance_availability S now i m)) \<and>
    (\<not> available (fst (check_instance_availability S now i m)) \<longrightarrow>
      fst (check_model_availability S now i mdl m) = fst (check_instance_availability S now i m))"
proof -
  note c = check_model_result [OF assms, of now i mdl m] is_model_available_result [OF assms, of now i mdl m]
    check_instance_result [OF assms, of now i m mdl]
  have "fst (is_instance_available S now i m) \<longleftrightarrow> instance_verdict now (instance_at S (cache_time now) m i) = Free"
    using instance_verdict_cases [of now "instance_at S (cache_time now) m i"]
    by (auto simp: is_instance_available_def split_beta status_check)
  with c show ?thesis by (auto simp: verdict_def split: verdict.splits)
qed

text \<open>
  Checks only observe: none of the availability checks changes the verdict on any instance and model at any later
  time, although they remove entries whose cooldown is over.
\<close>

lemma availability_checks_invisible:
  assumes "stores_ok S" "later now t"
    and "e \<in> {GetStatus k, CheckInstance k, CheckModel k x, IsModelAvailable k x, Remaining k y}"
  shows "verdict S t i mdl (limit_step S now e m) = verdict S t i mdl m"
  using assms harmless_status [OF assms(1)] check_instance_result [OF assms(1)] check_model_result [OF assms(1)]
    is_model_available_result [OF assms(1)] cooldown_remaining_result [OF assms(1)]
  by (elim insertE emptyE) (auto intro: harmless_verdict [OF _ assms(2)])

lemma disabled_stays:
  assumes "stores_ok S" "chrono a es b" "cache_time b < cache_time a + 3600" "live_within S I a m" "i \<in> I"
    and "\<forall>x \<in> set es. event_target (snd x) \<in> I \<and> snd x \<noteq> Reactivate i"
  shows "\<exists>r'. verdict S b i mdl (run_limits S es (disable_instance S a i r m)) = Disabled r'"
proof -
  let ?Q = "\<lambda>s. status s = DISABLED"
  have "blocked S ?Q (cache_time a + 3600) a (disable_instance S a i r m) i"
    using assms(1) by (simp add: blocked_def disable_instance_def mk_instance_state_def)
  moreover have "live_within S I a (disable_instance S a i r m)"
    unfolding disable_instance_def by (rule set_instance_live [OF assms(1,4,5)])
  moreover have "\<forall>x \<in> set es. event_target (snd x) \<in> I \<and> upholds ?Q (fst x) i (snd x)"
    using assms(6) by (auto simp: upholds_def mk_instance_state_def)
  ultimately have "blocked S ?Q (cache_time a + 3600) b (run_limits S es (disable_instance S a i r m)) i"
    using blocked_run [OF assms(1,2,3) order_refl] by blast
  then obtain s where "instance_at S (cache_time b) (run_limits S es (disable_instance S a i r m)) i = Some s" "status s = DISABLED"
    using assms(3) by (auto simp: blocked_def)
  then have "verdict S b i mdl (run_limits S es (disable_instance S a i r m)) = Disabled (or_default ''unknown'' (disabled_reason s))"
    by (simp add: verdict_def instance_verdict_def)
  then show ?thesis by blast
qed

text \<open>
  A disabled instance stays refused: for an hour after it was disabled, whatever happens to this and to other
  instances, rate limits and cleared cooldowns included, every request for it is refused as disabled, unless it
  is reactivated by hand; provided that the store has room for all instances that are named.
\<close>

lemma disabled_instance_stays_refused:
  assumes "stores_ok S" "chrono a es b" "cache_time b < cache_time a + 3600" "live_within S I a m" "i \<in> I"
    and "\<forall>x \<in> set es. event_target (snd x) \<in> I \<and> snd x \<noteq> Reactivate i"
  shows "\<exists>r'. fst (check_model_availability S b i mdl (run_limits S es (disable_instance S a i r m))) =
    unavailable (''Instance disabled: '' @ r') None"
  using disabled_stays [OF assms, of mdl r] check_model_result [OF assms(1), of b i mdl] by auto

text \<open>
  Cooldowns are honoured: after an instance that was not disabled was rate limited, every request for any of its models is refused until
  the cooldown is over (or the hour for which the store remembers), unless a later rate limit shortens it or it is
  cleared or reactivated by hand; provided that the store has room for all instances that are named.
\<close>

lemma instance_cooldown_honoured:
  assumes "stores_ok S" "chrono a es b" "cache_time b < cache_time a + 3600" "live_within S I a m" "i \<in> I"
    and "fst (get_instance_status S a i m) \<noteq> DISABLED" "0 \<le> wall a" "float_exceeds (float_plus (wall a) d) (wall b)"
    and "\<forall>x \<in> set es. event_target (snd x) \<in> I \<and> snd x \<noteq> Reactivate i \<and>
      snd x \<noteq> ClearCooldown i None \<and> snd x \<noteq> ClearCooldown i (Some []) \<and>
      (\<forall>d'. snd x = InstanceCooldown i d' \<longrightarrow> float_exceeds (float_plus (wall (fst x)) d') (wall b))"
  shows "\<not> available (fst (check_model_availability S b i mdl (run_limits S es (set_instance_cooldown S a i d m))))"
proof -
  let ?Q = "\<lambda>s. status s = DISABLED \<or> status s = RATE_LIMITED \<and> (\<exists>v. cooldown_until s = Some v \<and> float_exceeds v (wall b))"
  have nonneg: "0 \<le> wall b" using chrono_later [OF assms(2)] assms(7) by (simp add: later_def)
  let ?s = "(mk_instance_state RATE_LIMITED)\<lparr>cooldown_until := Some (float_plus (wall a) d)\<rparr>"
  let ?m = "set_instance_cooldown S a i d m"
  have start: "?m = set_instance S a i ?s (snd (get_instance S a i m))"
    using assms(6) by (auto simp: set_instance_cooldown_def split_beta status_check instance_verdict_def split: option.split)
  have "blocked S ?Q (cache_time a + 3600) a ?m i"
    using assms(1,8) by (simp add: start blocked_def mk_instance_state_def)
  moreover have "live_within S I a (snd (get_instance S a i m))" using assms(1,4) by (simp add: live_within_def)
  then have "live_within S I a ?m" unfolding start by (rule set_instance_live [OF assms(1) _ assms(5)])
  moreover have "\<forall>x \<in> set es. event_target (snd x) \<in> I \<and> upholds ?Q (fst x) i (snd x)"
  proof
    fix x assume x: "x \<in> set es"
    have "wall (fst x) \<le> wall b" using chrono_before [OF assms(2) x] by (simp add: later_def)
    with nonneg assms(9) x show "event_target (snd x) \<in> I \<and> upholds ?Q (fst x) i (snd x)"
      by (auto simp: upholds_def cooling_def mk_instance_state_def elim: float_exceeds_mono)
  qed
  ultimately have "blocked S ?Q (cache_time a + 3600) b (run_limits S es ?m) i"
    using blocked_run [OF assms(1,2,3) order_refl] by blast
  then obtain s where "instance_at S (cache_time b) (run_limits S es ?m) i = Some s" "?Q s"
    using assms(3) by (auto simp: blocked_def)
  then have "verdict S b i mdl (run_limits S es ?m) \<noteq> Free"
    using nonneg by (auto simp: verdict_def instance_verdict_def cooling_def)
  then show ?thesis using check_model_result [OF assms(1)] by simp
qed

text \<open>
  Clearing the unsupported models of an instance: the result counts the pairs of the instance that were marked, each of
  them is afterwards gone or without its mark, and nothing else in the store changes at any later time.
\<close>

lemma clear_unsupported_exact:
  assumes "stores_ok S" "cache_time now \<le> t"
  shows "fst (clear_unsupported_for_instance S now i m) = int (card {x. \<exists>s. model_at S (cache_time now) m (i, x) = Some s \<and> unsupported_permanent s}) \<and>
    model_at S t (snd (clear_unsupported_for_instance S now i m)) p =
      (case model_at S (cache_time now) m p of
         Some s \<Rightarrow> if fst p = i \<and> unsupported_permanent s then found_cleared now t s else model_at S t m p
       | None \<Rightarrow> model_at S t m p)"
proof -
  let ?items = "citems (mcache S) (cache_time now) (model_state m)"
  have iff: "(k, s) \<in> set ?items \<longleftrightarrow> model_at S (cache_time now) m k = Some s" for k s
    using items_iff [OF stores_okD(2) [OF assms(1)]] by (simp add: model_at_def)
  have d: "distinct (map fst ?items)" by (rule items_distinct [OF stores_okD(2) [OF assms(1)]])
  have "map_of ?items p = model_at S (cache_time now) m p"
  proof (cases "model_at S (cache_time now) m p")
    case None
    then show ?thesis using iff by (force simp: map_of_eq_None_iff)
  qed (use iff d in auto)
  moreover have all: "\<forall>y \<in> set ?items. model_at S (cache_time now) m (fst y) = Some (snd y)" using iff by auto
  moreover have "length (filter (\<lambda>y. fst (fst y) = i \<and> unsupported_permanent (snd y)) ?items) =
      card {x. \<exists>s. model_at S (cache_time now) m (i, x) = Some s \<and> unsupported_permanent s}"
    using count_by_key [OF d, of i unsupported_permanent] iff by simp
  ultimately show ?thesis
    using clear_items_result(1) [OF assms(1) d all, of i] clear_items_result(2) [OF assms(1) d all, rule_format, OF assms(2), of i p]
    by (simp add: clear_unsupported_for_instance_def)
qed

text \<open>
  A disabled instance comes back by itself: an hour after it was disabled, with nothing else happening, the store has
  forgotten it and requests are admitted again.
\<close>

lemma disabled_instance_returns:
  assumes "stores_ok S" "cache_time a + 3600 \<le> cache_time b"
  shows "fst (get_instance_status S b i (disable_instance S a i r m)) = ACTIVE"
  using assms by (simp add: status_check instance_verdict_def disable_instance_def)

end
