(* ===== verification/Breaker_Theorems.thy ===== *)
theory Breaker_Theorems
  imports Circuit_Breaker
begin

text \<open>
  Correctness of the circuit breaker: the manager refines one circuit per instance, its counters stay within
  the configured limits, an open circuit refuses every request until its cooldown has passed, enough failures
  in a row open a circuit and enough successful probes close it again.
\<close>

section \<open>Refinement\<close>

lemma breakers_ok_upd: "breakers_ok states \<Longrightarrow> breaker_ok s \<Longrightarrow> breakers_ok (states(i \<mapsto> s))"
  by (auto simp: breakers_ok_def)

lemma breakers_ok_del: "breakers_ok states \<Longrightarrow> breakers_ok (states(i := None))"
  by (auto simp: breakers_ok_def)

lemma breakers_okD: "breakers_ok states \<Longrightarrow> states i = Some s \<Longrightarrow> breaker_ok s"
  by (auto simp: breakers_ok_def)

lemma wake_ok: "breaker_ok s \<Longrightarrow> wake now s = Some s' \<Longrightarrow> breaker_ok s'"
  by (auto simp: wake_def breaker_ok_def transition_to_half_open_def split: if_splits option.splits)

lemma wake_spec:
  assumes "breaker_ok s"
  shows "(case wake now s of None \<Rightarrow> \<exists>t. circuit_of s = Open t \<and> open_until s = Some t \<and> now < t
    | Some s' \<Rightarrow> circuit_of s' = spec_wake now (circuit_of s) \<and> cb_mode s' \<noteq> STATE_OPEN)"
  using assms
  by (auto simp: wake_def breaker_ok_def transition_to_half_open_def split: option.splits breaker_mode.splits)

lemma open_ok: "breaker_ok (transition_to_open cfg now s)"
  by (simp add: breaker_ok_def transition_to_open_def)

lemma closed_ok: "breaker_ok (transition_to_closed s)"
  by (simp add: breaker_ok_def transition_to_closed_def)

text \<open>An operation on one instance brings its circuit to a given state and leaves the others alone.\<close>

definition brings :: "breaker_states \<Rightarrow> string \<Rightarrow> breaker_states \<Rightarrow> circuit \<Rightarrow> bool" where
  "brings states i states' c \<longleftrightarrow> breakers_ok states' \<and> circuit_view states' i = c \<and>
     (\<forall>k. k \<noteq> i \<longrightarrow> circuit_view states' k = circuit_view states k)"

lemma brings_upd: "breakers_ok states \<Longrightarrow> breaker_ok s \<Longrightarrow> circuit_of s = c \<Longrightarrow> brings states i (states(i \<mapsto> s)) c"
  by (auto simp: brings_def circuit_view_def intro: breakers_ok_upd)

lemma brings_same: "breakers_ok states \<Longrightarrow> circuit_view states i = c \<Longrightarrow> brings states i states c"
  by (simp add: brings_def)

lemma brings_evict:
  assumes "breakers_ok states" "breaker_ok s" "circuit_of s = c"
  shows "brings states i (evict_if_pristine i s (states(i \<mapsto> s))) c"
proof (cases "pristine s")
  case True
  then have "c = Closed 0" using assms(3) by (auto simp: pristine_def)
  with True breakers_ok_del [OF assms(1), of i] show ?thesis
    by (simp add: brings_def evict_if_pristine_def circuit_view_def)
next
  case False
  with brings_upd [OF assms] show ?thesis by (simp add: evict_if_pristine_def)
qed

lemma view_cases:
  assumes "breakers_ok states"
  obtains "states i = None" "circuit_view states i = Closed 0"
  | s where "states i = Some s" "breaker_ok s" "circuit_view states i = circuit_of s"
  using assms by (cases "states i") (auto simp: circuit_view_def breakers_ok_def)

lemma check_refines:
  assumes "breakers_ok states" "enabled cfg"
  shows "fst (check cfg now i states) = spec_check cfg now (spec_wake now (circuit_view states i)) \<and>
    brings states i (snd (check cfg now i states)) (spec_wake now (circuit_view states i))"
proof (rule view_cases [OF assms(1), of i])
  assume "states i = None" "circuit_view states i = Closed 0"
  then show ?thesis using assms by (simp add: check_def brings_same)
next
  fix s assume s: "states i = Some s" "breaker_ok s" "circuit_view states i = circuit_of s"
  show ?thesis
  proof (cases "wake now s")
    case None
    with wake_spec [OF s(2), of now] obtain t where "circuit_of s = Open t" "open_until s = Some t" "now < t" by auto
    with None s assms show ?thesis by (auto simp: check_def brings_same simp del: circuit_of.simps)
  next
    case (Some s')
    with wake_spec [OF s(2), of now] have w: "spec_wake now (circuit_of s) = circuit_of s'" "cb_mode s' \<noteq> STATE_OPEN"
      by (auto simp del: circuit_of.simps)
    have "brings states i (states(i \<mapsto> s')) (circuit_of s')"
      by (rule brings_upd [OF assms(1) wake_ok [OF s(2) Some] refl])
    with Some s w assms show ?thesis by (cases "cb_mode s'") (auto simp: check_def)
  qed
qed

lemma acquire_refines:
  assumes "breakers_ok states" "enabled cfg"
  shows "fst (try_acquire_half_open_probe cfg now i states) = fst (spec_acquire cfg (spec_wake now (circuit_view states i))) \<and>
    brings states i (snd (try_acquire_half_open_probe cfg now i states)) (snd (spec_acquire cfg (spec_wake now (circuit_view states i))))"
proof (rule view_cases [OF assms(1), of i])
  assume "states i = None" "circuit_view states i = Closed 0"
  then show ?thesis using assms by (simp add: try_acquire_half_open_probe_def brings_same)
next
  fix s assume s: "states i = Some s" "breaker_ok s" "circuit_view states i = circuit_of s"
  show ?thesis
  proof (cases "wake now s")
    case None
    with wake_spec [OF s(2), of now] obtain t where "circuit_of s = Open t" "now < t" by auto
    with None s assms show ?thesis by (auto simp: try_acquire_half_open_probe_def brings_same simp del: circuit_of.simps)
  next
    case (Some s')
    with wake_spec [OF s(2), of now] have w: "spec_wake now (circuit_of s) = circuit_of s'" "cb_mode s' \<noteq> STATE_OPEN"
      by (auto simp del: circuit_of.simps)
    note ok = wake_ok [OF s(2) Some]
    have b: "brings states i (states(i \<mapsto> s')) (circuit_of s')"
      "cb_mode s' = STATE_HALF_OPEN \<Longrightarrow> brings states i (states(i \<mapsto> s'\<lparr>half_open_inflight := half_open_inflight s' + 1\<rparr>))
        (HalfOpen (half_open_inflight s' + 1) (half_open_successes s'))"
      using ok by (auto intro!: brings_upd [OF assms(1)] simp: breaker_ok_def)
    with Some s w assms show ?thesis by (cases "cb_mode s'") (auto simp: try_acquire_half_open_probe_def)
  qed
qed

lemma release_refines:
  assumes "breakers_ok states" "enabled cfg"
  shows "brings states i (release_half_open_probe cfg i states) (spec_release (circuit_view states i))"
  using assms
  by (rule_tac view_cases [OF assms(1), of i])
    (auto simp: release_half_open_probe_def breaker_ok_def split: breaker_mode.splits
      intro!: brings_upd [OF assms(1)] brings_same [OF assms(1)])

lemma failure_refines:
  assumes "breakers_ok states" "enabled cfg"
  shows "brings states i (record_failure cfg now i r states) (spec_failure cfg now (circuit_view states i))"
  using assms
  by (rule_tac view_cases [OF assms(1), of i])
    (auto simp: record_failure_def breaker_ok_def fresh_breaker_def transition_to_open_def Let_def
      split: breaker_mode.splits intro!: brings_upd [OF assms(1)])

lemma success_refines:
  assumes "breakers_ok states" "enabled cfg"
  shows "brings states i (record_success cfg i states) (spec_success cfg (circuit_view states i))"
proof (rule view_cases [OF assms(1), of i])
  assume "states i = None" "circuit_view states i = Closed 0"
  then show ?thesis using assms by (simp add: record_success_def brings_same)
next
  fix s assume s: "states i = Some s" "breaker_ok s" "circuit_view states i = circuit_of s"
  show ?thesis
  proof (cases "cb_mode s")
    case STATE_HALF_OPEN
    then show ?thesis
      using s assms(2)
      by (auto simp: record_success_def Let_def transition_to_closed_def breaker_ok_def
          intro!: brings_evict [OF assms(1)] brings_upd [OF assms(1)])
  next
    case STATE_CLOSED
    then show ?thesis
      using s assms(2) by (auto simp: record_success_def Let_def breaker_ok_def intro!: brings_evict [OF assms(1)])
  next
    case STATE_OPEN
    then show ?thesis using s assms by (simp add: record_success_def brings_same)
  qed
qed

lemma breaker_step_refines:
  assumes "breakers_ok states"
  shows "fst (circuit_step cfg t e (circuit_view states (event_instance e))) = fst (breaker_step cfg t e states) \<and>
    brings states (event_instance e) (snd (breaker_step cfg t e states))
      (snd (circuit_step cfg t e (circuit_view states (event_instance e))))"
proof (cases "enabled cfg")
  case True
  then show ?thesis
    using check_refines [OF assms True] acquire_refines [OF assms True] release_refines [OF assms True]
      failure_refines [OF assms True] success_refines [OF assms True]
    by (cases e) simp_all
next
  case False
  then show ?thesis
    using assms
    by (cases e) (simp_all add: check_def try_acquire_half_open_probe_def release_half_open_probe_def
        record_failure_def record_success_def brings_same)
qed

interpretation cb: keyed_machine "breaker_step cfg" breakers_ok event_instance circuit_view "circuit_step cfg" for cfg
proof
  fix s t e assume ok: "breakers_ok s"
  note r = breaker_step_refines [OF ok, of cfg t e]
  show "breakers_ok (snd (breaker_step cfg t e s))" using r by (simp add: brings_def)
  show "circuit_step cfg t e (circuit_view s (event_instance e)) =
      (fst (breaker_step cfg t e s), circuit_view (snd (breaker_step cfg t e s)) (event_instance e))"
    using r by (simp add: brings_def prod_eq_iff)
  show "circuit_view (snd (breaker_step cfg t e s)) k = circuit_view s k" if "k \<noteq> event_instance e" for k
    using r that by (simp add: brings_def)
qed

section \<open>One circuit\<close>

fun circuit_ok :: "CircuitBreakerConfig \<Rightarrow> circuit \<Rightarrow> bool" where
  "circuit_ok cfg (Closed n) \<longleftrightarrow> 0 \<le> n \<and> n < failure_threshold cfg"
| "circuit_ok cfg (Open t) \<longleftrightarrow> True"
| "circuit_ok cfg (HalfOpen i s) \<longleftrightarrow>
     0 \<le> i \<and> i \<le> half_open_max_inflight cfg \<and> 0 \<le> s \<and> s < half_open_success_threshold cfg"

lemma circuit_invariant: "config_ok cfg \<Longrightarrow> machine_invariant (circuit_step cfg) (circuit_ok cfg)"
proof
  fix s t e assume "config_ok cfg" "circuit_ok cfg s"
  then show "circuit_ok cfg (snd (circuit_step cfg t e s))"
    by (cases e; cases s) (auto simp: config_ok_def)
qed

text \<open>An answer that lets no request through.\<close>

fun refused :: "breaker_answer \<Rightarrow> bool" where
  "refused (Decision d) \<longleftrightarrow> \<not> should_proceed d"
| "refused (Acquired b) \<longleftrightarrow> \<not> b"
| "refused Done \<longleftrightarrow> True"

lemma open_circuit_run:
  assumes "enabled cfg" "t0 + open_cooldown_seconds cfg \<le> u"
    and "\<forall>x \<in> set es. t0 \<le> fst x \<and> fst x < t0 + open_cooldown_seconds cfg"
  shows "list_all refused (fst (run_machine (circuit_step cfg) (Open u) es)) \<and>
    (\<exists>v. snd (run_machine (circuit_step cfg) (Open u) es) = Open v \<and> t0 + open_cooldown_seconds cfg \<le> v)"
  using assms(2,3)
proof (induction es arbitrary: u)
  case (Cons x es)
  obtain t e where x: "x = (t, e)" by fastforce
  with Cons.prems have t: "t0 \<le> t" "t < u" by auto
  show ?case
  proof (cases "\<exists>i r. e = Failure i r")
    case True
    with Cons.IH [of "t + open_cooldown_seconds cfg"] Cons.prems t assms(1) show ?thesis by (auto simp: x)
  next
    case False
    then have "\<exists>a. circuit_step cfg t e (Open u) = (a, Open u) \<and> refused a"
      using t assms(1) by (cases e) (auto simp: decide_def)
    with Cons.IH [of u] Cons.prems show ?thesis by (auto simp: x)
  qed
qed simp

lemma failure_run:
  assumes "enabled cfg" "\<forall>x \<in> set es. \<exists>r. snd x = Failure i r" "0 \<le> n" "n < failure_threshold cfg"
  shows "snd (run_machine (circuit_step cfg) (Closed n) es) =
    (if n + int (length es) < failure_threshold cfg then Closed (n + int (length es))
     else Open (fst (last es) + open_cooldown_seconds cfg))"
  using assms(2)
proof (induction es rule: rev_induct)
  case Nil
  then show ?case using assms(4) by simp
next
  case (snoc x es)
  obtain t r where x: "x = (t, Failure i r)" using snoc.prems by (cases x) auto
  show ?case using snoc assms(1) by (auto simp: run_machine_append x)
qed

definition probe_rounds :: "string \<Rightarrow> real list \<Rightarrow> (real \<times> breaker_event) list" where
  "probe_rounds i ts = concat (map (\<lambda>t. [(t, TryAcquire i), (t, Success i)]) ts)"

lemma probe_rounds_run:
  assumes "enabled cfg" "config_ok cfg" "0 \<le> s" "s + int (length ts) = half_open_success_threshold cfg" "ts \<noteq> []"
  shows "run_machine (circuit_step cfg) (HalfOpen 0 s) (probe_rounds i ts) =
    (concat (map (\<lambda>t. [Acquired True, Done]) ts), Closed 0)"
  using assms(3-5)
proof (induction ts arbitrary: s)
  case (Cons t ts)
  have m: "1 \<le> half_open_max_inflight cfg" using assms(2) by (simp add: config_ok_def)
  show ?case
  proof (cases "ts = []")
    case True
    with Cons.prems m assms(1) show ?thesis by (simp add: probe_rounds_def)
  next
    case False
    then have "0 < int (length ts)" by simp
    with Cons.prems(2) have "\<not> half_open_success_threshold cfg \<le> s + 1"
      by (simp only: length_Cons of_nat_Suc)
    with Cons.IH [of "s + 1"] Cons.prems m assms(1) False show ?thesis by (simp add: probe_rounds_def)
  qed
qed simp

lemma probe_rounds_wake:
  assumes "enabled cfg" "u \<le> hd ts" "ts \<noteq> []"
  shows "run_machine (circuit_step cfg) (Open u) (probe_rounds i ts) =
    run_machine (circuit_step cfg) (HalfOpen 0 0) (probe_rounds i ts)"
  using assms by (cases ts) (auto simp: probe_rounds_def)

lemma events_of_probe_rounds: "events_of event_instance i (probe_rounds i ts) = probe_rounds i ts"
  by (induction ts) (simp_all add: probe_rounds_def)

lemma answers_of_all: "\<forall>x \<in> set es. key (snd x) = k \<Longrightarrow> length rs = length es \<Longrightarrow> answers_of key k es rs = rs"
  by (induction es rs rule: list_induct2') auto

section \<open>Properties\<close>

text \<open>
  C21. Refinement and isolation: for every trace of operations on the manager, in any order and on any instances,
  the answers to the operations of one instance and the state it ends in are those of a single circuit that only
  sees the operations of that instance. Evicting pristine entries is invisible.
\<close>

theorem breaker_refines_circuit:
  "run_machine (circuit_step cfg) (Closed 0) (events_of event_instance i es) =
    (answers_of event_instance i es (fst (run_machine (breaker_step cfg) Map.empty es)),
     circuit_view (snd (run_machine (breaker_step cfg) Map.empty es)) i)"
  using cb.run_refines [of Map.empty cfg i es] by (simp add: breakers_ok_def circuit_view_def)

text \<open>
  Bounds: with a valid configuration, after every trace the failure count of a closed circuit is below the
  threshold, and the in-flight probes and successes of a half-open one are within their limits.
\<close>

lemma breaker_counters_bounded:
  assumes "config_ok cfg"
  shows "circuit_ok cfg (circuit_view (snd (run_machine (breaker_step cfg) Map.empty es)) i)"
proof -
  have "circuit_ok cfg (Closed 0)" using assms by (simp add: config_ok_def)
  then have "circuit_ok cfg (snd (run_machine (circuit_step cfg) (Closed 0) (events_of event_instance i es)))"
    by (rule machine_invariant.inv_run [OF circuit_invariant [OF assms]])
  then show ?thesis
    using cb.run_refines [of Map.empty cfg i es] by (simp add: breakers_ok_def circuit_view_def)
qed

text \<open>
  An open circuit stays shut: once an instance was opened by a failure at time \<open>t0\<close>, every check and every probe
  request for it is refused before the cooldown has passed, whatever happens in the meantime, late successes,
  releases and operations on other instances included.
\<close>

lemma open_breaker_refuses:
  assumes "enabled cfg" "breakers_ok states" "circuit_view states i = Open (t0 + open_cooldown_seconds cfg)"
    and "\<forall>x \<in> set es. t0 \<le> fst x \<and> fst x < t0 + open_cooldown_seconds cfg"
  shows "list_all refused (answers_of event_instance i es (fst (run_machine (breaker_step cfg) states es)))"
proof -
  have "\<forall>x \<in> set (events_of event_instance i es). t0 \<le> fst x \<and> fst x < t0 + open_cooldown_seconds cfg"
    using assms(4) by (simp add: events_of_def)
  from open_circuit_run [OF assms(1) order_refl this] show ?thesis
    using cb.run_refines [OF assms(2), of cfg i es] assms(3) by simp
qed

text \<open>
  The breaker trips exactly at its threshold: after failures only, a fresh instance is still closed while there were
  fewer than the threshold, and open until the cooldown after the last failure otherwise.
\<close>

lemma breaker_trips_at_threshold:
  assumes "enabled cfg" "config_ok cfg" "\<forall>x \<in> set es. \<exists>r. snd x = Failure i r"
  shows "circuit_view (snd (run_machine (breaker_step cfg) Map.empty es)) i =
    (if int (length es) < failure_threshold cfg then Closed (int (length es))
     else Open (fst (last es) + open_cooldown_seconds cfg))"
proof -
  have "events_of event_instance i es = es"
    using assms(3) unfolding events_of_def by (intro filter_True) force
  moreover have "0 < failure_threshold cfg" using assms(2) by (simp add: config_ok_def)
  ultimately show ?thesis
    using cb.run_refines [of Map.empty cfg i es] failure_run [OF assms(1,3), of 0]
    by (simp add: breakers_ok_def circuit_view_def)
qed

text \<open>
  Recovery: when the cooldown of an open instance has passed, as many rounds of an acquired probe and a success as
  the success threshold asks for are all admitted, and they close the circuit.
\<close>

lemma breaker_recovers:
  assumes "enabled cfg" "config_ok cfg" "breakers_ok states" "circuit_view states i = Open u"
    and "u \<le> hd ts" "int (length ts) = half_open_success_threshold cfg"
  shows "circuit_view (snd (run_machine (breaker_step cfg) states (probe_rounds i ts))) i = Closed 0 \<and>
    fst (run_machine (breaker_step cfg) states (probe_rounds i ts)) = concat (map (\<lambda>t. [Acquired True, Done]) ts)"
proof -
  have ne: "ts \<noteq> []" using assms(2,6) by (auto simp: config_ok_def)
  have "run_machine (circuit_step cfg) (circuit_view states i) (probe_rounds i ts) =
      (concat (map (\<lambda>t. [Acquired True, Done]) ts), Closed 0)"
    using probe_rounds_wake [OF assms(1,5) ne] probe_rounds_run [OF assms(1,2) order_refl _ ne] assms(4,6) by simp
  with cb.run_refines [OF assms(3), of cfg i "probe_rounds i ts"] events_of_probe_rounds [of i ts]
  show ?thesis by (simp add: answers_of_all probe_rounds_def)
qed

end
