(* ===== verification/Resilience_Theorems.thy ===== *)
theory Resilience_Theorems
  imports Resilience Rate_Limit_Theorems Breaker_Theorems
begin

text \<open>
  Correctness of the resilience layer as a whole: the decision before a call, that checking reserves nothing, and
  what failures do over traces of calls on any instances. The coordinator drives the breaker manager and the
  rate-limit manager; both facts are interpretations of the locale \<open>driven\<close>.
\<close>

section \<open>Traces of calls\<close>

datatype call_event =
    CallCheck string string | CallProbe string | CallRelease string | CallSuccess string string
  | CallFailure string string upstream_error

fun call_target :: "call_event \<Rightarrow> string" where
  "call_target (CallCheck i mdl) = i"
| "call_target (CallProbe i) = i"
| "call_target (CallRelease i) = i"
| "call_target (CallSuccess i mdl) = i"
| "call_target (CallFailure i mdl e) = i"

fun call_step ::
  "('ci, 'cm) resilience \<Rightarrow> instant \<Rightarrow> call_event \<Rightarrow> ('ci, 'cm) resilience_state \<Rightarrow> ('ci, 'cm) resilience_state" where
  "call_step R now (CallCheck i mdl) st = snd (check_availability R now i mdl st)"
| "call_step R now (CallProbe i) st = snd (try_acquire_circuit_breaker_probe R now i st)"
| "call_step R now (CallRelease i) st = release_circuit_breaker_probe R i st"
| "call_step R now (CallSuccess i mdl) st = note_success R now i mdl st"
| "call_step R now (CallFailure i mdl e) st = snd (note_failure R now i mdl e st)"

section \<open>Driving the rate-limit manager\<close>

definition limit_events :: "instant \<Rightarrow> call_event \<Rightarrow> instant \<times> limit_event \<Rightarrow> bool" where
  "limit_events now e x \<longleftrightarrow> fst x = now \<and> event_target (snd x) = call_target e \<and> (\<forall>k. snd x \<noteq> Reactivate k)"

lemma run_limits_append: "run_limits S (xs @ ys) m = run_limits S ys (run_limits S xs m)"
  by (induction xs arbitrary: m) auto

text \<open>A state reached by events of one call.\<close>

definition driven_to :: "('ci, 'cm) stores \<Rightarrow> instant \<Rightarrow> call_event \<Rightarrow> ('ci, 'cm) rate_limits \<Rightarrow> ('ci, 'cm) rate_limits \<Rightarrow> bool" where
  "driven_to S now e m m' \<longleftrightarrow> (\<exists>xs. m' = run_limits S xs m \<and> (\<forall>x \<in> set xs. limit_events now e x))"

lemma driven_refl [simp]: "driven_to S now e m m"
  unfolding driven_to_def by (intro exI [of _ "[]"]) simp

lemma driven_step: "driven_to S now e m m1 \<Longrightarrow> event_target x = call_target e \<Longrightarrow> (\<And>k. x \<noteq> Reactivate k) \<Longrightarrow>
  driven_to S now e m (limit_step S now x m1)"
  unfolding driven_to_def
  by (elim exE conjE, rule_tac x = "xs @ [(now, x)]" in exI) (auto simp: run_limits_append limit_events_def)

lemma driven_ops:
  assumes "driven_to S now e m m1" "call_target e = i"
  shows "driven_to S now e m (snd (get_instance_status S now i m1))"
    "driven_to S now e m (snd (check_instance_availability S now i m1))"
    "driven_to S now e m (snd (check_model_availability S now i mdl m1))"
    "driven_to S now e m (clear_cooldown S now i y m1)"
    "driven_to S now e m (mark_model_unsupported S now i mdl r m1)"
    "driven_to S now e m (set_instance_cooldown S now i d m1)"
    "driven_to S now e m (set_model_cooldown S now i mdl d m1)"
    "driven_to S now e m (disable_instance S now i r m1)"
  using assms driven_step [OF assms(1), of "GetStatus i"] driven_step [OF assms(1), of "CheckInstance i"]
    driven_step [OF assms(1), of "CheckModel i mdl"] driven_step [OF assms(1), of "ClearCooldown i y"]
    driven_step [OF assms(1), of "MarkUnsupported i mdl r"] driven_step [OF assms(1), of "InstanceCooldown i d"]
    driven_step [OF assms(1), of "ModelCooldown i mdl d"] driven_step [OF assms(1), of "Disable i r"]
  by simp_all

lemma driven_check: "call_target e = i \<Longrightarrow> driven_to S now e m (snd (check_limits S now i mdl m))"
  by (simp add: check_limits_def split_beta driven_ops)

lemma driven_chain:
  "call_target e = ec_instance_id ctx \<Longrightarrow> handle_chain rep fix S now hs ctx m = Inr (a, m') \<Longrightarrow> driven_to S now e m m'"
proof (induction hs)
  case (Cons h hs)
  then show ?case
    by (cases h) (auto simp: rl_do_handle_def auth_do_handle_def Let_def bind_res_Inr_iff driven_ops
        split: if_splits option.splits)
qed simp

lemma snd_cb_handle:
  "snd (snd (cb_handle cfg now nxt ctx st)) = (case nxt of None \<Rightarrow> snd st | Some f \<Rightarrow>
     (case f ctx (snd st) of Inl x \<Rightarrow> snd st | Inr (a, m) \<Rightarrow> m))"
  by (auto simp: cb_handle_def Let_def split: option.split sum.split)

lemma driven_run_chain:
  assumes "call_target e = ec_instance_id ctx"
  shows "driven_to (rs_stores R) now e (snd st) (snd (snd (run_chain R now hs ctx st)))"
proof (cases "handle_chain (rs_repr R) (rs_fixed1 R) (rs_stores R) now hs ctx (snd st)")
  case (Inl x)
  then show ?thesis by (simp add: run_chain_def Let_def snd_cb_handle split: option.split)
next
  case (Inr p)
  then obtain a m where p: "handle_chain (rs_repr R) (rs_fixed1 R) (rs_stores R) now hs ctx (snd st) = Inr (a, m)" by (cases p) simp
  then show ?thesis
    using driven_chain [OF assms p] by (simp add: run_chain_def Let_def snd_cb_handle split: option.split)
qed

lemma snd_note_failure:
  "snd (note_failure R now i mdl e st) =
     (if cls_code (classify e) = ''unsupported_on_instance''
      then (fst st, mark_model_unsupported (rs_stores R) now i mdl (cls_reason (classify e)) (snd st))
      else (case rs_chain R of None \<Rightarrow> st | Some hs \<Rightarrow> snd (run_chain R now hs
        \<lparr>ec_instance_id = i, ec_model = mdl, ec_error = e, ec_extra = dict_attr ''__resilience_context__'' e\<rparr> st)))"
  by (auto simp: note_failure_def Let_def split_beta split: option.split sum.split)

lemma snd_check_availability:
  "snd (snd (check_availability R now i mdl st)) = snd st \<or>
   snd (snd (check_availability R now i mdl st)) = snd (check_limits (rs_stores R) now i mdl (snd st))"
  by (auto simp: check_availability_def split_beta split: option.split)

lemma call_step_driven: "driven_to (rs_stores R) now e (snd st) (snd (call_step R now e st))"
proof (cases e)
  case (CallCheck i mdl)
  then show ?thesis
    using snd_check_availability [of R now i mdl st] driven_check [of e i "rs_stores R" now "snd st" mdl] by auto
next
  case (CallProbe i)
  then show ?thesis by (simp add: try_acquire_circuit_breaker_probe_def split_beta split: option.split)
next
  case (CallRelease i)
  then show ?thesis by (simp add: release_circuit_breaker_probe_def split: option.split)
next
  case (CallSuccess i mdl)
  then show ?thesis by (simp add: note_success_def driven_ops)
next
  case (CallFailure i mdl x)
  then show ?thesis by (auto simp: snd_note_failure driven_ops driven_run_chain split: option.split)
qed

interpretation limits: driven "call_step R" snd "run_limits (rs_stores R)" limit_events for R
  by unfold_locales
    (use call_step_driven in \<open>auto simp: run_limits_append driven_to_def\<close>)

lemma chrono_after: "chrono a es b \<Longrightarrow> x \<in> set es \<Longrightarrow> later a (fst x)"
  by (induction a es b rule: chrono.induct) (auto simp: later_def)

lemma chrono_start: "later a a' \<Longrightarrow> chrono a' xs b \<Longrightarrow> chrono a xs b"
  by (cases xs) (auto simp: later_def)

lemma chrono_block: "\<forall>x \<in> set xs. fst x = t \<Longrightarrow> chrono t ys b \<Longrightarrow> chrono t (xs @ ys) b"
  by (induction xs) auto

lemma chrono_blocks:
  assumes "list_all2 (\<lambda>y xs. \<forall>x \<in> set xs. fst x = fst y) es xss" "chrono a es b"
  shows "chrono a (concat xss) b"
  using assms
proof (induction arbitrary: a rule: list_all2_induct)
  case (Cons y es xs xss)
  then have "chrono (fst y) (xs @ concat xss) b" by (cases y) (auto intro: chrono_block)
  with Cons.prems show ?case by (cases y) (auto intro: chrono_start)
qed simp

lemma blocks_forall: "list_all2 (\<lambda>y xs. \<forall>x \<in> set xs. P y x) es xss \<Longrightarrow> x \<in> set (concat xss) \<Longrightarrow> \<exists>y \<in> set es. P y x"
  by (induction rule: list_all2_induct) auto

section \<open>Driving the circuit breaker\<close>

definition run_breaker :: "('ci, 'cm) resilience \<Rightarrow> (real \<times> breaker_event) list \<Rightarrow> breaker_states \<Rightarrow> breaker_states" where
  "run_breaker R xs states = (case rs_breaker R of None \<Rightarrow> states | Some cfg \<Rightarrow> snd (run_machine (breaker_step cfg) states xs))"

definition circuit_events :: "instant \<Rightarrow> call_event \<Rightarrow> real \<times> breaker_event \<Rightarrow> bool" where
  "circuit_events now e x \<longleftrightarrow> fst x = cache_time now \<and> event_instance (snd x) = call_target e"

lemma breaker_none: "rs_breaker R = None \<Longrightarrow> fst (call_step R now e st) = fst st"
  by (cases e) (auto simp: check_availability_def check_circuit_def try_acquire_circuit_breaker_probe_def
      release_circuit_breaker_probe_def note_success_def snd_note_failure run_chain_def Let_def split_beta
      split: option.split sum.split)

lemma fst_cb_handle:
  "fst (snd (cb_handle cfg now nxt ctx st)) =
     (if cb_can_handle (ec_error ctx)
      then record_failure cfg (cache_time now) (ec_instance_id ctx) (build_failure_reason (ec_error ctx)) (fst st) else fst st)"
  by (auto simp: cb_handle_def Let_def split: option.split sum.split)

lemma fst_note_failure:
  "rs_breaker R = Some cfg \<Longrightarrow> fst (snd (note_failure R now i mdl e st)) =
     (if cls_code (classify e) \<noteq> ''unsupported_on_instance'' \<and> rs_chain R \<noteq> None \<and> cb_can_handle e
      then record_failure cfg (cache_time now) i (build_failure_reason e) (fst st) else fst st)"
  by (auto simp: snd_note_failure run_chain_def fst_cb_handle split: option.split)

lemma one_breaker_event:
  assumes "snd (breaker_step cfg (cache_time now) x states) = states'" "event_instance x = call_target e" "rs_breaker R = Some cfg"
  shows "\<exists>xs. states' = run_breaker R xs states \<and> (\<forall>x \<in> set xs. circuit_events now e x)"
  by (rule exI [of _ "[(cache_time now, x)]"]) (use assms in \<open>simp add: run_breaker_def circuit_events_def\<close>)

lemma no_breaker_event: "\<exists>xs. states = run_breaker R xs states \<and> (\<forall>x \<in> set xs. circuit_events now e x)"
  by (rule exI [of _ "[]"]) (simp add: run_breaker_def split: option.split)

lemma call_step_circuit: "\<exists>xs. fst (call_step R now e st) = run_breaker R xs (fst st) \<and> (\<forall>x \<in> set xs. circuit_events now e x)"
proof (cases "rs_breaker R")
  case None
  then show ?thesis using no_breaker_event [of "fst st" R now e] by (simp add: breaker_none)
next
  case (Some cfg)
  note one = one_breaker_event [OF _ _ Some, of now _ "fst st" _ e] and no = no_breaker_event [of "fst st" R now e]
  show ?thesis
  proof (cases e)
    case (CallCheck i mdl)
    have "fst (call_step R now e st) = fst st \<or> fst (call_step R now e st) = snd (check cfg (cache_time now) i (fst st))"
      using Some by (auto simp: CallCheck check_availability_def check_circuit_def split_beta split: option.split)
    then show ?thesis using no one [of "Check i"] by (auto simp: CallCheck)
  next
    case (CallProbe i)
    with Some show ?thesis using one [of "TryAcquire i"] by (auto simp: try_acquire_circuit_breaker_probe_def split_beta)
  next
    case (CallRelease i)
    with Some show ?thesis using one [of "Release i"] by (auto simp: release_circuit_breaker_probe_def)
  next
    case (CallSuccess i mdl)
    with Some show ?thesis using one [of "Success i"] by (auto simp: note_success_def)
  next
    case (CallFailure i mdl x)
    then show ?thesis using no one [of "Failure i (build_failure_reason x)"] by (auto simp: fst_note_failure [OF Some])
  qed
qed

lemma run_breaker_append: "run_breaker R (xs @ ys) s = run_breaker R ys (run_breaker R xs s)"
  by (simp add: run_breaker_def run_machine_append split: option.split)

interpretation circuits: driven "call_step R" fst "run_breaker R" circuit_events for R
proof
  show "run_breaker R [] m = m" for m by (simp add: run_breaker_def split: option.split)
qed (rule run_breaker_append call_step_circuit)+

section \<open>Decisions\<close>

definition gate_open :: "('ci, 'cm) resilience \<Rightarrow> string \<Rightarrow> bool" where
  "gate_open R i \<longleftrightarrow> (case rs_healthy R of None \<Rightarrow> True | Some h \<Rightarrow> h (py_before (CHR '':'') i))"

text \<open>The decision as a function of the three sources of availability: the health gate, the circuit and the verdict.\<close>

fun limits_decision :: "string \<Rightarrow> string \<Rightarrow> verdict \<Rightarrow> ResilienceDecision" where
  "limits_decision i mdl Free = \<lparr>dec_action = PROCEED, dec_reason = [], dec_cooldown_remaining = None, dec_instance_id = i, dec_model = mdl\<rparr>"
| "limits_decision i mdl (InstanceLimited s) = reject ''Instance rate limited (all models)'' (Some s) i mdl"
| "limits_decision i mdl v = reject (availability_reason (result_of i mdl v)) (availability_cooldown (result_of i mdl v)) i mdl"

definition decision ::
  "('ci, 'cm) resilience \<Rightarrow> instant \<Rightarrow> string \<Rightarrow> string \<Rightarrow> ('ci, 'cm) resilience_state \<Rightarrow> ResilienceDecision" where
  "decision R now i mdl st =
     (if \<not> gate_open R i then reject ''endpoint_unhealthy'' None i mdl
      else (case rs_breaker R of
          Some cfg \<Rightarrow>
            (let d = fst (circuit_step cfg (cache_time now) (Check i) (circuit_view (fst st) i)) in
             case d of
               Decision c \<Rightarrow> if should_proceed c then limits_decision i mdl (verdict (rs_stores R) now i mdl (snd st))
                 else reject (decision_reason c) (map_option Finite (cooldown_remaining c)) i mdl
             | _ \<Rightarrow> limits_decision i mdl (verdict (rs_stores R) now i mdl (snd st)))
        | None \<Rightarrow> limits_decision i mdl (verdict (rs_stores R) now i mdl (snd st))))"

lemma check_limits_result:
  assumes "stores_ok S"
  shows "fst (check_limits S now i mdl m) = limits_decision i mdl (verdict S now i mdl m) \<and>
    harmless S now m (snd (check_limits S now i mdl m))"
proof -
  define m1 where "m1 = snd (get_instance_status S now i m)"
  let ?v = "instance_verdict now (instance_at S (cache_time now) m1 i)"
  have h: "harmless S now m m1" unfolding m1_def by (rule harmless_status [OF assms])
  note c = check_instance_result [OF assms, of now i m1 mdl] check_model_result [OF assms, of now i mdl m1]
  have v: "verdict S now i mdl m = verdict S now i mdl m1" using harmless_verdict [OF h] by simp
  have s: "fst (get_instance_status S now i m) = verdict_status ?v" using h by (simp add: status_check harmless_def)
  have hs: "harmless S now m (snd (check_instance_availability S now i m1))" "harmless S now m (snd (check_model_availability S now i mdl m1))"
    using c harmless_trans [OF h] by blast+
  consider "?v = Free" | r where "?v = Disabled r" | x where "?v = InstanceLimited x"
    using instance_verdict_cases [of now "instance_at S (cache_time now) m1 i"] by blast
  then show ?thesis
  proof cases
    case 1
    then have "verdict_status ?v = ACTIVE" by simp
    moreover have "limits_decision i mdl v = (if \<not> available (result_of i mdl v)
        then reject (or_default (''Model '' @ mdl @ '' rate limited'') (Some (availability_reason (result_of i mdl v))))
          (availability_cooldown (result_of i mdl v)) i mdl
        else \<lparr>dec_action = PROCEED, dec_reason = [], dec_cooldown_remaining = None, dec_instance_id = i, dec_model = mdl\<rparr>)"
      if "v = verdict S now i mdl m1" for v
      using that 1 by (cases v) (auto simp: verdict_def unavailable_def or_default_def model_verdict_def split: option.splits if_splits)
    ultimately show ?thesis using c hs by (simp add: check_limits_def split_beta s m1_def [symmetric] v)
  next
    case 2
    then have "verdict S now i mdl m = Disabled r" unfolding v by (simp add: verdict_def)
    with 2 show ?thesis using c hs
      by (simp add: check_limits_def split_beta s m1_def [symmetric] unavailable_def or_default_def)
  next
    case 3
    then have "verdict S now i mdl m = InstanceLimited x" unfolding v by (simp add: verdict_def)
    with 3 show ?thesis using c hs
      by (simp add: check_limits_def split_beta s m1_def [symmetric] unavailable_def)
  qed
qed

lemma check_answer:
  assumes "breakers_ok states"
  shows "fst (circuit_step cfg t (Check i) (circuit_view states i)) = Decision (fst (check cfg t i states))"
    and "circuit_view (snd (check cfg t i states)) k =
      (if k = i \<and> enabled cfg then spec_wake t (circuit_view states i) else circuit_view states k)"
    and "breakers_ok (snd (check cfg t i states))"
  using breaker_step_refines [OF assms, of cfg t "Check i"] by (auto simp: brings_def)

lemma check_availability_decision:
  assumes "stores_ok (rs_stores R)" "breakers_ok (fst st)"
  shows "fst (check_availability R now i mdl st) = decision R now i mdl st"
  using check_limits_result [OF assms(1), of now i mdl "snd st"] check_answer(1) [OF assms(2)]
  by (auto simp: check_availability_def decision_def gate_open_def check_circuit_def split_beta Let_def simp del: circuit_step.simps
      split: option.split)

lemma spec_wake_twice: "now \<le> t \<Longrightarrow> spec_wake t (spec_wake now c) = spec_wake t c"
  by (cases c) auto

lemma check_later:
  assumes "breakers_ok states" "now \<le> t"
  shows "fst (circuit_step cfg t (Check k) (circuit_view (snd (check cfg now i states)) k)) =
    fst (circuit_step cfg t (Check k) (circuit_view states k))"
  using assms by (simp add: check_answer(2) spec_wake_twice)

lemma check_availability_state:
  assumes "stores_ok (rs_stores R)" "breakers_ok (fst st)"
  shows "harmless (rs_stores R) now (snd st) (snd (snd (check_availability R now i mdl st))) \<and>
    (fst (snd (check_availability R now i mdl st)) = fst st \<or>
     (\<exists>cfg. rs_breaker R = Some cfg \<and> fst (snd (check_availability R now i mdl st)) = snd (check cfg (cache_time now) i (fst st))))"
  using check_limits_result [OF assms(1), of now i mdl "snd st"]
  by (auto simp: check_availability_def check_circuit_def split_beta split: option.split)

section \<open>Properties of checks\<close>

text \<open>
  The decision before a call: a request is rejected by the health gate, then by the circuit breaker, then by the
  verdict of the rate-limit manager, each with its own reason and remaining time, and proceeds exactly when none
  of the three objects.
\<close>

lemma availability_decision:
  assumes "stores_ok (rs_stores R)" "breakers_ok (fst st)"
  shows "fst (check_availability R now i mdl st) = decision R now i mdl st \<and>
    (dec_should_proceed (fst (check_availability R now i mdl st)) \<longleftrightarrow>
      gate_open R i \<and> (\<forall>cfg. rs_breaker R = Some cfg \<longrightarrow> should_proceed (fst (check cfg (cache_time now) i (fst st)))) \<and>
      verdict (rs_stores R) now i mdl (snd st) = Free)"
proof -
  have "dec_should_proceed (limits_decision i mdl v) \<longleftrightarrow> v = Free" for v
    by (cases v) (simp_all add: dec_should_proceed_def reject_def)
  moreover have "\<not> dec_should_proceed (reject r c i mdl)" for r c by (simp add: dec_should_proceed_def reject_def)
  ultimately show ?thesis
    unfolding check_availability_decision [OF assms]
    by (auto simp: decision_def Let_def check_answer(1) [OF assms(2)] simp del: circuit_step.simps split: option.split)
qed

text \<open>
  Checking reserves nothing: after a check, every later check for any instance and model decides as if the first
  had not happened, although it may move an open circuit to half open and drop expired cooldowns.
\<close>

lemma check_availability_pure:
  assumes "stores_ok (rs_stores R)" "breakers_ok (fst st)" "later now t"
  shows "fst (check_availability R t k mdl' (snd (check_availability R now i mdl st))) = fst (check_availability R t k mdl' st)"
proof -
  let ?st = "snd (check_availability R now i mdl st)"
  note s = check_availability_state [OF assms(1,2), of now i mdl]
  have t: "cache_time now \<le> cache_time t" using assms(3) by (simp add: later_def)
  have ok: "breakers_ok (fst ?st)" using s assms(2) check_answer(3) [OF assms(2)] by auto
  have v: "verdict (rs_stores R) t k mdl' (snd ?st) = verdict (rs_stores R) t k mdl' (snd st)"
    using s by (intro harmless_verdict [OF _ assms(3)]) blast
  have "fst (circuit_step cfg (cache_time t) (Check k) (circuit_view (fst ?st) k)) =
      fst (circuit_step cfg (cache_time t) (Check k) (circuit_view (fst st) k))" if "rs_breaker R = Some cfg" for cfg
    using s that check_later [OF assms(2) t, of cfg k i] by auto
  then show ?thesis
    unfolding check_availability_decision [OF assms(1) ok] check_availability_decision [OF assms(1,2)]
    by (simp add: decision_def v del: circuit_step.simps split: option.split breaker_answer.split)
qed

section \<open>Failures over traces of calls\<close>

lemma failures_open:
  assumes "enabled cfg" "circuit_ok cfg c" "\<forall>x \<in> set es. \<exists>r. snd x = Failure i r" "failure_threshold cfg \<le> int (length es)" "es \<noteq> []"
  shows "snd (run_machine (circuit_step cfg) c es) = Open (fst (last es) + open_cooldown_seconds cfg)"
proof -
  have again: "snd (run_machine (circuit_step cfg) (Open u) xs) = Open (if xs = [] then u else fst (last xs) + open_cooldown_seconds cfg)"
    if "\<forall>x \<in> set xs. \<exists>r. snd x = Failure i r" for u xs
    using that by (induction xs arbitrary: u) (auto simp: assms(1))
  show ?thesis
  proof (cases c)
    case (Closed n)
    then show ?thesis using failure_run [OF assms(1,3), of n] assms(2,4) by simp
  next
    case (Open u)
    then show ?thesis using again [OF assms(3)] assms(5) by simp
  next
    case (HalfOpen a b)
    with assms(1,3,5) again [of "tl es"] show ?thesis by (cases es) auto
  qed
qed

text \<open>The failures of one instance as calls, and as events of its circuit.\<close>

definition failure_calls :: "string \<Rightarrow> (instant \<times> string \<times> upstream_error) list \<Rightarrow> (instant \<times> call_event) list" where
  "failure_calls i fs = map (\<lambda>(t, mdl, e). (t, CallFailure i mdl e)) fs"

definition transient :: "upstream_error \<Rightarrow> bool" where
  "transient e \<longleftrightarrow> cb_can_handle e \<and> cls_code (classify e) \<noteq> ''unsupported_on_instance''"

lemma failure_calls_breaker:
  assumes "rs_breaker R = Some cfg" "rs_chain R \<noteq> None" "\<forall>x \<in> set fs. transient (snd (snd x))"
  shows "fst (run_steps (call_step R) (failure_calls i fs) st) =
    snd (run_machine (breaker_step cfg) (fst st) (map (\<lambda>(t, mdl, e). (cache_time t, Failure i (build_failure_reason e))) fs))"
  using assms(3)
proof (induction fs arbitrary: st)
  case (Cons x fs)
  obtain t mdl e where x: "x = (t, mdl, e)" by (metis prod.exhaust)
  have "fst (call_step R t (CallFailure i mdl e) st) = record_failure cfg (cache_time t) i (build_failure_reason e) (fst st)"
    using Cons.prems assms(2) by (simp add: fst_note_failure [OF assms(1)] transient_def x)
  with Cons show ?case by (simp add: x failure_calls_def)
qed (simp add: failure_calls_def)

lemma open_through_calls:
  assumes "rs_breaker R = Some cfg" "enabled cfg" "breakers_ok (fst st)" "chrono a es b"
    and "circuit_view (fst st) i = Open (cache_time a + open_cooldown_seconds cfg)" "cache_time b < cache_time a + open_cooldown_seconds cfg"
  shows "breakers_ok (fst (run_steps (call_step R) es st)) \<and>
    (\<exists>v. circuit_view (fst (run_steps (call_step R) es st)) i = Open v \<and> cache_time b < v)"
proof -
  obtain xss where xss: "list_all2 (\<lambda>y xs. \<forall>x \<in> set xs. circuit_events (fst y) (snd y) x) es xss"
    "fst (run_steps (call_step R) es st) = run_breaker R (concat xss) (fst st)"
    using circuits.driven_run by blast
  let ?xs = "concat xss"
  have r: "run_breaker R ?xs (fst st) = snd (run_machine (breaker_step cfg) (fst st) ?xs)" by (simp add: run_breaker_def assms(1))
  have "later a (fst y) \<and> later (fst y) b" if "y \<in> set es" for y
    using chrono_before [OF assms(4) that] chrono_after [OF assms(4) that] by blast
  then have "\<forall>x \<in> set (events_of event_instance i ?xs). cache_time a \<le> fst x \<and> fst x < cache_time a + open_cooldown_seconds cfg"
    using blocks_forall [OF xss(1)] assms(6) by (fastforce simp: events_of_def circuit_events_def later_def)
  from open_circuit_run [OF assms(2) order_refl this]
  obtain v where "snd (run_machine (circuit_step cfg) (Open (cache_time a + open_cooldown_seconds cfg)) (events_of event_instance i ?xs)) = Open v"
    "cache_time a + open_cooldown_seconds cfg \<le> v" by blast
  with cb.run_refines [OF assms(3), of cfg i ?xs] cb.inv_run [OF assms(3), of cfg ?xs] assms(5,6) show ?thesis
    by (simp add: xss(2) r)
qed

text \<open>
  C10. Transient failures protect the backend: after as many transient failures of an instance in a row as the threshold
  asks for, recorded through the coordinator, every request for any of its models is rejected until the cooldown after
  the last of them is over, whatever other calls, checks, successes and failures on any instance happen in between.
\<close>

theorem transient_failures_reject:
  assumes "stores_ok (rs_stores R)" "rs_breaker R = Some cfg" "enabled cfg" "config_ok cfg" "rs_chain R \<noteq> None"
    and "breakers_ok (fst st)" "circuit_ok cfg (circuit_view (fst st) i)"
    and "\<forall>x \<in> set fs. transient (snd (snd x))" "failure_threshold cfg \<le> int (length fs)"
    and "chrono (fst (last fs)) es b" "cache_time b < cache_time (fst (last fs)) + open_cooldown_seconds cfg"
  shows "dec_action (fst (check_availability R b i mdl (run_steps (call_step R) (failure_calls i fs @ es) st))) = REJECT"
proof -
  let ?xs = "map (\<lambda>(t, mdl, e). (cache_time t, Failure i (build_failure_reason e))) fs"
  let ?st = "run_steps (call_step R) (failure_calls i fs) st"
  have ne: "fs \<noteq> []" using assms(4,9) by (auto simp: config_ok_def)
  have all: "\<forall>x \<in> set ?xs. \<exists>r. snd x = Failure i r" by auto
  have ev: "events_of event_instance i ?xs = ?xs" unfolding events_of_def by (intro filter_True) auto
  have st: "fst ?st = snd (run_machine (breaker_step cfg) (fst st) ?xs)" by (rule failure_calls_breaker [OF assms(2,5,8)])
  have ok: "breakers_ok (fst ?st)" unfolding st by (rule cb.inv_run [OF assms(6)])
  have "fst (last ?xs) = cache_time (fst (last fs))" using ne by (simp add: last_map split_beta)
  then have view: "circuit_view (fst ?st) i = Open (cache_time (fst (last fs)) + open_cooldown_seconds cfg)"
    using cb.run_refines [OF assms(6), of cfg i ?xs] failures_open [OF assms(3,7) all] assms(9) ne by (simp add: ev st)
  from open_through_calls [OF assms(2,3) ok assms(10) view assms(11)]
  obtain v where "breakers_ok (fst (run_steps (call_step R) es ?st))"
    "circuit_view (fst (run_steps (call_step R) es ?st)) i = Open v" "cache_time b < v" by blast
  then show ?thesis
    using check_availability_decision [OF assms(1), of "run_steps (call_step R) es ?st" b i mdl] assms(2,3)
    by (simp add: run_steps_append decision_def reject_def decide_def Let_def)
qed

lemma calls_breakers_ok: "breakers_ok (fst st) \<Longrightarrow> breakers_ok (fst (run_steps (call_step R) es st))"
  using circuits.driven_run [of es R st] cb.inv_run [of "fst st"] by (auto simp: run_breaker_def split: option.splits)

text \<open>An authentication failure that the chain attributes to the instance.\<close>

definition auth_failure :: "(json \<Rightarrow> string) \<Rightarrow> string \<Rightarrow> string \<Rightarrow> upstream_error \<Rightarrow> bool" where
  "auth_failure repr_of i mdl e \<longleftrightarrow> cls_code (classify e) \<noteq> ''unsupported_on_instance'' \<and> \<not> rl_can_handle e \<and>
     auth_can_handle e = Inr True \<and> isl (build_reason repr_of e) = False \<and>
     auth_exempt repr_of \<lparr>ec_instance_id = i, ec_model = mdl, ec_error = e, ec_extra = dict_attr ''__resilience_context__'' e\<rparr> = None"

lemma auth_failure_limits:
  assumes "rs_chain R = Some default_chain" "auth_failure (rs_repr R) i mdl e"
  shows "\<exists>r. snd (snd (note_failure R now i mdl e st)) = disable_instance (rs_stores R) now i r (snd st)"
proof -
  let ?ctx = "\<lparr>ec_instance_id = i, ec_model = mdl, ec_error = e, ec_extra = dict_attr ''__resilience_context__'' e\<rparr>"
  obtain r where r: "build_reason (rs_repr R) e = Inr r"
    using assms(2) by (cases "build_reason (rs_repr R) e") (simp_all add: auth_failure_def)
  have "handle_chain (rs_repr R) (rs_fixed1 R) (rs_stores R) now default_chain ?ctx (snd st) =
      Inr ((mk_action DISABLE_INSTANCE r)\<lparr>act_permanent := True\<rparr>, disable_instance (rs_stores R) now i r (snd st))"
    using assms(2) by (simp add: default_chain_def auth_failure_def auth_do_handle_def r)
  moreover have "default_chain \<noteq> []" by (simp add: default_chain_def)
  ultimately show ?thesis
    using assms
    by (intro exI [of _ r]) (auto simp: snd_note_failure run_chain_def Let_def snd_cb_handle auth_failure_def split: option.split)
qed

text \<open>
  C11. A rejected key takes its instance out of service: after an authentication failure that is attributed to the instance,
  every request for any of its models is rejected for an hour, whatever calls, successes and failures, rate limits
  included, happen on this and other instances; as long as the instances that are named, with those that have an entry already,
  are no more than the store holds (1000; the instances of a session count for themselves).
\<close>

theorem auth_failure_rejects:
  assumes "stores_ok (rs_stores R)" "rs_chain R = Some default_chain" "auth_failure (rs_repr R) i mdl e" "breakers_ok (fst st)"
    and "live_within (rs_stores R) I a (snd st)" "i \<in> I" "\<forall>x \<in> set es. call_target (snd x) \<in> I"
    and "chrono a es b" "cache_time b < cache_time a + 3600"
  shows "dec_action (fst (check_availability R b i mdl' (run_steps (call_step R) ((a, CallFailure i mdl e) # es) st))) = REJECT"
proof -
  let ?st = "snd (note_failure R a i mdl e st)"
  let ?fin = "run_steps (call_step R) ((a, CallFailure i mdl e) # es) st"
  obtain r where r: "snd ?st = disable_instance (rs_stores R) a i r (snd st)"
    using auth_failure_limits [OF assms(2,3)] by blast
  obtain xss where xss: "list_all2 (\<lambda>y xs. \<forall>x \<in> set xs. limit_events (fst y) (snd y) x) es xss"
    "snd ?fin = run_limits (rs_stores R) (concat xss) (disable_instance (rs_stores R) a i r (snd st))"
    using limits.driven_run [of es R ?st] by (auto simp: r)
  have "list_all2 (\<lambda>y xs. \<forall>x \<in> set xs. fst x = fst y) es xss"
    using xss(1) by (rule list_all2_mono) (simp add: limit_events_def)
  then have ch: "chrono a (concat xss) b" by (rule chrono_blocks [OF _ assms(8)])
  have "\<forall>x \<in> set (concat xss). event_target (snd x) \<in> I \<and> snd x \<noteq> Reactivate i"
    using blocks_forall [OF xss(1)] assms(7) by (fastforce simp: limit_events_def)
  from disabled_stays [OF assms(1) ch assms(9,5,6) this]
  obtain r' where "verdict (rs_stores R) b i mdl' (snd ?fin) = Disabled r'" unfolding xss(2) by blast
  moreover have "fst (check_availability R b i mdl' ?fin) = decision R b i mdl' ?fin"
    by (rule check_availability_decision [OF assms(1) calls_breakers_ok [OF assms(4)]])
  ultimately show ?thesis
    by (auto simp: decision_def reject_def Let_def simp del: run_steps.simps circuit_step.simps split: option.split breaker_answer.split)
qed

end
