(* ===== verification/Breaker_Examples.thy ===== *)
theory Breaker_Examples
  imports Breaker_Theorems
begin

text \<open>
  The circuit breaker on concrete traces: instances of its properties, and a success that arrives late.
\<close>

definition default_config :: CircuitBreakerConfig where
  "default_config = \<lparr>enabled = True, failure_threshold = 3, open_cooldown_seconds = 30,
     half_open_success_threshold = 1, half_open_max_inflight = 1\<rparr>"

definition two_probe_config :: CircuitBreakerConfig where
  "two_probe_config = default_config\<lparr>failure_threshold := 1, half_open_success_threshold := 2\<rparr>"

lemma default_config_simps [simp]:
  "enabled default_config" "failure_threshold default_config = 3" "open_cooldown_seconds default_config = 30"
  "half_open_success_threshold default_config = 1" "half_open_max_inflight default_config = 1" "config_ok default_config"
  by (simp_all add: default_config_def config_ok_def)

lemma two_probe_config_simps [simp]:
  "enabled two_probe_config" "failure_threshold two_probe_config = 1" "open_cooldown_seconds two_probe_config = 30"
  "half_open_success_threshold two_probe_config = 2" "half_open_max_inflight two_probe_config = 1"
  "config_ok two_probe_config"
  by (simp_all add: two_probe_config_def default_config_def config_ok_def)

text \<open>An instance that failed once under the second configuration, at time 1.\<close>

definition tripped :: breaker_states where
  "tripped = record_failure two_probe_config 1 ''openai.1'' ''http_503'' Map.empty"

lemma tripped_open: "breakers_ok tripped" "circuit_view tripped ''openai.1'' = Open (1 + open_cooldown_seconds two_probe_config)"
  by (auto simp: tripped_def breaker_defs breakers_ok_def breaker_ok_def circuit_view_def)

theorem open_breaker_refuses_witness:
  "circuit_view tripped ''openai.1'' = Open (1 + open_cooldown_seconds two_probe_config) \<and>
   list_all refused (answers_of event_instance ''openai.1''
     [(2, Check ''openai.1''), (3, Success ''openai.1''), (4, Check ''openai.2''), (30, TryAcquire ''openai.1'')]
     (fst (run_machine (breaker_step two_probe_config) tripped
       [(2, Check ''openai.1''), (3, Success ''openai.1''), (4, Check ''openai.2''), (30, TryAcquire ''openai.1'')])))"
  using open_breaker_refuses [OF two_probe_config_simps(1) tripped_open, of "[(2, Check ''openai.1''), (3, Success ''openai.1''),
    (4, Check ''openai.2''), (30, TryAcquire ''openai.1'')]"] tripped_open(2)
  by simp

theorem breaker_trips_at_threshold_witness:
  "circuit_view (snd (run_machine (breaker_step default_config) Map.empty
     [(1, Failure ''openai.1'' ''http_503''), (2, Failure ''openai.1'' ''timeout''), (5, Failure ''openai.1'' ''http_502'')]))
     ''openai.1'' = Open 35"
  using breaker_trips_at_threshold [OF default_config_simps(1,6), of "[(1, Failure ''openai.1'' ''http_503''),
    (2, Failure ''openai.1'' ''timeout''), (5, Failure ''openai.1'' ''http_502'')]" "''openai.1''"]
  by simp

theorem breaker_recovers_witness:
  "circuit_view (snd (run_machine (breaker_step two_probe_config) tripped (probe_rounds ''openai.1'' [31, 40]))) ''openai.1'' = Closed 0 \<and>
   fst (run_machine (breaker_step two_probe_config) tripped (probe_rounds ''openai.1'' [31, 40])) =
     [Acquired True, Done, Acquired True, Done]"
  using breaker_recovers [OF two_probe_config_simps(1,6) tripped_open, of "[31, 40]"]
  by simp

text \<open>
  A late success frees a slot that it never held: with one probe slot, a request admitted while the circuit was
  closed reports its success after the circuit opened and went half open, and a second probe is admitted while the
  first is still in flight.
\<close>

lemma late_success_admits_second_probe:
  "fst (run_machine (breaker_step two_probe_config) Map.empty
     [(0, TryAcquire ''openai.1''), (1, Failure ''openai.1'' ''http_503''), (31, TryAcquire ''openai.1''),
      (32, Success ''openai.1''), (33, TryAcquire ''openai.1'')]) =
     [Acquired True, Done, Acquired True, Done, Acquired True] \<and>
   fst (run_machine (breaker_step two_probe_config) Map.empty
     [(0, TryAcquire ''openai.1''), (1, Failure ''openai.1'' ''http_503''), (31, TryAcquire ''openai.1''),
      (33, TryAcquire ''openai.1'')]) =
     [Acquired True, Done, Acquired True, Acquired False]"
  by (simp add: breaker_defs)

end
