(* ===== verification/Reference_Cache.thy ===== *)
theory Reference_Cache
  imports Rate_Limit_State "HOL-Library.AList"
begin

text \<open>
  A cache that satisfies \<open>ttl_cache_laws\<close>: an association list in recency order with an expiry time per entry. It
  stands in for \<^verbatim>\<open>cachetools.TTLCache\<close> where a property is applied to a concrete input.
\<close>

type_synonym ('k, 'v) list_cache = "('k \<times> ('v \<times> real)) list"

definition list_peek :: "real \<Rightarrow> 'k \<Rightarrow> ('k, 'v) list_cache \<Rightarrow> 'v option" where
  "list_peek t k c = (case map_of c k of None \<Rightarrow> None | Some (v, e) \<Rightarrow> if t < e then Some v else None)"

definition list_touch :: "real \<Rightarrow> 'k \<Rightarrow> ('k, 'v) list_cache \<Rightarrow> ('k, 'v) list_cache" where
  "list_touch t k c = (case map_of c k of None \<Rightarrow> c | Some x \<Rightarrow> (k, x) # AList.delete k c)"

definition list_items :: "real \<Rightarrow> ('k, 'v) list_cache \<Rightarrow> ('k \<times> 'v) list" where
  "list_items t c = List.map_filter (\<lambda>k. map_option (Pair k) (list_peek t k c)) (remdups (map fst c))"

text \<open>Room for a new key is made by dropping the live entry used least recently.\<close>

definition list_evict :: "nat \<Rightarrow> real \<Rightarrow> 'k \<Rightarrow> ('k, 'v) list_cache \<Rightarrow> ('k, 'v) list_cache" where
  "list_evict maxsize t k c =
     (if length (list_items t c) < maxsize \<or> list_peek t k c \<noteq> None \<or> list_items t c = [] then c
      else AList.delete (fst (last (list_items t c))) c)"

definition list_set :: "nat \<Rightarrow> real \<Rightarrow> real \<Rightarrow> 'k \<Rightarrow> 'v \<Rightarrow> ('k, 'v) list_cache \<Rightarrow> ('k, 'v) list_cache" where
  "list_set maxsize ttl t k v c = (k, (v, t + ttl)) # AList.delete k (list_evict maxsize t k c)"

definition list_mut :: "'k \<Rightarrow> ('v \<Rightarrow> 'v) \<Rightarrow> ('k, 'v) list_cache \<Rightarrow> ('k, 'v) list_cache" where
  "list_mut k f c = AList.map_entry k (map_prod f id) c"

definition list_cache :: "nat \<Rightarrow> real \<Rightarrow> (('k, 'v) list_cache, 'k, 'v) cache_ops" where
  "list_cache maxsize ttl = \<lparr>cpeek = list_peek, ctouch = list_touch, cset = list_set maxsize ttl,
     cpop = (\<lambda>t. AList.delete), cmut = list_mut, citems = list_items\<rparr>"

lemma list_cache_simps [simp]:
  "cpeek (list_cache n ttl) = list_peek" "ctouch (list_cache n ttl) = list_touch" "cset (list_cache n ttl) = list_set n ttl"
  "cpop (list_cache n ttl) t = AList.delete" "cmut (list_cache n ttl) = list_mut" "citems (list_cache n ttl) = list_items"
  by (simp_all add: list_cache_def)

lemma list_peek_map_of: "map_of c k = map_of d k \<Longrightarrow> list_peek t k c = list_peek t k d"
  by (simp add: list_peek_def)

lemma list_peek_delete [simp]: "list_peek t k' (AList.delete k c) = (if k' = k then None else list_peek t k' c)"
  by (simp add: list_peek_def delete_conv')

lemma list_peek_Cons [simp]: "list_peek t k' ((k, (v, e)) # c) = (if k' = k then (if t < e then Some v else None) else list_peek t k' c)"
  by (simp add: list_peek_def)

lemma list_peek_touch: "list_peek t k' (list_touch t0 k c) = list_peek t k' c"
  by (rule list_peek_map_of) (auto simp: list_touch_def delete_conv' split: option.splits)

lemma list_peek_mut: "list_peek t k' (list_mut k f c) = (if k' = k then map_option f (list_peek t k' c) else list_peek t k' c)"
  by (auto simp: list_peek_def list_mut_def map_of_map_entry map_prod_def split: option.splits)

lemma list_items_iff: "(k, v) \<in> set (list_items t c) \<longleftrightarrow> list_peek t k c = Some v"
proof -
  have "list_peek t k c = Some v \<Longrightarrow> k \<in> fst ` set c"
    by (auto simp: list_peek_def split: option.splits dest!: map_of_SomeD intro: rev_image_eqI)
  then show ?thesis by (auto simp: list_items_def map_filter_def image_iff intro!: bexI [of _ k])
qed

lemma list_items_keys: "map fst (list_items t c) = filter (\<lambda>k. list_peek t k c \<noteq> None) (remdups (map fst c))"
proof -
  have "map fst (List.map_filter (\<lambda>k. map_option (Pair k) (g k)) ks) = filter (\<lambda>k. g k \<noteq> None) ks" for g :: "'a \<Rightarrow> 'b option" and ks
    by (induction ks) (auto simp: map_filter_simps split: option.splits)
  then show ?thesis by (simp add: list_items_def)
qed

lemma list_cache_laws: "ttl_cache_laws (list_cache maxsize ttl) maxsize ttl"
proof -
  have later: "t \<le> t' \<Longrightarrow> list_peek t' k c = list_peek t k c \<or> list_peek t' k c = None" for t t' k and c :: "('a, 'b) list_cache"
    by (auto simp: list_peek_def split: option.splits)
  have evict: "list_peek t k' (list_evict maxsize t0 k c) = list_peek t k' c \<or> list_peek t k' (list_evict maxsize t0 k c) = None"
    for t t0 k k' and c :: "('a, 'b) list_cache" by (simp add: list_evict_def)
  show ?thesis
    unfolding ttl_cache_laws_def
    by (intro conjI allI impI)
      (use later evict in \<open>auto simp: list_set_def list_peek_touch list_peek_mut list_items_iff list_items_keys list_evict_def\<close>)
qed

end
