(* ===== verification/Rate_Limit_Examples.thy ===== *)
theory Rate_Limit_Examples
  imports Rate_Limit_Theorems Reference_Cache
begin

text \<open>
  The rate-limit state manager on concrete traces, with the caches instantiated by the reference cache.
\<close>

definition ref_stores :: "((string, InstanceState) list_cache, (string \<times> string, ModelState) list_cache) stores" where
  "ref_stores = \<lparr>icache = list_cache 1000 3600, mcache = list_cache 10000 3600\<rparr>"

definition no_limits :: "((string, InstanceState) list_cache, (string \<times> string, ModelState) list_cache) rate_limits" where
  "no_limits = \<lparr>instance_state = [], model_state = []\<rparr>"

definition moment :: "real \<Rightarrow> instant" where
  "moment t = \<lparr>wall = t + 1700000000, cache_time = t\<rparr>"

lemma moment_simps [simp]: "wall (moment t) = t + 1700000000" "cache_time (moment t) = t" "later (moment s) (moment t) \<longleftrightarrow> s \<le> t"
  by (simp_all add: moment_def later_def)

lemma ref_stores_ok: "stores_ok ref_stores"
  by (simp add: stores_ok_def ref_stores_def list_cache_laws)

lemma ref_stores_simps [simp]:
  "icache ref_stores = list_cache 1000 3600" "mcache ref_stores = list_cache 10000 3600"
  "instance_state no_limits = []" "model_state no_limits = []"
  by (simp_all add: ref_stores_def no_limits_def)

lemma no_limits_at [simp]: "instance_at ref_stores t no_limits i = None" "model_at ref_stores t no_limits k = None"
  by (simp_all add: instance_at_def model_at_def list_peek_def)

lemma no_limits_live: "finite I \<Longrightarrow> card I \<le> 1000 \<Longrightarrow> live_within ref_stores I now no_limits"
  by (simp add: live_within_def)

lemmas limit_eval = manager_defs list_set_def list_evict_def list_items_def list_touch_def map_filter_simps

theorem availability_checks_invisible_witness:
  "verdict ref_stores (moment 70) ''openai.1'' ''gpt-4o'' (limit_step ref_stores (moment 65) (CheckModel ''openai.1'' ''gpt-4o'')
     (set_instance_cooldown ref_stores (moment 0) ''openai.1'' (Finite 60) no_limits)) =
   verdict ref_stores (moment 70) ''openai.1'' ''gpt-4o'' (set_instance_cooldown ref_stores (moment 0) ''openai.1'' (Finite 60) no_limits)"
  by (rule availability_checks_invisible [OF ref_stores_ok, where k = "''openai.1''" and x = "''gpt-4o''" and y = None]) simp_all

theorem disabled_instance_stays_refused_witness:
  "\<exists>r'. fst (check_model_availability ref_stores (moment 3000) ''openai.1'' ''gpt-4o''
     (run_limits ref_stores [(moment 10, InstanceCooldown ''openai.1'' (Finite 5)), (moment 20, ClearCooldown ''openai.1'' None),
        (moment 30, Disable ''openai.2'' ''HTTP 401''), (moment 40, CheckModel ''openai.1'' ''gpt-4o'')]
        (disable_instance ref_stores (moment 0) ''openai.1'' ''HTTP 401'' no_limits))) =
     unavailable (''Instance disabled: '' @ r') None"
  by (rule disabled_instance_stays_refused [OF ref_stores_ok, where I = "{''openai.1'', ''openai.2''}"])
    (simp_all add: no_limits_live)

theorem instance_cooldown_honoured_witness:
  "\<not> available (fst (check_model_availability ref_stores (moment 599) ''openai.1'' ''gpt-4o''
     (run_limits ref_stores [(moment 10, CheckModel ''openai.1'' ''gpt-4o''), (moment 20, ClearCooldown ''openai.1'' (Some ''gpt-4o'')),
        (moment 30, InstanceCooldown ''openai.1'' (Finite 900)), (moment 40, Reactivate ''openai.2'')]
        (set_instance_cooldown ref_stores (moment 0) ''openai.1'' (Finite 600) no_limits))))"
  by (rule instance_cooldown_honoured [OF ref_stores_ok, where I = "{''openai.1'', ''openai.2''}"])
    (simp_all add: no_limits_live status_check instance_verdict_def)

theorem clear_unsupported_exact_witness:
  "fst (clear_unsupported_for_instance ref_stores (moment 5) ''openai.1''
     (mark_model_unsupported ref_stores (moment 0) ''openai.1'' ''gpt-9'' ''unknown model'' no_limits)) = 1 \<and>
   model_at ref_stores 6 (snd (clear_unsupported_for_instance ref_stores (moment 5) ''openai.1''
     (mark_model_unsupported ref_stores (moment 0) ''openai.1'' ''gpt-9'' ''unknown model'' no_limits))) (''openai.1'', ''gpt-9'') = None"
proof -
  let ?m = "mark_model_unsupported ref_stores (moment 0) ''openai.1'' ''gpt-9'' ''unknown model'' no_limits"
  have m: "model_at ref_stores 5 ?m (''openai.1'', x) = (if x = ''gpt-9'' then Some \<lparr>model_cooldown_until = None, retry_count = 0,
      unsupported_permanent = True, unsupported_reason = Some ''unknown model'', unsupported_at = Some 1700000000\<rparr> else None)" for x
    by (simp add: mark_model_unsupported_def limit_eval model_at_def list_peek_def)
  have "{x. \<exists>s. model_at ref_stores 5 ?m (''openai.1'', x) = Some s \<and> unsupported_permanent s} = {''gpt-9''}"
    by (auto simp: m)
  then show ?thesis
    using clear_unsupported_exact [OF ref_stores_ok, of "moment 5" 6 "''openai.1''" ?m "(''openai.1'', ''gpt-9'')"]
    by (simp add: m found_cleared_def)
qed

theorem disabled_instance_returns_witness:
  "fst (get_instance_status ref_stores (moment 3600) ''openai.1'' (disable_instance ref_stores (moment 0) ''openai.1'' ''HTTP 401'' no_limits)) = ACTIVE"
  by (rule disabled_instance_returns [OF ref_stores_ok]) simp

end
