(* ===== verification/Resilience_Examples.thy ===== *)
theory Resilience_Examples
  imports Resilience_Theorems Breaker_Examples Rate_Limit_Examples
begin

text \<open>
  The resilience layer on concrete calls: a default wiring over the reference caches, errors as the connectors raise them,
  instances of the properties, and an authentication failure that the chain cannot describe.
\<close>

definition wired :: "((string, InstanceState) list_cache, (string \<times> string, ModelState) list_cache) resilience" where
  "wired = \<lparr>rs_stores = ref_stores, rs_breaker = Some default_config, rs_chain = Some default_chain, rs_healthy = None,
     rs_repr = (\<lambda>v. ''...''), rs_fixed1 = (\<lambda>f. ''...'')\<rparr>"

lemma wired_simps [simp]:
  "rs_stores wired = ref_stores" "rs_breaker wired = Some default_config" "rs_chain wired = Some default_chain"
  "rs_healthy wired = None" "rs_repr wired = (\<lambda>v. ''...'')"
  by (simp_all add: wired_def)

definition backend_503 :: upstream_error where
  "backend_503 = \<lparr>err_name = ''BackendError'', err_kinds = [],
     err_attrs = [(''message'', JStr ''overloaded''), (''status_code'', JInt 503), (''details'', JDict [])],
     err_response = None, err_text = ''overloaded''\<rparr>"

definition rejected_key :: upstream_error where
  "rejected_key = \<lparr>err_name = ''AuthenticationError'', err_kinds = [IsAuthenticationError],
     err_attrs = [(''message'', JStr ''invalid key''), (''status_code'', JInt 401), (''details'', JDict [])],
     err_response = None, err_text = ''invalid key''\<rparr>"

text \<open>An HTTP exception whose detail is the body of the provider's answer, with the message under \<^verbatim>\<open>error\<close>.\<close>

definition http_401 :: upstream_error where
  "http_401 = \<lparr>err_name = ''HTTPException'', err_kinds = [],
     err_attrs = [(''status_code'', JInt 401), (''detail'', JDict [(''error'', JDict [(''message'', JStr ''invalid key'')])])],
     err_response = None, err_text = ''401''\<rparr>"

lemmas error_eval = attr_def response_attr_def dict_attr_def dict_get_def is_kind_def first_some_def filled_text_def nested_dict_def
  classify_def classifier_status_code_def extract_message_def extract_code_def is_permanent_model_not_found_def
  PERMANENT_MODEL_CODES_def TEMPORARY_CODES_def py_startswith_def py_strip_defs py_char_defs py_lower_def

lemma backend_503_transient: "transient backend_503"
  by (simp add: transient_def cb_can_handle_def status_in_def extract_status_code_def TRANSIENT_STATUS_CODES_def
      NON_TRANSIENT_STATUS_CODES_def backend_503_def error_eval)

lemma rejected_key_failure: "auth_failure rep ''openai.1'' mdl rejected_key"
  by (simp add: auth_failure_def rl_can_handle_def auth_can_handle_def build_reason_def reason_message_def auth_exempt_def
      get_or_empty_def rejected_key_def error_eval)

lemma start_ok: "breakers_ok Map.empty" "circuit_view Map.empty i = Closed 0"
  by (simp_all add: breakers_ok_def circuit_view_def)

theorem availability_decision_witness:
  "fst (check_availability wired (moment 10) ''openai.1'' ''gpt-4o'' (Map.empty, no_limits)) =
     decision wired (moment 10) ''openai.1'' ''gpt-4o'' (Map.empty, no_limits) \<and>
   dec_should_proceed (fst (check_availability wired (moment 10) ''openai.1'' ''gpt-4o'' (Map.empty, no_limits)))"
proof -
  let ?st = "(Map.empty, no_limits)"
  have "gate_open wired ''openai.1''" by (simp add: gate_open_def)
  moreover have "verdict (rs_stores wired) (moment 10) ''openai.1'' ''gpt-4o'' (snd ?st) = Free"
    by (simp add: verdict_def instance_verdict_def model_verdict_def)
  moreover have "\<forall>cfg. rs_breaker wired = Some cfg \<longrightarrow> should_proceed (fst (check cfg (cache_time (moment 10)) ''openai.1'' (fst ?st)))"
    by (simp add: breaker_defs decide_def)
  moreover note availability_decision [of wired ?st "moment 10" "''openai.1''" "''gpt-4o''"]
  moreover have "stores_ok (rs_stores wired)" "breakers_ok (fst ?st)" by (simp_all add: ref_stores_ok start_ok)
  ultimately show ?thesis by blast
qed

theorem check_availability_pure_witness:
  "fst (check_availability wired (moment 20) ''openai.1'' ''gpt-4o'' (snd (check_availability wired (moment 10) ''openai.1'' ''gpt-4o'' (tripped, no_limits)))) =
   fst (check_availability wired (moment 20) ''openai.1'' ''gpt-4o'' (tripped, no_limits))"
  by (rule check_availability_pure) (simp_all add: ref_stores_ok tripped_open)

theorem transient_failures_reject_witness:
  "dec_action (fst (check_availability wired (moment 30) ''openai.1'' ''gpt-4o'' (run_steps (call_step wired)
     (failure_calls ''openai.1'' [(moment 1, ''gpt-4o'', backend_503), (moment 2, ''o1'', backend_503), (moment 3, ''gpt-4o'', backend_503)]
       @ [(moment 4, CallSuccess ''openai.1'' ''gpt-4o''), (moment 5, CallCheck ''openai.2'' ''o1'')])
     (Map.empty, no_limits)))) = REJECT"
  by (rule transient_failures_reject [where cfg = default_config])
    (simp_all add: ref_stores_ok start_ok backend_503_transient)

theorem auth_failure_rejects_witness:
  "dec_action (fst (check_availability wired (moment 3000) ''openai.1'' ''o1'' (run_steps (call_step wired)
     [(moment 0, CallFailure ''openai.1'' ''gpt-4o'' rejected_key), (moment 5, CallSuccess ''openai.1'' ''gpt-4o''),
      (moment 6, CallFailure ''openai.2'' ''o1'' backend_503)] (Map.empty, no_limits)))) = REJECT"
  by (rule auth_failure_rejects [where I = "{''openai.1'', ''openai.2''}"])
    (simp_all add: ref_stores_ok start_ok rejected_key_failure no_limits_live)

text \<open>
  An authentication failure that crashes its handler: when the provider's answer has its message under \<^verbatim>\<open>error\<close> and the
  connector puts the whole answer into the detail of an HTTP exception, recording the failure raises a type error and
  the instance is not disabled.
\<close>

lemma auth_reason_crash:
  "note_failure \<lparr>rs_stores = S, rs_breaker = cb, rs_chain = Some default_chain, rs_healthy = h, rs_repr = rep, rs_fixed1 = fx\<rparr>
     now ''kimi.1'' mdl http_401 st = (Inl PyTypeError, st)"
proof -
  let ?R = "\<lparr>rs_stores = S, rs_breaker = cb, rs_chain = Some default_chain, rs_healthy = h, rs_repr = rep, rs_fixed1 = fx\<rparr>"
  let ?ctx = "\<lparr>ec_instance_id = ''kimi.1'', ec_model = mdl, ec_error = http_401, ec_extra = dict_attr ''__resilience_context__'' http_401\<rparr>"
  have c: "cls_code (classify http_401) \<noteq> ''unsupported_on_instance''" "\<not> cb_can_handle http_401"
    by (simp_all add: http_401_def error_eval cb_can_handle_def status_in_def extract_status_code_def
        TRANSIENT_STATUS_CODES_def NON_TRANSIENT_STATUS_CODES_def)
  have "auth_exempt rep ?ctx = None"
    by (simp add: http_401_def error_eval auth_exempt_def get_or_empty_def)
  moreover have "build_reason rep http_401 = Inl PyTypeError"
    by (simp add: http_401_def error_eval build_reason_def reason_message_def dict_message_def)
  moreover have "auth_can_handle http_401 = Inr True" "\<not> rl_can_handle http_401"
    by (simp_all add: http_401_def error_eval auth_can_handle_def in_auth_codes_def rl_can_handle_def)
  ultimately have "handle_chain rep fx S now default_chain ?ctx m = Inl PyTypeError" for m
    by (simp add: default_chain_def auth_do_handle_def)
  then have "run_chain ?R now default_chain ?ctx st = (Inl PyTypeError, st)"
    using c(2) by (auto simp: run_chain_def cb_handle_def Let_def default_chain_def split: option.split)
  with c(1) show ?thesis by (simp add: note_failure_def Let_def)
qed

end
