(* ===== verification/B2bua_Ids.thy ===== *)
theory B2bua_Ids
  imports Py_Prelude
begin

text \<open>
  The identifiers of B2BUA mode, \<^verbatim>\<open>src/core/services/b2bua_session_id_factory.py\<close>: an A-leg identifier is
  \<^verbatim>\<open>llm-b2bua-<uuid>\<close>, a B-leg identifier \<^verbatim>\<open>llm-b2bua-b-<uuid>-<seq>\<close>. The text of a drawn UUID is an argument.
  The theorems say that a B-leg identifier determines its A-leg and its sequence number, and that no identifier
  is both.
\<close>

section \<open>The factory\<close>

datatype b2bua_error = B2bua_ValueError string | B2bua_KeyError string | B2bua_IntegrityError | B2bua_DatabaseError

definition A_SESSION_PREFIX :: string where "A_SESSION_PREFIX = ''llm-b2bua-''"
definition B_SESSION_PREFIX :: string where "B_SESSION_PREFIX = ''llm-b2bua-b-''"

text \<open>The character class \<^verbatim>\<open>[0-9a-fA-F]\<close>.\<close>

definition hex_char :: "char \<Rightarrow> bool" where
  "hex_char c \<longleftrightarrow> (let n = (of_char c :: nat) in (48 \<le> n \<and> n \<le> 57) \<or> (97 \<le> n \<and> n \<le> 102) \<or> (65 \<le> n \<and> n \<le> 70))"

text \<open>The group \<^verbatim>\<open>a_uuid\<close> of the pattern: five runs of hexadecimal digits, with dashes between them.\<close>

definition uuid_text :: "string \<Rightarrow> bool" where
  "uuid_text s \<longleftrightarrow> length s = 36 \<and>
     list_all (\<lambda>i. if i \<in> {8, 13, 18, 23} then s ! i = CHR ''-'' else hex_char (s ! i)) [0..<36]"

text \<open>A full match of \<^verbatim>\<open>_A_SESSION_PATTERN\<close>, with the text of its group.\<close>

definition a_session_match :: "string \<Rightarrow> string option" where
  "a_session_match s =
     (let u = drop (length A_SESSION_PREFIX) s in
      if py_startswith s A_SESSION_PREFIX \<and> uuid_text u then Some u else None)"

definition is_canonical_a_session_id :: "string \<Rightarrow> bool" where
  "is_canonical_a_session_id v \<longleftrightarrow> a_session_match (py_strip v) \<noteq> None"

definition generate_a_session_id :: "string \<Rightarrow> string" where
  "generate_a_session_id uuid = A_SESSION_PREFIX @ uuid"

text \<open>\<^verbatim>\<open>str(UUID(text))\<close> of a text that matches the pattern writes its digits in lower case.\<close>

definition extract_a_uuid :: "string \<Rightarrow> b2bua_error + string" where
  "extract_a_uuid a =
     (case a_session_match (py_strip a) of
        None \<Rightarrow> Inl (B2bua_ValueError ''Invalid a_session_id format'')
      | Some u \<Rightarrow> Inr (py_lower u))"

definition generate_b_session_id :: "string \<Rightarrow> int \<Rightarrow> b2bua_error + string" where
  "generate_b_session_id a seq =
     (if seq < 1 then Inl (B2bua_ValueError ''seq must be >= 1'')
      else (case extract_a_uuid a of
              Inl e \<Rightarrow> Inl e
            | Inr u \<Rightarrow> Inr (B_SESSION_PREFIX @ u @ ''-'' @ py_str_int seq)))"

text \<open>A full match of \<^verbatim>\<open>[A-Za-z0-9-]+\<close>.\<close>

definition header_safe_char :: "char \<Rightarrow> bool" where
  "header_safe_char c \<longleftrightarrow> (let n = (of_char c :: nat) in
     (65 \<le> n \<and> n \<le> 90) \<or> (97 \<le> n \<and> n \<le> 122) \<or> (48 \<le> n \<and> n \<le> 57) \<or> n = 45)"

definition is_header_safe :: "string \<Rightarrow> bool" where
  "is_header_safe s \<longleftrightarrow> s \<noteq> [] \<and> list_all header_safe_char s"

lemmas session_id_defs = A_SESSION_PREFIX_def B_SESSION_PREFIX_def hex_char_def uuid_text_def a_session_match_def
  is_canonical_a_session_id_def generate_a_session_id_def extract_a_uuid_def generate_b_session_id_def
  header_safe_char_def is_header_safe_def

section \<open>Texts of identifiers\<close>

lemma uuid_text_length: "uuid_text u \<Longrightarrow> length u = 36"
  by (simp add: uuid_text_def)

lemma uuid_text_char:
  assumes "uuid_text u" and "c \<in> set u"
  shows "hex_char c \<or> c = CHR ''-''"
proof -
  obtain i where "i < 36" "u ! i = c"
    using assms by (auto simp: uuid_text_def in_set_conv_nth)
  with assms(1) show ?thesis
    by (fastforce simp: uuid_text_def list_all_iff split: if_splits)
qed

lemma hex_char_safe: "hex_char c \<Longrightarrow> header_safe_char c \<and> header_safe_char (py_lower_char c)"
  by (auto simp: hex_char_def header_safe_char_def py_lower_char_def Let_def)

lemma digit_safe: "py_isdigit c \<Longrightarrow> header_safe_char c"
  by (auto simp: py_isdigit_def header_safe_char_def Let_def)

lemma safe_not_space: "header_safe_char c \<Longrightarrow> \<not> py_isspace c"
  by (auto simp: header_safe_char_def py_isspace_def Let_def)

lemma uuid_text_safe: "uuid_text u \<Longrightarrow> list_all header_safe_char u"
  using uuid_text_char [of u] hex_char_safe by (fastforce simp: list_all_iff header_safe_char_def)

lemma uuid_text_lower_safe: "uuid_text u \<Longrightarrow> list_all header_safe_char (py_lower u)"
  using uuid_text_char [of u] hex_char_safe
  by (fastforce simp: list_all_iff header_safe_char_def py_lower_def py_lower_char_def)

lemma py_strip_safe: "list_all header_safe_char s \<Longrightarrow> py_strip s = s"
  by (cases "s = []") (auto intro!: py_strip_fixed simp: list_all_iff safe_not_space)

lemma prefix_safe [simp]: "list_all header_safe_char A_SESSION_PREFIX" "list_all header_safe_char B_SESSION_PREFIX"
  by (simp_all add: session_id_defs)

lemma generate_a_safe: "uuid_text u \<Longrightarrow> list_all header_safe_char (generate_a_session_id u)"
  by (simp add: generate_a_session_id_def uuid_text_safe)

lemma a_session_match_generate [simp]: "uuid_text u \<Longrightarrow> a_session_match (generate_a_session_id u) = Some u"
  by (simp add: a_session_match_def generate_a_session_id_def)

lemma generate_a_canonical: "uuid_text u \<Longrightarrow> is_canonical_a_session_id (generate_a_session_id u)"
  by (simp add: is_canonical_a_session_id_def py_strip_safe generate_a_safe)

lemma extract_generated: "uuid_text u \<Longrightarrow> extract_a_uuid (generate_a_session_id u) = Inr (py_lower u)"
  by (simp add: extract_a_uuid_def py_strip_safe generate_a_safe)

lemma extract_a_uuidD:
  "extract_a_uuid a = Inr u \<Longrightarrow> \<exists>v. uuid_text v \<and> u = py_lower v \<and> py_strip a = generate_a_session_id v"
  by (auto simp: extract_a_uuid_def a_session_match_def generate_a_session_id_def py_startswith_def Let_def
      split: option.splits if_splits) (metis append_take_drop_id)

lemma extract_length: "extract_a_uuid a = Inr u \<Longrightarrow> length u = 36"
  by (auto dest!: extract_a_uuidD simp: uuid_text_length py_lower_def)

lemma py_str_int_inject: "py_str_int i = py_str_int j \<longleftrightarrow> i = j"
  by (metis option.inject py_int_literal_str_int)

lemma generate_bD:
  assumes "generate_b_session_id a n = Inr b"
  obtains u where "1 \<le> n" "extract_a_uuid a = Inr u" "b = B_SESSION_PREFIX @ u @ ''-'' @ py_str_int n"
  using assms by (fastforce simp: generate_b_session_id_def split: if_splits sum.splits)

section \<open>What the identifiers tell\<close>

lemma b_session_id_inject:
  assumes "generate_b_session_id a m = Inr b" and "generate_b_session_id a' n = Inr b"
  shows "extract_a_uuid a = extract_a_uuid a' \<and> m = n"
proof -
  obtain u where u: "extract_a_uuid a = Inr u" "b = B_SESSION_PREFIX @ u @ ''-'' @ py_str_int m"
    using assms(1) by (rule generate_bD)
  obtain v where v: "extract_a_uuid a' = Inr v" "b = B_SESSION_PREFIX @ v @ ''-'' @ py_str_int n"
    using assms(2) by (rule generate_bD)
  have "length u = length v"
    using u(1) v(1) by (simp add: extract_length)
  with u v show ?thesis by (simp add: py_str_int_inject)
qed

lemma generate_b_safe:
  assumes "generate_b_session_id a n = Inr b"
  shows "list_all header_safe_char b" and "length A_SESSION_PREFIX + 36 < length b"
proof -
  obtain u where u: "1 \<le> n" "extract_a_uuid a = Inr u" "b = B_SESSION_PREFIX @ u @ ''-'' @ py_str_int n"
    using assms by (rule generate_bD)
  have "list_all header_safe_char u"
    using u(2) uuid_text_lower_safe by (auto dest!: extract_a_uuidD)
  moreover have "list_all header_safe_char (py_str_int n)"
    using u(1) py_str_nat_digits [of "nat n"] digit_safe by (auto simp: py_str_int_def all_digits_def list_all_iff)
  ultimately show "list_all header_safe_char b"
    using u(3) by (simp add: header_safe_char_def)
  show "length A_SESSION_PREFIX + 36 < length b"
    using u(2,3) by (simp add: extract_length A_SESSION_PREFIX_def B_SESSION_PREFIX_def)
qed

lemma b_session_id_not_canonical:
  assumes "generate_b_session_id a n = Inr b"
  shows "\<not> is_canonical_a_session_id b"
  using generate_b_safe [OF assms]
  by (auto simp: is_canonical_a_session_id_def py_strip_safe a_session_match_def Let_def dest!: uuid_text_length split: if_splits)

lemma b_session_id_header_safe:
  assumes "generate_b_session_id a n = Inr b"
  shows "is_header_safe b"
  using generate_b_safe [OF assms] by (auto simp: is_header_safe_def)

end
