(* ===== verification/B2bua_Interface.thy ===== *)
theory B2bua_Interface
  imports B2bua_Ids Keyed_Machine
begin

text \<open>
  The interface of the B2BUA mapping stores, \<^verbatim>\<open>src/core/interfaces/b2bua_mapping_store_interface.py\<close>, with what
  both stores of \<^verbatim>\<open>src/core/services/b2bua_mapping_store_service.py\<close> share. A call of the interface is a value of
  \<open>store_call\<close>, its outcome one of \<open>store_answer\<close>; \<^verbatim>\<open>create_a_session_id\<close> is the function \<open>c\<close> whose value \<open>c i\<close> is
  what its call number \<open>i\<close> returns. The locale \<open>leg_store\<close> states the contract of a store; what its clients need of
  whole runs of calls is proved once in it: legs keep their owner, and no leg sees a sequence number twice.
\<close>

section \<open>Calls and answers\<close>

record B2buaContinuityResolution =
  res_a_session_id :: string
  reused_existing :: bool
  had_store_error :: bool

record B2buaAttemptRecord =
  rec_b_session_id :: string
  rec_a_session_id :: string
  rec_seq :: int
  rec_backend_type :: "string option"
  rec_effective_model :: "string option"
  rec_reason :: "string option"

type_synonym scope_key = "string \<times> string"

datatype store_call =
    ResolveOrCreate string string "nat \<Rightarrow> string"
  | TryResolveEchoed string "string option"
  | AllocateNextBSeq string
  | RecordAttempt string string int "string option" "string option" "string option"
  | GetAttemptRecords string

datatype store_answer =
    Resolution B2buaContinuityResolution
  | Echoed "B2buaContinuityResolution option"
  | Sequence int
  | Recorded
  | Attempts "B2buaAttemptRecord list"
  | Raised b2bua_error

definition resolution :: "string \<Rightarrow> bool \<Rightarrow> bool \<Rightarrow> B2buaContinuityResolution" where
  "resolution a reused err = \<lparr>res_a_session_id = a, reused_existing = reused, had_store_error = err\<rparr>"

lemma resolution_sel [simp]:
  "res_a_session_id (resolution a r e) = a" "reused_existing (resolution a r e) = r" "had_store_error (resolution a r e) = e"
  by (simp_all add: resolution_def)

section \<open>What the stores share\<close>

record store_config =
  continuity_ttl_seconds :: int
  sliding_expiration :: bool
  max_entries :: int

definition DEFAULT_CONTINUITY_TTL_SECONDS :: int where "DEFAULT_CONTINUITY_TTL_SECONDS = 3600"
definition ANON_AUTH_SCOPE_PREFIX :: string where "ANON_AUTH_SCOPE_PREFIX = ''__b2bua-anon-auth__''"
definition LOCALHOST_AUTH_SCOPE :: string where "LOCALHOST_AUTH_SCOPE = ''localhost''"

text \<open>The configured values are those of \<^verbatim>\<open>config.session.b2bua\<close>; a missing attribute reads as \<^verbatim>\<open>None\<close>.\<close>

definition read_config_ttl_seconds :: "json option \<Rightarrow> int" where
  "read_config_ttl_seconds config =
     (case config of
        None \<Rightarrow> DEFAULT_CONTINUITY_TTL_SECONDS
      | Some v \<Rightarrow> (case as_int v of
            Some n \<Rightarrow> if n \<ge> 1 then n else DEFAULT_CONTINUITY_TTL_SECONDS
          | None \<Rightarrow> DEFAULT_CONTINUITY_TTL_SECONDS))"

definition read_config_sliding_expiration :: "json option \<Rightarrow> bool" where
  "read_config_sliding_expiration config = (case config of Some (JBool b) \<Rightarrow> b | _ \<Rightarrow> True)"

text \<open>The settings a constructor stores; it refuses a store without room for one entry.\<close>

definition mk_store_config ::
  "(json \<times> json) option \<Rightarrow> int option \<Rightarrow> bool option \<Rightarrow> int \<Rightarrow> b2bua_error + store_config" where
  "mk_store_config config ttl sliding limit =
     (if limit < 1 then Inl (B2bua_ValueError ''max_entries must be >= 1'')
      else Inr \<lparr>continuity_ttl_seconds = (case ttl of Some n \<Rightarrow> n | None \<Rightarrow> read_config_ttl_seconds (map_option fst config)),
                sliding_expiration = (case sliding of Some b \<Rightarrow> b | None \<Rightarrow> read_config_sliding_expiration (map_option snd config)),
                max_entries = limit\<rparr>)"

definition echo_continuity_auth_allows :: "string \<Rightarrow> string option \<Rightarrow> bool" where
  "echo_continuity_auth_allows stored requesting =
     (if requesting = Some stored then True
      else if py_startswith stored ANON_AUTH_SCOPE_PREFIX then
        (if requesting = None then True else if requesting = Some LOCALHOST_AUTH_SCOPE then True else False)
      else False)"

definition normalize_required_identifier :: "string \<Rightarrow> string \<Rightarrow> b2bua_error + string" where
  "normalize_required_identifier v field =
     (let n = py_strip v in if n = [] then Inl (B2bua_ValueError (field @ '' cannot be empty'')) else Inr n)"

lemma normalize_cases:
  "normalize_required_identifier v f = (if py_strip v = [] then Inl (B2bua_ValueError (f @ '' cannot be empty'')) else Inr (py_strip v))"
  by (simp add: normalize_required_identifier_def Let_def)

section \<open>The contract\<close>

text \<open>The identifiers a call may draw, the key it resolves, and how many entries it may add.\<close>

fun draws :: "store_call \<Rightarrow> string set" where
  "draws (ResolveOrCreate x y c) = {c 0, c 1}"
| "draws _ = {}"

fun call_key :: "store_call \<Rightarrow> scope_key option" where
  "call_key (ResolveOrCreate x y c) = Some (py_strip x, py_strip y)"
| "call_key _ = None"

fun creates :: "store_call \<Rightarrow> nat" where
  "creates (ResolveOrCreate x y c) = 1"
| "creates _ = 0"

text \<open>Runs in which every call draws identifiers that were not seen before.\<close>

fun fresh_draws :: "string set \<Rightarrow> store_call list \<Rightarrow> bool" where
  "fresh_draws U [] = True"
| "fresh_draws U (c # cs) = (draws c \<inter> U = {} \<and> fresh_draws (U \<union> draws c) cs)"

definition all_draws :: "store_call list \<Rightarrow> string set" where
  "all_draws cs = (\<Union>c \<in> set cs. draws c)"

lemma all_draws_simps [simp]:
  "all_draws [] = {}" "all_draws (c # cs) = draws c \<union> all_draws cs" "all_draws (cs @ ds) = all_draws cs \<union> all_draws ds"
  by (auto simp: all_draws_def)

lemma fresh_draws_append:
  "fresh_draws U (cs @ ds) \<longleftrightarrow> fresh_draws U cs \<and> fresh_draws (U \<union> all_draws cs) ds"
  by (induction cs arbitrary: U) (auto simp: Un_assoc)

text \<open>
  What a run of calls promises of its answers: a leg that was resolved for a key is given to no other key, and to an
  echo only under an auth scope that may see it; and no two allocations yield the same B-leg identifier.
\<close>

definition answers_isolated :: "store_call list \<Rightarrow> store_answer list \<Rightarrow> bool" where
  "answers_isolated cs rs \<longleftrightarrow> (\<forall>i j u v c r. i < j \<and> j < length cs \<and> cs ! i = ResolveOrCreate u v c \<and> rs ! i = Resolution r \<longrightarrow>
     (\<forall>u' v' c' r'. cs ! j = ResolveOrCreate u' v' c' \<and> rs ! j = Resolution r' \<and> res_a_session_id r' = res_a_session_id r \<longrightarrow>
        py_strip u' = py_strip u \<and> py_strip v' = py_strip v) \<and>
     (\<forall>a q r'. cs ! j = TryResolveEchoed a q \<and> rs ! j = Echoed (Some r') \<and> res_a_session_id r' = res_a_session_id r \<longrightarrow>
        echo_continuity_auth_allows (py_strip u) q))"

definition b_legs_unique :: "store_call list \<Rightarrow> store_answer list \<Rightarrow> bool" where
  "b_legs_unique cs rs \<longleftrightarrow> (\<forall>i j a a' m n b. i < j \<and> j < length cs \<and> cs ! i = AllocateNextBSeq a \<and> rs ! i = Sequence m \<and>
     cs ! j = AllocateNextBSeq a' \<and> rs ! j = Sequence n \<and> generate_b_session_id a m = Inr b \<longrightarrow> generate_b_session_id a' n \<noteq> Inr b)"

text \<open>Identifiers as the factory draws them: the text of a UUID is in lower case.\<close>

definition generated_id :: "string \<Rightarrow> bool" where
  "generated_id a \<longleftrightarrow> (\<exists>u. uuid_text u \<and> py_lower u = u \<and> a = generate_a_session_id u)"

lemma generated_id_extract: "generated_id (py_strip a) \<Longrightarrow> extract_a_uuid a = Inr u \<Longrightarrow> py_strip a = generate_a_session_id u"
  by (auto simp: generated_id_def extract_a_uuid_def)

text \<open>
  A store keeps, for a key, an A-leg identifier with its last sequence number and its time of expiry. A call whose
  environment is not \<open>healthy\<close> may fail.
\<close>

locale leg_store =
  fixes step :: "real \<Rightarrow> 'e \<Rightarrow> 's \<Rightarrow> store_answer \<times> 's" and call :: "'e \<Rightarrow> store_call" and healthy :: "'e \<Rightarrow> bool"
    and inv :: "'s \<Rightarrow> bool" and entry :: "'s \<Rightarrow> scope_key \<rightharpoonup> string \<times> int \<times> real" and count :: "'s \<Rightarrow> nat"
    and cfg :: store_config
  assumes inv_step: "inv s \<Longrightarrow> \<forall>k a n x. entry s k = Some (a, n, x) \<longrightarrow> a \<notin> draws (call e) \<Longrightarrow> inv (snd (step t e s))"
    and one_owner: "inv s \<Longrightarrow> entry s k = Some (a, n, x) \<Longrightarrow> entry s k' = Some (a, n', x') \<Longrightarrow> k = k'"
    and origin: "inv s \<Longrightarrow> entry (snd (step t e s)) k = Some (a, n, x) \<Longrightarrow>
      (\<exists>m x'. m \<le> n \<and> entry s k = Some (a, m, x')) \<or> (a \<in> draws (call e) \<and> n = 0 \<and> call_key (call e) = Some k)"
    and count_step: "inv s \<Longrightarrow> count (snd (step t e s)) \<le> count s + creates (call e)"
    and keep: "inv s \<Longrightarrow> entry s k = Some (a, n, x) \<Longrightarrow> t < x \<Longrightarrow> x \<le> t + of_int (continuity_ttl_seconds cfg) \<Longrightarrow>
      int (count s + creates (call e)) \<le> max_entries cfg \<Longrightarrow>
      \<exists>m x'. entry (snd (step t e s)) k = Some (a, m, x') \<and> n \<le> m \<and> x \<le> x' \<and> x' \<le> t + of_int (continuity_ttl_seconds cfg)"
    and resolve_outcome: "inv s \<Longrightarrow> call e = ResolveOrCreate u v c \<Longrightarrow>
      \<exists>r. fst (step t e s) = Resolution r \<and>
        (if reused_existing r then \<exists>n x. t < x \<and> entry s (py_strip u, py_strip v) = Some (res_a_session_id r, n, x)
         else res_a_session_id r \<in> draws (call e))"
    and resolve_live: "inv s \<Longrightarrow> call e = ResolveOrCreate u v c \<Longrightarrow> healthy e \<Longrightarrow> py_strip u \<noteq> [] \<Longrightarrow> py_strip v \<noteq> [] \<Longrightarrow>
      entry s (py_strip u, py_strip v) = Some (a, n, x) \<Longrightarrow> t < x \<Longrightarrow>
      fst (step t e s) = Resolution (resolution a True False) \<and>
      entry (snd (step t e s)) (py_strip u, py_strip v) =
        Some (a, n, if sliding_expiration cfg then t + of_int (continuity_ttl_seconds cfg) else x)"
    and resolve_new: "inv s \<Longrightarrow> call e = ResolveOrCreate u v c \<Longrightarrow> healthy e \<Longrightarrow> py_strip u \<noteq> [] \<Longrightarrow> py_strip v \<noteq> [] \<Longrightarrow>
      \<forall>a n x. entry s (py_strip u, py_strip v) = Some (a, n, x) \<longrightarrow> x \<le> t \<Longrightarrow>
      \<forall>k a n x. entry s k = Some (a, n, x) \<longrightarrow> a \<notin> draws (call e) \<Longrightarrow> int (count s + 1) \<le> max_entries cfg \<Longrightarrow>
      0 < continuity_ttl_seconds cfg \<Longrightarrow>
      fst (step t e s) = Resolution (resolution (c 0) False False) \<and>
      entry (snd (step t e s)) (py_strip u, py_strip v) = Some (c 0, 0, t + of_int (continuity_ttl_seconds cfg))"
    and echo_outcome: "inv s \<Longrightarrow> call e = TryResolveEchoed a q \<Longrightarrow> fst (step t e s) = Echoed (Some r) \<Longrightarrow>
      \<exists>k n x. t < x \<and> entry s k = Some (res_a_session_id r, n, x) \<and> echo_continuity_auth_allows (fst k) q"
    and allocate_outcome: "inv s \<Longrightarrow> call e = AllocateNextBSeq a \<Longrightarrow> fst (step t e s) = Sequence n \<Longrightarrow>
      \<exists>k x x'. entry s k = Some (py_strip a, n - 1, x) \<and> entry (snd (step t e s)) k = Some (py_strip a, n, x')"
begin

definition used :: "'s \<Rightarrow> string set" where
  "used s = {a. \<exists>k n x. entry s k = Some (a, n, x)}"

definition calls :: "(real \<times> 'e) list \<Rightarrow> store_call list" where
  "calls es = map (call \<circ> snd) es"

lemma calls_simps [simp]: "calls [] = []" "calls (y # es) = call (snd y) # calls es" "calls (xs @ es) = calls xs @ calls es"
  by (simp_all add: calls_def)

lemma usedI: "entry s k = Some (a, n, x) \<Longrightarrow> a \<in> used s"
  unfolding used_def by blast

lemma step_fresh:
  assumes "inv s" and "used s \<subseteq> U" and "draws (call e) \<inter> U = {}"
  shows "inv (snd (step t e s)) \<and> used (snd (step t e s)) \<subseteq> U \<union> draws (call e)"
proof
  show "inv (snd (step t e s))"
    using assms by (intro inv_step) (blast dest: usedI)+
  show "used (snd (step t e s)) \<subseteq> U \<union> draws (call e)"
  proof
    fix a assume "a \<in> used (snd (step t e s))"
    then obtain k n x where "entry (snd (step t e s)) k = Some (a, n, x)" unfolding used_def by blast
    from origin [OF assms(1) this] assms(2) show "a \<in> U \<union> draws (call e)" by (auto dest: usedI)
  qed
qed

text \<open>A leg that is stored after a run and whose identifier was known before was stored before, under the same key.\<close>

lemma run_origin:
  assumes "inv s" and "used s \<subseteq> U" and "fresh_draws U (calls es)"
  shows "inv (snd (run_machine step s es)) \<and> used (snd (run_machine step s es)) \<subseteq> U \<union> all_draws (calls es) \<and>
    (\<forall>k a n x. a \<in> U \<longrightarrow> entry (snd (run_machine step s es)) k = Some (a, n, x) \<longrightarrow> (\<exists>m x'. m \<le> n \<and> entry s k = Some (a, m, x')))"
  using assms
proof (induction es arbitrary: s U)
  case (Cons y es)
  let ?s = "snd (step (fst y) (snd y) s)"
  have fr: "draws (call (snd y)) \<inter> U = {}" "fresh_draws (U \<union> draws (call (snd y))) (calls es)"
    using Cons.prems(3) by auto
  note sf = step_fresh [OF Cons.prems(1,2) fr(1), of "fst y"]
  note IH = Cons.IH [OF conjunct1 [OF sf] conjunct2 [OF sf] fr(2)]
  have "\<exists>m x'. m \<le> n \<and> entry s k = Some (a, m, x')"
    if old: "a \<in> U" "entry (snd (run_machine step ?s es)) k = Some (a, n, x)" for k a n x
  proof -
    obtain m x' where m: "m \<le> n" "entry ?s k = Some (a, m, x')"
      using IH old by blast
    from origin [OF Cons.prems(1) m(2)] old(1) fr(1) obtain l z where "l \<le> m" "entry s k = Some (a, l, z)" by blast
    with m(1) show ?thesis using order_trans by blast
  qed
  with IH show ?case by auto
qed auto

text \<open>The same for the states before two calls of a run.\<close>

lemma state_between:
  assumes "inv s" and "used s \<subseteq> U" and "fresh_draws U (calls es)" and "i < j" and "j < length es"
  defines "S \<equiv> \<lambda>l. snd (run_machine step s (take l es))" and "y \<equiv> es ! i"
  shows "inv (S i)" and "inv (S j)" and "S (Suc i) = snd (step (fst y) (snd y) (S i))"
    and "draws (call (snd y)) \<inter> used (S i) = {}"
    and "a \<in> used (S i) \<union> draws (call (snd y)) \<Longrightarrow> a \<notin> draws (call (snd (es ! j)))"
    and "a \<in> used (S i) \<union> draws (call (snd y)) \<Longrightarrow> entry (S j) k = Some (a, n, x) \<Longrightarrow>
      \<exists>m x'. m \<le> n \<and> entry (S (Suc i)) k = Some (a, m, x')"
proof -
  define zs where "zs = take (j - Suc i) (drop (Suc i) es)"
  let ?V = "U \<union> all_draws (calls (take i es))" and ?d = "draws (call (snd y))"
  have "take j es = take (Suc i) es @ zs"
    using assms(4) by (simp add: zs_def take_add [symmetric])
  moreover have "take (Suc i) es = take i es @ [y]"
    using assms(4,5) by (simp add: y_def take_Suc_conv_app_nth)
  ultimately have tj: "take j es = take i es @ y # zs" and ti: "take (Suc i) es = take i es @ [y]"
    by simp_all
  have es: "es = take i es @ y # zs @ es ! j # drop (Suc j) es"
    using tj id_take_nth_drop [OF assms(5)] by simp
  have fr: "fresh_draws U (calls (take i es))" "?d \<inter> ?V = {}" "fresh_draws (?V \<union> ?d) (calls zs)"
      "draws (call (snd (es ! j))) \<inter> (?V \<union> ?d \<union> all_draws (calls zs)) = {}"
    using assms(3) by (subst (asm) es, simp add: fresh_draws_append Un_assoc; blast)+
  note i1 = run_origin [OF assms(1,2) fr(1)]
  have Si: "inv (S i)" "used (S i) \<subseteq> ?V" using i1 by (auto simp: S_def)
  note i2 = step_fresh [OF Si fr(2), of "fst y"]
  have SS: "S (Suc i) = snd (step (fst y) (snd y) (S i))"
    by (simp add: S_def ti run_machine_append)
  have Sj: "S j = snd (run_machine step (S (Suc i)) zs)"
    by (simp add: S_def tj ti run_machine_append)
  note i3 = run_origin [OF conjunct1 [OF i2] conjunct2 [OF i2] fr(3)]
  show "inv (S i)" "S (Suc i) = snd (step (fst y) (snd y) (S i))" by fact+
  show "inv (S j)" using i3 by (simp add: Sj SS)
  show "?d \<inter> used (S i) = {}" using fr(2) Si(2) by blast
  show "a \<in> used (S i) \<union> ?d \<Longrightarrow> a \<notin> draws (call (snd (es ! j)))" using fr(4) Si(2) by blast
  show "a \<in> used (S i) \<union> ?d \<Longrightarrow> entry (S j) k = Some (a, n, x) \<Longrightarrow> \<exists>m x'. m \<le> n \<and> entry (S (Suc i)) k = Some (a, m, x')"
    using i3 Si(2) unfolding Sj SS by blast
qed

subsection \<open>Isolation\<close>

text \<open>After a resolution, only its own key can hold the resolved leg.\<close>

lemma resolved_owner:
  assumes "inv s" and "draws (call e) \<inter> used s = {}" and "call e = ResolveOrCreate u v c" and "fst (step t e s) = Resolution r"
  shows "res_a_session_id r \<in> used s \<union> draws (call e)"
    and "entry (snd (step t e s)) k = Some (res_a_session_id r, n, x) \<Longrightarrow> k = (py_strip u, py_strip v)"
proof -
  let ?a = "res_a_session_id r" and ?K = "(py_strip u, py_strip v)"
  have out: "if reused_existing r then \<exists>n x. t < x \<and> entry s ?K = Some (?a, n, x) else ?a \<in> draws (call e)"
    using resolve_outcome [OF assms(1,3), of t] assms(4) by auto
  then show "?a \<in> used s \<union> draws (call e)" by (auto split: if_splits dest: usedI)
  assume k: "entry (snd (step t e s)) k = Some (?a, n, x)"
  from origin [OF assms(1) k] show "k = ?K"
  proof
    assume "\<exists>m x'. m \<le> n \<and> entry s k = Some (?a, m, x')"
    then obtain m x' where m: "entry s k = Some (?a, m, x')" by blast
    with assms(2) out have "\<exists>n x. entry s ?K = Some (?a, n, x)" by (auto split: if_splits dest: usedI)
    with m show ?thesis using one_owner [OF assms(1)] by blast
  qed (use assms(3) in auto)
qed

lemma resolutions_isolated:
  assumes "inv s" and "fresh_draws (used s) (calls es)" and "i < j" and "j < length es"
    and "call (snd (es ! i)) = ResolveOrCreate u v c" and "fst (run_machine step s es) ! i = Resolution r"
  shows "call (snd (es ! j)) = ResolveOrCreate u' v' c' \<Longrightarrow> fst (run_machine step s es) ! j = Resolution r' \<Longrightarrow>
      res_a_session_id r' = res_a_session_id r \<Longrightarrow> py_strip u' = py_strip u \<and> py_strip v' = py_strip v"
    and "call (snd (es ! j)) = TryResolveEchoed a q \<Longrightarrow> fst (run_machine step s es) ! j = Echoed (Some r') \<Longrightarrow>
      res_a_session_id r' = res_a_session_id r \<Longrightarrow> echo_continuity_auth_allows (py_strip u) q"
proof -
  note st = state_between [OF assms(1) order_refl assms(2,3,4)]
  have ri: "fst (step (fst (es ! i)) (snd (es ! i)) (snd (run_machine step s (take i es)))) = Resolution r"
    using assms(3,4,6) by (simp add: run_machine_nth)
  note own = resolved_owner [OF st(1) st(4) assms(5) ri]
  have owner: "k = (py_strip u, py_strip v)"
    if "entry (snd (run_machine step s (take j es))) k = Some (res_a_session_id r, n, x)" for k n x
    using st(6) [OF own(1) that] own(2) unfolding st(3) by blast
  show "py_strip u' = py_strip u \<and> py_strip v' = py_strip v"
    if j: "call (snd (es ! j)) = ResolveOrCreate u' v' c'" "fst (run_machine step s es) ! j = Resolution r'"
      "res_a_session_id r' = res_a_session_id r"
    using resolve_outcome [OF st(2) j(1), of "fst (es ! j)"] j(2,3) assms(4) st(5) [OF own(1)] owner
    by (auto simp: run_machine_nth split: if_splits)
  show "echo_continuity_auth_allows (py_strip u) q"
    if j: "call (snd (es ! j)) = TryResolveEchoed a q" "fst (run_machine step s es) ! j = Echoed (Some r')"
      "res_a_session_id r' = res_a_session_id r"
    using echo_outcome [OF st(2) j(1), of "fst (es ! j)" r'] j(2,3) assms(4) owner
    by (auto simp: run_machine_nth)
qed

subsection \<open>Sequence numbers\<close>

lemma sequences_increase:
  assumes "inv s" and "fresh_draws (used s) (calls es)" and "i < j" and "j < length es"
    and "call (snd (es ! i)) = AllocateNextBSeq a" and "fst (run_machine step s es) ! i = Sequence m"
    and "call (snd (es ! j)) = AllocateNextBSeq a'" and "fst (run_machine step s es) ! j = Sequence n"
    and "py_strip a' = py_strip a"
  shows "m < n"
proof -
  note st = state_between [OF assms(1) order_refl assms(2,3,4)]
  have ri: "fst (step (fst (es ! i)) (snd (es ! i)) (snd (run_machine step s (take i es)))) = Sequence m"
    using assms(3,4,6) by (simp add: run_machine_nth)
  have rj: "fst (step (fst (es ! j)) (snd (es ! j)) (snd (run_machine step s (take j es)))) = Sequence n"
    using assms(4,8) by (simp add: run_machine_nth)
  obtain k x x' where k: "entry (snd (run_machine step s (take i es))) k = Some (py_strip a, m - 1, x)"
      "entry (snd (run_machine step s (take (Suc i) es))) k = Some (py_strip a, m, x')"
    using allocate_outcome [OF st(1) assms(5) ri] unfolding st(3) by blast
  obtain k' y where k': "entry (snd (run_machine step s (take j es))) k' = Some (py_strip a, n - 1, y)"
    using allocate_outcome [OF st(2) assms(7) rj] assms(9) by auto
  have "py_strip a \<in> used (snd (run_machine step s (take i es))) \<union> draws (call (snd (es ! i)))"
    using k(1) usedI by blast
  from st(6) [OF this k'] obtain l z where l: "l \<le> n - 1" "entry (snd (run_machine step s (take (Suc i) es))) k' = Some (py_strip a, l, z)"
    by blast
  have "inv (snd (run_machine step s (take (Suc i) es)))"
    using step_fresh [OF st(1) order_refl st(4)] unfolding st(3) by blast
  from one_owner [OF this l(2) k(2)] l k(2) show ?thesis by simp
qed

subsection \<open>Runs\<close>

lemma run_isolated:
  assumes "inv s" and "fresh_draws (used s) (calls es)"
  shows "answers_isolated (calls es) (fst (run_machine step s es))"
  unfolding answers_isolated_def
proof (intro allI impI, elim conjE)
  fix i j u v c r
  assume ij: "i < j" "j < length (calls es)" and i: "calls es ! i = ResolveOrCreate u v c" "fst (run_machine step s es) ! i = Resolution r"
  have j: "j < length es" "call (snd (es ! j)) = calls es ! j" "call (snd (es ! i)) = ResolveOrCreate u v c"
    using ij i(1) by (simp_all add: calls_def)
  note iso = resolutions_isolated [OF assms ij(1) j(1) j(3) i(2), unfolded j(2)]
  show "(\<forall>u' v' c' r'. calls es ! j = ResolveOrCreate u' v' c' \<and> fst (run_machine step s es) ! j = Resolution r' \<and>
      res_a_session_id r' = res_a_session_id r \<longrightarrow> py_strip u' = py_strip u \<and> py_strip v' = py_strip v) \<and>
    (\<forall>a q r'. calls es ! j = TryResolveEchoed a q \<and> fst (run_machine step s es) ! j = Echoed (Some r') \<and>
      res_a_session_id r' = res_a_session_id r \<longrightarrow> echo_continuity_auth_allows (py_strip u) q)"
    using iso by blast
qed

lemma allocated_used:
  assumes "inv s" and "fresh_draws (used s) (calls es)" and "j < length es"
    and "call (snd (es ! j)) = AllocateNextBSeq a" and "fst (run_machine step s es) ! j = Sequence n"
  shows "py_strip a \<in> used s \<union> all_draws (calls es)"
proof -
  let ?s = "snd (run_machine step s (take j es))"
  have t: "calls es = calls (take j es) @ calls (drop j es)"
    by (simp flip: calls_simps)
  then have f: "fresh_draws (used s) (calls (take j es))"
    using assms(2) by (simp add: fresh_draws_append)
  have "fst (step (fst (es ! j)) (snd (es ! j)) ?s) = Sequence n"
    using assms(3,5) by (simp add: run_machine_nth)
  moreover have o: "inv ?s" "used ?s \<subseteq> used s \<union> all_draws (calls (take j es))"
    using run_origin [OF assms(1) order_refl f] by auto
  ultimately have "py_strip a \<in> used ?s"
    using allocate_outcome [OF o(1) assms(4)] usedI by blast
  with o(2) show ?thesis unfolding t by auto
qed

lemma run_b_legs_unique:
  assumes "inv s" and "fresh_draws (used s) (calls es)" and "\<forall>a \<in> used s \<union> all_draws (calls es). generated_id a"
  shows "b_legs_unique (calls es) (fst (run_machine step s es))"
  unfolding b_legs_unique_def
proof (intro allI impI notI, elim conjE)
  fix i j a a' m n b
  assume ij: "i < j" "j < length (calls es)" and i: "calls es ! i = AllocateNextBSeq a" "fst (run_machine step s es) ! i = Sequence m"
    and j: "calls es ! j = AllocateNextBSeq a'" "fst (run_machine step s es) ! j = Sequence n"
    and b: "generate_b_session_id a m = Inr b" "generate_b_session_id a' n = Inr b"
  have c: "call (snd (es ! i)) = AllocateNextBSeq a" "call (snd (es ! j)) = AllocateNextBSeq a'" "j < length es" "i < length es"
    using ij i(1) j(1) by (simp_all add: calls_def)
  have g: "generated_id (py_strip a)" "generated_id (py_strip a')"
    using allocated_used [OF assms(1,2) c(4,1) i(2)] allocated_used [OF assms(1,2) c(3,2) j(2)] assms(3) by auto
  obtain u where u: "extract_a_uuid a = Inr u" using b(1) by (rule generate_bD)
  have "extract_a_uuid a' = Inr u" "m = n"
    using b_session_id_inject [OF b] u by simp_all
  then have "py_strip a' = py_strip a"
    using generated_id_extract [OF g(1) u] generated_id_extract [OF g(2)] by simp
  from sequences_increase [OF assms(1,2) ij(1) c(3,1) i(2) c(2) j(2) this] \<open>m = n\<close> show False by simp
qed

subsection \<open>Continuity\<close>

lemma run_keeps:
  assumes "inv s" and "fresh_draws U (calls es)" and "used s \<subseteq> U" and "entry s k = Some (a, n, x)"
    and "x \<le> t + of_int (continuity_ttl_seconds cfg)" and "sorted (t # map fst es)" and "\<forall>y \<in> set es. fst y < x"
    and "int (count s + sum_list (map creates (calls es))) \<le> max_entries cfg"
  shows "\<exists>m x'. entry (snd (run_machine step s es)) k = Some (a, m, x') \<and> n \<le> m \<and> x \<le> x'"
  using assms
proof (induction es arbitrary: s U n x t)
  case (Cons y es)
  let ?s = "snd (step (fst y) (snd y) s)"
  note sf = step_fresh [OF Cons.prems(1,3), of "snd y" "fst y"]
  have c: "count ?s \<le> count s + creates (call (snd y))"
    using count_step [OF Cons.prems(1)] .
  obtain m x' where m: "entry ?s k = Some (a, m, x')" "n \<le> m" "x \<le> x'" "x' \<le> fst y + of_int (continuity_ttl_seconds cfg)"
    using keep [OF Cons.prems(1,4), of "fst y" "snd y"] Cons.prems(5,6,7,8) by auto
  have "\<exists>l z. entry (snd (run_machine step ?s es)) k = Some (a, l, z) \<and> m \<le> l \<and> x' \<le> z"
    using sf Cons.prems m(3) c
    by (intro Cons.IH [where t = "fst y" and U = "U \<union> draws (call (snd y))"] m(1,4)) force+
  with m(2,3) show ?case using order_trans by fastforce
qed auto

text \<open>
  A key that is resolved at \<open>t\<close> keeps its leg for the whole time to live, whatever other calls are answered meanwhile,
  as long as the store has room for the entries they may add.
\<close>

lemma continuity:
  assumes "inv s" and "fresh_draws (used s) (calls ((t, e) # es))" and "healthy e" and "healthy e'"
    and "call e = ResolveOrCreate u v c" and "call e' = ResolveOrCreate u' v' c'"
    and "py_strip u' = py_strip u" and "py_strip v' = py_strip v" and "py_strip u \<noteq> []" and "py_strip v \<noteq> []"
    and "sliding_expiration cfg \<or> entry s (py_strip u, py_strip v) = None" and "0 < continuity_ttl_seconds cfg"
    and "sorted (t # map fst es @ [t'])" and "t' < t + of_int (continuity_ttl_seconds cfg)"
    and "int (count s + sum_list (map creates (calls ((t, e) # es)))) \<le> max_entries cfg"
  shows "\<exists>a b. fst (step t e s) = Resolution (resolution a b False) \<and>
    fst (step t' e' (snd (run_machine step (snd (step t e s)) es))) = Resolution (resolution a True False)"
proof -
  let ?s = "snd (step t e s)" and ?K = "(py_strip u, py_strip v)" and ?x = "t + of_int (continuity_ttl_seconds cfg)"
  have fr: "draws (call e) \<inter> used s = {}" "fresh_draws (used s \<union> draws (call e)) (calls es)"
    using assms(2) by auto
  note sf = step_fresh [OF assms(1) order_refl fr(1), of t]
  have "\<exists>a b n. fst (step t e s) = Resolution (resolution a b False) \<and> entry ?s ?K = Some (a, n, ?x)"
  proof (cases "\<exists>a n x. entry s ?K = Some (a, n, x) \<and> t < x")
    case True
    then obtain a n x where "entry s ?K = Some (a, n, x)" "t < x" by blast
    with resolve_live [OF assms(1,5,3,9,10) this] assms(11) show ?thesis by auto
  next
    case False
    then have "\<forall>a n x. entry s ?K = Some (a, n, x) \<longrightarrow> x \<le> t" by (meson not_le)
    moreover have "\<forall>k a n x. entry s k = Some (a, n, x) \<longrightarrow> a \<notin> draws (call e)"
      using fr(1) usedI by blast
    moreover have "int (count s + 1) \<le> max_entries cfg" using assms(5,15) by simp
    ultimately show ?thesis
      using resolve_new [OF assms(1,5,3,9,10)] assms(12) by blast
  qed
  then obtain a b n where a: "fst (step t e s) = Resolution (resolution a b False)" "entry ?s ?K = Some (a, n, ?x)" by blast
  have "\<forall>y \<in> set es. fst y < ?x" using assms(13,14) by (auto simp: sorted_append)
  moreover have "int (count ?s + sum_list (map creates (calls es))) \<le> max_entries cfg"
    using assms(15) count_step [OF assms(1), of t e] by simp
  moreover have "sorted (t # map fst es)" using assms(13) by (auto simp: sorted_append)
  ultimately obtain m x' where m: "entry (snd (run_machine step ?s es)) ?K = Some (a, m, x')" "?x \<le> x'"
    using run_keeps [OF conjunct1 [OF sf] fr(2) conjunct2 [OF sf] a(2) order_refl] by blast
  have "inv (snd (run_machine step ?s es))"
    using run_origin [OF conjunct1 [OF sf] conjunct2 [OF sf] fr(2)] by blast
  from resolve_live [OF this assms(6,4)] m assms(7-10,14) a(1) show ?thesis by auto
qed

end

end
