(* ===== verification/B2bua_Memory.thy ===== *)
theory B2bua_Memory
  imports B2bua_Interface "HOL-Library.AList"
begin

text \<open>
  The in-memory mapping store, class \<^verbatim>\<open>InMemoryB2buaMappingStore\<close> of
  \<^verbatim>\<open>src/core/services/b2bua_mapping_store_service.py\<close>. Every operation runs under the store's lock; \<open>now\<close> is the value
  of its clock. The dictionary of entries keeps its insertion order, on which the eviction depends. The store
  satisfies the contract \<open>leg_store\<close>.
\<close>

section \<open>State\<close>

record ContinuityEntry =
  entry_a_session_id :: string
  expires_at :: real
  last_accessed_at :: real
  last_b_seq :: int

record memory_store =
  entries :: "(scope_key \<times> ContinuityEntry) list"
  a_session_to_key :: "string \<rightharpoonup> scope_key"
  attempt_records :: "string \<rightharpoonup> B2buaAttemptRecord list"

definition empty_memory_store :: memory_store where
  "empty_memory_store = \<lparr>entries = [], a_session_to_key = Map.empty, attempt_records = Map.empty\<rparr>"

section \<open>Operations\<close>

text \<open>The body shared by the loops of \<^verbatim>\<open>_cleanup_expired_entries\<close> and \<^verbatim>\<open>_evict_if_needed\<close>.\<close>

definition pop_entry :: "scope_key \<Rightarrow> memory_store \<Rightarrow> memory_store" where
  "pop_entry k st =
     (case map_of (entries st) k of
        None \<Rightarrow> st
      | Some e \<Rightarrow> st\<lparr>entries := AList.delete k (entries st),
                    a_session_to_key := (a_session_to_key st)(entry_a_session_id e := None),
                    attempt_records := (attempt_records st)(entry_a_session_id e := None)\<rparr>)"

definition cleanup_expired_entries :: "real \<Rightarrow> memory_store \<Rightarrow> memory_store" where
  "cleanup_expired_entries now st =
     fold pop_entry (map fst (filter (\<lambda>p. expires_at (snd p) \<le> now) (entries st))) st"

text \<open>\<^verbatim>\<open>min(..., key=last_accessed_at)\<close> returns the first of several least items.\<close>

fun oldest_entry :: "(scope_key \<times> ContinuityEntry) \<Rightarrow> (scope_key \<times> ContinuityEntry) list \<Rightarrow> scope_key \<times> ContinuityEntry" where
  "oldest_entry best [] = best"
| "oldest_entry best (p # ps) =
     oldest_entry (if last_accessed_at (snd p) < last_accessed_at (snd best) then p else best) ps"

lemma oldest_entry_in: "oldest_entry p ps \<in> set (p # ps)"
  by (induction ps arbitrary: p) (auto split: if_splits)

function evict_if_needed :: "nat \<Rightarrow> memory_store \<Rightarrow> memory_store" where
  "evict_if_needed limit st =
     (case entries st of
        [] \<Rightarrow> st
      | p # ps \<Rightarrow> if length (p # ps) > limit then evict_if_needed limit (pop_entry (fst (oldest_entry p ps)) st) else st)"
  by auto
termination
proof (relation "measure (\<lambda>(limit, st). length (entries st))")
  fix limit and st :: memory_store and p ps assume e: "entries st = p # ps" and "limit < length (p # ps)"
  have "fst (oldest_entry p ps) \<in> fst ` set (entries st)"
    using oldest_entry_in [of p ps] e by auto
  then show "((limit, pop_entry (fst (oldest_entry p ps)) st), (limit, st)) \<in> measure (\<lambda>(limit, st). length (entries st))"
    using length_delete_less [of "fst (oldest_entry p ps)" "entries st"]
    by (simp add: pop_entry_def map_of_eq_None_iff split: option.splits)
qed simp

declare evict_if_needed.simps [simp del]

text \<open>\<^verbatim>\<open>entry.last_accessed_at = now\<close> and the sliding expiry.\<close>

definition touch :: "store_config \<Rightarrow> real \<Rightarrow> ContinuityEntry \<Rightarrow> ContinuityEntry" where
  "touch cfg now e =
     (let e' = e\<lparr>last_accessed_at := now\<rparr> in
      if sliding_expiration cfg then e'\<lparr>expires_at := now + of_int (continuity_ttl_seconds cfg)\<rparr> else e')"

definition put_entry :: "scope_key \<Rightarrow> ContinuityEntry \<Rightarrow> memory_store \<Rightarrow> memory_store" where
  "put_entry k e st = st\<lparr>entries := AList.update k e (entries st)\<rparr>"

definition resolve_or_create_core ::
  "store_config \<Rightarrow> real \<Rightarrow> string \<Rightarrow> string \<Rightarrow> (nat \<Rightarrow> string) \<Rightarrow> memory_store \<Rightarrow> b2bua_error + B2buaContinuityResolution \<times> memory_store" where
  "resolve_or_create_core cfg now auth client create st0 =
     bind_res (normalize_required_identifier auth ''auth_scope_id'') (\<lambda>x.
     bind_res (normalize_required_identifier client ''client_session_id'') (\<lambda>y.
       let st = cleanup_expired_entries now st0 in
       case map_of (entries st) (x, y) of
         Some e \<Rightarrow> Inr (resolution (entry_a_session_id e) True False, put_entry (x, y) (touch cfg now e) st)
       | None \<Rightarrow>
           (let a = create 0;
                e = \<lparr>entry_a_session_id = a, expires_at = now + of_int (continuity_ttl_seconds cfg), last_accessed_at = now, last_b_seq = 0\<rparr>;
                st1 = put_entry (x, y) e st;
                st2 = st1\<lparr>a_session_to_key := (a_session_to_key st1)(a \<mapsto> (x, y))\<rparr> in
            Inr (resolution a False False, evict_if_needed (nat (max_entries cfg)) st2))))"

definition resolve_or_create_a_session_id ::
  "store_config \<Rightarrow> real \<Rightarrow> string \<Rightarrow> string \<Rightarrow> (nat \<Rightarrow> string) \<Rightarrow> memory_store \<Rightarrow> B2buaContinuityResolution \<times> memory_store" where
  "resolve_or_create_a_session_id cfg now auth client create st =
     (case resolve_or_create_core cfg now auth client create st of
        Inr r \<Rightarrow> r
      | Inl _ \<Rightarrow> (resolution (create 0) False True, st))"

definition try_resolve_echoed_a_session_id ::
  "store_config \<Rightarrow> real \<Rightarrow> string \<Rightarrow> string option \<Rightarrow> memory_store \<Rightarrow> B2buaContinuityResolution option \<times> memory_store" where
  "try_resolve_echoed_a_session_id cfg now a scope st0 =
     (case normalize_required_identifier a ''a_session_id'' of
        Inl _ \<Rightarrow> (None, st0)
      | Inr n \<Rightarrow>
          (let st = cleanup_expired_entries now st0 in
           case a_session_to_key st n of
             None \<Rightarrow> (None, st)
           | Some k \<Rightarrow>
               (case map_of (entries st) k of
                  None \<Rightarrow> (None, st)
                | Some e \<Rightarrow>
                    (if expires_at e \<le> now then (None, st)
                     else if \<not> echo_continuity_auth_allows (fst k) scope then (None, st)
                     else (Some (resolution (entry_a_session_id e) True False), put_entry k (touch cfg now e) st)))))"

definition not_found :: "string \<Rightarrow> b2bua_error" where
  "not_found a = B2bua_KeyError (''A-leg session mapping not found for a_session_id='' @ a)"

definition allocate_next_b_seq ::
  "store_config \<Rightarrow> real \<Rightarrow> string \<Rightarrow> memory_store \<Rightarrow> (b2bua_error + int) \<times> memory_store" where
  "allocate_next_b_seq cfg now a st0 =
     (case normalize_required_identifier a ''a_session_id'' of
        Inl err \<Rightarrow> (Inl err, st0)
      | Inr n \<Rightarrow>
          (let st = cleanup_expired_entries now st0 in
           case a_session_to_key st n of
             None \<Rightarrow> (Inl (not_found n), st)
           | Some k \<Rightarrow>
               (case map_of (entries st) k of
                  None \<Rightarrow> (Inl (not_found n), st\<lparr>a_session_to_key := (a_session_to_key st)(n := None)\<rparr>)
                | Some e \<Rightarrow>
                    (let e' = e\<lparr>last_b_seq := last_b_seq e + 1\<rparr> in
                     (Inr (last_b_seq e'), put_entry k (touch cfg now e') st)))))"

definition record_attempt ::
  "real \<Rightarrow> string \<Rightarrow> string \<Rightarrow> int \<Rightarrow> string option \<Rightarrow> string option \<Rightarrow> string option \<Rightarrow> memory_store \<Rightarrow> (b2bua_error + unit) \<times> memory_store" where
  "record_attempt now a b seq backend model reason st0 =
     (case (normalize_required_identifier a ''a_session_id'', normalize_required_identifier b ''b_session_id'') of
        (Inl err, _) \<Rightarrow> (Inl err, st0)
      | (_, Inl err) \<Rightarrow> (Inl err, st0)
      | (Inr na, Inr nb) \<Rightarrow>
          (if seq < 1 then (Inl (B2bua_ValueError ''seq must be >= 1''), st0)
           else
             (let st = cleanup_expired_entries now st0 in
              if a_session_to_key st na = None then (Inl (not_found na), st)
              else
                (let record = \<lparr>rec_b_session_id = nb, rec_a_session_id = na, rec_seq = seq, rec_backend_type = backend,
                       rec_effective_model = model, rec_reason = reason\<rparr>;
                     records = (case attempt_records st na of None \<Rightarrow> [] | Some rs \<Rightarrow> rs) in
                 (Inr (), st\<lparr>attempt_records := (attempt_records st)(na \<mapsto> records @ [record])\<rparr>)))))"

definition get_attempt_records :: "real \<Rightarrow> string \<Rightarrow> memory_store \<Rightarrow> (b2bua_error + B2buaAttemptRecord list) \<times> memory_store" where
  "get_attempt_records now a st0 =
     (case normalize_required_identifier a ''a_session_id'' of
        Inl err \<Rightarrow> (Inl err, st0)
      | Inr n \<Rightarrow>
          (let st = cleanup_expired_entries now st0 in
           (Inr (case attempt_records st n of None \<Rightarrow> [] | Some rs \<Rightarrow> rs), st)))"

text \<open>One call of the interface.\<close>

definition answer :: "('a \<Rightarrow> store_answer) \<Rightarrow> (b2bua_error + 'a) \<times> 's \<Rightarrow> store_answer \<times> 's" where
  "answer f r = (case fst r of Inl err \<Rightarrow> Raised err | Inr v \<Rightarrow> f v, snd r)"

fun memory_step :: "store_config \<Rightarrow> real \<Rightarrow> store_call \<Rightarrow> memory_store \<Rightarrow> store_answer \<times> memory_store" where
  "memory_step cfg now (ResolveOrCreate x y c) st = apfst Resolution (resolve_or_create_a_session_id cfg now x y c st)"
| "memory_step cfg now (TryResolveEchoed a q) st = apfst Echoed (try_resolve_echoed_a_session_id cfg now a q st)"
| "memory_step cfg now (AllocateNextBSeq a) st = answer Sequence (allocate_next_b_seq cfg now a st)"
| "memory_step cfg now (RecordAttempt a b n t m r) st = answer (\<lambda>_. Recorded) (record_attempt now a b n t m r st)"
| "memory_step cfg now (GetAttemptRecords a) st = answer Attempts (get_attempt_records now a st)"

section \<open>The invariant\<close>

text \<open>The index of A-leg identifiers is the inverse of the dictionary of entries; attempts are kept for stored legs only.\<close>

definition legs_consistent :: "memory_store \<Rightarrow> bool" where
  "legs_consistent st \<longleftrightarrow> distinct (map fst (entries st)) \<and>
     (\<forall>a k. a_session_to_key st a = Some k \<longleftrightarrow> (\<exists>e. map_of (entries st) k = Some e \<and> entry_a_session_id e = a)) \<and>
     dom (attempt_records st) \<subseteq> dom (a_session_to_key st)"

definition memory_inv :: "store_config \<Rightarrow> memory_store \<Rightarrow> bool" where
  "memory_inv cfg st \<longleftrightarrow> legs_consistent st \<and> (\<forall>p \<in> set (entries st). 0 \<le> last_b_seq (snd p)) \<and>
     int (length (entries st)) \<le> max_entries cfg"

definition memory_entry :: "memory_store \<Rightarrow> scope_key \<rightharpoonup> string \<times> int \<times> real" where
  "memory_entry st k = map_option (\<lambda>e. (entry_a_session_id e, last_b_seq e, expires_at e)) (map_of (entries st) k)"

lemma legs_consistentD:
  assumes "legs_consistent st"
  shows "distinct (map fst (entries st))"
    and "a_session_to_key st a = Some k \<longleftrightarrow> (\<exists>e. map_of (entries st) k = Some e \<and> entry_a_session_id e = a)"
    and "dom (attempt_records st) \<subseteq> dom (a_session_to_key st)"
  using assms unfolding legs_consistent_def by blast+

lemma pop_entry_map [simp]: "map_of (entries (pop_entry k st)) = (map_of (entries st))(k := None)"
  by (auto simp: pop_entry_def map_of_AList_delete split: option.splits)

lemma pop_entry_set: "set (entries (pop_entry k st)) \<subseteq> set (entries st)"
  by (auto simp: pop_entry_def AList.delete_eq split: option.splits)

lemma pop_entry_length: "length (entries (pop_entry k st)) \<le> length (entries st)"
  by (auto simp: pop_entry_def AList.delete_eq split: option.splits)

lemma pop_entry_consistent:
  assumes "legs_consistent st"
  shows "legs_consistent (pop_entry k st)"
proof (cases "map_of (entries st) k")
  case None
  with assms show ?thesis by (simp add: pop_entry_def)
next
  case (Some e)
  note c = legs_consistentD [OF assms]
  have "a_session_to_key (pop_entry k st) a = Some k' \<longleftrightarrow>
      (\<exists>e. map_of (entries (pop_entry k st)) k' = Some e \<and> entry_a_session_id e = a)" for a k'
    using Some c(2) [of a k'] c(2) [of "entry_a_session_id e" k] c(2) [of "entry_a_session_id e" k']
    by (auto simp: pop_entry_def map_of_AList_delete)
  moreover have "dom (attempt_records (pop_entry k st)) \<subseteq> dom (a_session_to_key (pop_entry k st))"
    using Some c(3) by (auto simp: pop_entry_def)
  moreover have "distinct (map fst (entries (pop_entry k st)))"
    using c(1) Some by (auto simp: pop_entry_def distinct_delete)
  ultimately show ?thesis unfolding legs_consistent_def by blast
qed

lemma fold_pop:
  "map_of (entries (fold pop_entry ks st)) = (\<lambda>k. if k \<in> set ks then None else map_of (entries st) k)"
  "set (entries (fold pop_entry ks st)) \<subseteq> set (entries st)"
  "length (entries (fold pop_entry ks st)) \<le> length (entries st)"
  "legs_consistent st \<Longrightarrow> legs_consistent (fold pop_entry ks st)"
proof (induction ks arbitrary: st)
  case (Cons k ks)
  { case 1 show ?case by (simp add: Cons.IH(1) fun_eq_iff) }
  { case 2 show ?case using Cons.IH(2) [of "pop_entry k st"] pop_entry_set by fastforce }
  { case 3 show ?case using Cons.IH(3) [of "pop_entry k st"] pop_entry_length [of k st] by simp }
  { case 4 then show ?case using Cons.IH(4) pop_entry_consistent by simp }
qed auto

text \<open>Cleaning up leaves the live entries.\<close>

definition live :: "real \<Rightarrow> memory_store \<Rightarrow> scope_key \<rightharpoonup> ContinuityEntry" where
  "live now st k = (case map_of (entries st) k of None \<Rightarrow> None | Some e \<Rightarrow> if expires_at e \<le> now then None else Some e)"

lemma cleanup_map:
  assumes "legs_consistent st"
  shows "map_of (entries (cleanup_expired_entries now st)) = live now st"
proof
  fix k
  have d: "distinct (map fst (entries st))"
    using assms by (rule legs_consistentD)
  have "k \<in> fst ` {p \<in> set (entries st). expires_at (snd p) \<le> now} \<longleftrightarrow> (\<exists>e. map_of (entries st) k = Some e \<and> expires_at e \<le> now)"
    by (force simp: map_of_eq_Some_iff [OF d])
  then show "map_of (entries (cleanup_expired_entries now st)) k = live now st k"
    by (auto simp: cleanup_expired_entries_def fold_pop live_def split: option.splits)
qed

lemma cleanup_length: "length (entries (cleanup_expired_entries now st)) \<le> length (entries st)"
  by (simp add: cleanup_expired_entries_def fold_pop)

lemma cleanup_set: "set (entries (cleanup_expired_entries now st)) \<subseteq> set (entries st)"
  unfolding cleanup_expired_entries_def by (rule fold_pop)

lemma cleanup_inv: "memory_inv cfg st \<Longrightarrow> memory_inv cfg (cleanup_expired_entries now st)"
  using cleanup_length [of now st] cleanup_set [of now st]
  by (auto simp: memory_inv_def) (simp add: cleanup_expired_entries_def fold_pop)

end
