(* ===== verification/B2bua_Memory_Theorems.thy ===== *)
theory B2bua_Memory_Theorems
  imports B2bua_Memory
begin

text \<open>
  The in-memory mapping store satisfies the contract of the stores: every operation keeps the invariant, changes a
  stored leg only by touching it or by counting it up, and adds at most the leg it resolves.
\<close>

declare split_paired_All [simp del] split_paired_Ex [simp del]

section \<open>Eviction\<close>

lemma evict_if_needed_props:
  "length (entries (evict_if_needed limit st)) \<le> limit"
  "map_of (entries (evict_if_needed limit st)) \<subseteq>\<^sub>m map_of (entries st)"
  "legs_consistent st \<Longrightarrow> legs_consistent (evict_if_needed limit st)"
proof (induction limit st rule: evict_if_needed.induct)
  case (1 limit st)
  note step = evict_if_needed.simps [of limit st]
  { case 1 show ?case
      using "1.IH"(1) by (simp add: step split: list.splits) }
  { case 2 show ?case
    proof (cases "entries st")
      case (Cons p ps)
      let ?k = "fst (oldest_entry p ps)"
      have "map_of (entries (pop_entry ?k st)) \<subseteq>\<^sub>m map_of (entries st)"
        by (auto simp: map_le_def)
      with "1.IH"(2) [OF Cons] have "limit < length (p # ps) \<Longrightarrow>
          map_of (entries (evict_if_needed limit (pop_entry ?k st))) \<subseteq>\<^sub>m map_of (entries st)"
        using map_le_trans by blast
      moreover have "evict_if_needed limit st = (if limit < length (p # ps) then evict_if_needed limit (pop_entry ?k st) else st)"
        using Cons by (simp add: step)
      ultimately show ?thesis by (auto split: if_splits)
    qed (simp add: step) }
  { case 3 then show ?case
      using "1.IH"(3) pop_entry_consistent by (simp add: step split: list.splits) }
qed

lemma evict_if_needed_id: "length (entries st) \<le> limit \<Longrightarrow> evict_if_needed limit st = st"
  by (subst evict_if_needed.simps) (auto split: list.splits)

section \<open>Updates of entries\<close>

text \<open>What touching or counting may change of an entry.\<close>

definition same_leg :: "store_config \<Rightarrow> real \<Rightarrow> ContinuityEntry \<Rightarrow> ContinuityEntry \<Rightarrow> bool" where
  "same_leg cfg now e e' \<longleftrightarrow> entry_a_session_id e' = entry_a_session_id e \<and> last_b_seq e \<le> last_b_seq e' \<and>
     (expires_at e' = expires_at e \<or> expires_at e' = now + of_int (continuity_ttl_seconds cfg))"

definition quiet_step :: "store_config \<Rightarrow> real \<Rightarrow> memory_store \<Rightarrow> memory_store \<Rightarrow> bool" where
  "quiet_step cfg now st st' \<longleftrightarrow> legs_consistent st' \<and> length (entries st') \<le> length (entries st) \<and>
     (\<forall>k e'. map_of (entries st') k = Some e' \<longrightarrow> (\<exists>e. map_of (entries st) k = Some e \<and> same_leg cfg now e e')) \<and>
     (\<forall>k e. live now st k = Some e \<longrightarrow> (\<exists>e'. map_of (entries st') k = Some e' \<and> same_leg cfg now e e'))"

lemma quietD:
  assumes "quiet_step cfg now st st'"
  shows "legs_consistent st'" and "length (entries st') \<le> length (entries st)"
    and "map_of (entries st') k = Some f' \<Longrightarrow> \<exists>f. map_of (entries st) k = Some f \<and> same_leg cfg now f f'"
    and "live now st k = Some f \<Longrightarrow> \<exists>f'. map_of (entries st') k = Some f' \<and> same_leg cfg now f f'"
  using assms unfolding quiet_step_def by blast+

lemma same_leg_refl [simp]: "same_leg cfg now e e"
  by (simp add: same_leg_def)

lemma same_leg_touch [simp]: "same_leg cfg now e (touch cfg now e)"
  by (simp add: same_leg_def touch_def Let_def)

lemma same_leg_count [simp]: "same_leg cfg now e (touch cfg now (e\<lparr>last_b_seq := last_b_seq e + 1\<rparr>))"
  by (simp add: same_leg_def touch_def Let_def)

lemma touch_sel [simp]:
  "entry_a_session_id (touch cfg now e) = entry_a_session_id e" "last_b_seq (touch cfg now e) = last_b_seq e"
  "expires_at (touch cfg now e) = (if sliding_expiration cfg then now + of_int (continuity_ttl_seconds cfg) else expires_at e)"
  by (simp_all add: touch_def Let_def)

lemma put_entry_map [simp]: "map_of (entries (put_entry k e st)) = (map_of (entries st))(k \<mapsto> e)"
  by (simp add: put_entry_def update_conv')

lemma put_entry_keep [simp]:
  "a_session_to_key (put_entry k e st) = a_session_to_key st" "attempt_records (put_entry k e st) = attempt_records st"
  by (simp_all add: put_entry_def)

lemma length_update_old: "map_of xs k = Some v \<Longrightarrow> length (AList.update k w xs) = length xs"
  by (induction xs) (auto split: if_splits)

lemma length_update_new: "map_of xs k = None \<Longrightarrow> length (AList.update k w xs) = Suc (length xs)"
  by (induction xs) (auto split: if_splits)

lemma put_entry_consistent:
  assumes "legs_consistent st" and "map_of (entries st) k = Some e" and "entry_a_session_id e' = entry_a_session_id e"
  shows "legs_consistent (put_entry k e' st)"
proof -
  note c = legs_consistentD [OF assms(1)]
  have "a_session_to_key st a = Some k' \<longleftrightarrow>
      (\<exists>x. ((map_of (entries st))(k \<mapsto> e')) k' = Some x \<and> entry_a_session_id x = a)" for a k'
    using c(2) [of a k'] assms(2,3) by auto
  with c show ?thesis
    unfolding legs_consistent_def by (simp add: put_entry_def update_conv' distinct_update)
qed

lemma live_SomeD: "live now st k = Some e \<Longrightarrow> map_of (entries st) k = Some e \<and> now < expires_at e"
  by (auto simp: live_def split: option.splits if_splits)

lemma quiet_refl: "legs_consistent st \<Longrightarrow> quiet_step cfg now st st"
  unfolding quiet_step_def by (auto dest: live_SomeD)

lemma quiet_cleanup: "legs_consistent st \<Longrightarrow> quiet_step cfg now st (cleanup_expired_entries now st)"
  unfolding quiet_step_def
  by (auto simp: cleanup_map cleanup_length dest: live_SomeD) (simp add: cleanup_expired_entries_def fold_pop)

lemma quiet_put:
  assumes "legs_consistent st" and "live now st k = Some e" and "same_leg cfg now e e'"
  shows "quiet_step cfg now st (put_entry k e' (cleanup_expired_entries now st))"
proof -
  let ?st = "cleanup_expired_entries now st"
  have c: "legs_consistent ?st" "map_of (entries ?st) k = Some e"
    using assms by (auto simp: cleanup_map) (simp add: cleanup_expired_entries_def fold_pop)
  have "length (entries (put_entry k e' ?st)) \<le> length (entries st)"
    using length_update_old [OF c(2)] cleanup_length [of now st] by (simp add: put_entry_def)
  moreover have "legs_consistent (put_entry k e' ?st)"
    using put_entry_consistent [OF c] assms(3) by (simp add: same_leg_def)
  ultimately show ?thesis
    using assms unfolding quiet_step_def by (auto simp: cleanup_map dest: live_SomeD)
qed

lemma quiet_records:
  assumes "quiet_step cfg now st st'" and "a_session_to_key st' a \<noteq> None"
  shows "quiet_step cfg now st (st'\<lparr>attempt_records := (attempt_records st')(a \<mapsto> rs)\<rparr>)"
proof -
  have "legs_consistent (st'\<lparr>attempt_records := (attempt_records st')(a \<mapsto> rs)\<rparr>)"
    using assms by (simp add: quiet_step_def legs_consistent_def domIff)
  with assms(1) show ?thesis by (simp add: quiet_step_def)
qed

section \<open>Operations\<close>

lemma invD:
  assumes "memory_inv cfg st"
  shows "legs_consistent st" and "int (length (entries st)) \<le> max_entries cfg"
    and "map_of (entries st) k = Some e \<Longrightarrow> 0 \<le> last_b_seq e"
  using assms by (fastforce simp: memory_inv_def dest: map_of_SomeD)+

lemma cleanup_consistent: "legs_consistent st \<Longrightarrow> legs_consistent (cleanup_expired_entries now st)"
  by (simp add: cleanup_expired_entries_def fold_pop)

text \<open>The index of a consistent store finds exactly the live leg with an identifier.\<close>

lemma index_live:
  assumes "legs_consistent st"
  shows "a_session_to_key (cleanup_expired_entries now st) a = Some k \<longleftrightarrow> (\<exists>e. live now st k = Some e \<and> entry_a_session_id e = a)"
  using legs_consistentD(2) [OF cleanup_consistent [OF assms]] by (simp add: cleanup_map [OF assms])

lemma index_None:
  assumes "legs_consistent st" and "a_session_to_key (cleanup_expired_entries now st) a = None"
  shows "live now st k = Some e \<Longrightarrow> entry_a_session_id e \<noteq> a"
  using index_live [OF assms(1), of now a k] assms(2) by auto

text \<open>Every call but one that creates a leg is quiet.\<close>

lemma echo_quiet:
  assumes "legs_consistent st"
  shows "quiet_step cfg now st (snd (try_resolve_echoed_a_session_id cfg now a q st))"
  using assms
  by (auto simp: try_resolve_echoed_a_session_id_def Let_def cleanup_map
      intro!: quiet_refl quiet_cleanup quiet_put same_leg_touch split: sum.splits option.splits)

lemma allocate_quiet:
  assumes "legs_consistent st"
  shows "quiet_step cfg now st (snd (allocate_next_b_seq cfg now a st))"
  using assms
  by (auto simp: allocate_next_b_seq_def Let_def cleanup_map index_live
      intro!: quiet_refl quiet_cleanup quiet_put same_leg_count split: sum.splits option.splits)

lemma record_quiet:
  assumes "legs_consistent st"
  shows "quiet_step cfg now st (snd (record_attempt now a b n t m r st))"
  using assms
  by (auto simp: record_attempt_def Let_def
      intro!: quiet_refl quiet_cleanup quiet_records split: sum.splits option.splits)

lemma get_records_quiet:
  assumes "legs_consistent st"
  shows "quiet_step cfg now st (snd (get_attempt_records now a st))"
  using assms by (auto simp: get_attempt_records_def Let_def intro!: quiet_refl quiet_cleanup split: sum.splits)

subsection \<open>Resolving and creating\<close>

definition new_leg :: "store_config \<Rightarrow> real \<Rightarrow> string \<Rightarrow> ContinuityEntry" where
  "new_leg cfg now a = \<lparr>entry_a_session_id = a, expires_at = now + of_int (continuity_ttl_seconds cfg),
     last_accessed_at = now, last_b_seq = 0\<rparr>"

definition add_leg :: "store_config \<Rightarrow> real \<Rightarrow> scope_key \<Rightarrow> string \<Rightarrow> memory_store \<Rightarrow> memory_store" where
  "add_leg cfg now k a st =
     (let st1 = put_entry k (new_leg cfg now a) (cleanup_expired_entries now st) in
      st1\<lparr>a_session_to_key := (a_session_to_key st1)(a \<mapsto> k)\<rparr>)"

lemma new_leg_sel [simp]:
  "entry_a_session_id (new_leg cfg now a) = a" "last_b_seq (new_leg cfg now a) = 0"
  "expires_at (new_leg cfg now a) = now + of_int (continuity_ttl_seconds cfg)"
  by (simp_all add: new_leg_def)

lemma resolve_cases:
  assumes "legs_consistent st"
  shows "resolve_or_create_a_session_id cfg now x y c st =
    (if py_strip x = [] \<or> py_strip y = [] then (resolution (c 0) False True, st)
     else (case live now st (py_strip x, py_strip y) of
        Some e \<Rightarrow> (resolution (entry_a_session_id e) True False,
                   put_entry (py_strip x, py_strip y) (touch cfg now e) (cleanup_expired_entries now st))
      | None \<Rightarrow> (resolution (c 0) False False,
                  evict_if_needed (nat (max_entries cfg)) (add_leg cfg now (py_strip x, py_strip y) (c 0) st))))"
  by (auto simp: resolve_or_create_a_session_id_def resolve_or_create_core_def normalize_cases cleanup_map [OF assms]
      add_leg_def new_leg_def Let_def split: option.splits)

lemma add_leg_map:
  assumes "legs_consistent st"
  shows "map_of (entries (add_leg cfg now k a st)) = (live now st)(k \<mapsto> new_leg cfg now a)"
  using assms by (simp add: add_leg_def Let_def cleanup_map)

lemma add_leg_length:
  assumes "legs_consistent st" and "live now st k = None"
  shows "length (entries (add_leg cfg now k a st)) \<le> Suc (length (entries st))"
  using assms length_update_new [of "entries (cleanup_expired_entries now st)" k] cleanup_length [of now st]
  by (simp add: add_leg_def Let_def put_entry_def cleanup_map)

lemma add_leg_consistent:
  assumes "legs_consistent st" and "live now st k = None" and "\<forall>k e. live now st k = Some e \<longrightarrow> entry_a_session_id e \<noteq> a"
  shows "legs_consistent (add_leg cfg now k a st)"
proof -
  let ?st = "cleanup_expired_entries now st"
  note c = legs_consistentD [OF cleanup_consistent [OF assms(1)], of now]
  have m: "map_of (entries (add_leg cfg now k a st)) = (live now st)(k \<mapsto> new_leg cfg now a)"
    using assms(1) by (rule add_leg_map)
  have i: "a_session_to_key (add_leg cfg now k a st) = (a_session_to_key ?st)(a \<mapsto> k)"
    by (simp add: add_leg_def Let_def)
  have "a_session_to_key (add_leg cfg now k a st) b = Some l \<longleftrightarrow>
      (\<exists>e. map_of (entries (add_leg cfg now k a st)) l = Some e \<and> entry_a_session_id e = b)" for b l
    using index_live [OF assms(1), of now b l] assms(2) assms(3) [rule_format, of l] by (auto simp: m i)
  moreover have "dom (attempt_records (add_leg cfg now k a st)) \<subseteq> dom (a_session_to_key (add_leg cfg now k a st))"
    using c(3) by (auto simp: add_leg_def Let_def)
  moreover have "distinct (map fst (entries (add_leg cfg now k a st)))"
    using c(1) by (simp add: add_leg_def Let_def put_entry_def distinct_update)
  ultimately show ?thesis unfolding legs_consistent_def by blast
qed

text \<open>A call is quiet, or it creates the leg of its key and then evicts.\<close>

definition creating :: "store_config \<Rightarrow> real \<Rightarrow> store_call \<Rightarrow> memory_store \<Rightarrow> memory_store \<Rightarrow> bool" where
  "creating cfg now e st st' \<longleftrightarrow> (\<exists>x y c. e = ResolveOrCreate x y c \<and> live now st (py_strip x, py_strip y) = None \<and>
     st' = evict_if_needed (nat (max_entries cfg)) (add_leg cfg now (py_strip x, py_strip y) (c 0) st))"

lemma memory_step_effect:
  assumes "legs_consistent st"
  shows "quiet_step cfg now st (snd (memory_step cfg now e st)) \<or> creating cfg now e st (snd (memory_step cfg now e st))"
proof (cases e)
  case (ResolveOrCreate x y c)
  show ?thesis
  proof (cases "py_strip x = [] \<or> py_strip y = []")
    case False
    then show ?thesis
      using quiet_put [OF assms, of now _ _ cfg] ResolveOrCreate
      by (auto simp: resolve_cases [OF assms] creating_def split: option.splits)
  qed (use assms in \<open>simp add: ResolveOrCreate resolve_cases quiet_refl\<close>)
qed (use assms in \<open>simp_all add: answer_def echo_quiet allocate_quiet record_quiet get_records_quiet\<close>)

section \<open>The contract\<close>

lemma memory_entry_Some:
  "memory_entry st k = Some (a, n, x) \<longleftrightarrow>
     (\<exists>e. map_of (entries st) k = Some e \<and> entry_a_session_id e = a \<and> last_b_seq e = n \<and> expires_at e = x)"
  by (auto simp: memory_entry_def)

lemma live_eq: "memory_entry st k = Some (a, n, x) \<Longrightarrow> now < x \<Longrightarrow>
    \<exists>e. live now st k = Some e \<and> entry_a_session_id e = a \<and> last_b_seq e = n \<and> expires_at e = x"
  by (auto simp: memory_entry_Some live_def)

lemma map_leD: "m \<subseteq>\<^sub>m m' \<Longrightarrow> m k = Some v \<Longrightarrow> m' k = Some v"
  by (auto simp: map_le_def dom_def)

lemma creating_map:
  assumes "legs_consistent st" and "creating cfg now e st st'"
  shows "\<exists>x y c. e = ResolveOrCreate x y c \<and> live now st (py_strip x, py_strip y) = None \<and>
    map_of (entries st') \<subseteq>\<^sub>m (live now st)((py_strip x, py_strip y) \<mapsto> new_leg cfg now (c 0)) \<and>
    length (entries st') \<le> nat (max_entries cfg) \<and> length (entries st') \<le> Suc (length (entries st)) \<and>
    ((\<forall>k f. live now st k = Some f \<longrightarrow> entry_a_session_id f \<noteq> c 0) \<longrightarrow> legs_consistent st') \<and>
    (Suc (length (entries st)) \<le> nat (max_entries cfg) \<longrightarrow>
      map_of (entries st') = (live now st)((py_strip x, py_strip y) \<mapsto> new_leg cfg now (c 0)))"
proof -
  obtain x y c where e: "e = ResolveOrCreate x y c" "live now st (py_strip x, py_strip y) = None"
      "st' = evict_if_needed (nat (max_entries cfg)) (add_leg cfg now (py_strip x, py_strip y) (c 0) st)"
    using assms(2) by (auto simp: creating_def)
  let ?n = "nat (max_entries cfg)" and ?st = "add_leg cfg now (py_strip x, py_strip y) (c 0) st"
  note ev = evict_if_needed_props [where limit = ?n and st = ?st, folded e(3)]
  note al = add_leg_length [OF assms(1) e(2), of cfg "c 0"]
  have "length (entries st') \<le> Suc (length (entries st))"
    using al ev(1) by (cases "length (entries ?st) \<le> ?n") (simp_all add: e(3) evict_if_needed_id)
  moreover have "Suc (length (entries st)) \<le> ?n \<longrightarrow> map_of (entries st') = (live now st)((py_strip x, py_strip y) \<mapsto> new_leg cfg now (c 0))"
    using al assms(1) by (simp add: e(3) evict_if_needed_id add_leg_map)
  moreover have "map_of (entries st') \<subseteq>\<^sub>m (live now st)((py_strip x, py_strip y) \<mapsto> new_leg cfg now (c 0))"
    using ev(2) by (simp add: add_leg_map [OF assms(1)])
  moreover have "(\<forall>k f. live now st k = Some f \<longrightarrow> entry_a_session_id f \<noteq> c 0) \<longrightarrow> legs_consistent st'"
    using ev(3) add_leg_consistent [OF assms(1) e(2)] by blast
  ultimately show ?thesis using e(1,2) ev(1) by blast
qed

lemma memory_inv_step:
  assumes "memory_inv cfg st" and "\<forall>k a n x. memory_entry st k = Some (a, n, x) \<longrightarrow> a \<notin> draws e"
  shows "memory_inv cfg (snd (memory_step cfg now e st))"
proof -
  note i = invD [OF assms(1)]
  let ?st = "snd (memory_step cfg now e st)"
  have nn: "0 \<le> last_b_seq f" if "live now st k = Some f" for k f
    using i(3) live_SomeD [OF that] by blast
  have "legs_consistent ?st \<and> int (length (entries ?st)) \<le> max_entries cfg \<and>
      (\<forall>k f. map_of (entries ?st) k = Some f \<longrightarrow> 0 \<le> last_b_seq f)"
    using memory_step_effect [OF i(1), of cfg now e]
  proof
    assume "quiet_step cfg now st ?st"
    note q = quietD [OF this]
    have "0 \<le> last_b_seq f" if "map_of (entries ?st) k = Some f" for k f
      using q(3) [OF that] i(3) order_trans unfolding same_leg_def by blast
    with q(1,2) i(2) show ?thesis by auto
  next
    assume "creating cfg now e st ?st"
    then obtain x y c where c: "e = ResolveOrCreate x y c" "live now st (py_strip x, py_strip y) = None"
      "map_of (entries ?st) \<subseteq>\<^sub>m (live now st)((py_strip x, py_strip y) \<mapsto> new_leg cfg now (c 0))"
      "length (entries ?st) \<le> nat (max_entries cfg)"
      "(\<forall>k f. live now st k = Some f \<longrightarrow> entry_a_session_id f \<noteq> c 0) \<longrightarrow> legs_consistent ?st"
      using creating_map [OF i(1)] by blast
    have "entry_a_session_id f \<noteq> c 0" if "live now st k = Some f" for k f
      using assms(2) [rule_format, of k] live_SomeD [OF that] c(1) by (auto simp: memory_entry_def)
    then have "legs_consistent ?st" using c(5) by blast
    moreover have "0 \<le> last_b_seq f" if "map_of (entries ?st) k = Some f" for k f
      using map_leD [OF c(3) that] nn by (auto split: if_splits)
    ultimately show ?thesis using c(4) i(2) by auto
  qed
  then show ?thesis by (fastforce simp: memory_inv_def legs_consistent_def)
qed

lemma memory_origin:
  assumes "memory_inv cfg st" and "memory_entry (snd (memory_step cfg now e st)) k = Some (a, n, x)"
  shows "(\<exists>m x'. m \<le> n \<and> memory_entry st k = Some (a, m, x')) \<or> (a \<in> draws e \<and> n = 0 \<and> call_key e = Some k)"
proof -
  note i = invD [OF assms(1)]
  show ?thesis using memory_step_effect [OF i(1), of cfg now e]
  proof
    assume "quiet_step cfg now st (snd (memory_step cfg now e st))"
    from quietD(3) [OF this, of k] assms(2)
    obtain f where "map_of (entries st) k = Some f" "entry_a_session_id f = a" "last_b_seq f \<le> n"
      by (auto simp: same_leg_def memory_entry_Some)
    then show ?thesis by (auto simp: memory_entry_def)
  next
    assume "creating cfg now e st (snd (memory_step cfg now e st))"
    then obtain x y c where c: "e = ResolveOrCreate x y c"
      "map_of (entries (snd (memory_step cfg now e st))) \<subseteq>\<^sub>m (live now st)((py_strip x, py_strip y) \<mapsto> new_leg cfg now (c 0))"
      using creating_map [OF i(1)] by blast
    obtain f where f: "map_of (entries (snd (memory_step cfg now e st))) k = Some f" "entry_a_session_id f = a" "last_b_seq f = n"
      using assms(2) by (auto simp: memory_entry_Some)
    show ?thesis
    proof (cases "k = (py_strip x, py_strip y)")
      case True
      with map_leD [OF c(2) f(1)] c(1) f show ?thesis by auto
    next
      case False
      with map_leD [OF c(2) f(1)] have "map_of (entries st) k = Some f" by (auto dest: live_SomeD)
      with f show ?thesis by (auto simp: memory_entry_def)
    qed
  qed
qed

lemma memory_keep:
  assumes "memory_inv cfg st" and "memory_entry st k = Some (a, n, x)" and "now < x"
    and "x \<le> now + of_int (continuity_ttl_seconds cfg)" and "int (length (entries st) + creates e) \<le> max_entries cfg"
  shows "\<exists>m x'. memory_entry (snd (memory_step cfg now e st)) k = Some (a, m, x') \<and> n \<le> m \<and> x \<le> x' \<and>
    x' \<le> now + of_int (continuity_ttl_seconds cfg)"
proof -
  note i = invD [OF assms(1)]
  obtain f where f: "live now st k = Some f" "entry_a_session_id f = a" "last_b_seq f = n" "expires_at f = x"
    using live_eq [OF assms(2,3)] by blast
  show ?thesis using memory_step_effect [OF i(1), of cfg now e]
  proof
    assume "quiet_step cfg now st (snd (memory_step cfg now e st))"
    from quietD(4) [OF this f(1)] f assms(4) show ?thesis by (auto simp: same_leg_def memory_entry_Some)
  next
    assume "creating cfg now e st (snd (memory_step cfg now e st))"
    then obtain x y c where c: "e = ResolveOrCreate x y c" "live now st (py_strip x, py_strip y) = None"
      "Suc (length (entries st)) \<le> nat (max_entries cfg) \<longrightarrow> map_of (entries (snd (memory_step cfg now e st))) =
        (live now st)((py_strip x, py_strip y) \<mapsto> new_leg cfg now (c 0))"
      using creating_map [OF i(1)] by blast
    moreover have "Suc (length (entries st)) \<le> nat (max_entries cfg)" using assms(5) c(1) by simp
    moreover have "k \<noteq> (py_strip x, py_strip y)" using f(1) c(2) by auto
    ultimately show ?thesis using f assms(4) by (auto simp: memory_entry_def)
  qed
qed

lemma memory_resolve_outcome:
  assumes "memory_inv cfg st"
  shows "\<exists>r. fst (memory_step cfg now (ResolveOrCreate u v c) st) = Resolution r \<and>
    (if reused_existing r then \<exists>n x. now < x \<and> memory_entry st (py_strip u, py_strip v) = Some (res_a_session_id r, n, x)
     else res_a_session_id r \<in> {c 0, c 1})"
  using invD(1) [OF assms]
  by (auto simp: resolve_cases memory_entry_def dest!: live_SomeD split: option.splits)

lemma memory_resolve_live:
  assumes "memory_inv cfg st" and "py_strip u \<noteq> []" and "py_strip v \<noteq> []"
    and "memory_entry st (py_strip u, py_strip v) = Some (a, n, x)" and "now < x"
  shows "fst (memory_step cfg now (ResolveOrCreate u v c) st) = Resolution (resolution a True False) \<and>
    memory_entry (snd (memory_step cfg now (ResolveOrCreate u v c) st)) (py_strip u, py_strip v) =
      Some (a, n, if sliding_expiration cfg then now + of_int (continuity_ttl_seconds cfg) else x)"
  using live_eq [OF assms(4,5)] assms(2,3) invD(1) [OF assms(1)] by (auto simp: resolve_cases memory_entry_def)

lemma memory_resolve_new:
  assumes "memory_inv cfg st" and "py_strip u \<noteq> []" and "py_strip v \<noteq> []"
    and "\<forall>a n x. memory_entry st (py_strip u, py_strip v) = Some (a, n, x) \<longrightarrow> x \<le> now"
    and "int (length (entries st) + 1) \<le> max_entries cfg"
  shows "fst (memory_step cfg now (ResolveOrCreate u v c) st) = Resolution (resolution (c 0) False False) \<and>
    memory_entry (snd (memory_step cfg now (ResolveOrCreate u v c) st)) (py_strip u, py_strip v) =
      Some (c 0, 0, now + of_int (continuity_ttl_seconds cfg))"
proof -
  note i = invD(1) [OF assms(1)]
  have l: "live now st (py_strip u, py_strip v) = None"
    using assms(4) by (auto simp: live_def memory_entry_def split: option.splits)
  have "evict_if_needed (nat (max_entries cfg)) (add_leg cfg now (py_strip u, py_strip v) (c 0) st) =
      add_leg cfg now (py_strip u, py_strip v) (c 0) st"
    using add_leg_length [OF i l, of cfg "c 0"] assms(5) by (intro evict_if_needed_id) simp
  then show ?thesis using assms(2,3) i l by (simp add: resolve_cases memory_entry_def add_leg_map)
qed

lemma memory_echo_outcome:
  assumes "memory_inv cfg st" and "fst (memory_step cfg now (TryResolveEchoed a q) st) = Echoed (Some r)"
  shows "\<exists>k n x. now < x \<and> memory_entry st k = Some (res_a_session_id r, n, x) \<and> echo_continuity_auth_allows (fst k) q"
proof -
  note i = invD(1) [OF assms(1)]
  from assms(2) obtain k e where "live now st k = Some e" "r = resolution (entry_a_session_id e) True False"
      "echo_continuity_auth_allows (fst k) q"
    by (auto simp: try_resolve_echoed_a_session_id_def Let_def cleanup_map [OF i] split: sum.splits option.splits if_splits)
  then show ?thesis by (intro exI [of _ k]) (auto simp: memory_entry_def dest!: live_SomeD)
qed

lemma memory_allocate_outcome:
  assumes "memory_inv cfg st" and "fst (memory_step cfg now (AllocateNextBSeq a) st) = Sequence n"
  shows "\<exists>k x x'. memory_entry st k = Some (py_strip a, n - 1, x) \<and>
    memory_entry (snd (memory_step cfg now (AllocateNextBSeq a) st)) k = Some (py_strip a, n, x')"
proof -
  note i = invD(1) [OF assms(1)]
  from assms(2) obtain k where k: "py_strip a \<noteq> []" "a_session_to_key (cleanup_expired_entries now st) (py_strip a) = Some k"
    by (auto simp: allocate_next_b_seq_def normalize_cases answer_def Let_def split: sum.splits option.splits if_splits)
  obtain e where e: "live now st k = Some e" "entry_a_session_id e = py_strip a"
    using k(2) index_live [OF i] by blast
  with k assms(2) show ?thesis
    by (intro exI [of _ k])
      (auto simp: allocate_next_b_seq_def normalize_cases answer_def Let_def cleanup_map [OF i] memory_entry_def dest!: live_SomeD)
qed

lemma memory_one_owner:
  assumes "memory_inv cfg st" and "memory_entry st k = Some (a, n, x)" and "memory_entry st k' = Some (a, n', x')"
  shows "k = k'"
  using legs_consistentD(2) [OF invD(1) [OF assms(1)], of a] assms(2,3)
  by (metis memory_entry_Some option.inject)

lemma memory_count:
  assumes "memory_inv cfg st"
  shows "length (entries (snd (memory_step cfg now e st))) \<le> length (entries st) + creates e"
  using memory_step_effect [OF invD(1) [OF assms], of cfg now e]
proof
  assume "quiet_step cfg now st (snd (memory_step cfg now e st))"
  then show ?thesis by (auto dest: quietD(2))
next
  assume "creating cfg now e st (snd (memory_step cfg now e st))"
  then show ?thesis by (auto dest!: creating_map [OF invD(1) [OF assms]])
qed

interpretation mem: leg_store "memory_step cfg" id "\<lambda>_. True" "memory_inv cfg" memory_entry "\<lambda>st. length (entries st)" cfg
  for cfg
proof (unfold_locales, goal_cases)
  case (1 s e t) then show ?case using memory_inv_step by simp
next
  case (2 s k a n x k' n' x') then show ?case by (rule memory_one_owner)
next
  case (3 s t e k a n x) then show ?case using memory_origin by simp
next
  case (4 s t e) then show ?case using memory_count by simp
next
  case (5 s k a n x t e) then show ?case using memory_keep by simp
next
  case (6 s e u v c t) then show ?case using memory_resolve_outcome [OF 6(1), of t u v c] by (auto split: if_splits)
next
  case (7 s e u v c a n x t) then show ?case using memory_resolve_live by simp
next
  case (8 s e u v c t) then show ?case using memory_resolve_new by simp
next
  case (9 s e a q t r) then show ?case using memory_echo_outcome by simp
next
  case (10 s e a t n) then show ?case using memory_allocate_outcome by simp
qed

end
