(* ===== verification/B2bua_Persistent.thy ===== *)
theory B2bua_Persistent
  imports B2bua_Memory "HOL-Library.Multiset"
begin

text \<open>
  The persistent mapping store, class \<^verbatim>\<open>PersistentB2buaMappingStore\<close> of
  \<^verbatim>\<open>src/core/services/b2bua_mapping_store_service.py\<close>. The state is the contents of its two SQLite tables with
  their keys and constraints; every operation is one transaction, which an exception rolls back. What the documentation
  of SQLite leaves open is a parameter: the order \<open>scan\<close> in which rows with equal sort keys are returned. A call may
  meet a database fault, before or after it has read. The store satisfies the contract \<open>leg_store\<close>.
\<close>

section \<open>The database\<close>

record mapping_row =
  row_auth_scope_id :: string
  row_client_session_id :: string
  row_a_session_id :: string
  row_last_b_seq :: int
  row_created_at :: real
  row_last_accessed_at :: real
  row_expires_at :: real

record attempt_row =
  att_b_session_id :: string
  att_a_session_id :: string
  att_seq :: int
  att_backend_type :: "string option"
  att_effective_model :: "string option"
  att_reason :: "string option"
  att_created_at :: real

record database =
  b2bua_mappings :: "mapping_row list"
  b2bua_attempts :: "attempt_row list"

record scan_orders =
  scan_mappings :: "mapping_row list \<Rightarrow> mapping_row list"
  scan_attempts :: "attempt_row list \<Rightarrow> attempt_row list"

datatype db_fault = Fault_On_Read | Fault_On_Write

definition initialize_database :: database where
  "initialize_database = \<lparr>b2bua_mappings = [], b2bua_attempts = []\<rparr>"

definition row_key :: "mapping_row \<Rightarrow> scope_key" where
  "row_key r = (row_auth_scope_id r, row_client_session_id r)"

text \<open>\<^verbatim>\<open>DELETE FROM b2bua_mappings WHERE ...\<close>, with the cascade to the attempts of the deleted legs.\<close>

definition delete_mappings :: "(mapping_row \<Rightarrow> bool) \<Rightarrow> database \<Rightarrow> database" where
  "delete_mappings P db =
     (let gone = filter P (b2bua_mappings db) in
      \<lparr>b2bua_mappings = filter (\<lambda>r. \<not> P r) (b2bua_mappings db),
       b2bua_attempts = filter (\<lambda>t. att_a_session_id t \<notin> row_a_session_id ` set gone) (b2bua_attempts db)\<rparr>)"

definition update_mappings :: "(mapping_row \<Rightarrow> bool) \<Rightarrow> (mapping_row \<Rightarrow> mapping_row) \<Rightarrow> database \<Rightarrow> database" where
  "update_mappings P f db = db\<lparr>b2bua_mappings := map (\<lambda>r. if P r then f r else r) (b2bua_mappings db)\<rparr>"

text \<open>Inserts fail on a repeated primary key, a repeated unique column, or a missing parent row.\<close>

definition insert_mapping :: "mapping_row \<Rightarrow> database \<Rightarrow> b2bua_error + database" where
  "insert_mapping r db =
     (if list_ex (\<lambda>s. row_key s = row_key r \<or> row_a_session_id s = row_a_session_id r) (b2bua_mappings db)
      then Inl B2bua_IntegrityError else Inr (db\<lparr>b2bua_mappings := b2bua_mappings db @ [r]\<rparr>))"

definition insert_attempt :: "attempt_row \<Rightarrow> database \<Rightarrow> b2bua_error + database" where
  "insert_attempt t db =
     (if list_ex (\<lambda>s. att_b_session_id s = att_b_session_id t) (b2bua_attempts db) \<or>
         \<not> list_ex (\<lambda>r. row_a_session_id r = att_a_session_id t) (b2bua_mappings db)
      then Inl B2bua_IntegrityError else Inr (db\<lparr>b2bua_attempts := b2bua_attempts db @ [t]\<rparr>))"

section \<open>Operations\<close>

definition db_cleanup :: "real \<Rightarrow> database \<Rightarrow> database" where
  "db_cleanup now db = delete_mappings (\<lambda>r. row_expires_at r \<le> now) db"

definition db_evict :: "scan_orders \<Rightarrow> store_config \<Rightarrow> database \<Rightarrow> database" where
  "db_evict ord cfg db =
     (let overflow = int (length (b2bua_mappings db)) - max_entries cfg in
      if overflow \<le> 0 then db
      else fold (\<lambda>r. delete_mappings (\<lambda>s. row_key s = row_key r))
             (take (nat overflow) (sort_key row_last_accessed_at (scan_mappings ord (b2bua_mappings db)))) db)"

text \<open>The assignments of the \<^verbatim>\<open>UPDATE\<close> statements that touch a leg.\<close>

definition touch_row :: "store_config \<Rightarrow> real \<Rightarrow> mapping_row \<Rightarrow> mapping_row" where
  "touch_row cfg now r =
     (if sliding_expiration cfg
      then r\<lparr>row_last_accessed_at := now, row_expires_at := now + of_int (continuity_ttl_seconds cfg)\<rparr>
      else r\<lparr>row_last_accessed_at := now\<rparr>)"

text \<open>An exception of the core carries the number of identifiers it has drawn by then.\<close>

definition db_resolve_core ::
  "scan_orders \<Rightarrow> store_config \<Rightarrow> db_fault option \<Rightarrow> real \<Rightarrow> string \<Rightarrow> string \<Rightarrow> (nat \<Rightarrow> string) \<Rightarrow> database \<Rightarrow>
   (b2bua_error \<times> nat) + B2buaContinuityResolution \<times> database" where
  "db_resolve_core ord cfg fault now auth client create db0 =
     bind_res (map_err (\<lambda>e. (e, 0)) (normalize_required_identifier auth ''auth_scope_id'')) (\<lambda>x.
     bind_res (map_err (\<lambda>e. (e, 0)) (normalize_required_identifier client ''client_session_id'')) (\<lambda>y.
       if fault = Some Fault_On_Read then Inl (B2bua_DatabaseError, 0)
       else
         (let db = db_cleanup now db0 in
          case find (\<lambda>r. row_key r = (x, y)) (b2bua_mappings db) of
            Some r \<Rightarrow>
              (if fault = Some Fault_On_Write then Inl (B2bua_DatabaseError, 0)
               else Inr (resolution (row_a_session_id r) True False,
                         update_mappings (\<lambda>s. row_key s = (x, y)) (touch_row cfg now) db))
          | None \<Rightarrow>
              (if fault = Some Fault_On_Write then Inl (B2bua_DatabaseError, 1)
               else
                 bind_res (map_err (\<lambda>e. (e, 1)) (insert_mapping
                     \<lparr>row_auth_scope_id = x, row_client_session_id = y, row_a_session_id = create 0, row_last_b_seq = 0,
                      row_created_at = now, row_last_accessed_at = now,
                      row_expires_at = now + of_int (continuity_ttl_seconds cfg)\<rparr> db))
                   (\<lambda>db'. Inr (resolution (create 0) False False, db_evict ord cfg db'))))))"

definition db_resolve_or_create ::
  "scan_orders \<Rightarrow> store_config \<Rightarrow> db_fault option \<Rightarrow> real \<Rightarrow> string \<Rightarrow> string \<Rightarrow> (nat \<Rightarrow> string) \<Rightarrow> database \<Rightarrow>
   B2buaContinuityResolution \<times> database" where
  "db_resolve_or_create ord cfg fault now auth client create db =
     (case db_resolve_core ord cfg fault now auth client create db of
        Inr r \<Rightarrow> r
      | Inl (_, drawn) \<Rightarrow> (resolution (create drawn) False True, db))"

definition db_try_resolve_echoed ::
  "store_config \<Rightarrow> db_fault option \<Rightarrow> real \<Rightarrow> string \<Rightarrow> string option \<Rightarrow> database \<Rightarrow> B2buaContinuityResolution option \<times> database" where
  "db_try_resolve_echoed cfg fault now a scope db0 =
     (case normalize_required_identifier a ''a_session_id'' of
        Inl _ \<Rightarrow> (None, db0)
      | Inr n \<Rightarrow>
          (if fault \<noteq> None then (None, db0)
           else
             (let db = db_cleanup now db0 in
              case find (\<lambda>r. row_a_session_id r = n) (b2bua_mappings db) of
                None \<Rightarrow> (None, db)
              | Some r \<Rightarrow>
                  (if row_expires_at r \<le> now then (None, db)
                   else if \<not> echo_continuity_auth_allows (row_auth_scope_id r) scope then (None, db)
                   else (Some (resolution n True False),
                         update_mappings (\<lambda>s. row_a_session_id s = n) (touch_row cfg now) db)))))"

definition db_allocate_next_b_seq ::
  "store_config \<Rightarrow> db_fault option \<Rightarrow> real \<Rightarrow> string \<Rightarrow> database \<Rightarrow> (b2bua_error + int) \<times> database" where
  "db_allocate_next_b_seq cfg fault now a db0 =
     (case normalize_required_identifier a ''a_session_id'' of
        Inl err \<Rightarrow> (Inl err, db0)
      | Inr n \<Rightarrow>
          (if fault = Some Fault_On_Read then (Inl B2bua_DatabaseError, db0)
           else
             (let db = db_cleanup now db0 in
              case find (\<lambda>r. row_a_session_id r = n) (b2bua_mappings db) of
                None \<Rightarrow> (Inl (not_found n), db0)
              | Some r \<Rightarrow>
                  (if fault = Some Fault_On_Write then (Inl B2bua_DatabaseError, db0)
                   else
                     (let next_seq = row_last_b_seq r + 1 in
                      (Inr next_seq, update_mappings (\<lambda>s. row_a_session_id s = n)
                         (\<lambda>s. touch_row cfg now (s\<lparr>row_last_b_seq := next_seq\<rparr>)) db))))))"

definition db_record_attempt ::
  "store_config \<Rightarrow> db_fault option \<Rightarrow> real \<Rightarrow> string \<Rightarrow> string \<Rightarrow> int \<Rightarrow> string option \<Rightarrow> string option \<Rightarrow> string option \<Rightarrow> database \<Rightarrow>
   (b2bua_error + unit) \<times> database" where
  "db_record_attempt cfg fault now a b seq backend model reason db0 =
     (case (normalize_required_identifier a ''a_session_id'', normalize_required_identifier b ''b_session_id'') of
        (Inl err, _) \<Rightarrow> (Inl err, db0)
      | (_, Inl err) \<Rightarrow> (Inl err, db0)
      | (Inr na, Inr nb) \<Rightarrow>
          (if seq < 1 then (Inl (B2bua_ValueError ''seq must be >= 1''), db0)
           else if fault = Some Fault_On_Read then (Inl B2bua_DatabaseError, db0)
           else
             (let db = db_cleanup now db0 in
              if find (\<lambda>r. row_a_session_id r = na) (b2bua_mappings db) = None then (Inl (not_found na), db0)
              else if fault = Some Fault_On_Write then (Inl B2bua_DatabaseError, db0)
              else
                (case insert_attempt \<lparr>att_b_session_id = nb, att_a_session_id = na, att_seq = seq, att_backend_type = backend,
                       att_effective_model = model, att_reason = reason, att_created_at = now\<rparr> db of
                   Inl err \<Rightarrow> (Inl err, db0)
                 | Inr db' \<Rightarrow> (Inr (), update_mappings (\<lambda>s. row_a_session_id s = na) (touch_row cfg now) db')))))"

definition attempt_record :: "attempt_row \<Rightarrow> B2buaAttemptRecord" where
  "attempt_record t = \<lparr>rec_b_session_id = att_b_session_id t, rec_a_session_id = att_a_session_id t, rec_seq = att_seq t,
     rec_backend_type = att_backend_type t, rec_effective_model = att_effective_model t, rec_reason = att_reason t\<rparr>"

text \<open>\<^verbatim>\<open>ORDER BY seq ASC, created_at ASC\<close>\<close>

definition db_get_attempt_records ::
  "scan_orders \<Rightarrow> db_fault option \<Rightarrow> real \<Rightarrow> string \<Rightarrow> database \<Rightarrow> (b2bua_error + B2buaAttemptRecord list) \<times> database" where
  "db_get_attempt_records ord fault now a db0 =
     (case normalize_required_identifier a ''a_session_id'' of
        Inl err \<Rightarrow> (Inl err, db0)
      | Inr n \<Rightarrow>
          (if fault \<noteq> None then (Inl B2bua_DatabaseError, db0)
           else
             (let db = db_cleanup now db0;
                  rows = filter (\<lambda>t. att_a_session_id t = n) (scan_attempts ord (b2bua_attempts db)) in
              (Inr (map attempt_record (sort_key att_seq (sort_key att_created_at rows))), db))))"

fun db_step ::
  "scan_orders \<Rightarrow> store_config \<Rightarrow> real \<Rightarrow> db_fault option \<times> store_call \<Rightarrow> database \<Rightarrow> store_answer \<times> database" where
  "db_step ord cfg now (f, ResolveOrCreate x y c) db = apfst Resolution (db_resolve_or_create ord cfg f now x y c db)"
| "db_step ord cfg now (f, TryResolveEchoed a q) db = apfst Echoed (db_try_resolve_echoed cfg f now a q db)"
| "db_step ord cfg now (f, AllocateNextBSeq a) db = answer Sequence (db_allocate_next_b_seq cfg f now a db)"
| "db_step ord cfg now (f, RecordAttempt a b n t m r) db = answer (\<lambda>_. Recorded) (db_record_attempt cfg f now a b n t m r db)"
| "db_step ord cfg now (f, GetAttemptRecords a) db = answer Attempts (db_get_attempt_records ord f now a db)"

section \<open>The invariant\<close>

definition db_ok :: "database \<Rightarrow> bool" where
  "db_ok db \<longleftrightarrow> distinct (map row_key (b2bua_mappings db)) \<and> distinct (map row_a_session_id (b2bua_mappings db)) \<and>
     distinct (map att_b_session_id (b2bua_attempts db)) \<and>
     att_a_session_id ` set (b2bua_attempts db) \<subseteq> row_a_session_id ` set (b2bua_mappings db)"

definition db_inv :: "store_config \<Rightarrow> database \<Rightarrow> bool" where
  "db_inv cfg db \<longleftrightarrow> db_ok db \<and> (\<forall>r \<in> set (b2bua_mappings db). 0 \<le> row_last_b_seq r) \<and>
     int (length (b2bua_mappings db)) \<le> max_entries cfg"

definition db_entry :: "database \<Rightarrow> scope_key \<rightharpoonup> string \<times> int \<times> real" where
  "db_entry db k = map_option (\<lambda>r. (row_a_session_id r, row_last_b_seq r, row_expires_at r))
     (find (\<lambda>r. row_key r = k) (b2bua_mappings db))"

text \<open>What is assumed of the order in which rows are read: it is an order of the rows.\<close>

definition scan_ok :: "scan_orders \<Rightarrow> bool" where
  "scan_ok ord \<longleftrightarrow> (\<forall>rs. mset (scan_mappings ord rs) = mset rs) \<and> (\<forall>ts. mset (scan_attempts ord ts) = mset ts)"

end
