(* ===== verification/B2bua_Persistent_Theorems.thy ===== *)
theory B2bua_Persistent_Theorems
  imports B2bua_Persistent
begin

text \<open>
  The persistent mapping store satisfies the contract of the stores, for every order in which SQLite may return rows
  and every database fault: an operation that fails leaves the tables as they were.
\<close>

declare split_paired_All [simp del] split_paired_Ex [simp del]

section \<open>Rows\<close>

lemma find_unique:
  assumes "distinct (map f xs)"
  shows "find (\<lambda>x. f x = k) xs = Some x \<longleftrightarrow> x \<in> set xs \<and> f x = k"
  using assms by (induction xs) auto

lemma find_unique_None: "find (\<lambda>x. f x = k) xs = None \<longleftrightarrow> k \<notin> f ` set xs"
  by (auto simp: find_None_iff)

lemma db_okD:
  assumes "db_ok db"
  shows "distinct (map row_key (b2bua_mappings db))" and "distinct (map row_a_session_id (b2bua_mappings db))"
  using assms by (simp_all add: db_ok_def)

lemma db_entry_Some:
  assumes "db_ok db"
  shows "db_entry db k = Some (a, n, x) \<longleftrightarrow>
    (\<exists>r \<in> set (b2bua_mappings db). row_key r = k \<and> row_a_session_id r = a \<and> row_last_b_seq r = n \<and> row_expires_at r = x)"
  using find_unique [OF db_okD(1) [OF assms], of k] by (auto simp: db_entry_def)

lemma db_entry_row:
  "db_ok db \<Longrightarrow> r \<in> set (b2bua_mappings db) \<Longrightarrow> db_entry db (row_key r) = Some (row_a_session_id r, row_last_b_seq r, row_expires_at r)"
  by (auto simp: db_entry_Some)

lemma db_ok_rows:
  assumes "db_ok db" and "r \<in> set (b2bua_mappings db)" and "s \<in> set (b2bua_mappings db)"
  shows "row_key r = row_key s \<longleftrightarrow> r = s" and "row_a_session_id r = row_a_session_id s \<longleftrightarrow> r = s"
  using db_okD [OF assms(1)] assms(2,3) by (auto simp: distinct_map dest: inj_onD)

section \<open>Statements\<close>

lemma delete_mappings_rows [simp]: "b2bua_mappings (delete_mappings P db) = filter (\<lambda>r. \<not> P r) (b2bua_mappings db)"
  by (simp add: delete_mappings_def Let_def)

lemma delete_mappings_ok:
  assumes "db_ok db"
  shows "db_ok (delete_mappings P db)"
proof -
  have "att_a_session_id t \<in> row_a_session_id ` {r \<in> set (b2bua_mappings db). \<not> P r}"
    if t: "t \<in> set (b2bua_attempts db)" "att_a_session_id t \<notin> row_a_session_id ` {r \<in> set (b2bua_mappings db). P r}" for t
  proof -
    obtain r where "r \<in> set (b2bua_mappings db)" "att_a_session_id t = row_a_session_id r"
      using assms t(1) unfolding db_ok_def by blast
    with t(2) show ?thesis by blast
  qed
  with assms show ?thesis
    unfolding db_ok_def delete_mappings_def Let_def by (auto simp: distinct_map_filter)
qed

lemma update_mappings_rows:
  "b2bua_mappings (update_mappings P f db) = map (\<lambda>r. if P r then f r else r) (b2bua_mappings db)"
  by (simp add: update_mappings_def)

lemma update_mappings_ok:
  assumes "db_ok db" and "\<And>r. row_key (f r) = row_key r" and "\<And>r. row_a_session_id (f r) = row_a_session_id r"
  shows "db_ok (update_mappings P f db)"
proof -
  have "map row_key (b2bua_mappings (update_mappings P f db)) = map row_key (b2bua_mappings db)"
    and "map row_a_session_id (b2bua_mappings (update_mappings P f db)) = map row_a_session_id (b2bua_mappings db)"
    using assms(2,3) by (simp_all add: update_mappings_rows o_def if_distrib cong: map_cong)
  moreover from this(2) have "row_a_session_id ` set (b2bua_mappings (update_mappings P f db)) = row_a_session_id ` set (b2bua_mappings db)"
    by (metis list.set_map)
  moreover have "b2bua_attempts (update_mappings P f db) = b2bua_attempts db"
    by (simp add: update_mappings_def)
  ultimately show ?thesis
    using assms(1) unfolding db_ok_def by simp
qed

lemma touch_row_sel [simp]:
  "row_key (touch_row cfg now r) = row_key r" "row_a_session_id (touch_row cfg now r) = row_a_session_id r"
  "row_last_b_seq (touch_row cfg now r) = row_last_b_seq r"
  "row_expires_at (touch_row cfg now r) = (if sliding_expiration cfg then now + of_int (continuity_ttl_seconds cfg) else row_expires_at r)"
  by (simp_all add: touch_row_def row_key_def)

lemma insert_attempt_rows:
  "insert_attempt t db = Inr db' \<Longrightarrow> b2bua_mappings db' = b2bua_mappings db \<and> (db_ok db \<longrightarrow> db_ok db')"
  by (auto simp: insert_attempt_def db_ok_def list_ex_iff image_iff subset_iff split: if_splits) metis+

lemma insert_mapping_ok:
  "insert_mapping r db = Inr db' \<Longrightarrow> db_ok db \<Longrightarrow> db_ok db' \<and> b2bua_mappings db' = b2bua_mappings db @ [r]"
  by (auto simp: insert_mapping_def db_ok_def list_ex_iff image_iff subset_iff split: if_splits) metis+

section \<open>Eviction\<close>

lemma fold_delete_rows:
  "b2bua_mappings (fold (\<lambda>r. delete_mappings (\<lambda>s. row_key s = row_key r)) rs db) =
     filter (\<lambda>s. row_key s \<notin> row_key ` set rs) (b2bua_mappings db)"
  by (induction rs arbitrary: db) (auto intro: filter_cong)

lemma fold_delete_ok: "db_ok db \<Longrightarrow> db_ok (fold (\<lambda>r. delete_mappings (\<lambda>s. row_key s = row_key r)) rs db)"
  by (induction rs arbitrary: db) (auto intro: delete_mappings_ok)

lemma db_evict_ok: "db_ok db \<Longrightarrow> db_ok (db_evict ord cfg db)"
  by (simp add: db_evict_def Let_def fold_delete_ok)

lemma db_evict_subset: "set (b2bua_mappings (db_evict ord cfg db)) \<subseteq> set (b2bua_mappings db)"
  by (auto simp: db_evict_def Let_def fold_delete_rows)

lemma db_evict_id: "int (length (b2bua_mappings db)) \<le> max_entries cfg \<Longrightarrow> db_evict ord cfg db = db"
  by (simp add: db_evict_def)

text \<open>Deleting the rows of a list that are rows of the table leaves the others.\<close>

lemma length_filter_keys:
  assumes "distinct (map row_key xs)" and "set ys \<subseteq> set xs" and "distinct (map row_key ys)"
  shows "length (filter (\<lambda>s. row_key s \<notin> row_key ` set ys) xs) = length xs - length ys"
proof -
  have dx: "distinct xs" "distinct ys" and inj: "inj_on row_key (set xs)"
    using assms by (simp_all add: distinct_map)
  have "set (filter (\<lambda>s. row_key s \<notin> row_key ` set ys) xs) = set xs - set ys"
    using inj assms(2) by (auto simp: inj_on_def)
  moreover have "length (filter (\<lambda>s. row_key s \<notin> row_key ` set ys) xs) = card (set (filter (\<lambda>s. row_key s \<notin> row_key ` set ys) xs))"
    using dx(1) by (metis distinct_card distinct_filter)
  ultimately show ?thesis
    using dx assms(2) by (simp add: card_Diff_subset distinct_card)
qed

lemma db_evict_length:
  assumes "db_ok db" and "scan_ok ord" and "0 \<le> max_entries cfg"
  shows "int (length (b2bua_mappings (db_evict ord cfg db))) \<le> max_entries cfg"
proof (cases "int (length (b2bua_mappings db)) \<le> max_entries cfg")
  case False
  let ?o = "nat (int (length (b2bua_mappings db)) - max_entries cfg)"
  let ?all = "sort_key row_last_accessed_at (scan_mappings ord (b2bua_mappings db))"
  have ms: "mset ?all = mset (b2bua_mappings db)" using assms(2) by (simp add: scan_ok_def)
  then have d: "distinct (map row_key ?all)"
    using db_okD(1) [OF assms(1)] by (metis mset_map mset_eq_imp_distinct_iff)
  have "set (take ?o ?all) \<subseteq> set (b2bua_mappings db)"
    using set_take_subset [of ?o ?all] mset_eq_setD [OF ms] by blast
  moreover have "distinct (map row_key (take ?o ?all))"
    using d by (metis distinct_take take_map)
  moreover have "length (take ?o ?all) = ?o"
    using mset_eq_length [OF ms] assms(3) False by simp
  ultimately have "length (b2bua_mappings (db_evict ord cfg db)) = length (b2bua_mappings db) - ?o"
    using length_filter_keys [OF db_okD(1) [OF assms(1)], of "take ?o ?all"] False
    by (simp add: db_evict_def Let_def fold_delete_rows)
  then show ?thesis using False assms(3) by simp
qed (simp add: db_evict_id)

section \<open>Effects of the operations\<close>

definition same_row :: "store_config \<Rightarrow> real \<Rightarrow> mapping_row \<Rightarrow> mapping_row \<Rightarrow> bool" where
  "same_row cfg now r r' \<longleftrightarrow> row_key r' = row_key r \<and> row_a_session_id r' = row_a_session_id r \<and> row_last_b_seq r \<le> row_last_b_seq r' \<and>
     (row_expires_at r' = row_expires_at r \<or> row_expires_at r' = now + of_int (continuity_ttl_seconds cfg))"

definition db_quiet :: "store_config \<Rightarrow> real \<Rightarrow> database \<Rightarrow> database \<Rightarrow> bool" where
  "db_quiet cfg now db db' \<longleftrightarrow> db_ok db' \<and> length (b2bua_mappings db') \<le> length (b2bua_mappings db) \<and>
     (\<forall>r' \<in> set (b2bua_mappings db'). \<exists>r \<in> set (b2bua_mappings db). same_row cfg now r r') \<and>
     (\<forall>r \<in> set (b2bua_mappings db). now < row_expires_at r \<longrightarrow> (\<exists>r' \<in> set (b2bua_mappings db'). same_row cfg now r r'))"

lemma same_row_refl [simp]: "same_row cfg now r r"
  by (simp add: same_row_def)

lemma same_row_touch [simp]: "same_row cfg now r (touch_row cfg now r)"
  by (simp add: same_row_def)

lemma db_quietD:
  assumes "db_quiet cfg now db db'"
  shows "db_ok db'" and "length (b2bua_mappings db') \<le> length (b2bua_mappings db)"
    and "r' \<in> set (b2bua_mappings db') \<Longrightarrow> \<exists>r \<in> set (b2bua_mappings db). same_row cfg now r r'"
    and "r \<in> set (b2bua_mappings db) \<Longrightarrow> now < row_expires_at r \<Longrightarrow> \<exists>r' \<in> set (b2bua_mappings db'). same_row cfg now r r'"
  using assms by (simp_all add: db_quiet_def)

lemma db_quiet_refl: "db_ok db \<Longrightarrow> db_quiet cfg now db db"
  unfolding db_quiet_def using same_row_refl by blast

lemma cleanup_rows: "b2bua_mappings (db_cleanup now db) = filter (\<lambda>r. now < row_expires_at r) (b2bua_mappings db)"
  by (simp add: db_cleanup_def not_le)

lemma db_cleanup_ok: "db_ok db \<Longrightarrow> db_ok (db_cleanup now db)"
  by (simp add: db_cleanup_def delete_mappings_ok)

lemma db_quiet_cleanup: "db_ok db \<Longrightarrow> db_quiet cfg now db (db_cleanup now db)"
  by (auto simp: db_quiet_def db_cleanup_ok cleanup_rows intro: same_row_refl)

text \<open>An update after the clean-up that keeps keys, identifiers and the order of the counters.\<close>

lemma db_quiet_update:
  assumes "db_ok db" and "db_ok db'" and "b2bua_mappings db' = b2bua_mappings (db_cleanup now db)"
    and "\<And>r. row_key (f r) = row_key r" and "\<And>r. row_a_session_id (f r) = row_a_session_id r"
    and "\<And>r. r \<in> set (b2bua_mappings db) \<Longrightarrow> P r \<Longrightarrow> same_row cfg now r (f r)"
  shows "db_quiet cfg now db (update_mappings P f db')"
proof -
  have ok: "db_ok (update_mappings P f db')" using assms(2,4,5) by (rule update_mappings_ok)
  define g where "g = (\<lambda>r. if P r then f r else r)"
  have rows: "b2bua_mappings (update_mappings P f db') = map g (filter (\<lambda>r. now < row_expires_at r) (b2bua_mappings db))"
    by (simp add: update_mappings_rows assms(3) cleanup_rows g_def)
  have same: "same_row cfg now r (g r)" if "r \<in> set (b2bua_mappings db)" for r
    using assms(6) that by (simp add: g_def)
  show ?thesis unfolding db_quiet_def rows using ok same by auto
qed

lemma find_live_a:
  assumes "db_ok db"
  shows "find (\<lambda>r. row_a_session_id r = a) (b2bua_mappings (db_cleanup now db)) = Some r \<longleftrightarrow>
    r \<in> set (b2bua_mappings db) \<and> now < row_expires_at r \<and> row_a_session_id r = a"
  using find_unique [OF db_okD(2) [OF db_cleanup_ok [OF assms]]] by (auto simp: cleanup_rows)

lemma find_live_key:
  assumes "db_ok db"
  shows "find (\<lambda>r. row_key r = k) (b2bua_mappings (db_cleanup now db)) = Some r \<longleftrightarrow>
    r \<in> set (b2bua_mappings db) \<and> now < row_expires_at r \<and> row_key r = k"
  using find_unique [OF db_okD(1) [OF db_cleanup_ok [OF assms]]] by (auto simp: cleanup_rows)

lemma db_quiet_touch:
  assumes "db_ok db"
  shows "db_quiet cfg now db (update_mappings P (touch_row cfg now) (db_cleanup now db))"
  using assms by (intro db_quiet_update db_cleanup_ok) simp_all

lemma db_echo_quiet:
  assumes "db_ok db"
  shows "db_quiet cfg now db (snd (db_try_resolve_echoed cfg f now a q db))"
  using assms by (simp add: db_try_resolve_echoed_def Let_def db_quiet_refl db_quiet_cleanup db_quiet_touch
      split: sum.splits option.splits)

lemma db_allocate_quiet:
  assumes "db_ok db"
  shows "db_quiet cfg now db (snd (db_allocate_next_b_seq cfg f now a db))"
proof -
  have "db_quiet cfg now db (update_mappings (\<lambda>s. row_a_session_id s = n)
      (\<lambda>s. touch_row cfg now (s\<lparr>row_last_b_seq := row_last_b_seq r + 1\<rparr>)) (db_cleanup now db))"
    if r: "find (\<lambda>r. row_a_session_id r = n) (b2bua_mappings (db_cleanup now db)) = Some r" for n r
    using assms r db_ok_rows(2) [OF assms]
    by (intro db_quiet_update db_cleanup_ok) (auto simp: find_live_a [OF assms] same_row_def row_key_def touch_row_def)
  then show ?thesis
    using assms by (simp add: db_allocate_next_b_seq_def Let_def db_quiet_refl split: sum.splits option.splits)
qed

lemma db_record_quiet:
  assumes "db_ok db"
  shows "db_quiet cfg now db (snd (db_record_attempt cfg f now a b n t m r db))"
proof -
  have "db_quiet cfg now db (update_mappings P (touch_row cfg now) db')"
    if "insert_attempt w (db_cleanup now db) = Inr db'" for w db' P
    using assms insert_attempt_rows [OF that] db_cleanup_ok by (intro db_quiet_update) auto
  then show ?thesis
    using assms by (simp add: db_record_attempt_def Let_def db_quiet_refl split: sum.splits option.splits)
qed

lemma db_get_records_quiet:
  assumes "db_ok db"
  shows "db_quiet cfg now db (snd (db_get_attempt_records ord f now a db))"
  using assms by (simp add: db_get_attempt_records_def Let_def db_quiet_refl db_quiet_cleanup split: sum.splits)

section \<open>Resolving and creating\<close>

definition new_row :: "store_config \<Rightarrow> real \<Rightarrow> scope_key \<Rightarrow> string \<Rightarrow> mapping_row" where
  "new_row cfg now k a = \<lparr>row_auth_scope_id = fst k, row_client_session_id = snd k, row_a_session_id = a, row_last_b_seq = 0,
     row_created_at = now, row_last_accessed_at = now, row_expires_at = now + of_int (continuity_ttl_seconds cfg)\<rparr>"

definition add_row :: "mapping_row \<Rightarrow> database \<Rightarrow> database" where
  "add_row r db = db\<lparr>b2bua_mappings := b2bua_mappings db @ [r]\<rparr>"

lemma new_row_sel [simp]:
  "row_key (new_row cfg now k a) = k" "row_a_session_id (new_row cfg now k a) = a" "row_last_b_seq (new_row cfg now k a) = 0"
  "row_expires_at (new_row cfg now k a) = now + of_int (continuity_ttl_seconds cfg)"
  by (simp_all add: new_row_def row_key_def)

lemma db_resolve_cases:
  fixes db now x y
  defines "k \<equiv> (py_strip x, py_strip y)" and "cdb \<equiv> db_cleanup now db"
  shows "db_resolve_or_create ord cfg f now x y c db =
    (if py_strip x = [] \<or> py_strip y = [] \<or> f = Some Fault_On_Read then (resolution (c 0) False True, db)
     else (case find (\<lambda>r. row_key r = k) (b2bua_mappings cdb) of
        Some r \<Rightarrow> (if f = Some Fault_On_Write then (resolution (c 0) False True, db)
                   else (resolution (row_a_session_id r) True False, update_mappings (\<lambda>s. row_key s = k) (touch_row cfg now) cdb))
      | None \<Rightarrow> (if f = Some Fault_On_Write \<or> c 0 \<in> row_a_session_id ` set (b2bua_mappings cdb)
                 then (resolution (c 1) False True, db)
                 else (resolution (c 0) False False, db_evict ord cfg (add_row (new_row cfg now k (c 0)) cdb)))))"
proof (cases "find (\<lambda>r. row_key r = k) (b2bua_mappings cdb)")
  case None
  then have "list_ex (\<lambda>s. row_key s = k \<or> row_a_session_id s = c 0) (b2bua_mappings cdb) \<longleftrightarrow>
      c 0 \<in> row_a_session_id ` set (b2bua_mappings cdb)"
    by (force simp: list_ex_iff find_None_iff)
  with None show ?thesis
    by (auto simp: db_resolve_or_create_def db_resolve_core_def normalize_cases cdb_def [symmetric]
        insert_mapping_def add_row_def new_row_def row_key_def k_def Let_def)
next
  case (Some r)
  then show ?thesis
    by (auto simp: db_resolve_or_create_def db_resolve_core_def normalize_cases k_def cdb_def Let_def)
qed

text \<open>A call is quiet, or it adds the row of its key and evicts.\<close>

definition adding :: "scan_orders \<Rightarrow> store_config \<Rightarrow> real \<Rightarrow> store_call \<Rightarrow> database \<Rightarrow> database \<Rightarrow> bool" where
  "adding ord cfg now e db db' \<longleftrightarrow> (\<exists>x y c. e = ResolveOrCreate x y c \<and>
     (py_strip x, py_strip y) \<notin> row_key ` set (b2bua_mappings (db_cleanup now db)) \<and>
     c 0 \<notin> row_a_session_id ` set (b2bua_mappings (db_cleanup now db)) \<and>
     db' = db_evict ord cfg (add_row (new_row cfg now (py_strip x, py_strip y) (c 0)) (db_cleanup now db)))"

lemma db_step_effect:
  assumes "db_ok db"
  shows "db_quiet cfg now db (snd (db_step ord cfg now e db)) \<or> adding ord cfg now (snd e) db (snd (db_step ord cfg now e db))"
proof (cases "(ord, cfg, now, e, db)" rule: db_step.cases)
  case (1 ord' cfg' now' f x y c db')
  then show ?thesis
    using assms by (auto simp: db_resolve_cases adding_def db_quiet_refl db_quiet_touch find_unique_None split: option.splits)
qed (use assms in \<open>simp_all add: answer_def db_echo_quiet db_allocate_quiet db_record_quiet db_get_records_quiet\<close>)

lemma add_row_ok:
  assumes "db_ok db" and "row_key r \<notin> row_key ` set (b2bua_mappings db)"
    and "row_a_session_id r \<notin> row_a_session_id ` set (b2bua_mappings db)"
  shows "db_ok (add_row r db)"
  using assms by (auto simp: db_ok_def add_row_def)

lemma addingD:
  assumes "db_ok db" and "adding ord cfg now e db db'"
  shows "\<exists>x y c. e = ResolveOrCreate x y c \<and> db_ok db' \<and>
    set (b2bua_mappings db') \<subseteq> insert (new_row cfg now (py_strip x, py_strip y) (c 0)) {r \<in> set (b2bua_mappings db). now < row_expires_at r} \<and>
    length (b2bua_mappings db') \<le> Suc (length (b2bua_mappings db)) \<and>
    (scan_ok ord \<and> 0 \<le> max_entries cfg \<longrightarrow> int (length (b2bua_mappings db')) \<le> max_entries cfg) \<and>
    (int (Suc (length (b2bua_mappings db))) \<le> max_entries cfg \<longrightarrow>
      set (b2bua_mappings db') = insert (new_row cfg now (py_strip x, py_strip y) (c 0)) {r \<in> set (b2bua_mappings db). now < row_expires_at r})"
proof -
  obtain x y c where e: "e = ResolveOrCreate x y c"
     "(py_strip x, py_strip y) \<notin> row_key ` set (b2bua_mappings (db_cleanup now db))"
     "c 0 \<notin> row_a_session_id ` set (b2bua_mappings (db_cleanup now db))"
     "db' = db_evict ord cfg (add_row (new_row cfg now (py_strip x, py_strip y) (c 0)) (db_cleanup now db))"
    using assms(2) by (auto simp: adding_def)
  let ?r = "new_row cfg now (py_strip x, py_strip y) (c 0)"
  let ?db = "add_row ?r (db_cleanup now db)"
  have ok: "db_ok ?db" using e(2,3) assms(1) by (intro add_row_ok db_cleanup_ok) simp_all
  have rows: "set (b2bua_mappings ?db) = insert ?r {r \<in> set (b2bua_mappings db). now < row_expires_at r}"
    by (auto simp: add_row_def cleanup_rows)
  have len: "length (b2bua_mappings ?db) \<le> Suc (length (b2bua_mappings db))"
    by (simp add: add_row_def cleanup_rows)
  have "length (b2bua_mappings db') \<le> length (b2bua_mappings ?db)"
    unfolding e(4) db_evict_def Let_def by (simp add: fold_delete_rows)
  with len have "length (b2bua_mappings db') \<le> Suc (length (b2bua_mappings db))" by simp
  moreover have "scan_ok ord \<and> 0 \<le> max_entries cfg \<longrightarrow> int (length (b2bua_mappings db')) \<le> max_entries cfg"
    unfolding e(4) using db_evict_length [OF ok] by blast
  moreover have "int (Suc (length (b2bua_mappings db))) \<le> max_entries cfg \<longrightarrow>
      set (b2bua_mappings db') = insert ?r {r \<in> set (b2bua_mappings db). now < row_expires_at r}"
    using len rows by (simp add: e(4) db_evict_id)
  moreover have "set (b2bua_mappings db') \<subseteq> insert ?r {r \<in> set (b2bua_mappings db). now < row_expires_at r}"
    using db_evict_subset [of ord cfg ?db] by (simp add: e(4) rows)
  moreover have "db_ok db'" using ok by (simp add: e(4) db_evict_ok)
  ultimately show ?thesis using e(1) by blast
qed

section \<open>The contract\<close>

definition db_good :: "scan_orders \<Rightarrow> store_config \<Rightarrow> database \<Rightarrow> bool" where
  "db_good ord cfg db \<longleftrightarrow> scan_ok ord \<and> db_inv cfg db"

lemma db_goodD:
  assumes "db_good ord cfg db"
  shows "scan_ok ord" and "db_ok db" and "int (length (b2bua_mappings db)) \<le> max_entries cfg"
    and "r \<in> set (b2bua_mappings db) \<Longrightarrow> 0 \<le> row_last_b_seq r"
  using assms by (auto simp: db_good_def db_inv_def)

lemma db_step_ok: "db_ok db \<Longrightarrow> db_ok (snd (db_step ord cfg now e db))"
  using db_step_effect [of db cfg now ord e] by (auto dest: db_quietD(1) addingD)

lemma db_good_step:
  assumes "db_good ord cfg db"
  shows "db_good ord cfg (snd (db_step ord cfg now e db))"
proof -
  note g = db_goodD [OF assms]
  let ?db = "snd (db_step ord cfg now e db)"
  have "int (length (b2bua_mappings ?db)) \<le> max_entries cfg \<and> (\<forall>r' \<in> set (b2bua_mappings ?db). 0 \<le> row_last_b_seq r')"
    using db_step_effect [OF g(2), of cfg now ord e]
  proof
    assume "db_quiet cfg now db ?db"
    note q = db_quietD [OF this]
    have "0 \<le> row_last_b_seq r'" if "r' \<in> set (b2bua_mappings ?db)" for r'
      using q(3) [OF that] g(4) order_trans unfolding same_row_def by blast
    with q(2) g(3) show ?thesis by auto
  next
    assume "adding ord cfg now (snd e) db ?db"
    from addingD [OF g(2) this] g show ?thesis by fastforce
  qed
  with db_step_ok [OF g(2)] g(1) show ?thesis unfolding db_good_def db_inv_def by blast
qed

lemma db_origin:
  assumes "db_good ord cfg db" and "db_entry (snd (db_step ord cfg now e db)) k = Some (a, n, x)"
  shows "(\<exists>m x'. m \<le> n \<and> db_entry db k = Some (a, m, x')) \<or> (a \<in> draws (snd e) \<and> n = 0 \<and> call_key (snd e) = Some k)"
proof -
  note g = db_goodD(2) [OF assms(1)]
  let ?db = "snd (db_step ord cfg now e db)"
  obtain r where r: "r \<in> set (b2bua_mappings ?db)" "row_key r = k" "row_a_session_id r = a" "row_last_b_seq r = n"
    using assms(2) by (auto simp: db_entry_Some [OF db_step_ok [OF g]])
  have old: "\<exists>m x'. m \<le> n \<and> db_entry db k = Some (a, m, x')"
    if "s \<in> set (b2bua_mappings db)" "same_row cfg now s r" for s
    using that r by (auto simp: db_entry_Some [OF g] same_row_def)
  show ?thesis using db_step_effect [OF g, of cfg now ord e]
  proof
    assume "db_quiet cfg now db ?db"
    from db_quietD(3) [OF this r(1)] old show ?thesis by blast
  next
    assume "adding ord cfg now (snd e) db ?db"
    then obtain u v c where c: "snd e = ResolveOrCreate u v c"
      "set (b2bua_mappings ?db) \<subseteq> insert (new_row cfg now (py_strip u, py_strip v) (c 0)) {r \<in> set (b2bua_mappings db). now < row_expires_at r}"
      using addingD [OF g] by blast
    show ?thesis
    proof (cases "r \<in> set (b2bua_mappings db)")
      case True
      then show ?thesis using old same_row_refl by blast
    next
      case False
      with c r(1) have "r = new_row cfg now (py_strip u, py_strip v) (c 0)" by auto
      with c(1) r show ?thesis by auto
    qed
  qed
qed

lemma db_keep:
  assumes "db_good ord cfg db" and "db_entry db k = Some (a, n, x)" and "now < x"
    and "x \<le> now + of_int (continuity_ttl_seconds cfg)" and "int (length (b2bua_mappings db) + creates (snd e)) \<le> max_entries cfg"
  shows "\<exists>m x'. db_entry (snd (db_step ord cfg now e db)) k = Some (a, m, x') \<and> n \<le> m \<and> x \<le> x' \<and>
    x' \<le> now + of_int (continuity_ttl_seconds cfg)"
proof -
  note g = db_goodD(2) [OF assms(1)]
  let ?db = "snd (db_step ord cfg now e db)"
  obtain r where r: "r \<in> set (b2bua_mappings db)" "row_key r = k" "row_a_session_id r = a" "row_last_b_seq r = n" "row_expires_at r = x"
    using assms(2) by (auto simp: db_entry_Some [OF g])
  have "\<exists>r' \<in> set (b2bua_mappings ?db). same_row cfg now r r'"
    using db_step_effect [OF g, of cfg now ord e]
  proof
    assume "db_quiet cfg now db ?db"
    from db_quietD(4) [OF this r(1)] r(5) assms(3) show ?thesis by blast
  next
    assume "adding ord cfg now (snd e) db ?db"
    from addingD [OF g this] assms(3,5) r(1,5) show ?thesis by (auto intro: same_row_refl)
  qed
  with r assms(4) show ?thesis by (auto simp: db_entry_Some [OF db_step_ok [OF g]] same_row_def)
qed

lemma db_count:
  assumes "db_good ord cfg db"
  shows "length (b2bua_mappings (snd (db_step ord cfg now e db))) \<le> length (b2bua_mappings db) + creates (snd e)"
  using db_step_effect [OF db_goodD(2) [OF assms], of cfg now ord e]
proof
  assume "db_quiet cfg now db (snd (db_step ord cfg now e db))"
  then show ?thesis by (auto dest: db_quietD(2))
next
  assume "adding ord cfg now (snd e) db (snd (db_step ord cfg now e db))"
  from addingD [OF db_goodD(2) [OF assms] this] show ?thesis by auto
qed

lemma db_one_owner:
  assumes "db_good ord cfg db" and "db_entry db k = Some (a, n, x)" and "db_entry db k' = Some (a, n', x')"
  shows "k = k'"
  using db_goodD(2) [OF assms(1)] assms(2,3) db_ok_rows(2) by (auto simp: db_entry_Some)

lemma db_resolve_outcome:
  assumes "db_good ord cfg db"
  shows "\<exists>r. fst (db_step ord cfg now (f, ResolveOrCreate u v c) db) = Resolution r \<and>
    (if reused_existing r then \<exists>n x. now < x \<and> db_entry db (py_strip u, py_strip v) = Some (res_a_session_id r, n, x)
     else res_a_session_id r \<in> {c 0, c 1})"
  using db_goodD(2) [OF assms] by (auto simp: db_resolve_cases find_live_key db_entry_Some split: option.splits)

lemma db_resolve_live:
  assumes "db_good ord cfg db" and "py_strip u \<noteq> []" and "py_strip v \<noteq> []"
    and "db_entry db (py_strip u, py_strip v) = Some (a, n, x)" and "now < x"
  shows "fst (db_step ord cfg now (None, ResolveOrCreate u v c) db) = Resolution (resolution a True False) \<and>
    db_entry (snd (db_step ord cfg now (None, ResolveOrCreate u v c) db)) (py_strip u, py_strip v) =
      Some (a, n, if sliding_expiration cfg then now + of_int (continuity_ttl_seconds cfg) else x)"
proof -
  note g = db_goodD(2) [OF assms(1)]
  let ?k = "(py_strip u, py_strip v)"
  let ?db = "update_mappings (\<lambda>s. row_key s = ?k) (touch_row cfg now) (db_cleanup now db)"
  obtain r where r: "r \<in> set (b2bua_mappings db)" "row_key r = ?k" "row_a_session_id r = a" "row_last_b_seq r = n" "row_expires_at r = x"
    using assms(4) by (auto simp: db_entry_Some [OF g])
  then have "find (\<lambda>r. row_key r = ?k) (b2bua_mappings (db_cleanup now db)) = Some r"
    using assms(5) by (simp add: find_live_key [OF g])
  then have step: "db_step ord cfg now (None, ResolveOrCreate u v c) db = (Resolution (resolution a True False), ?db)"
    using assms(2,3) r(3) by (simp add: db_resolve_cases)
  have "db_ok ?db" using db_step_ok [OF g, of ord cfg now "(None, ResolveOrCreate u v c)"] by (simp only: step snd_conv)
  moreover have "touch_row cfg now r \<in> set (b2bua_mappings ?db)"
    using r assms(5) by (force simp: update_mappings_rows cleanup_rows)
  ultimately have "db_entry ?db (row_key (touch_row cfg now r)) = Some (row_a_session_id (touch_row cfg now r),
      row_last_b_seq (touch_row cfg now r), row_expires_at (touch_row cfg now r))"
    by (rule db_entry_row)
  with r show ?thesis by (simp add: step del: db_step.simps)
qed

lemma db_resolve_new:
  assumes "db_good ord cfg db" and "py_strip u \<noteq> []" and "py_strip v \<noteq> []"
    and "\<forall>a n x. db_entry db (py_strip u, py_strip v) = Some (a, n, x) \<longrightarrow> x \<le> now"
    and "\<forall>k a n x. db_entry db k = Some (a, n, x) \<longrightarrow> a \<notin> {c 0, c 1}"
    and "int (length (b2bua_mappings db) + 1) \<le> max_entries cfg"
  shows "fst (db_step ord cfg now (None, ResolveOrCreate u v c) db) = Resolution (resolution (c 0) False False) \<and>
    db_entry (snd (db_step ord cfg now (None, ResolveOrCreate u v c) db)) (py_strip u, py_strip v) =
      Some (c 0, 0, now + of_int (continuity_ttl_seconds cfg))"
proof -
  note g = db_goodD(2) [OF assms(1)]
  let ?k = "(py_strip u, py_strip v)" and ?db = "db_cleanup now db"
  have "row_key r \<noteq> ?k" if "r \<in> set (b2bua_mappings ?db)" for r
    using assms(4) db_entry_row [OF g, of r] that by (auto simp: cleanup_rows)
  then have "?k \<notin> row_key ` set (b2bua_mappings ?db)" by force
  then have f: "find (\<lambda>r. row_key r = ?k) (b2bua_mappings ?db) = None" by (simp add: find_unique_None)
  have "row_a_session_id r \<noteq> c 0" if "r \<in> set (b2bua_mappings ?db)" for r
    using assms(5) db_entry_row [OF g, of r] that by (force simp: cleanup_rows)
  then have c0: "c 0 \<notin> row_a_session_id ` set (b2bua_mappings ?db)" by force
  have "length (b2bua_mappings ?db) \<le> length (b2bua_mappings db)" by (simp add: cleanup_rows)
  then have ev: "db_evict ord cfg (add_row (new_row cfg now ?k (c 0)) ?db) = add_row (new_row cfg now ?k (c 0)) ?db"
    using assms(6) by (intro db_evict_id) (simp add: add_row_def)
  have step: "db_step ord cfg now (None, ResolveOrCreate u v c) db =
      (Resolution (resolution (c 0) False False), add_row (new_row cfg now ?k (c 0)) ?db)"
    using assms(2,3) f c0 ev by (simp add: db_resolve_cases)
  have "db_ok (add_row (new_row cfg now ?k (c 0)) ?db)"
    using db_step_ok [OF g, of ord cfg now "(None, ResolveOrCreate u v c)"] by (simp only: step snd_conv)
  from db_entry_row [OF this, of "new_row cfg now ?k (c 0)"] show ?thesis
    by (simp add: step add_row_def del: db_step.simps)
qed

lemma db_echo_outcome:
  assumes "db_good ord cfg db" and "fst (db_step ord cfg now (f, TryResolveEchoed a q) db) = Echoed (Some r)"
  shows "\<exists>k n x. now < x \<and> db_entry db k = Some (res_a_session_id r, n, x) \<and> echo_continuity_auth_allows (fst k) q"
proof -
  note g = db_goodD(2) [OF assms(1)]
  from assms(2) obtain s where "s \<in> set (b2bua_mappings db)" "now < row_expires_at s" "res_a_session_id r = row_a_session_id s"
      "echo_continuity_auth_allows (row_auth_scope_id s) q"
    by (auto simp: db_try_resolve_echoed_def Let_def find_live_a [OF g] split: sum.splits option.splits if_splits)
  then show ?thesis by (intro exI [of _ "row_key s"]) (auto simp: db_entry_Some [OF g] row_key_def)
qed

lemma db_allocate_outcome:
  assumes "db_good ord cfg db" and "fst (db_step ord cfg now (f, AllocateNextBSeq a) db) = Sequence n"
  shows "\<exists>k x x'. db_entry db k = Some (py_strip a, n - 1, x) \<and>
    db_entry (snd (db_step ord cfg now (f, AllocateNextBSeq a) db)) k = Some (py_strip a, n, x')"
proof -
  note g = db_goodD(2) [OF assms(1)]
  let ?f = "\<lambda>s. touch_row cfg now (s\<lparr>row_last_b_seq := n\<rparr>)"
  let ?db = "update_mappings (\<lambda>s. row_a_session_id s = py_strip a) ?f (db_cleanup now db)"
  from assms(2) obtain r where r: "r \<in> set (b2bua_mappings db)" "now < row_expires_at r" "row_a_session_id r = py_strip a"
      "n = row_last_b_seq r + 1" and step: "snd (db_step ord cfg now (f, AllocateNextBSeq a) db) = ?db"
    by (auto simp: db_allocate_next_b_seq_def normalize_cases answer_def Let_def find_live_a [OF g] split: option.splits if_splits)
  have "db_ok ?db" using db_step_ok [OF g, of ord cfg now "(f, AllocateNextBSeq a)"] by (simp only: step)
  moreover have "?f r \<in> set (b2bua_mappings ?db)"
    using r by (force simp: update_mappings_rows cleanup_rows)
  ultimately have "db_entry ?db (row_key (?f r)) = Some (row_a_session_id (?f r), row_last_b_seq (?f r), row_expires_at (?f r))"
    by (rule db_entry_row)
  moreover have "row_key (?f r) = row_key r" "row_a_session_id (?f r) = row_a_session_id r" "row_last_b_seq (?f r) = n"
    by (simp_all add: row_key_def touch_row_def)
  ultimately show ?thesis
    unfolding step using r db_entry_row [OF g r(1)] by (intro exI [of _ "row_key r"]) simp
qed

interpretation db: leg_store "db_step ord cfg" snd "\<lambda>e. fst e = None" "db_good ord cfg" db_entry "\<lambda>db. length (b2bua_mappings db)" cfg
  for ord cfg
proof (unfold_locales, goal_cases)
  case (1 s e t) then show ?case using db_good_step by simp
next
  case (2 s k a n x k' n' x') then show ?case by (rule db_one_owner)
next
  case (3 s t e k a n x) then show ?case using db_origin by simp
next
  case (4 s t e) then show ?case using db_count by simp
next
  case (5 s k a n x t e) then show ?case using db_keep by simp
next
  case (6 s e u v c t) then show ?case using db_resolve_outcome [OF 6(1), of t "fst e" u v c] by (cases e) (auto split: if_splits)
next
  case (7 s e u v c a n x t) then show ?case using db_resolve_live by (cases e) simp
next
  case (8 s e u v c t) then show ?case using db_resolve_new by (cases e) simp
next
  case (9 s e a q t r) then show ?case using db_echo_outcome by (cases e) simp
next
  case (10 s e a t n) then show ?case using db_allocate_outcome by (cases e) simp
qed

end
