(* ===== verification/B2bua_Sessions.thy ===== *)
theory B2bua_Sessions
  imports B2bua_Memory_Theorems B2bua_Persistent_Theorems Routing_Context
begin

text \<open>
  The clients of the mapping stores: the auth scope resolver (\<^verbatim>\<open>auth_scope_resolver_service.py\<close>), the client session
  id extractor (\<^verbatim>\<open>client_session_id_extractor_service.py\<close>), the session resolver (\<^verbatim>\<open>b2bua_session_resolver_service.py\<close>)
  and the B-leg allocator (\<^verbatim>\<open>b2bua_bleg_allocator_service.py\<close>), all of \<^verbatim>\<open>src/core/services\<close>, with the identity of
  \<^verbatim>\<open>src/core/domain/b2bua_identity.py\<close>. The store is an argument, as the code injects it: a record of its operations.
  The digest \<^verbatim>\<open>sha256(...).hexdigest()[:16]\<close> is an argument, and so are the texts of the drawn UUIDs and the clock.
\<close>

section \<open>The injected store\<close>

record 's mapping_store =
  op_resolve_or_create :: "real \<Rightarrow> string \<Rightarrow> string \<Rightarrow> (nat \<Rightarrow> string) \<Rightarrow> 's \<Rightarrow> B2buaContinuityResolution \<times> 's"
  op_try_resolve_echoed :: "real \<Rightarrow> string \<Rightarrow> string option \<Rightarrow> 's \<Rightarrow> B2buaContinuityResolution option \<times> 's"
  op_allocate_next_b_seq :: "real \<Rightarrow> string \<Rightarrow> 's \<Rightarrow> (b2bua_error + int) \<times> 's"
  op_record_attempt :: "real \<Rightarrow> string \<Rightarrow> string \<Rightarrow> int \<Rightarrow> string option \<Rightarrow> string option \<Rightarrow> string option \<Rightarrow> 's \<Rightarrow> (b2bua_error + unit) \<times> 's"

definition in_memory_store :: "store_config \<Rightarrow> memory_store mapping_store" where
  "in_memory_store cfg = \<lparr>op_resolve_or_create = resolve_or_create_a_session_id cfg,
     op_try_resolve_echoed = try_resolve_echoed_a_session_id cfg, op_allocate_next_b_seq = allocate_next_b_seq cfg,
     op_record_attempt = record_attempt\<rparr>"

definition persistent_store :: "scan_orders \<Rightarrow> store_config \<Rightarrow> db_fault option \<Rightarrow> database mapping_store" where
  "persistent_store ord cfg fault = \<lparr>op_resolve_or_create = db_resolve_or_create ord cfg fault,
     op_try_resolve_echoed = db_try_resolve_echoed cfg fault, op_allocate_next_b_seq = db_allocate_next_b_seq cfg fault,
     op_record_attempt = db_record_attempt cfg fault\<rparr>"

section \<open>Identity and context\<close>

record B2buaIdentity =
  id_a_session_id :: string
  id_b_session_id :: "string option"
  id_client_session_id :: "string option"
  id_auth_scope_id :: "string option"
  id_b_seq :: "int option"

definition validate_identity :: "B2buaIdentity \<Rightarrow> b2bua_error + B2buaIdentity" where
  "validate_identity i =
     (if py_strip (id_a_session_id i) = [] then Inl (B2bua_ValueError ''a_session_id must be a non-empty string'')
      else if (case id_b_session_id i of Some b \<Rightarrow> py_strip b = [] | None \<Rightarrow> False)
        then Inl (B2bua_ValueError ''b_session_id cannot be empty when provided'')
      else if (case id_b_seq i of Some n \<Rightarrow> n < 1 | None \<Rightarrow> False)
        then Inl (B2bua_ValueError ''b_seq must be a positive integer when provided'')
      else Inr i)"

definition with_attempt :: "string \<Rightarrow> int option \<Rightarrow> B2buaIdentity \<Rightarrow> b2bua_error + B2buaIdentity" where
  "with_attempt b n i = validate_identity (i\<lparr>id_b_session_id := Some b, id_b_seq := n\<rparr>)"

text \<open>The fields of the request that the session handling reads; roles and contents of the messages.\<close>

record domain_request =
  dom_session_id :: json
  dom_extra_body :: json
  dom_messages :: "(string \<times> json) list"

record session_context =
  cx_headers :: "(string \<times> string) list"
  cx_state :: json
  cx_client_host :: "string option"
  cx_agent :: "string option"
  cx_session_id :: "string option"
  cx_domain_request :: "domain_request option"
  cx_identity :: "B2buaIdentity option"
  cx_values :: jdict

definition get_header :: "string \<Rightarrow> session_context \<Rightarrow> string option" where
  "get_header k ctx = map_of (cx_headers ctx) (py_lower k)"

definition update_values :: "jdict \<Rightarrow> session_context \<Rightarrow> session_context" where
  "update_values d ctx = ctx\<lparr>cx_values := fold (\<lambda>(k, v). dict_set k v) d (cx_values ctx)\<rparr>"

section \<open>Auth scope\<close>

text \<open>The configuration: \<^verbatim>\<open>host\<close> and what \<^verbatim>\<open>access_mode.is_single_user()\<close> returns, if it can be called.\<close>

record scope_config =
  sc_host :: json
  sc_single_user :: "bool option"

definition LOCALHOST_HOSTS :: "string list" where
  "LOCALHOST_HOSTS = [''127.0.0.1'', ''localhost'', ''::1'']"

definition is_single_user_localhost_mode :: "scope_config option \<Rightarrow> bool" where
  "is_single_user_localhost_mode config =
     (case config of
        None \<Rightarrow> False
      | Some c \<Rightarrow>
          (case as_str (sc_host c) of
             None \<Rightarrow> False
           | Some host \<Rightarrow>
               (if py_lower (py_strip host) \<notin> set LOCALHOST_HOSTS then False
                else (case sc_single_user c of None \<Rightarrow> False | Some b \<Rightarrow> b))))"

definition normalize_candidate :: "json \<Rightarrow> string option" where
  "normalize_candidate v =
     (case as_str v of None \<Rightarrow> None | Some s \<Rightarrow> (let n = py_strip s in if n = [] then None else Some n))"

fun first_candidate :: "string list \<Rightarrow> jdict \<Rightarrow> string option" where
  "first_candidate [] state = None"
| "first_candidate (k # ks) state =
     (case normalize_candidate (dict_get k state) of Some s \<Rightarrow> Some s | None \<Rightarrow> first_candidate ks state)"

definition extract_state_scope_id :: "json \<Rightarrow> string option" where
  "extract_state_scope_id state =
     (case as_dict state of
        None \<Rightarrow> None
      | Some d \<Rightarrow> first_candidate [''auth_scope_id'', ''authenticated_token_id'', ''token_id''] d)"

definition resolve_auth_scope_id :: "scope_config option \<Rightarrow> session_context \<Rightarrow> string option" where
  "resolve_auth_scope_id config ctx =
     (case extract_state_scope_id (cx_state ctx) of
        Some s \<Rightarrow> Some s
      | None \<Rightarrow> if is_single_user_localhost_mode config then Some LOCALHOST_AUTH_SCOPE else None)"

section \<open>Client session identifier\<close>

definition DEFAULT_ECHO_HEADER :: string where "DEFAULT_ECHO_HEADER = ''x-b2bua-session-id''"

definition resolve_configured_echo_header_name :: "json option \<Rightarrow> string" where
  "resolve_configured_echo_header_name config =
     (case config of
        None \<Rightarrow> DEFAULT_ECHO_HEADER
      | Some v \<Rightarrow>
          (case as_str v of
             None \<Rightarrow> DEFAULT_ECHO_HEADER
           | Some s \<Rightarrow> (let n = py_lower (py_strip s) in if n = [] then DEFAULT_ECHO_HEADER else n)))"

definition str_json :: "string option \<Rightarrow> json" where
  "str_json v = (case v of None \<Rightarrow> JNull | Some s \<Rightarrow> JStr s)"

definition extract_header_candidate :: "string \<Rightarrow> session_context \<Rightarrow> string option" where
  "extract_header_candidate echo_header ctx =
     (if echo_header = ''x-session-id'' then None
      else (case normalize_candidate (str_json (get_header ''x-session-id'' ctx)) of
              Some s \<Rightarrow> Some s
            | None \<Rightarrow> normalize_candidate (str_json (get_header echo_header ctx))))"

definition extract_body_candidates :: "session_context \<Rightarrow> string option \<times> string option" where
  "extract_body_candidates ctx =
     (case cx_domain_request ctx of
        None \<Rightarrow> (None, None)
      | Some r \<Rightarrow>
          (normalize_candidate (dom_session_id r),
           case as_dict (dom_extra_body r) of None \<Rightarrow> None | Some d \<Rightarrow> normalize_candidate (dict_get ''session_id'' d)))"

definition record_conflict_diagnostic_if_needed :: "string option list \<Rightarrow> session_context \<Rightarrow> session_context" where
  "record_conflict_diagnostic_if_needed candidates ctx =
     (if length (remdups (List.map_filter id candidates)) \<le> 1 then ctx
      else update_values [(''b2bua_client_session_id_conflict'', JBool True)] ctx)"

definition extract_client_session_id :: "string \<Rightarrow> session_context \<Rightarrow> string option \<times> session_context" where
  "extract_client_session_id echo_header ctx0 =
     (let h = extract_header_candidate echo_header ctx0;
          (b, x) = extract_body_candidates ctx0;
          ctx = record_conflict_diagnostic_if_needed [h, b, x] ctx0;
          extracted = (case h of Some s \<Rightarrow> Some s | None \<Rightarrow> (case b of Some s \<Rightarrow> Some s | None \<Rightarrow> x)) in
      (extracted,
       case extracted of None \<Rightarrow> ctx | Some s \<Rightarrow> update_values [(''b2bua_client_session_id'', JStr s)] ctx))"

section \<open>Session resolver\<close>

definition ANONYMOUS_AUTH_SCOPE_PREFIX :: string where "ANONYMOUS_AUTH_SCOPE_PREFIX = ''__b2bua-anon-auth__''"
definition ANONYMOUS_CLIENT_SESSION_ID :: string where "ANONYMOUS_CLIENT_SESSION_ID = ''__b2bua-anon-client__''"

text \<open>The text of the first user message; \<open>None\<close> is the \<^verbatim>\<open>TypeError\<close> of joining parts that are not strings.\<close>

fun text_parts :: "json list \<Rightarrow> string option" where
  "text_parts [] = Some []"
| "text_parts (p # ps) =
     (case as_dict p of
        Some d \<Rightarrow>
          (if dict_get ''type'' d = JStr ''text'' then
             (case (as_str (case map_of d ''text'' of None \<Rightarrow> JStr [] | Some v \<Rightarrow> v), text_parts ps) of
                (Some s, Some r) \<Rightarrow> Some (s @ r)
              | _ \<Rightarrow> None)
           else text_parts ps)
      | None \<Rightarrow> text_parts ps)"

fun first_user_message :: "(string \<times> json) list \<Rightarrow> string option" where
  "first_user_message [] = Some []"
| "first_user_message ((role, content) # ms) =
     (if role = ''user'' then
        (case content of JStr s \<Rightarrow> Some s | JList ps \<Rightarrow> text_parts ps | _ \<Rightarrow> Some [])
      else first_user_message ms)"

definition heuristic_client_id :: "(string \<Rightarrow> string) \<Rightarrow> session_context \<Rightarrow> string option" where
  "heuristic_client_id digest ctx =
     (let agent_text = (case cx_agent ctx of None \<Rightarrow> [] | Some a \<Rightarrow> py_strip a);
          host_text = (case cx_client_host ctx of None \<Rightarrow> [] | Some h \<Rightarrow> py_strip h) in
      case (case cx_domain_request ctx of None \<Rightarrow> Some [] | Some r \<Rightarrow> first_user_message (dom_messages r)) of
        None \<Rightarrow> None
      | Some msg \<Rightarrow>
          (if msg \<noteq> [] then Some (''b2bua-fallback:'' @ digest msg)
           else if agent_text \<noteq> [] \<or> host_text \<noteq> [] then Some (''b2bua-fallback:'' @ digest (agent_text @ ''|'' @ host_text))
           else None))"

definition note_continuity :: "bool \<Rightarrow> bool \<Rightarrow> session_context \<Rightarrow> session_context" where
  "note_continuity reused err ctx =
     update_values [(''b2bua_continuity_reused_existing'', JBool reused), (''b2bua_continuity_store_error'', JBool err)] ctx"

text \<open>\<^verbatim>\<open>context.session_id = ...\<close> and the new identity.\<close>

definition adopt_session ::
  "string \<Rightarrow> string option \<Rightarrow> string option \<Rightarrow> session_context \<Rightarrow> (b2bua_error + string) \<times> session_context" where
  "adopt_session a client scope ctx0 =
     (let ctx = ctx0\<lparr>cx_session_id := Some a\<rparr> in
      case validate_identity \<lparr>id_a_session_id = a, id_b_session_id = None, id_client_session_id = client,
              id_auth_scope_id = scope, id_b_seq = None\<rparr> of
        Inl err \<Rightarrow> (Inl err, ctx)
      | Inr i \<Rightarrow> (Inr a, ctx\<lparr>cx_identity := Some i\<rparr>))"

record resolver_config =
  rc_echo_header :: string
  rc_scope :: "scope_config option"
  rc_heuristics :: bool

text \<open>The last part of the resolver: no echoed leg was found; \<open>now\<close> is the time of the store call.\<close>

definition resolve_new_session ::
  "'s mapping_store \<Rightarrow> (string \<Rightarrow> string) \<Rightarrow> bool \<Rightarrow> real \<Rightarrow> (nat \<Rightarrow> string) \<Rightarrow> string option \<Rightarrow> string option \<Rightarrow>
   session_context \<Rightarrow> 's \<Rightarrow> (b2bua_error + string) \<times> session_context \<times> 's" where
  "resolve_new_session store digest heuristics now uuid client scope ctx s =
     (let create = (\<lambda>i. generate_a_session_id (uuid i));
          client' = (case client of Some c \<Rightarrow> Some c
                     | None \<Rightarrow> if heuristics then heuristic_client_id digest ctx else None) in
      case (client', scope) of
        (Some c, Some sc) \<Rightarrow>
          (let (r, s') = op_resolve_or_create store now sc c create s;
               (res, ctx') = adopt_session (res_a_session_id r) (Some c) scope (note_continuity (reused_existing r) (had_store_error r) ctx) in
           (res, ctx', s'))
      | _ \<Rightarrow>
          (let generated = create 0;
               (r, s') = op_resolve_or_create store now (ANONYMOUS_AUTH_SCOPE_PREFIX @ '':'' @ generated)
                           ANONYMOUS_CLIENT_SESSION_ID (\<lambda>_. generated) s;
               (res, ctx') = adopt_session (res_a_session_id r) client scope (note_continuity False (had_store_error r) ctx) in
           (res, ctx', s')))"

definition resolve_session_id ::
  "'s mapping_store \<Rightarrow> resolver_config \<Rightarrow> (string \<Rightarrow> string) \<Rightarrow> real \<Rightarrow> real \<Rightarrow> (nat \<Rightarrow> string) \<Rightarrow> session_context \<Rightarrow> 's \<Rightarrow>
   (b2bua_error + string) \<times> session_context \<times> 's" where
  "resolve_session_id store rc digest t1 t2 uuid ctx0 s0 =
     (case cx_identity ctx0 of
        Some i \<Rightarrow> (Inr (id_a_session_id i), ctx0\<lparr>cx_session_id := Some (id_a_session_id i)\<rparr>, s0)
      | None \<Rightarrow>
          (let (client, ctx) = extract_client_session_id (rc_echo_header rc) ctx0;
               scope = resolve_auth_scope_id (rc_scope rc) ctx;
               (echo, s) = (case client of
                   Some c \<Rightarrow> if is_canonical_a_session_id c then op_try_resolve_echoed store t1 (py_strip c) scope s0 else (None, s0)
                 | None \<Rightarrow> (None, s0)) in
           case echo of
             Some r \<Rightarrow>
               (let (res, ctx') = adopt_session (res_a_session_id r) client scope
                      (note_continuity (reused_existing r) (had_store_error r) ctx) in
                (res, ctx', s))
           | None \<Rightarrow> resolve_new_session store digest (rc_heuristics rc) t2 uuid client scope ctx s))"

section \<open>B-leg allocator\<close>

record BlegAllocation =
  alloc_b_session_id :: string
  alloc_seq :: int

definition allocate ::
  "'s mapping_store \<Rightarrow> real \<Rightarrow> real \<Rightarrow> string \<Rightarrow> string option \<Rightarrow> string option \<Rightarrow> string option \<Rightarrow> 's \<Rightarrow>
   (b2bua_error + BlegAllocation) \<times> 's" where
  "allocate store t1 t2 a backend model reason s0 =
     (case op_allocate_next_b_seq store t1 a s0 of
        (Inl err, s) \<Rightarrow> (Inl err, s)
      | (Inr seq, s) \<Rightarrow>
          (case generate_b_session_id a seq of
             Inl err \<Rightarrow> (Inl err, s)
           | Inr b \<Rightarrow>
               (case op_record_attempt store t2 a b seq backend model reason s of
                  (Inl err, s') \<Rightarrow> (Inl err, s')
                | (Inr _, s') \<Rightarrow> (Inr \<lparr>alloc_b_session_id = b, alloc_seq = seq\<rparr>, s'))))"

end
