(* ===== verification/B2bua_Theorems.thy ===== *)
theory B2bua_Theorems
  imports B2bua_Sessions
begin

text \<open>
  What the B2BUA session handling promises: sessions are isolated from each other, B-leg identifiers are unique, a
  session is continued for its time to live, the stores stay within their bounds, and a session that was resolved once
  is found again.
\<close>

declare split_paired_All [simp del] split_paired_Ex [simp del]

section \<open>Runs of the stores from their initial state\<close>

lemma memory_init: "0 \<le> max_entries cfg \<Longrightarrow> memory_inv cfg empty_memory_store"
  by (simp add: memory_inv_def legs_consistent_def empty_memory_store_def)

lemma memory_init_used: "mem.used empty_memory_store = {}"
  by (simp add: mem.used_def memory_entry_def empty_memory_store_def)

lemma db_init: "0 \<le> max_entries cfg \<Longrightarrow> scan_ok ord \<Longrightarrow> db_good ord cfg initialize_database"
  by (simp add: db_good_def db_inv_def db_ok_def initialize_database_def)

lemma db_init_used: "db.used initialize_database = {}"
  by (simp add: db.used_def db_entry_def initialize_database_def)

lemma memory_calls: "mem.calls es = map snd es"
  by (simp add: mem.calls_def)

lemma db_calls: "db.calls ds = map (snd \<circ> snd) ds"
  by (simp add: db.calls_def)

text \<open>The A-leg identifiers that a store holds.\<close>

definition memory_ids :: "memory_store \<Rightarrow> string set" where
  "memory_ids st = set (map (entry_a_session_id \<circ> snd) (entries st))"

definition db_ids :: "database \<Rightarrow> string set" where
  "db_ids db = set (map row_a_session_id (b2bua_mappings db))"

lemma memory_ids_iff:
  assumes "legs_consistent st"
  shows "a \<in> memory_ids st \<longleftrightarrow> (\<exists>k e. map_of (entries st) k = Some e \<and> entry_a_session_id e = a)"
proof
  assume "a \<in> memory_ids st"
  then obtain k e where "(k, e) \<in> set (entries st)" "entry_a_session_id e = a"
    by (auto simp: memory_ids_def)
  then show "\<exists>k e. map_of (entries st) k = Some e \<and> entry_a_session_id e = a"
    using legs_consistentD(1) [OF assms] by (metis map_of_is_SomeI)
qed (auto simp: memory_ids_def image_iff dest!: map_of_SomeD, force)

lemma memory_used:
  assumes "memory_inv cfg st"
  shows "mem.used st = memory_ids st"
  unfolding mem.used_def memory_entry_Some using memory_ids_iff [OF invD(1) [OF assms]] by blast

lemma db_used: "db_ok db \<Longrightarrow> db.used db = db_ids db"
  unfolding db.used_def db_ids_def using db_entry_row [of db] by (auto simp: db_entry_Some)

text \<open>
  C12. Session isolation. Take any run of calls on a mapping store that starts empty, in which every call draws A-leg
  identifiers that were not drawn before. A leg that is resolved for one pair of auth scope and client session id is
  never resolved for another pair, and an echo of it is answered only under an auth scope that the echo rule admits
  for its owner. This holds for the in-memory store and for the persistent store, for every order in which the
  database returns rows and whatever database faults occur.
\<close>

theorem sessions_isolated:
  assumes "fresh_draws {} (map snd es)" and "fresh_draws {} (map (snd \<circ> snd) ds)" and "1 \<le> max_entries cfg" and "scan_ok ord"
  shows "answers_isolated (map snd es) (fst (run_machine (memory_step cfg) empty_memory_store es)) \<and>
    answers_isolated (map (snd \<circ> snd) ds) (fst (run_machine (db_step ord cfg) initialize_database ds))"
  using mem.run_isolated [OF memory_init, of cfg es] db.run_isolated [OF db_init, of cfg ord ds] assms
  by (simp add: memory_init_used db_init_used memory_calls db_calls)

text \<open>
  C13. B-leg identifiers are unique: in a run from the empty store in which fresh, well-formed identifiers are drawn, no
  two successful sequence allocations lead to the same B-leg identifier, neither for one A-leg nor for two.
\<close>

theorem b_leg_ids_unique:
  assumes "fresh_draws {} (map snd es)" and "fresh_draws {} (map (snd \<circ> snd) ds)" and "1 \<le> max_entries cfg" and "scan_ok ord"
    and "\<forall>a \<in> all_draws (map snd es) \<union> all_draws (map (snd \<circ> snd) ds). generated_id a"
  shows "b_legs_unique (map snd es) (fst (run_machine (memory_step cfg) empty_memory_store es)) \<and>
    b_legs_unique (map (snd \<circ> snd) ds) (fst (run_machine (db_step ord cfg) initialize_database ds))"
  using mem.run_b_legs_unique [OF memory_init, of cfg es] db.run_b_legs_unique [OF db_init, of cfg ord ds] assms
  by (simp add: memory_init_used db_init_used memory_calls db_calls)

text \<open>
  C14. Continuity. With sliding expiration, a pair of auth scope and client session id that is resolved at time \<open>t\<close> keeps
  its A-leg for the whole time to live: after any further calls until \<open>t'\<close>, the same pair resolves to the same leg, which is reported as
  reused, provided that the store has room for the legs those calls may add and, in the persistent store, that the two
  resolutions meet no database fault.
\<close>

theorem session_continuity:
  assumes "sliding_expiration cfg" and "0 < continuity_ttl_seconds cfg" and "py_strip u \<noteq> []" and "py_strip v \<noteq> []"
    and "sorted (t # map fst es @ [t'])" and "sorted (t # map fst ds @ [t'])" and "t' < t + of_int (continuity_ttl_seconds cfg)"
    and "memory_inv cfg st" and "db_good ord cfg db"
    and "fresh_draws (memory_ids st) (ResolveOrCreate u v c # map snd es)"
    and "fresh_draws (db_ids db) (ResolveOrCreate u v c # map (snd \<circ> snd) ds)"
    and "int (length (entries st) + 1 + sum_list (map (creates \<circ> snd) es)) \<le> max_entries cfg"
    and "int (length (b2bua_mappings db) + 1 + sum_list (map (creates \<circ> (snd \<circ> snd)) ds)) \<le> max_entries cfg"
  shows "(\<exists>a b. fst (memory_step cfg t (ResolveOrCreate u v c) st) = Resolution (resolution a b False) \<and>
      fst (memory_step cfg t' (ResolveOrCreate u v c') (snd (run_machine (memory_step cfg) st ((t, ResolveOrCreate u v c) # es)))) =
        Resolution (resolution a True False)) \<and>
    (\<exists>a b. fst (db_step ord cfg t (None, ResolveOrCreate u v c) db) = Resolution (resolution a b False) \<and>
      fst (db_step ord cfg t' (None, ResolveOrCreate u v c') (snd (run_machine (db_step ord cfg) db ((t, None, ResolveOrCreate u v c) # ds)))) =
        Resolution (resolution a True False))"
proof (intro conjI)
  show "\<exists>a b. fst (memory_step cfg t (ResolveOrCreate u v c) st) = Resolution (resolution a b False) \<and>
      fst (memory_step cfg t' (ResolveOrCreate u v c') (snd (run_machine (memory_step cfg) st ((t, ResolveOrCreate u v c) # es)))) =
        Resolution (resolution a True False)"
    using mem.continuity [where cfg = cfg and s = st and t = t and e = "ResolveOrCreate u v c" and e' = "ResolveOrCreate u v c'" and es = es and t' = t'] assms
    by (simp add: memory_calls memory_used [of cfg] o_def del: memory_step.simps)
  show "\<exists>a b. fst (db_step ord cfg t (None, ResolveOrCreate u v c) db) = Resolution (resolution a b False) \<and>
      fst (db_step ord cfg t' (None, ResolveOrCreate u v c') (snd (run_machine (db_step ord cfg) db ((t, None, ResolveOrCreate u v c) # ds)))) =
        Resolution (resolution a True False)"
    using db.continuity [where cfg = cfg and ord = ord and s = db and t = t and e = "(None, ResolveOrCreate u v c)" and e' = "(None, ResolveOrCreate u v c')" and es = ds and t' = t'] assms
    by (simp add: db_calls db_used [OF db_goodD(2) [OF assms(9)]] o_def del: db_step.simps)
qed

section \<open>Bounds\<close>

lemma memory_run_inv:
  assumes "memory_inv cfg st" and "fresh_draws (memory_ids st) (map snd es)"
  shows "memory_inv cfg (snd (run_machine (memory_step cfg) st es))"
  using mem.run_origin [OF assms(1) order_refl, of es] assms(2) by (simp add: memory_calls memory_used [OF assms(1)])

lemma db_run_good: "db_good ord cfg db \<Longrightarrow> db_good ord cfg (snd (run_machine (db_step ord cfg) db ds))"
  by (induction ds arbitrary: db) (simp_all add: db_good_step del: db_step.simps)

lemma memory_index:
  assumes "memory_inv cfg st"
  shows "dom (a_session_to_key st) = memory_ids st" and "dom (attempt_records st) \<subseteq> memory_ids st"
proof -
  note c = legs_consistentD [OF invD(1) [OF assms]]
  show d: "dom (a_session_to_key st) = memory_ids st"
  proof (rule set_eqI)
    fix a
    have "a \<in> dom (a_session_to_key st) \<longleftrightarrow> (\<exists>k. a_session_to_key st a = Some k)" by (simp add: dom_def)
    then show "a \<in> dom (a_session_to_key st) \<longleftrightarrow> a \<in> memory_ids st"
      using c(2) memory_ids_iff [OF invD(1) [OF assms]] by blast
  qed
  show "dom (attempt_records st) \<subseteq> memory_ids st"
    using c(3) d by blast
qed

text \<open>
  C38. The stores stay within their bounds: after any run from the empty store they hold at most \<^verbatim>\<open>max_entries\<close> legs,
  in the in-memory store the index of identifiers and the attempt records belong to stored legs, and in the persistent
  store the keys and identifiers of the legs and the B-leg identifiers of the attempts are unique and every attempt has
  its leg.
\<close>

theorem stores_bounded:
  assumes "fresh_draws {} (map snd es)" and "1 \<le> max_entries cfg" and "scan_ok ord"
  shows "let st = snd (run_machine (memory_step cfg) empty_memory_store es);
      db = snd (run_machine (db_step ord cfg) initialize_database ds) in
    int (length (entries st)) \<le> max_entries cfg \<and> dom (a_session_to_key st) = memory_ids st \<and>
      dom (attempt_records st) \<subseteq> memory_ids st \<and>
    int (length (b2bua_mappings db)) \<le> max_entries cfg \<and> db_ok db"
proof -
  have e: "memory_ids empty_memory_store = {}" by (simp add: memory_ids_def empty_memory_store_def)
  have i: "memory_inv cfg (snd (run_machine (memory_step cfg) empty_memory_store es))"
    using assms(1,2) by (intro memory_run_inv memory_init) (simp_all add: e)
  have "db_good ord cfg (snd (run_machine (db_step ord cfg) initialize_database ds))"
    using assms(2,3) by (intro db_run_good db_init) simp_all
  with memory_index [OF i] invD(2) [OF i] show ?thesis
    unfolding Let_def using db_goodD(2,3) by blast
qed

section \<open>The session resolver\<close>

lemma adopt_session_Inr:
  "adopt_session a client scope ctx = (Inr b, ctx') \<Longrightarrow>
     b = a \<and> cx_session_id ctx' = Some a \<and> map_option id_a_session_id (cx_identity ctx') = Some a"
  by (auto simp: adopt_session_def validate_identity_def Let_def split: if_splits sum.splits option.splits)

text \<open>
  A resolved request keeps its session: when the resolver returns a session id, for any mapping store, the context
  carries that id and an identity with it, and resolving the same context again returns the same id and neither calls
  the store nor changes the context, whatever headers the request has.
\<close>

lemma resolution_sticks:
  assumes "resolve_session_id store rc digest t1 t2 uuid ctx s = (Inr a, ctx', s')"
  shows "cx_session_id ctx' = Some a \<and> map_option id_a_session_id (cx_identity ctx') = Some a \<and>
    resolve_session_id store' rc' digest' t1' t2' uuid' ctx' s'' = (Inr a, ctx', s'')"
proof -
  have "cx_session_id ctx' = Some a \<and> map_option id_a_session_id (cx_identity ctx') = Some a"
    using assms
    by (auto simp: resolve_session_id_def resolve_new_session_def Let_def split: option.splits prod.splits if_splits
        dest!: adopt_session_Inr)
  then show ?thesis by (auto simp: resolve_session_id_def)
qed

text \<open>A live leg answers an echo of its identifier.\<close>

lemma echo_live:
  assumes "memory_inv cfg st" and "memory_entry st k = Some (a, n, x)" and "t < x" and "py_strip a = a" and "a \<noteq> []"
    and "echo_continuity_auth_allows (fst k) q"
  shows "fst (try_resolve_echoed_a_session_id cfg t a q st) = Some (resolution a True False)"
proof -
  note i = invD(1) [OF assms(1)]
  obtain e where e: "live t st k = Some e" "entry_a_session_id e = a" "expires_at e = x"
    using live_eq [OF assms(2,3)] by blast
  then have "a_session_to_key (cleanup_expired_entries t st) a = Some k"
    using index_live [OF i] by blast
  then show ?thesis
    using e assms(3-6) by (simp add: try_resolve_echoed_a_session_id_def normalize_cases cleanup_map [OF i] Let_def)
qed

lemma canonical_strip:
  assumes "generated_id a"
  shows "py_strip a = a" and "a \<noteq> []" and "is_canonical_a_session_id a"
  using assms by (auto simp: generated_id_def generate_a_canonical py_strip_safe generate_a_safe)
    (simp add: generate_a_session_id_def A_SESSION_PREFIX_def)

lemma extract_echo_header:
  assumes "h \<noteq> ''x-session-id''" and "get_header ''x-session-id'' ctx = None" and "get_header h ctx = Some a"
    and "py_strip a = a" and "a \<noteq> []"
  shows "fst (extract_client_session_id h ctx) = Some a"
    and "cx_identity (snd (extract_client_session_id h ctx)) = cx_identity ctx"
    and "cx_state (snd (extract_client_session_id h ctx)) = cx_state ctx"
  using assms
  by (auto simp: extract_client_session_id_def extract_header_candidate_def normalize_candidate_def str_json_def Let_def
      record_conflict_diagnostic_if_needed_def update_values_def split: prod.splits option.splits)

text \<open>
  A client that sends back the session id it was given resumes its session: when the echo header of a request holds
  the A-leg identifier of a live leg and the auth scope of the request is one that the leg admits (its own; or none
  or localhost for an anonymous leg), the resolver returns that identifier.
\<close>

lemma echoed_session_resumes:
  assumes "memory_inv cfg st" and "memory_entry st k = Some (a, n, x)" and "t1 < x" and "generated_id a"
    and "cx_identity ctx = None" and "rc_echo_header rc \<noteq> ''x-session-id''"
    and "get_header ''x-session-id'' ctx = None" and "get_header (rc_echo_header rc) ctx = Some a"
    and "echo_continuity_auth_allows (fst k) (resolve_auth_scope_id (rc_scope rc) ctx)"
  shows "fst (resolve_session_id (in_memory_store cfg) rc digest t1 t2 uuid ctx st) = Inr a"
proof -
  note a = canonical_strip [OF assms(4)]
  note x = extract_echo_header [OF assms(6,7,8) a(1,2)]
  have "resolve_auth_scope_id (rc_scope rc) (snd (extract_client_session_id (rc_echo_header rc) ctx)) = resolve_auth_scope_id (rc_scope rc) ctx"
    by (simp add: resolve_auth_scope_id_def x(3))
  with echo_live [OF assms(1,2,3) a(1,2) assms(9)] x(1) assms(5) a show ?thesis
    by (auto simp: resolve_session_id_def in_memory_store_def Let_def adopt_session_def validate_identity_def split: prod.splits)
qed

section \<open>The allocator\<close>

lemma cleanup_records_idem:
  assumes "legs_consistent st"
  shows "cleanup_expired_entries t (cleanup_expired_entries t st\<lparr>attempt_records := f\<rparr>) = cleanup_expired_entries t st\<lparr>attempt_records := f\<rparr>"
proof -
  let ?st = "cleanup_expired_entries t st"
  have "\<not> expires_at (snd p) \<le> t" if p: "p \<in> set (entries ?st)" for p
  proof -
    have "map_of (entries ?st) (fst p) = Some (snd p)"
      using p legs_consistentD(1) [OF cleanup_consistent [OF assms]] by (intro map_of_is_SomeI) simp_all
    then show ?thesis using live_SomeD [of t st "fst p" "snd p"] by (simp add: cleanup_map [OF assms])
  qed
  then have "filter (\<lambda>p. expires_at (snd p) \<le> t) (entries ?st) = []"
    by (simp add: filter_empty_conv)
  then show ?thesis
    by (subst cleanup_expired_entries_def) simp
qed

lemma record_then_get:
  assumes "legs_consistent st" and "record_attempt t a b n be mo re st = (Inr (), st')"
  shows "\<exists>rs. fst (get_attempt_records t a st') = Inr (rs @ [\<lparr>rec_b_session_id = py_strip b, rec_a_session_id = py_strip a,
       rec_seq = n, rec_backend_type = be, rec_effective_model = mo, rec_reason = re\<rparr>])"
proof -
  let ?st = "cleanup_expired_entries t st" and ?r = "\<lparr>rec_b_session_id = py_strip b, rec_a_session_id = py_strip a,
       rec_seq = n, rec_backend_type = be, rec_effective_model = mo, rec_reason = re\<rparr>"
  obtain rs where a: "py_strip a \<noteq> []" and st': "st' = ?st\<lparr>attempt_records := (attempt_records ?st)(py_strip a \<mapsto> rs @ [?r])\<rparr>"
    using assms(2) by (auto simp: record_attempt_def normalize_cases Let_def split: if_splits)
  show ?thesis
    unfolding st' get_attempt_records_def
    by (simp add: normalize_cases a Let_def cleanup_records_idem [OF assms(1)])
qed

lemma allocate_Inr:
  assumes "allocate store t1 t2 a be mo re s = (Inr al, s')"
  shows "\<exists>s1. op_allocate_next_b_seq store t1 a s = (Inr (alloc_seq al), s1) \<and>
    generate_b_session_id a (alloc_seq al) = Inr (alloc_b_session_id al) \<and>
    op_record_attempt store t2 a (alloc_b_session_id al) (alloc_seq al) be mo re s1 = (Inr (), s')"
  using assms by (auto simp: allocate_def split: prod.splits sum.splits)

text \<open>
  An allocation leaves its record: when the allocator returns a B-leg, its identifier is safe in a header and is not
  itself an A-leg identifier, its sequence number is positive, and the records of the A-leg end with one that
  holds the identifier, the number and the given backend, model and reason.
\<close>

lemma allocation_recorded:
  assumes "memory_inv cfg st" and "allocate (in_memory_store cfg) t1 t2 a backend model reason st = (Inr al, st')"
  shows "is_header_safe (alloc_b_session_id al) \<and> \<not> is_canonical_a_session_id (alloc_b_session_id al) \<and> 1 \<le> alloc_seq al \<and>
    (\<exists>rs. fst (get_attempt_records t2 a st') = Inr (rs @ [\<lparr>rec_b_session_id = alloc_b_session_id al, rec_a_session_id = py_strip a,
       rec_seq = alloc_seq al, rec_backend_type = backend, rec_effective_model = model, rec_reason = reason\<rparr>]))"
proof -
  obtain st1 where s1: "allocate_next_b_seq cfg t1 a st = (Inr (alloc_seq al), st1)"
      and b: "generate_b_session_id a (alloc_seq al) = Inr (alloc_b_session_id al)"
      and r: "record_attempt t2 a (alloc_b_session_id al) (alloc_seq al) backend model reason st1 = (Inr (), st')"
    using allocate_Inr [OF assms(2)] by (auto simp: in_memory_store_def)
  have "legs_consistent st1"
    using quietD(1) [OF allocate_quiet [OF invD(1) [OF assms(1)], of cfg t1 a]] by (simp add: s1)
  moreover have "py_strip (alloc_b_session_id al) = alloc_b_session_id al"
    using generate_b_safe(1) [OF b] by (rule py_strip_safe)
  moreover have "1 \<le> alloc_seq al" using b by (rule generate_bD)
  ultimately show ?thesis
    using record_then_get [OF _ r] b_session_id_header_safe [OF b] b_session_id_not_canonical [OF b] by simp
qed

end
