(* ===== verification/B2bua_Examples.thy ===== *)
theory B2bua_Examples
  imports B2bua_Theorems
begin

text \<open>The theorems of the B2BUA session handling at concrete inputs.\<close>

definition ex_config :: store_config where
  "ex_config = \<lparr>continuity_ttl_seconds = 60, sliding_expiration = True, max_entries = 3\<rparr>"

definition ex_scan :: scan_orders where
  "ex_scan = \<lparr>scan_mappings = rev, scan_attempts = id\<rparr>"

definition ex_uuid :: "nat \<Rightarrow> string" where
  "ex_uuid i = (if i = 0 then ''aaaaaaaa-aaaa-4aaa-8aaa-aaaaaaaaaaaa''
                else if i = 1 then ''bbbbbbbb-bbbb-4bbb-8bbb-bbbbbbbbbbbb''
                else if i = 2 then ''cccccccc-cccc-4ccc-8ccc-cccccccccccc'' else ''dddddddd-dddd-4ddd-8ddd-dddddddddddd'')"

definition ex_draw :: "nat \<Rightarrow> nat \<Rightarrow> string" where
  "ex_draw n i = generate_a_session_id (ex_uuid (n + i))"

text \<open>Two clients with the same session id under different tokens, an echo, and two allocations.\<close>

definition ex_calls :: "(real \<times> store_call) list" where
  "ex_calls =
     [(0, ResolveOrCreate ''token-1'' ''c'' (ex_draw 0)), (1, ResolveOrCreate ''token-2'' ''c'' (ex_draw 2)),
      (2, TryResolveEchoed (ex_draw 0 0) (Some ''token-2'')), (3, AllocateNextBSeq (ex_draw 0 0)),
      (4, AllocateNextBSeq (ex_draw 0 0))]"

definition ex_db_calls :: "(real \<times> db_fault option \<times> store_call) list" where
  "ex_db_calls = map (\<lambda>(t, c). (t, if t = 2 then Some Fault_On_Read else None, c)) ex_calls"

lemma ex_uuid_text: "uuid_text (ex_uuid i) \<and> py_lower (ex_uuid i) = ex_uuid i"
  by (auto simp: ex_uuid_def uuid_text_def hex_char_def py_lower_def py_lower_char_def upt_rec)

lemma ex_draw_generated: "generated_id (ex_draw n i)"
  using ex_uuid_text by (auto simp: generated_id_def ex_draw_def)

lemma ex_draw_eq [simp]: "ex_draw n i = ex_draw m j \<longleftrightarrow> ex_uuid (n + i) = ex_uuid (m + j)"
  by (simp add: ex_draw_def generate_a_session_id_def)

lemma ex_fresh: "fresh_draws {} (map snd ex_calls)" "fresh_draws {} (map (snd \<circ> snd) ex_db_calls)"
  by (simp_all add: ex_calls_def ex_db_calls_def ex_uuid_def)

lemma ex_generated: "\<forall>a \<in> all_draws (map snd ex_calls) \<union> all_draws (map (snd \<circ> snd) ex_db_calls). generated_id a"
  by (auto simp: ex_calls_def ex_db_calls_def ex_draw_generated)

lemma ex_scan_ok: "scan_ok ex_scan"
  by (simp add: scan_ok_def ex_scan_def)

lemma ex_max: "1 \<le> max_entries ex_config"
  by (simp add: ex_config_def)

theorem sessions_isolated_witness:
  "answers_isolated (map snd ex_calls) (fst (run_machine (memory_step ex_config) empty_memory_store ex_calls)) \<and>
   answers_isolated (map (snd \<circ> snd) ex_db_calls) (fst (run_machine (db_step ex_scan ex_config) initialize_database ex_db_calls))"
  using sessions_isolated [OF ex_fresh ex_max ex_scan_ok] .

theorem b_leg_ids_unique_witness:
  "b_legs_unique (map snd ex_calls) (fst (run_machine (memory_step ex_config) empty_memory_store ex_calls)) \<and>
   b_legs_unique (map (snd \<circ> snd) ex_db_calls) (fst (run_machine (db_step ex_scan ex_config) initialize_database ex_db_calls))"
  using b_leg_ids_unique [OF ex_fresh ex_max ex_scan_ok ex_generated] .

theorem stores_bounded_witness:
  "length (entries (snd (run_machine (memory_step ex_config) empty_memory_store ex_calls))) \<le> 3 \<and>
   length (b2bua_mappings (snd (run_machine (db_step ex_scan ex_config) initialize_database ex_db_calls))) \<le> 3"
  using stores_bounded [OF ex_fresh(1) ex_max ex_scan_ok, of ex_db_calls] by (simp add: Let_def ex_config_def)

text \<open>Between two resolutions of one client, another client opens a session.\<close>

theorem session_continuity_witness:
  "\<exists>a b. fst (memory_step ex_config 0 (ResolveOrCreate ''t'' ''c'' (ex_draw 0)) empty_memory_store) = Resolution (resolution a b False) \<and>
     fst (memory_step ex_config 59 (ResolveOrCreate ''t'' ''c'' (ex_draw 0))
       (snd (run_machine (memory_step ex_config) empty_memory_store
          [(0, ResolveOrCreate ''t'' ''c'' (ex_draw 0)), (30, ResolveOrCreate ''u'' ''d'' (ex_draw 2))]))) =
       Resolution (resolution a True False)"
proof -
  have "memory_inv ex_config empty_memory_store" "db_good ex_scan ex_config initialize_database"
    by (simp_all add: memory_init db_init ex_config_def ex_scan_ok)
  then show ?thesis
    using session_continuity [of ex_config "''t''" "''c''" 0 "[(30, ResolveOrCreate ''u'' ''d'' (ex_draw 2))]"
        59 "[]" empty_memory_store ex_scan initialize_database "ex_draw 0" "ex_draw 0"]
    by (simp add: ex_config_def empty_memory_store_def initialize_database_def memory_ids_def db_ids_def ex_uuid_def
        py_strip_defs py_isspace_def del: memory_step.simps db_step.simps run_machine_Cons)
qed

section \<open>Requests\<close>

definition ex_context :: "(string \<times> string) list \<Rightarrow> json \<Rightarrow> session_context" where
  "ex_context headers state = \<lparr>cx_headers = headers, cx_state = state, cx_client_host = None, cx_agent = None,
     cx_session_id = None, cx_domain_request = None, cx_identity = None, cx_values = []\<rparr>"

definition ex_resolver :: resolver_config where
  "ex_resolver = \<lparr>rc_echo_header = DEFAULT_ECHO_HEADER, rc_scope = None, rc_heuristics = False\<rparr>"

definition ex_store :: memory_store where
  "ex_store = \<lparr>entries = [((''token-1'', ''c''), \<lparr>entry_a_session_id = ex_draw 0 0, expires_at = 60, last_accessed_at = 0, last_b_seq = 0\<rparr>)],
     a_session_to_key = [ex_draw 0 0 \<mapsto> (''token-1'', ''c'')], attempt_records = Map.empty\<rparr>"

lemma ex_store_inv: "memory_inv ex_config ex_store"
  by (auto simp: memory_inv_def legs_consistent_def ex_store_def ex_config_def split: if_splits)

theorem echoed_session_resumes_witness:
  "fst (resolve_session_id (in_memory_store ex_config) ex_resolver id 10 11 ex_uuid
     (ex_context [(''x-b2bua-session-id'', ex_draw 0 0)] (JDict [(''token_id'', JStr ''token-1'')])) ex_store) = Inr (ex_draw 0 0)"
proof (rule echoed_session_resumes [where k = "(''token-1'', ''c'')" and n = 0 and x = 60])
  show "memory_entry ex_store (''token-1'', ''c'') = Some (ex_draw 0 0, 0, 60)"
    by (simp add: memory_entry_def ex_store_def)
  show "echo_continuity_auth_allows (fst (''token-1'', ''c'')) (resolve_auth_scope_id (rc_scope ex_resolver)
      (ex_context [(''x-b2bua-session-id'', ex_draw 0 0)] (JDict [(''token_id'', JStr ''token-1'')])))"
    by (simp add: echo_continuity_auth_allows_def resolve_auth_scope_id_def extract_state_scope_id_def ex_context_def
        normalize_candidate_def dict_get_def py_strip_defs py_isspace_def)
qed (simp_all add: ex_store_inv ex_draw_generated ex_context_def ex_resolver_def DEFAULT_ECHO_HEADER_def get_header_def
      py_lower_def py_lower_char_def)

lemma ex_anonymous_resolves:
  "fst (resolve_session_id (in_memory_store ex_config) ex_resolver id 10 11 ex_uuid (ex_context [] JNull) empty_memory_store) = Inr (ex_draw 0 0)"
proof -
  have "py_strip (ANONYMOUS_AUTH_SCOPE_PREFIX @ '':'' @ a) \<noteq> []" for a
    by (simp add: py_strip_defs ANONYMOUS_AUTH_SCOPE_PREFIX_def py_isspace_def)
  moreover have "py_strip ANONYMOUS_CLIENT_SESSION_ID \<noteq> []"
    by (simp add: py_strip_defs ANONYMOUS_CLIENT_SESSION_ID_def py_isspace_def)
  moreover have "py_strip (ex_draw 0 0) = ex_draw 0 0" "ex_draw 0 0 \<noteq> []"
    using canonical_strip [OF ex_draw_generated] by auto
  ultimately show ?thesis
    using resolve_cases [OF invD(1) [OF memory_init [of ex_config]]]
    by (simp add: resolve_session_id_def resolve_new_session_def extract_client_session_id_def extract_header_candidate_def
        extract_body_candidates_def record_conflict_diagnostic_if_needed_def map_filter_def normalize_candidate_def str_json_def
        resolve_auth_scope_id_def extract_state_scope_id_def is_single_user_localhost_mode_def get_header_def
        ex_context_def ex_resolver_def DEFAULT_ECHO_HEADER_def in_memory_store_def adopt_session_def validate_identity_def
        ex_config_def live_def empty_memory_store_def Let_def ex_draw_def [symmetric, of 0 0, simplified] split: prod.splits)
qed

theorem resolution_sticks_witness:
  "\<exists>ctx. cx_session_id ctx = Some (ex_draw 0 0) \<and>
     resolve_session_id (in_memory_store ex_config) ex_resolver id 20 21 ex_uuid ctx ex_store = (Inr (ex_draw 0 0), ctx, ex_store)"
proof -
  let ?r = "resolve_session_id (in_memory_store ex_config) ex_resolver id 10 11 ex_uuid (ex_context [] JNull) empty_memory_store"
  have "?r = (Inr (ex_draw 0 0), fst (snd ?r), snd (snd ?r))"
    using ex_anonymous_resolves by (metis prod.collapse)
  from resolution_sticks [OF this, where store' = "in_memory_store ex_config" and rc' = ex_resolver and digest' = id
      and t1' = 20 and t2' = 21 and uuid' = ex_uuid and s'' = ex_store]
  show ?thesis by blast
qed

section \<open>An allocation\<close>

lemma ex_allocates:
  "\<exists>al st'. allocate (in_memory_store ex_config) 5 6 (ex_draw 0 0) (Some ''openai'') (Some ''gpt'') None ex_store = (Inr al, st')"
proof -
  have d: "py_strip (ex_draw 0 0) = ex_draw 0 0" "ex_draw 0 0 \<noteq> []"
    using canonical_strip [OF ex_draw_generated] by auto
  obtain b where b: "generate_b_session_id (ex_draw 0 0) 1 = Inr b"
    using ex_uuid_text extract_generated [of "ex_uuid 0"] by (auto simp: generate_b_session_id_def ex_draw_def)
  have "py_strip b \<noteq> []"
    using generate_b_safe [OF b] py_strip_safe by auto
  with d b show ?thesis
    by (simp add: allocate_def in_memory_store_def allocate_next_b_seq_def record_attempt_def normalize_cases Let_def
        cleanup_expired_entries_def ex_store_def put_entry_def touch_def ex_config_def)
qed

theorem allocation_recorded_witness:
  "\<exists>al st' rs. allocate (in_memory_store ex_config) 5 6 (ex_draw 0 0) (Some ''openai'') (Some ''gpt'') None ex_store = (Inr al, st') \<and>
     is_header_safe (alloc_b_session_id al) \<and>
     fst (get_attempt_records 6 (ex_draw 0 0) st') = Inr (rs @ [\<lparr>rec_b_session_id = alloc_b_session_id al, rec_a_session_id = py_strip (ex_draw 0 0),
       rec_seq = alloc_seq al, rec_backend_type = Some ''openai'', rec_effective_model = Some ''gpt'', rec_reason = None\<rparr>])"
  using ex_allocates allocation_recorded [OF ex_store_inv] by blast

end
