(* ===== verification/Model_Replacement.thy ===== *)
theory Model_Replacement
  imports Py_Prelude Keyed_Machine
begin

text \<open>
  Random model replacement: the state of one session (\<^verbatim>\<open>src/core/domain/replacement_state.py\<close>), rules and configuration
  (\<^verbatim>\<open>src/core/domain/configuration/replacement_rule.py\<close> and \<^verbatim>\<open>replacement_config.py\<close>), the metrics without their
  per-session TTL caches (\<^verbatim>\<open>src/core/services/replacement_metrics.py\<close>), the service
  (\<^verbatim>\<open>src/core/services/model_replacement_service.py\<close>) and the part of the request processor that applies it. The
  ordered dictionary of session states is a list with the least recently used entry first. The random number, the
  registered backends (\<open>None\<close>: asking for them raises), the time and the order in which the set of disabled sessions is
  iterated are arguments.
\<close>

section \<open>Session state\<close>

record ReplacementState =
  active :: bool
  turns_remaining :: int
  cool_down_active :: bool
  first_turn_complete :: bool
  original_backend :: string
  original_model :: string
  replacement_backend :: string
  replacement_model :: string

definition fresh_replacement_state :: ReplacementState where
  "fresh_replacement_state = \<lparr>active = False, turns_remaining = 0, cool_down_active = False, first_turn_complete = False,
     original_backend = [], original_model = [], replacement_backend = [], replacement_model = []\<rparr>"

definition activate :: "int \<Rightarrow> string \<Rightarrow> string \<Rightarrow> string \<Rightarrow> string \<Rightarrow> ReplacementState \<Rightarrow> ReplacementState" where
  "activate n ob om rb rm s = s\<lparr>active := True, turns_remaining := n, cool_down_active := False,
     original_backend := ob, original_model := om, replacement_backend := rb, replacement_model := rm\<rparr>"

definition deactivate :: "bool \<Rightarrow> ReplacementState \<Rightarrow> ReplacementState" where
  "deactivate trigger_cool_down s =
     (let s' = s\<lparr>active := False, turns_remaining := 0\<rparr> in
      if trigger_cool_down then s'\<lparr>cool_down_active := True\<rparr> else s')"

definition decrement_turn :: "ReplacementState \<Rightarrow> ReplacementState" where
  "decrement_turn s =
     (if active s \<and> turns_remaining s > 0 then
        (let s' = s\<lparr>turns_remaining := turns_remaining s - 1\<rparr> in
         if turns_remaining s' = 0 then deactivate True s' else s')
      else s)"

definition consume_cool_down :: "ReplacementState \<Rightarrow> bool \<times> ReplacementState" where
  "consume_cool_down s = (if cool_down_active s then (True, s\<lparr>cool_down_active := False\<rparr>) else (False, s))"

definition mark_first_turn_complete :: "ReplacementState \<Rightarrow> ReplacementState" where
  "mark_first_turn_complete s = s\<lparr>first_turn_complete := True\<rparr>"

definition to_dict :: "ReplacementState \<Rightarrow> (string \<times> json) list" where
  "to_dict s = [(''active'', JBool (active s)), (''turns_remaining'', JInt (turns_remaining s)),
     (''cool_down_active'', JBool (cool_down_active s)), (''first_turn_complete'', JBool (first_turn_complete s)),
     (''original_backend'', JStr (original_backend s)), (''original_model'', JStr (original_model s)),
     (''replacement_backend'', JStr (replacement_backend s)), (''replacement_model'', JStr (replacement_model s))]"

text \<open>\<^verbatim>\<open>data.get(key, default)\<close> takes a value as it is; \<open>None\<close> stands for a value of another type than the field's.\<close>

definition dict_get_or :: "string \<Rightarrow> json \<Rightarrow> (string \<times> json) list \<Rightarrow> json" where
  "dict_get_or k d data = (case map_of data k of None \<Rightarrow> d | Some v \<Rightarrow> v)"

definition from_dict :: "(string \<times> json) list \<Rightarrow> ReplacementState option" where
  "from_dict data =
     (case (dict_get_or ''active'' (JBool False) data, dict_get_or ''turns_remaining'' (JInt 0) data,
            dict_get_or ''cool_down_active'' (JBool False) data, dict_get_or ''first_turn_complete'' (JBool False) data) of
        (JBool a, JInt n, JBool c, JBool f) \<Rightarrow>
          (case (dict_get_or ''original_backend'' (JStr []) data, dict_get_or ''original_model'' (JStr []) data,
                 dict_get_or ''replacement_backend'' (JStr []) data, dict_get_or ''replacement_model'' (JStr []) data) of
             (JStr ob, JStr om, JStr rb, JStr rm) \<Rightarrow>
               Some \<lparr>active = a, turns_remaining = n, cool_down_active = c, first_turn_complete = f,
                     original_backend = ob, original_model = om, replacement_backend = rb, replacement_model = rm\<rparr>
           | _ \<Rightarrow> None)
      | _ \<Rightarrow> None)"

section \<open>Rules and configuration\<close>

datatype replacement_error = Replacement_ValueError string | Replacement_KeyError string

record ReplacementRule =
  from_pattern :: string
  to_backend :: string
  to_model :: string

definition rule_matches :: "ReplacementRule \<Rightarrow> string \<Rightarrow> string \<Rightarrow> bool" where
  "rule_matches r backend model =
     (if from_pattern r = ''*'' then True
      else if CHR '':'' \<in> set (from_pattern r) then backend @ '':'' @ model = from_pattern r
      else py_contains (from_pattern r) model)"

record ReplacementConfig =
  rep_enabled :: bool
  probability :: real
  replacement_rules :: "ReplacementRule list"
  backend_model :: string
  turn_count :: int
  allow_oauth_auto_replacement :: bool

definition migrate_legacy_config :: "ReplacementConfig \<Rightarrow> ReplacementConfig" where
  "migrate_legacy_config cfg =
     (if backend_model cfg \<noteq> [] \<and> replacement_rules cfg = [] then
        (if CHR '':'' \<notin> set (backend_model cfg) then cfg
         else cfg\<lparr>replacement_rules := [\<lparr>from_pattern = ''*'', to_backend = py_before (CHR '':'') (backend_model cfg),
                to_model = py_after (CHR '':'') (backend_model cfg)\<rparr>]\<rparr>)
      else cfg)"

text \<open>The check of one rule; the target always holds a colon, so that check of the code never fails.\<close>

definition rule_target_ok :: "ReplacementRule \<Rightarrow> bool" where
  "rule_target_ok r \<longleftrightarrow> to_backend r \<noteq> [] \<and> to_model r \<noteq> [] \<and> to_backend r \<noteq> ''*'' \<and> to_model r \<noteq> ''*''"

definition validate_config :: "ReplacementConfig \<Rightarrow> replacement_error + unit" where
  "validate_config cfg =
     (if \<not> rep_enabled cfg then Inr ()
      else if \<not> (0 \<le> probability cfg \<and> probability cfg \<le> 1) then Inl (Replacement_ValueError ''replacement_probability'')
      else if replacement_rules cfg = [] then Inl (Replacement_ValueError ''replacement_rules must be provided when enabled'')
      else if turn_count cfg < 1 then Inl (Replacement_ValueError ''replacement_turn_count must be at least 1'')
      else if list_ex (\<lambda>r. from_pattern r = ''*'') (replacement_rules cfg) \<and> length (replacement_rules cfg) > 1
        then Inl (Replacement_ValueError ''Wildcard rule cannot be combined with other rules'')
      else if list_all rule_target_ok (replacement_rules cfg) then Inr ()
      else Inl (Replacement_ValueError ''invalid replacement target''))"

definition find_matching_rule :: "ReplacementConfig \<Rightarrow> string \<Rightarrow> string \<Rightarrow> ReplacementRule option" where
  "find_matching_rule cfg backend model = find (\<lambda>r. rule_matches r backend model) (replacement_rules cfg)"

section \<open>Metrics\<close>

definition MAX_ACTIVATION_TIMESTAMPS :: nat where "MAX_ACTIVATION_TIMESTAMPS = 10000"
definition MAX_OPT_OUT_TIMESTAMPS :: nat where "MAX_OPT_OUT_TIMESTAMPS = 1000"

record ReplacementMetrics =
  total_activations :: int
  activation_timestamps :: "real list"
  total_turns_completed :: int
  total_opt_outs :: int
  opt_out_timestamps :: "real list"
  header_opt_outs :: int
  session_opt_outs :: int
  total_probability_checks :: int
  turn_count_histogram :: "(int \<times> int) list"
  start_time :: real

definition reset_metrics :: "real \<Rightarrow> ReplacementMetrics" where
  "reset_metrics now = \<lparr>total_activations = 0, activation_timestamps = [], total_turns_completed = 0, total_opt_outs = 0,
     opt_out_timestamps = [], header_opt_outs = 0, session_opt_outs = 0, total_probability_checks = 0,
     turn_count_histogram = [], start_time = now\<rparr>"

text \<open>Appending a timestamp and cutting the list to its last entries.\<close>

definition push_timestamp :: "nat \<Rightarrow> real \<Rightarrow> real list \<Rightarrow> real list" where
  "push_timestamp limit now ts =
     (let ts' = ts @ [now] in if length ts' > limit then drop (length ts' - limit) ts' else ts')"

definition record_activation :: "real \<Rightarrow> int \<Rightarrow> ReplacementMetrics \<Rightarrow> ReplacementMetrics" where
  "record_activation now n m = m\<lparr>total_activations := total_activations m + 1,
     activation_timestamps := push_timestamp MAX_ACTIVATION_TIMESTAMPS now (activation_timestamps m),
     turn_count_histogram := AList.update n ((case map_of (turn_count_histogram m) n of None \<Rightarrow> 0 | Some c \<Rightarrow> c) + 1) (turn_count_histogram m)\<rparr>"

definition record_turn_completion :: "ReplacementMetrics \<Rightarrow> ReplacementMetrics" where
  "record_turn_completion m = m\<lparr>total_turns_completed := total_turns_completed m + 1\<rparr>"

definition record_opt_out :: "real \<Rightarrow> string \<Rightarrow> ReplacementMetrics \<Rightarrow> ReplacementMetrics" where
  "record_opt_out now kind m =
     (let m' = m\<lparr>total_opt_outs := total_opt_outs m + 1,
            opt_out_timestamps := push_timestamp MAX_OPT_OUT_TIMESTAMPS now (opt_out_timestamps m)\<rparr> in
      if kind = ''header'' then m'\<lparr>header_opt_outs := header_opt_outs m' + 1\<rparr>
      else if kind = ''session'' then m'\<lparr>session_opt_outs := session_opt_outs m' + 1\<rparr> else m')"

definition record_probability_check :: "ReplacementMetrics \<Rightarrow> ReplacementMetrics" where
  "record_probability_check m = m\<lparr>total_probability_checks := total_probability_checks m + 1\<rparr>"

text \<open>The rates: a count per second since the start or within a window.\<close>

definition rate_of :: "real \<Rightarrow> real \<Rightarrow> int \<Rightarrow> real list \<Rightarrow> real option \<Rightarrow> real" where
  "rate_of now start n ts window =
     (case window of
        None \<Rightarrow> of_int n / max (now - start) (1 / 1000000000)
      | Some w \<Rightarrow>
          (let recent = length (filter (\<lambda>t. t \<ge> now - w) ts) in if w = 0 then 0 else of_nat recent / w))"

definition get_activation_rate :: "real \<Rightarrow> real option \<Rightarrow> ReplacementMetrics \<Rightarrow> real" where
  "get_activation_rate now window m = rate_of now (start_time m) (total_activations m) (activation_timestamps m) window"

definition get_opt_out_rate :: "real \<Rightarrow> real option \<Rightarrow> ReplacementMetrics \<Rightarrow> real" where
  "get_opt_out_rate now window m = rate_of now (start_time m) (total_opt_outs m) (opt_out_timestamps m) window"

definition get_average_turn_count :: "ReplacementMetrics \<Rightarrow> real" where
  "get_average_turn_count m =
     (let total_counts = sum_list (map snd (turn_count_histogram m)) in
      if total_counts = 0 then 0
      else of_int (sum_list (map (\<lambda>(c, f). c * f) (turn_count_histogram m))) / of_int total_counts)"

text \<open>The loop of \<^verbatim>\<open>prune_history\<close>: the timestamps from the first recent one on.\<close>

definition prune_timestamps :: "real \<Rightarrow> real list \<Rightarrow> real list" where
  "prune_timestamps cutoff ts =
     (case ts of [] \<Rightarrow> [] | t # _ \<Rightarrow> if t < cutoff then dropWhile (\<lambda>t. t < cutoff) ts else ts)"

definition prune_history :: "real \<Rightarrow> real \<Rightarrow> ReplacementMetrics \<Rightarrow> ReplacementMetrics" where
  "prune_history now max_age m = m\<lparr>activation_timestamps := prune_timestamps (now - max_age) (activation_timestamps m),
     opt_out_timestamps := prune_timestamps (now - max_age) (opt_out_timestamps m)\<rparr>"

section \<open>The service\<close>

definition MAX_SESSION_STATES :: nat where "MAX_SESSION_STATES = 10000"
definition MAX_DISABLED_SESSIONS :: nat where "MAX_DISABLED_SESSIONS = 1000"

record replacement_service =
  session_states :: "(string \<times> ReplacementState) list"
  disabled_sessions :: "string list"
  metrics :: ReplacementMetrics

definition empty_service :: "real \<Rightarrow> replacement_service" where
  "empty_service now = \<lparr>session_states = [], disabled_sessions = [], metrics = reset_metrics now\<rparr>"

text \<open>The constructor: the configuration must be valid and every target backend registered.\<close>

definition mk_service :: "ReplacementConfig \<Rightarrow> string list option \<Rightarrow> real \<Rightarrow> replacement_error + replacement_service" where
  "mk_service cfg registered now =
     bind_res (validate_config cfg) (\<lambda>_.
       if \<not> rep_enabled cfg then Inr (empty_service now)
       else (case registered of
               None \<Rightarrow> Inl (Replacement_ValueError ''Failed to validate replacement rules'')
             | Some bs \<Rightarrow>
                 if list_all (\<lambda>r. to_backend r \<in> set bs) (replacement_rules cfg) then Inr (empty_service now)
                 else Inl (Replacement_ValueError ''Target backend is not registered'')))"

fun evict_loop ::
  "nat \<Rightarrow> (string \<times> ReplacementState) list \<Rightarrow> string list \<Rightarrow> (string \<times> ReplacementState) list \<times> string list" where
  "evict_loop 0 xs dis = (xs, dis)"
| "evict_loop (Suc n) xs dis =
     (if length xs \<le> MAX_SESSION_STATES then (xs, dis)
      else (case xs of
              [] \<Rightarrow> (xs, dis)
            | (k, s) # ys \<Rightarrow>
                if active s then evict_loop n (ys @ [(k, s)]) dis else evict_loop n ys (removeAll k dis)))"

definition evict_oldest_sessions_if_needed :: "replacement_service \<Rightarrow> replacement_service" where
  "evict_oldest_sessions_if_needed svc =
     (let (xs, dis) = evict_loop (length (session_states svc)) (session_states svc) (disabled_sessions svc) in
      svc\<lparr>session_states := xs, disabled_sessions := dis\<rparr>)"

text \<open>Inserting a fresh state at the most recently used position and evicting.\<close>

definition insert_fresh :: "string \<Rightarrow> replacement_service \<Rightarrow> replacement_service" where
  "insert_fresh sid svc =
     evict_oldest_sessions_if_needed (svc\<lparr>session_states := session_states svc @ [(sid, fresh_replacement_state)]\<rparr>)"

text \<open>Changing the state of a session in place, and \<^verbatim>\<open>OrderedDict.move_to_end\<close> for a session whose state is \<open>s\<close>.\<close>

definition put_state :: "string \<Rightarrow> ReplacementState \<Rightarrow> replacement_service \<Rightarrow> replacement_service" where
  "put_state k s svc = svc\<lparr>session_states := AList.update k s (session_states svc)\<rparr>"

definition move_to_end :: "string \<Rightarrow> ReplacementState \<Rightarrow> replacement_service \<Rightarrow> replacement_service" where
  "move_to_end k s svc = svc\<lparr>session_states := AList.delete k (session_states svc) @ [(k, s)]\<rparr>"

text \<open>The probability check at the bottom of \<^verbatim>\<open>should_replace\<close>; \<open>rand\<close> is what the random generator returns.\<close>

definition roll_dice ::
  "ReplacementConfig \<Rightarrow> real \<Rightarrow> string option \<Rightarrow> string option \<Rightarrow> replacement_service \<Rightarrow> bool \<times> replacement_service" where
  "roll_dice cfg rand backend model svc =
     (let blocked = (case (backend, model) of
            (Some b, Some m) \<Rightarrow>
              (if b \<noteq> [] \<and> m \<noteq> [] then
                 (case find_matching_rule cfg b m of
                    None \<Rightarrow> True
                  | Some r \<Rightarrow> to_backend r = b \<and> to_model r = m)
               else False)
          | _ \<Rightarrow> False) in
      if blocked then (False, svc)
      else (rand < probability cfg, svc\<lparr>metrics := record_probability_check (metrics svc)\<rparr>))"

text \<open>The decision of \<^verbatim>\<open>should_replace\<close> on the state of the session: first turn, cool-down, active, dice.\<close>

definition decide_replacement ::
  "ReplacementConfig \<Rightarrow> real \<Rightarrow> string \<Rightarrow> string option \<Rightarrow> string option \<Rightarrow> ReplacementState \<Rightarrow> replacement_service \<Rightarrow>
   bool \<times> replacement_service" where
  "decide_replacement cfg rand sid backend model s svc =
     (if \<not> first_turn_complete s then (False, put_state sid (mark_first_turn_complete s) svc)
      else (case consume_cool_down s of
              (True, s') \<Rightarrow> (False, put_state sid s' svc)
            | (False, _) \<Rightarrow> if active s then (True, svc) else roll_dice cfg rand backend model svc))"

text \<open>The opt-outs in the order of the guards: the session's, the header's and the backend's.\<close>

definition opt_out_kind ::
  "ReplacementConfig \<Rightarrow> string \<Rightarrow> string option \<Rightarrow> string option \<Rightarrow> replacement_service \<Rightarrow> string option" where
  "opt_out_kind cfg sid header backend svc =
     (if sid \<in> set (disabled_sessions svc) then Some ''session''
      else if (case header of Some h \<Rightarrow> py_lower h = ''true'' | None \<Rightarrow> False) then Some ''header''
      else if \<not> allow_oauth_auto_replacement cfg \<and> (case backend of Some b \<Rightarrow> py_contains ''oauth-auto'' b | None \<Rightarrow> False)
        then Some ''backend''
      else None)"

text \<open>
  The call of \<^verbatim>\<open>move_to_end\<close> after the insertion raises a \<^verbatim>\<open>KeyError\<close> when the eviction has dropped the session.
\<close>

definition should_replace ::
  "ReplacementConfig \<Rightarrow> real \<Rightarrow> real \<Rightarrow> string \<Rightarrow> string option \<Rightarrow> string option \<Rightarrow> string option \<Rightarrow> replacement_service \<Rightarrow>
   (replacement_error + bool) \<times> replacement_service" where
  "should_replace cfg rand now sid header backend model svc =
     (if \<not> rep_enabled cfg then (Inr False, svc)
      else (case opt_out_kind cfg sid header backend svc of
              Some kind \<Rightarrow> (Inr False, svc\<lparr>metrics := record_opt_out now kind (metrics svc)\<rparr>)
            | None \<Rightarrow>
                (let svc1 = (if map_of (session_states svc) sid = None then insert_fresh sid svc else svc) in
                 case map_of (session_states svc1) sid of
                   None \<Rightarrow> (Inl (Replacement_KeyError sid), svc1)
                 | Some s \<Rightarrow> apfst Inr (decide_replacement cfg rand sid backend model s (move_to_end sid s svc1)))))"

definition get_effective_backend_model ::
  "string list option \<Rightarrow> string \<Rightarrow> string \<Rightarrow> string \<Rightarrow> replacement_service \<Rightarrow> (string \<times> string) \<times> replacement_service" where
  "get_effective_backend_model registered sid backend model svc =
     (case map_of (session_states svc) sid of
        None \<Rightarrow> ((backend, model), svc)
      | Some s \<Rightarrow>
          (if \<not> active s then ((backend, model), svc)
           else
             (let svc1 = move_to_end sid s svc in
              if (case registered of None \<Rightarrow> True | Some bs \<Rightarrow> replacement_backend s \<notin> set bs)
              then ((backend, model), put_state sid (deactivate False s) svc1)
              else ((replacement_backend s, replacement_model s), svc1))))"

text \<open>
  The state object that the dictionary holds is changed by \<^verbatim>\<open>state.activate\<close>; when the eviction has dropped a state that
  was just inserted, the change is lost.
\<close>

definition activate_replacement ::
  "ReplacementConfig \<Rightarrow> real \<Rightarrow> string \<Rightarrow> string \<Rightarrow> string \<Rightarrow> replacement_service \<Rightarrow> replacement_service" where
  "activate_replacement cfg now sid backend model svc =
     (case find_matching_rule cfg backend model of
        None \<Rightarrow> svc
      | Some r \<Rightarrow>
          (if to_backend r = backend \<and> to_model r = model then svc
           else
             (let svc1 = (case map_of (session_states svc) sid of
                     None \<Rightarrow> insert_fresh sid svc
                   | Some s \<Rightarrow> move_to_end sid s svc);
                  svc2 = (case map_of (session_states svc1) sid of
                     None \<Rightarrow> svc1
                   | Some s \<Rightarrow> put_state sid (activate (turn_count cfg) backend model (to_backend r) (to_model r) s) svc1) in
              svc2\<lparr>metrics := record_activation now (turn_count cfg) (metrics svc2)\<rparr>)))"

definition complete_turn :: "string \<Rightarrow> replacement_service \<Rightarrow> replacement_service" where
  "complete_turn sid svc =
     (case map_of (session_states svc) sid of
        None \<Rightarrow> svc
      | Some s \<Rightarrow>
          (if \<not> active s then svc
           else put_state sid (decrement_turn s)
                  ((move_to_end sid s svc)\<lparr>metrics := record_turn_completion (metrics svc)\<rparr>)))"

definition validate_state :: "ReplacementState \<Rightarrow> bool" where
  "validate_state s =
     ((if active s then turns_remaining s > 0 \<and> original_backend s \<noteq> [] \<and> original_model s \<noteq> [] \<and>
         replacement_backend s \<noteq> [] \<and> replacement_model s \<noteq> []
       else turns_remaining s = 0) \<and> turns_remaining s \<ge> 0)"

definition get_state :: "string \<Rightarrow> replacement_service \<Rightarrow> ReplacementState \<times> replacement_service" where
  "get_state sid svc =
     (case map_of (session_states svc) sid of
        None \<Rightarrow> (fresh_replacement_state, insert_fresh sid svc)
      | Some s \<Rightarrow>
          (if validate_state s then (s, move_to_end sid s svc)
           else (fresh_replacement_state, move_to_end sid fresh_replacement_state svc)))"

text \<open>\<open>iter\<close> lists the set of disabled sessions in the order in which Python iterates over it.\<close>

definition disable_for_session :: "(string list \<Rightarrow> string list) \<Rightarrow> string \<Rightarrow> replacement_service \<Rightarrow> replacement_service" where
  "disable_for_session iter sid svc =
     (let dis = List.insert sid (disabled_sessions svc);
          dis' = (if length dis > MAX_DISABLED_SESSIONS
                  then (let excess = length dis - MAX_DISABLED_SESSIONS;
                            to_remove = take excess (filter (\<lambda>x. map_of (session_states svc) x = None) (iter dis)) in
                        filter (\<lambda>x. x \<notin> set to_remove) dis)
                  else dis);
          svc1 = svc\<lparr>disabled_sessions := dis'\<rparr> in
      case map_of (session_states svc1) sid of
        Some s \<Rightarrow> if active s then put_state sid (deactivate False s) svc1 else svc1
      | None \<Rightarrow> svc1)"

text \<open>\<open>prune\<close> is the outcome of the one-in-a-hundred draw.\<close>

definition cleanup_session :: "bool \<Rightarrow> real \<Rightarrow> string \<Rightarrow> replacement_service \<Rightarrow> replacement_service" where
  "cleanup_session prune now sid svc =
     (let svc1 = svc\<lparr>session_states := AList.delete sid (session_states svc), disabled_sessions := removeAll sid (disabled_sessions svc)\<rparr> in
      if prune then svc1\<lparr>metrics := prune_history now 3600 (metrics svc1)\<rparr> else svc1)"

section \<open>The caller\<close>

text \<open>
  The part of the request processor that applies replacement to a request with a backend and a model, when the quality
  verifier does not suppress it: the answer is the pair to use, if replacement is applied.
\<close>

definition apply_replacement ::
  "ReplacementConfig \<Rightarrow> string list option \<Rightarrow> real \<Rightarrow> real \<Rightarrow> string \<Rightarrow> string option \<Rightarrow> string \<Rightarrow> string \<Rightarrow> replacement_service \<Rightarrow>
   (replacement_error + (string \<times> string) option) \<times> replacement_service" where
  "apply_replacement cfg registered rand now sid header backend model svc =
     (let (state, svc1) = get_state sid svc;
          (r, svc2) = should_replace cfg rand now sid header (Some backend) (Some model) svc1 in
      case r of
        Inl e \<Rightarrow> (Inl e, svc2)
      | Inr replace \<Rightarrow>
          (let state' = (case map_of (session_states svc2) sid of Some s \<Rightarrow> s | None \<Rightarrow> state) in
           if replace \<or> active state' then
             (let svc3 = (if replace \<and> \<not> active state' then activate_replacement cfg now sid backend model svc2 else svc2);
                  (e, svc4) = get_effective_backend_model registered sid backend model svc3 in
              (Inr (Some e), svc4))
           else (Inr None, svc2)))"

end
