(* ===== verification/Replacement_Theorems.thy ===== *)
theory Replacement_Theorems
  imports Model_Replacement "HOL-Library.Multiset"
begin

text \<open>
  What the model replacement service promises: the states it keeps are well formed and its metrics bounded, the eviction
  removes the least recently used inactive sessions and no active one, and a replacement lasts for exactly the
  configured number of turns, whatever other sessions do meanwhile.
\<close>

section \<open>Eviction\<close>

abbreviation idle :: "string \<times> ReplacementState \<Rightarrow> bool" where
  "idle p \<equiv> \<not> active (snd p)"

lemma evict_active:
  "list_all (\<lambda>p. active (snd p)) zs \<Longrightarrow> \<exists>zs'. evict_loop n zs dis = (zs', dis) \<and> mset zs' = mset zs"
proof (induction n arbitrary: zs)
  case (Suc n)
  show ?case
  proof (cases zs)
    case (Cons p ps)
    with Suc.IH [of "ps @ [p]"] Suc.prems show ?thesis by (cases p) auto
  qed simp
qed simp

text \<open>The loop drops the first idle entries, as many as there are too many, and with them their opt-outs.\<close>

lemma evict_loop_spec:
  assumes "list_all (\<lambda>p. active (snd p)) zs" and "length ys \<le> n"
  shows "\<exists>xs'. evict_loop n (ys @ zs) dis =
      (xs', filter (\<lambda>k. k \<notin> fst ` set (take (length (ys @ zs) - MAX_SESSION_STATES) (filter idle ys))) dis) \<and>
    filter idle xs' = drop (length (ys @ zs) - MAX_SESSION_STATES) (filter idle ys) \<and>
    mset (filter (\<lambda>p. active (snd p)) xs') = mset (filter (\<lambda>p. active (snd p)) (ys @ zs))"
  using assms
proof (induction ys arbitrary: n zs dis)
  case Nil
  obtain zs' where z: "evict_loop n zs dis = (zs', dis)" "mset zs' = mset zs"
    using evict_active [OF Nil.prems(1)] by blast
  then have "set zs' = set zs" by (metis set_mset_mset)
  then have "filter idle zs' = []" "filter (\<lambda>p. active (snd p)) zs' = zs'" "filter (\<lambda>p. active (snd p)) zs = zs"
    using Nil.prems(1) by (auto simp: filter_empty_conv filter_id_conv list_all_iff)
  with z show ?case by (simp add: filter_id_conv flip: mset_filter)
next
  case (Cons p ys)
  obtain k s where p: "p = (k, s)" by force
  obtain m where m: "n = Suc m" using Cons.prems(2) by (cases n) auto
  show ?case
  proof (cases "length ((p # ys) @ zs) \<le> MAX_SESSION_STATES")
    case True
    have "filter idle zs = []" using Cons.prems(1) by (auto simp: filter_empty_conv list_all_iff)
    with True show ?thesis by (simp add: m p)
  next
    case over: False
    show ?thesis
    proof (cases "active s")
      case True
      have "list_all (\<lambda>p. active (snd p)) (zs @ [p])" "length ys \<le> m"
        using Cons.prems True by (auto simp: p m)
      from Cons.IH [OF this, of dis] show ?thesis
        using over True by (auto simp: m p)
    next
      case False
      have "length ys \<le> m" using Cons.prems by (simp add: m)
      from Cons.IH [OF Cons.prems(1) this, of "removeAll k dis"] obtain xs' where
        x: "evict_loop m (ys @ zs) (removeAll k dis) =
          (xs', filter (\<lambda>k. k \<notin> fst ` set (take (length (ys @ zs) - MAX_SESSION_STATES) (filter idle ys))) (removeAll k dis))"
          "filter idle xs' = drop (length (ys @ zs) - MAX_SESSION_STATES) (filter idle ys)"
          "mset (filter (\<lambda>p. active (snd p)) xs') = mset (filter (\<lambda>p. active (snd p)) (ys @ zs))"
        by blast
      let ?o = "length ((p # ys) @ zs) - MAX_SESSION_STATES"
      have o: "?o = Suc (length (ys @ zs) - MAX_SESSION_STATES)" using over by simp
      then have e: "Suc (length (ys @ zs)) - MAX_SESSION_STATES = Suc (length (ys @ zs) - MAX_SESSION_STATES)" by simp
      have "filter (\<lambda>k. k \<notin> fst ` set (take (length (ys @ zs) - MAX_SESSION_STATES) (filter idle ys))) (removeAll k dis) =
          filter (\<lambda>k. k \<notin> fst ` set (take ?o (filter idle (p # ys)))) dis"
        unfolding o using False by (simp add: p removeAll_filter_not_eq) (rule filter_cong; auto)
      then show ?thesis
        using over False x by (simp add: m p e del: length_append)
    qed
  qed
qed

lemma evict_spec:
  fixes svc
  defines "xs \<equiv> session_states svc" and "svc' \<equiv> evict_oldest_sessions_if_needed svc"
  shows "filter idle (session_states svc') = drop (length xs - MAX_SESSION_STATES) (filter idle xs)"
    and "mset (filter (\<lambda>p. active (snd p)) (session_states svc')) = mset (filter (\<lambda>p. active (snd p)) xs)"
    and "disabled_sessions svc' = filter (\<lambda>k. k \<notin> fst ` set (take (length xs - MAX_SESSION_STATES) (filter idle xs))) (disabled_sessions svc)"
    and "metrics svc' = metrics svc"
  using evict_loop_spec [of "[]" xs "length xs" "disabled_sessions svc"]
  by (auto simp: evict_oldest_sessions_if_needed_def xs_def svc'_def)

lemma mset_idle_active: "mset xs = mset (filter idle xs) + mset (filter (\<lambda>p. active (snd p)) xs)"
  unfolding mset_filter by (subst add.commute) (rule multiset_partition)

lemma evict_subset: "mset (session_states (evict_oldest_sessions_if_needed svc)) \<subseteq># mset (session_states svc)"
proof -
  have "mset (drop n (filter idle (session_states svc))) \<subseteq># mset (filter idle (session_states svc))" for n
    by (metis append_take_drop_id mset_append mset_subset_eq_add_right)
  then show ?thesis
    unfolding mset_idle_active [of "session_states (evict_oldest_sessions_if_needed svc)"] mset_idle_active [of "session_states svc"]
    by (simp only: evict_spec subset_mset.add_right_mono)
qed

lemma evict_length:
  "length (session_states (evict_oldest_sessions_if_needed svc)) \<le> MAX_SESSION_STATES \<or>
   list_all (\<lambda>p. active (snd p)) (session_states (evict_oldest_sessions_if_needed svc))"
proof -
  let ?xs = "session_states svc" and ?ys = "session_states (evict_oldest_sessions_if_needed svc)"
  have len: "length xs = length (filter idle xs) + length (filter (\<lambda>p. active (snd p)) xs)" for xs :: "(string \<times> ReplacementState) list"
    using sum_length_filter_compl [of "\<lambda>p. active (snd p)" xs] by simp
  have a: "length (filter (\<lambda>p. active (snd p)) ?ys) = length (filter (\<lambda>p. active (snd p)) ?xs)"
    using evict_spec(2) [of svc] by (metis size_mset)
  have d: "length (filter idle ?ys) = length (filter idle ?xs) - (length ?xs - MAX_SESSION_STATES)"
    using evict_spec(1) [of svc] by simp
  show ?thesis
  proof (cases "filter idle ?ys = []")
    case True
    then show ?thesis by (simp add: filter_empty_conv list_all_iff)
  next
    case False
    then have "0 < length (filter idle ?ys)" by blast
    with d len [of ?xs] len [of ?ys] a show ?thesis by linarith
  qed
qed

section \<open>Well-formed services\<close>

datatype rep_call =
    CallShouldReplace real string "string option" "string option" "string option"
  | CallGetEffective "string list option" string string string
  | CallActivate string string string
  | CallCompleteTurn string
  | CallGetState string
  | CallDisable "string list \<Rightarrow> string list" string
  | CallCleanup bool string

fun rep_step :: "ReplacementConfig \<Rightarrow> real \<Rightarrow> rep_call \<Rightarrow> replacement_service \<Rightarrow> replacement_service" where
  "rep_step cfg now (CallShouldReplace rand sid h b m) svc = snd (should_replace cfg rand now sid h b m svc)"
| "rep_step cfg now (CallGetEffective bs sid b m) svc = snd (get_effective_backend_model bs sid b m svc)"
| "rep_step cfg now (CallActivate sid b m) svc = activate_replacement cfg now sid b m svc"
| "rep_step cfg now (CallCompleteTurn sid) svc = complete_turn sid svc"
| "rep_step cfg now (CallGetState sid) svc = snd (get_state sid svc)"
| "rep_step cfg now (CallDisable iter sid) svc = disable_for_session iter sid svc"
| "rep_step cfg now (CallCleanup prune sid) svc = cleanup_session prune now sid svc"

text \<open>The caller activates replacement for a backend and a model, which are not empty.\<close>

fun call_wf :: "rep_call \<Rightarrow> bool" where
  "call_wf (CallActivate sid b m) = (b \<noteq> [] \<and> m \<noteq> [])"
| "call_wf _ = True"

definition state_ok :: "ReplacementState \<Rightarrow> bool" where
  "state_ok s \<longleftrightarrow> validate_state s \<and> (active s \<longrightarrow> \<not> cool_down_active s)"

definition states_ok :: "(string \<times> ReplacementState) list \<Rightarrow> bool" where
  "states_ok xs \<longleftrightarrow> distinct (map fst xs) \<and> (\<forall>p \<in> set xs. state_ok (snd p))"

definition metrics_ok :: "ReplacementMetrics \<Rightarrow> bool" where
  "metrics_ok m \<longleftrightarrow> length (activation_timestamps m) \<le> MAX_ACTIVATION_TIMESTAMPS \<and>
     length (opt_out_timestamps m) \<le> MAX_OPT_OUT_TIMESTAMPS \<and> 0 \<le> header_opt_outs m \<and> 0 \<le> session_opt_outs m \<and>
     header_opt_outs m + session_opt_outs m \<le> total_opt_outs m \<and> distinct (map fst (turn_count_histogram m)) \<and>
     sum_list (map snd (turn_count_histogram m)) = total_activations m"

definition service_ok :: "replacement_service \<Rightarrow> bool" where
  "service_ok svc \<longleftrightarrow> states_ok (session_states svc) \<and> metrics_ok (metrics svc)"

lemma states_okD: "states_ok xs \<Longrightarrow> map_of xs k = Some s \<Longrightarrow> state_ok s"
  by (fastforce simp: states_ok_def dest: map_of_SomeD)

lemma states_ok_delete: "states_ok xs \<Longrightarrow> states_ok (AList.delete k xs)"
  by (auto simp: states_ok_def AList.delete_eq distinct_map_filter)

lemma states_ok_snoc: "states_ok xs \<Longrightarrow> k \<notin> fst ` set xs \<Longrightarrow> state_ok s \<Longrightarrow> states_ok (xs @ [(k, s)])"
  by (auto simp: states_ok_def)

lemma states_ok_move: "states_ok xs \<Longrightarrow> state_ok s \<Longrightarrow> states_ok (AList.delete k xs @ [(k, s)])"
  by (intro states_ok_snoc states_ok_delete) (auto simp: AList.delete_eq)

lemma states_ok_put: "states_ok xs \<Longrightarrow> state_ok s \<Longrightarrow> states_ok (AList.update k s xs)"
  unfolding states_ok_def by (auto simp: distinct_update dest!: set_AList_update)

lemma distinct_count_le: "distinct xs \<longleftrightarrow> (\<forall>a. count (mset xs) a \<le> 1)"
proof
  assume "\<forall>a. count (mset xs) a \<le> 1"
  then have "count (mset xs) a = (if a \<in> set xs then 1 else 0)" for a
    by (metis count_eq_zero_iff le_less less_one set_mset_mset)
  then show "distinct xs" by (simp add: distinct_count_atmost_1)
qed (simp add: distinct_count_atmost_1)

lemma states_ok_mset:
  assumes "mset ys \<subseteq># mset xs" and "states_ok xs"
  shows "states_ok ys"
proof -
  have "mset (map fst ys) \<subseteq># mset (map fst xs)"
    using assms(1) by (simp add: image_mset_subseteq_mono)
  then have "distinct (map fst ys)"
    using assms(2) unfolding states_ok_def distinct_count_le by (meson mset_subset_eq_count order_trans)
  moreover have "set ys \<subseteq> set xs" using assms(1) by (metis set_mset_mono set_mset_mset)
  ultimately show ?thesis using assms(2) by (auto simp: states_ok_def)
qed

lemma state_ok_ops [simp]:
  "state_ok fresh_replacement_state"
  "state_ok s \<Longrightarrow> state_ok (mark_first_turn_complete s)"
  "state_ok s \<Longrightarrow> state_ok (snd (consume_cool_down s))"
  "state_ok s \<Longrightarrow> state_ok (deactivate b s)"
  "state_ok s \<Longrightarrow> state_ok (decrement_turn s)"
  by (auto simp: state_ok_def validate_state_def fresh_replacement_state_def mark_first_turn_complete_def consume_cool_down_def
      deactivate_def decrement_turn_def Let_def split: if_splits)

lemma insert_fresh_ok:
  assumes "service_ok svc" and "map_of (session_states svc) sid = None"
  shows "service_ok (insert_fresh sid svc)"
proof -
  have "states_ok (session_states svc @ [(sid, fresh_replacement_state)])"
    using assms by (auto simp: service_ok_def map_of_eq_None_iff intro: states_ok_snoc)
  then have "states_ok (session_states (insert_fresh sid svc))"
    unfolding insert_fresh_def using states_ok_mset [OF evict_subset] by fastforce
  with assms(1) show ?thesis by (simp add: service_ok_def insert_fresh_def evict_spec)
qed

lemma push_timestamp_length: "length ts \<le> limit \<Longrightarrow> length (push_timestamp limit now ts) \<le> limit"
  by (auto simp: push_timestamp_def Let_def)

lemma histogram_update:
  assumes "distinct (map fst h)"
  shows "sum_list (map snd (AList.update n ((case map_of h n of None \<Rightarrow> 0 | Some c \<Rightarrow> c) + 1) h)) = sum_list (map snd h) + (1 :: int)"
  using assms by (induction h) (auto split: option.splits simp: map_of_eq_None_iff dest: map_of_SomeD)

lemma metrics_ok_ops [simp]:
  "metrics_ok (reset_metrics now)"
  "metrics_ok m \<Longrightarrow> metrics_ok (record_opt_out now kind m)"
  "metrics_ok m \<Longrightarrow> metrics_ok (record_turn_completion m)"
  "metrics_ok m \<Longrightarrow> metrics_ok (record_probability_check m)"
  "metrics_ok m \<Longrightarrow> metrics_ok (record_activation now n m)"
  by (auto simp: metrics_ok_def reset_metrics_def record_opt_out_def record_turn_completion_def record_probability_check_def
      record_activation_def push_timestamp_length Let_def distinct_update histogram_update)

lemma prune_length: "length (prune_timestamps cutoff ts) \<le> length ts"
proof -
  have "prune_timestamps cutoff ts = dropWhile (\<lambda>t. t < cutoff) ts"
    by (auto simp: prune_timestamps_def split: list.splits)
  then show ?thesis by (simp add: length_dropWhile_le)
qed

lemma metrics_ok_prune [simp]: "metrics_ok m \<Longrightarrow> metrics_ok (prune_history now age m)"
  using prune_length order_trans by (fastforce simp: metrics_ok_def prune_history_def)

lemma map_of_put_state [simp]: "map_of (session_states (put_state k s svc)) = (map_of (session_states svc))(k \<mapsto> s)"
  by (simp add: put_state_def update_conv')

lemma map_of_move_to_end [simp]: "map_of (session_states (move_to_end k s svc)) = (map_of (session_states svc))(k \<mapsto> s)"
  by (simp add: move_to_end_def del: map_of_append)

lemma put_move_sel [simp]:
  "disabled_sessions (put_state k s svc) = disabled_sessions svc" "metrics (put_state k s svc) = metrics svc"
  "disabled_sessions (move_to_end k s svc) = disabled_sessions svc" "metrics (move_to_end k s svc) = metrics svc"
  by (simp_all add: put_state_def move_to_end_def)

lemma service_okD: "service_ok svc \<Longrightarrow> states_ok (session_states svc)" "service_ok svc \<Longrightarrow> metrics_ok (metrics svc)"
  by (simp_all add: service_ok_def)

lemma service_ok_put: "service_ok svc \<Longrightarrow> state_ok s \<Longrightarrow> service_ok (put_state k s svc)"
  by (simp add: service_ok_def put_state_def states_ok_put)

lemma service_ok_move: "service_ok svc \<Longrightarrow> state_ok s \<Longrightarrow> service_ok (move_to_end k s svc)"
  by (simp add: service_ok_def move_to_end_def states_ok_move)

lemma service_ok_metrics: "service_ok svc \<Longrightarrow> metrics_ok m \<Longrightarrow> service_ok (svc\<lparr>metrics := m\<rparr>)"
  by (simp add: service_ok_def)

lemma service_ok_state: "service_ok svc \<Longrightarrow> map_of (session_states svc) k = Some s \<Longrightarrow> state_ok s"
  by (blast intro: states_okD service_okD)

lemmas service_ok_intros = service_ok_put service_ok_move service_ok_metrics insert_fresh_ok

lemma roll_dice_ok: "service_ok svc \<Longrightarrow> service_ok (snd (roll_dice cfg rand b m svc))"
  by (auto simp: roll_dice_def service_ok_def Let_def)

lemma decide_ok:
  assumes "service_ok svc" "state_ok s"
  shows "service_ok (snd (decide_replacement cfg rand sid b m s svc))"
proof -
  obtain c s' where c: "consume_cool_down s = (c, s')" by force
  with state_ok_ops(3) [OF assms(2)] have "state_ok s'" by simp
  with c show ?thesis using assms
    by (cases c) (simp_all add: decide_replacement_def service_ok_put roll_dice_ok)
qed

lemma should_replace_ok:
  assumes "service_ok svc"
  shows "service_ok (snd (should_replace cfg rand now sid h b m svc))"
proof -
  have *: "service_ok svc1 \<Longrightarrow> map_of (session_states svc1) sid = Some s \<Longrightarrow>
      service_ok (snd (decide_replacement cfg rand sid b m s (move_to_end sid s svc1)))" for svc1 s
    by (blast intro: decide_ok service_ok_move service_ok_state)
  show ?thesis using assms insert_fresh_ok [OF assms, of sid] * service_okD(2) [OF assms]
    by (auto simp: should_replace_def Let_def service_ok_metrics split: option.split)
qed

lemma get_effective_ok: "service_ok svc \<Longrightarrow> service_ok (snd (get_effective_backend_model bs sid b m svc))"
  using service_ok_state [of svc sid]
  by (auto simp: get_effective_backend_model_def Let_def split: option.splits intro!: service_ok_intros)

text \<open>The configurations with which the constructor builds a service that may replace.\<close>

definition active_config :: "ReplacementConfig \<Rightarrow> bool" where
  "active_config cfg \<longleftrightarrow> validate_config cfg = Inr () \<and> rep_enabled cfg"

lemma active_configD:
  assumes "active_config cfg"
  shows "1 \<le> turn_count cfg" "find_matching_rule cfg b m = Some r \<Longrightarrow> to_backend r \<noteq> [] \<and> to_model r \<noteq> []"
  using assms by (auto simp: active_config_def validate_config_def find_matching_rule_def rule_target_ok_def list_all_iff find_Some_iff
      split: if_splits)

lemma state_ok_activate:
  assumes "1 \<le> n" "ob \<noteq> []" "om \<noteq> []" "rb \<noteq> []" "rm \<noteq> []"
  shows "state_ok (activate n ob om rb rm s)"
  using assms by (simp add: state_ok_def validate_state_def activate_def)

lemma activate_ok:
  assumes "service_ok svc" "active_config cfg" "b \<noteq> []" "m \<noteq> []"
  shows "service_ok (activate_replacement cfg now sid b m svc)"
proof (cases "find_matching_rule cfg b m")
  case (Some r)
  let ?svc1 = "case map_of (session_states svc) sid of None \<Rightarrow> insert_fresh sid svc | Some s \<Rightarrow> move_to_end sid s svc"
  have ok1: "service_ok ?svc1"
    using assms(1) service_ok_state [OF assms(1)] by (auto split: option.splits intro: service_ok_intros)
  have "state_ok (activate (turn_count cfg) b m (to_backend r) (to_model r) s)" for s
    using active_configD [OF assms(2)] Some assms(3,4) by (intro state_ok_activate) blast+
  then have "service_ok (case map_of (session_states ?svc1) sid of None \<Rightarrow> ?svc1
      | Some s \<Rightarrow> put_state sid (activate (turn_count cfg) b m (to_backend r) (to_model r) s) ?svc1)"
    by (cases "map_of (session_states ?svc1) sid") (simp_all only: option.case ok1 service_ok_put)
  with assms(1) show ?thesis
    by (simp add: activate_replacement_def Some Let_def service_ok_def)
qed (simp add: activate_replacement_def assms(1))

lemma complete_turn_ok: "service_ok svc \<Longrightarrow> service_ok (complete_turn sid svc)"
  using service_ok_state [of svc sid] service_okD(2) [of svc]
  by (auto simp: complete_turn_def split: option.splits intro!: service_ok_intros)

lemma get_state_ok:
  assumes "service_ok svc"
  shows "service_ok (snd (get_state sid svc))" "state_ok (fst (get_state sid svc))"
  using assms service_ok_state [OF assms]
  by (auto simp: get_state_def split: option.splits intro!: service_ok_intros)

lemma disable_ok:
  assumes "service_ok svc"
  shows "service_ok (disable_for_session iter sid svc)"
proof -
  have "service_ok (svc\<lparr>disabled_sessions := d\<rparr>)" for d using assms by (simp add: service_ok_def)
  then show ?thesis using service_ok_state [OF assms, of sid]
    by (auto simp: disable_for_session_def Let_def split: option.splits intro!: service_ok_put)
qed

lemma cleanup_ok: "service_ok svc \<Longrightarrow> service_ok (cleanup_session prune now sid svc)"
  by (auto simp: cleanup_session_def Let_def service_ok_def states_ok_delete)

lemma rep_step_ok:
  assumes "active_config cfg" "service_ok svc" "call_wf c"
  shows "service_ok (rep_step cfg now c svc)"
  using assms
  by (cases c) (simp_all add: should_replace_ok get_effective_ok activate_ok complete_turn_ok get_state_ok disable_ok cleanup_ok)

section \<open>Traces of calls\<close>

lemma run_ok:
  assumes "active_config cfg" "service_ok svc" "list_all (\<lambda>x. call_wf (snd x)) es"
  shows "service_ok (run_steps (rep_step cfg) es svc)"
  using assms(2,3) by (induction es arbitrary: svc) (auto simp: rep_step_ok [OF assms(1)])

lemma empty_service_ok: "service_ok (empty_service now)"
  by (simp add: empty_service_def service_ok_def states_ok_def)

fun call_session :: "rep_call \<Rightarrow> string" where
  "call_session (CallShouldReplace rand sid h b m) = sid"
| "call_session (CallGetEffective bs sid b m) = sid"
| "call_session (CallActivate sid b m) = sid"
| "call_session (CallCompleteTurn sid) = sid"
| "call_session (CallGetState sid) = sid"
| "call_session (CallDisable iter sid) = sid"
| "call_session (CallCleanup prune sid) = sid"

text \<open>An active session is not evicted, so that its state survives what other sessions do.\<close>

lemma evict_keeps_active:
  assumes "states_ok (session_states svc)" "map_of (session_states svc) k = Some s" "active s"
  shows "map_of (session_states (evict_oldest_sessions_if_needed svc)) k = Some s"
proof -
  let ?ys = "session_states (evict_oldest_sessions_if_needed svc)"
  have "(k, s) \<in> set (filter (\<lambda>p. active (snd p)) (session_states svc))"
    using map_of_SomeD [OF assms(2)] assms(3) by simp
  then have "(k, s) \<in># mset (filter (\<lambda>p. active (snd p)) ?ys)"
    by (simp only: evict_spec set_mset_mset)
  then have "(k, s) \<in> set ?ys" by simp
  moreover have "distinct (map fst ?ys)"
    using states_ok_mset [OF evict_subset assms(1)] by (simp add: states_ok_def)
  ultimately show ?thesis by simp
qed

lemma insert_fresh_keeps_active:
  assumes "service_ok svc" "map_of (session_states svc) k = Some s" "active s" "map_of (session_states svc) sid = None"
  shows "map_of (session_states (insert_fresh sid svc)) k = Some s"
  unfolding insert_fresh_def
proof (rule evict_keeps_active)
  show "states_ok (session_states (svc\<lparr>session_states := session_states svc @ [(sid, fresh_replacement_state)]\<rparr>))"
    using assms by (auto simp: service_ok_def map_of_eq_None_iff intro: states_ok_snoc)
qed (use assms in \<open>auto simp: map_add_def\<close>)

lemma roll_dice_states [simp]: "session_states (snd (roll_dice cfg rand b m svc)) = session_states svc"
  by (simp add: roll_dice_def Let_def)

lemma decide_other:
  "k \<noteq> sid \<Longrightarrow> map_of (session_states (snd (decide_replacement cfg rand sid b m s svc))) k = map_of (session_states svc) k"
  by (simp add: decide_replacement_def split: prod.split bool.split)

lemma active_session_unaffected:
  assumes "service_ok svc" "map_of (session_states svc) k = Some s" "active s" "call_session c \<noteq> k"
  shows "map_of (session_states (rep_step cfg now c svc)) k = Some s"
proof -
  note ins = insert_fresh_keeps_active [OF assms(1-3)]
  show ?thesis
  proof (cases c)
    case (CallShouldReplace rand sid h b m)
    with assms(2,4) ins [of sid] show ?thesis
      by (auto simp: should_replace_def Let_def decide_other split: option.split)
  next
    case (CallActivate sid b m)
    with assms(2,4) ins [of sid] show ?thesis
      by (auto simp: activate_replacement_def Let_def split: option.split)
  qed (use assms(2,4) ins in \<open>auto simp: get_effective_backend_model_def complete_turn_def get_state_def disable_for_session_def
        cleanup_session_def Let_def map_of_AList_delete split: option.split\<close>)
qed

section \<open>The replacement window\<close>

text \<open>
  What may be called between the activation and the end of a window: anything for other sessions; for the session
  itself no second activation, no opt-out, neither of the session nor of a request, no end of the session, and its target
  backend stays registered.
\<close>

definition request_opts_out :: "ReplacementConfig \<Rightarrow> string option \<Rightarrow> string option \<Rightarrow> bool" where
  "request_opts_out cfg header backend \<longleftrightarrow> opt_out_kind cfg [] header backend (empty_service 0) \<noteq> None"

fun window_call :: "ReplacementConfig \<Rightarrow> string \<Rightarrow> string \<Rightarrow> rep_call \<Rightarrow> bool" where
  "window_call cfg sid rb (CallActivate k b m) = (k \<noteq> sid \<and> b \<noteq> [] \<and> m \<noteq> [])"
| "window_call cfg sid rb (CallDisable iter k) = (k \<noteq> sid)"
| "window_call cfg sid rb (CallCleanup prune k) = (k \<noteq> sid)"
| "window_call cfg sid rb (CallGetEffective bs k b m) = (k = sid \<longrightarrow> (case bs of None \<Rightarrow> False | Some bs \<Rightarrow> rb \<in> set bs))"
| "window_call cfg sid rb (CallShouldReplace rand k h b m) = (k = sid \<longrightarrow> \<not> request_opts_out cfg h b)"
| "window_call cfg sid rb _ = True"

fun completes :: "string \<Rightarrow> rep_call \<Rightarrow> bool" where
  "completes sid (CallCompleteTurn k) = (k = sid)"
| "completes sid _ = False"

definition completions :: "string \<Rightarrow> (real \<times> rep_call) list \<Rightarrow> nat" where
  "completions sid es = length (filter (\<lambda>x. completes sid (snd x)) es)"

definition replacing :: "replacement_service \<Rightarrow> string \<Rightarrow> int \<Rightarrow> string \<Rightarrow> string \<Rightarrow> bool" where
  "replacing svc sid n rb rm \<longleftrightarrow> (case map_of (session_states svc) sid of None \<Rightarrow> False
     | Some s \<Rightarrow> active s \<and> turns_remaining s = n \<and> replacement_backend s = rb \<and> replacement_model s = rm)"

lemma replacingE:
  assumes "replacing svc sid n rb rm"
  obtains s where "map_of (session_states svc) sid = Some s" "active s" "turns_remaining s = n"
    "replacement_backend s = rb" "replacement_model s = rm"
  using assms that by (auto simp: replacing_def split: option.splits)

lemma window_call_wf: "window_call cfg sid rb c \<Longrightarrow> call_wf c"
  by (cases c) simp_all

lemma replacing_decide:
  assumes "active s" "\<not> cool_down_active s" "map_of (session_states svc) sid = Some s"
  shows "\<exists>s'. map_of (session_states (snd (decide_replacement cfg rand sid b m s svc))) sid = Some s' \<and> active s' \<and>
    turns_remaining s' = turns_remaining s \<and> replacement_backend s' = replacement_backend s \<and> replacement_model s' = replacement_model s"
  using assms by (simp add: decide_replacement_def consume_cool_down_def mark_first_turn_complete_def)

lemma window_step:
  assumes "service_ok svc" "replacing svc sid n rb rm" "window_call cfg sid rb c"
  shows "\<not> completes sid c \<Longrightarrow> replacing (rep_step cfg now c svc) sid n rb rm"
    and "completes sid c \<Longrightarrow> 1 < n \<Longrightarrow> replacing (rep_step cfg now c svc) sid (n - 1) rb rm"
proof -
  obtain s where s: "map_of (session_states svc) sid = Some s" "active s" "turns_remaining s = n"
    "replacement_backend s = rb" "replacement_model s = rm"
    using assms(2) by (rule replacingE)
  have ok: "state_ok s" using service_ok_state [OF assms(1) s(1)] .
  then have v: "validate_state s" "\<not> cool_down_active s" using s(2) by (auto simp: state_ok_def)
  show "replacing (rep_step cfg now c svc) sid n rb rm" if c: "\<not> completes sid c"
  proof (cases "call_session c = sid")
    case False
    from active_session_unaffected [OF assms(1) s(1,2) False] s show ?thesis by (simp add: replacing_def)
  next
    case True
    show ?thesis
    proof (cases c)
      case (CallShouldReplace rand k h b m)
      with True s replacing_decide [OF s(2) v(2), of "move_to_end sid s svc" sid cfg rand b m] show ?thesis
        by (auto simp: should_replace_def replacing_def Let_def split: option.split)
    next
      case (CallGetEffective bs k b m)
      with True s assms(3) show ?thesis
        by (cases bs) (auto simp: get_effective_backend_model_def replacing_def Let_def)
    qed (use True c s v assms(3) in \<open>auto simp: get_state_def replacing_def\<close>)
  qed
  show "replacing (rep_step cfg now c svc) sid (n - 1) rb rm" if c: "completes sid c" "1 < n"
    using c s by (cases c) (auto simp: complete_turn_def replacing_def decrement_turn_def Let_def)
qed

lemma window_run:
  assumes "active_config cfg" "service_ok svc" "replacing svc sid n rb rm" "list_all (\<lambda>x. window_call cfg sid rb (snd x)) es"
    and "int (completions sid es) < n"
  shows "replacing (run_steps (rep_step cfg) es svc) sid (n - int (completions sid es)) rb rm"
  using assms(2-)
proof (induction es arbitrary: svc n)
  case (Cons x es)
  have ok: "service_ok (rep_step cfg (fst x) (snd x) svc)"
    using rep_step_ok [OF assms(1) Cons.prems(1)] window_call_wf Cons.prems(3) by auto
  show ?case
  proof (cases "completes sid (snd x)")
    case True
    have "replacing (rep_step cfg (fst x) (snd x) svc) sid (n - 1) rb rm"
      using window_step(2) [OF Cons.prems(1,2)] Cons.prems(3,4) True by (auto simp: completions_def)
    from Cons.IH [OF ok this] Cons.prems(3,4) True show ?thesis by (simp add: completions_def algebra_simps)
  next
    case False
    have "replacing (rep_step cfg (fst x) (snd x) svc) sid n rb rm"
      using window_step(1) [OF Cons.prems(1,2)] Cons.prems(3) False by auto
    from Cons.IH [OF ok this] Cons.prems(3,4) False show ?thesis by (simp add: completions_def)
  qed
qed (simp add: completions_def)

lemma activate_replaces:
  assumes "find_matching_rule cfg b m = Some r" "(to_backend r, to_model r) \<noteq> (b, m)" "map_of (session_states svc) sid = Some s"
  shows "replacing (activate_replacement cfg now sid b m svc) sid (turn_count cfg) (to_backend r) (to_model r)"
  using assms by (auto simp: activate_replacement_def Let_def replacing_def activate_def)

lemma replacing_effective:
  assumes "replacing svc sid n rb rm" "rb \<in> set bs"
  shows "fst (get_effective_backend_model (Some bs) sid b m svc) = (rb, rm)"
  using assms by (auto simp: replacing_def get_effective_backend_model_def Let_def split: option.splits)

text \<open>What a request of the session gets from the caller.\<close>

lemma replacing_applied:
  assumes "active_config cfg" "service_ok svc" "replacing svc sid n rb rm" "rb \<in> set bs" "\<not> request_opts_out cfg header (Some b)"
  shows "fst (apply_replacement cfg (Some bs) rand now sid header b m svc) = Inr (Some (rb, rm))"
proof -
  let ?svc1 = "snd (get_state sid svc)"
  have "rep_step cfg now (CallGetState sid) svc = ?svc1" by simp
  then have svc1: "service_ok ?svc1" "replacing ?svc1 sid n rb rm"
    using rep_step_ok [OF assms(1,2), of "CallGetState sid" now] window_step(1) [OF assms(2,3), of cfg "CallGetState sid" now] by auto
  obtain x svc2 where x: "should_replace cfg rand now sid header (Some b) (Some m) ?svc1 = (x, svc2)" by fastforce
  then have svc2: "replacing svc2 sid n rb rm"
    using window_step(1) [OF svc1, of cfg "CallShouldReplace rand sid header (Some b) (Some m)" now] assms(5) by simp
  from svc1(2) obtain s1 where "map_of (session_states ?svc1) sid = Some s1" by (rule replacingE)
  with x obtain replace where "x = Inr replace"
    by (auto simp: should_replace_def Let_def apfst_def map_prod_def split: if_splits option.splits prod.splits)
  moreover obtain s2 where "map_of (session_states svc2) sid = Some s2" "active s2" using svc2 by (rule replacingE)
  ultimately show ?thesis
    using x replacing_effective [OF svc2 assms(4), of b m] by (auto simp: apply_replacement_def Let_def split: prod.split)
qed

lemma last_turn:
  assumes "replacing svc sid 1 rb rm"
  obtains s where "map_of (session_states (complete_turn sid svc)) sid = Some s" "\<not> active s" "cool_down_active s"
  using assms by (auto simp: replacing_def complete_turn_def decrement_turn_def deactivate_def Let_def split: option.splits)

lemma cooling_down:
  assumes "map_of (session_states svc) sid = Some s" "\<not> active s" "cool_down_active s"
  shows "fst (should_replace cfg rand now sid h b m svc) = Inr False"
    and "fst (get_effective_backend_model bs sid b' m' svc) = (b', m')"
  using assms
  by (auto simp: should_replace_def decide_replacement_def consume_cool_down_def get_effective_backend_model_def Let_def split: option.splits)

lemma cooling_applied:
  assumes "service_ok svc" "map_of (session_states svc) sid = Some s" "\<not> active s" "cool_down_active s"
  shows "fst (apply_replacement cfg registered rand now sid header b m svc) = Inr None"
proof -
  have "validate_state s" using service_ok_state [OF assms(1,2)] by (simp add: state_ok_def)
  then have "get_state sid svc = (s, move_to_end sid s svc)" using assms(2) by (simp add: get_state_def)
  moreover have "map_of (session_states (move_to_end sid s svc)) sid = Some s"
    by (simp add: move_to_end_def map_of_AList_delete map_add_def)
  ultimately show ?thesis
    using assms(3,4)
    by (auto simp: apply_replacement_def should_replace_def decide_replacement_def consume_cool_down_def mark_first_turn_complete_def
        put_state_def update_conv' Let_def split: option.split)
qed


text \<open>
  C19. After any trace of calls the service is well formed: every session has one state and it passes the integrity check of
  \<^verbatim>\<open>get_state\<close>, which therefore returns the stored state and never resets it; the two timestamp lists stay within their
  limits, and the activations counted per window length add up to the number of activations.
\<close>

theorem replacement_service_invariant:
  assumes "active_config cfg" and "list_all (\<lambda>x. call_wf (snd x)) es" and "svc = run_steps (rep_step cfg) es (empty_service t0)"
  shows "distinct (map fst (session_states svc)) \<and>
    (\<forall>sid s. map_of (session_states svc) sid = Some s \<longrightarrow> validate_state s \<and> fst (get_state sid svc) = s) \<and>
    length (activation_timestamps (metrics svc)) \<le> MAX_ACTIVATION_TIMESTAMPS \<and>
    length (opt_out_timestamps (metrics svc)) \<le> MAX_OPT_OUT_TIMESTAMPS \<and>
    sum_list (map snd (turn_count_histogram (metrics svc))) = total_activations (metrics svc)"
proof -
  have ok: "service_ok svc" using assms run_ok empty_service_ok by blast
  then have "validate_state s \<and> fst (get_state sid svc) = s" if "map_of (session_states svc) sid = Some s" for sid s
    using service_ok_state [OF ok that] that by (simp add: state_ok_def get_state_def)
  with ok show ?thesis by (auto simp: service_ok_def states_ok_def metrics_ok_def)
qed

text \<open>
  The eviction keeps every active session with its state and drops the least recently used idle ones, exactly as
  many as there are sessions too many (or all of them), together with their opt-outs. Afterwards the number of sessions
  is within the limit, unless every session left is active.
\<close>

lemma eviction_keeps_active_sessions:
  "mset (filter (\<lambda>p. active (snd p)) (session_states (evict_oldest_sessions_if_needed svc))) =
     mset (filter (\<lambda>p. active (snd p)) (session_states svc)) \<and>
   filter (\<lambda>p. \<not> active (snd p)) (session_states (evict_oldest_sessions_if_needed svc)) =
     drop (length (session_states svc) - MAX_SESSION_STATES) (filter (\<lambda>p. \<not> active (snd p)) (session_states svc)) \<and>
   disabled_sessions (evict_oldest_sessions_if_needed svc) =
     filter (\<lambda>k. k \<notin> fst ` set (take (length (session_states svc) - MAX_SESSION_STATES)
       (filter (\<lambda>p. \<not> active (snd p)) (session_states svc)))) (disabled_sessions svc) \<and>
   (length (session_states (evict_oldest_sessions_if_needed svc)) \<le> MAX_SESSION_STATES \<or>
    list_all (\<lambda>p. active (snd p)) (session_states (evict_oldest_sessions_if_needed svc)))"
  by (intro conjI evict_spec evict_length)

text \<open>Whether a rule lets the dice be rolled for a backend and a model.\<close>

definition replaceable :: "ReplacementConfig \<Rightarrow> string \<Rightarrow> string \<Rightarrow> bool" where
  "replaceable cfg b m \<longleftrightarrow> (\<exists>r. find_matching_rule cfg b m = Some r \<and> (to_backend r, to_model r) \<noteq> (b, m))"

lemma roll_dice_True:
  "b \<noteq> [] \<Longrightarrow> m \<noteq> [] \<Longrightarrow> fst (roll_dice cfg rand (Some b) (Some m) svc) \<longleftrightarrow> replaceable cfg b m \<and> rand < probability cfg"
  by (auto simp: roll_dice_def replaceable_def Let_def split: option.split)

lemma insert_fresh_lookup:
  "map_of (session_states svc) sid = None \<Longrightarrow> map_of (session_states (insert_fresh sid svc)) sid = Some s \<Longrightarrow>
   s = fresh_replacement_state"
proof -
  assume n: "map_of (session_states svc) sid = None" and s: "map_of (session_states (insert_fresh sid svc)) sid = Some s"
  have "(sid, s) \<in># mset (session_states (insert_fresh sid svc))" using map_of_SomeD [OF s] by simp
  then have "(sid, s) \<in># mset (session_states (svc\<lparr>session_states := session_states svc @ [(sid, fresh_replacement_state)]\<rparr>))"
    using mset_subset_eqD [OF evict_subset] unfolding insert_fresh_def by blast
  then show "s = fresh_replacement_state" using n by (auto simp: map_of_eq_None_iff image_iff)
qed

text \<open>
  When a request is replaced: replacement is enabled, no opt-out applies, the session has completed its first turn and is
  not cooling down, and either a replacement is running or a rule names another target for the request and the random number is
  below the probability. In particular the first turn of a session is never replaced.
\<close>

lemma replacement_decision:
  assumes "b \<noteq> []" and "m \<noteq> []"
  shows "fst (should_replace cfg rand now sid h (Some b) (Some m) svc) = Inr True \<longleftrightarrow>
    rep_enabled cfg \<and> opt_out_kind cfg sid h (Some b) svc = None \<and>
    (\<exists>s. map_of (session_states svc) sid = Some s \<and> first_turn_complete s \<and> \<not> cool_down_active s \<and>
      (active s \<or> replaceable cfg b m \<and> rand < probability cfg))"
proof -
  have d: "fst (decide_replacement cfg rand sid (Some b) (Some m) s svc') \<longleftrightarrow>
      first_turn_complete s \<and> \<not> cool_down_active s \<and> (active s \<or> replaceable cfg b m \<and> rand < probability cfg)" for s svc'
    using roll_dice_True [OF assms] by (simp add: decide_replacement_def consume_cool_down_def)
  show ?thesis
    using insert_fresh_lookup [of svc sid]
    by (auto simp: should_replace_def Let_def d fresh_replacement_state_def split: option.split)
qed

text \<open>
  Opting out by header has no effect on a session whose replacement is running: \<^verbatim>\<open>should_replace\<close> answers no, but the request
  processor also goes by the state, and routes the request to the replacement target.
\<close>

lemma header_opt_out_ignored_while_replacing:
  assumes "replacing svc sid n rb rm" and "service_ok svc" and "rb \<in> set bs" and "py_lower header = ''true''"
  shows "fst (should_replace cfg rand now sid (Some header) (Some b) (Some m) svc) = Inr False \<and>
    fst (apply_replacement cfg (Some bs) rand now sid (Some header) b m svc) = Inr (Some (rb, rm))"
proof -
  have no: "fst (should_replace cfg rand now sid (Some header) (Some b) (Some m) svc') = Inr False" for svc'
    using assms(4) by (simp add: should_replace_def opt_out_kind_def)
  have "replacing (snd (get_state sid svc)) sid n rb rm"
    using window_step(1) [OF assms(2,1), of cfg "CallGetState sid"] by simp
  moreover have "session_states (snd (should_replace cfg rand now sid (Some header) (Some b) (Some m) svc')) = session_states svc'" for svc'
    using assms(4) by (simp add: should_replace_def opt_out_kind_def)
  ultimately have r: "replacing (snd (should_replace cfg rand now sid (Some header) (Some b) (Some m) (snd (get_state sid svc)))) sid n rb rm"
    by (simp add: replacing_def)
  then obtain s where "map_of (session_states (snd (should_replace cfg rand now sid (Some header) (Some b) (Some m) (snd (get_state sid svc))))) sid = Some s"
    "active s" by (rule replacingE)
  with no replacing_effective [OF r assms(3)] show ?thesis
    by (simp add: apply_replacement_def Let_def case_prod_beta)
qed

lemma insert_fresh_lost:
  assumes "list_all (\<lambda>p. active (snd p)) (session_states svc)" "MAX_SESSION_STATES \<le> length (session_states svc)"
    "map_of (session_states svc) sid = None"
  shows "map_of (session_states (insert_fresh sid svc)) sid = None"
proof -
  let ?svc = "svc\<lparr>session_states := session_states svc @ [(sid, fresh_replacement_state)]\<rparr>"
  have "filter idle (session_states ?svc) = [(sid, fresh_replacement_state)]"
    using assms(1) by (auto simp: filter_empty_conv list_all_iff fresh_replacement_state_def)
  moreover have "1 \<le> length (session_states ?svc) - MAX_SESSION_STATES" using assms(2) by simp
  ultimately have idle: "filter idle (session_states (insert_fresh sid svc)) = []"
    unfolding insert_fresh_def evict_spec by simp
  show ?thesis
  proof (rule ccontr)
    assume "map_of (session_states (insert_fresh sid svc)) sid \<noteq> None"
    then obtain s where s: "map_of (session_states (insert_fresh sid svc)) sid = Some s" by blast
    then have "idle (sid, s)" using insert_fresh_lookup [OF assms(3) s] by (simp add: fresh_replacement_state_def)
    with map_of_SomeD [OF s] idle show False by (fastforce simp: filter_empty_conv)
  qed
qed

text \<open>
  When as many sessions as the limit allows have a replacement running, the first request of a new session fails: the
  eviction after the insertion drops the state just inserted, and \<^verbatim>\<open>move_to_end\<close> then raises a \<^verbatim>\<open>KeyError\<close>.
\<close>

lemma new_session_key_error_when_full:
  assumes "rep_enabled cfg" and "list_all (\<lambda>p. active (snd p)) (session_states svc)"
    and "MAX_SESSION_STATES \<le> length (session_states svc)" and "map_of (session_states svc) sid = None"
    and "opt_out_kind cfg sid h b svc = None"
  shows "fst (should_replace cfg rand now sid h b m svc) = Inl (Replacement_KeyError sid)"
  using assms insert_fresh_lost by (simp add: should_replace_def Let_def)

text \<open>What \<^verbatim>\<open>to_dict\<close> writes, \<^verbatim>\<open>from_dict\<close> reads back.\<close>

lemma from_dict_to_dict: "from_dict (to_dict s) = Some s"
  by (simp add: from_dict_def to_dict_def dict_get_or_def)

end
