(* ===== verification/Replacement_Examples.thy ===== *)
theory Replacement_Examples
  imports Replacement_Theorems
begin

text \<open>
  The replacement theorems at concrete services: a configuration with one rule and windows of two turns, a session that
  has completed its first turn, and a service that holds as many active sessions as the limit allows.
\<close>

definition example_rule :: ReplacementRule where
  "example_rule = \<lparr>from_pattern = ''gpt'', to_backend = ''alt'', to_model = ''big''\<rparr>"

definition example_config :: ReplacementConfig where
  "example_config = \<lparr>rep_enabled = True, probability = 1 / 2, replacement_rules = [example_rule], backend_model = [],
     turn_count = 2, allow_oauth_auto_replacement = False\<rparr>"

definition first_turn :: "(real \<times> rep_call) list" where
  "first_turn = [(1, CallShouldReplace 0 ''s'' None (Some ''openai'') (Some ''gpt-4''))]"

definition after_first_turn :: replacement_service where
  "after_first_turn = run_steps (rep_step example_config) first_turn (empty_service 0)"

lemma example_config_ok: "active_config example_config"
  by (simp add: active_config_def validate_config_def example_config_def example_rule_def rule_target_ok_def)

lemma example_contains [simp]: "py_contains ''oauth-auto'' ''openai'' = False" "py_contains ''gpt'' ''gpt-4'' = True"
  by code_simp+

declare py_contains.simps [simp del]

lemma example_match: "find_matching_rule example_config ''openai'' ''gpt-4'' = Some example_rule"
  by (simp add: find_matching_rule_def example_config_def example_rule_def rule_matches_def)

lemma first_turn_wf: "list_all (\<lambda>x. call_wf (snd x)) first_turn"
  by (simp add: first_turn_def)

lemma after_first_turn_state:
  "map_of (session_states after_first_turn) ''s'' = Some (mark_first_turn_complete fresh_replacement_state)"
  by (simp add: after_first_turn_def first_turn_def should_replace_def opt_out_kind_def example_config_def empty_service_def
      insert_fresh_def evict_oldest_sessions_if_needed_def MAX_SESSION_STATES_def Let_def decide_replacement_def
      fresh_replacement_state_def move_to_end_def put_state_def AList.delete_eq)


theorem replacement_service_invariant_witness:
  "\<exists>s. map_of (session_states after_first_turn) ''s'' = Some s \<and> validate_state s \<and> fst (get_state ''s'' after_first_turn) = s"
  using replacement_service_invariant [OF example_config_ok first_turn_wf after_first_turn_def] after_first_turn_state by blast

theorem replacement_decision_witness:
  "fst (should_replace example_config (1 / 4) 2 ''s'' None (Some ''openai'') (Some ''gpt-4'') after_first_turn) = Inr True"
proof -
  have dis: "disabled_sessions after_first_turn = []"
    by (simp add: after_first_turn_def first_turn_def should_replace_def opt_out_kind_def example_config_def empty_service_def
        insert_fresh_def evict_oldest_sessions_if_needed_def MAX_SESSION_STATES_def Let_def decide_replacement_def
        fresh_replacement_state_def)
  show ?thesis
    unfolding replacement_decision [of "''openai''" "''gpt-4''", simplified]
    using after_first_turn_state example_match
    by (simp add: dis example_config_def example_rule_def opt_out_kind_def replaceable_def
        mark_first_turn_complete_def fresh_replacement_state_def)
qed

definition replacing_service :: replacement_service where
  "replacing_service = activate_replacement example_config 2 ''s'' ''openai'' ''gpt-4'' after_first_turn"

theorem header_opt_out_ignored_witness:
  "fst (apply_replacement example_config (Some [''alt'']) (1 / 4) 3 ''s'' (Some ''True'') ''openai'' ''gpt-4'' replacing_service) =
     Inr (Some (''alt'', ''big''))"
proof -
  have "service_ok after_first_turn"
    unfolding after_first_turn_def by (rule run_ok [OF example_config_ok empty_service_ok first_turn_wf])
  then have ok: "service_ok replacing_service"
    unfolding replacing_service_def using activate_ok example_config_ok by blast
  have lower: "py_lower ''True'' = ''true''" by code_simp
  have r: "replacing replacing_service ''s'' 2 ''alt'' ''big''"
    using activate_replaces [OF example_match _ after_first_turn_state]
    by (simp add: replacing_service_def example_rule_def example_config_def)
  show ?thesis
    using header_opt_out_ignored_while_replacing [OF r ok, of "[''alt'']" "''True''" example_config "1 / 4" 3 "''openai''" "''gpt-4''"] lower
    by simp
qed

text \<open>As many sessions as the limit allows, all of them with a replacement running.\<close>

definition full_service :: replacement_service where
  "full_service = \<lparr>session_states = map (\<lambda>i. (replicate i CHR ''x'', activate 2 ''openai'' ''gpt-4'' ''alt'' ''big'' fresh_replacement_state))
     [0..<MAX_SESSION_STATES], disabled_sessions = [], metrics = reset_metrics 0\<rparr>"

theorem new_session_key_error_witness:
  "fst (should_replace example_config (1 / 4) 3 ''new'' None (Some ''openai'') (Some ''gpt-4'') full_service) =
     Inl (Replacement_KeyError ''new'')"
proof (rule new_session_key_error_when_full)
  show "map_of (session_states full_service) ''new'' = None"
  proof -
    have "''new'' \<noteq> replicate i CHR ''x''" for i
      by (cases i) simp_all
    then have "''new'' \<notin> (\<lambda>i. replicate i CHR ''x'') ` set [0..<MAX_SESSION_STATES]" by blast
    then show ?thesis by (simp add: full_service_def map_of_eq_None_iff image_image)
  qed
qed (auto simp: full_service_def example_config_def list_all_iff activate_def opt_out_kind_def)

end
