(* ===== verification/Tool_Loop_Guard.thy ===== *)
theory Tool_Loop_Guard
  imports Py_Prelude Keyed_Machine "HOL-Library.AList" "HOL-Library.List_Lexorder" "HOL-Library.Char_ord"
begin

text \<open>
  The tool progress loop guard: the fingerprints of tool calls and outputs that it compares
  (\<^verbatim>\<open>src/core/domain/tool_progress_loop.py\<close>) and the guard itself (\<^verbatim>\<open>src/core/services/tool_progress_loop_guard.py\<close>).
  Reading and writing JSON and the SHA-256 digest are the fields of a record that every definition takes; the theorems
  hold for all of them. Ordered dictionaries are lists with the oldest entry first. Of the fingerprints only the
  two hashes are modelled: the guard uses no other field.
\<close>

section \<open>Fingerprints of calls\<close>

record tool_call =
  function_name :: "string option"
  function_arguments :: "json option"

definition extract_tool_call_parts :: "tool_call \<Rightarrow> string \<times> json" where
  "extract_tool_call_parts tc =
     ((case function_name tc of None \<Rightarrow> ''unknown'' | Some n \<Rightarrow> if n = [] then ''unknown'' else n),
      (case function_arguments tc of None \<Rightarrow> JStr ''{}'' | Some a \<Rightarrow> a))"

fun parse_arguments :: "hasher \<Rightarrow> json \<Rightarrow> json" where
  "parse_arguments hs (JStr s) = (case json_loads hs s of Some v \<Rightarrow> v | None \<Rightarrow> JStr s)"
| "parse_arguments hs v = v"

definition is_alpha :: "char \<Rightarrow> bool" where
  "is_alpha c \<longleftrightarrow> (let n = (of_char c :: nat) in 65 \<le> n \<and> n \<le> 90 \<or> 97 \<le> n \<and> n \<le> 122)"

text \<open>\<^verbatim>\<open>PureWindowsPath(s).as_posix()\<close> for a path with a drive letter and a root, written with slashes.\<close>

definition windows_posix :: "string \<Rightarrow> string" where
  "windows_posix s = take 3 s @ py_join ''/'' (filter (\<lambda>x. x \<noteq> [] \<and> x \<noteq> ''.'') (py_split (CHR ''/'') (drop 3 s)))"

definition has_drive :: "string \<Rightarrow> bool" where
  "has_drive s = (case s of a # b # c # _ \<Rightarrow> is_alpha a \<and> b = CHR '':'' \<and> c = CHR ''/'' | _ \<Rightarrow> False)"

definition normalize_string_argument :: "string \<Rightarrow> string" where
  "normalize_string_argument s =
     (let n = map (\<lambda>c. if c = char_of (92 :: nat) then CHR ''/'' else c) s in
      if has_drive n then py_lower (windows_posix n) else n)"

function normalize_argument_value :: "json \<Rightarrow> json" where
  "normalize_argument_value (JDict d) =
     JDict (map (\<lambda>(k, v). (k, normalize_argument_value v)) (sort_key (\<lambda>p. py_lower (fst p)) d))"
| "normalize_argument_value (JList vs) = JList (map normalize_argument_value vs)"
| "normalize_argument_value (JStr s) = JStr (normalize_string_argument s)"
| "normalize_argument_value JNull = JNull"
| "normalize_argument_value (JBool b) = JBool b"
| "normalize_argument_value (JInt i) = JInt i"
| "normalize_argument_value (JFloat f) = JFloat f"
  by pat_completeness auto

lemma size_in_dict: "(k, v) \<in> set d \<Longrightarrow> size v < Suc (size_list (size_prod (\<lambda>_. 0) size) d)"
  by (induction d) auto

termination normalize_argument_value
  by (relation "measure size") (auto simp: size_in_dict less_Suc_eq_le size_list_estimation')

text \<open>The \<^verbatim>\<open>arguments_hash\<close> of \<^verbatim>\<open>fingerprint_tool_call\<close>.\<close>

definition hash_json :: "hasher \<Rightarrow> json \<Rightarrow> string" where
  "hash_json hs v = sha256_hex hs (json_dumps hs v)"

definition fingerprint_tool_call :: "hasher \<Rightarrow> tool_call \<Rightarrow> string" where
  "fingerprint_tool_call hs tc =
     (let (name, arguments) = extract_tool_call_parts tc in
      hash_json hs (JList [JStr name, normalize_argument_value (parse_arguments hs arguments)]))"

section \<open>Fingerprints of outputs\<close>

text \<open>The characters that \<^verbatim>\<open>\w\<close> matches.\<close>

definition word_char :: "char \<Rightarrow> bool" where
  "word_char c \<longleftrightarrow> is_alpha c \<or> py_isdigit c \<or> c = CHR ''_'' \<or>
     (let n = (of_char c :: nat) in n \<in> {170, 178, 179, 181, 185, 186, 188, 189, 190} \<or> 192 \<le> n \<and> n \<noteq> 215 \<and> n \<noteq> 247)"

definition boundary_after :: "string \<Rightarrow> bool" where
  "boundary_after s \<longleftrightarrow> (case s of [] \<Rightarrow> True | c # _ \<Rightarrow> \<not> word_char c)"

text \<open>
  \<^verbatim>\<open>re.sub\<close> from left to right. A matcher is told whether the character before is a word character, and returns the length
  of its match, which is not 0.
\<close>

function re_sub :: "(bool \<Rightarrow> string \<Rightarrow> nat option) \<Rightarrow> string \<Rightarrow> bool \<Rightarrow> string \<Rightarrow> string" where
  "re_sub mt repl prev [] = []"
| "re_sub mt repl prev (c # cs) =
     (case mt prev (c # cs) of
        None \<Rightarrow> c # re_sub mt repl (word_char c) cs
      | Some n \<Rightarrow> repl @ re_sub mt repl (word_char ((c # cs) ! (n - 1))) (drop (n - 1) cs))"
  by pat_completeness auto
termination re_sub
  by (relation "measure (\<lambda>(_, _, _, s). length s)") auto

text \<open>A pattern of fixed length, in which the letter d stands for a digit.\<close>

fun fits :: "string \<Rightarrow> string \<Rightarrow> bool" where
  "fits [] s = True"
| "fits (p # ps) [] = False"
| "fits (p # ps) (c # cs) = ((if p = CHR ''d'' then py_isdigit c else c = p) \<and> fits ps cs)"

definition ansi_match :: "bool \<Rightarrow> string \<Rightarrow> nat option" where
  "ansi_match prev s =
     (if take 2 s = [char_of (27 :: nat), CHR ''['']
      then (let ds = takeWhile (\<lambda>c. py_isdigit c \<or> c = CHR '';'') (drop 2 s) in
            case drop (2 + length ds) s of
              c # _ \<Rightarrow> if is_alpha c then Some (3 + length ds) else None
            | [] \<Rightarrow> None)
      else None)"

definition time_match :: "bool \<Rightarrow> string \<Rightarrow> nat option" where
  "time_match prev s = (if \<not> prev \<and> fits ''dd:dd:dd'' s \<and> boundary_after (drop 8 s) then Some 8 else None)"

text \<open>The fraction of a second is part of the match if a word boundary follows it.\<close>

definition timestamp_match :: "bool \<Rightarrow> string \<Rightarrow> nat option" where
  "timestamp_match prev s =
     (if \<not> prev \<and> fits ''dddd-dd-dd'' s \<and> take 1 (drop 10 s) \<in> {'' '', ''T''} \<and> fits ''dd:dd:dd'' (drop 11 s) then
        (let fraction = takeWhile py_isdigit (drop 20 s) in
         if take 1 (drop 19 s) = '','' \<and> fraction \<noteq> [] \<and> boundary_after (drop (20 + length fraction) s)
         then Some (20 + length fraction)
         else if boundary_after (drop 19 s) then Some 19 else None)
      else None)"

definition normalize_output_text :: "string \<Rightarrow> string" where
  "normalize_output_text s =
     (let without_ansi = re_sub ansi_match [] False s;
          without_timestamps = re_sub timestamp_match ''<timestamp>'' False without_ansi;
          without_times = re_sub time_match ''<time>'' False without_timestamps in
      py_join '' '' (py_words without_times))"

fun stringify :: "hasher \<Rightarrow> json \<Rightarrow> string" where
  "stringify hs JNull = []"
| "stringify hs (JStr s) = s"
| "stringify hs v = json_dumps hs v"

text \<open>The \<^verbatim>\<open>output_hash\<close> of \<^verbatim>\<open>fingerprint_tool_output\<close>.\<close>

definition fingerprint_tool_output :: "hasher \<Rightarrow> json \<Rightarrow> string" where
  "fingerprint_tool_output hs output = sha256_hex hs (normalize_output_text (stringify hs output))"

section \<open>Messages\<close>

record chat_message =
  role :: string
  msg_content :: json
  tool_calls :: "tool_call list"

text \<open>The positions of the last tool and the last user message.\<close>

definition last_index :: "string \<Rightarrow> chat_message list \<Rightarrow> nat option" where
  "last_index r ms = (case filter (\<lambda>i. role (ms ! i) = r) (rev [0..<length ms]) of [] \<Rightarrow> None | i # _ \<Rightarrow> Some i)"

definition has_new_user_message_after_last_tool :: "chat_message list \<Rightarrow> bool" where
  "has_new_user_message_after_last_tool ms =
     (case (last_index ''tool'' ms, last_index ''user'' ms) of (Some t, Some u) \<Rightarrow> u > t | _ \<Rightarrow> False)"

definition output_content :: "chat_message \<Rightarrow> json" where
  "output_content msg = (if truthy (msg_content msg) then msg_content msg else JStr [])"

definition extract_tool_outputs :: "chat_message list \<Rightarrow> json list" where
  "extract_tool_outputs ms =
     rev (map output_content (takeWhile (\<lambda>msg. role msg = ''tool'') (dropWhile (\<lambda>msg. role msg \<noteq> ''tool'') (rev ms))))"

definition extract_recent_assistant_tool_calls :: "chat_message list \<Rightarrow> tool_call list" where
  "extract_recent_assistant_tool_calls ms =
     (case find (\<lambda>msg. role msg = ''assistant'' \<and> tool_calls msg \<noteq> []) (rev ms) of None \<Rightarrow> [] | Some msg \<Rightarrow> tool_calls msg)"

definition fingerprint_tool_calls :: "hasher \<Rightarrow> tool_call list \<Rightarrow> string" where
  "fingerprint_tool_calls hs tcs = (if tcs = [] then [] else py_join ''|'' (sort (map (fingerprint_tool_call hs) tcs)))"

section \<open>The guard\<close>

datatype loop_action = ALLOW | BLOCK | STEER

record ToolProgressLoopDecision =
  action :: loop_action
  reason :: "string option"
  score :: nat
  repeated_call_count :: nat
  repeated_output_count :: nat
  steering_message :: "string option"

definition allow_decision :: ToolProgressLoopDecision where
  "allow_decision = \<lparr>action = ALLOW, reason = None, score = 0, repeated_call_count = 0, repeated_output_count = 0,
     steering_message = None\<rparr>"

record SessionLoopState =
  consecutive_tool_followups :: nat
  call_counts :: "(string \<times> nat) list"
  output_counts :: "(string \<times> nat) list"
  pending_steer_call_fingerprint :: "string option"
  pending_steer_reason :: "string option"
  pending_steer_score :: nat
  pending_steer_repeated_call_count :: nat
  pending_steer_repeated_output_count :: nat

definition new_loop_state :: SessionLoopState where
  "new_loop_state = \<lparr>consecutive_tool_followups = 0, call_counts = [], output_counts = [], pending_steer_call_fingerprint = None,
     pending_steer_reason = None, pending_steer_score = 0, pending_steer_repeated_call_count = 0,
     pending_steer_repeated_output_count = 0\<rparr>"

record guard_config =
  max_consecutive_tool_followups :: nat
  max_repeated_tool_call_signature :: nat
  max_repeated_tool_output :: nat
  max_counts_per_session :: nat
  max_cached_sessions :: nat
  guard_enabled :: bool
  error_mode :: bool
  guard_steering_message :: string

definition DEFAULT_STEERING_MESSAGE :: string where
  "DEFAULT_STEERING_MESSAGE = ''You appear to be repeating the same tool call without making progress. Try a different approach, summarize what you've learned, or ask for guidance. If you repeat the exact same tool call with the same arguments again, this session will be stopped.''"

text \<open>The constructor: every limit is at least 1.\<close>

definition mk_guard_config :: "int \<Rightarrow> int \<Rightarrow> int \<Rightarrow> int \<Rightarrow> int \<Rightarrow> bool \<Rightarrow> bool \<Rightarrow> string option \<Rightarrow> guard_config" where
  "mk_guard_config followups calls outputs counts sessions on error_only msg =
     \<lparr>max_consecutive_tool_followups = nat (max 1 followups), max_repeated_tool_call_signature = nat (max 1 calls),
      max_repeated_tool_output = nat (max 1 outputs), max_counts_per_session = nat (max 1 counts),
      max_cached_sessions = nat (max 1 sessions), guard_enabled = on, error_mode = error_only,
      guard_steering_message = (case msg of Some s \<Rightarrow> if s = [] then DEFAULT_STEERING_MESSAGE else s | None \<Rightarrow> DEFAULT_STEERING_MESSAGE)\<rparr>"

definition clear_pending_steer :: "SessionLoopState \<Rightarrow> SessionLoopState" where
  "clear_pending_steer st = st\<lparr>pending_steer_call_fingerprint := None, pending_steer_reason := None, pending_steer_score := 0,
     pending_steer_repeated_call_count := 0, pending_steer_repeated_output_count := 0\<rparr>"

definition evict_oldest_if_needed :: "guard_config \<Rightarrow> (string \<times> nat) list \<Rightarrow> (string \<times> nat) list" where
  "evict_oldest_if_needed cfg counter = drop (length counter - max_counts_per_session cfg) counter"

definition count_of :: "(string \<times> nat) list \<Rightarrow> string \<Rightarrow> nat" where
  "count_of counter key = (case map_of counter key of None \<Rightarrow> 0 | Some n \<Rightarrow> n)"

text \<open>Both counting loops: every key is counted, the highest count seen is kept, and the oldest keys make room.\<close>

fun count_keys :: "guard_config \<Rightarrow> string list \<Rightarrow> nat \<Rightarrow> (string \<times> nat) list \<Rightarrow> nat \<times> (string \<times> nat) list" where
  "count_keys cfg [] highest counter = (highest, counter)"
| "count_keys cfg (k # ks) highest counter =
     (let n = count_of counter k + 1 in
      count_keys cfg ks (max highest n) (evict_oldest_if_needed cfg (AList.update k n counter)))"

definition output_keys :: "hasher \<Rightarrow> tool_call list \<Rightarrow> json list \<Rightarrow> string list" where
  "output_keys hs tcs outputs =
     (if length tcs = length outputs \<and> outputs \<noteq> []
      then map2 (\<lambda>tc out. fingerprint_tool_call hs tc @ ''::'' @ fingerprint_tool_output hs out) tcs outputs
      else map (fingerprint_tool_output hs) outputs)"

definition resolve_loop_detection ::
  "guard_config \<Rightarrow> SessionLoopState \<Rightarrow> string \<Rightarrow> nat \<Rightarrow> nat \<Rightarrow> nat \<Rightarrow> string \<Rightarrow> ToolProgressLoopDecision \<times> SessionLoopState" where
  "resolve_loop_detection cfg st why sc calls outputs fp =
     (if error_mode cfg
      then (\<lparr>action = BLOCK, reason = Some why, score = sc, repeated_call_count = calls, repeated_output_count = outputs,
              steering_message = None\<rparr>, st)
      else (\<lparr>action = STEER, reason = Some why, score = sc, repeated_call_count = calls, repeated_output_count = outputs,
              steering_message = Some (guard_steering_message cfg)\<rparr>,
            st\<lparr>pending_steer_call_fingerprint := (if fp = [] then None else Some fp), pending_steer_reason := Some why,
               pending_steer_score := sc, pending_steer_repeated_call_count := calls,
               pending_steer_repeated_output_count := outputs, consecutive_tool_followups := 0\<rparr>))"

text \<open>The counting part of \<^verbatim>\<open>evaluate_request\<close>, for a request that has tool outputs.\<close>

definition count_followup ::
  "hasher \<Rightarrow> guard_config \<Rightarrow> tool_call list \<Rightarrow> json list \<Rightarrow> SessionLoopState \<Rightarrow> ToolProgressLoopDecision \<times> SessionLoopState" where
  "count_followup hs cfg tcs outputs st =
     (let (max_calls, calls) = count_keys cfg (map (fingerprint_tool_call hs) tcs) 0 (call_counts st);
          (max_outputs, outs) = count_keys cfg (output_keys hs tcs outputs) 0 (output_counts st);
          st' = st\<lparr>consecutive_tool_followups := consecutive_tool_followups st + 1, call_counts := calls, output_counts := outs\<rparr>;
          fp = fingerprint_tool_calls hs tcs in
      if max_outputs \<ge> max_repeated_tool_output cfg
        then resolve_loop_detection cfg st' ''repeated_tool_output'' max_outputs max_calls max_outputs fp
      else if max_calls \<ge> max_repeated_tool_call_signature cfg
        then resolve_loop_detection cfg st' ''repeated_tool_call'' max_calls max_calls max_outputs fp
      else if consecutive_tool_followups st' \<ge> max_consecutive_tool_followups cfg
        then resolve_loop_detection cfg st' ''consecutive_tool_followups'' (consecutive_tool_followups st') max_calls max_outputs fp
      else (\<lparr>action = ALLOW, reason = None, score = consecutive_tool_followups st', repeated_call_count = max_calls,
              repeated_output_count = max_outputs, steering_message = None\<rparr>, st'))"

text \<open>What \<^verbatim>\<open>evaluate_request\<close> does with the state of the session.\<close>

definition evaluate_state ::
  "hasher \<Rightarrow> guard_config \<Rightarrow> chat_message list \<Rightarrow> SessionLoopState \<Rightarrow> ToolProgressLoopDecision \<times> SessionLoopState" where
  "evaluate_state hs cfg ms st =
     (if has_new_user_message_after_last_tool ms then (allow_decision, new_loop_state)
      else
        (let outputs = extract_tool_outputs ms;
             tcs = extract_recent_assistant_tool_calls ms;
             fp = fingerprint_tool_calls hs tcs in
         if pending_steer_call_fingerprint st \<noteq> None \<and> fp \<noteq> [] \<and> pending_steer_call_fingerprint st = Some fp
         then (\<lparr>action = BLOCK, reason = Some ''repeated_tool_call_after_steer'', score = pending_steer_score st,
                 repeated_call_count = pending_steer_repeated_call_count st,
                 repeated_output_count = pending_steer_repeated_output_count st, steering_message = None\<rparr>, new_loop_state)
         else
           (let st' = (if pending_steer_call_fingerprint st \<noteq> None then clear_pending_steer st else st) in
            if outputs = [] then (allow_decision, st'\<lparr>consecutive_tool_followups := 0\<rparr>)
            else count_followup hs cfg tcs outputs st')))"

type_synonym loop_guard = "(string \<times> SessionLoopState) list"

text \<open>The least recently used sessions make room for a new one.\<close>

definition state_for :: "guard_config \<Rightarrow> string \<Rightarrow> loop_guard \<Rightarrow> SessionLoopState \<times> loop_guard" where
  "state_for cfg sid sessions =
     (case map_of sessions sid of
        Some st \<Rightarrow> (st, AList.delete sid sessions @ [(sid, st)])
      | None \<Rightarrow> (new_loop_state, drop (length sessions - (max_cached_sessions cfg - 1)) sessions @ [(sid, new_loop_state)]))"

definition evaluate_request ::
  "hasher \<Rightarrow> guard_config \<Rightarrow> string \<Rightarrow> chat_message list \<Rightarrow> loop_guard \<Rightarrow> ToolProgressLoopDecision \<times> loop_guard" where
  "evaluate_request hs cfg sid ms sessions =
     (if \<not> guard_enabled cfg then (allow_decision, sessions)
      else
        (let (st, sessions1) = state_for cfg sid sessions;
             (decision, st') = evaluate_state hs cfg ms st in
         (decision, AList.update sid st' sessions1)))"

end
