(* ===== verification/Tool_Loop_Theorems.thy ===== *)
theory Tool_Loop_Theorems
  imports Tool_Loop_Guard
begin

text \<open>
  What the tool progress loop guard promises. As long as it has room for the sessions it sees, the decisions for a session
  depend on that session's requests only; a session that only sends tool results is stopped or steered within a bounded number
  of requests; a steered session is blocked exactly when it repeats its calls at once.
\<close>

section \<open>Bounded state\<close>

definition loop_state_ok :: "guard_config \<Rightarrow> SessionLoopState \<Rightarrow> bool" where
  "loop_state_ok cfg st \<longleftrightarrow> length (call_counts st) \<le> max_counts_per_session cfg \<and>
     length (output_counts st) \<le> max_counts_per_session cfg"

definition guard_ok :: "guard_config \<Rightarrow> loop_guard \<Rightarrow> bool" where
  "guard_ok cfg g \<longleftrightarrow> distinct (map fst g) \<and> length g \<le> max_cached_sessions cfg \<and> (\<forall>p \<in> set g. loop_state_ok cfg (snd p))"

lemma count_keys_bounded: "length counter \<le> max_counts_per_session cfg \<Longrightarrow>
    length (snd (count_keys cfg ks n counter)) \<le> max_counts_per_session cfg"
  by (induction ks arbitrary: n counter) (simp_all add: Let_def evict_oldest_if_needed_def)

lemma resolve_counts [simp]:
  "call_counts (snd (resolve_loop_detection cfg st why sc calls outputs fp)) = call_counts st"
  "output_counts (snd (resolve_loop_detection cfg st why sc calls outputs fp)) = output_counts st"
  by (simp_all add: resolve_loop_detection_def)

lemma count_followup_ok: "loop_state_ok cfg st \<Longrightarrow> loop_state_ok cfg (snd (count_followup hs cfg tcs outs st))"
  by (simp add: count_followup_def Let_def case_prod_beta loop_state_ok_def count_keys_bounded)

lemma new_loop_state_ok [simp]: "loop_state_ok cfg new_loop_state"
  by (simp add: loop_state_ok_def new_loop_state_def)

lemma clear_pending_sel [simp]:
  "call_counts (clear_pending_steer st) = call_counts st" "output_counts (clear_pending_steer st) = output_counts st"
  "consecutive_tool_followups (clear_pending_steer st) = consecutive_tool_followups st"
  "pending_steer_call_fingerprint (clear_pending_steer st) = None"
  by (simp_all add: clear_pending_steer_def)

lemma evaluate_state_ok:
  assumes "loop_state_ok cfg st"
  shows "loop_state_ok cfg (snd (evaluate_state hs cfg ms st))"
proof -
  have "loop_state_ok cfg (if c then clear_pending_steer st else st)" for c
    using assms by (simp add: loop_state_ok_def)
  then have "loop_state_ok cfg (snd (count_followup hs cfg tcs outs (if c then clear_pending_steer st else st)))" for c tcs outs
    by (rule count_followup_ok)
  moreover have "loop_state_ok cfg ((if c then clear_pending_steer st else st)\<lparr>consecutive_tool_followups := 0\<rparr>)" for c
    using assms by (simp add: loop_state_ok_def)
  ultimately show ?thesis
    unfolding evaluate_state_def Let_def by (simp only: if_distrib [of snd] snd_conv new_loop_state_ok if_split simp_thms)
qed

lemma state_for_ok:
  assumes "guard_ok cfg g" "1 \<le> max_cached_sessions cfg"
  shows "guard_ok cfg (snd (state_for cfg sid g))" "map_of (snd (state_for cfg sid g)) sid = Some (fst (state_for cfg sid g))"
    "loop_state_ok cfg (fst (state_for cfg sid g))"
proof -
  let ?d = "drop (length g - (max_cached_sessions cfg - 1)) g"
  have sub: "set ?d \<subseteq> set g" by (rule set_drop_subset)
  have dist: "distinct (map fst ?d)" using assms(1) by (simp add: guard_ok_def drop_map [symmetric] distinct_drop)
  have "guard_ok cfg (snd (state_for cfg sid g)) \<and> map_of (snd (state_for cfg sid g)) sid = Some (fst (state_for cfg sid g)) \<and>
    loop_state_ok cfg (fst (state_for cfg sid g))"
  proof (cases "map_of g sid")
    case None
    then have "sid \<notin> fst ` set g" by (simp add: map_of_eq_None_iff)
    then have out: "sid \<notin> fst ` set ?d" using sub by blast
    then have "map_of ?d sid = None" by (simp add: map_of_eq_None_iff)
    with None out sub dist assms show ?thesis
      by (auto simp: state_for_def guard_ok_def map_add_def)
  next
    case (Some st)
    have "loop_state_ok cfg st" using map_of_SomeD [OF Some] assms(1) by (auto simp: guard_ok_def)
    moreover have "guard_ok cfg (AList.delete sid g @ [(sid, st)])"
      unfolding guard_ok_def
    proof (intro conjI ballI)
      show "distinct (map fst (AList.delete sid g @ [(sid, st)]))"
        by (rule distinct_moved) (use assms(1) in \<open>simp add: guard_ok_def\<close>)
      show "length (AList.delete sid g @ [(sid, st)]) \<le> max_cached_sessions cfg"
        using length_moved [OF Some, of st] assms(1) unfolding guard_ok_def by linarith
      fix p
      assume "p \<in> set (AList.delete sid g @ [(sid, st)])"
      with set_moved [of sid g st] have "p = (sid, st) \<or> p \<in> set g" by blast
      then show "loop_state_ok cfg (snd p)" using calculation assms(1) by (auto simp: guard_ok_def)
    qed
    ultimately show ?thesis using Some by (simp add: state_for_def del: map_of_append)
  qed
  then show "guard_ok cfg (snd (state_for cfg sid g))" "map_of (snd (state_for cfg sid g)) sid = Some (fst (state_for cfg sid g))"
    "loop_state_ok cfg (fst (state_for cfg sid g))" by blast+
qed

lemma evaluate_request_ok:
  assumes "guard_ok cfg g" "1 \<le> max_cached_sessions cfg"
  shows "guard_ok cfg (snd (evaluate_request hs cfg sid ms g))"
proof -
  note st = state_for_ok [OF assms, of sid]
  have new: "loop_state_ok cfg (snd (evaluate_state hs cfg ms (fst (state_for cfg sid g))))"
    using evaluate_state_ok st(3) by blast
  have len: "length (AList.update k v xs) = length xs" if "map_of xs k = Some w" for k v w and xs :: loop_guard
    using that by (induction xs) (auto split: if_splits)
  show ?thesis
    using st(1) new len [OF st(2)] assms(1)
    by (auto simp: evaluate_request_def Let_def case_prod_beta guard_ok_def distinct_update dest!: set_AList_update)
qed

section \<open>One session\<close>

definition guard_step :: "hasher \<Rightarrow> guard_config \<Rightarrow> 't \<Rightarrow> string \<times> chat_message list \<Rightarrow> loop_guard \<Rightarrow>
    ToolProgressLoopDecision \<times> loop_guard" where
  "guard_step hs cfg t e g = evaluate_request hs cfg (fst e) (snd e) g"

text \<open>The guard of one session, and the state that the guard keeps for a session.\<close>

definition session_guard :: "hasher \<Rightarrow> guard_config \<Rightarrow> 't \<Rightarrow> string \<times> chat_message list \<Rightarrow> SessionLoopState \<Rightarrow>
    ToolProgressLoopDecision \<times> SessionLoopState" where
  "session_guard hs cfg t e st = (if guard_enabled cfg then evaluate_state hs cfg (snd e) st else (allow_decision, st))"

definition session_view :: "loop_guard \<Rightarrow> string \<Rightarrow> SessionLoopState" where
  "session_view g sid = (case map_of g sid of None \<Rightarrow> new_loop_state | Some st \<Rightarrow> st)"

definition holds_only :: "string set \<Rightarrow> loop_guard \<Rightarrow> bool" where
  "holds_only U g \<longleftrightarrow> distinct (map fst g) \<and> fst ` set g \<subseteq> U"

definition has_room :: "guard_config \<Rightarrow> string set \<Rightarrow> bool" where
  "has_room cfg U \<longleftrightarrow> finite U \<and> card U \<le> max_cached_sessions cfg"

lemma no_eviction:
  assumes "holds_only U g" "has_room cfg U" "sid \<in> U" "map_of g sid = None"
  shows "length g - (max_cached_sessions cfg - 1) = 0"
proof -
  have "sid \<notin> fst ` set g" using assms(4) by (simp add: map_of_eq_None_iff)
  then have "fst ` set g \<subseteq> U - {sid}" using assms(1) by (auto simp: holds_only_def)
  then have "card (fst ` set g) \<le> card (U - {sid})" using assms(2) by (intro card_mono) (auto simp: has_room_def)
  moreover have "card (fst ` set g) = length g"
    using assms(1) distinct_card [of "map fst g"] by (simp add: holds_only_def)
  ultimately have "length g \<le> card U - 1" using assms(3) by simp
  with assms(2) show ?thesis unfolding has_room_def by linarith
qed

lemma state_for_view:
  assumes "holds_only U g" "has_room cfg U" "sid \<in> U"
  shows "fst (state_for cfg sid g) = session_view g sid" "holds_only U (snd (state_for cfg sid g))"
    "map_of (snd (state_for cfg sid g)) = (map_of g)(sid \<mapsto> session_view g sid)"
proof -
  have "fst (state_for cfg sid g) = session_view g sid \<and> holds_only U (snd (state_for cfg sid g)) \<and>
    map_of (snd (state_for cfg sid g)) = (map_of g)(sid \<mapsto> session_view g sid)"
  proof (cases "map_of g sid")
    case None
    have new: "map_of (g @ [(sid, new_loop_state)]) = (map_of g)(sid \<mapsto> new_loop_state)"
      using None by (auto simp: map_add_def fun_eq_iff split: option.splits)
    have "sid \<notin> fst ` set g" using None by (simp add: map_of_eq_None_iff)
    with assms(1,3) have "holds_only U (g @ [(sid, new_loop_state)])" by (auto simp: holds_only_def)
    with no_eviction [OF assms None] new None show ?thesis
      by (simp add: state_for_def session_view_def del: map_of_append)
  next
    case (Some st)
    have "holds_only U (AList.delete sid g @ [(sid, st)])"
      using distinct_moved [of g sid st] set_moved [of sid g st] assms(1,3) unfolding holds_only_def by fastforce
    with Some show ?thesis by (simp add: state_for_def session_view_def del: map_of_append)
  qed
  then show "fst (state_for cfg sid g) = session_view g sid" "holds_only U (snd (state_for cfg sid g))"
    "map_of (snd (state_for cfg sid g)) = (map_of g)(sid \<mapsto> session_view g sid)" by blast+
qed

lemma guard_step_view:
  assumes "holds_only U g" "has_room cfg U" "fst e \<in> U"
  shows "holds_only U (snd (guard_step hs cfg t e g))"
    and "session_guard hs cfg t e (session_view g (fst e)) = (fst (guard_step hs cfg t e g), session_view (snd (guard_step hs cfg t e g)) (fst e))"
    and "k \<noteq> fst e \<Longrightarrow> session_view (snd (guard_step hs cfg t e g)) k = session_view g k"
proof -
  note st = state_for_view [OF assms]
  have "holds_only U (AList.update (fst e) v (snd (state_for cfg (fst e) g)))" for v
    using st(2) assms(3) by (auto simp: holds_only_def distinct_update dest!: set_AList_update)
  then show "holds_only U (snd (guard_step hs cfg t e g))"
    using assms(1) by (simp add: guard_step_def evaluate_request_def Let_def case_prod_beta)
  show "session_guard hs cfg t e (session_view g (fst e)) = (fst (guard_step hs cfg t e g), session_view (snd (guard_step hs cfg t e g)) (fst e))"
    by (simp add: session_guard_def guard_step_def evaluate_request_def Let_def case_prod_beta st(1) update_conv')
      (simp add: session_view_def update_conv')
  show "session_view (snd (guard_step hs cfg t e g)) k = session_view g k" if "k \<noteq> fst e"
    using that st(3) by (simp add: session_view_def guard_step_def evaluate_request_def Let_def case_prod_beta update_conv')
qed

interpretation lg: keyed_machine_on "guard_step hs cfg" "holds_only U" "\<lambda>e. fst e \<in> U \<and> has_room cfg U" fst session_view "session_guard hs cfg"
  for hs cfg U
  by unfold_locales (simp_all add: guard_step_view)

section \<open>Requests that follow up on tool calls\<close>

definition tool_followup :: "chat_message list \<Rightarrow> bool" where
  "tool_followup ms \<longleftrightarrow> \<not> has_new_user_message_after_last_tool ms \<and> extract_tool_outputs ms \<noteq> []"

definition call_hashes :: "hasher \<Rightarrow> chat_message list \<Rightarrow> string list" where
  "call_hashes hs ms = map (fingerprint_tool_call hs) (extract_recent_assistant_tool_calls ms)"

definition calls_fingerprint :: "hasher \<Rightarrow> chat_message list \<Rightarrow> string" where
  "calls_fingerprint hs ms = fingerprint_tool_calls hs (extract_recent_assistant_tool_calls ms)"

lemma resolve_action [simp]:
  "action (fst (resolve_loop_detection cfg st why sc calls outputs fp)) = (if error_mode cfg then BLOCK else STEER)"
  by (simp add: resolve_loop_detection_def)

lemma count_followup_allowed:
  assumes "action (fst (count_followup hs cfg tcs outs st)) = ALLOW"
  shows "snd (count_followup hs cfg tcs outs st) =
      st\<lparr>consecutive_tool_followups := consecutive_tool_followups st + 1,
         call_counts := snd (count_keys cfg (map (fingerprint_tool_call hs) tcs) 0 (call_counts st)),
         output_counts := snd (count_keys cfg (output_keys hs tcs outs) 0 (output_counts st))\<rparr>"
    and "consecutive_tool_followups st + 1 < max_consecutive_tool_followups cfg"
    and "fst (count_keys cfg (map (fingerprint_tool_call hs) tcs) 0 (call_counts st)) < max_repeated_tool_call_signature cfg"
  using assms by (auto simp: count_followup_def Let_def case_prod_beta split: if_splits)

lemma followup_allowed:
  assumes "tool_followup ms" "action (fst (evaluate_state hs cfg ms st)) = ALLOW"
  shows "consecutive_tool_followups (snd (evaluate_state hs cfg ms st)) = consecutive_tool_followups st + 1"
    and "consecutive_tool_followups st + 1 < max_consecutive_tool_followups cfg"
    and "call_counts (snd (evaluate_state hs cfg ms st)) = snd (count_keys cfg (call_hashes hs ms) 0 (call_counts st))"
    and "fst (count_keys cfg (call_hashes hs ms) 0 (call_counts st)) < max_repeated_tool_call_signature cfg"
proof -
  let ?st = "if pending_steer_call_fingerprint st \<noteq> None then clear_pending_steer st else st"
  have e: "evaluate_state hs cfg ms st = count_followup hs cfg (extract_recent_assistant_tool_calls ms) (extract_tool_outputs ms) ?st"
    using assms by (auto simp: evaluate_state_def Let_def tool_followup_def split: if_splits)
  have sel: "consecutive_tool_followups ?st = consecutive_tool_followups st" "call_counts ?st = call_counts st" by simp_all
  note c = count_followup_allowed [OF assms(2) [unfolded e]]
  show "consecutive_tool_followups (snd (evaluate_state hs cfg ms st)) = consecutive_tool_followups st + 1"
    and "consecutive_tool_followups st + 1 < max_consecutive_tool_followups cfg"
    and "call_counts (snd (evaluate_state hs cfg ms st)) = snd (count_keys cfg (call_hashes hs ms) 0 (call_counts st))"
    and "fst (count_keys cfg (call_hashes hs ms) 0 (call_counts st)) < max_repeated_tool_call_signature cfg"
    using c unfolding e call_hashes_def sel by simp_all
qed

definition all_allowed :: "ToolProgressLoopDecision list \<Rightarrow> bool" where
  "all_allowed ds \<longleftrightarrow> list_all (\<lambda>d. action d = ALLOW) ds"

lemma session_followups_bounded:
  assumes "guard_enabled cfg" "list_all (\<lambda>x. tool_followup (snd (snd x))) ys"
    and "all_allowed (fst (run_machine (session_guard hs cfg) st ys))" and "ys \<noteq> []"
  shows "consecutive_tool_followups st + length ys < max_consecutive_tool_followups cfg"
  using assms(2-)
proof (induction ys arbitrary: st)
  case (Cons y ys)
  then have a: "action (fst (evaluate_state hs cfg (snd (snd y)) st)) = ALLOW" "tool_followup (snd (snd y))"
    using assms(1) by (simp_all add: all_allowed_def session_guard_def)
  note f = followup_allowed [OF a(2,1)]
  show ?case
  proof (cases "ys = []")
    case True
    with f(2) show ?thesis by simp
  next
    case False
    from Cons.IH [of "snd (evaluate_state hs cfg (snd (snd y)) st)"] False Cons.prems assms(1) f(1) show ?thesis
      by (simp add: all_allowed_def session_guard_def)
  qed
qed simp

section \<open>Counting calls\<close>

definition counts_ok :: "guard_config \<Rightarrow> string set \<Rightarrow> (string \<times> nat) list \<Rightarrow> bool" where
  "counts_ok cfg K counter \<longleftrightarrow> distinct (map fst counter) \<and> fst ` set counter \<subseteq> K \<and> finite K \<and> card K \<le> max_counts_per_session cfg"

lemma counts_ok_evict:
  assumes "counts_ok cfg K counter"
  shows "evict_oldest_if_needed cfg counter = counter"
proof -
  have "length counter = card (fst ` set counter)"
    using assms distinct_card [of "map fst counter"] by (simp add: counts_ok_def)
  also have "\<dots> \<le> card K" using assms by (auto simp: counts_ok_def intro: card_mono)
  finally show ?thesis using assms by (simp add: evict_oldest_if_needed_def counts_ok_def)
qed

lemma counts_ok_update: "counts_ok cfg K counter \<Longrightarrow> k \<in> K \<Longrightarrow> counts_ok cfg K (AList.update k n counter)"
  by (auto simp: counts_ok_def distinct_update dest!: set_AList_update)

lemma count_of_update [simp]: "count_of (AList.update k n counter) j = (if j = k then n else count_of counter j)"
  by (simp add: count_of_def update_conv')

text \<open>With room for all keys, counting adds the occurrences of each key, and the highest count seen is at least that of any key counted.\<close>

lemma count_keys_exact_aux:
  "counts_ok cfg K counter \<Longrightarrow> set ks \<subseteq> K \<Longrightarrow>
   counts_ok cfg K (snd (count_keys cfg ks n counter)) \<and>
   count_of (snd (count_keys cfg ks n counter)) j = count_of counter j + count_list ks j \<and>
   n \<le> fst (count_keys cfg ks n counter) \<and>
   (j \<in> set ks \<longrightarrow> count_of counter j + count_list ks j \<le> fst (count_keys cfg ks n counter))"
proof (induction ks arbitrary: n counter)
  case (Cons k ks)
  let ?c = "AList.update k (count_of counter k + 1) counter"
  have ok: "counts_ok cfg K ?c" using Cons.prems counts_ok_update by simp
  have IH: "counts_ok cfg K (snd (count_keys cfg ks (max n (count_of counter k + 1)) ?c)) \<and>
     count_of (snd (count_keys cfg ks (max n (count_of counter k + 1)) ?c)) j = count_of ?c j + count_list ks j \<and>
     max n (count_of counter k + 1) \<le> fst (count_keys cfg ks (max n (count_of counter k + 1)) ?c) \<and>
     (j \<in> set ks \<longrightarrow> count_of ?c j + count_list ks j \<le> fst (count_keys cfg ks (max n (count_of counter k + 1)) ?c))"
    using Cons.IH [OF ok] Cons.prems(2) by simp
  have e: "count_keys cfg (k # ks) n counter = count_keys cfg ks (max n (count_of counter k + 1)) ?c"
    using counts_ok_evict [OF ok] by (simp add: Let_def)
  have "count_list ks j = 0" if "j \<notin> set ks" using that by simp
  with IH show ?case unfolding e by (auto split: if_splits)
qed simp

lemmas count_keys_exact = count_keys_exact_aux [THEN conjunct1] count_keys_exact_aux [THEN conjunct2, THEN conjunct1]
  count_keys_exact_aux [THEN conjunct2, THEN conjunct2, THEN conjunct1]
  count_keys_exact_aux [THEN conjunct2, THEN conjunct2, THEN conjunct2, THEN mp]

lemma session_repeats_bounded:
  assumes "guard_enabled cfg" "list_all (\<lambda>x. tool_followup (snd (snd x)) \<and> h \<in> set (call_hashes hs (snd (snd x)))) ys"
    and "all_allowed (fst (run_machine (session_guard hs cfg) st ys))" and "ys \<noteq> []"
    and "counts_ok cfg K (call_counts st)" and "\<forall>x \<in> set ys. set (call_hashes hs (snd (snd x))) \<subseteq> K"
  shows "count_of (call_counts st) h + length ys < max_repeated_tool_call_signature cfg"
  using assms(2-)
proof (induction ys arbitrary: st)
  case (Cons y ys)
  then have a: "action (fst (evaluate_state hs cfg (snd (snd y)) st)) = ALLOW" "tool_followup (snd (snd y))"
    and h: "h \<in> set (call_hashes hs (snd (snd y)))" "set (call_hashes hs (snd (snd y))) \<subseteq> K"
    using assms(1) by (simp_all add: all_allowed_def session_guard_def)
  note f = followup_allowed [OF a(2,1)]
    and c1 = count_keys_exact(1) [OF Cons.prems(4) h(2), where n = 0]
    and c2 = count_keys_exact(2) [OF Cons.prems(4) h(2), where n = 0 and j = h]
    and c4 = count_keys_exact(4) [OF Cons.prems(4) h(2), where n = 0 and j = h, OF h(1)]
  have one: "1 \<le> count_list (call_hashes hs (snd (snd y))) h" using h(1) by (metis One_nat_def Suc_leI count_list_0_iff neq0_conv)
  show ?case
  proof (cases "ys = []")
    case True
    with f(4) c4 one show ?thesis by simp
  next
    case False
    from Cons.IH [of "snd (evaluate_state hs cfg (snd (snd y)) st)"] False Cons.prems assms(1) c1 c2 one show ?thesis
      unfolding f(3) by (simp add: all_allowed_def session_guard_def)
  qed
qed simp

section \<open>Steering\<close>

lemma count_followup_cases:
  obtains (detected) st' why sc a b where "count_followup hs cfg tcs outs st = resolve_loop_detection cfg st' why sc a b (fingerprint_tool_calls hs tcs)"
  | (allowed) "action (fst (count_followup hs cfg tcs outs st)) = ALLOW"
      "pending_steer_call_fingerprint (snd (count_followup hs cfg tcs outs st)) = pending_steer_call_fingerprint st"
proof -
  define calls where "calls = count_keys cfg (map (fingerprint_tool_call hs) tcs) 0 (call_counts st)"
  define outputs where "outputs = count_keys cfg (output_keys hs tcs outs) 0 (output_counts st)"
  define st' where "st' = st\<lparr>consecutive_tool_followups := consecutive_tool_followups st + 1, call_counts := snd calls, output_counts := snd outputs\<rparr>"
  have p: "pending_steer_call_fingerprint st' = pending_steer_call_fingerprint st" by (simp add: st'_def)
  have e: "count_followup hs cfg tcs outs st =
     (if fst outputs \<ge> max_repeated_tool_output cfg
        then resolve_loop_detection cfg st' ''repeated_tool_output'' (fst outputs) (fst calls) (fst outputs) (fingerprint_tool_calls hs tcs)
      else if fst calls \<ge> max_repeated_tool_call_signature cfg
        then resolve_loop_detection cfg st' ''repeated_tool_call'' (fst calls) (fst calls) (fst outputs) (fingerprint_tool_calls hs tcs)
      else if consecutive_tool_followups st' \<ge> max_consecutive_tool_followups cfg
        then resolve_loop_detection cfg st' ''consecutive_tool_followups'' (consecutive_tool_followups st') (fst calls) (fst outputs) (fingerprint_tool_calls hs tcs)
      else (\<lparr>action = ALLOW, reason = None, score = consecutive_tool_followups st', repeated_call_count = fst calls,
              repeated_output_count = fst outputs, steering_message = None\<rparr>, st'))"
    unfolding count_followup_def Let_def case_prod_beta calls_def outputs_def st'_def ..
  consider "max_repeated_tool_output cfg \<le> fst outputs" | "\<not> max_repeated_tool_output cfg \<le> fst outputs" "max_repeated_tool_call_signature cfg \<le> fst calls"
    | "\<not> max_repeated_tool_output cfg \<le> fst outputs" "\<not> max_repeated_tool_call_signature cfg \<le> fst calls"
      "max_consecutive_tool_followups cfg \<le> consecutive_tool_followups st'"
    | "\<not> max_repeated_tool_output cfg \<le> fst outputs" "\<not> max_repeated_tool_call_signature cfg \<le> fst calls"
      "\<not> max_consecutive_tool_followups cfg \<le> consecutive_tool_followups st'"
    by blast
  then show thesis
    by cases (use detected allowed p in \<open>simp only: e if_True if_False fst_conv snd_conv ToolProgressLoopDecision.select_convs simp_thms\<close>)+
qed

lemma resolve_steers:
  "\<not> error_mode cfg \<Longrightarrow> pending_steer_call_fingerprint (snd (resolve_loop_detection cfg st why sc calls outputs fp)) = (if fp = [] then None else Some fp)"
  by (simp add: resolve_loop_detection_def)

lemma pending_after:
  assumes "\<not> error_mode cfg"
  shows "pending_steer_call_fingerprint (snd (evaluate_state hs cfg ms st)) =
    (if action (fst (evaluate_state hs cfg ms st)) = STEER \<and> calls_fingerprint hs ms \<noteq> [] then Some (calls_fingerprint hs ms) else None)"
proof -
  have count: "pending_steer_call_fingerprint (snd (count_followup hs cfg tcs outs st)) =
      (if action (fst (count_followup hs cfg tcs outs st)) = STEER \<and> fingerprint_tool_calls hs tcs \<noteq> []
       then Some (fingerprint_tool_calls hs tcs) else None)"
    if "pending_steer_call_fingerprint st = None" for tcs outs st
    by (rule count_followup_cases [of hs cfg tcs outs st]) (simp_all add: assms resolve_steers that)
  define st' where "st' = (if pending_steer_call_fingerprint st \<noteq> None then clear_pending_steer st else st)"
  have none: "pending_steer_call_fingerprint st' = None" by (simp add: st'_def)
  show ?thesis
  proof (cases "has_new_user_message_after_last_tool ms \<or>
      calls_fingerprint hs ms \<noteq> [] \<and> pending_steer_call_fingerprint st = Some (calls_fingerprint hs ms)")
    case True
    then show ?thesis
      by (elim disjE conjE) (simp_all add: evaluate_state_def Let_def calls_fingerprint_def new_loop_state_def allow_decision_def)
  next
    case False
    then have "evaluate_state hs cfg ms st =
       (if extract_tool_outputs ms = [] then (allow_decision, st'\<lparr>consecutive_tool_followups := 0\<rparr>)
        else count_followup hs cfg (extract_recent_assistant_tool_calls ms) (extract_tool_outputs ms) st')"
      unfolding evaluate_state_def Let_def st'_def calls_fingerprint_def by presburger
    with count [OF none] none show ?thesis
      by (cases "extract_tool_outputs ms = []") (simp_all add: calls_fingerprint_def allow_decision_def)
  qed
qed

lemma blocks_iff:
  assumes "\<not> error_mode cfg"
  shows "action (fst (evaluate_state hs cfg ms st)) = BLOCK \<longleftrightarrow>
    \<not> has_new_user_message_after_last_tool ms \<and> calls_fingerprint hs ms \<noteq> [] \<and>
    pending_steer_call_fingerprint st = Some (calls_fingerprint hs ms)"
proof -
  have "action (fst (count_followup hs cfg tcs outs st)) \<noteq> BLOCK" for tcs outs st
    by (rule count_followup_cases [of hs cfg tcs outs st]) (simp_all add: assms)
  then show ?thesis
    by (auto simp: evaluate_state_def Let_def calls_fingerprint_def allow_decision_def)
qed

section \<open>What the guard promises\<close>

definition seen_sessions :: "('t \<times> string \<times> chat_message list) list \<Rightarrow> string set" where
  "seen_sessions es = set (map (\<lambda>x. fst (snd x)) es)"

text \<open>The decisions for one session in a run from the empty guard.\<close>

definition session_decisions :: "hasher \<Rightarrow> guard_config \<Rightarrow> string \<Rightarrow> ('t \<times> string \<times> chat_message list) list \<Rightarrow> ToolProgressLoopDecision list" where
  "session_decisions hs cfg sid es = answers_of fst sid es (fst (run_machine (guard_step hs cfg) [] es))"

lemma session_decisions_eq:
  assumes "has_room cfg (seen_sessions es)"
  shows "session_decisions hs cfg sid es = fst (run_machine (session_guard hs cfg) new_loop_state (events_of fst sid es))"
proof -
  have "list_all (\<lambda>x. fst (snd x) \<in> seen_sessions es \<and> has_room cfg (seen_sessions es)) es"
    using assms by (auto simp: list_all_iff seen_sessions_def)
  from lg.expected_run_refines [OF _ this, of "[]" hs sid] show ?thesis
    by (simp add: holds_only_def session_view_def session_decisions_def)
qed

lemma window_decisions:
  assumes "has_room cfg (seen_sessions es)" and "events_of fst sid es = xs @ ys @ zs"
  shows "take (length ys) (drop (length xs) (session_decisions hs cfg sid es)) =
    fst (run_machine (session_guard hs cfg) (snd (run_machine (session_guard hs cfg) new_loop_state xs)) ys)"
  by (simp add: session_decisions_eq [OF assms(1)] assms(2) run_machine_append)

lemma reset_state:
  assumes "guard_enabled cfg" and "xs = [] \<or> has_new_user_message_after_last_tool (snd (snd (last xs)))"
  shows "snd (run_machine (session_guard hs cfg) new_loop_state xs) = new_loop_state"
proof (cases xs rule: rev_cases)
  case (snoc us u)
  with assms show ?thesis by (simp add: run_machine_append session_guard_def evaluate_state_def)
qed simp

text \<open>
  C37. Sessions do not influence each other: as long as the guard has room for all sessions it sees, its decisions for a
  session are those of a guard that keeps the state of that session only and sees only its requests.
\<close>

theorem loop_guard_isolated:
  assumes "has_room cfg (seen_sessions es)"
  shows "answers_of fst sid es (fst (run_machine (guard_step hs cfg) [] es)) =
    fst (run_machine (session_guard hs cfg) new_loop_state (events_of fst sid es))"
  using session_decisions_eq [OF assms] by (simp add: session_decisions_def)

text \<open>
  C24. No endless tool loop: whatever calls and outputs a session sends, and whatever other sessions do as long as the guard has
  room for all sessions it has seen (1000 by default; an evicted session starts anew), of any
  \<^verbatim>\<open>max_consecutive_tool_followups\<close> of its requests in a row that carry tool results and no new user message at least one is
  steered or blocked.
\<close>

theorem endless_tool_loop_stopped:
  assumes "guard_enabled cfg" and "1 \<le> max_consecutive_tool_followups cfg" and "has_room cfg (seen_sessions es)"
    and "events_of fst sid es = xs @ ys @ zs" and "list_all (\<lambda>x. tool_followup (snd (snd x))) ys"
    and "length ys = max_consecutive_tool_followups cfg"
  shows "\<exists>d \<in> set (take (length ys) (drop (length xs) (session_decisions hs cfg sid es))). action d \<noteq> ALLOW"
proof (rule ccontr)
  assume "\<not> ?thesis"
  then have "all_allowed (fst (run_machine (session_guard hs cfg) (snd (run_machine (session_guard hs cfg) new_loop_state xs)) ys))"
    unfolding window_decisions [OF assms(3,4)] by (auto simp: all_allowed_def list_all_iff)
  from session_followups_bounded [OF assms(1,5) this] assms(2,6) show False by fastforce
qed

text \<open>
  A repeated call is noticed: after a new user message (or from the start of the session), of any
  \<^verbatim>\<open>max_repeated_tool_call_signature\<close> requests in a row that carry tool results and contain a call with the same fingerprint at
  least one is steered or blocked, provided that there are no more different calls than the guard counts per session.
\<close>

lemma repeated_call_stopped:
  assumes "guard_enabled cfg" and "1 \<le> max_repeated_tool_call_signature cfg" and "has_room cfg (seen_sessions es)"
    and "events_of fst sid es = xs @ ys @ zs" and "xs = [] \<or> has_new_user_message_after_last_tool (snd (snd (last xs)))"
    and "list_all (\<lambda>x. tool_followup (snd (snd x)) \<and> h \<in> set (call_hashes hs (snd (snd x)))) ys"
    and "length ys = max_repeated_tool_call_signature cfg"
    and "card (\<Union>x \<in> set ys. set (call_hashes hs (snd (snd x)))) \<le> max_counts_per_session cfg"
  shows "\<exists>d \<in> set (take (length ys) (drop (length xs) (session_decisions hs cfg sid es))). action d \<noteq> ALLOW"
proof (rule ccontr)
  let ?K = "\<Union>x \<in> set ys. set (call_hashes hs (snd (snd x)))"
  assume "\<not> ?thesis"
  then have "all_allowed (fst (run_machine (session_guard hs cfg) new_loop_state ys))"
    unfolding window_decisions [OF assms(3,4)] reset_state [OF assms(1,5)] by (auto simp: all_allowed_def list_all_iff)
  moreover have "counts_ok cfg ?K (call_counts new_loop_state)"
    using assms(8) by (simp add: counts_ok_def new_loop_state_def)
  moreover have "ys \<noteq> []" using assms(2,7) by auto
  ultimately have "count_of (call_counts new_loop_state) h + length ys < max_repeated_tool_call_signature cfg"
    by (intro session_repeats_bounded [OF assms(1,6)]) auto
  with assms(7) show False by simp
qed

text \<open>
  C25. In the mode that steers first, a request is blocked exactly when the decision on the request before it of the same session
  was to steer and it repeats the calls of that request, with no new user message in between; the first request of a session
  is never blocked. In particular the session is not blocked for good. This is as long as the guard has room for all sessions
  it has seen (1000 by default).
\<close>

theorem steered_then_blocked:
  assumes "guard_enabled cfg" and "\<not> error_mode cfg" and "has_room cfg (seen_sessions es)"
    and "i < length (events_of fst sid es)"
  shows "action (session_decisions hs cfg sid es ! i) = BLOCK \<longleftrightarrow>
    0 < i \<and> action (session_decisions hs cfg sid es ! (i - 1)) = STEER \<and>
    \<not> has_new_user_message_after_last_tool (snd (snd (events_of fst sid es ! i))) \<and>
    calls_fingerprint hs (snd (snd (events_of fst sid es ! i))) \<noteq> [] \<and>
    calls_fingerprint hs (snd (snd (events_of fst sid es ! (i - 1)))) = calls_fingerprint hs (snd (snd (events_of fst sid es ! i)))"
proof -
  let ?es = "events_of fst sid es" and ?run = "run_machine (session_guard hs cfg) new_loop_state"
  have nth: "session_decisions hs cfg sid es ! j = fst (evaluate_state hs cfg (snd (snd (?es ! j))) (snd (?run (take j ?es))))"
    if "j < length ?es" for j
    using that assms(1) by (simp add: session_decisions_eq [OF assms(3)] run_machine_nth session_guard_def)
  show ?thesis
  proof (cases i)
    case 0
    then show ?thesis unfolding nth [OF assms(4)] blocks_iff [OF assms(2)] by (simp add: new_loop_state_def)
  next
    case (Suc j)
    then have "take i ?es = take j ?es @ [?es ! j]" using assms(4) by (simp add: take_Suc_conv_app_nth)
    then have "snd (?run (take i ?es)) = snd (evaluate_state hs cfg (snd (snd (?es ! j))) (snd (?run (take j ?es))))"
      using assms(1) by (simp add: run_machine_append session_guard_def)
    with pending_after [OF assms(2), of hs "snd (snd (?es ! j))" "snd (?run (take j ?es))"] nth [of j] Suc assms(4) show ?thesis
      unfolding nth [OF assms(4)] blocks_iff [OF assms(2)] by auto
  qed
qed

lemma guard_runs_ok: "1 \<le> max_cached_sessions cfg \<Longrightarrow> guard_ok cfg g \<Longrightarrow> guard_ok cfg (snd (run_machine (guard_step hs cfg) g es))"
  by (induction es arbitrary: g) (simp_all add: guard_step_def evaluate_request_ok)

text \<open>
  The guard's memory is bounded over every run: it keeps at most \<^verbatim>\<open>max_cached_sessions\<close> sessions, each once, and for each at most
  \<^verbatim>\<open>max_counts_per_session\<close> counted calls and as many outputs.
\<close>

lemma loop_guard_bounded:
  assumes "1 \<le> max_cached_sessions cfg" and "g = snd (run_machine (guard_step hs cfg) [] es)"
  shows "length g \<le> max_cached_sessions cfg \<and> distinct (map fst g) \<and>
    (\<forall>p \<in> set g. length (call_counts (snd p)) \<le> max_counts_per_session cfg \<and>
       length (output_counts (snd p)) \<le> max_counts_per_session cfg)"
  using guard_runs_ok [OF assms(1), of "[]" hs es] assms(2) by (simp add: guard_ok_def loop_state_ok_def)

end
