(* ===== verification/Tool_Loop_Examples.thy ===== *)
theory Tool_Loop_Examples
  imports Tool_Loop_Theorems
begin

text \<open>
  The theorems on the tool progress loop guard at concrete runs: a session that reads the same file again and again, beside
  another session that sends plain requests. The text of the name and the argument serves as the digest of a call.
\<close>

fun plain_dumps :: "json \<Rightarrow> string" where
  "plain_dumps (JList [JStr n, JStr a]) = n @ '' '' @ a"
| "plain_dumps _ = ''value''"

definition plain_hasher :: hasher where
  "plain_hasher = \<lparr>json_loads = (\<lambda>_. None), json_dumps = plain_dumps, sha256_hex = (\<lambda>s. s)\<rparr>"

definition small_guard :: guard_config where
  "small_guard = mk_guard_config 3 2 9 4 5 True False None"

definition user_message :: chat_message where
  "user_message = \<lparr>role = ''user'', msg_content = JStr ''go on'', tool_calls = []\<rparr>"

definition read_call :: chat_message where
  "read_call = \<lparr>role = ''assistant'', msg_content = JNull,
     tool_calls = [\<lparr>function_name = Some ''read'', function_arguments = Some (JStr ''a.txt'')\<rparr>]\<rparr>"

definition read_result :: chat_message where
  "read_result = \<lparr>role = ''tool'', msg_content = JStr ''at 10:00:00 nothing'', tool_calls = []\<rparr>"

definition reading :: "chat_message list" where
  "reading = [user_message, read_call, read_result]"

definition loop_run :: "(nat \<times> string \<times> chat_message list) list" where
  "loop_run = [(0, ''s'', reading), (1, ''t'', [user_message]), (2, ''s'', reading), (3, ''s'', reading)]"

lemma small_guard_limits [simp]:
  "max_consecutive_tool_followups small_guard = 3" "max_repeated_tool_call_signature small_guard = 2"
  "max_counts_per_session small_guard = 4" "max_cached_sessions small_guard = 5" "guard_enabled small_guard" "\<not> error_mode small_guard"
  by (simp_all add: small_guard_def mk_guard_config_def)

lemma loop_run_room: "has_room small_guard (seen_sessions loop_run)"
  by (simp add: has_room_def seen_sessions_def loop_run_def insert_commute)

lemma loop_run_events: "events_of fst ''s'' loop_run = [(0, ''s'', reading), (2, ''s'', reading), (3, ''s'', reading)]"
  by (simp add: loop_run_def)

lemma reading_facts:
  "tool_followup reading" "\<not> has_new_user_message_after_last_tool reading"
  "call_hashes plain_hasher reading = [''read a.txt'']" "calls_fingerprint plain_hasher reading = ''read a.txt''"
  by code_simp+

theorem loop_guard_isolated_witness:
  "answers_of fst ''t'' loop_run (fst (run_machine (guard_step plain_hasher small_guard) [] loop_run)) = [allow_decision]"
proof -
  have "fst (evaluate_state plain_hasher small_guard [user_message] new_loop_state) = allow_decision" by code_simp
  then show ?thesis
    using loop_guard_isolated [OF loop_run_room, of "''t''" plain_hasher]
    by (simp add: loop_run_def session_guard_def)
qed

theorem endless_tool_loop_stopped_witness:
  "\<exists>d \<in> set (session_decisions plain_hasher small_guard ''s'' loop_run). action d \<noteq> ALLOW"
proof -
  have "events_of fst ''s'' loop_run = [] @ [(0, ''s'', reading), (2, ''s'', reading), (3, ''s'', reading)] @ []"
    by (simp add: loop_run_events)
  from endless_tool_loop_stopped [OF _ _ loop_run_room this, of plain_hasher] show ?thesis
    by (auto simp: reading_facts dest: in_set_takeD)
qed

theorem repeated_call_stopped_witness:
  "\<exists>d \<in> set (take 2 (session_decisions plain_hasher small_guard ''s'' loop_run)). action d \<noteq> ALLOW"
proof -
  have "events_of fst ''s'' loop_run = [] @ [(0, ''s'', reading), (2, ''s'', reading)] @ [(3, ''s'', reading)]"
    by (simp add: loop_run_events)
  from repeated_call_stopped [OF _ _ loop_run_room this, of "''read a.txt''" plain_hasher] show ?thesis
    by (simp add: reading_facts numeral_2_eq_2)
qed

theorem steered_then_blocked_witness:
  "map action (session_decisions plain_hasher small_guard ''s'' loop_run) = [ALLOW, STEER, BLOCK]"
proof -
  have run: "map action (take 2 (session_decisions plain_hasher small_guard ''s'' loop_run)) = [ALLOW, STEER]"
    "length (session_decisions plain_hasher small_guard ''s'' loop_run) = 3"
    by code_simp+
  then obtain a b c where d: "session_decisions plain_hasher small_guard ''s'' loop_run = [a, b, c]" "action a = ALLOW" "action b = STEER"
    by (auto simp: numeral_3_eq_3 numeral_2_eq_2 length_Suc_conv)
  have "action (session_decisions plain_hasher small_guard ''s'' loop_run ! 2) = BLOCK"
    using steered_then_blocked [OF _ _ loop_run_room, of 2 "''s''" plain_hasher] d
    by (simp add: loop_run_events reading_facts)
  with d show ?thesis by simp
qed

text \<open>A time of day and white space in an output do not matter.\<close>

lemma output_times_ignored:
  "fingerprint_tool_output plain_hasher (JStr ''at 10:00:00  nothing'') = fingerprint_tool_output plain_hasher (JStr '' at 11:30:05 nothing'')"
  by code_simp

end
