(* ===== verification/Request_Dedup.thy ===== *)
theory Request_Dedup
  imports Py_Prelude Keyed_Machine
begin

text \<open>
  Request deduplication (\<^verbatim>\<open>src/core/services/request_deduplication_service.py\<close>): identical requests of a session are blocked
  while the first one is in flight and for a while after it has succeeded. The dictionary is a list in insertion order; the
  time is an argument. The branch that handles a failing serialisation is not modelled: writing JSON is total here.
\<close>

datatype RequestStatus = IN_FLIGHT | SUCCESS | RETRIABLE_ERROR | CLIENT_DISCONNECT

record TrackedRequest =
  timestamp :: real
  status :: RequestStatus
  status_code :: "int option"
  duplicate_count :: nat
  is_streaming :: bool
  expires_at :: real

record dedup_config =
  window_seconds :: real
  streaming_window_seconds :: "real option"
  streaming_in_flight_window_seconds :: real
  dedup_enabled :: bool
  max_cache_size :: nat

record dedup =
  cache :: "(string \<times> TrackedRequest) list"
  duplicates_blocked :: nat
  requests_processed :: nat
  retries_after_error_allowed :: nat
  last_cleanup_time :: real

definition mk_dedup :: "real \<Rightarrow> dedup" where
  "mk_dedup now = \<lparr>cache = [], duplicates_blocked = 0, requests_processed = 0, retries_after_error_allowed = 0, last_cleanup_time = now\<rparr>"

section \<open>Windows and keys\<close>

definition completed_ttl_seconds :: "dedup_config \<Rightarrow> bool \<Rightarrow> real" where
  "completed_ttl_seconds cfg streaming =
     max 0 (case streaming_window_seconds cfg of
              Some w \<Rightarrow> if streaming then max (window_seconds cfg) w else window_seconds cfg
            | None \<Rightarrow> window_seconds cfg)"

definition in_flight_ttl_seconds :: "dedup_config \<Rightarrow> bool \<Rightarrow> real" where
  "in_flight_ttl_seconds cfg streaming =
     max 0 (if streaming then max (window_seconds cfg) (streaming_in_flight_window_seconds cfg) else window_seconds cfg)"

record dedup_request =
  req_model :: string
  req_messages :: "json list"
  req_tools :: json
  req_stream :: bool

definition compute_content_hash :: "hasher \<Rightarrow> dedup_request \<Rightarrow> string \<Rightarrow> string" where
  "compute_content_hash hs req sid =
     take 32 (sha256_hex hs (json_dumps hs (JDict
       ([(''session_id'', JStr sid), (''model'', JStr (req_model req)), (''messages'', JList (req_messages req))] @
        (if truthy (req_tools req) then [(''tools'', req_tools req)] else [])))))"

definition cache_key :: "string \<Rightarrow> string \<Rightarrow> string" where
  "cache_key sid h = sid @ '':'' @ h"

definition compute_retry_after_seconds :: "real \<Rightarrow> real \<Rightarrow> nat \<Rightarrow> real option" where
  "compute_retry_after_seconds age effective_window duplicates =
     (if effective_window \<le> 0 then None
      else
        (let remaining = max 0 (effective_window - age);
             backoff_seconds = max 1 (min effective_window (2 ^ min duplicates 6)) in
         Some (max remaining backoff_seconds)))"

section \<open>Cleaning up\<close>

definition CLEANUP_INTERVAL_SECONDS :: real where "CLEANUP_INTERVAL_SECONDS = 30"

text \<open>A deadline of 0 counts as none.\<close>

definition drop_expired :: "real \<Rightarrow> (string \<times> TrackedRequest) list \<Rightarrow> (string \<times> TrackedRequest) list" where
  "drop_expired now xs = filter (\<lambda>p. \<not> (expires_at (snd p) \<noteq> 0 \<and> expires_at (snd p) < now)) xs"

definition drop_oldest :: "nat \<Rightarrow> (string \<times> TrackedRequest) list \<Rightarrow> (string \<times> TrackedRequest) list" where
  "drop_oldest limit xs =
     (if length xs > limit
      then (let removed = map fst (take (length xs - limit) (sort_key (\<lambda>p. timestamp (snd p)) xs)) in
            filter (\<lambda>p. fst p \<notin> set removed) xs)
      else xs)"

definition maybe_cleanup :: "dedup_config \<Rightarrow> real \<Rightarrow> dedup \<Rightarrow> dedup" where
  "maybe_cleanup cfg now d =
     (if now - last_cleanup_time d > CLEANUP_INTERVAL_SECONDS \<or> real (length (cache d)) > real (max_cache_size cfg) * 11 / 10
      then d\<lparr>last_cleanup_time := now, cache := drop_oldest (max_cache_size cfg) (drop_expired now (cache d))\<rparr>
      else d)"

definition cleanup :: "real \<Rightarrow> dedup \<Rightarrow> nat \<times> dedup" where
  "cleanup now d =
     (let xs = drop_expired now (cache d) in (length (cache d) - length xs, d\<lparr>cache := xs\<rparr>))"

section \<open>Operations\<close>

definition in_flight :: "dedup_config \<Rightarrow> real \<Rightarrow> bool \<Rightarrow> TrackedRequest" where
  "in_flight cfg now streaming = \<lparr>timestamp = now, status = IN_FLIGHT, status_code = None, duplicate_count = 0,
     is_streaming = streaming, expires_at = now + in_flight_ttl_seconds cfg streaming\<rparr>"

definition put_tracked :: "string \<Rightarrow> TrackedRequest \<Rightarrow> dedup \<Rightarrow> dedup" where
  "put_tracked key tr d = d\<lparr>cache := AList.update key tr (cache d)\<rparr>"

definition is_expired :: "real \<Rightarrow> TrackedRequest \<Rightarrow> bool" where
  "is_expired now tr \<longleftrightarrow> expires_at tr \<noteq> 0 \<and> now \<ge> expires_at tr"

text \<open>The part of \<^verbatim>\<open>check_and_register\<close> under the lock, for the key of the request.\<close>

definition check_key :: "dedup_config \<Rightarrow> real \<Rightarrow> string \<Rightarrow> bool \<Rightarrow> dedup \<Rightarrow> (bool \<times> real option) \<times> dedup" where
  "check_key cfg now key streaming d =
     (let d1 = (maybe_cleanup cfg now d)\<lparr>requests_processed := requests_processed d + 1\<rparr>;
          fresh = put_tracked key (in_flight cfg now streaming) d1 in
      case map_of (cache d1) key of
        None \<Rightarrow> ((False, None), fresh)
      | Some tr \<Rightarrow>
          if is_expired now tr then ((False, None), fresh)
          else if status tr = RETRIABLE_ERROR
            then ((False, None), fresh\<lparr>retries_after_error_allowed := retries_after_error_allowed d1 + 1\<rparr>)
          else
            (let tr' = tr\<lparr>duplicate_count := duplicate_count tr + 1\<rparr>;
                 retry = compute_retry_after_seconds (now - timestamp tr) (max 0 (expires_at tr - timestamp tr)) (duplicate_count tr') in
             ((True, retry), (put_tracked key tr' d1)\<lparr>duplicates_blocked := duplicates_blocked d1 + 1\<rparr>)))"

definition check_and_register ::
  "hasher \<Rightarrow> dedup_config \<Rightarrow> real \<Rightarrow> dedup_request \<Rightarrow> string \<Rightarrow> dedup \<Rightarrow> (bool \<times> string \<times> real option) \<times> dedup" where
  "check_and_register hs cfg now req sid d =
     (if \<not> dedup_enabled cfg \<or> window_seconds cfg \<le> 0 then ((False, [], None), d)
      else
        (let h = compute_content_hash hs req sid;
             ((dup, retry), d') = check_key cfg now (cache_key sid h) (req_stream req) d in
         ((dup, h, retry), d')))"

definition final_status :: "int option \<Rightarrow> bool \<Rightarrow> RequestStatus" where
  "final_status code disconnected =
     (if disconnected then CLIENT_DISCONNECT
      else (case code of
              None \<Rightarrow> SUCCESS
            | Some c \<Rightarrow>
                if c \<in> {200, 201, 202, 204} then SUCCESS
                else if c \<in> {429, 500, 502, 503, 504, 408} then RETRIABLE_ERROR
                else SUCCESS))"

definition complete_key :: "dedup_config \<Rightarrow> real \<Rightarrow> string \<Rightarrow> int option \<Rightarrow> bool \<Rightarrow> dedup \<Rightarrow> dedup" where
  "complete_key cfg now key code disconnected d =
     (case map_of (cache d) key of
        None \<Rightarrow> d
      | Some tr \<Rightarrow> put_tracked key (tr\<lparr>status := final_status code disconnected, status_code := code, timestamp := now,
                     expires_at := now + completed_ttl_seconds cfg (is_streaming tr)\<rparr>) d)"

definition mark_request_complete :: "dedup_config \<Rightarrow> real \<Rightarrow> string \<Rightarrow> string \<Rightarrow> int option \<Rightarrow> bool \<Rightarrow> dedup \<Rightarrow> dedup" where
  "mark_request_complete cfg now h sid code disconnected d =
     (if \<not> dedup_enabled cfg then d else complete_key cfg now (cache_key sid h) code disconnected d)"

definition get_request_outcome :: "dedup_config \<Rightarrow> string \<Rightarrow> string \<Rightarrow> dedup \<Rightarrow> (RequestStatus \<times> int option) option" where
  "get_request_outcome cfg h sid d =
     (if \<not> dedup_enabled cfg then None
      else map_option (\<lambda>tr. (status tr, status_code tr)) (map_of (cache d) (cache_key sid h)))"

definition dedup_rate :: "dedup \<Rightarrow> real" where
  "dedup_rate d = (if requests_processed d > 0 then real (duplicates_blocked d) / real (requests_processed d) else 0)"

end
