(* ===== verification/Dedup_Theorems.thy ===== *)
theory Dedup_Theorems
  imports Request_Dedup
begin

text \<open>
  What request deduplication promises: a request is blocked while an identical one of the same session is in flight or has
  just succeeded, a retry after a retriable error is never blocked, and the cache stays bounded.
\<close>

datatype dedup_event =
    Check dedup_request string
  | Complete string string "int option" bool
  | Cleanup

fun dedup_step :: "hasher \<Rightarrow> dedup_config \<Rightarrow> real \<Rightarrow> dedup_event \<Rightarrow> dedup \<Rightarrow> bool \<times> dedup" where
  "dedup_step hs cfg now (Check req sid) d = apfst fst (check_and_register hs cfg now req sid d)"
| "dedup_step hs cfg now (Complete h sid code disconnected) d = (False, mark_request_complete cfg now h sid code disconnected d)"
| "dedup_step hs cfg now Cleanup d = (False, snd (cleanup now d))"

fun checked_key :: "hasher \<Rightarrow> dedup_event \<Rightarrow> string option" where
  "checked_key hs (Check req sid) = Some (cache_key sid (compute_content_hash hs req sid))"
| "checked_key hs _ = None"

fun completed_key :: "dedup_event \<Rightarrow> string option" where
  "completed_key (Complete h sid code disconnected) = Some (cache_key sid h)"
| "completed_key _ = None"

section \<open>The cache\<close>

lemma map_of_filter_entries:
  assumes "distinct (map fst entries)"
  shows "map_of (filter keep entries) key =
    (case map_of entries key of Some tr \<Rightarrow> (if keep (key, tr) then Some tr else None) | None \<Rightarrow> None)"
  using assms by (induction entries) (auto split: option.splits simp: map_of_eq_None_iff image_iff dest: map_of_SomeD)

lemma length_drop_oldest:
  assumes "distinct (map fst xs)"
  shows "length (drop_oldest limit xs) \<le> limit"
proof (cases "limit < length xs")
  case True
  let ?s = "sort_key (\<lambda>p. timestamp (snd p)) xs" and ?n = "length xs - limit"
  let ?R = "set (map fst (take ?n ?s))"
  have "distinct (map fst ?s)"
    using assms by (simp add: distinct_map)
  then have "distinct (map fst (take ?n ?s))" by (simp add: take_map [symmetric] distinct_take)
  then have R: "card ?R = ?n" by (subst distinct_card) simp_all
  have "set (take ?n ?s) \<subseteq> set xs" using set_take_subset [of ?n ?s] by simp
  then have "?R \<subseteq> set (map fst xs)" by (simp add: image_mono)
  have "map fst (filter (\<lambda>p. fst p \<notin> ?R) xs) = filter (\<lambda>k. k \<notin> ?R) (map fst xs)" by (simp add: filter_map comp_def)
  then have "length (filter (\<lambda>p. fst p \<notin> ?R) xs) = length (filter (\<lambda>k. k \<notin> ?R) (map fst xs))" by (metis length_map)
  also have "\<dots> = card (set (map fst xs) - ?R)"
    using assms by (subst distinct_card [symmetric]) (auto simp: set_diff_eq intro: distinct_filter)
  also have "\<dots> = length xs - ?n"
    using \<open>?R \<subseteq> set (map fst xs)\<close> R assms by (subst card_Diff_subset) (auto simp: distinct_card simp del: set_map)
  finally show ?thesis using True by (simp add: drop_oldest_def Let_def)
qed (simp add: drop_oldest_def)

lemma drop_oldest_filter: "\<exists>P. drop_oldest limit xs = filter P xs"
proof (cases "limit < length xs")
  case False
  then have "drop_oldest limit xs = filter (\<lambda>_. True) xs" by (simp add: drop_oldest_def)
  then show ?thesis by blast
qed (auto simp: drop_oldest_def Let_def)

lemma maybe_cleanup_filter: "\<exists>P. cache (maybe_cleanup cfg now d) = filter P (cache d)"
proof (cases "now - last_cleanup_time d > CLEANUP_INTERVAL_SECONDS \<or> real (length (cache d)) > real (max_cache_size cfg) * 11 / 10")
  case True
  obtain P where "drop_oldest (max_cache_size cfg) (drop_expired now (cache d)) = filter P (drop_expired now (cache d))"
    using drop_oldest_filter by blast
  with True show ?thesis by (auto simp: maybe_cleanup_def drop_expired_def)
next
  case False
  then have "cache (maybe_cleanup cfg now d) = filter (\<lambda>_. True) (cache d)" by (simp add: maybe_cleanup_def)
  then show ?thesis by blast
qed

lemma maybe_cleanup_sel [simp]:
  "requests_processed (maybe_cleanup cfg now d) = requests_processed d"
  "duplicates_blocked (maybe_cleanup cfg now d) = duplicates_blocked d"
  "retries_after_error_allowed (maybe_cleanup cfg now d) = retries_after_error_allowed d"
  by (simp_all add: maybe_cleanup_def)

lemma put_tracked_sel [simp]:
  "map_of (cache (put_tracked key tr d)) = (map_of (cache d))(key \<mapsto> tr)"
  "requests_processed (put_tracked key tr d) = requests_processed d"
  "duplicates_blocked (put_tracked key tr d) = duplicates_blocked d"
  "retries_after_error_allowed (put_tracked key tr d) = retries_after_error_allowed d"
  by (simp_all add: put_tracked_def update_conv')

lemma put_tracked_distinct: "distinct (map fst (cache d)) \<Longrightarrow> distinct (map fst (cache (put_tracked key tr d)))"
  by (simp add: put_tracked_def distinct_update)

lemma put_tracked_keys: "fst ` set (cache (put_tracked key tr d)) \<subseteq> insert key (fst ` set (cache d))"
  by (auto simp: put_tracked_def dest!: set_AList_update)

lemma update_keys_subset: "fst ` set (AList.update k v xs) \<subseteq> insert k (fst ` set xs)"
  by (auto dest!: set_AList_update)

lemma length_update: "length (AList.update k v xs) \<le> length xs + 1"
  by (induction xs) auto

text \<open>After a clean-up, entries have only been removed.\<close>

lemma cleanup_only_removes:
  assumes "distinct (map fst (cache d))"
  shows "distinct (map fst (cache (maybe_cleanup cfg now d)))" "fst ` set (cache (maybe_cleanup cfg now d)) \<subseteq> fst ` set (cache d)"
    "map_of (cache (maybe_cleanup cfg now d)) k = Some tr \<Longrightarrow> map_of (cache d) k = Some tr"
proof -
  obtain P where P: "cache (maybe_cleanup cfg now d) = filter P (cache d)" using maybe_cleanup_filter by blast
  show "distinct (map fst (cache (maybe_cleanup cfg now d)))" using assms by (simp add: P distinct_map_filter)
  show "fst ` set (cache (maybe_cleanup cfg now d)) \<subseteq> fst ` set (cache d)" by (auto simp: P)
  show "map_of (cache (maybe_cleanup cfg now d)) k = Some tr \<Longrightarrow> map_of (cache d) k = Some tr"
    using assms by (auto simp: P map_of_filter_entries split: option.splits if_splits)
qed

lemma cleanup_keeps_live:
  assumes "distinct (map fst (cache d))" "length (cache d) \<le> max_cache_size cfg"
    "map_of (cache d) k = Some tr" "now \<le> expires_at tr"
  shows "map_of (cache (maybe_cleanup cfg now d)) k = Some tr"
proof -
  have "map_of (drop_expired now (cache d)) k = Some tr"
    using assms by (simp add: drop_expired_def map_of_filter_entries)
  moreover have "length (drop_expired now (cache d)) \<le> max_cache_size cfg"
    using assms(2) length_filter_le [of _ "cache d"] order_trans unfolding drop_expired_def by blast
  ultimately show ?thesis using assms(3) by (simp add: maybe_cleanup_def drop_oldest_def)
qed

section \<open>Runs\<close>

definition dedup_ok :: "dedup_config \<Rightarrow> string set \<Rightarrow> dedup \<Rightarrow> bool" where
  "dedup_ok cfg U d \<longleftrightarrow> distinct (map fst (cache d)) \<and> fst ` set (cache d) \<subseteq> U \<and>
     real (length (cache d)) \<le> real (max_cache_size cfg) * 11 / 10 + 1 \<and>
     duplicates_blocked d + retries_after_error_allowed d \<le> requests_processed d"

lemma dedup_cleanup_length:
  assumes "distinct (map fst (cache d))"
  shows "real (length (cache (maybe_cleanup cfg now d))) \<le> real (max_cache_size cfg) * 11 / 10"
proof (cases "now - last_cleanup_time d > CLEANUP_INTERVAL_SECONDS \<or> real (length (cache d)) > real (max_cache_size cfg) * 11 / 10")
  case True
  have "distinct (map fst (drop_expired now (cache d)))" using assms by (simp add: drop_expired_def distinct_map_filter)
  from length_drop_oldest [OF this, of "max_cache_size cfg"] True show ?thesis
    by (simp add: maybe_cleanup_def)
next
  case False
  then show ?thesis by (simp add: maybe_cleanup_def)
qed

text \<open>What a check leaves behind: the cleaned cache with the entry of its key replaced, and one request more.\<close>

lemma check_key_effect:
  obtains tr where "cache (snd (check_key cfg now key streaming d)) = AList.update key tr (cache (maybe_cleanup cfg now d))"
    "requests_processed (snd (check_key cfg now key streaming d)) = requests_processed d + 1"
    "duplicates_blocked (snd (check_key cfg now key streaming d)) + retries_after_error_allowed (snd (check_key cfg now key streaming d))
      \<le> duplicates_blocked d + retries_after_error_allowed d + 1"
proof (cases "map_of (cache (maybe_cleanup cfg now d)) key")
  case None
  then show thesis by (intro that [of "in_flight cfg now streaming"]) (simp_all add: check_key_def Let_def put_tracked_def)
next
  case (Some tr)
  show thesis
    by (rule that [of "if is_expired now tr \<or> status tr = RETRIABLE_ERROR then in_flight cfg now streaming else tr\<lparr>duplicate_count := duplicate_count tr + 1\<rparr>"])
      (auto simp: check_key_def Let_def put_tracked_def Some)
qed

lemma check_key_ok:
  assumes "dedup_ok cfg U d" "key \<in> U"
  shows "dedup_ok cfg U (snd (check_key cfg now key streaming d))"
proof -
  obtain tr where tr: "cache (snd (check_key cfg now key streaming d)) = AList.update key tr (cache (maybe_cleanup cfg now d))"
    "requests_processed (snd (check_key cfg now key streaming d)) = requests_processed d + 1"
    "duplicates_blocked (snd (check_key cfg now key streaming d)) + retries_after_error_allowed (snd (check_key cfg now key streaming d))
      \<le> duplicates_blocked d + retries_after_error_allowed d + 1"
    by (rule check_key_effect)
  let ?c = "cache (maybe_cleanup cfg now d)"
  have d: "distinct (map fst (cache d))" "fst ` set (cache d) \<subseteq> U" "duplicates_blocked d + retries_after_error_allowed d \<le> requests_processed d"
    using assms(1) by (simp_all add: dedup_ok_def)
  show ?thesis
    unfolding dedup_ok_def tr(1,2)
  proof (intro conjI)
    show "distinct (map fst (AList.update key tr ?c))"
      using cleanup_only_removes(1) [OF d(1)] by (simp add: distinct_update)
    show "fst ` set (AList.update key tr ?c) \<subseteq> U"
      using update_keys_subset [of key tr ?c] cleanup_only_removes(2) [OF d(1), of cfg now] d(2) assms(2) by blast
    show "real (length (AList.update key tr ?c)) \<le> real (max_cache_size cfg) * 11 / 10 + 1"
      using length_update [of key tr ?c] dedup_cleanup_length [OF d(1), of cfg now] by linarith
    show "duplicates_blocked (snd (check_key cfg now key streaming d)) + retries_after_error_allowed (snd (check_key cfg now key streaming d))
      \<le> requests_processed d + 1"
      using tr(3) d(3) by linarith
  qed
qed

lemma complete_key_ok:
  assumes "dedup_ok cfg U d"
  shows "dedup_ok cfg U (complete_key cfg now key code disconnected d)"
proof (cases "map_of (cache d) key")
  case (Some tr)
  have "key \<in> set (map fst (cache d))" using map_of_SomeD [OF Some] by force
  then have keys: "map fst (AList.update key v (cache d)) = map fst (cache d)" for v by (simp add: update_keys)
  then have "length (AList.update key v (cache d)) = length (cache d)" "fst ` set (AList.update key v (cache d)) = fst ` set (cache d)" for v
    by (metis length_map, metis list.set_map)
  with assms keys show ?thesis by (simp add: complete_key_def Some dedup_ok_def put_tracked_def)
qed (simp add: complete_key_def assms)

lemma dedup_cleanup_ok:
  assumes "dedup_ok cfg U d"
  shows "dedup_ok cfg U (snd (cleanup now d))"
proof -
  have "length (drop_expired now (cache d)) \<le> length (cache d)" by (simp add: drop_expired_def)
  then have "real (length (drop_expired now (cache d))) \<le> real (max_cache_size cfg) * 11 / 10 + 1"
    using assms unfolding dedup_ok_def by linarith
  with assms show ?thesis by (auto simp: cleanup_def Let_def dedup_ok_def drop_expired_def distinct_map_filter)
qed

lemma dedup_step_ok:
  assumes "dedup_ok cfg U d" "\<And>k. checked_key hs e = Some k \<Longrightarrow> k \<in> U"
  shows "dedup_ok cfg U (snd (dedup_step hs cfg now e d))"
proof (cases e)
  case (Check req sid)
  have "dedup_ok cfg U (snd (check_key cfg now (cache_key sid (compute_content_hash hs req sid)) (req_stream req) d))"
    using assms Check by (intro check_key_ok) simp_all
  with Check assms(1) show ?thesis by (simp add: check_and_register_def Let_def case_prod_beta)
qed (use assms(1) in \<open>simp_all add: mark_request_complete_def complete_key_ok dedup_cleanup_ok\<close>)

definition seen_keys :: "hasher \<Rightarrow> (real \<times> dedup_event) list \<Rightarrow> string set" where
  "seen_keys hs es = {k. \<exists>x \<in> set es. checked_key hs (snd x) = Some k}"

lemma seen_keys_image: "seen_keys hs es \<subseteq> (\<lambda>x. the (checked_key hs (snd x))) ` set es"
  unfolding seen_keys_def by force

lemma seen_keys_bounds: "finite (seen_keys hs es)" "card (seen_keys hs es) \<le> length es"
proof -
  show "finite (seen_keys hs es)" by (rule finite_subset [OF seen_keys_image]) simp
  have "card (seen_keys hs es) \<le> card ((\<lambda>x. the (checked_key hs (snd x))) ` set es)"
    by (intro card_mono seen_keys_image) simp
  also have "\<dots> \<le> length es" by (metis card_image_le card_length finite_set order_trans)
  finally show "card (seen_keys hs es) \<le> length es" .
qed

lemma dedup_run_ok:
  "dedup_ok cfg U d \<Longrightarrow> seen_keys hs es \<subseteq> U \<Longrightarrow> dedup_ok cfg U (snd (run_machine (dedup_step hs cfg) d es))"
proof (induction es arbitrary: d)
  case (Cons x es)
  have "dedup_ok cfg U (snd (dedup_step hs cfg (fst x) (snd x) d))"
    using Cons.prems by (intro dedup_step_ok) (auto simp: seen_keys_def)
  with Cons show ?case by (simp add: seen_keys_def subset_iff)
qed simp

lemma mk_dedup_ok: "dedup_ok cfg U (mk_dedup now)"
  by (simp add: dedup_ok_def mk_dedup_def)

section \<open>One request and its duplicates\<close>

text \<open>The cache tracks a request under a key, with this status, until this deadline.\<close>

definition tracks :: "dedup \<Rightarrow> string \<Rightarrow> RequestStatus \<Rightarrow> real \<Rightarrow> bool \<Rightarrow> bool" where
  "tracks d key st deadline streaming \<longleftrightarrow> (case map_of (cache d) key of None \<Rightarrow> False
     | Some tr \<Rightarrow> status tr = st \<and> expires_at tr = deadline \<and> is_streaming tr = streaming)"

lemma tracksE:
  assumes "tracks d key st deadline streaming"
  obtains tr where "map_of (cache d) key = Some tr" "status tr = st" "expires_at tr = deadline" "is_streaming tr = streaming"
  using assms that by (auto simp: tracks_def split: option.splits)

lemma cache_within_limit:
  assumes "dedup_ok cfg U d" "finite U" "card U \<le> max_cache_size cfg"
  shows "length (cache d) \<le> max_cache_size cfg"
proof -
  have "length (cache d) = card (fst ` set (cache d))"
    using assms(1) distinct_card [of "map fst (cache d)"] by (simp add: dedup_ok_def)
  also have "\<dots> \<le> card U" using assms(1,2) by (auto simp: dedup_ok_def intro: card_mono)
  finally show ?thesis using assms(3) by simp
qed

lemma tracks_cleaned:
  assumes "dedup_ok cfg U d" "finite U" "card U \<le> max_cache_size cfg" "tracks d key st deadline streaming" "now < deadline"
  shows "tracks (maybe_cleanup cfg now d) key st deadline streaming"
proof -
  obtain tr where tr: "map_of (cache d) key = Some tr" "status tr = st" "expires_at tr = deadline" "is_streaming tr = streaming"
    using assms(4) by (rule tracksE)
  have "map_of (cache (maybe_cleanup cfg now d)) key = Some tr"
    using assms(1,5) cache_within_limit [OF assms(1-3)] tr by (intro cleanup_keeps_live) (auto simp: dedup_ok_def)
  with tr show ?thesis by (simp add: tracks_def)
qed

lemma check_key_tracked:
  assumes "dedup_ok cfg U d" "finite U" "card U \<le> max_cache_size cfg" "tracks d key st deadline streaming" "now < deadline"
    "st \<noteq> RETRIABLE_ERROR"
  shows "fst (fst (check_key cfg now key streaming' d))" "tracks (snd (check_key cfg now key' streaming' d)) key st deadline streaming"
proof -
  obtain tr where tr: "map_of (cache (maybe_cleanup cfg now d)) key = Some tr" "status tr = st" "expires_at tr = deadline"
    "is_streaming tr = streaming"
    using tracks_cleaned [OF assms(1-5)] by (rule tracksE)
  then have "\<not> is_expired now tr" using assms(5) by (simp add: is_expired_def)
  with tr assms(6) show "fst (fst (check_key cfg now key streaming' d))" by (simp add: check_key_def Let_def)
  show "tracks (snd (check_key cfg now key' streaming' d)) key st deadline streaming"
  proof (cases "key' = key")
    case True
    with tr assms(6) \<open>\<not> is_expired now tr\<close> show ?thesis by (simp add: check_key_def Let_def tracks_def)
  next
    case False
    obtain tr' where "cache (snd (check_key cfg now key' streaming' d)) = AList.update key' tr' (cache (maybe_cleanup cfg now d))"
      by (rule check_key_effect)
    with False tr show ?thesis by (simp add: tracks_def update_conv')
  qed
qed

lemma tracks_step:
  assumes "dedup_ok cfg U d" "finite U" "card U \<le> max_cache_size cfg" "tracks d key st deadline streaming" "now < deadline"
    "st \<noteq> RETRIABLE_ERROR" "completed_key e \<noteq> Some key"
  shows "tracks (snd (dedup_step hs cfg now e d)) key st deadline streaming"
proof (cases e)
  case (Check req sid)
  with check_key_tracked(2) [OF assms(1-6)] assms(4) show ?thesis
    by (simp add: check_and_register_def Let_def case_prod_beta)
next
  case (Complete h sid code disconnected)
  with assms(4,7) show ?thesis
    by (auto simp: mark_request_complete_def complete_key_def tracks_def split: option.splits)
next
  case Cleanup
  obtain tr where "map_of (cache d) key = Some tr" "status tr = st" "expires_at tr = deadline" "is_streaming tr = streaming"
    using assms(4) by (rule tracksE)
  with Cleanup assms(1,5) show ?thesis
    by (simp add: cleanup_def Let_def tracks_def drop_expired_def map_of_filter_entries dedup_ok_def)
qed

lemma tracks_run:
  assumes "finite U" "card U \<le> max_cache_size cfg" "st \<noteq> RETRIABLE_ERROR"
  shows "dedup_ok cfg U d \<Longrightarrow> tracks d key st deadline streaming \<Longrightarrow> seen_keys hs es \<subseteq> U \<Longrightarrow>
    \<forall>x \<in> set es. fst x < deadline \<and> completed_key (snd x) \<noteq> Some key \<Longrightarrow>
    tracks (snd (run_machine (dedup_step hs cfg) d es)) key st deadline streaming"
proof (induction es arbitrary: d)
  case (Cons x es)
  have "dedup_ok cfg U (snd (dedup_step hs cfg (fst x) (snd x) d))"
    using Cons.prems by (intro dedup_step_ok) (auto simp: seen_keys_def)
  moreover have "tracks (snd (dedup_step hs cfg (fst x) (snd x) d)) key st deadline streaming"
    using Cons.prems by (intro tracks_step [OF _ assms(1,2) _ _ assms(3)]) auto
  ultimately show ?case using Cons.IH Cons.prems(3,4) by (simp add: seen_keys_def subset_iff)
qed simp

lemma registered:
  assumes "\<not> fst (fst (check_key cfg now key streaming d))"
  shows "tracks (snd (check_key cfg now key streaming d)) key IN_FLIGHT (now + in_flight_ttl_seconds cfg streaming) streaming"
  using assms by (auto simp: check_key_def Let_def tracks_def in_flight_def split: option.splits if_splits)

lemma completed:
  assumes "tracks d key st deadline streaming"
  shows "tracks (complete_key cfg now key code disconnected d) key (final_status code disconnected)
    (now + completed_ttl_seconds cfg streaming) streaming"
  using assms by (auto simp: complete_key_def tracks_def split: option.splits)

definition dedup_active :: "dedup_config \<Rightarrow> bool" where
  "dedup_active cfg \<longleftrightarrow> dedup_enabled cfg \<and> 0 < window_seconds cfg"

lemma active_check:
  assumes "dedup_active cfg"
  shows "fst (dedup_step hs cfg now (Check req sid) d) =
      fst (fst (check_key cfg now (cache_key sid (compute_content_hash hs req sid)) (req_stream req) d))"
    and "snd (dedup_step hs cfg now (Check req sid) d) =
      snd (check_key cfg now (cache_key sid (compute_content_hash hs req sid)) (req_stream req) d)"
  using assms by (simp_all add: dedup_active_def check_and_register_def Let_def case_prod_beta)

section \<open>What deduplication promises\<close>

text \<open>
  C26. Duplicates are blocked. Once a check has let a request through, every check of an identical request of the same session is
  answered with a duplicate until the time to live of requests in flight has passed, through any trace of other calls; and if
  the request is completed before that with anything but a retriable error, every such check is answered with a duplicate until the
  window after the completion has passed. The trace may name as many different requests as the cache holds.
\<close>

theorem duplicates_blocked_in_window:
  assumes "dedup_active cfg" and "d = snd (run_machine (dedup_step hs cfg) (mk_dedup t) es0)"
    and "key = cache_key sid (compute_content_hash hs req sid)" and "\<not> fst (dedup_step hs cfg t0 (Check req sid) d)"
    and "d1 = snd (run_machine (dedup_step hs cfg) d ((t0, Check req sid) # es1))"
    and "d2 = snd (run_machine (dedup_step hs cfg) d1 ((t1, Complete (compute_content_hash hs req sid) sid code disconnected) # es2))"
    and "\<forall>x \<in> set es1. fst x < t0 + in_flight_ttl_seconds cfg (req_stream req) \<and> completed_key (snd x) \<noteq> Some key"
    and "\<forall>x \<in> set es2. fst x < t1 + completed_ttl_seconds cfg (req_stream req) \<and> completed_key (snd x) \<noteq> Some key"
    and "card (seen_keys hs (es0 @ (t0, Check req sid) # es1 @ es2)) \<le> max_cache_size cfg"
    and "t1 < t0 + in_flight_ttl_seconds cfg (req_stream req)" and "t2 < t1 + completed_ttl_seconds cfg (req_stream req)"
  shows "fst (dedup_step hs cfg t1 (Check req sid) d1) \<and>
    (final_status code disconnected \<noteq> RETRIABLE_ERROR \<longrightarrow> fst (dedup_step hs cfg t2 (Check req sid) d2))"
proof -
  define U where "U = seen_keys hs (es0 @ (t0, Check req sid) # es1 @ es2)"
  have fin: "finite U" unfolding U_def by (rule seen_keys_bounds)
  have lim: "card U \<le> max_cache_size cfg" using assms(9) by (simp add: U_def)
  have sub: "seen_keys hs es0 \<subseteq> U" "seen_keys hs es1 \<subseteq> U" "seen_keys hs es2 \<subseteq> U" "key \<in> U"
    by (auto simp: U_def seen_keys_def assms(3))
  have ok: "dedup_ok cfg U d" unfolding assms(2) by (rule dedup_run_ok [OF mk_dedup_ok sub(1)])
  define d0 where "d0 = snd (check_key cfg t0 key (req_stream req) d)"
  have d1: "d1 = snd (run_machine (dedup_step hs cfg) d0 es1)"
    by (simp add: assms(5) d0_def assms(3) active_check(2) [OF assms(1)] del: dedup_step.simps)
  have tr0: "tracks d0 key IN_FLIGHT (t0 + in_flight_ttl_seconds cfg (req_stream req)) (req_stream req)"
    unfolding d0_def using assms(4) unfolding active_check [OF assms(1)] assms(3) by (rule registered)
  have ok0: "dedup_ok cfg U d0" unfolding d0_def by (rule check_key_ok [OF ok sub(4)])
  have ok1: "dedup_ok cfg U d1" unfolding d1 by (rule dedup_run_ok [OF ok0 sub(2)])
  have tr1: "tracks d1 key IN_FLIGHT (t0 + in_flight_ttl_seconds cfg (req_stream req)) (req_stream req)"
    unfolding d1 by (rule tracks_run [OF fin lim _ ok0 tr0 sub(2) assms(7)]) simp
  have first: "fst (dedup_step hs cfg t1 (Check req sid) d1)"
    using check_key_tracked(1) [OF ok1 fin lim tr1 assms(10)] unfolding active_check [OF assms(1)] assms(3) by simp
  define dc where "dc = complete_key cfg t1 key code disconnected d1"
  have d2: "d2 = snd (run_machine (dedup_step hs cfg) dc es2)"
    using assms(1) by (simp add: assms(6) dc_def mark_request_complete_def dedup_active_def assms(3))
  have "fst (dedup_step hs cfg t2 (Check req sid) d2)" if st: "final_status code disconnected \<noteq> RETRIABLE_ERROR"
  proof -
    have okc: "dedup_ok cfg U dc" unfolding dc_def by (rule complete_key_ok [OF ok1])
    have "tracks dc key (final_status code disconnected) (t1 + completed_ttl_seconds cfg (req_stream req)) (req_stream req)"
      unfolding dc_def by (rule completed [OF tr1])
    from tracks_run [OF fin lim st okc this sub(3) assms(8)]
    have tr2: "tracks d2 key (final_status code disconnected) (t1 + completed_ttl_seconds cfg (req_stream req)) (req_stream req)"
      by (simp add: d2)
    have "dedup_ok cfg U d2" unfolding d2 by (rule dedup_run_ok [OF okc sub(3)])
    from check_key_tracked(1) [OF this fin lim tr2 assms(11) st] show ?thesis
      unfolding active_check [OF assms(1)] assms(3) by simp
  qed
  with first show ?thesis by blast
qed

text \<open>No entry under a key blocks.\<close>

definition lets_pass :: "dedup \<Rightarrow> string \<Rightarrow> bool" where
  "lets_pass d key \<longleftrightarrow> (case map_of (cache d) key of None \<Rightarrow> True | Some tr \<Rightarrow> status tr = RETRIABLE_ERROR)"

lemma lets_pass_check:
  assumes "distinct (map fst (cache d))" "lets_pass d key"
  shows "\<not> fst (fst (check_key cfg now key streaming d))"
    and "key' \<noteq> key \<Longrightarrow> lets_pass (snd (check_key cfg now key' streaming d)) key"
proof -
  have clean: "lets_pass (maybe_cleanup cfg now d) key"
    using cleanup_only_removes(3) [OF assms(1), of cfg now key] assms(2) by (auto simp: lets_pass_def split: option.splits)
  then show "\<not> fst (fst (check_key cfg now key streaming d))"
    by (auto simp: check_key_def Let_def lets_pass_def split: option.splits)
  obtain tr where "cache (snd (check_key cfg now key' streaming d)) = AList.update key' tr (cache (maybe_cleanup cfg now d))"
    by (rule check_key_effect)
  then show "lets_pass (snd (check_key cfg now key' streaming d)) key" if "key' \<noteq> key"
    using that clean by (simp add: lets_pass_def update_conv')
qed

lemma lets_pass_step:
  assumes "dedup_ok cfg UNIV d" "lets_pass d key" "checked_key hs e \<noteq> Some key" "completed_key e \<noteq> Some key"
  shows "lets_pass (snd (dedup_step hs cfg now e d)) key"
proof -
  have d: "distinct (map fst (cache d))" using assms(1) by (simp add: dedup_ok_def)
  show ?thesis
  proof (cases e)
    case (Check req sid)
    with lets_pass_check(2) [OF d assms(2)] assms(2,3) show ?thesis
      by (simp add: check_and_register_def Let_def case_prod_beta)
  next
    case (Complete h sid code disconnected)
    with assms(2,4) show ?thesis
      by (auto simp: mark_request_complete_def complete_key_def lets_pass_def split: option.splits)
  next
    case Cleanup
    with assms(2) d show ?thesis
      by (cases "map_of (cache d) key") (simp_all add: cleanup_def Let_def lets_pass_def drop_expired_def map_of_filter_entries)
  qed
qed

text \<open>
  A retry after a retriable error is never blocked: when a request has been completed with such an error (429, 500, 502, 503, 504
  or 408), the next check of an identical request of the session is let through at any time, whatever is done for other requests
  in between.
\<close>

lemma retry_after_error_passes:
  assumes "dedup_active cfg" and "d = snd (run_machine (dedup_step hs cfg) (mk_dedup t) es0)"
    and "final_status code False = RETRIABLE_ERROR" and "key = cache_key sid (compute_content_hash hs req sid)"
    and "\<forall>x \<in> set es. checked_key hs (snd x) \<noteq> Some key \<and> completed_key (snd x) \<noteq> Some key"
    and "d' = snd (run_machine (dedup_step hs cfg) d ((t0, Complete (compute_content_hash hs req sid) sid code False) # es))"
  shows "\<not> fst (dedup_step hs cfg t1 (Check req sid) d')"
proof -
  have run: "dedup_ok cfg UNIV d'' \<Longrightarrow> lets_pass d'' key \<Longrightarrow>
      dedup_ok cfg UNIV (snd (run_machine (dedup_step hs cfg) d'' es)) \<and> lets_pass (snd (run_machine (dedup_step hs cfg) d'' es)) key" for d''
    using assms(5)
  proof (induction es arbitrary: d'')
    case (Cons x es)
    have "dedup_ok cfg UNIV (snd (dedup_step hs cfg (fst x) (snd x) d''))" using Cons.prems by (intro dedup_step_ok) auto
    moreover have "lets_pass (snd (dedup_step hs cfg (fst x) (snd x) d'')) key" using Cons.prems by (intro lets_pass_step) auto
    ultimately show ?case using Cons by simp
  qed simp
  define dc where "dc = complete_key cfg t0 key code False d"
  have "dedup_ok cfg UNIV d" unfolding assms(2) by (rule dedup_run_ok [OF mk_dedup_ok]) simp
  then have "dedup_ok cfg UNIV dc" unfolding dc_def by (rule complete_key_ok)
  moreover have "lets_pass dc key"
    using assms(3) by (auto simp: dc_def complete_key_def lets_pass_def split: option.splits)
  ultimately have ok: "dedup_ok cfg UNIV d'" "lets_pass d' key"
    using run [of dc] assms(1) by (simp_all add: assms(6) dc_def mark_request_complete_def dedup_active_def assms(4))
  then show ?thesis
    unfolding active_check [OF assms(1)] assms(4) by (intro lets_pass_check(1)) (simp_all add: dedup_ok_def)
qed

text \<open>
  The bounds of deduplication over every run: the cache holds at most one entry more than its size and a tenth of it, blocked requests
  and retries let through are part of the requests processed, and a blocked request is told to wait at least for the rest of the
  window and no longer than the window or one second.
\<close>

lemma dedup_bounds:
  assumes "d = snd (run_machine (dedup_step hs cfg) (mk_dedup t) es)"
  shows "real (length (cache d)) \<le> real (max_cache_size cfg) * 11 / 10 + 1 \<and>
    duplicates_blocked d + retries_after_error_allowed d \<le> requests_processed d \<and> dedup_rate d \<le> 1 \<and>
    (0 \<le> age \<and> compute_retry_after_seconds age w n = Some r \<longrightarrow> w - age \<le> r \<and> r \<le> max w 1)"
proof -
  have ok: "dedup_ok cfg UNIV d" unfolding assms by (rule dedup_run_ok [OF mk_dedup_ok]) simp
  then have "real (length (cache d)) \<le> real (max_cache_size cfg) * 11 / 10 + 1"
    and counts: "duplicates_blocked d + retries_after_error_allowed d \<le> requests_processed d"
    by (simp_all add: dedup_ok_def)
  moreover have "dedup_rate d \<le> 1" using counts by (auto simp: dedup_rate_def divide_le_eq_1)
  moreover have "w - age \<le> r \<and> r \<le> max w 1" if "0 \<le> age" "compute_retry_after_seconds age w n = Some r"
    using that by (auto simp: compute_retry_after_seconds_def Let_def max_def min_def split: if_splits)
  ultimately show ?thesis by blast
qed

end
