(* ===== verification/Dedup_Examples.thy ===== *)
theory Dedup_Examples
  imports Dedup_Theorems
begin

text \<open>The deduplication theorems for one request of a session, completed once with success and once with a rate limit.\<close>

definition chat :: dedup_request where
  "chat = \<lparr>req_model = ''gpt-4'', req_messages = [JStr ''hello''], req_tools = JNull, req_stream = False\<rparr>"

definition six_seconds :: dedup_config where
  "six_seconds = \<lparr>window_seconds = 6, streaming_window_seconds = None, streaming_in_flight_window_seconds = 600, dedup_enabled = True,
     max_cache_size = 10\<rparr>"

lemma six_seconds_facts:
  "dedup_active six_seconds" "in_flight_ttl_seconds six_seconds False = 6" "completed_ttl_seconds six_seconds False = 6"
  "req_stream chat = False" "max_cache_size six_seconds = 10"
  by (simp_all add: six_seconds_def dedup_active_def in_flight_ttl_seconds_def completed_ttl_seconds_def chat_def)

lemma empty_lets_pass: "\<not> fst (dedup_step hs six_seconds t (Check req sid) (mk_dedup t))"
  unfolding active_check [OF six_seconds_facts(1)]
  by (simp add: check_key_def Let_def maybe_cleanup_def mk_dedup_def six_seconds_def CLEANUP_INTERVAL_SECONDS_def)

theorem duplicates_blocked_in_window_witness:
  "\<forall>hs. let d1 = snd (run_machine (dedup_step hs six_seconds) (mk_dedup 0) [(0, Check chat ''s''), (1, Cleanup)]);
       d2 = snd (run_machine (dedup_step hs six_seconds) d1
         [(2, Complete (compute_content_hash hs chat ''s'') ''s'' (Some 200) False), (3, Check chat ''t'')]) in
     fst (dedup_step hs six_seconds 2 (Check chat ''s'') d1) \<and> fst (dedup_step hs six_seconds 4 (Check chat ''s'') d2)"
proof (intro allI)
  fix hs
  let ?es = "[] @ (0, Check chat ''s'') # [(1, Cleanup)] @ [(3, Check chat ''t'')]"
  have "card (seen_keys hs ?es) \<le> max_cache_size six_seconds"
    using seen_keys_bounds(2) [of hs ?es] by (simp add: six_seconds_facts)
  note blocked = duplicates_blocked_in_window [OF six_seconds_facts(1) _ refl _ refl refl _ _ this, where t = 0 and code = "Some 200" and disconnected = False and ?t1.0 = 2 and ?t2.0 = 4]
  show "let d1 = snd (run_machine (dedup_step hs six_seconds) (mk_dedup 0) [(0, Check chat ''s''), (1, Cleanup)]);
       d2 = snd (run_machine (dedup_step hs six_seconds) d1
         [(2, Complete (compute_content_hash hs chat ''s'') ''s'' (Some 200) False), (3, Check chat ''t'')]) in
     fst (dedup_step hs six_seconds 2 (Check chat ''s'') d1) \<and> fst (dedup_step hs six_seconds 4 (Check chat ''s'') d2)"
    using empty_lets_pass [of hs 0 chat "''s''"] blocked [of "mk_dedup 0"]
    by (simp add: six_seconds_facts final_status_def Let_def del: dedup_step.simps)
qed

theorem retry_after_error_passes_witness:
  "\<forall>hs. \<not> fst (dedup_step hs six_seconds 2 (Check chat ''s'')
     (snd (run_machine (dedup_step hs six_seconds)
        (snd (run_machine (dedup_step hs six_seconds) (mk_dedup 0) [(0, Check chat ''s'')]))
        [(1, Complete (compute_content_hash hs chat ''s'') ''s'' (Some 429) False)])))"
proof (intro allI)
  fix hs
  have "final_status (Some 429) False = RETRIABLE_ERROR" by (simp add: final_status_def)
  from retry_after_error_passes [OF six_seconds_facts(1) refl this refl _ refl, where es = "[]" and hs = hs and req = chat and sid = "''s''" and ?t1.0 = 2 and t = 0 and ?es0.0 = "[(0, Check chat ''s'')]" and ?t0.0 = 1]
  show "\<not> fst (dedup_step hs six_seconds 2 (Check chat ''s'')
     (snd (run_machine (dedup_step hs six_seconds)
        (snd (run_machine (dedup_step hs six_seconds) (mk_dedup 0) [(0, Check chat ''s'')]))
        [(1, Complete (compute_content_hash hs chat ''s'') ''s'' (Some 429) False)])))"
    by simp
qed

end
