(* ===== verification/Endpoint_Health.thy ===== *)
theory Endpoint_Health
  imports Py_Prelude Keyed_Machine
begin

text \<open>
  Endpoint health: the registry of API URLs and the backends that use them (\<^verbatim>\<open>src/core/services/health/endpoint_registry.py\<close>), the
  health state of a URL (\<^verbatim>\<open>src/core/domain/health/endpoint_health_state.py\<close>), and the manager that turns check results into
  state changes and events (\<^verbatim>\<open>src/core/services/health/state_manager.py\<close>). The parts of \<^verbatim>\<open>urllib.parse\<close> that the normalisation
  of URLs uses are modelled for ASCII text; that the text in brackets is an IP address is not checked. The locks make every
  operation atomic; the time is an argument and a handler returns the events it publishes.
\<close>

section \<open>URLs\<close>

datatype url_error = URL_ValueError string

text \<open>The parts before and after a separator, as \<^verbatim>\<open>str.partition\<close> and \<^verbatim>\<open>str.rpartition\<close> give them.\<close>

definition partition_at :: "char \<Rightarrow> string \<Rightarrow> string \<times> string" where
  "partition_at c s = (py_before c s, py_after c s)"

definition url_after_last :: "char \<Rightarrow> string \<Rightarrow> string" where
  "url_after_last c s = rev (takeWhile (\<lambda>x. x \<noteq> c) (rev s))"

definition ascii_alpha :: "char \<Rightarrow> bool" where
  "ascii_alpha c \<longleftrightarrow> (let n = (of_char c :: nat) in 65 \<le> n \<and> n \<le> 90 \<or> 97 \<le> n \<and> n \<le> 122)"

definition scheme_char :: "char \<Rightarrow> bool" where
  "scheme_char c \<longleftrightarrow> ascii_alpha c \<or> py_isdigit c \<or> c \<in> set ''+-.''"

definition split_scheme :: "string \<Rightarrow> string \<times> string" where
  "split_scheme url =
     (let pre = py_before (CHR '':'') url in
      if CHR '':'' \<in> set url \<and> pre \<noteq> [] \<and> ascii_alpha (hd pre) \<and> list_all scheme_char pre
      then (py_lower pre, py_after (CHR '':'') url) else ([], url))"

text \<open>The scheme, the network location and the path of \<^verbatim>\<open>urlparse\<close>.\<close>

definition uses_params :: "string list" where
  "uses_params = ['''', ''ftp'', ''hdl'', ''prospero'', ''http'', ''https'', ''shttp'', ''rtsp'', ''rtsps'', ''sip'', ''sips'', ''mms'', ''sftp'', ''tel'']"

definition split_params :: "string \<Rightarrow> string" where
  "split_params path =
     (let n = length path - length (url_after_last (CHR ''/'') path) in take n path @ py_before (CHR '';'') (drop n path))"

definition urlparse :: "string \<Rightarrow> url_error + string \<times> string \<times> string" where
  "urlparse url =
     (let clean = filter (\<lambda>c. c \<notin> {char_of (9 :: nat), char_of (10 :: nat), char_of (13 :: nat)})
            (dropWhile (\<lambda>c. (of_char c :: nat) \<le> 32) url);
          (scheme, rest) = split_scheme clean;
          netloc = (if take 2 rest = ''//'' then takeWhile (\<lambda>c. c \<notin> set ''/?#'') (drop 2 rest) else []);
          tail = (if take 2 rest = ''//'' then dropWhile (\<lambda>c. c \<notin> set ''/?#'') (drop 2 rest) else rest);
          path = py_before (CHR ''?'') (py_before (CHR ''#'') tail) in
      if (CHR ''['' \<in> set netloc) \<noteq> (CHR '']'' \<in> set netloc) then Inl (URL_ValueError ''Invalid IPv6 URL'')
      else Inr (scheme, netloc, if scheme \<in> set uses_params then split_params path else path))"

definition host_port :: "string \<Rightarrow> string \<times> string" where
  "host_port netloc =
     (let info = url_after_last (CHR ''@'') netloc in
      if CHR ''['' \<in> set info
      then (let (host, rest) = partition_at (CHR '']'') (py_after (CHR ''['') info) in (host, py_after (CHR '':'') rest))
      else partition_at (CHR '':'') info)"

definition parsed_port :: "string \<Rightarrow> url_error + nat option" where
  "parsed_port port =
     (if port = [] then Inr None
      else if \<not> all_digits port then Inl (URL_ValueError ''Port could not be cast to integer value'')
      else if digits_val port > 65535 then Inl (URL_ValueError ''Port out of range 0-65535'')
      else Inr (Some (digits_val port)))"

definition rstrip_slashes :: "string \<Rightarrow> string" where
  "rstrip_slashes s = rev (dropWhile (\<lambda>c. c = CHR ''/'') (rev s))"

definition normalize_url :: "string \<Rightarrow> url_error + string" where
  "normalize_url url =
     (if url = [] then Inr []
      else bind_res (urlparse url) (\<lambda>(scheme0, netloc0, path).
        let scheme = (if scheme0 = [] then ''https'' else py_lower scheme0);
            (host0, port0) = host_port netloc0;
            host = py_lower host0 in
        bind_res (parsed_port port0) (\<lambda>port.
          let default_port = (if scheme = ''https'' then 443 else 80);
              netloc = (case port of
                  None \<Rightarrow> host
                | Some p \<Rightarrow> if p \<noteq> 0 \<and> p \<noteq> default_port then host @ '':'' @ py_str_nat p else host) in
          Inr (scheme @ ''://'' @ netloc @ rstrip_slashes path))))"

section \<open>Health state\<close>

record EndpointHealthState =
  api_url :: string
  ping_check_success :: bool
  http_check_success :: bool
  last_ping_check_timestamp :: "real option"
  last_http_check_timestamp :: "real option"
  last_successful_ping_timestamp :: "real option"
  last_successful_http_timestamp :: "real option"
  last_ping_state_transition_timestamp :: "real option"
  last_http_state_transition_timestamp :: "real option"
  consecutive_ping_failures :: int
  consecutive_http_failures :: int
  last_ping_latency_ms :: "real option"
  last_http_latency_ms :: "real option"
  last_http_status_code :: "int option"
  last_ping_error :: "string option"
  last_http_error :: "string option"

definition new_health_state :: "string \<Rightarrow> EndpointHealthState" where
  "new_health_state url = \<lparr>api_url = url, ping_check_success = True, http_check_success = True,
     last_ping_check_timestamp = None, last_http_check_timestamp = None, last_successful_ping_timestamp = None,
     last_successful_http_timestamp = None, last_ping_state_transition_timestamp = None, last_http_state_transition_timestamp = None,
     consecutive_ping_failures = 0, consecutive_http_failures = 0, last_ping_latency_ms = None, last_http_latency_ms = None,
     last_http_status_code = None, last_ping_error = None, last_http_error = None\<rparr>"

definition is_healthy :: "EndpointHealthState \<Rightarrow> bool" where
  "is_healthy s \<longleftrightarrow> ping_check_success s \<and> http_check_success s"

definition record_ping_success :: "real \<Rightarrow> real \<Rightarrow> EndpointHealthState \<Rightarrow> bool \<times> EndpointHealthState" where
  "record_ping_success now latency s =
     (let s' = s\<lparr>last_ping_check_timestamp := Some now, last_successful_ping_timestamp := Some now,
                 last_ping_latency_ms := Some latency, consecutive_ping_failures := 0, last_ping_error := None\<rparr> in
      if \<not> ping_check_success s
      then (True, s'\<lparr>ping_check_success := True, last_ping_state_transition_timestamp := Some now\<rparr>) else (False, s'))"

definition record_ping_failure :: "real \<Rightarrow> string \<Rightarrow> int \<Rightarrow> EndpointHealthState \<Rightarrow> bool \<times> EndpointHealthState" where
  "record_ping_failure now err threshold s =
     (let s' = s\<lparr>last_ping_check_timestamp := Some now, consecutive_ping_failures := consecutive_ping_failures s + 1,
                 last_ping_error := Some err\<rparr> in
      if ping_check_success s \<and> consecutive_ping_failures s' \<ge> threshold
      then (True, s'\<lparr>ping_check_success := False, last_ping_state_transition_timestamp := Some now\<rparr>) else (False, s'))"

definition record_http_success :: "real \<Rightarrow> int \<Rightarrow> real \<Rightarrow> EndpointHealthState \<Rightarrow> bool \<times> EndpointHealthState" where
  "record_http_success now code latency s =
     (let s' = s\<lparr>last_http_check_timestamp := Some now, last_successful_http_timestamp := Some now,
                 last_http_latency_ms := Some latency, last_http_status_code := Some code, consecutive_http_failures := 0,
                 last_http_error := None\<rparr> in
      if \<not> http_check_success s
      then (True, s'\<lparr>http_check_success := True, last_http_state_transition_timestamp := Some now\<rparr>) else (False, s'))"

definition record_http_failure :: "real \<Rightarrow> string \<Rightarrow> int \<Rightarrow> EndpointHealthState \<Rightarrow> bool \<times> EndpointHealthState" where
  "record_http_failure now err threshold s =
     (let s' = s\<lparr>last_http_check_timestamp := Some now, consecutive_http_failures := consecutive_http_failures s + 1,
                 last_http_error := Some err\<rparr> in
      if http_check_success s \<and> consecutive_http_failures s' \<ge> threshold
      then (True, s'\<lparr>http_check_success := False, last_http_state_transition_timestamp := Some now\<rparr>) else (False, s'))"

section \<open>The registry\<close>

record endpoint_registry =
  url_to_backends :: "(string \<times> string list) list"
  backend_to_url :: "(string \<times> string) list"
  health_states :: "(string \<times> EndpointHealthState) list"

definition empty_registry :: endpoint_registry where
  "empty_registry = \<lparr>url_to_backends = [], backend_to_url = [], health_states = []\<rparr>"

definition backends_at :: "string \<Rightarrow> endpoint_registry \<Rightarrow> string list" where
  "backends_at url reg = (case map_of (url_to_backends reg) url of None \<Rightarrow> [] | Some bs \<Rightarrow> bs)"

text \<open>Taking a backend off a URL; a URL that is left without backends is dropped.\<close>

definition detach :: "string \<Rightarrow> string \<Rightarrow> endpoint_registry \<Rightarrow> endpoint_registry" where
  "detach url backend reg =
     (let bs = removeAll backend (backends_at url reg) in
      reg\<lparr>url_to_backends := (if bs = [] then AList.delete url (url_to_backends reg) else AList.update url bs (url_to_backends reg))\<rparr>)"

definition register_backend :: "string \<Rightarrow> string \<Rightarrow> endpoint_registry \<Rightarrow> url_error + (EndpointHealthState \<times> endpoint_registry)" where
  "register_backend backend url reg =
     bind_res (normalize_url url) (\<lambda>n.
       let reg1 = (case map_of (backend_to_url reg) backend of
               Some old \<Rightarrow> if old \<noteq> [] \<and> old \<noteq> n then detach old backend reg else reg
             | None \<Rightarrow> reg);
           reg2 = reg1\<lparr>backend_to_url := AList.update backend n (backend_to_url reg1),
                       url_to_backends := AList.update n (List.insert backend (backends_at n reg1)) (url_to_backends reg1)\<rparr>;
           reg3 = (if map_of (health_states reg2) n = None
                   then reg2\<lparr>health_states := AList.update n (new_health_state n) (health_states reg2)\<rparr> else reg2) in
       Inr (the (map_of (health_states reg3) n), reg3))"

definition unregister_backend :: "string \<Rightarrow> endpoint_registry \<Rightarrow> endpoint_registry" where
  "unregister_backend backend reg =
     (let reg1 = reg\<lparr>backend_to_url := AList.delete backend (backend_to_url reg)\<rparr> in
      case map_of (backend_to_url reg) backend of
        None \<Rightarrow> reg1
      | Some url \<Rightarrow>
          if url = [] then reg1
          else
            (let reg2 = detach url backend reg1 in
             if removeAll backend (backends_at url reg1) = []
             then reg2\<lparr>health_states := AList.delete url (health_states reg2)\<rparr> else reg2))"

definition get_all_urls :: "endpoint_registry \<Rightarrow> string list" where
  "get_all_urls reg = map fst (filter (\<lambda>p. snd p \<noteq> []) (url_to_backends reg))"

definition get_backends_for_url :: "string \<Rightarrow> endpoint_registry \<Rightarrow> url_error + string list" where
  "get_backends_for_url url reg = bind_res (normalize_url url) (\<lambda>n. Inr (backends_at n reg))"

definition get_url_for_backend :: "string \<Rightarrow> endpoint_registry \<Rightarrow> string option" where
  "get_url_for_backend backend reg = map_of (backend_to_url reg) backend"

definition get_health_state :: "string \<Rightarrow> endpoint_registry \<Rightarrow> url_error + EndpointHealthState option" where
  "get_health_state url reg = bind_res (normalize_url url) (\<lambda>n. Inr (map_of (health_states reg) n))"

definition is_url_healthy :: "string \<Rightarrow> endpoint_registry \<Rightarrow> url_error + bool" where
  "is_url_healthy url reg =
     bind_res (get_health_state url reg) (\<lambda>s. Inr (case s of None \<Rightarrow> True | Some st \<Rightarrow> is_healthy st))"

definition is_backend_healthy :: "string \<Rightarrow> endpoint_registry \<Rightarrow> url_error + bool" where
  "is_backend_healthy backend reg =
     (case get_url_for_backend backend reg of
        None \<Rightarrow> Inr True
      | Some url \<Rightarrow> if url = [] then Inr True else is_url_healthy url reg)"

section \<open>The state manager\<close>

datatype health_check =
    PingCheckSucceeded string real
  | PingCheckFailed string string
  | HttpCheckSucceeded string int real
  | HttpCheckFailed string string

datatype health_event =
    PingHealthStateTransition string bool bool int
  | HttpHealthStateTransition string bool bool int
  | EndpointHealthChanged string bool bool bool

record health_config =
  ping_failure_threshold :: int
  http_failure_threshold :: int

text \<open>The combined event, published after every transition of one of the two checks.\<close>

definition check_overall_health_change :: "string \<Rightarrow> EndpointHealthState \<Rightarrow> health_event" where
  "check_overall_health_change url s = EndpointHealthChanged url (is_healthy s) (ping_check_success s) (http_check_success s)"

text \<open>Changing the health state of a URL in place; a URL that is not registered is ignored.\<close>

definition handle_check ::
  "string \<Rightarrow> (EndpointHealthState \<Rightarrow> bool \<times> EndpointHealthState) \<Rightarrow> (EndpointHealthState \<Rightarrow> EndpointHealthState \<Rightarrow> health_event) \<Rightarrow>
   endpoint_registry \<Rightarrow> url_error + (health_event list \<times> endpoint_registry)" where
  "handle_check url f transition reg =
     bind_res (normalize_url url) (\<lambda>n.
       case map_of (health_states reg) n of
         None \<Rightarrow> Inr ([], reg)
       | Some s \<Rightarrow>
           (let (transitioned, s') = f s in
            Inr (if transitioned then [transition s s', check_overall_health_change url s'] else [],
                 reg\<lparr>health_states := AList.update n s' (health_states reg)\<rparr>)))"

fun handle_event :: "health_config \<Rightarrow> real \<Rightarrow> health_check \<Rightarrow> endpoint_registry \<Rightarrow> url_error + (health_event list \<times> endpoint_registry)" where
  "handle_event cfg now (PingCheckSucceeded url latency) reg =
     handle_check url (record_ping_success now latency)
       (\<lambda>s s'. PingHealthStateTransition url (ping_check_success s) True 0) reg"
| "handle_event cfg now (PingCheckFailed url err) reg =
     handle_check url (record_ping_failure now err (ping_failure_threshold cfg))
       (\<lambda>s s'. PingHealthStateTransition url (ping_check_success s) False (consecutive_ping_failures s')) reg"
| "handle_event cfg now (HttpCheckSucceeded url code latency) reg =
     handle_check url (record_http_success now code latency)
       (\<lambda>s s'. HttpHealthStateTransition url (http_check_success s) True 0) reg"
| "handle_event cfg now (HttpCheckFailed url err) reg =
     handle_check url (record_http_failure now err (http_failure_threshold cfg))
       (\<lambda>s s'. HttpHealthStateTransition url (http_check_success s) False (consecutive_http_failures s')) reg"

end
