(* ===== verification/Health_Theorems.thy ===== *)
theory Health_Theorems
  imports Endpoint_Health Resilience_Theorems
begin

text \<open>
  What endpoint health promises: the two directions of the registry agree, a URL whose checks keep failing makes its backends
  unhealthy until a check succeeds, and the resilience coordinator then rejects their requests.
\<close>

datatype health_call = Register string string | Unregister string | CheckResult health_check

text \<open>A call that raises changes nothing.\<close>

fun health_step :: "health_config \<Rightarrow> real \<Rightarrow> health_call \<Rightarrow> endpoint_registry \<Rightarrow> health_event list \<times> endpoint_registry" where
  "health_step cfg now (Register b url) reg = (case register_backend b url reg of Inl _ \<Rightarrow> ([], reg) | Inr r \<Rightarrow> ([], snd r))"
| "health_step cfg now (Unregister b) reg = ([], unregister_backend b reg)"
| "health_step cfg now (CheckResult c) reg = (case handle_event cfg now c reg of Inl _ \<Rightarrow> ([], reg) | Inr r \<Rightarrow> r)"

section \<open>The registry\<close>

definition registry_ok :: "endpoint_registry \<Rightarrow> bool" where
  "registry_ok reg \<longleftrightarrow>
     (\<forall>b u. u \<noteq> [] \<longrightarrow> map_of (backend_to_url reg) b = Some u \<longleftrightarrow> b \<in> set (backends_at u reg)) \<and>
     (\<forall>u. backends_at u reg \<noteq> [] \<longrightarrow> map_of (health_states reg) u \<noteq> None)"

lemma registered_at: "registry_ok reg \<Longrightarrow> u \<noteq> [] \<Longrightarrow> b \<in> set (backends_at u reg) \<longleftrightarrow> map_of (backend_to_url reg) b = Some u"
  by (simp add: registry_ok_def)

lemma registered_state: "registry_ok reg \<Longrightarrow> backends_at u reg \<noteq> [] \<Longrightarrow> map_of (health_states reg) u \<noteq> None"
  by (simp add: registry_ok_def)

lemma registry_okI:
  "(\<And>b u. u \<noteq> [] \<Longrightarrow> b \<in> set (backends_at u reg) \<longleftrightarrow> map_of (backend_to_url reg) b = Some u) \<Longrightarrow>
   (\<And>u. backends_at u reg \<noteq> [] \<Longrightarrow> map_of (health_states reg) u \<noteq> None) \<Longrightarrow> registry_ok reg"
  by (simp add: registry_ok_def)

lemma backends_at_detach:
  "backends_at u (detach url b reg) = (if u = url then removeAll b (backends_at u reg) else backends_at u reg)"
  by (simp add: backends_at_def detach_def Let_def update_conv' map_of_AList_delete)

lemma detach_sel [simp]:
  "backend_to_url (detach url b reg) = backend_to_url reg" "health_states (detach url b reg) = health_states reg"
  by (simp_all add: detach_def Let_def)

lemma registry_ok_register:
  assumes "registry_ok reg" "register_backend b url reg = Inr (s, reg')"
  shows "registry_ok reg'"
proof -
  obtain n where n: "normalize_url url = Inr n"
    using assms(2) by (cases "normalize_url url") (auto simp: register_backend_def bind_res_def)
  define reg1 where "reg1 = (case map_of (backend_to_url reg) b of
      Some old \<Rightarrow> if old \<noteq> [] \<and> old \<noteq> n then detach old b reg else reg | None \<Rightarrow> reg)"
  have r1: "backend_to_url reg1 = backend_to_url reg" "health_states reg1 = health_states reg"
    by (auto simp: reg1_def split: option.splits)
  have off: "b \<notin> set (backends_at u reg1)" if "u \<noteq> []" "u \<noteq> n" for u
    using that by (auto simp: reg1_def backends_at_detach registered_at [OF assms(1)] split: option.splits)
  have same: "b' \<in> set (backends_at u reg1) \<longleftrightarrow> b' \<in> set (backends_at u reg)" if "b' \<noteq> b" for b' u
    using that by (auto simp: reg1_def backends_at_detach split: option.splits)
  have less: "backends_at u reg1 \<noteq> [] \<Longrightarrow> backends_at u reg \<noteq> []" for u
    by (auto simp: reg1_def backends_at_detach split: option.splits if_splits)
  define reg2 where "reg2 = reg1\<lparr>backend_to_url := AList.update b n (backend_to_url reg1),
      url_to_backends := AList.update n (List.insert b (backends_at n reg1)) (url_to_backends reg1)\<rparr>"
  have e: "reg' = (if map_of (health_states reg2) n = None
      then reg2\<lparr>health_states := AList.update n (new_health_state n) (health_states reg2)\<rparr> else reg2)"
    using assms(2) unfolding register_backend_def n bind_res_def sum.case Let_def reg1_def [symmetric] reg2_def [symmetric] by simp
  have r': "backend_to_url reg' = AList.update b n (backend_to_url reg)"
    "backends_at u reg' = (if u = n then List.insert b (backends_at n reg1) else backends_at u reg1)"
    "map_of (health_states reg') u = (if u = n \<and> map_of (health_states reg) n = None then Some (new_health_state n) else map_of (health_states reg) u)" for u
    by (auto simp: e reg2_def r1 backends_at_def update_conv')
  show ?thesis
  proof (rule registry_okI)
    fix b' u
    assume u: "u \<noteq> ([] :: string)"
    show "b' \<in> set (backends_at u reg') \<longleftrightarrow> map_of (backend_to_url reg') b' = Some u"
    proof (cases "b' = b")
      case True
      with off [OF u] show ?thesis by (auto simp: r' update_conv')
    next
      case False
      with same [OF False] registered_at [OF assms(1) u] show ?thesis by (auto simp: r' update_conv')
    qed
  next
    fix u
    assume "backends_at u reg' \<noteq> []"
    with less [of u] registered_state [OF assms(1), of u] show "map_of (health_states reg') u \<noteq> None"
      by (auto simp: r' split: if_splits)
  qed
qed

lemma backends_at_simps [simp]:
  "backends_at u (reg\<lparr>backend_to_url := x\<rparr>) = backends_at u reg" "backends_at u (reg\<lparr>health_states := y\<rparr>) = backends_at u reg"
  by (simp_all add: backends_at_def)

lemma registry_ok_unregister:
  assumes "registry_ok reg"
  shows "registry_ok (unregister_backend b reg)"
proof (cases "map_of (backend_to_url reg) b = None \<or> map_of (backend_to_url reg) b = Some []")
  case True
  then have "unregister_backend b reg = reg\<lparr>backend_to_url := AList.delete b (backend_to_url reg)\<rparr>"
    by (auto simp: unregister_backend_def)
  moreover have "map_of (backend_to_url reg) b \<noteq> Some u" if "u \<noteq> []" for u using True that by auto
  ultimately show ?thesis
    by (intro registry_okI) (auto simp: registered_at [OF assms] registered_state [OF assms] map_of_AList_delete)
next
  case False
  then obtain url where url: "map_of (backend_to_url reg) b = Some url" "url \<noteq> []" by auto
  let ?reg = "unregister_backend b reg"
  have at: "backends_at u ?reg = (if u = url then removeAll b (backends_at u reg) else backends_at u reg)" for u
    using url by (simp add: unregister_backend_def Let_def backends_at_detach)
  have to: "map_of (backend_to_url ?reg) = (map_of (backend_to_url reg))(b := None)"
    using url by (simp add: unregister_backend_def Let_def map_of_AList_delete)
  have hs: "map_of (health_states ?reg) u = (if u = url \<and> removeAll b (backends_at url reg) = [] then None else map_of (health_states reg) u)" for u
    using url by (simp add: unregister_backend_def Let_def map_of_AList_delete)
  show ?thesis
  proof (rule registry_okI)
    show "b' \<in> set (backends_at u ?reg) \<longleftrightarrow> map_of (backend_to_url ?reg) b' = Some u" if "u \<noteq> []" for b' u
      using url registered_at [OF assms that] by (auto simp: at to)
    show "map_of (health_states ?reg) u \<noteq> None" if "backends_at u ?reg \<noteq> []" for u
    proof -
      have "backends_at u reg \<noteq> []" using that by (auto simp: at split: if_splits)
      with registered_state [OF assms, of u] that show ?thesis by (auto simp: at hs split: if_splits)
    qed
  qed
qed

lemma handle_check_sel:
  assumes "handle_check url f tr reg = Inr (evs, reg')"
  shows "backend_to_url reg' = backend_to_url reg" "url_to_backends reg' = url_to_backends reg"
    "map_of (health_states reg') u = None \<longleftrightarrow> map_of (health_states reg) u = None"
  using assms by (auto simp: handle_check_def bind_res_def update_conv' split: sum.splits option.splits prod.splits if_splits)

lemma handle_event_check: "\<exists>url f tr. handle_event cfg now c reg = handle_check url f tr reg"
  by (cases c) auto

lemma registry_ok_handle:
  assumes "registry_ok reg" "handle_event cfg now c reg = Inr (evs, reg')"
  shows "registry_ok reg'"
proof -
  obtain url f tr where "handle_check url f tr reg = Inr (evs, reg')"
    using handle_event_check [of cfg now c reg] assms(2) by auto
  note sel = handle_check_sel [OF this]
  have "backends_at u reg' = backends_at u reg" for u by (simp add: backends_at_def sel)
  with assms(1) sel show ?thesis by (simp add: registry_ok_def)
qed

lemma health_step_ok: "registry_ok reg \<Longrightarrow> registry_ok (snd (health_step cfg now c reg))"
proof (cases c)
  case (Register b url)
  assume "registry_ok reg"
  with Register registry_ok_register [of reg b url] show ?thesis by (auto split: sum.splits)
next
  case (CheckResult e)
  assume "registry_ok reg"
  with CheckResult registry_ok_handle [of reg cfg now e] show ?thesis by (auto split: sum.splits)
qed (simp add: registry_ok_unregister)

interpretation reg: machine_invariant "health_step cfg" registry_ok for cfg
  by unfold_locales (rule health_step_ok)

text \<open>
  The two directions of the endpoint registry agree after any sequence of registrations, removals and check results: a backend is
  mapped to a URL exactly when it is among the backends of that URL, and every URL with a backend has a health state.
\<close>

lemma registry_consistent:
  "(u \<noteq> [] \<longrightarrow> (get_url_for_backend b (snd (run_machine (health_step cfg) empty_registry es)) = Some u \<longleftrightarrow>
      b \<in> set (backends_at u (snd (run_machine (health_step cfg) empty_registry es))))) \<and>
   (backends_at u (snd (run_machine (health_step cfg) empty_registry es)) \<noteq> [] \<longrightarrow>
      map_of (health_states (snd (run_machine (health_step cfg) empty_registry es))) u \<noteq> None)"
proof -
  have "registry_ok empty_registry" by (simp add: registry_ok_def empty_registry_def backends_at_def)
  from reg.inv_run [OF this, of cfg es] show ?thesis
    by (simp add: registered_at get_url_for_backend_def registered_state)
qed

section \<open>Failing checks\<close>

fun ping_failed_at :: "string \<Rightarrow> health_call \<Rightarrow> bool" where
  "ping_failed_at n (CheckResult (PingCheckFailed url err)) = (normalize_url url = Inr n)"
| "ping_failed_at n _ = False"

fun ping_succeeded_at :: "string \<Rightarrow> health_call \<Rightarrow> bool" where
  "ping_succeeded_at n (CheckResult (PingCheckSucceeded url latency)) = (normalize_url url = Inr n)"
| "ping_succeeded_at n _ = False"

fun http_failed_at :: "string \<Rightarrow> health_call \<Rightarrow> bool" where
  "http_failed_at n (CheckResult (HttpCheckFailed url err)) = (normalize_url url = Inr n)"
| "http_failed_at n _ = False"

fun http_succeeded_at :: "string \<Rightarrow> health_call \<Rightarrow> bool" where
  "http_succeeded_at n (CheckResult (HttpCheckSucceeded url code latency)) = (normalize_url url = Inr n)"
| "http_succeeded_at n _ = False"

fun unregisters :: "health_call \<Rightarrow> bool" where
  "unregisters (Unregister b) = True"
| "unregisters _ = False"

text \<open>A check that still counts as passing has failed fewer times in a row than its threshold.\<close>

definition below_threshold :: "health_config \<Rightarrow> EndpointHealthState \<Rightarrow> bool" where
  "below_threshold cfg s \<longleftrightarrow> (ping_check_success s \<longrightarrow> consecutive_ping_failures s < ping_failure_threshold cfg) \<and>
     (http_check_success s \<longrightarrow> consecutive_http_failures s < http_failure_threshold cfg) \<and>
     0 \<le> consecutive_ping_failures s \<and> 0 \<le> consecutive_http_failures s"

definition thresholds_positive :: "health_config \<Rightarrow> bool" where
  "thresholds_positive cfg \<longleftrightarrow> 1 \<le> ping_failure_threshold cfg \<and> 1 \<le> http_failure_threshold cfg"

lemmas record_defs = record_ping_success_def record_ping_failure_def record_http_success_def record_http_failure_def Let_def

lemma below_threshold_records:
  assumes "thresholds_positive cfg"
  shows "below_threshold cfg (new_health_state u)"
    "below_threshold cfg s \<Longrightarrow> below_threshold cfg (snd (record_ping_success now lat s))"
    "below_threshold cfg s \<Longrightarrow> below_threshold cfg (snd (record_ping_failure now err (ping_failure_threshold cfg) s))"
    "below_threshold cfg s \<Longrightarrow> below_threshold cfg (snd (record_http_success now code lat s))"
    "below_threshold cfg s \<Longrightarrow> below_threshold cfg (snd (record_http_failure now err (http_failure_threshold cfg) s))"
  using assms by (auto simp: below_threshold_def thresholds_positive_def new_health_state_def record_defs)

text \<open>What a step does with the health state of a URL: the check results of that URL change it, a registration may create it.\<close>

definition state_at :: "endpoint_registry \<Rightarrow> string \<Rightarrow> EndpointHealthState option" where
  "state_at reg n = map_of (health_states reg) n"

lemma state_at_check:
  assumes "handle_check url f tr reg = Inr (evs, reg')"
  shows "state_at reg' n = (if normalize_url url = Inr n then map_option (\<lambda>s. snd (f s)) (state_at reg n) else state_at reg n)"
  using assms by (auto simp: handle_check_def bind_res_def state_at_def update_conv' case_prod_beta split: sum.splits option.splits)

lemma state_at_register:
  "state_at (snd (health_step cfg now (Register b url) reg)) n =
    (if normalize_url url = Inr n \<and> state_at reg n = None then Some (new_health_state n) else state_at reg n)"
proof (cases "normalize_url url")
  case (Inl e)
  then show ?thesis by (simp add: register_backend_def bind_res_def)
next
  case (Inr u)
  have "health_states (case x of Some old \<Rightarrow> if old \<noteq> [] \<and> old \<noteq> u then detach old b reg else reg | None \<Rightarrow> reg) = health_states reg" for x
    by (auto split: option.splits)
  then show ?thesis using Inr by (simp add: register_backend_def bind_res_def Let_def state_at_def update_conv')
qed

lemma handle_check_cases:
  obtains evs reg' where "handle_check url f tr reg = Inr (evs, reg')" | e where "handle_check url f tr reg = Inl e" "normalize_url url = Inl e"
proof (cases "handle_check url f tr reg")
  case (Inl e)
  then have "normalize_url url = Inl e"
    by (auto simp: handle_check_def bind_res_def Let_def split: sum.splits option.splits prod.splits)
  with Inl that(2) show thesis by blast
next
  case (Inr r)
  with that(1) show thesis by (cases r) blast
qed

lemma handle_check_normal: "normalize_url url = Inr n \<Longrightarrow> \<exists>evs reg'. handle_check url f tr reg = Inr (evs, reg')"
  by (rule handle_check_cases [of url f tr reg]) auto

lemma state_at_result:
  "state_at (snd (health_step cfg now (CheckResult c) reg)) n =
    (case c of
       PingCheckSucceeded url lat \<Rightarrow> if normalize_url url = Inr n then map_option (\<lambda>s. snd (record_ping_success now lat s)) (state_at reg n) else state_at reg n
     | PingCheckFailed url err \<Rightarrow> if normalize_url url = Inr n then map_option (\<lambda>s. snd (record_ping_failure now err (ping_failure_threshold cfg) s)) (state_at reg n) else state_at reg n
     | HttpCheckSucceeded url code lat \<Rightarrow> if normalize_url url = Inr n then map_option (\<lambda>s. snd (record_http_success now code lat s)) (state_at reg n) else state_at reg n
     | HttpCheckFailed url err \<Rightarrow> if normalize_url url = Inr n then map_option (\<lambda>s. snd (record_http_failure now err (http_failure_threshold cfg) s)) (state_at reg n) else state_at reg n)"
proof -
  have *: "state_at (snd (case handle_check url f tr reg of Inl _ \<Rightarrow> ([], reg) | Inr r \<Rightarrow> r)) n =
      (if normalize_url url = Inr n then map_option (\<lambda>s. snd (f s)) (state_at reg n) else state_at reg n)" for url f tr
    by (rule handle_check_cases [of url f tr reg]) (auto simp: state_at_check)
  show ?thesis by (cases c) (simp_all add: *)
qed

text \<open>A URL that stays registered keeps a state; without a success its failures add up.\<close>

definition failing :: "health_config \<Rightarrow> string \<Rightarrow> int \<Rightarrow> int \<Rightarrow> endpoint_registry \<Rightarrow> bool" where
  "failing cfg n p h reg \<longleftrightarrow> (case state_at reg n of None \<Rightarrow> False
     | Some s \<Rightarrow> below_threshold cfg s \<and> p \<le> consecutive_ping_failures s \<and> h \<le> consecutive_http_failures s)"

lemma failing_step:
  assumes "thresholds_positive cfg" "failing cfg n p h reg" "\<not> unregisters c" "0 < p \<longrightarrow> \<not> ping_succeeded_at n c" "0 < h \<longrightarrow> \<not> http_succeeded_at n c"
  shows "failing cfg n (if ping_failed_at n c then p + 1 else p) (if http_failed_at n c then h + 1 else h) (snd (health_step cfg now c reg))"
proof -
  obtain s where s: "state_at reg n = Some s" "below_threshold cfg s" "p \<le> consecutive_ping_failures s" "h \<le> consecutive_http_failures s"
    using assms(2) by (auto simp: failing_def split: option.splits)
  note below = below_threshold_records(2-) [OF assms(1) s(2)]
  show ?thesis
  proof (cases c)
    case (Register b url)
    with s show ?thesis unfolding failing_def state_at_register Register by simp
  next
    case (CheckResult e)
    show ?thesis
    proof (cases e)
      case (PingCheckSucceeded url lat)
      with CheckResult s assms(4) below(1) show ?thesis unfolding failing_def CheckResult state_at_result
        by (auto simp: record_ping_success_def Let_def)
    next
      case (PingCheckFailed url err)
      with CheckResult s below(2) show ?thesis unfolding failing_def CheckResult state_at_result
        by (auto simp: record_ping_failure_def Let_def)
    next
      case (HttpCheckSucceeded url code lat)
      with CheckResult s assms(5) below(3) show ?thesis unfolding failing_def CheckResult state_at_result
        by (auto simp: record_http_success_def Let_def)
    next
      case (HttpCheckFailed url err)
      with CheckResult s below(4) show ?thesis unfolding failing_def CheckResult state_at_result
        by (auto simp: record_http_failure_def Let_def)
    qed
  qed (use assms(3) in simp)
qed

lemma failing_mono: "failing cfg n p h reg \<Longrightarrow> p' \<le> p \<Longrightarrow> h' \<le> h \<Longrightarrow> failing cfg n p' h' reg"
  by (auto simp: failing_def split: option.splits)

lemma failing_run_ping:
  assumes "thresholds_positive cfg"
  shows "failing cfg n p 0 reg \<Longrightarrow> 0 \<le> p \<Longrightarrow> list_all (\<lambda>x. \<not> unregisters (snd x) \<and> \<not> ping_succeeded_at n (snd x)) es \<Longrightarrow>
    failing cfg n (p + int (length (filter (\<lambda>x. ping_failed_at n (snd x)) es))) 0 (snd (run_machine (health_step cfg) reg es))"
proof (induction es arbitrary: reg p)
  case (Cons x es)
  have "failing cfg n (if ping_failed_at n (snd x) then p + 1 else p) 0 (snd (health_step cfg (fst x) (snd x) reg))"
    using failing_step [OF assms Cons.prems(1), of "snd x" "fst x"] Cons.prems(3) by (auto elim: failing_mono split: if_splits)
  from Cons.IH [OF this] Cons.prems(2,3) show ?case by (cases "ping_failed_at n (snd x)") (simp_all add: algebra_simps)
qed simp

lemma failing_run_http:
  assumes "thresholds_positive cfg"
  shows "failing cfg n 0 h reg \<Longrightarrow> 0 \<le> h \<Longrightarrow> list_all (\<lambda>x. \<not> unregisters (snd x) \<and> \<not> http_succeeded_at n (snd x)) es \<Longrightarrow>
    failing cfg n 0 (h + int (length (filter (\<lambda>x. http_failed_at n (snd x)) es))) (snd (run_machine (health_step cfg) reg es))"
proof (induction es arbitrary: reg h)
  case (Cons x es)
  have "failing cfg n 0 (if http_failed_at n (snd x) then h + 1 else h) (snd (health_step cfg (fst x) (snd x) reg))"
    using failing_step [OF assms Cons.prems(1), of "snd x" "fst x"] Cons.prems(3) by (auto elim: failing_mono split: if_splits)
  from Cons.IH [OF this] Cons.prems(2,3) show ?case by (cases "http_failed_at n (snd x)") (simp_all add: algebra_simps)
qed simp

definition states_below :: "health_config \<Rightarrow> endpoint_registry \<Rightarrow> bool" where
  "states_below cfg reg \<longleftrightarrow> (\<forall>n s. state_at reg n = Some s \<longrightarrow> below_threshold cfg s)"

lemma states_below_step:
  assumes "thresholds_positive cfg" "states_below cfg reg"
  shows "states_below cfg (snd (health_step cfg now c reg))"
proof -
  have "below_threshold cfg s" if s: "state_at (snd (health_step cfg now c reg)) n = Some s" for n s
  proof (cases c)
    case (Register b url)
    with s assms show ?thesis unfolding Register state_at_register
      by (auto simp: states_below_def below_threshold_records(1) split: if_splits)
  next
    case (Unregister b)
    have "state_at (unregister_backend b reg) n = Some s \<Longrightarrow> state_at reg n = Some s"
      by (auto simp: unregister_backend_def Let_def state_at_def map_of_AList_delete split: option.splits if_splits)
    with s Unregister assms(2) show ?thesis by (simp add: states_below_def)
  next
    case (CheckResult e)
    from s [unfolded CheckResult state_at_result] assms(2) show ?thesis
      by (cases e) (auto simp: states_below_def below_threshold_records [OF assms(1)] split: if_splits)
  qed
  then show ?thesis by (simp add: states_below_def)
qed

lemma states_below_run:
  "thresholds_positive cfg \<Longrightarrow> states_below cfg reg \<Longrightarrow> states_below cfg (snd (run_machine (health_step cfg) reg es))"
  by (induction es arbitrary: reg) (simp_all add: states_below_step)

lemma failing_unhealthy:
  assumes "failing cfg n p h reg" "ping_failure_threshold cfg \<le> p \<or> http_failure_threshold cfg \<le> h"
    and "get_url_for_backend b reg = Some n" "n \<noteq> []" "normalize_url n = Inr n"
  shows "is_backend_healthy b reg = Inr False"
proof -
  obtain s where s: "state_at reg n = Some s" "below_threshold cfg s" "p \<le> consecutive_ping_failures s" "h \<le> consecutive_http_failures s"
    using assms(1) by (auto simp: failing_def split: option.splits)
  then have "\<not> is_healthy s" using assms(2) by (auto simp: below_threshold_def is_healthy_def)
  with s assms(3-) show ?thesis
    by (simp add: is_backend_healthy_def is_url_healthy_def get_health_state_def bind_res_def state_at_def)
qed

text \<open>
  C27. A failing endpoint is taken out of service. Take a registry after any calls and a URL that has a health state. If then as many ping
  checks of the URL fail as the threshold says and none succeeds, or the same for HTTP checks, in any order with registrations and
  with other checks, but with no unregistration of any backend, every backend that is registered with the URL is unhealthy; and a coordinator whose health gate asks this registry rejects every
  request to such a backend. The URL is one that the registry's normalisation leaves unchanged. (The gate is off by default.)
\<close>

theorem failing_endpoint_rejected:
  assumes "thresholds_positive cfg" and "reg = snd (run_machine (health_step cfg) empty_registry es0)"
    and "map_of (health_states reg) n = Some s" and "list_all (\<lambda>x. \<not> unregisters (snd x)) es"
    and "(list_all (\<lambda>x. \<not> ping_succeeded_at n (snd x)) es \<and>
        ping_failure_threshold cfg \<le> int (length (filter (\<lambda>x. ping_failed_at n (snd x)) es))) \<or>
      (list_all (\<lambda>x. \<not> http_succeeded_at n (snd x)) es \<and>
        http_failure_threshold cfg \<le> int (length (filter (\<lambda>x. http_failed_at n (snd x)) es)))"
    and "reg' = snd (run_machine (health_step cfg) reg es)" and "n \<noteq> []" and "normalize_url n = Inr n"
    and "get_url_for_backend (py_before (CHR '':'') i) reg' = Some n"
    and "rs_healthy R = Some h" and "is_backend_healthy (py_before (CHR '':'') i) reg' = Inr (h (py_before (CHR '':'') i))"
  shows "is_backend_healthy (py_before (CHR '':'') i) reg' = Inr False \<and>
    fst (check_availability R now i mdl st) = reject ''endpoint_unhealthy'' None i mdl"
proof -
  have "states_below cfg empty_registry" by (simp add: states_below_def state_at_def empty_registry_def)
  then have "states_below cfg reg" unfolding assms(2) by (rule states_below_run [OF assms(1)])
  then have start: "failing cfg n 0 0 reg"
    using assms(3) by (simp add: failing_def state_at_def states_below_def below_threshold_def)
  from assms(5) have "\<exists>p h. failing cfg n p h reg' \<and> (ping_failure_threshold cfg \<le> p \<or> http_failure_threshold cfg \<le> h)"
  proof
    assume "list_all (\<lambda>x. \<not> ping_succeeded_at n (snd x)) es \<and>
        ping_failure_threshold cfg \<le> int (length (filter (\<lambda>x. ping_failed_at n (snd x)) es))"
    with failing_run_ping [OF assms(1) start, of es] assms(4) show ?thesis
      unfolding assms(6) by (auto simp: list_all_iff)
  next
    assume "list_all (\<lambda>x. \<not> http_succeeded_at n (snd x)) es \<and>
        http_failure_threshold cfg \<le> int (length (filter (\<lambda>x. http_failed_at n (snd x)) es))"
    with failing_run_http [OF assms(1) start, of es] assms(4) show ?thesis
      unfolding assms(6) by (auto simp: list_all_iff)
  qed
  then have bad: "is_backend_healthy (py_before (CHR '':'') i) reg' = Inr False"
    using failing_unhealthy assms(7-9) by blast
  with assms(10,11) show ?thesis by (simp add: check_availability_def)
qed

section \<open>Events\<close>

text \<open>
  The manager publishes events exactly for transitions: a check result of a registered URL leads to events if and only if it flips one
  of the two flags of the URL, and the last event then tells the new overall health and both flags. In particular the combined event is
  published although the overall health may not have changed.
\<close>

lemma health_events_exact:
  assumes "handle_event cfg now c reg = Inr (evs, reg')" and "state_at reg n = Some s" and "state_at reg' n = Some s'"
    and "normalize_url url = Inr n"
    and "c = PingCheckSucceeded url lat \<or> c = PingCheckFailed url err \<or> c = HttpCheckSucceeded url code lat \<or> c = HttpCheckFailed url err"
  shows "(evs = [] \<longleftrightarrow> ping_check_success s' = ping_check_success s \<and> http_check_success s' = http_check_success s) \<and>
    (evs \<noteq> [] \<longrightarrow> last evs = EndpointHealthChanged url (is_healthy s') (ping_check_success s') (http_check_success s'))"
  using assms(5)
proof (elim disjE)
  assume "c = PingCheckSucceeded url lat"
  with assms(1-4) show ?thesis
    by (auto simp: handle_check_def bind_res_def state_at_def update_conv' check_overall_health_change_def record_ping_success_def Let_def split: if_splits)
next
  assume "c = PingCheckFailed url err"
  with assms(1-4) show ?thesis
    by (auto simp: handle_check_def bind_res_def state_at_def update_conv' check_overall_health_change_def record_ping_failure_def Let_def split: if_splits)
next
  assume "c = HttpCheckSucceeded url code lat"
  with assms(1-4) show ?thesis
    by (auto simp: handle_check_def bind_res_def state_at_def update_conv' check_overall_health_change_def record_http_success_def Let_def split: if_splits)
next
  assume "c = HttpCheckFailed url err"
  with assms(1-4) show ?thesis
    by (auto simp: handle_check_def bind_res_def state_at_def update_conv' check_overall_health_change_def record_http_failure_def Let_def split: if_splits)
qed

text \<open>When the second check of an unhealthy URL fails as well, the combined event repeats that the URL is unhealthy.\<close>

lemma unhealthy_published_again:
  assumes "state_at reg n = Some s" "normalize_url url = Inr n" "\<not> ping_check_success s" "http_check_success s"
    and "http_failure_threshold cfg \<le> consecutive_http_failures s + 1"
  shows "\<not> is_healthy s \<and>
    (\<exists>ev reg'. handle_event cfg now (HttpCheckFailed url err) reg = Inr ([ev, EndpointHealthChanged url False False False], reg'))"
  using assms by (simp add: handle_check_def bind_res_def state_at_def record_http_failure_def Let_def
      check_overall_health_change_def is_healthy_def)

text \<open>A URL whose normal form cannot be normalised again: its backend can be registered, but its health cannot be asked for.\<close>

lemma unstable_url_raises:
  assumes "normalize_url url = Inr n" "normalize_url n = Inl e" "n \<noteq> []"
  shows "\<exists>s reg'. register_backend b url reg = Inr (s, reg') \<and> is_backend_healthy b reg' = Inl e"
proof -
  obtain s reg' where r: "register_backend b url reg = Inr (s, reg')"
    using assms(1) by (auto simp: register_backend_def bind_res_def Let_def)
  then have "map_of (backend_to_url reg') b = Some n"
    using assms(1) by (auto simp: register_backend_def bind_res_def Let_def update_conv' split: if_splits)
  with r assms show ?thesis
    by (simp add: is_backend_healthy_def get_url_for_backend_def is_url_healthy_def get_health_state_def bind_res_def)
qed

end
