(* ===== verification/Health_Examples.thy ===== *)
theory Health_Examples
  imports Health_Theorems
begin

text \<open>
  The endpoint health theorems at concrete runs: a backend whose URL fails two pings, and a URL with an IPv6 address, which the
  registry accepts but cannot look up again.
\<close>

definition openai_url :: string where
  "openai_url = ''https://api.openai.com/v1''"

definition two_failures :: health_config where
  "two_failures = \<lparr>ping_failure_threshold = 2, http_failure_threshold = 2\<rparr>"

definition openai_spelled :: string where
  "openai_spelled = ''HTTPS://API.OpenAI.com/v1/''"

lemma openai_url_normal [simp]: "normalize_url openai_url = Inr openai_url" "normalize_url openai_spelled = Inr openai_url" "openai_url \<noteq> []"
  by code_simp+

definition registered_run :: "(real \<times> health_call) list" where
  "registered_run = [(0, Register ''openai.1'' openai_spelled)]"

definition failing_run :: "(real \<times> health_call) list" where
  "failing_run = [(1, CheckResult (PingCheckFailed openai_url ''timeout'')),
     (2, CheckResult (HttpCheckSucceeded openai_url 200 5)),
     (3, Register ''openai.2'' openai_spelled),
     (4, CheckResult (PingCheckFailed openai_url ''timeout''))]"

abbreviation registered :: endpoint_registry where
  "registered \<equiv> snd (run_machine (health_step two_failures) empty_registry registered_run)"

abbreviation failed :: endpoint_registry where
  "failed \<equiv> snd (run_machine (health_step two_failures) registered failing_run)"

lemmas run_eval = registered_run_def failing_run_def empty_registry_def register_backend_def bind_res_def backends_at_def handle_check_def
  two_failures_def new_health_state_def update_conv' is_healthy_def Let_def record_ping_failure_def record_http_success_def
  record_http_failure_def check_overall_health_change_def

lemma registered_state_witness: "map_of (health_states registered) openai_url = Some (new_health_state openai_url)"
  by (simp add: run_eval)

lemma failed_facts:
  "get_url_for_backend ''openai.1'' failed = Some openai_url" "is_backend_healthy ''openai.1'' failed = Inr False"
  by (simp_all add: run_eval is_backend_healthy_def get_url_for_backend_def is_url_healthy_def get_health_state_def)

theorem registry_consistent_witness:
  "get_url_for_backend ''openai.1'' registered = Some openai_url \<and> ''openai.1'' \<in> set (backends_at openai_url registered)"
proof -
  have "get_url_for_backend ''openai.1'' registered = Some openai_url" by (simp add: run_eval get_url_for_backend_def)
  then show ?thesis
    using registry_consistent [of openai_url "''openai.1''" two_failures registered_run] by simp
qed

definition gated :: "('ci, 'cm) resilience \<Rightarrow> ('ci, 'cm) resilience" where
  "gated R = R\<lparr>rs_healthy := Some (\<lambda>b. is_backend_healthy b failed = Inr True)\<rparr>"

lemma failing_run_facts:
  "list_all (\<lambda>x. \<not> unregisters (snd x)) failing_run" "list_all (\<lambda>x. \<not> ping_succeeded_at openai_url (snd x)) failing_run"
  "length (filter (\<lambda>x. ping_failed_at openai_url (snd x)) failing_run) = 2"
  by (simp_all add: failing_run_def)

theorem failing_endpoint_rejected_witness:
  "\<forall>R now st. fst (check_availability (gated R) now ''openai.1:gpt-4'' ''gpt-4'' st) =
     reject ''endpoint_unhealthy'' None ''openai.1:gpt-4'' ''gpt-4''"
proof (intro allI)
  fix R :: "('ci, 'cm) resilience" and now st
  have b: "py_before (CHR '':'') ''openai.1:gpt-4'' = ''openai.1''" by code_simp
  show "fst (check_availability (gated R) now ''openai.1:gpt-4'' ''gpt-4'' st) = reject ''endpoint_unhealthy'' None ''openai.1:gpt-4'' ''gpt-4''"
    using failing_endpoint_rejected [of two_failures registered registered_run openai_url "new_health_state openai_url" failing_run failed
        "''openai.1:gpt-4''" "gated R" "\<lambda>b. is_backend_healthy b failed = Inr True" now "''gpt-4''" st]
    using failing_run_facts registered_state_witness failed_facts
    by (simp add: thresholds_positive_def b gated_def del: run_machine_Cons) (simp add: two_failures_def)
qed

text \<open>
  A backend with an IPv6 address in its URL can be registered, but asking for its health raises a value error: the normalisation drops the
  brackets of the address, and normalising the stored URL again reads the rest of the address as a port.
\<close>

lemma ipv6_backend_check_raises:
  "\<exists>s reg'. register_backend b ''http://[::1]/v1'' reg = Inr (s, reg') \<and>
     is_backend_healthy b reg' = Inl (URL_ValueError ''Port could not be cast to integer value'')"
proof (rule unstable_url_raises)
  show "normalize_url ''http://[::1]/v1'' = Inr ''http://::1/v1''" by code_simp
  show "normalize_url ''http://::1/v1'' = Inl (URL_ValueError ''Port could not be cast to integer value'')" by code_simp
qed simp

end
