(* ===== verification/Parallel_Chunks.thy ===== *)
theory Parallel_Chunks
  imports Routing_Context
begin

text \<open>
  The chunks of a completion stream as the parallel completion reads them: which chunk counts as a
  first token of a leg (\<^verbatim>\<open>parallel_completion_racer.py\<close>, with the reasoning helper of
  \<^verbatim>\<open>openai_stream_reasoning.py\<close>), and how the chunks of the winning leg are put together to one
  response when the client did not ask for a stream (\<^verbatim>\<open>parallel_completion_orchestrator.py\<close>).
  Reading JSON and decoding bytes are arguments (\<open>codec\<close>).
\<close>

record codec =
  loads :: "string \<Rightarrow> json option"
  utf8_text :: "string \<Rightarrow> string"

text \<open>The content of a chunk; bytes are a list of characters below 256.\<close>

datatype stream_content =
    NoContent
  | TextContent string
  | BytesContent string
  | DictContent jdict
  | OtherContent json

datatype stream_chunk =
    Raw (chunk_content: stream_content)
  | ProcessedResponse (chunk_content: stream_content) (chunk_metadata: jdict)

section \<open>Lines of a server-sent event\<close>

definition line_boundary :: "char \<Rightarrow> bool" where
  "line_boundary c \<longleftrightarrow> (let n = (of_char c :: nat) in (10 \<le> n \<and> n \<le> 13) \<or> (28 \<le> n \<and> n \<le> 30) \<or> n = 133)"

fun splitlines_from :: "string \<Rightarrow> string \<Rightarrow> string list" where
  "splitlines_from cur [] = (if cur = [] then [] else [rev cur])"
| "splitlines_from cur (c # s) =
     (if c = CHR 0x0D \<and> (case s of [] \<Rightarrow> False | d # _ \<Rightarrow> d = CHR 0x0A) then rev cur # splitlines_from [] (tl s)
      else if line_boundary c then rev cur # splitlines_from [] s
      else splitlines_from (c # cur) s)"

definition py_splitlines :: "string \<Rightarrow> string list" where
  "py_splitlines s = splitlines_from [] s"

definition data_lines :: "string \<Rightarrow> string list" where
  "data_lines sse = filter (\<lambda>line. line \<noteq> [] \<and> py_startswith line ''data:'') (map py_strip (py_splitlines sse))"

definition payload_lines :: "string \<Rightarrow> string list" where
  "payload_lines sse = filter (\<lambda>d. d \<noteq> [] \<and> d \<noteq> ''[DONE]'') (map (\<lambda>line. py_lstrip (drop 5 line)) (data_lines sse))"

section \<open>First tokens\<close>

definition or_else :: "json \<Rightarrow> json \<Rightarrow> json" where
  "or_else a b = (if truthy a then a else b)"

definition has_text :: "json \<Rightarrow> bool" where
  "has_text v = (case as_str v of None \<Rightarrow> False | Some s \<Rightarrow> py_strip s \<noteq> [])"

definition reasoning_value :: "jdict \<Rightarrow> json" where
  "reasoning_value delta =
     or_else (or_else (or_else (or_else (dict_get ''reasoning_content'' delta) (dict_get ''reasoning'' delta))
       (dict_get ''thinking'' delta)) (dict_get ''thought'' delta)) (dict_get ''reasoning_summary'' delta)"

definition openai_dict_has_reasoning_output :: "jdict \<Rightarrow> bool" where
  "openai_dict_has_reasoning_output payload =
     (case as_list (dict_get ''choices'' payload) of
        None \<Rightarrow> False
      | Some choices \<Rightarrow>
          list_ex (\<lambda>choice. case as_dict choice of
              None \<Rightarrow> False
            | Some c \<Rightarrow>
                (case as_dict (or_else (dict_get ''delta'' c) (dict_get ''message'' c)) of
                   None \<Rightarrow> False
                 | Some delta \<Rightarrow> has_text (reasoning_value delta))) choices)"

definition delta_field_has_content :: "jdict \<Rightarrow> string \<Rightarrow> bool" where
  "delta_field_has_content delta field = has_text (dict_get field delta)"

definition delta_has_tool_calls :: "jdict \<Rightarrow> bool" where
  "delta_has_tool_calls delta =
     (case as_list (dict_get ''tool_calls'' delta) of None \<Rightarrow> False | Some calls \<Rightarrow> length calls > 0)"

definition dict_has_meaningful_delta_content :: "jdict \<Rightarrow> bool" where
  "dict_has_meaningful_delta_content chunk =
     (if openai_dict_has_reasoning_output chunk then True
      else (case as_list (dict_get ''choices'' chunk) of
              None \<Rightarrow> False
            | Some choices \<Rightarrow>
                list_ex (\<lambda>choice. case as_dict choice of
                    None \<Rightarrow> False
                  | Some c \<Rightarrow>
                      (case as_dict (dict_get ''delta'' c) of
                         None \<Rightarrow> False
                       | Some delta \<Rightarrow> delta_field_has_content delta ''content'' \<or> delta_has_tool_calls delta)) choices))"

text \<open>\<open>None\<close> when the text has no data line; a payload that is no JSON object is no token.\<close>

definition parse_sse_payload :: "codec \<Rightarrow> string \<Rightarrow> bool option" where
  "parse_sse_payload cd sse =
     (if data_lines sse = [] then None
      else if payload_lines sse = [] then Some False
      else (case loads cd (py_join [CHR 0x0A] (payload_lines sse)) of
              Some (JDict parsed) \<Rightarrow> Some (dict_has_meaningful_delta_content parsed)
            | _ \<Rightarrow> Some False))"

definition KEEPALIVE_MARKERS :: "string list" where
  "KEEPALIVE_MARKERS = ['': keep-alive'' @ [CHR 0x0A, CHR 0x0A], '': keepalive'' @ [CHR 0x0A, CHR 0x0A]]"

definition bytes_isspace :: "char \<Rightarrow> bool" where
  "bytes_isspace c \<longleftrightarrow> (let n = (of_char c :: nat) in (9 \<le> n \<and> n \<le> 13) \<or> n = 32)"

fun is_meaningful_content :: "codec \<Rightarrow> stream_content \<Rightarrow> bool" where
  "is_meaningful_content cd NoContent = False"
| "is_meaningful_content cd (BytesContent b) =
     (if list_all bytes_isspace b then False
      else if b \<in> set KEEPALIVE_MARKERS then False
      else (case parse_sse_payload cd (utf8_text cd b) of Some verdict \<Rightarrow> verdict | None \<Rightarrow> True))"
| "is_meaningful_content cd (TextContent s) =
     (if py_strip s = [] then False
      else if s \<in> set KEEPALIVE_MARKERS then False
      else (case parse_sse_payload cd s of Some verdict \<Rightarrow> verdict | None \<Rightarrow> True))"
| "is_meaningful_content cd (DictContent d) =
     (if truthy (dict_get ''_keepalive'' d) then False else dict_has_meaningful_delta_content d)"
| "is_meaningful_content cd (OtherContent v) = truthy v"

fun is_terminal_error_chunk :: "stream_chunk \<Rightarrow> bool" where
  "is_terminal_error_chunk (ProcessedResponse content metadata) =
     (truthy (dict_get ''error'' metadata) \<or> dict_get ''finish_reason'' metadata = JStr ''error'' \<or>
      (case content of DictContent d \<Rightarrow> truthy (dict_get ''error'' d) | _ \<Rightarrow> False))"
| "is_terminal_error_chunk (Raw content) = False"

fun is_meaningful_token :: "codec \<Rightarrow> stream_chunk \<Rightarrow> bool" where
  "is_meaningful_token cd (ProcessedResponse content metadata) =
     (if truthy (dict_get ''_keepalive'' metadata) then False
      else if is_terminal_error_chunk (ProcessedResponse content metadata) then False
      else is_meaningful_content cd content)"
| "is_meaningful_token cd (Raw content) = is_meaningful_content cd content"

definition keepalive_chunk :: stream_chunk where
  "keepalive_chunk = ProcessedResponse (TextContent ('': keep-alive'' @ [CHR 0x0A, CHR 0x0A])) [(''_keepalive'', JBool True)]"

text \<open>A keepalive never wins a race.\<close>

lemma keepalive_not_meaningful: "\<not> is_meaningful_token cd keepalive_chunk"
  by (simp add: keepalive_chunk_def dict_get_def)

lemma meaningful_not_terminal: "is_meaningful_token cd c \<Longrightarrow> \<not> is_terminal_error_chunk c"
  by (cases c) (auto split: if_splits)

section \<open>One response from a stream\<close>

text \<open>\<^verbatim>\<open>_coerce_stream_chunk_to_dict\<close>\<close>

fun coerce_stream_chunk_to_dict :: "codec \<Rightarrow> stream_content \<Rightarrow> jdict option" where
  "coerce_stream_chunk_to_dict cd (DictContent d) = Some d"
| "coerce_stream_chunk_to_dict cd (BytesContent b) =
     (let sse = utf8_text cd b in
      if payload_lines sse = [] then None
      else (case loads cd (py_join [CHR 0x0A] (payload_lines sse)) of Some (JDict d) \<Rightarrow> Some d | _ \<Rightarrow> None))"
| "coerce_stream_chunk_to_dict cd (TextContent sse) =
     (if payload_lines sse = [] then None
      else (case loads cd (py_join [CHR 0x0A] (payload_lines sse)) of Some (JDict d) \<Rightarrow> Some d | _ \<Rightarrow> None))"
| "coerce_stream_chunk_to_dict cd _ = None"

record call_acc =
  call_id :: string
  call_type :: string
  call_name :: string
  call_arguments :: string

definition new_call :: call_acc where
  "new_call = \<lparr>call_id = [], call_type = ''function'', call_name = [], call_arguments = []\<rparr>"

definition str_or :: "string \<Rightarrow> json \<Rightarrow> string" where
  "str_or old v = (case as_str v of None \<Rightarrow> old | Some s \<Rightarrow> s)"

definition merge_call :: "jdict \<Rightarrow> call_acc \<Rightarrow> call_acc" where
  "merge_call raw cur =
     (let c = cur\<lparr>call_id := str_or (call_id cur) (dict_get ''id'' raw), call_type := str_or (call_type cur) (dict_get ''type'' raw)\<rparr> in
      case as_dict (dict_get ''function'' raw) of
        None \<Rightarrow> c
      | Some f \<Rightarrow>
          c\<lparr>call_name := str_or (call_name c) (dict_get ''name'' f),
            call_arguments := (case as_str (dict_get ''arguments'' f) of None \<Rightarrow> call_arguments c | Some s \<Rightarrow> call_arguments c @ s)\<rparr>)"

type_synonym call_table = "(int \<times> call_acc) list"

definition call_at :: "call_table \<Rightarrow> int \<Rightarrow> call_acc" where
  "call_at calls i = (case map_of calls i of None \<Rightarrow> new_call | Some c \<Rightarrow> c)"

definition call_index :: "jdict \<Rightarrow> call_table \<Rightarrow> int" where
  "call_index raw calls = (case as_int (dict_get ''index'' raw) of Some i \<Rightarrow> i | None \<Rightarrow> int (length calls))"

fun merge_raw_call :: "json \<Rightarrow> call_table \<Rightarrow> call_table" where
  "merge_raw_call (JDict raw) calls =
     (let i = call_index raw calls in AList.update i (merge_call raw (call_at calls i)) calls)"
| "merge_raw_call _ calls = calls"

fun merge_tool_call_deltas :: "json \<Rightarrow> call_table \<Rightarrow> call_table" where
  "merge_tool_call_deltas (JList raw_calls) calls = fold merge_raw_call raw_calls calls"
| "merge_tool_call_deltas _ calls = calls"

definition append_text_delta :: "jdict \<Rightarrow> string \<Rightarrow> string list \<Rightarrow> string list" where
  "append_text_delta delta key parts =
     (case as_str (dict_get key delta) of Some s \<Rightarrow> if s \<noteq> [] then parts @ [s] else parts | None \<Rightarrow> parts)"

record stream_acc =
  content_parts :: "string list"
  reasoning_parts :: "string list"
  tool_calls_acc :: call_table
  response_id :: "string option"
  response_model :: "string option"
  created_at :: "json option"
  finish_reason_acc :: "string option"
  usage_acc :: "jdict option"

definition empty_acc :: stream_acc where
  "empty_acc = \<lparr>content_parts = [], reasoning_parts = [], tool_calls_acc = [], response_id = None, response_model = None,
     created_at = None, finish_reason_acc = None, usage_acc = None\<rparr>"

text \<open>The fields a chunk sets outside its choices: the first identifier, model and time stay, the last usage wins.\<close>

definition note_envelope :: "jdict \<Rightarrow> stream_acc \<Rightarrow> stream_acc" where
  "note_envelope raw a =
     a\<lparr>response_id := (if response_id a = None then as_str (dict_get ''id'' raw) else response_id a),
       response_model := (if response_model a = None then as_str (dict_get ''model'' raw) else response_model a),
       created_at := (if created_at a = None \<and> as_int (dict_get ''created'' raw) \<noteq> None
                      then Some (dict_get ''created'' raw) else created_at a),
       usage_acc := (case as_dict (dict_get ''usage'' raw) of None \<Rightarrow> usage_acc a | Some u \<Rightarrow> Some u)\<rparr>"

definition note_delta :: "jdict \<Rightarrow> stream_acc \<Rightarrow> stream_acc" where
  "note_delta delta a =
     a\<lparr>content_parts := append_text_delta delta ''content'' (content_parts a),
       reasoning_parts := append_text_delta delta ''thinking'' (append_text_delta delta ''reasoning''
         (append_text_delta delta ''reasoning_content'' (reasoning_parts a))),
       tool_calls_acc := merge_tool_call_deltas (dict_get ''tool_calls'' delta) (tool_calls_acc a)\<rparr>"

text \<open>The first choice of a chunk, when the chunk has choices and the first one is an object.\<close>

definition first_choice :: "jdict \<Rightarrow> jdict option" where
  "first_choice raw = (case dict_get ''choices'' raw of JList (JDict c # _) \<Rightarrow> Some c | _ \<Rightarrow> None)"

definition note_choice :: "jdict \<Rightarrow> stream_acc \<Rightarrow> stream_acc" where
  "note_choice c a =
     (let a1 = a\<lparr>finish_reason_acc := (case as_str (dict_get ''finish_reason'' c) of None \<Rightarrow> finish_reason_acc a | Some s \<Rightarrow> Some s)\<rparr> in
      case as_dict (dict_get ''delta'' c) of None \<Rightarrow> a1 | Some delta \<Rightarrow> note_delta delta a1)"

definition collect_chunk :: "codec \<Rightarrow> stream_chunk \<Rightarrow> stream_acc \<Rightarrow> stream_acc" where
  "collect_chunk cd item a =
     (case coerce_stream_chunk_to_dict cd (chunk_content item) of
        None \<Rightarrow> a
      | Some raw \<Rightarrow>
          (let a1 = note_envelope raw a in
           case first_choice raw of None \<Rightarrow> a1 | Some c \<Rightarrow> note_choice c a1))"

definition collect_chunks :: "codec \<Rightarrow> stream_chunk list \<Rightarrow> stream_acc" where
  "collect_chunks cd items = fold (collect_chunk cd) items empty_acc"

definition call_json :: "call_acc \<Rightarrow> json" where
  "call_json c = JDict [(''id'', JStr (call_id c)), (''type'', JStr (call_type c)),
     (''function'', JDict [(''name'', JStr (call_name c)), (''arguments'', JStr (call_arguments c))])]"

definition acc_message :: "stream_acc \<Rightarrow> jdict" where
  "acc_message a =
     (let reasoning = concat (reasoning_parts a) in
      [(''role'', JStr ''assistant''), (''content'', JStr (concat (content_parts a)))]
      @ (if reasoning \<noteq> [] then [(''reasoning_content'', JStr reasoning), (''reasoning'', JStr reasoning), (''thinking'', JStr reasoning)]
         else [])
      @ (if tool_calls_acc a \<noteq> []
         then [(''tool_calls'', JList (map (\<lambda>i. call_json (call_at (tool_calls_acc a) i)) (sort (map fst (tool_calls_acc a)))))]
         else []))"

definition str_default :: "string option \<Rightarrow> string \<Rightarrow> string" where
  "str_default v d = (case v of None \<Rightarrow> d | Some s \<Rightarrow> if s = [] then d else s)"

definition acc_response :: "real \<Rightarrow> stream_acc \<Rightarrow> jdict" where
  "acc_response now a =
     [(''id'', JStr (str_default (response_id a) (''chatcmpl-parallel-'' @ py_str_int \<lfloor>now * 1000\<rfloor>))),
      (''object'', JStr ''chat.completion''),
      (''created'', (case created_at a of Some v \<Rightarrow> or_else v (JInt \<lfloor>now\<rfloor>) | None \<Rightarrow> JInt \<lfloor>now\<rfloor>)),
      (''model'', JStr (str_default (response_model a) ''parallel'')),
      (''choices'', JList [JDict [(''index'', JInt 0), (''message'', JDict (acc_message a)),
         (''finish_reason'', JStr (str_default (finish_reason_acc a) ''stop''))]])]
     @ (case usage_acc a of None \<Rightarrow> [] | Some u \<Rightarrow> [(''usage'', JDict u)])"

definition collect_streaming_envelope_to_response :: "codec \<Rightarrow> real \<Rightarrow> stream_chunk list \<Rightarrow> jdict" where
  "collect_streaming_envelope_to_response cd now items = acc_response now (collect_chunks cd items)"

end
