(* ===== verification/Parallel_Race.thy ===== *)
theory Parallel_Race
  imports Parallel_Chunks
begin

text \<open>
  The race of the legs of a parallel selector (\<^verbatim>\<open>ParallelCompletionRacer.race\<close> of
  \<^verbatim>\<open>parallel_completion_racer.py\<close>) as a step relation. The coroutines of the race run on one event
  loop: a step is what one of them does between two points where it may be suspended, which are the
  acquisition of \<^verbatim>\<open>winner_lock\<close> and the waiting for time, a task, an event, a stream or a cancel
  callback. Putting an item into the unbounded queue and releasing a lock do not suspend. An
  \<open>action\<close> names the coroutine that goes on, so a run of the event loop is a list of actions, and
  every order of the suspended coroutines is a run of the model.

  A leg comes with what its stream will do: its chunks, then its end, a failure, or nothing any more.
\<close>

section \<open>Legs and their tasks\<close>

datatype stream_end = Exhausted | RoutingFailure | OtherFailure | Stalled

record ParallelRaceLeg =
  leg_id :: string
  leg_handicap :: real
  leg_ttft_timeout :: real
  leg_chunks :: "stream_chunk list"
  leg_end :: stream_end
  cancel_raises :: bool

record race_config =
  race_codec :: codec
  race_legs :: "ParallelRaceLeg list"
  watch_client :: bool
  send_keepalives :: bool
  keepalive_interval :: real

definition leg_ids :: "race_config \<Rightarrow> string list" where
  "leg_ids cfg = map leg_id (race_legs cfg)"

definition leg_of :: "race_config \<Rightarrow> string \<Rightarrow> ParallelRaceLeg" where
  "leg_of cfg l = (case find (\<lambda>g. leg_id g = l) (race_legs cfg) of Some g \<Rightarrow> g | None \<Rightarrow> hd (race_legs cfg))"

definition max_handicap :: "race_config \<Rightarrow> real" where
  "max_handicap cfg = (case map leg_handicap (race_legs cfg) of [] \<Rightarrow> 0 | h # hs \<Rightarrow> foldl max h hs)"

definition start_delay :: "race_config \<Rightarrow> string \<Rightarrow> real" where
  "start_delay cfg l = max_handicap cfg - leg_handicap (leg_of cfg l)"

text \<open>Where the task of a leg is suspended.\<close>

datatype leg_pc =
    Delayed                          \<comment> \<open>in \<^verbatim>\<open>_wait_handicap_delay\<close>\<close>
  | Entering                         \<comment> \<open>at the lock before the stream is opened\<close>
  | Reading bool                     \<comment> \<open>at the next chunk; the flag is \<^verbatim>\<open>streaming_winner\<close>\<close>
  | Checking stream_chunk bool       \<comment> \<open>with a chunk, at the lock of the winner test\<close>
  | Claiming stream_chunk            \<comment> \<open>with a first token, at the lock of the claim\<close>
  | Claimed stream_chunk             \<comment> \<open>won; at the watchdog and the cancel callbacks of the others\<close>
  | Announced                        \<comment> \<open>first chunk emitted, at the tasks of the others\<close>
  | Failing                          \<comment> \<open>in \<^verbatim>\<open>_stop_leg\<close> of its own\<close>
  | Releasing                        \<comment> \<open>at the lock of \<^verbatim>\<open>_request_pending_leg_acceleration\<close>\<close>
  | Leaving                          \<comment> \<open>in the \<^verbatim>\<open>finally\<close> block, at its watchdog\<close>
  | Ending bool                      \<comment> \<open>at the lock of \<^verbatim>\<open>_maybe_accelerate_pending_legs\<close>; no winner seen\<close>
  | Gone

datatype stop_reason =
    Winner_Selected | Ttft_Timeout | Leg_Failed | Client_Cancel | Race_Aborted

datatype watcher_pc = Watching | Deciding | Awaiting_First_Chunk | Stopping "string list" | Watcher_Over

datatype consumer_pc =
    Consuming | Finishing | Finished | Aborting | Abort_Stopping "string list" | Aborted

type_synonym race_item = "stream_chunk \<times> string option"

record race =
  winner_leg_id :: "string option"
  first_token_event :: bool
  race_stopped :: bool
  client_cancelled :: bool
  handicap_accelerate :: bool
  winner_first_chunk_emitted :: bool
  winner_first_chunk_emitted_event :: bool
  cancelled_legs :: "string set"
  hung_up :: "string set"
  streaming_started :: "string set"
  lock_owner :: "string option"
  leg_task :: "string \<Rightarrow> leg_pc"
  cancel_requested :: "string set"
  todo :: "string \<Rightarrow> stream_chunk list"
  watchdog :: "string \<Rightarrow> real option"
  clock :: real
  next_keepalive :: real
  watcher :: watcher_pc
  orchestrating :: bool
  consumer :: consumer_pc
  race_queue :: "race_item option list"
  yielded :: "race_item list"

text \<open>
  \<open>hung_up\<close> holds the legs whose cancel callback was called (the upstream request is being cancelled);
  \<open>cancelled_legs\<close> is the set of the code, of the legs whose callback came back without an exception.
\<close>

definition race_init :: "race_config \<Rightarrow> race" where
  "race_init cfg = \<lparr>winner_leg_id = None, first_token_event = False, race_stopped = False, client_cancelled = False,
     handicap_accelerate = False, winner_first_chunk_emitted = False, winner_first_chunk_emitted_event = False,
     cancelled_legs = {}, hung_up = {}, streaming_started = {}, lock_owner = None, leg_task = (\<lambda>_. Delayed),
     cancel_requested = {}, todo = (\<lambda>l. leg_chunks (leg_of cfg l)), watchdog = (\<lambda>_. None), clock = 0,
     next_keepalive = keepalive_interval cfg, watcher = (if watch_client cfg \<and> race_legs cfg \<noteq> [] then Watching else Watcher_Over),
     orchestrating = (race_legs cfg \<noteq> []), consumer = (if race_legs cfg = [] then Finished else Consuming),
     race_queue = [], yielded = []\<rparr>"

section \<open>Helpers of the race\<close>

definition should_stop :: "race \<Rightarrow> bool" where
  "should_stop s \<longleftrightarrow> race_stopped s \<or> client_cancelled s"

definition mark_race_stopped :: "race \<Rightarrow> race" where
  "mark_race_stopped s = s\<lparr>race_stopped := True, first_token_event := True\<rparr>"

definition emit :: "stream_chunk \<Rightarrow> string option \<Rightarrow> race \<Rightarrow> race" where
  "emit c w s = s\<lparr>race_queue := race_queue s @ [Some (c, w)]\<rparr>"

definition put_sentinel :: "race \<Rightarrow> race" where
  "put_sentinel s = s\<lparr>race_queue := race_queue s @ [None]\<rparr>"

definition move :: "string \<Rightarrow> leg_pc \<Rightarrow> race \<Rightarrow> race" where
  "move l pc s = s\<lparr>leg_task := (leg_task s)(l := pc)\<rparr>"

definition should_defer_winner_cancel :: "stop_reason \<Rightarrow> string \<Rightarrow> race \<Rightarrow> bool" where
  "should_defer_winner_cancel why l s \<longleftrightarrow>
     winner_leg_id s = Some l \<and> \<not> winner_first_chunk_emitted s \<and> (why = Client_Cancel \<or> why = Race_Aborted)"

definition request_leg_cancel :: "race_config \<Rightarrow> stop_reason \<Rightarrow> string \<Rightarrow> race \<Rightarrow> race" where
  "request_leg_cancel cfg why l s =
     (if l \<in> cancelled_legs s then s
      else if should_defer_winner_cancel why l s then s
      else s\<lparr>hung_up := insert l (hung_up s),
             cancelled_legs := (if cancel_raises (leg_of cfg l) then cancelled_legs s else insert l (cancelled_legs s))\<rparr>)"

definition cancel_leg_task :: "stop_reason \<Rightarrow> string \<Rightarrow> race \<Rightarrow> race" where
  "cancel_leg_task why l s =
     (if leg_task s l = Gone \<or> should_defer_winner_cancel why l s then s
      else s\<lparr>cancel_requested := insert l (cancel_requested s)\<rparr>)"

definition stop_leg :: "race_config \<Rightarrow> stop_reason \<Rightarrow> string \<Rightarrow> race \<Rightarrow> race" where
  "stop_leg cfg why l s = cancel_leg_task why l (request_leg_cancel cfg why l s)"

definition losers :: "race_config \<Rightarrow> string \<Rightarrow> string list" where
  "losers cfg w = filter (\<lambda>l. l \<noteq> w) (leg_ids cfg)"

definition stop_loser_protocols :: "race_config \<Rightarrow> string \<Rightarrow> race \<Rightarrow> race" where
  "stop_loser_protocols cfg w s = fold (request_leg_cancel cfg Winner_Selected) (losers cfg w) s"

definition stop_loser_tasks :: "race_config \<Rightarrow> string \<Rightarrow> race \<Rightarrow> race" where
  "stop_loser_tasks cfg w s = fold (cancel_leg_task Winner_Selected) (losers cfg w) s"

section \<open>The task of a leg\<close>

definition lock_free :: "race \<Rightarrow> bool" where
  "lock_free s \<longleftrightarrow> lock_owner s = None"

definition wake_leg :: "race_config \<Rightarrow> string \<Rightarrow> race \<Rightarrow> race option" where
  "wake_leg cfg l s =
     (if leg_task s l = Delayed \<and> (start_delay cfg l \<le> clock s \<or> handicap_accelerate s)
      then Some (move l (if should_stop s then Leaving else Entering) s) else None)"

definition enter :: "race_config \<Rightarrow> string \<Rightarrow> race \<Rightarrow> race option" where
  "enter cfg l s =
     (if leg_task s l = Entering \<and> lock_free s
      then Some (if winner_leg_id s \<noteq> None then move l Leaving s
        else (move l (Reading False) s)\<lparr>streaming_started := insert l (streaming_started s),
          watchdog := (watchdog s)(l := (if leg_ttft_timeout (leg_of cfg l) > 0
            then Some (clock s + leg_ttft_timeout (leg_of cfg l)) else None))\<rparr>)
      else None)"

definition receive :: "race_config \<Rightarrow> string \<Rightarrow> race \<Rightarrow> race option" where
  "receive cfg l s =
     (case leg_task s l of
        Reading won \<Rightarrow>
          (case todo s l of
             c # cs \<Rightarrow> Some (move l (if should_stop s then Leaving else Checking c won) (s\<lparr>todo := (todo s)(l := cs)\<rparr>))
           | [] \<Rightarrow>
               (case leg_end (leg_of cfg l) of
                  Stalled \<Rightarrow> None
                | Exhausted \<Rightarrow> Some (move l Leaving s)
                | _ \<Rightarrow> Some (move l Failing s)))
      | _ \<Rightarrow> None)"

definition check_chunk :: "race_config \<Rightarrow> string \<Rightarrow> race \<Rightarrow> race option" where
  "check_chunk cfg l s =
     (case leg_task s l of
        Checking c won \<Rightarrow>
          (if \<not> lock_free s then None
           else if winner_leg_id s \<noteq> None \<and> winner_leg_id s \<noteq> Some l then Some (move l Leaving s)
           else if is_terminal_error_chunk c then Some (move l Failing s)
           else if won then Some (move l (Reading True) (emit c None s))
           else if \<not> is_meaningful_token (race_codec cfg) c then Some (move l (Reading False) s)
           else Some (move l (Claiming c) s))
      | _ \<Rightarrow> None)"

definition claim :: "race_config \<Rightarrow> string \<Rightarrow> race \<Rightarrow> race option" where
  "claim cfg l s =
     (case leg_task s l of
        Claiming c \<Rightarrow>
          (if \<not> lock_free s then None
           else if winner_leg_id s = None \<and> \<not> should_stop s
           then Some ((move l (Claimed c) s)\<lparr>winner_leg_id := Some l, first_token_event := True, watchdog := (watchdog s)(l := None)\<rparr>)
           else Some (move l (Reading False) s))
      | _ \<Rightarrow> None)"

definition announce :: "race_config \<Rightarrow> string \<Rightarrow> race \<Rightarrow> race option" where
  "announce cfg l s =
     (case leg_task s l of
        Claimed c \<Rightarrow>
          Some ((move l Announced (emit c (Some l) (stop_loser_protocols cfg l s)))
            \<lparr>winner_first_chunk_emitted := True, winner_first_chunk_emitted_event := True\<rparr>)
      | _ \<Rightarrow> None)"

definition stop_losers :: "race_config \<Rightarrow> string \<Rightarrow> race \<Rightarrow> race option" where
  "stop_losers cfg l s =
     (if leg_task s l = Announced then Some (move l (Reading True) (stop_loser_tasks cfg l s)) else None)"

text \<open>A failed leg cancels its own request; its own task is not cancelled.\<close>

definition fail :: "race_config \<Rightarrow> string \<Rightarrow> race \<Rightarrow> race option" where
  "fail cfg l s =
     (if leg_task s l = Failing then Some (move l Releasing (request_leg_cancel cfg Leg_Failed l s)) else None)"

definition request_pending_leg_acceleration :: "string \<Rightarrow> race \<Rightarrow> race option" where
  "request_pending_leg_acceleration l s =
     (if leg_task s l = Releasing \<and> lock_free s
      then Some (move l Leaving (if winner_leg_id s \<noteq> None \<or> should_stop s then s else s\<lparr>handicap_accelerate := True\<rparr>))
      else None)"

text \<open>The watchdog of the leg is cancelled, which frees the lock if it holds it.\<close>

definition drain :: "string \<Rightarrow> race \<Rightarrow> race option" where
  "drain l s =
     (if leg_task s l = Leaving
      then Some ((move l (Ending (winner_leg_id s = None)) s)
        \<lparr>watchdog := (watchdog s)(l := None), lock_owner := (if lock_owner s = Some l then None else lock_owner s)\<rparr>)
      else None)"

definition set_winner_event :: "string \<Rightarrow> race \<Rightarrow> race" where
  "set_winner_event l s = (if winner_leg_id s = Some l then s\<lparr>winner_first_chunk_emitted_event := True\<rparr> else s)"

definition finish :: "race_config \<Rightarrow> string \<Rightarrow> race \<Rightarrow> race option" where
  "finish cfg l s =
     (case leg_task s l of
        Ending no_winner \<Rightarrow>
          (if leg_handicap (leg_of cfg l) \<le> 0 \<or> l \<notin> streaming_started s then Some (move l Gone (set_winner_event l s))
           else if \<not> lock_free s then None
           else Some (move l Gone (set_winner_event l
             (if no_winner \<and> \<not> should_stop s then s\<lparr>handicap_accelerate := True\<rparr> else s))))
      | _ \<Rightarrow> None)"

text \<open>
  A cancelled task goes on in its \<^verbatim>\<open>finally\<close> block, where waiting for the watchdog ignores the
  cancellation. A cancelled upstream request also ends the stream of the leg that reads it.
\<close>

definition is_reading :: "leg_pc \<Rightarrow> bool" where
  "is_reading pc = (case pc of Reading _ \<Rightarrow> True | _ \<Rightarrow> False)"

definition interrupt :: "string \<Rightarrow> race \<Rightarrow> race option" where
  "interrupt l s =
     (if leg_task s l \<noteq> Gone \<and> (l \<in> cancel_requested s \<or> (l \<in> hung_up s \<and> is_reading (leg_task s l)))
      then Some ((move l (case leg_task s l of Ending _ \<Rightarrow> Gone | _ \<Rightarrow> Leaving) s)\<lparr>cancel_requested := cancel_requested s - {l}\<rparr>)
      else None)"

section \<open>The watchdog of a leg\<close>

definition timeout :: "string \<Rightarrow> race \<Rightarrow> race option" where
  "timeout l s =
     (case watchdog s l of
        None \<Rightarrow> None
      | Some deadline \<Rightarrow>
          (if clock s < deadline \<or> \<not> lock_free s then None
           else if winner_leg_id s = None \<and> \<not> should_stop s
           then Some (s\<lparr>lock_owner := Some l, hung_up := (if l \<in> cancelled_legs s then hung_up s else insert l (hung_up s))\<rparr>)
           else Some (s\<lparr>watchdog := (watchdog s)(l := None)\<rparr>)))"

definition timed_out :: "race_config \<Rightarrow> string \<Rightarrow> race \<Rightarrow> race option" where
  "timed_out cfg l s =
     (if lock_owner s = Some l
      then Some ((stop_leg cfg Ttft_Timeout l s)\<lparr>lock_owner := None, watchdog := (watchdog s)(l := None)\<rparr>)
      else None)"

section \<open>Keepalives, the client and the consumer\<close>

definition keepalive :: "race_config \<Rightarrow> race \<Rightarrow> race option" where
  "keepalive cfg s =
     (if send_keepalives cfg \<and> orchestrating s \<and> \<not> should_stop s \<and> \<not> first_token_event s \<and> next_keepalive s \<le> clock s
      then Some ((emit keepalive_chunk None s)\<lparr>next_keepalive := clock s + keepalive_interval cfg\<rparr>) else None)"

definition watch :: "race_config \<Rightarrow> race \<Rightarrow> race option" where
  "watch cfg s =
     (case watcher s of
        Watching \<Rightarrow> (if client_cancelled s then Some ((mark_race_stopped s)\<lparr>watcher := Deciding\<rparr>) else None)
      | Deciding \<Rightarrow>
          (if lock_free s
           then Some (s\<lparr>watcher := (if winner_leg_id s \<noteq> None \<and> \<not> winner_first_chunk_emitted s
                                   then Awaiting_First_Chunk else Stopping (leg_ids cfg))\<rparr>)
           else None)
      | Awaiting_First_Chunk \<Rightarrow>
          (if winner_first_chunk_emitted_event s then Some (s\<lparr>watcher := Stopping (leg_ids cfg)\<rparr>) else None)
      | Stopping (l # ls) \<Rightarrow> Some ((stop_leg cfg Client_Cancel l s)\<lparr>watcher := Stopping ls\<rparr>)
      | Stopping [] \<Rightarrow> Some ((put_sentinel s)\<lparr>watcher := Watcher_Over\<rparr>)
      | Watcher_Over \<Rightarrow> None)"

text \<open>All legs are through: the other tasks are cancelled and the consumer is told.\<close>

definition orchestrate :: "race_config \<Rightarrow> race \<Rightarrow> race option" where
  "orchestrate cfg s =
     (if orchestrating s \<and> list_all (\<lambda>l. leg_task s l = Gone) (leg_ids cfg)
      then Some ((put_sentinel (mark_race_stopped s))\<lparr>watcher := Watcher_Over, orchestrating := False\<rparr>) else None)"

definition tear_down :: "race_config \<Rightarrow> race \<Rightarrow> race" where
  "tear_down cfg s =
     (let s1 = s\<lparr>cancel_requested := cancel_requested s \<union> {l \<in> set (leg_ids cfg). leg_task s l \<noteq> Gone}, watcher := Watcher_Over\<rparr> in
      if orchestrating s then (put_sentinel s1)\<lparr>orchestrating := False\<rparr> else s1)"

definition consume :: "race_config \<Rightarrow> race \<Rightarrow> race option" where
  "consume cfg s =
     (case consumer s of
        Consuming \<Rightarrow>
          (case race_queue s of
             [] \<Rightarrow> None
           | None # q \<Rightarrow> Some ((mark_race_stopped s)\<lparr>race_queue := q, consumer := Finishing\<rparr>)
           | Some x # q \<Rightarrow> Some (s\<lparr>race_queue := q, yielded := yielded s @ [x]\<rparr>))
      | Finishing \<Rightarrow> Some ((tear_down cfg s)\<lparr>consumer := Finished\<rparr>)
      | Aborting \<Rightarrow>
          (if winner_leg_id s \<noteq> None \<and> \<not> winner_first_chunk_emitted s \<and> \<not> winner_first_chunk_emitted_event s then None
           else Some (s\<lparr>consumer := Abort_Stopping (leg_ids cfg)\<rparr>))
      | Abort_Stopping (l # ls) \<Rightarrow> Some ((stop_leg cfg Race_Aborted l s)\<lparr>consumer := Abort_Stopping ls\<rparr>)
      | Abort_Stopping [] \<Rightarrow> Some ((tear_down cfg s)\<lparr>consumer := Aborted\<rparr>)
      | _ \<Rightarrow> None)"

definition close_consumer :: "race \<Rightarrow> race option" where
  "close_consumer s =
     (if consumer s = Consuming then Some ((mark_race_stopped s)\<lparr>consumer := Aborting\<rparr>) else None)"

section \<open>Steps\<close>

datatype action =
    Elapse real | Cancel_Client | Close | Keepalive
  | Wake string | Enter string | Receive string | Check string | Claim string | Announce string | Stop_Losers string
  | Fail string | Release string | Drain string | Finish string | Interrupt string
  | Timeout string | Timed_Out string
  | Watch | Orchestrate | Consume

text \<open>A task whose cancellation was requested does nothing but to be interrupted.\<close>

definition leg_action :: "race_config \<Rightarrow> string \<Rightarrow> (race \<Rightarrow> race option) \<Rightarrow> race \<Rightarrow> race option" where
  "leg_action cfg l f s = (if l \<in> set (leg_ids cfg) \<and> l \<notin> cancel_requested s then f s else None)"

fun race_step :: "race_config \<Rightarrow> action \<Rightarrow> race \<Rightarrow> race option" where
  "race_step cfg (Elapse t) s = (if t > 0 then Some (s\<lparr>clock := clock s + t\<rparr>) else None)"
| "race_step cfg Cancel_Client s = (if watch_client cfg then Some (s\<lparr>client_cancelled := True\<rparr>) else None)"
| "race_step cfg Close s = close_consumer s"
| "race_step cfg Keepalive s = keepalive cfg s"
| "race_step cfg (Wake l) s = leg_action cfg l (wake_leg cfg l) s"
| "race_step cfg (Enter l) s = leg_action cfg l (enter cfg l) s"
| "race_step cfg (Receive l) s = leg_action cfg l (receive cfg l) s"
| "race_step cfg (Check l) s = leg_action cfg l (check_chunk cfg l) s"
| "race_step cfg (Claim l) s = leg_action cfg l (claim cfg l) s"
| "race_step cfg (Announce l) s = leg_action cfg l (announce cfg l) s"
| "race_step cfg (Stop_Losers l) s = leg_action cfg l (stop_losers cfg l) s"
| "race_step cfg (Fail l) s = leg_action cfg l (fail cfg l) s"
| "race_step cfg (Release l) s = leg_action cfg l (request_pending_leg_acceleration l) s"
| "race_step cfg (Drain l) s = leg_action cfg l (drain l) s"
| "race_step cfg (Finish l) s = leg_action cfg l (finish cfg l) s"
| "race_step cfg (Interrupt l) s = (if l \<in> set (leg_ids cfg) then interrupt l s else None)"
| "race_step cfg (Timeout l) s = (if l \<in> set (leg_ids cfg) then timeout l s else None)"
| "race_step cfg (Timed_Out l) s = (if l \<in> set (leg_ids cfg) then timed_out cfg l s else None)"
| "race_step cfg Watch s = watch cfg s"
| "race_step cfg Orchestrate s = orchestrate cfg s"
| "race_step cfg Consume s = consume cfg s"

fun race_run :: "race_config \<Rightarrow> action list \<Rightarrow> race \<Rightarrow> race option" where
  "race_run cfg [] s = Some s"
| "race_run cfg (a # as) s = (case race_step cfg a s of None \<Rightarrow> None | Some s' \<Rightarrow> race_run cfg as s')"

inductive race_reaches :: "race_config \<Rightarrow> race \<Rightarrow> bool" for cfg where
  race_start: "race_reaches cfg (race_init cfg)"
| race_next: "race_reaches cfg s \<Longrightarrow> race_step cfg a s = Some s' \<Longrightarrow> race_reaches cfg s'"

lemma race_run_append:
  "race_run cfg (as @ bs) s = (case race_run cfg as s of None \<Rightarrow> None | Some s' \<Rightarrow> race_run cfg bs s')"
  by (induction as arbitrary: s) (auto split: option.splits)

lemma race_run_reaches: "race_reaches cfg s \<Longrightarrow> race_run cfg as s = Some s' \<Longrightarrow> race_reaches cfg s'"
  by (induction as arbitrary: s) (auto split: option.splits intro: race_next)

end
