(* ===== verification/Parallel_Orchestrator.thy ===== *)
theory Parallel_Orchestrator
  imports Parallel_Race Selector_Theorems Coordinator
begin

text \<open>
  The parallel completion around the race: which requests run in parallel
  (\<^verbatim>\<open>_maybe_execute_parallel_completion\<close> of the completion flow, \<^verbatim>\<open>try_parse_parallel_plan\<close>), the legs
  that are raced, and the response that is put together when the client did not ask for a stream
  (\<^verbatim>\<open>ParallelCompletionOrchestrator\<close>). The completion of one leg is an argument.
\<close>

section \<open>Parallel plans\<close>

definition PARALLEL_COMPLETION_ACTIVE_KEY :: string where
  "PARALLEL_COMPLETION_ACTIVE_KEY = ''parallel_completion_active''"

fun is_parallel_node :: "CompositeNode \<Rightarrow> bool" where
  "is_parallel_node (ParallelGroupNode children) = True"
| "is_parallel_node _ = False"

definition is_parallel_composite_plan :: "CompositeRoutePlan \<Rightarrow> bool" where
  "is_parallel_composite_plan plan = is_parallel_node (root_node plan)"

definition parallel_input :: "string \<Rightarrow> RequestContext option \<Rightarrow> CompositeRoutingInput" where
  "parallel_input selector context =
     \<lparr>ri_selector = selector, ri_surface = resolve_composite_routing_surface context, require_explicit_backend = False,
      configured_max_hops = None, max_branch_history = DEFAULT_BRANCH_HISTORY_LIMIT, ri_default_backend = [],
      prefer_first_weighted_branch = False, request_context_tokens = None, weighted_cycle_state = None\<rparr>"

definition has_embedded :: "CompositeLeafNode \<Rightarrow> bool" where
  "has_embedded n = (case embedded_selector (leaf_selector n) of None \<Rightarrow> False | Some s \<Rightarrow> s \<noteq> [])"

definition is_thinker :: "CompositeLeafNode \<Rightarrow> bool" where
  "is_thinker n = thinker_annotation (leaf_selector n)"

text \<open>The executor and the thinker of a weighted group whose executor is a selector of its own.\<close>

definition special_sequence :: "CompositeLeafNode list \<Rightarrow> branch_ref list option" where
  "special_sequence children =
     (if length children = 2 \<and> length (filter has_embedded children) = 1 \<and> length (filter is_thinker children) = 1
      then Some [(0, hd (filter has_embedded children)), (1, hd (filter is_thinker children))] else None)"

definition stored_cycle_state :: "RequestContext option \<Rightarrow> json option" where
  "stored_cycle_state context = map_option (ext_get WEIGHTED_CYCLE_STATE_KEY) context"

definition try_select_special_thinker_parallel_executor ::
  "(real \<Rightarrow> string) \<Rightarrow> CompositeRoutePlan \<Rightarrow> RequestContext option \<Rightarrow>
   parse_error + CompositeRoutePlan option \<times> RequestContext option" where
  "try_select_special_thinker_parallel_executor fs plan context =
     (case root_node plan of
        WeightedGroupNode children \<Rightarrow>
          (case special_sequence children of
             None \<Rightarrow> Inr (None, context)
           | Some sequence \<Rightarrow>
               (let i = cycle_start sequence (plan_normalized_selector plan) (stored_cycle_state context) False;
                    selected = leaf_of (sequence ! i) in
                if thinker_annotation selected then Inr (None, context)
                else (case embedded_selector selected of
                        None \<Rightarrow> Inr (None, context)
                      | Some [] \<Rightarrow> Inr (None, context)
                      | Some embedded \<Rightarrow>
                          bind_res (parse fs (parallel_input embedded context)) (\<lambda>embedded_plan.
                            if \<not> is_parallel_composite_plan embedded_plan then Inr (None, context)
                            else Inr (Some embedded_plan, map_option (ext_set WEIGHTED_CYCLE_STATE_KEY
                              (cycle_state_dict sequence (plan_normalized_selector plan) ((i + 1) mod length sequence))) context)))))
      | _ \<Rightarrow> Inr (None, context))"

definition try_parse_parallel_plan ::
  "(real \<Rightarrow> string) \<Rightarrow> ChatRequest \<Rightarrow> RequestContext option \<Rightarrow> parse_error + CompositeRoutePlan option \<times> RequestContext option" where
  "try_parse_parallel_plan fs request context =
     (let model = py_strip (req_model request) in
      if model = [] \<or> \<not> contains_top_level_operator model (CHR ''!'') then Inr (None, context)
      else bind_res (parse fs (parallel_input model context)) (\<lambda>plan.
        if is_parallel_composite_plan plan then Inr (Some plan, context)
        else try_select_special_thinker_parallel_executor fs plan context))"

section \<open>The cycle state of the session\<close>

text \<open>A session is given by its stored cycle state (\<open>JNull\<close> when it has none); there may be no session.\<close>

definition is_thinker_parallel_selector :: "string \<Rightarrow> bool" where
  "is_thinker_parallel_selector model =
     (let selector = py_strip model in
      py_contains ''[thinker]'' selector \<and> contains_top_level_operator selector (CHR ''^'') \<and>
      contains_top_level_operator selector (CHR ''!''))"

definition is_dict :: "json \<Rightarrow> bool" where
  "is_dict v = (as_dict v \<noteq> None)"

definition load_special_parallel_cycle_state ::
  "json option \<Rightarrow> ChatRequest \<Rightarrow> RequestContext option \<Rightarrow> json option \<times> RequestContext option" where
  "load_special_parallel_cycle_state session request context =
     (case context of
        None \<Rightarrow> (None, None)
      | Some ctx \<Rightarrow>
          if \<not> is_thinker_parallel_selector (req_model request) then (None, Some ctx)
          else (case session of
                  None \<Rightarrow> (None, Some ctx)
                | Some st \<Rightarrow> (Some st, Some (if is_dict st then ext_set WEIGHTED_CYCLE_STATE_KEY st ctx else ctx))))"

definition persist_special_parallel_cycle_state :: "json option \<Rightarrow> RequestContext option \<Rightarrow> json option" where
  "persist_special_parallel_cycle_state session context =
     (case (session, context) of
        (Some st, Some ctx) \<Rightarrow>
          Some (if is_dict (ext_get WEIGHTED_CYCLE_STATE_KEY ctx) then ext_get WEIGHTED_CYCLE_STATE_KEY ctx else st)
      | _ \<Rightarrow> session)"

record parallel_choice =
  chosen_plan :: "CompositeRoutePlan option"
  choice_context :: "RequestContext option"
  choice_session :: "json option"

text \<open>
  The choice of \<^verbatim>\<open>_maybe_execute_parallel_completion\<close>. Without a session the cycle state of a thinker
  selector is written to a copy of the context only. The session is updated when a plan is executed.
\<close>

definition maybe_execute_parallel_completion ::
  "(real \<Rightarrow> string) \<Rightarrow> json option \<Rightarrow> ChatRequest \<Rightarrow> RequestContext option \<Rightarrow> parse_error + parallel_choice" where
  "maybe_execute_parallel_completion fs session request context =
     (if (case context of None \<Rightarrow> False | Some ctx \<Rightarrow> ext_get PARALLEL_COMPLETION_ACTIVE_KEY ctx = JBool True)
      then Inr \<lparr>chosen_plan = None, choice_context = context, choice_session = session\<rparr>
      else
        (let (loaded, context1) = load_special_parallel_cycle_state session request context;
             ephemeral = (context1 \<noteq> None \<and> loaded = None \<and> is_thinker_parallel_selector (req_model request)) in
         bind_res (try_parse_parallel_plan fs request context1) (\<lambda>(plan, context2).
           let context3 = (if ephemeral then context1 else context2) in
           Inr \<lparr>chosen_plan = plan, choice_context = context3,
                choice_session = (if plan = None \<or> loaded = None then session
                                  else persist_special_parallel_cycle_state loaded context3)\<rparr>)))"

section \<open>Legs\<close>

datatype completion_result =
    Streams "stream_chunk list" stream_end
  | NoStream
  | RaisesRoutingError
  | RaisesOther

type_synonym completion_fn = "ChatRequest \<Rightarrow> RequestContext option \<Rightarrow> completion_result"

record LegRuntime =
  rt_leg_id :: string
  rt_model :: string
  rt_envelope_callback :: "bool option"
  rt_call_task_done :: "bool option"
  rt_cancelled :: bool

datatype cancel_effect = Cancel_Envelope | Cancel_Call_Task

definition new_runtime :: "string \<Rightarrow> string \<Rightarrow> LegRuntime" where
  "new_runtime l m = \<lparr>rt_leg_id = l, rt_model = m, rt_envelope_callback = None, rt_call_task_done = None, rt_cancelled = False\<rparr>"

text \<open>What cancelling a leg does to its upstream request; a second call does nothing.\<close>

definition cancel_leg_runtime :: "LegRuntime \<Rightarrow> cancel_effect list \<times> LegRuntime" where
  "cancel_leg_runtime rt =
     (if rt_cancelled rt then ([], rt)
      else ((if rt_envelope_callback rt = Some True then [Cancel_Envelope] else []) @
            (if rt_call_task_done rt = Some False then [Cancel_Call_Task] else []),
            rt\<lparr>rt_cancelled := True\<rparr>))"

definition clone_context_for_leg :: "RequestContext option \<Rightarrow> RequestContext option" where
  "clone_context_for_leg context = map_option (ext_set PARALLEL_COMPLETION_ACTIVE_KEY (JBool True)) context"

text \<open>The stream of a leg: nothing when the leg was cancelled before its request or before its answer.\<close>

definition stream_factory :: "bool \<Rightarrow> bool \<Rightarrow> completion_result \<Rightarrow> stream_chunk list \<times> stream_end" where
  "stream_factory cancelled_before cancelled_after result =
     (if cancelled_before then ([], Exhausted)
      else (case result of
              RaisesRoutingError \<Rightarrow> ([], RoutingFailure)
            | RaisesOther \<Rightarrow> ([], OtherFailure)
            | NoStream \<Rightarrow> ([], Exhausted)
            | Streams chunks fin \<Rightarrow> if cancelled_after then ([], Exhausted) else (chunks, fin)))"

fun seconds :: "pyfloat \<Rightarrow> real" where
  "seconds (Finite r) = r"
| "seconds _ = 0"

definition leg_name :: "nat \<Rightarrow> CompositeLeafSelector \<Rightarrow> string" where
  "leg_name index leaf = ''parallel-'' @ py_str_nat index @ ''-'' @ normalized_selector leaf"

definition build_race_leg :: "completion_fn \<Rightarrow> ChatRequest \<Rightarrow> RequestContext option \<Rightarrow> nat \<Rightarrow> CompositeLeafNode \<Rightarrow> ParallelRaceLeg" where
  "build_race_leg call request context index node =
     (let leaf = leaf_selector node;
          (chunks, fin) = stream_factory False False
            (call (request\<lparr>req_model := normalized_selector leaf\<rparr>) (clone_context_for_leg context)) in
      \<lparr>leg_id = leg_name index leaf, leg_handicap = seconds (handicap_seconds leaf),
       leg_ttft_timeout = seconds (ttft_timeout_seconds leaf), leg_chunks = chunks, leg_end = fin, cancel_raises = False\<rparr>)"

fun parallel_children :: "CompositeNode \<Rightarrow> CompositeLeafNode list" where
  "parallel_children (ParallelGroupNode children) = children"
| "parallel_children _ = []"

definition race_of :: "codec \<Rightarrow> completion_fn \<Rightarrow> CompositeRoutePlan \<Rightarrow> ChatRequest \<Rightarrow> RequestContext option \<Rightarrow> race_config" where
  "race_of cd call plan request context =
     \<lparr>race_codec = cd,
      race_legs = map (\<lambda>(i, node). build_race_leg call request context i node) (enumerate 0 (parallel_children (root_node plan))),
      watch_client = True, send_keepalives = True, keepalive_interval = 5\<rparr>"

definition execute_parallel ::
  "codec \<Rightarrow> completion_fn \<Rightarrow> CompositeRoutePlan \<Rightarrow> ChatRequest \<Rightarrow> RequestContext option \<Rightarrow> exn + race_config" where
  "execute_parallel cd call plan request context =
     (if \<not> is_parallel_composite_plan plan then Inl (value_error ''parallel orchestration requires a parallel group root'')
      else Inr (race_of cd call plan request context))"

text \<open>What the race yields, as the streaming envelope hands it on.\<close>

fun as_processed :: "stream_chunk \<Rightarrow> stream_chunk" where
  "as_processed (Raw content) = ProcessedResponse content []"
| "as_processed c = c"

definition race_stream :: "race \<Rightarrow> stream_chunk list" where
  "race_stream s = map (as_processed \<circ> fst) (yielded s)"

definition parallel_response :: "codec \<Rightarrow> real \<Rightarrow> race \<Rightarrow> jdict" where
  "parallel_response cd now s = collect_streaming_envelope_to_response cd now (race_stream s)"

end
