(* ===== verification/Race_Steps.thy ===== *)
theory Race_Steps
  imports Parallel_Race
begin

text \<open>
  The steps of a race in the form the invariant proofs use: the effect of the helpers that run over
  several legs as one update of the state, and an elimination rule with one case for each way a
  step can go.
\<close>

section \<open>Effects of the helpers\<close>

lemma cancel_sets_cong: "H = H' \<Longrightarrow> C = C' \<Longrightarrow> s\<lparr>hung_up := H, cancelled_legs := C\<rparr> = s\<lparr>hung_up := H', cancelled_legs := C'\<rparr>"
  by simp

lemma not_deferred [simp]:
  "\<not> should_defer_winner_cancel Winner_Selected l s" "\<not> should_defer_winner_cancel Ttft_Timeout l s"
  "\<not> should_defer_winner_cancel Leg_Failed l s"
  by (simp_all add: should_defer_winner_cancel_def)

definition hung_after :: "stop_reason \<Rightarrow> string \<Rightarrow> race \<Rightarrow> string set" where
  "hung_after why l s =
     (if l \<in> cancelled_legs s \<or> should_defer_winner_cancel why l s then hung_up s else insert l (hung_up s))"

definition cancelled_after :: "race_config \<Rightarrow> stop_reason \<Rightarrow> string \<Rightarrow> race \<Rightarrow> string set" where
  "cancelled_after cfg why l s =
     (if l \<in> cancelled_legs s \<or> should_defer_winner_cancel why l s \<or> cancel_raises (leg_of cfg l) then cancelled_legs s
      else insert l (cancelled_legs s))"

lemma request_leg_cancel_eq:
  "request_leg_cancel cfg why l s = s\<lparr>hung_up := hung_after why l s, cancelled_legs := cancelled_after cfg why l s\<rparr>"
  by (simp add: request_leg_cancel_def hung_after_def cancelled_after_def)

lemma fold_request_leg_cancel:
  "fold (request_leg_cancel cfg Winner_Selected) ls s =
     s\<lparr>hung_up := hung_up s \<union> (set ls - cancelled_legs s),
       cancelled_legs := cancelled_legs s \<union> {l \<in> set ls. \<not> cancel_raises (leg_of cfg l)}\<rparr>"
proof (induction ls arbitrary: s)
  case (Cons l ls)
  show ?case
    unfolding fold.simps comp_apply Cons.IH request_leg_cancel_eq [of cfg Winner_Selected l s]
    by (simp, rule cancel_sets_cong) (auto simp: hung_after_def cancelled_after_def)
qed simp

lemma stop_loser_protocols_eq:
  "stop_loser_protocols cfg w s =
     s\<lparr>hung_up := hung_up s \<union> (set (leg_ids cfg) - {w} - cancelled_legs s),
       cancelled_legs := cancelled_legs s \<union> {l \<in> set (leg_ids cfg) - {w}. \<not> cancel_raises (leg_of cfg l)}\<rparr>"
  unfolding stop_loser_protocols_def fold_request_leg_cancel losers_def
  by (rule cancel_sets_cong) auto

lemma defer_cancel_sets [simp]:
  "should_defer_winner_cancel why l (s\<lparr>hung_up := H, cancelled_legs := C\<rparr>) = should_defer_winner_cancel why l s"
  by (simp add: should_defer_winner_cancel_def)

definition requested_after :: "stop_reason \<Rightarrow> string \<Rightarrow> race \<Rightarrow> string set" where
  "requested_after why l s =
     (if leg_task s l = Gone \<or> should_defer_winner_cancel why l s then cancel_requested s else insert l (cancel_requested s))"

lemma cancel_leg_task_eq: "cancel_leg_task why l s = s\<lparr>cancel_requested := requested_after why l s\<rparr>"
  by (simp add: cancel_leg_task_def requested_after_def)

lemma fold_cancel_leg_task:
  "fold (cancel_leg_task Winner_Selected) ls s =
     s\<lparr>cancel_requested := cancel_requested s \<union> {l \<in> set ls. leg_task s l \<noteq> Gone}\<rparr>"
proof (induction ls arbitrary: s)
  case (Cons l ls)
  have "requested_after Winner_Selected l s \<union> {l \<in> set ls. leg_task s l \<noteq> Gone} =
      cancel_requested s \<union> {m \<in> set (l # ls). leg_task s m \<noteq> Gone}"
    by (auto simp: requested_after_def)
  then show ?case
    unfolding fold.simps comp_apply cancel_leg_task_eq [of _ l s] Cons.IH by simp
qed simp

lemma stop_loser_tasks_eq:
  "stop_loser_tasks cfg w s =
     s\<lparr>cancel_requested := cancel_requested s \<union> {l \<in> set (leg_ids cfg) - {w}. leg_task s l \<noteq> Gone}\<rparr>"
proof -
  have "{l \<in> set (losers cfg w). leg_task s l \<noteq> Gone} = {l \<in> set (leg_ids cfg) - {w}. leg_task s l \<noteq> Gone}"
    by (auto simp: losers_def)
  then show ?thesis
    by (simp add: stop_loser_tasks_def fold_cancel_leg_task)
qed

lemma stop_leg_eq:
  "stop_leg cfg why l s = s\<lparr>hung_up := hung_after why l s, cancelled_legs := cancelled_after cfg why l s,
     cancel_requested := requested_after why l s\<rparr>"
  by (simp add: stop_leg_def request_leg_cancel_eq cancel_leg_task_eq requested_after_def)

section \<open>The steps one by one\<close>

text \<open>The moves of a leg that change nothing but its own position.\<close>

inductive quiet_move :: "race_config \<Rightarrow> race \<Rightarrow> string \<Rightarrow> leg_pc \<Rightarrow> leg_pc \<Rightarrow> bool" for cfg s l where
  "\<not> should_stop s \<Longrightarrow> start_delay cfg l \<le> clock s \<or> handicap_accelerate s \<Longrightarrow> quiet_move cfg s l Delayed Entering"
| "should_stop s \<Longrightarrow> quiet_move cfg s l Delayed Leaving"
| "winner_leg_id s \<noteq> None \<Longrightarrow> lock_free s \<Longrightarrow> quiet_move cfg s l Entering Leaving"
| "todo s l = [] \<Longrightarrow> leg_end (leg_of cfg l) = Exhausted \<Longrightarrow> quiet_move cfg s l (Reading won) Leaving"
| "todo s l = [] \<Longrightarrow> leg_end (leg_of cfg l) \<noteq> Exhausted \<Longrightarrow> leg_end (leg_of cfg l) \<noteq> Stalled \<Longrightarrow>
     quiet_move cfg s l (Reading won) Failing"
| "winner_leg_id s \<noteq> None \<Longrightarrow> winner_leg_id s \<noteq> Some l \<Longrightarrow> quiet_move cfg s l (Checking c won) Leaving"
| "winner_leg_id s = None \<or> winner_leg_id s = Some l \<Longrightarrow> is_terminal_error_chunk c \<Longrightarrow> quiet_move cfg s l (Checking c won) Failing"
| "winner_leg_id s = None \<or> winner_leg_id s = Some l \<Longrightarrow> \<not> is_terminal_error_chunk c \<Longrightarrow>
     \<not> is_meaningful_token (race_codec cfg) c \<Longrightarrow> quiet_move cfg s l (Checking c False) (Reading False)"
| "winner_leg_id s = None \<or> winner_leg_id s = Some l \<Longrightarrow> \<not> is_terminal_error_chunk c \<Longrightarrow>
     is_meaningful_token (race_codec cfg) c \<Longrightarrow> quiet_move cfg s l (Checking c False) (Claiming c)"
| "winner_leg_id s \<noteq> None \<or> should_stop s \<Longrightarrow> quiet_move cfg s l (Claiming c) (Reading False)"

abbreviation able :: "race_config \<Rightarrow> string \<Rightarrow> race \<Rightarrow> bool" where
  "able cfg l s \<equiv> l \<in> set (leg_ids cfg) \<and> l \<notin> cancel_requested s"

abbreviation to_pc :: "race \<Rightarrow> string \<Rightarrow> leg_pc \<Rightarrow> race" where
  "to_pc s l pc \<equiv> s\<lparr>leg_task := (leg_task s)(l := pc)\<rparr>"

lemma enter_cases:
  assumes "enter cfg l s = Some s'"
  obtains (quiet) pc where "quiet_move cfg s l (leg_task s l) pc" "s' = to_pc s l pc"
  | (enter) "leg_task s l = Entering" "lock_free s" "winner_leg_id s = None"
      "s' = (to_pc s l (Reading False))\<lparr>streaming_started := insert l (streaming_started s),
        watchdog := (watchdog s)(l := (if leg_ttft_timeout (leg_of cfg l) > 0
          then Some (clock s + leg_ttft_timeout (leg_of cfg l)) else None))\<rparr>"
proof -
  from assms have pc: "leg_task s l = Entering" "lock_free s"
    by (auto simp: enter_def split: if_splits)
  show ?thesis
  proof (cases "winner_leg_id s = None")
    case True
    with pc assms show ?thesis
      by (intro enter) (simp_all add: enter_def move_def)
  next
    case False
    with pc assms show ?thesis
      by (intro quiet [of Leaving]) (simp_all add: enter_def move_def quiet_move.intros)
  qed
qed

lemma receive_cases:
  assumes "receive cfg l s = Some s'"
  obtains (quiet) pc where "quiet_move cfg s l (leg_task s l) pc" "s' = to_pc s l pc"
  | (receive) won c cs where "leg_task s l = Reading won" "todo s l = c # cs"
      "s' = (to_pc s l (if should_stop s then Leaving else Checking c won))\<lparr>todo := (todo s)(l := cs)\<rparr>"
proof -
  from assms obtain won where pc: "leg_task s l = Reading won"
    by (auto simp: receive_def split: leg_pc.splits)
  show ?thesis
  proof (cases "todo s l")
    case Nil
    with pc assms show ?thesis
      by (cases "leg_end (leg_of cfg l)") (auto simp: receive_def move_def intro!: quiet quiet_move.intros)
  next
    case (Cons c cs)
    with pc assms show ?thesis
      by (intro receive [of won c cs]) (auto simp: receive_def move_def)
  qed
qed

lemma check_cases:
  assumes "check_chunk cfg l s = Some s'"
  obtains (quiet) pc where "quiet_move cfg s l (leg_task s l) pc" "s' = to_pc s l pc"
  | (pass) c where "leg_task s l = Checking c True" "winner_leg_id s = None \<or> winner_leg_id s = Some l"
      "\<not> is_terminal_error_chunk c" "s' = (to_pc s l (Reading True))\<lparr>race_queue := race_queue s @ [Some (c, None)]\<rparr>"
proof -
  from assms obtain c won where pc: "leg_task s l = Checking c won" "lock_free s"
    by (auto simp: check_chunk_def split: if_splits leg_pc.splits)
  let ?mine = "winner_leg_id s = None \<or> winner_leg_id s = Some l"
  show ?thesis
  proof (cases "?mine \<and> \<not> is_terminal_error_chunk c \<and> won")
    case True
    with pc assms show ?thesis
      by (intro pass [of c]) (auto simp: check_chunk_def move_def emit_def)
  next
    case False
    with pc assms show ?thesis
      by (cases "?mine"; cases "is_terminal_error_chunk c"; cases "is_meaningful_token (race_codec cfg) c")
        (auto simp: check_chunk_def move_def intro!: quiet quiet_move.intros)
  qed
qed

lemma claim_cases:
  assumes "claim cfg l s = Some s'"
  obtains (quiet) pc where "quiet_move cfg s l (leg_task s l) pc" "s' = to_pc s l pc"
  | (claim) c where "leg_task s l = Claiming c" "lock_free s" "winner_leg_id s = None" "\<not> should_stop s"
      "s' = (to_pc s l (Claimed c))\<lparr>winner_leg_id := Some l, first_token_event := True, watchdog := (watchdog s)(l := None)\<rparr>"
proof -
  from assms obtain c where pc: "leg_task s l = Claiming c" "lock_free s"
    by (auto simp: claim_def split: if_splits leg_pc.splits)
  show ?thesis
  proof (cases "winner_leg_id s = None \<and> \<not> should_stop s")
    case True
    with pc assms show ?thesis
      by (intro claim [of c]) (simp_all add: claim_def move_def)
  next
    case False
    with pc assms show ?thesis
      by (intro quiet [of "Reading False"]) (auto simp: claim_def move_def intro: quiet_move.intros)
  qed
qed

text \<open>The steps of the watcher and of the consumer.\<close>

lemma watch_cases:
  assumes "watch cfg s = Some s'"
  obtains (seen) "watcher s = Watching" "client_cancelled s" "s' = (mark_race_stopped s)\<lparr>watcher := Deciding\<rparr>"
  | (decided) pc where "watcher s = Deciding \<or> watcher s = Awaiting_First_Chunk" "s' = s\<lparr>watcher := pc\<rparr>"
      "pc = Awaiting_First_Chunk \<and> watcher s = Deciding \<or>
       pc = Stopping (leg_ids cfg) \<and> (winner_leg_id s = None \<or> winner_first_chunk_emitted s \<or> winner_first_chunk_emitted_event s)"
  | (stop) l ls where "watcher s = Stopping (l # ls)" "s' = (stop_leg cfg Client_Cancel l s)\<lparr>watcher := Stopping ls\<rparr>"
  | (over) "watcher s = Stopping []" "s' = (put_sentinel s)\<lparr>watcher := Watcher_Over\<rparr>"
proof (cases "watcher s")
  case (Stopping ls)
  with assms that show ?thesis
    by (cases ls) (simp_all add: watch_def)
qed (use assms that in \<open>auto simp: watch_def split: if_splits\<close>)

lemma consume_cases:
  assumes "consume cfg s = Some s'"
  obtains (item) x q where "consumer s = Consuming" "race_queue s = Some x # q" "s' = s\<lparr>race_queue := q, yielded := yielded s @ [x]\<rparr>"
  | (sentinel) q where "consumer s = Consuming" "race_queue s = None # q"
      "s' = (mark_race_stopped s)\<lparr>race_queue := q, consumer := Finishing\<rparr>"
  | (finishing) "consumer s = Finishing" "s' = (tear_down cfg s)\<lparr>consumer := Finished\<rparr>"
  | (abort) "consumer s = Aborting" "winner_leg_id s = None \<or> winner_first_chunk_emitted s \<or> winner_first_chunk_emitted_event s"
      "s' = s\<lparr>consumer := Abort_Stopping (leg_ids cfg)\<rparr>"
  | (stop) l ls where "consumer s = Abort_Stopping (l # ls)" "s' = (stop_leg cfg Race_Aborted l s)\<lparr>consumer := Abort_Stopping ls\<rparr>"
  | (aborted) "consumer s = Abort_Stopping []" "s' = (tear_down cfg s)\<lparr>consumer := Aborted\<rparr>"
proof (cases "consumer s")
  case (Abort_Stopping ls)
  with assms that show ?thesis
    by (cases ls) (simp_all add: consume_def)
next
  case Consuming
  with assms that show ?thesis
    by (auto simp: consume_def split: list.splits option.splits)
qed (use assms that in \<open>auto simp: consume_def split: if_splits\<close>)

text \<open>All steps.\<close>

definition after_interrupt :: "leg_pc \<Rightarrow> leg_pc" where
  "after_interrupt pc = (case pc of Ending _ \<Rightarrow> Gone | _ \<Rightarrow> Leaving)"

lemma race_step_cases:
  assumes "race_step cfg a s = Some s'"
  obtains
    (elapse) t where "t > 0" "s' = s\<lparr>clock := clock s + t\<rparr>" "a = Elapse t"
  | (client) "s' = s\<lparr>client_cancelled := True\<rparr>" "a = Cancel_Client"
  | (close) "consumer s = Consuming" "s' = (mark_race_stopped s)\<lparr>consumer := Aborting\<rparr>"
  | (keepalive) "orchestrating s" "\<not> should_stop s" "\<not> first_token_event s"
      "s' = (emit keepalive_chunk None s)\<lparr>next_keepalive := clock s + keepalive_interval cfg\<rparr>" "a = Keepalive"
  | (quiet) l pc where "able cfg l s" "quiet_move cfg s l (leg_task s l) pc" "s' = to_pc s l pc"
  | (enter) l where "able cfg l s" "leg_task s l = Entering" "lock_free s" "winner_leg_id s = None"
      "s' = (to_pc s l (Reading False))\<lparr>streaming_started := insert l (streaming_started s),
        watchdog := (watchdog s)(l := (if leg_ttft_timeout (leg_of cfg l) > 0
          then Some (clock s + leg_ttft_timeout (leg_of cfg l)) else None))\<rparr>"
  | (receive) l won c cs where "able cfg l s" "leg_task s l = Reading won" "todo s l = c # cs"
      "s' = (to_pc s l (if should_stop s then Leaving else Checking c won))\<lparr>todo := (todo s)(l := cs)\<rparr>"
  | (pass) l c where "able cfg l s" "leg_task s l = Checking c True" "winner_leg_id s = None \<or> winner_leg_id s = Some l"
      "\<not> is_terminal_error_chunk c" "s' = (to_pc s l (Reading True))\<lparr>race_queue := race_queue s @ [Some (c, None)]\<rparr>"
  | (claim) l c where "able cfg l s" "leg_task s l = Claiming c" "lock_free s" "winner_leg_id s = None" "\<not> should_stop s"
      "s' = (to_pc s l (Claimed c))\<lparr>winner_leg_id := Some l, first_token_event := True, watchdog := (watchdog s)(l := None)\<rparr>"
  | (announce) l c where "able cfg l s" "leg_task s l = Claimed c"
      "s' = (move l Announced (emit c (Some l) (stop_loser_protocols cfg l s)))
        \<lparr>winner_first_chunk_emitted := True, winner_first_chunk_emitted_event := True\<rparr>"
  | (stop_losers) l where "able cfg l s" "leg_task s l = Announced" "s' = move l (Reading True) (stop_loser_tasks cfg l s)"
  | (fail) l where "able cfg l s" "leg_task s l = Failing" "s' = move l Releasing (request_leg_cancel cfg Leg_Failed l s)"
  | (release) l where "able cfg l s" "leg_task s l = Releasing"
      "s' = (to_pc s l Leaving)\<lparr>handicap_accelerate := (handicap_accelerate s \<or> winner_leg_id s = None \<and> \<not> should_stop s)\<rparr>"
  | (drain) l where "able cfg l s" "leg_task s l = Leaving"
      "s' = (to_pc s l (Ending (winner_leg_id s = None)))
        \<lparr>watchdog := (watchdog s)(l := None), lock_owner := (if lock_owner s = Some l then None else lock_owner s)\<rparr>"
  | (finish) l b acc where "able cfg l s" "leg_task s l = Ending b" "acc \<longrightarrow> l \<in> streaming_started s"
      "s' = (to_pc s l Gone)\<lparr>handicap_accelerate := (handicap_accelerate s \<or> acc),
         winner_first_chunk_emitted_event := (winner_first_chunk_emitted_event s \<or> winner_leg_id s = Some l)\<rparr>"
  | (interrupt) l where "l \<in> set (leg_ids cfg)" "leg_task s l \<noteq> Gone"
      "l \<in> cancel_requested s \<or> l \<in> hung_up s \<and> is_reading (leg_task s l)"
      "s' = (to_pc s l (after_interrupt (leg_task s l)))\<lparr>cancel_requested := cancel_requested s - {l}\<rparr>"
  | (timeout) l t where "l \<in> set (leg_ids cfg)" "watchdog s l = Some t" "t \<le> clock s" "lock_free s" "winner_leg_id s = None" "\<not> should_stop s"
      "s' = s\<lparr>lock_owner := Some l, hung_up := hung_after Ttft_Timeout l s\<rparr>"
  | (too_late) l t where "l \<in> set (leg_ids cfg)" "watchdog s l = Some t" "lock_free s" "s' = s\<lparr>watchdog := (watchdog s)(l := None)\<rparr>"
  | (timed_out) l where "lock_owner s = Some l" "s' = (stop_leg cfg Ttft_Timeout l s)\<lparr>lock_owner := None, watchdog := (watchdog s)(l := None)\<rparr>"
  | (watch) "watch cfg s = Some s'"
  | (orchestrate) "orchestrating s" "\<forall>l \<in> set (leg_ids cfg). leg_task s l = Gone"
      "s' = (put_sentinel (mark_race_stopped s))\<lparr>watcher := Watcher_Over, orchestrating := False\<rparr>"
  | (consume) "consume cfg s = Some s'"
proof (cases a)
  case (Wake l)
  with assms show ?thesis
    by (intro quiet [of l "if should_stop s then Leaving else Entering"])
      (auto simp: leg_action_def wake_leg_def move_def intro: quiet_move.intros split: if_splits)
next
  case (Enter l)
  with assms have "able cfg l s" "enter cfg l s = Some s'" by (auto simp: leg_action_def split: if_splits)
  from this(2) show ?thesis
  proof (cases rule: enter_cases)
    case (quiet pc)
    with \<open>able cfg l s\<close> show ?thesis by (intro that(5))
  next
    case enter
    with \<open>able cfg l s\<close> show ?thesis by (intro that(6))
  qed
next
  case (Receive l)
  with assms have "able cfg l s" "receive cfg l s = Some s'" by (auto simp: leg_action_def split: if_splits)
  with that(5,7) show ?thesis by (auto elim: receive_cases)
next
  case (Check l)
  with assms have "able cfg l s" "check_chunk cfg l s = Some s'" by (auto simp: leg_action_def split: if_splits)
  with that(5,8) show ?thesis by (auto elim: check_cases)
next
  case (Claim l)
  with assms have "able cfg l s" "claim cfg l s = Some s'" by (auto simp: leg_action_def split: if_splits)
  with that(5,9) show ?thesis by (auto elim: claim_cases)
next
  case (Announce l)
  with assms that(10) show ?thesis by (auto simp: leg_action_def announce_def split: if_splits leg_pc.splits)
next
  case (Finish l)
  then obtain b where b: "able cfg l s" "leg_task s l = Ending b"
    using assms by (auto simp: leg_action_def finish_def split: if_splits leg_pc.splits)
  with assms Finish show ?thesis
    by (intro finish [of l b "leg_handicap (leg_of cfg l) > 0 \<and> l \<in> streaming_started s \<and> b \<and> \<not> should_stop s"])
      (auto simp: leg_action_def finish_def set_winner_event_def move_def split: if_splits)
next
  case (Interrupt l)
  with assms that(16) show ?thesis by (auto simp: interrupt_def after_interrupt_def move_def split: if_splits)
next
  case (Timeout l)
  then obtain t where t: "l \<in> set (leg_ids cfg)" "watchdog s l = Some t" "t \<le> clock s" "lock_free s"
    using assms by (auto simp: timeout_def split: if_splits option.splits)
  show ?thesis
  proof (cases "winner_leg_id s = None \<and> \<not> should_stop s")
    case True
    with t assms Timeout show ?thesis by (intro that(17) [of l t]) (simp_all add: timeout_def hung_after_def)
  next
    case False
    with t assms Timeout show ?thesis by (intro that(18) [of l t]) (auto simp: timeout_def)
  qed
next
  case (Timed_Out l)
  with assms that(19) show ?thesis by (auto simp: timed_out_def split: if_splits)
next
  case (Drain l)
  with assms that(14) show ?thesis by (auto simp: leg_action_def drain_def move_def split: if_splits)
next
  case (Release l)
  with assms that(13) show ?thesis by (auto simp: leg_action_def request_pending_leg_acceleration_def move_def split: if_splits)
next
  case Orchestrate
  with assms that(21) show ?thesis by (auto simp: orchestrate_def list_all_iff split: if_splits)
next
  case (Stop_Losers l)
  with assms that(11) show ?thesis by (auto simp: leg_action_def stop_losers_def split: if_splits)
next
  case (Fail l)
  with assms that(12) show ?thesis by (auto simp: leg_action_def fail_def split: if_splits)
next
  case Keepalive
  with assms that(4) show ?thesis by (auto simp: keepalive_def split: if_splits)
next
  case Close
  with assms that(3) show ?thesis by (auto simp: close_consumer_def split: if_splits)
next
  case (Elapse t)
  with assms that(1) show ?thesis by (auto split: if_splits)
next
  case Cancel_Client
  with assms that(2) show ?thesis by (auto split: if_splits)
next
  case Watch
  with assms that(20) show ?thesis by simp
next
  case Consume
  with assms that(22) show ?thesis by simp
qed

end
