(* ===== verification/Race_Invariants.thy ===== *)
theory Race_Invariants
  imports Race_Steps "HOL-Library.Sublist"
begin

text \<open>
  The invariants of a race: of the lock, the winner and its first chunk, and of what is sent to the
  consumer. Each is proved for every step from the elimination rule of the steps.
\<close>

section \<open>The core of the protocol\<close>

definition won_pc :: "leg_pc \<Rightarrow> bool" where
  "won_pc pc = (case pc of Claimed _ \<Rightarrow> True | Announced \<Rightarrow> True | Reading won \<Rightarrow> won | Checking _ won \<Rightarrow> won | _ \<Rightarrow> False)"

definition early_pc :: "leg_pc \<Rightarrow> bool" where
  "early_pc pc = (case pc of Delayed \<Rightarrow> True | Entering \<Rightarrow> True | Reading won \<Rightarrow> \<not> won | Checking _ won \<Rightarrow> \<not> won
     | Claiming _ \<Rightarrow> True | _ \<Rightarrow> False)"

definition is_claimed :: "leg_pc \<Rightarrow> bool" where
  "is_claimed pc = (case pc of Claimed _ \<Rightarrow> True | _ \<Rightarrow> False)"

lemmas pc_classes = won_pc_def early_pc_def is_claimed_def is_reading_def

fun is_stopping :: "watcher_pc \<Rightarrow> bool" where
  "is_stopping (Stopping ls) = True"
| "is_stopping _ = False"

fun is_winding :: "consumer_pc \<Rightarrow> bool" where
  "is_winding Finishing = True"
| "is_winding (Abort_Stopping ls) = True"
| "is_winding _ = False"

definition winding_up :: "race \<Rightarrow> bool" where
  "winding_up s \<longleftrightarrow> None \<in> set (race_queue s) \<or> is_stopping (watcher s) \<or> is_winding (consumer s)"

definition cancel_ok :: "race \<Rightarrow> bool" where
  "cancel_ok s \<longleftrightarrow> cancelled_legs s \<subseteq> hung_up s"

definition lock_ok :: "race_config \<Rightarrow> race \<Rightarrow> bool" where
  "lock_ok cfg s \<longleftrightarrow> (\<forall>l. lock_owner s = Some l \<longrightarrow> l \<in> set (leg_ids cfg) \<and> watchdog s l \<noteq> None \<and> winner_leg_id s = None)"

text \<open>The winner has left the part of its task before the claim, and only the winner has the flag of one.\<close>

definition winner_ok :: "race_config \<Rightarrow> race \<Rightarrow> bool" where
  "winner_ok cfg s \<longleftrightarrow> (\<forall>w. winner_leg_id s = Some w \<longrightarrow> w \<in> set (leg_ids cfg) \<and> \<not> early_pc (leg_task s w)) \<and>
     (\<forall>l. won_pc (leg_task s l) \<longrightarrow> winner_leg_id s = Some l)"

text \<open>Before the first chunk is out the winner stands right behind its claim and nobody cancels it.\<close>

definition first_chunk_ok :: "race \<Rightarrow> bool" where
  "first_chunk_ok s \<longleftrightarrow>
     (\<not> winner_first_chunk_emitted s \<longrightarrow>
       (\<forall>w. winner_leg_id s = Some w \<longrightarrow> is_claimed (leg_task s w) \<and> w \<notin> cancel_requested s)) \<and>
     (winner_first_chunk_emitted_event s \<longrightarrow> winner_first_chunk_emitted s)"

definition emitted_ok :: "race \<Rightarrow> bool" where
  "emitted_ok s \<longleftrightarrow> (winner_first_chunk_emitted s \<longrightarrow> winner_leg_id s \<noteq> None \<and> (\<forall>l. \<not> is_claimed (leg_task s l)))"

definition winding_ok :: "race \<Rightarrow> bool" where
  "winding_ok s \<longleftrightarrow> (winding_up s \<longrightarrow> race_stopped s \<and> (winner_leg_id s = None \<or> winner_first_chunk_emitted s)) \<and>
     (watcher s = Deciding \<or> watcher s = Awaiting_First_Chunk \<or> consumer s = Aborting \<longrightarrow> race_stopped s)"

definition core_ok :: "race_config \<Rightarrow> race \<Rightarrow> bool" where
  "core_ok cfg s \<longleftrightarrow> cancel_ok s \<and> lock_ok cfg s \<and> winner_ok cfg s \<and> first_chunk_ok s \<and> emitted_ok s \<and> winding_ok s"

text \<open>What the watcher and the consumer leave as it is.\<close>

lemma watch_frame:
  assumes "watch cfg s = Some s'"
  shows "leg_task s' = leg_task s" "todo s' = todo s" "winner_leg_id s' = winner_leg_id s" "lock_owner s' = lock_owner s"
    "watchdog s' = watchdog s" "winner_first_chunk_emitted s' = winner_first_chunk_emitted s"
    "winner_first_chunk_emitted_event s' = winner_first_chunk_emitted_event s" "streaming_started s' = streaming_started s"
    "clock s' = clock s" "handicap_accelerate s' = handicap_accelerate s" "yielded s' = yielded s"
    "client_cancelled s' = client_cancelled s" "orchestrating s' = orchestrating s" "consumer s' = consumer s"
  using assms by (cases rule: watch_cases; simp add: mark_race_stopped_def stop_leg_eq put_sentinel_def)+

lemma tear_down_frame:
  "leg_task (tear_down cfg s) = leg_task s" "todo (tear_down cfg s) = todo s" "winner_leg_id (tear_down cfg s) = winner_leg_id s"
  "lock_owner (tear_down cfg s) = lock_owner s" "watchdog (tear_down cfg s) = watchdog s"
  "winner_first_chunk_emitted (tear_down cfg s) = winner_first_chunk_emitted s"
  "winner_first_chunk_emitted_event (tear_down cfg s) = winner_first_chunk_emitted_event s"
  "streaming_started (tear_down cfg s) = streaming_started s" "clock (tear_down cfg s) = clock s"
  "handicap_accelerate (tear_down cfg s) = handicap_accelerate s" "client_cancelled (tear_down cfg s) = client_cancelled s"
  "hung_up (tear_down cfg s) = hung_up s" "cancelled_legs (tear_down cfg s) = cancelled_legs s"
  "race_stopped (tear_down cfg s) = race_stopped s" "yielded (tear_down cfg s) = yielded s"
  "cancel_requested (tear_down cfg s) = cancel_requested s \<union> {l \<in> set (leg_ids cfg). leg_task s l \<noteq> Gone}"
  "watcher (tear_down cfg s) = Watcher_Over" "orchestrating (tear_down cfg s) = False"
  "race_queue (tear_down cfg s) = race_queue s @ (if orchestrating s then [None] else [])"
  "consumer (tear_down cfg s) = consumer s"
  by (simp_all add: tear_down_def Let_def put_sentinel_def)

lemma consume_frame:
  assumes "consume cfg s = Some s'"
  shows "leg_task s' = leg_task s" "todo s' = todo s" "winner_leg_id s' = winner_leg_id s" "lock_owner s' = lock_owner s"
    "watchdog s' = watchdog s" "winner_first_chunk_emitted s' = winner_first_chunk_emitted s"
    "winner_first_chunk_emitted_event s' = winner_first_chunk_emitted_event s" "streaming_started s' = streaming_started s"
    "clock s' = clock s" "handicap_accelerate s' = handicap_accelerate s" "client_cancelled s' = client_cancelled s"
  using assms by (cases rule: consume_cases; simp add: mark_race_stopped_def stop_leg_eq tear_down_frame)+

lemmas race_frames = watch_frame consume_frame
lemmas race_updates = mark_race_stopped_def emit_def put_sentinel_def move_def stop_leg_eq request_leg_cancel_eq
  stop_loser_protocols_eq stop_loser_tasks_eq

lemma lock_ok_step:
  assumes "race_step cfg a s = Some s'" and "lock_ok cfg s"
  shows "lock_ok cfg s'"
  using assms(1)
proof (cases rule: race_step_cases)
  case watch
  with assms(2) show ?thesis by (simp add: lock_ok_def watch_frame)
next
  case consume
  with assms(2) show ?thesis by (simp add: lock_ok_def consume_frame)
qed (use assms(2) in \<open>auto simp: lock_ok_def lock_free_def race_updates split: if_splits\<close>)

lemma cancel_ok_step:
  assumes "race_step cfg a s = Some s'" and "cancel_ok s"
  shows "cancel_ok s'"
  using assms(1)
proof (cases rule: race_step_cases)
  case watch
  then show ?thesis
    by (cases rule: watch_cases) (use assms(2) in \<open>auto simp: cancel_ok_def race_updates hung_after_def cancelled_after_def\<close>)
next
  case consume
  then show ?thesis
    by (cases rule: consume_cases)
      (use assms(2) in \<open>auto simp: cancel_ok_def race_updates hung_after_def cancelled_after_def tear_down_frame\<close>)
qed (use assms(2) in \<open>auto simp: cancel_ok_def race_updates hung_after_def cancelled_after_def\<close>)

text \<open>Deferring: the winner is not cancelled before its first chunk is out.\<close>

lemma requested_after_deferred:
  "why = Client_Cancel \<or> why = Race_Aborted \<Longrightarrow> winner_leg_id s = Some w \<Longrightarrow> \<not> winner_first_chunk_emitted s \<Longrightarrow>
   w \<notin> cancel_requested s \<Longrightarrow> w \<notin> requested_after why l s"
  by (auto simp: requested_after_def should_defer_winner_cancel_def)

lemma quiet_move_pcs:
  assumes "quiet_move cfg s l pc pc'"
  shows "\<not> won_pc pc'" "\<not> is_claimed pc'" "\<not> is_claimed pc" "early_pc pc' \<Longrightarrow> early_pc pc" "pc \<noteq> Gone" "pc' \<noteq> Gone"
  using assms by (induction rule: quiet_move.induct; simp add: pc_classes)+

lemma after_interrupt_pcs [simp]:
  "\<not> won_pc (after_interrupt pc)" "\<not> early_pc (after_interrupt pc)" "\<not> is_claimed (after_interrupt pc)"
  by (cases pc; simp add: pc_classes after_interrupt_def)+

lemma pc_simps [simp]:
  "won_pc (Claimed c)" "won_pc Announced" "won_pc (Reading b) = b" "won_pc (Checking c b) = b" "\<not> won_pc Failing" "\<not> won_pc Releasing"
  "\<not> won_pc Leaving" "\<not> won_pc (Ending b)" "\<not> won_pc Gone" "\<not> won_pc Entering" "\<not> won_pc Delayed" "\<not> won_pc (Claiming c)"
  "\<not> early_pc (Claimed c)" "\<not> early_pc Announced" "early_pc (Reading b) = (\<not> b)" "early_pc (Checking c b) = (\<not> b)" "\<not> early_pc Failing"
  "\<not> early_pc Releasing" "\<not> early_pc Leaving" "\<not> early_pc (Ending b)" "\<not> early_pc Gone" "early_pc Entering" "early_pc Delayed"
  "early_pc (Claiming c)"
  "is_claimed (Claimed c)" "\<not> is_claimed Announced" "\<not> is_claimed (Reading b)" "\<not> is_claimed (Checking c b)" "\<not> is_claimed Failing"
  "\<not> is_claimed Releasing" "\<not> is_claimed Leaving" "\<not> is_claimed (Ending b)" "\<not> is_claimed Gone" "\<not> is_claimed Entering"
  "\<not> is_claimed Delayed" "\<not> is_claimed (Claiming c)"
  by (simp_all add: pc_classes)

lemma claimed_won: "is_claimed pc \<Longrightarrow> won_pc pc"
  by (simp add: pc_classes split: leg_pc.splits)

lemma winner_okD:
  assumes "winner_ok cfg s"
  shows "winner_leg_id s = Some w \<Longrightarrow> w \<in> set (leg_ids cfg)" "winner_leg_id s = Some w \<Longrightarrow> \<not> early_pc (leg_task s w)"
    "won_pc (leg_task s l) \<Longrightarrow> winner_leg_id s = Some l"
  using assms by (simp_all add: winner_ok_def)

lemma winner_ok_step:
  assumes "race_step cfg a s = Some s'" and ok: "winner_ok cfg s"
  shows "winner_ok cfg s'"
  using assms(1)
proof (cases rule: race_step_cases)
  case watch
  with ok show ?thesis by (simp add: winner_ok_def watch_frame)
next
  case consume
  with ok show ?thesis by (simp add: winner_ok_def consume_frame)
next
  case (quiet l pc)
  have "early_pc pc \<Longrightarrow> winner_leg_id s \<noteq> Some l"
    using winner_okD(2) [OF ok] quiet_move_pcs(4) [OF quiet(2)] by blast
  then show ?thesis
    unfolding quiet(3) using ok quiet_move_pcs(1) [OF quiet(2)] by (auto simp: winner_ok_def)
next
  case orchestrate
  show ?thesis
    unfolding orchestrate(3) using ok by (simp add: winner_ok_def race_updates)
qed (use ok in \<open>auto simp: winner_ok_def race_updates split: if_splits\<close>)

lemma emitted_ok_step:
  assumes "race_step cfg a s = Some s'" and ok: "emitted_ok s" and "winner_ok cfg s"
  shows "emitted_ok s'"
  using assms(1)
proof (cases rule: race_step_cases)
  case watch
  with ok show ?thesis by (simp add: emitted_ok_def watch_frame)
next
  case consume
  with ok show ?thesis by (simp add: emitted_ok_def consume_frame)
next
  case (quiet l pc)
  with quiet_move_pcs(2) [OF quiet(2)] ok show ?thesis
    by (simp add: emitted_ok_def)
next
  case (announce l c)
  from announce(2) have "winner_leg_id s = Some l" and "\<forall>m. m \<noteq> l \<longrightarrow> \<not> is_claimed (leg_task s m)"
    using \<open>winner_ok cfg s\<close> claimed_won unfolding winner_ok_def by (metis option.inject pc_simps(1))+
  with announce(3) show ?thesis
    by (simp add: emitted_ok_def race_updates)
qed (use ok in \<open>auto simp: emitted_ok_def race_updates split: if_splits\<close>)

lemma first_chunk_ok_step:
  assumes "race_step cfg a s = Some s'" and ok: "first_chunk_ok s" and "winner_ok cfg s" and "lock_ok cfg s" and "winding_ok s"
  shows "first_chunk_ok s'"
  using assms(1)
proof (cases rule: race_step_cases)
  case watch
  then show ?thesis
    by (cases rule: watch_cases) (use ok in \<open>auto simp: first_chunk_ok_def race_updates requested_after_deferred\<close>)
next
  case consume
  then show ?thesis
    by (cases rule: consume_cases) (use ok \<open>winding_ok s\<close> in
      \<open>auto simp: first_chunk_ok_def winding_ok_def winding_up_def race_updates requested_after_deferred tear_down_frame\<close>)
next
  case (quiet l pc)
  show ?thesis
    unfolding quiet(3) using ok quiet_move_pcs(2,3) [OF quiet(2)] by (auto simp: first_chunk_ok_def)
next
  case (timed_out l)
  then have "winner_leg_id s = None"
    using \<open>lock_ok cfg s\<close> by (simp add: lock_ok_def)
  with ok timed_out(2) show ?thesis
    by (simp add: first_chunk_ok_def race_updates)
next
  case (interrupt l)
  have "\<not> is_claimed (leg_task s l)" if "l \<notin> cancel_requested s"
    using interrupt(3) that by (auto simp: pc_classes split: leg_pc.splits)
  with ok show ?thesis
    unfolding interrupt(4) by (auto simp: first_chunk_ok_def)
next
  case orchestrate
  show ?thesis
    unfolding orchestrate(3) using ok by (simp add: first_chunk_ok_def race_updates)
next
  case (stop_losers l)
  then have "winner_leg_id s = Some l"
    using winner_okD(3) [OF \<open>winner_ok cfg s\<close>, of l] by simp
  with ok stop_losers show ?thesis
    by (auto simp: first_chunk_ok_def race_updates)
next
  case (finish l b acc)
  with ok show ?thesis
    by (auto simp: first_chunk_ok_def)
qed (use ok in \<open>auto simp: first_chunk_ok_def race_updates split: if_splits\<close>)

lemma winding_ok_step:
  assumes "race_step cfg a s = Some s'" and ok: "winding_ok s" and "winner_ok cfg s" and "first_chunk_ok s"
  shows "winding_ok s'"
  using assms(1)
proof (cases rule: race_step_cases)
  case watch
  then show ?thesis
    by (cases rule: watch_cases)
      (use ok \<open>first_chunk_ok s\<close> in \<open>auto simp: winding_ok_def winding_up_def first_chunk_ok_def race_updates\<close>)
next
  case consume
  then show ?thesis
    by (cases rule: consume_cases) (use ok \<open>first_chunk_ok s\<close> in
      \<open>auto simp: winding_ok_def winding_up_def first_chunk_ok_def race_updates tear_down_frame split: if_splits\<close>)
next
  case orchestrate
  have "winner_leg_id s = None \<or> winner_first_chunk_emitted s"
  proof (rule ccontr)
    assume "\<not> ?thesis"
    then obtain w where "winner_leg_id s = Some w" "is_claimed (leg_task s w)"
      using \<open>first_chunk_ok s\<close> by (auto simp: first_chunk_ok_def)
    with winner_okD(1) [OF \<open>winner_ok cfg s\<close>] orchestrate(2) show False by force
  qed
  then show ?thesis
    unfolding orchestrate(3) using ok by (auto simp: winding_ok_def winding_up_def race_updates)
qed (use ok in \<open>auto simp: winding_ok_def winding_up_def race_updates should_stop_def\<close>)

lemma core_ok_init: "core_ok cfg (race_init cfg)"
  by (simp add: core_ok_def cancel_ok_def lock_ok_def winner_ok_def first_chunk_ok_def emitted_ok_def winding_ok_def winding_up_def
      race_init_def)

lemma core_ok_step: "race_step cfg a s = Some s' \<Longrightarrow> core_ok cfg s \<Longrightarrow> core_ok cfg s'"
  unfolding core_ok_def
  by (blast intro: cancel_ok_step lock_ok_step winner_ok_step first_chunk_ok_step emitted_ok_step winding_ok_step)

lemma core_ok_reaches: "race_reaches cfg s \<Longrightarrow> core_ok cfg s"
  by (induction rule: race_reaches.induct) (auto intro: core_ok_init core_ok_step)

section \<open>What the consumer sees\<close>

text \<open>
  What a leg has to offer: its chunks from the first token on, up to a chunk that reports an error;
  nothing if the error comes before a token.
\<close>

abbreviation before_error :: "stream_chunk list \<Rightarrow> stream_chunk list" where
  "before_error xs \<equiv> takeWhile (\<lambda>c. \<not> is_terminal_error_chunk c) xs"

definition offer :: "race_config \<Rightarrow> stream_chunk list \<Rightarrow> stream_chunk list" where
  "offer cfg xs = dropWhile (\<lambda>c. \<not> is_meaningful_token (race_codec cfg) c) (before_error xs)"

definition prize :: "race_config \<Rightarrow> string \<Rightarrow> stream_chunk list" where
  "prize cfg l = offer cfg (leg_chunks (leg_of cfg l))"

text \<open>The items of the winner: only the first one names it.\<close>

fun tagged :: "string \<Rightarrow> stream_chunk list \<Rightarrow> race_item list" where
  "tagged w [] = []"
| "tagged w (c # cs) = (c, Some w) # map (\<lambda>x. (x, None)) cs"

definition only_keepalives :: "race_item list \<Rightarrow> bool" where
  "only_keepalives xs \<longleftrightarrow> set xs \<subseteq> {(keepalive_chunk, None)}"

definition queued :: "race_item option list \<Rightarrow> race_item list" where
  "queued q = List.map_filter (\<lambda>x. x) q"

definition sent :: "race \<Rightarrow> race_item list" where
  "sent s = yielded s @ queued (race_queue s)"

fun in_hand :: "leg_pc \<Rightarrow> stream_chunk list \<Rightarrow> stream_chunk list" where
  "in_hand (Checking c won) xs = c # xs"
| "in_hand (Claiming c) xs = c # xs"
| "in_hand _ xs = xs"

lemma offer_simps [simp]:
  "offer cfg [] = []"
  "is_meaningful_token (race_codec cfg) c \<Longrightarrow> offer cfg (c # cs) = c # before_error cs"
  "\<not> is_meaningful_token (race_codec cfg) c \<Longrightarrow> \<not> is_terminal_error_chunk c \<Longrightarrow> offer cfg (c # cs) = offer cfg cs"
  "is_terminal_error_chunk c \<Longrightarrow> offer cfg (c # cs) = []"
  using meaningful_not_terminal [of "race_codec cfg" c] by (auto simp: offer_def)

lemma queued_simps [simp]:
  "queued [] = []" "queued (None # q) = queued q" "queued (Some x # q) = x # queued q" "queued (p @ q) = queued p @ queued q"
  by (simp_all add: queued_def map_filter_simps) (induction p, auto simp: map_filter_simps split: option.splits)

lemma tagged_snoc: "xs \<noteq> [] \<Longrightarrow> tagged w (xs @ [c]) = tagged w xs @ [(c, None)]"
  by (cases xs) auto

lemma only_keepalives_simps [simp]:
  "only_keepalives []" "only_keepalives (xs @ ys) \<longleftrightarrow> only_keepalives xs \<and> only_keepalives ys" "only_keepalives [(keepalive_chunk, None)]"
  by (auto simp: only_keepalives_def)

definition token_ok :: "race \<Rightarrow> bool" where
  "token_ok s \<longleftrightarrow> (winner_leg_id s \<noteq> None \<longrightarrow> first_token_event s)"

text \<open>While the race is open every leg still has its whole offer before it.\<close>

definition open_ok :: "race_config \<Rightarrow> race \<Rightarrow> bool" where
  "open_ok cfg s \<longleftrightarrow> (winner_leg_id s = None \<and> \<not> should_stop s \<longrightarrow>
     (\<forall>l. early_pc (leg_task s l) \<longrightarrow> prize cfg l = offer cfg (in_hand (leg_task s l) (todo s l)))) \<and>
     (\<forall>l c. leg_task s l = Claiming c \<longrightarrow> is_meaningful_token (race_codec cfg) c) \<and>
     (\<forall>l. leg_task s l = Delayed \<or> leg_task s l = Entering \<longrightarrow> todo s l = leg_chunks (leg_of cfg l))"

definition claimed_ok :: "race_config \<Rightarrow> race \<Rightarrow> bool" where
  "claimed_ok cfg s \<longleftrightarrow> (\<forall>l c. leg_task s l = Claimed c \<longrightarrow> prize cfg l = c # before_error (todo s l))"

definition delivers :: "race_config \<Rightarrow> race \<Rightarrow> string \<Rightarrow> stream_chunk list \<Rightarrow> bool" where
  "delivers cfg s w xs \<longleftrightarrow> xs \<noteq> [] \<and> (\<exists>ks. only_keepalives ks \<and> sent s = ks @ tagged w xs) \<and>
     (if won_pc (leg_task s w) then prize cfg w = xs @ before_error (in_hand (leg_task s w) (todo s w)) else prefix xs (prize cfg w))"

definition output_ok :: "race_config \<Rightarrow> race \<Rightarrow> bool" where
  "output_ok cfg s \<longleftrightarrow>
     (if winner_first_chunk_emitted s then \<exists>w xs. winner_leg_id s = Some w \<and> delivers cfg s w xs else only_keepalives (sent s))"

lemma token_ok_step: 
  assumes "race_step cfg a s = Some s'" and ok: "token_ok s"
  shows "token_ok s'"
  using assms(1)
proof (cases rule: race_step_cases)
  case watch
  then show ?thesis
    by (cases rule: watch_cases) (use ok in \<open>simp_all add: token_ok_def race_updates\<close>)
next
  case consume
  then show ?thesis
    by (cases rule: consume_cases) (use ok in \<open>simp_all add: token_ok_def race_updates tear_down_def Let_def\<close>)
qed (use ok in \<open>auto simp: token_ok_def race_updates\<close>)

lemma claimed_ok_step:
  assumes "race_step cfg a s = Some s'" and ok: "claimed_ok cfg s" and "open_ok cfg s"
  shows "claimed_ok cfg s'"
  using assms(1)
proof (cases rule: race_step_cases)
  case watch
  with ok show ?thesis by (simp add: claimed_ok_def watch_frame)
next
  case consume
  with ok show ?thesis by (simp add: claimed_ok_def consume_frame)
next
  case (quiet l pc)
  have "pc \<noteq> Claimed c" for c
    using quiet_move_pcs(2) [OF quiet(2)] by auto
  with ok show ?thesis
    unfolding quiet(3) by (auto simp: claimed_ok_def)
next
  case orchestrate
  show ?thesis
    unfolding orchestrate(3) using ok by (simp add: claimed_ok_def race_updates)
next
  case (claim l c)
  with \<open>open_ok cfg s\<close> have "prize cfg l = c # before_error (todo s l)"
    by (auto simp: open_ok_def)
  with ok show ?thesis
    unfolding claim(6) by (auto simp: claimed_ok_def)
next
  case (interrupt l)
  have "after_interrupt (leg_task s l) \<noteq> Claimed c" for c
    by (metis after_interrupt_pcs(3) pc_simps(25))
  with ok show ?thesis
    unfolding interrupt(4) by (auto simp: claimed_ok_def)
qed (use ok in \<open>auto simp: claimed_ok_def race_updates split: if_splits\<close>)

lemma quiet_move_open:
  assumes "quiet_move cfg s l (leg_task s l) pc" and "open_ok cfg s"
  shows "winner_leg_id s = None \<Longrightarrow> \<not> should_stop s \<Longrightarrow> early_pc pc \<Longrightarrow> prize cfg l = offer cfg (in_hand pc (todo s l))"
    and "pc = Claiming c \<Longrightarrow> is_meaningful_token (race_codec cfg) c"
    and "pc = Delayed \<or> pc = Entering \<Longrightarrow> todo s l = leg_chunks (leg_of cfg l)"
  using assms by (cases; force simp: open_ok_def)+

lemma should_stop_updates [simp]:
  "should_stop (s\<lparr>leg_task := T\<rparr>) = should_stop s" "should_stop (s\<lparr>todo := U\<rparr>) = should_stop s"
  "should_stop (s\<lparr>watchdog := W\<rparr>) = should_stop s" "should_stop (s\<lparr>winner_leg_id := v\<rparr>) = should_stop s"
  "should_stop (s\<lparr>cancel_requested := R\<rparr>) = should_stop s" "should_stop (s\<lparr>streaming_started := R\<rparr>) = should_stop s"
  "should_stop (s\<lparr>race_queue := q\<rparr>) = should_stop s" "should_stop (s\<lparr>hung_up := R\<rparr>) = should_stop s"
  "should_stop (s\<lparr>cancelled_legs := R\<rparr>) = should_stop s" "should_stop (s\<lparr>lock_owner := v\<rparr>) = should_stop s"
  "should_stop (s\<lparr>handicap_accelerate := b\<rparr>) = should_stop s" "should_stop (s\<lparr>first_token_event := b\<rparr>) = should_stop s"
  "should_stop (s\<lparr>winner_first_chunk_emitted := b\<rparr>) = should_stop s" "should_stop (s\<lparr>winner_first_chunk_emitted_event := b\<rparr>) = should_stop s"
  "should_stop (s\<lparr>clock := t\<rparr>) = should_stop s" "should_stop (s\<lparr>next_keepalive := t\<rparr>) = should_stop s"
  "should_stop (s\<lparr>watcher := w\<rparr>) = should_stop s" "should_stop (s\<lparr>consumer := c\<rparr>) = should_stop s"
  "should_stop (s\<lparr>orchestrating := b\<rparr>) = should_stop s" "should_stop (s\<lparr>yielded := y\<rparr>) = should_stop s"
  "should_stop (s\<lparr>race_stopped := True\<rparr>)" "should_stop (s\<lparr>client_cancelled := True\<rparr>)"
  by (simp_all add: should_stop_def)

lemma stop_stays: "race_step cfg a s = Some s' \<Longrightarrow> should_stop s \<Longrightarrow> should_stop s'"
proof (erule race_step_cases; (elim watch_cases consume_cases)?)
qed (auto simp: race_updates should_stop_def tear_down_frame)

lemma open_ok_frame:
  assumes "open_ok cfg s" and "leg_task s' = leg_task s" "todo s' = todo s" "winner_leg_id s' = winner_leg_id s"
    and "should_stop s \<Longrightarrow> should_stop s'"
  shows "open_ok cfg s'"
  using assms by (auto simp: open_ok_def)

text \<open>A leg that moves on with its offer in hand keeps the race open.\<close>

lemma open_ok_move:
  assumes "open_ok cfg s"
    and "winner_leg_id s = None \<Longrightarrow> \<not> should_stop s \<Longrightarrow> early_pc pc \<Longrightarrow> prize cfg l = offer cfg (in_hand pc cs)"
    and "\<And>c. pc = Claiming c \<Longrightarrow> is_meaningful_token (race_codec cfg) c"
    and "pc = Delayed \<or> pc = Entering \<Longrightarrow> cs = leg_chunks (leg_of cfg l)"
  shows "open_ok cfg ((to_pc s l pc)\<lparr>todo := (todo s)(l := cs)\<rparr>)"
  using assms by (auto simp: open_ok_def)

lemma open_ok_step:
  assumes "race_step cfg a s = Some s'" and ok: "open_ok cfg s"
  shows "open_ok cfg s'"
  using assms(1)
proof (cases rule: race_step_cases)
  case watch
  with ok stop_stays [OF assms(1)] show ?thesis by (auto intro: open_ok_frame simp: watch_frame)
next
  case consume
  with ok stop_stays [OF assms(1)] show ?thesis by (auto intro: open_ok_frame simp: consume_frame)
next
  case orchestrate
  show ?thesis
    unfolding orchestrate(3) using ok by (simp add: open_ok_def race_updates)
next
  case (quiet l pc)
  show ?thesis
    unfolding quiet(3)
    using open_ok_move [OF ok, of pc l "todo s l"] quiet_move_open [OF quiet(2) ok] by simp
next
  case (receive l won c cs)
  have "prize cfg l = offer cfg (c # cs)" if "winner_leg_id s = None" "\<not> should_stop s" "\<not> won"
    using ok receive(2,3) that by (auto simp: open_ok_def)
  then show ?thesis
    unfolding receive(4) by (intro open_ok_move [OF ok]) (auto split: if_splits)
next
  case (enter l)
  have "todo s l = leg_chunks (leg_of cfg l)"
    using ok enter(2) by (simp add: open_ok_def)
  then have "open_ok cfg ((to_pc s l (Reading False))\<lparr>todo := (todo s)(l := todo s l)\<rparr>)"
    by (intro open_ok_move [OF ok]) (simp_all add: prize_def)
  then show ?thesis
    unfolding enter(5) by (rule open_ok_frame) simp_all
next
  case (interrupt l)
  have "after_interrupt (leg_task s l) \<in> {Leaving, Gone}"
    by (simp add: after_interrupt_def split: leg_pc.splits)
  with ok show ?thesis
    unfolding interrupt(4) by (auto simp: open_ok_def)
qed (use ok in \<open>auto simp: open_ok_def race_updates split: if_splits\<close>)

text \<open>Nothing new is sent and the winner either leaves its stream or has the same chunks before it.\<close>

lemma output_ok_frame:
  assumes ok: "output_ok cfg s" and "sent s' = sent s" "winner_leg_id s' = winner_leg_id s"
    "winner_first_chunk_emitted s' = winner_first_chunk_emitted s"
    and same: "\<And>w. winner_leg_id s = Some w \<Longrightarrow> winner_first_chunk_emitted s \<Longrightarrow> won_pc (leg_task s' w) \<Longrightarrow>
      won_pc (leg_task s w) \<and> in_hand (leg_task s' w) (todo s' w) = in_hand (leg_task s w) (todo s w)"
  shows "output_ok cfg s'"
proof (cases "winner_first_chunk_emitted s")
  case True
  with ok obtain w xs where w: "winner_leg_id s = Some w" "delivers cfg s w xs"
    by (auto simp: output_ok_def)
  have "delivers cfg s' w xs"
    using w(2) same [OF w(1) True] assms(2) by (auto simp: delivers_def prefix_def split: if_splits)
  with w True assms show ?thesis
    by (auto simp: output_ok_def)
qed (use assms in \<open>simp add: output_ok_def\<close>)

lemma consume_sent: "consume cfg s = Some s' \<Longrightarrow> sent s' = sent s"
  by (elim consume_cases) (auto simp: sent_def race_updates tear_down_frame)

lemma watch_sent: "watch cfg s = Some s' \<Longrightarrow> sent s' = sent s"
  by (elim watch_cases) (auto simp: sent_def race_updates)

lemma output_ok_pass:
  assumes ok: "output_ok cfg s" and winner: "winner_ok cfg s" and first: "first_chunk_ok s"
    and pc: "leg_task s l = Checking c True" "\<not> is_terminal_error_chunk c"
    and s': "s' = (to_pc s l (Reading True))\<lparr>race_queue := race_queue s @ [Some (c, None)]\<rparr>"
  shows "output_ok cfg s'"
proof -
  have w: "winner_leg_id s = Some l"
    using winner_okD(3) [OF winner, of l] pc by simp
  then have e: "winner_first_chunk_emitted s"
    using first pc by (auto simp: first_chunk_ok_def)
  with ok w obtain xs where "delivers cfg s l xs"
    by (auto simp: output_ok_def)
  then have "delivers cfg s' l (xs @ [c])"
    using pc s' by (auto simp: delivers_def sent_def tagged_snoc)
  with w e s' show ?thesis
    by (auto simp: output_ok_def)
qed

lemma output_ok_announce:
  assumes ok: "output_ok cfg s" and winner: "winner_ok cfg s" and emitted: "emitted_ok s" and claimed: "claimed_ok cfg s"
    and pc: "leg_task s l = Claimed c"
    and s': "s' = (move l Announced (emit c (Some l) (stop_loser_protocols cfg l s)))
      \<lparr>winner_first_chunk_emitted := True, winner_first_chunk_emitted_event := True\<rparr>"
  shows "output_ok cfg s'"
proof -
  have w: "winner_leg_id s = Some l"
    using winner_okD(3) [OF winner, of l] pc by simp
  have "\<not> winner_first_chunk_emitted s"
    using emitted pc by (metis emitted_ok_def pc_simps(25))
  with ok have "only_keepalives (sent s)"
    by (simp add: output_ok_def)
  moreover have "prize cfg l = c # before_error (todo s l)"
    using claimed pc by (simp add: claimed_ok_def)
  ultimately have "delivers cfg s' l [c]"
    unfolding s' delivers_def by (auto simp: sent_def race_updates)
  with w s' show ?thesis
    by (auto simp: output_ok_def race_updates)
qed

lemma output_ok_step:
  assumes "race_step cfg a s = Some s'" and ok: "output_ok cfg s" and core: "core_ok cfg s" and "token_ok s" and "claimed_ok cfg s"
  shows "output_ok cfg s'"
proof -
  have winner: "winner_ok cfg s" and first: "first_chunk_ok s" and emitted: "emitted_ok s"
    using core by (simp_all add: core_ok_def)
  show ?thesis
    using assms(1)
  proof (cases rule: race_step_cases)
    case watch
    then show ?thesis by (intro output_ok_frame [OF ok]) (simp_all add: watch_frame watch_sent)
  next
    case consume
    then show ?thesis by (intro output_ok_frame [OF ok]) (simp_all add: consume_frame consume_sent)
  next
    case orchestrate
    show ?thesis unfolding orchestrate(3) by (intro output_ok_frame [OF ok]) (simp_all add: sent_def race_updates)
  next
    case keepalive
    with \<open>token_ok s\<close> emitted have "\<not> winner_first_chunk_emitted s"
      by (auto simp: token_ok_def emitted_ok_def)
    with ok keepalive(4) show ?thesis
      by (simp add: output_ok_def sent_def race_updates)
  next
    case (quiet l pc)
    show ?thesis
      unfolding quiet(3) using quiet_move_pcs(1) [OF quiet(2)]
      by (intro output_ok_frame [OF ok]) (auto simp: sent_def split: if_splits)
  next
    case (receive l won c cs)
    show ?thesis
      unfolding receive(4) using receive(2,3) by (intro output_ok_frame [OF ok]) (auto simp: sent_def split: if_splits)
  next
    case (pass l c)
    then show ?thesis by (intro output_ok_pass [OF ok winner first])
  next
    case (announce l c)
    then show ?thesis by (intro output_ok_announce [OF ok winner emitted \<open>claimed_ok cfg s\<close>])
  next
    case (claim l c)
    have "\<not> winner_first_chunk_emitted s"
      using emitted claim(4) by (auto simp: emitted_ok_def)
    with ok claim(6) show ?thesis
      by (simp add: output_ok_def sent_def)
  next
    case (enter l)
    have "\<not> winner_first_chunk_emitted s"
      using emitted enter(4) by (auto simp: emitted_ok_def)
    with ok enter(5) show ?thesis
      by (simp add: output_ok_def sent_def)
  next
    case (interrupt l)
    show ?thesis
      unfolding interrupt(4) by (intro output_ok_frame [OF ok]) (auto simp: sent_def split: if_splits)
  qed (rule output_ok_frame [OF ok]; force simp: sent_def race_updates split: if_splits)+
qed

definition race_ok :: "race_config \<Rightarrow> race \<Rightarrow> bool" where
  "race_ok cfg s \<longleftrightarrow> core_ok cfg s \<and> token_ok s \<and> open_ok cfg s \<and> claimed_ok cfg s \<and> output_ok cfg s"

lemma race_ok_init: "race_ok cfg (race_init cfg)"
  unfolding race_ok_def
  by (intro conjI core_ok_init) (simp_all add: token_ok_def open_ok_def claimed_ok_def output_ok_def race_init_def sent_def prize_def)

lemma race_ok_step: "race_step cfg a s = Some s' \<Longrightarrow> race_ok cfg s \<Longrightarrow> race_ok cfg s'"
  unfolding race_ok_def by (blast intro: core_ok_step token_ok_step open_ok_step claimed_ok_step output_ok_step)

lemma race_ok_reaches: "race_reaches cfg s \<Longrightarrow> race_ok cfg s"
  by (induction rule: race_reaches.induct) (auto intro: race_ok_init race_ok_step)

end
