(* ===== verification/Race_Theorems.thy ===== *)
theory Race_Theorems
  imports Race_Invariants
begin

text \<open>
  What a race guarantees whatever the order of its coroutines: the consumer sees keepalives and then
  the stream of one leg from its first token on; a race that nobody disturbs delivers all of that
  stream, and has no winner only if no leg had a token in time; the losers are hung up; and a leg
  starts only when its delay is over or a leg before it has ended.
\<close>

section \<open>A race that nobody disturbs\<close>

text \<open>Neither the client cancels nor the consumer closes the stream early.\<close>

definition undisturbed :: "race \<Rightarrow> bool" where
  "undisturbed s \<longleftrightarrow> \<not> client_cancelled s \<and> consumer s \<in> {Consuming, Finishing, Finished}"

definition all_gone :: "race_config \<Rightarrow> race \<Rightarrow> bool" where
  "all_gone cfg s \<longleftrightarrow> (\<forall>l \<in> set (leg_ids cfg). leg_task s l = Gone)"

definition calm_ok :: "race_config \<Rightarrow> race \<Rightarrow> bool" where
  "calm_ok cfg s \<longleftrightarrow> (race_stopped s \<longrightarrow> \<not> orchestrating s) \<and> (\<not> orchestrating s \<longrightarrow> all_gone cfg s) \<and>
     (watcher s = Watching \<or> watcher s = Watcher_Over) \<and>
     (\<exists>xs. race_queue s = map Some xs @ (if \<not> orchestrating s \<and> consumer s = Consuming then [None] else [])) \<and>
     (consumer s \<noteq> Consuming \<longrightarrow> race_queue s = [] \<and> \<not> orchestrating s)"

lemma undisturbed_before:
  assumes "race_step cfg a s = Some s'" and "undisturbed s'"
  shows "undisturbed s"
  using assms(1)
proof (cases rule: race_step_cases)
  case watch
  with assms(2) show ?thesis by (simp add: undisturbed_def watch_frame)
next
  case consume
  then show ?thesis
    by (cases rule: consume_cases) (use assms(2) in \<open>simp_all add: undisturbed_def race_updates tear_down_frame\<close>)
qed (use assms(2) in \<open>auto simp: undisturbed_def race_updates\<close>)

lemma calm_no_watch:
  assumes "undisturbed s" and "calm_ok cfg s"
  shows "watch cfg s = None"
proof -
  have "watcher s = Watching \<or> watcher s = Watcher_Over" "\<not> client_cancelled s"
    using assms by (simp_all add: calm_ok_def undisturbed_def)
  then show ?thesis
    by (elim disjE) (simp_all add: watch_def)
qed

text \<open>As long as a leg is under way the race is not stopped.\<close>

lemma calm_running:
  assumes "undisturbed s" and "calm_ok cfg s" and "l \<in> set (leg_ids cfg)" and "leg_task s l \<noteq> Gone"
  shows "orchestrating s" "\<not> race_stopped s" "\<not> should_stop s"
  using assms by (auto simp: calm_ok_def all_gone_def undisturbed_def should_stop_def)

lemma map_Some_snoc: "\<exists>ys. map Some xs @ [Some x] = map Some ys"
  by (rule exI [of _ "xs @ [x]"]) simp

lemma calm_ok_frame:
  assumes "calm_ok cfg s" and "race_stopped s' = race_stopped s" "orchestrating s' = orchestrating s" "watcher s' = watcher s"
    "race_queue s' = race_queue s" "consumer s' = consumer s" "orchestrating s \<or> leg_task s' = leg_task s"
  shows "calm_ok cfg s'"
  using assms by (auto simp: calm_ok_def all_gone_def)

lemma calm_ok_emit:
  assumes "calm_ok cfg s" and "orchestrating s" and "race_stopped s' = race_stopped s" "orchestrating s' = orchestrating s"
    "watcher s' = watcher s" "race_queue s' = race_queue s @ [Some x]" "consumer s' = consumer s"
  shows "calm_ok cfg s'"
  using assms map_Some_snoc by (auto simp: calm_ok_def)

lemma calm_ok_step:
  assumes "race_step cfg a s = Some s'" and "undisturbed s'" and ok: "calm_ok cfg s"
  shows "calm_ok cfg s'"
proof -
  have u: "undisturbed s"
    by (rule undisturbed_before [OF assms(1,2)])
  note running = calm_running(1) [OF u ok]
  show ?thesis
    using assms(1)
  proof (cases rule: race_step_cases)
    case watch
    then show ?thesis using calm_no_watch [OF u ok] by simp
  next
    case consume
    then show ?thesis
      by (cases rule: consume_cases)
        (use ok \<open>undisturbed s'\<close> in \<open>auto simp: calm_ok_def all_gone_def undisturbed_def race_updates tear_down_frame Cons_eq_append_conv split: if_splits\<close>)
  next
    case orchestrate
    then show ?thesis
      using ok unfolding orchestrate(3) calm_ok_def all_gone_def by (auto simp: race_updates)
  next
    case keepalive
    then show ?thesis by (intro calm_ok_emit [OF ok]) (simp_all add: race_updates)
  next
    case (pass l c)
    then show ?thesis by (intro calm_ok_emit [OF ok running [of l]]) simp_all
  next
    case (announce l c)
    then show ?thesis by (intro calm_ok_emit [OF ok running [of l]]) (simp_all add: race_updates)
  next
    case (quiet l pc)
    then show ?thesis using running [of l] quiet_move_pcs(5) [OF quiet(2)] by (intro calm_ok_frame [OF ok]) simp_all
  next
    case (interrupt l)
    then show ?thesis using running [of l] by (intro calm_ok_frame [OF ok]) simp_all
  next
    case close
    then show ?thesis using \<open>undisturbed s'\<close> by (simp add: undisturbed_def)
  next
    case client
    then show ?thesis using \<open>undisturbed s'\<close> by (simp add: undisturbed_def)
  qed (rule calm_ok_frame [OF ok]; use running in \<open>force simp: race_updates\<close>)+
qed

section \<open>Nobody stops the winner\<close>

fun late_pc :: "leg_pc \<Rightarrow> bool" where
  "late_pc Releasing = True"
| "late_pc Leaving = True"
| "late_pc (Ending b) = True"
| "late_pc Gone = True"
| "late_pc _ = False"

lemma after_interrupt_late [simp]: "late_pc (after_interrupt pc)"
  by (cases pc) (simp_all add: after_interrupt_def)

lemma quiet_move_not_late: "quiet_move cfg s l pc pc' \<Longrightarrow> \<not> late_pc pc"
  by (induction rule: quiet_move.induct) simp_all

text \<open>Only a leg with a time limit is stopped while the race is open, and its watchdog then holds the lock until it is.\<close>

definition limit_ok :: "race_config \<Rightarrow> race \<Rightarrow> bool" where
  "limit_ok cfg s \<longleftrightarrow> (\<forall>l. watchdog s l \<noteq> None \<longrightarrow> leg_ttft_timeout (leg_of cfg l) > 0)"

definition spared_ok :: "race_config \<Rightarrow> race \<Rightarrow> bool" where
  "spared_ok cfg s \<longleftrightarrow>
     (\<forall>l. winner_leg_id s = Some l \<or> winner_leg_id s = None \<longrightarrow> l \<in> hung_up s \<longrightarrow> late_pc (leg_task s l) \<or> lock_owner s = Some l \<or> l \<in> cancel_requested s) \<and>
     (\<forall>l \<in> cancel_requested s. winner_leg_id s \<noteq> Some l \<and> (winner_leg_id s = None \<longrightarrow> leg_ttft_timeout (leg_of cfg l) > 0))"

lemma limit_ok_step:
  assumes "race_step cfg a s = Some s'" and ok: "limit_ok cfg s"
  shows "limit_ok cfg s'"
  using assms(1)
proof (cases rule: race_step_cases)
  case watch
  with ok show ?thesis by (simp add: limit_ok_def watch_frame)
next
  case consume
  with ok show ?thesis by (simp add: limit_ok_def consume_frame)
qed (use ok in \<open>auto simp: limit_ok_def race_updates split: if_splits\<close>)

lemma spared_okD:
  assumes "spared_ok cfg s"
  shows "winner_leg_id s = Some l \<or> winner_leg_id s = None \<Longrightarrow> l \<in> hung_up s \<Longrightarrow>
      late_pc (leg_task s l) \<or> lock_owner s = Some l \<or> l \<in> cancel_requested s"
    "winner_leg_id s = Some l \<Longrightarrow> l \<notin> cancel_requested s"
    "winner_leg_id s = None \<Longrightarrow> l \<in> cancel_requested s \<Longrightarrow> leg_ttft_timeout (leg_of cfg l) > 0"
  using assms by (auto simp: spared_ok_def)

text \<open>A leg whose task is not to be cancelled moves.\<close>

lemma spared_ok_move:
  assumes "spared_ok cfg s" and "late_pc (leg_task s l) \<longrightarrow> late_pc pc"
    and "leg_task s' = (leg_task s)(l := pc)" "winner_leg_id s' = winner_leg_id s" "hung_up s' = hung_up s"
      "cancel_requested s' = cancel_requested s" "lock_owner s' = lock_owner s"
  shows "spared_ok cfg s'"
  using assms by (auto simp: spared_ok_def)

lemma spared_ok_step:
  assumes "race_step cfg a s = Some s'" and "undisturbed s'" and ok: "spared_ok cfg s" and calm: "calm_ok cfg s"
    and limit: "limit_ok cfg s" and core: "core_ok cfg s"
  shows "spared_ok cfg s'"
proof -
  have u: "undisturbed s"
    by (rule undisturbed_before [OF assms(1,2)])
  have lock: "lock_ok cfg s" and winner: "winner_ok cfg s"
    using core by (simp_all add: core_ok_def)
  show ?thesis
    using assms(1)
  proof (cases rule: race_step_cases)
    case watch
    then show ?thesis using calm_no_watch [OF u calm] by simp
  next
    case consume
    then show ?thesis
      by (cases rule: consume_cases) (use ok calm \<open>undisturbed s'\<close> in
        \<open>auto simp: spared_ok_def calm_ok_def all_gone_def undisturbed_def race_updates tear_down_frame\<close>)
  next
    case orchestrate
    show ?thesis
      unfolding orchestrate(3) using ok by (simp add: spared_ok_def race_updates)
  next
    case (quiet l pc)
    then show ?thesis
      using quiet_move_not_late [OF quiet(2)] by (intro spared_ok_move [OF ok, of l pc]) simp_all
  next
    case (claim l c)
    have "l \<notin> hung_up s"
      using spared_okD(1) [OF ok, of l] claim(1-4) by (auto simp: lock_free_def)
    with ok claim(1,4) show ?thesis
      unfolding claim(6) by (auto simp: spared_ok_def)
  next
    case (announce l c)
    then have "winner_leg_id s = Some l"
      using winner_okD(3) [OF winner, of l] by simp
    with ok show ?thesis
      unfolding announce(3) by (auto simp: spared_ok_def race_updates announce(2) split: if_splits)
  next
    case (stop_losers l)
    then have "winner_leg_id s = Some l"
      using winner_okD(3) [OF winner, of l] by simp
    with ok show ?thesis
      unfolding stop_losers(3) by (auto simp: spared_ok_def race_updates stop_losers(2) split: if_splits)
  next
    case (timed_out l)
    then have "winner_leg_id s = None" "leg_ttft_timeout (leg_of cfg l) > 0"
      using lock limit by (auto simp: lock_ok_def limit_ok_def)
    with ok timed_out(1) show ?thesis
      unfolding timed_out(2) by (auto simp: spared_ok_def race_updates hung_after_def requested_after_def split: if_splits)
  next
    case (interrupt l)
    with ok show ?thesis
      unfolding interrupt(4) by (auto simp: spared_ok_def)
  next
    case (fail l)
    with ok show ?thesis
      unfolding fail(3) by (auto simp: spared_ok_def race_updates hung_after_def)
  qed (use ok in \<open>auto simp: spared_ok_def race_updates hung_after_def lock_free_def split: if_splits\<close>)
qed

section \<open>The outcome\<close>

definition whole_ok :: "race_config \<Rightarrow> race \<Rightarrow> bool" where
  "whole_ok cfg s \<longleftrightarrow> (\<forall>w. winner_leg_id s = Some w \<and> winner_first_chunk_emitted s \<and> \<not> won_pc (leg_task s w) \<longrightarrow>
     (\<exists>ks. only_keepalives ks \<and> sent s = ks @ tagged w (prize cfg w)))"

definition nothing_ok :: "race_config \<Rightarrow> race \<Rightarrow> bool" where
  "nothing_ok cfg s \<longleftrightarrow> (winner_leg_id s = None \<longrightarrow>
     (\<forall>l \<in> set (leg_ids cfg). leg_ttft_timeout (leg_of cfg l) \<le> 0 \<and> (leg_task s l = Failing \<or> late_pc (leg_task s l)) \<longrightarrow>
        prize cfg l = []))"

lemma whole_ok_frame:
  assumes "whole_ok cfg s" and "sent s' = sent s" "winner_leg_id s' = winner_leg_id s"
    "winner_first_chunk_emitted s' = winner_first_chunk_emitted s"
    and "\<And>w. winner_leg_id s = Some w \<Longrightarrow> \<not> won_pc (leg_task s' w) \<Longrightarrow> \<not> won_pc (leg_task s w)"
  shows "whole_ok cfg s'"
  using assms by (auto simp: whole_ok_def)

lemma whole_ok_step:
  assumes "race_step cfg a s = Some s'" and "undisturbed s'" and ok: "whole_ok cfg s" and calm: "calm_ok cfg s"
    and spared: "spared_ok cfg s" and race: "race_ok cfg s"
  shows "whole_ok cfg s'"
proof -
  have u: "undisturbed s"
    by (rule undisturbed_before [OF assms(1,2)])
  have winner: "winner_ok cfg s" and lock: "lock_ok cfg s" and emitted: "emitted_ok s" and token: "token_ok s" and sends: "output_ok cfg s"
    using race by (simp_all add: race_ok_def core_ok_def)
  show ?thesis
    using assms(1)
  proof (cases rule: race_step_cases)
    case watch
    then show ?thesis using calm_no_watch [OF u calm] by simp
  next
    case consume
    then show ?thesis by (intro whole_ok_frame [OF ok]) (simp_all add: consume_frame consume_sent)
  next
    case orchestrate
    show ?thesis unfolding orchestrate(3) by (intro whole_ok_frame [OF ok]) (simp_all add: sent_def race_updates)
  next
    case keepalive
    with token emitted have "winner_leg_id s = None"
      by (auto simp: token_ok_def)
    with keepalive(4) show ?thesis
      by (simp add: whole_ok_def race_updates)
  next
    case (quiet l pc)
    have run: "\<not> should_stop s"
      using calm_running(3) [OF u calm] quiet(1) quiet_move_pcs(5) [OF quiet(2)] by blast
    show ?thesis
    proof (cases "winner_leg_id s = Some l \<and> won_pc (leg_task s l) \<and> winner_first_chunk_emitted s")
      case True
      then obtain xs ks where xs: "only_keepalives ks" "sent s = ks @ tagged l xs"
          "prize cfg l = xs @ before_error (in_hand (leg_task s l) (todo s l))"
        using sends by (auto simp: output_ok_def delivers_def)
      have "before_error (in_hand (leg_task s l) (todo s l)) = []"
        using quiet(2) True run by cases auto
      with xs True show ?thesis
        unfolding quiet(3) by (auto simp: whole_ok_def sent_def)
    next
      case False
      then show ?thesis
        unfolding quiet(3) using ok by (auto simp: whole_ok_def sent_def)
    qed
  next
    case (interrupt l)
    have "winner_leg_id s \<noteq> Some l"
      using spared_okD(1,2) [OF spared, of l] interrupt(3) lock by (auto simp: lock_ok_def is_reading_def split: leg_pc.splits)
    then show ?thesis
      unfolding interrupt(4) by (intro whole_ok_frame [OF ok]) (auto simp: sent_def)
  next
    case (receive l won c cs)
    then have "\<not> should_stop s"
      using calm_running(3) [OF u calm, of l] by simp
    then show ?thesis
      unfolding receive(4) using receive(2) by (intro whole_ok_frame [OF ok]) (auto simp: sent_def split: if_splits)
  next
    case (pass l c)
    then have "winner_leg_id s = Some l"
      using winner_okD(3) [OF winner, of l] by simp
    then show ?thesis
      unfolding pass(5) by (auto simp: whole_ok_def)
  next
    case (announce l c)
    then have "winner_leg_id s = Some l"
      using winner_okD(3) [OF winner, of l] by simp
    then show ?thesis
      unfolding announce(3) by (auto simp: whole_ok_def race_updates)
  next
    case (claim l c)
    then have "\<not> winner_first_chunk_emitted s"
      using emitted by (auto simp: emitted_ok_def)
    then show ?thesis
      unfolding claim(6) by (simp add: whole_ok_def)
  qed (rule whole_ok_frame [OF ok]; force simp: sent_def race_updates split: if_splits)+
qed

lemma nothing_ok_frame:
  assumes "nothing_ok cfg s" and "winner_leg_id s' = winner_leg_id s"
    and "\<And>l. leg_task s' l = Failing \<or> late_pc (leg_task s' l) \<Longrightarrow> leg_task s l = Failing \<or> late_pc (leg_task s l)"
  shows "nothing_ok cfg s'"
  using assms unfolding nothing_ok_def by metis

lemma open_offer:
  assumes "race_ok cfg s" and "winner_leg_id s = None" and "\<not> should_stop s" and "early_pc (leg_task s l) \<or> won_pc (leg_task s l)"
  shows "prize cfg l = offer cfg (in_hand (leg_task s l) (todo s l))"
  using assms winner_okD(3) [of cfg s l] by (auto simp: race_ok_def core_ok_def open_ok_def)

lemma nothing_ok_step:
  assumes "race_step cfg a s = Some s'" and "undisturbed s'" and ok: "nothing_ok cfg s" and calm: "calm_ok cfg s"
    and spared: "spared_ok cfg s" and limit: "limit_ok cfg s" and race: "race_ok cfg s"
  shows "nothing_ok cfg s'"
proof -
  have u: "undisturbed s"
    by (rule undisturbed_before [OF assms(1,2)])
  have lock: "lock_ok cfg s"
    using race by (simp add: race_ok_def core_ok_def)
  show ?thesis
    using assms(1)
  proof (cases rule: race_step_cases)
    case watch
    then show ?thesis using calm_no_watch [OF u calm] by simp
  next
    case consume
    then show ?thesis by (intro nothing_ok_frame [OF ok]) (simp_all add: consume_frame)
  next
    case orchestrate
    show ?thesis unfolding orchestrate(3) by (intro nothing_ok_frame [OF ok]) (simp_all add: race_updates)
  next
    case (quiet l pc)
    have run: "\<not> should_stop s"
      using calm_running(3) [OF u calm] quiet(1) quiet_move_pcs(5) [OF quiet(2)] by blast
    have "prize cfg l = []" if "winner_leg_id s = None" "pc = Failing \<or> late_pc pc"
      using quiet(2) that run open_offer [OF race that(1) run, of l] by cases auto
    with ok show ?thesis
      unfolding quiet(3) by (auto simp: nothing_ok_def)
  next
    case (interrupt l)
    have "leg_ttft_timeout (leg_of cfg l) > 0 \<or> late_pc (leg_task s l)" if "winner_leg_id s = None"
      using spared_okD(1,3) [OF spared, of l] that interrupt(3) lock limit by (auto simp: lock_ok_def limit_ok_def)
    with ok show ?thesis
      unfolding interrupt(4) by (force simp: nothing_ok_def)
  next
    case (receive l won c cs)
    then have "\<not> should_stop s"
      using calm_running(3) [OF u calm, of l] by simp
    then show ?thesis
      unfolding receive(4) by (intro nothing_ok_frame [OF ok]) (auto split: if_splits)
  next
    case (claim l c)
    then show ?thesis by (simp add: nothing_ok_def)
  qed (rule nothing_ok_frame [OF ok]; force simp: race_updates split: if_splits)+
qed

definition calm_race :: "race_config \<Rightarrow> race \<Rightarrow> bool" where
  "calm_race cfg s \<longleftrightarrow> calm_ok cfg s \<and> spared_ok cfg s \<and> whole_ok cfg s \<and> nothing_ok cfg s"

lemma calm_race_init: "calm_race cfg (race_init cfg)"
  by (simp add: calm_race_def calm_ok_def all_gone_def spared_ok_def whole_ok_def nothing_ok_def race_init_def leg_ids_def)

lemma calm_race_reaches:
  assumes "race_reaches cfg s"
  shows "limit_ok cfg s \<and> (undisturbed s \<longrightarrow> calm_race cfg s)"
  using assms
proof (induction rule: race_reaches.induct)
  case race_start
  show ?case
    using calm_race_init [of cfg] by (simp add: limit_ok_def race_init_def)
next
  case (race_next s a s')
  have "race_ok cfg s" "core_ok cfg s"
    using race_ok_reaches [OF race_next(1)] by (simp_all add: race_ok_def)
  then show ?case
    using race_next undisturbed_before [OF race_next(2)] limit_ok_step [OF race_next(2)] unfolding calm_race_def
    by (blast intro: calm_ok_step spared_ok_step whole_ok_step nothing_ok_step)
qed

section \<open>Properties\<close>

lemma prefix_tagged:
  assumes "prefix ys (ks @ tagged w xs)"
  shows "prefix ys ks \<or> (\<exists>zs. zs \<noteq> [] \<and> prefix zs xs \<and> ys = ks @ tagged w zs)"
proof (cases "prefix ys ks")
  case False
  then obtain us where us: "ys = ks @ us" "prefix us (tagged w xs)" "us \<noteq> []"
    using assms by (auto simp: prefix_append)
  then obtain c cs where xs: "xs = c # cs"
    by (cases xs) auto
  with us obtain vs where "us = (c, Some w) # vs" "prefix vs (map (\<lambda>x. (x, None)) cs)"
    by (cases us) auto
  then have "us = tagged w (c # take (length vs) cs)"
    by (auto simp: prefix_def take_map [symmetric])
  with us xs show ?thesis
    by (intro disjI2 exI [of _ "c # take (length vs) cs"]) (auto simp: take_is_prefix)
qed simp

lemma prefix_keepalives: "only_keepalives ks \<Longrightarrow> prefix ys ks \<Longrightarrow> only_keepalives ys"
  by (auto simp: prefix_def)

text \<open>
  C7. Whatever the order in which the legs, the watchdogs, the client and the consumer go on, what the
  consumer of a race has received is keepalives, followed by nothing or by chunks of one leg, the
  winner: from its first token on, in the order of its stream, without a gap, and never with a chunk
  that reports an error. Only the first of them names the winner, and no other leg is ever heard.
\<close>

theorem race_delivers_one_leg:
  assumes "race_reaches cfg s"
  shows "\<exists>ks. only_keepalives ks \<and>
    (yielded s = ks \<or> (\<exists>w \<in> set (leg_ids cfg). \<exists>xs. winner_leg_id s = Some w \<and> xs \<noteq> [] \<and> prefix xs (prize cfg w) \<and>
       yielded s = ks @ tagged w xs))"
proof (cases "winner_first_chunk_emitted s")
  case True
  have ok: "output_ok cfg s" "winner_ok cfg s"
    using race_ok_reaches [OF assms] by (simp_all add: race_ok_def core_ok_def)
  then obtain w xs ks where w: "winner_leg_id s = Some w" "only_keepalives ks" "sent s = ks @ tagged w xs" "prefix xs (prize cfg w)"
    using True by (auto simp: output_ok_def delivers_def split: if_splits)
  then have "prefix (yielded s) (ks @ tagged w xs)"
    by (metis prefixI sent_def)
  then consider "prefix (yielded s) ks" | zs where "zs \<noteq> []" "prefix zs xs" "yielded s = ks @ tagged w zs"
    using prefix_tagged by blast
  then show ?thesis
  proof cases
    case 1
    then show ?thesis using prefix_keepalives [OF w(2)] by blast
  next
    case (2 zs)
    then show ?thesis
      using w winner_okD(1) [OF ok(2) w(1)] prefix_order.trans [OF 2(2) w(4)] by blast
  qed
next
  case False
  have "only_keepalives (sent s)"
    using race_ok_reaches [OF assms] False by (simp add: race_ok_def output_ok_def)
  then have "only_keepalives (yielded s)"
    by (simp add: sent_def)
  then show ?thesis by blast
qed

lemma undisturbed_outcome:
  assumes "race_reaches cfg s" and "undisturbed s" and "consumer s = Finished"
  shows "\<exists>ks. only_keepalives ks \<and>
    ((\<exists>w \<in> set (leg_ids cfg). prize cfg w \<noteq> [] \<and> yielded s = ks @ tagged w (prize cfg w)) \<or>
     (yielded s = ks \<and> (\<forall>l \<in> set (leg_ids cfg). leg_ttft_timeout (leg_of cfg l) \<le> 0 \<longrightarrow> prize cfg l = [])))"
proof -
  have calm: "calm_ok cfg s" "whole_ok cfg s" "nothing_ok cfg s"
    using calm_race_reaches [OF assms(1)] assms(2) by (simp_all add: calm_race_def)
  have ok: "output_ok cfg s" "winner_ok cfg s" "first_chunk_ok s" "emitted_ok s"
    using race_ok_reaches [OF assms(1)] by (simp_all add: race_ok_def core_ok_def)
  from calm(1) assms(3) have gone: "all_gone cfg s" and sent: "sent s = yielded s"
    by (auto simp: calm_ok_def sent_def)
  show ?thesis
  proof (cases "winner_leg_id s")
    case (Some w)
    then have w: "w \<in> set (leg_ids cfg)" "leg_task s w = Gone"
      using winner_okD(1) [OF ok(2)] gone by (auto simp: all_gone_def)
    with ok(3) Some have e: "winner_first_chunk_emitted s"
      by (auto simp: first_chunk_ok_def)
    with calm(2) Some w obtain ks where "only_keepalives ks" "yielded s = ks @ tagged w (prize cfg w)"
      by (auto simp: whole_ok_def sent)
    moreover have "prize cfg w \<noteq> []"
      using ok(1) e Some by (auto simp: output_ok_def delivers_def split: if_splits)
    ultimately show ?thesis
      using w(1) by blast
  next
    case None
    with ok(4) have "\<not> winner_first_chunk_emitted s"
      by (auto simp: emitted_ok_def)
    with ok(1) sent have "only_keepalives (yielded s)"
      by (simp add: output_ok_def)
    with None calm(3) gone show ?thesis
      by (auto simp: nothing_ok_def all_gone_def)
  qed
qed

text \<open>
  C8. When a race is over that neither the client nor the consumer has broken off, the consumer has got
  the whole of the winner: all its chunks from the first token up to its end or to an error. There is
  no winner only if no leg without a time limit had a token to offer.
\<close>

theorem undisturbed_race_outcome:
  assumes "race_reaches cfg s" and "undisturbed s" and "consumer s = Finished"
  shows "\<exists>ks. only_keepalives ks \<and>
    ((\<exists>w \<in> set (leg_ids cfg). prize cfg w \<noteq> [] \<and> yielded s = ks @ tagged w (prize cfg w)) \<or>
     (yielded s = ks \<and> (\<forall>l \<in> set (leg_ids cfg). leg_ttft_timeout (leg_of cfg l) \<le> 0 \<longrightarrow> prize cfg l = [])))"
  by (rule undisturbed_outcome [OF assms])

section \<open>Losers and late starters\<close>

definition hung_ok :: "race_config \<Rightarrow> race \<Rightarrow> bool" where
  "hung_ok cfg s \<longleftrightarrow> (\<forall>w. winner_leg_id s = Some w \<and> winner_first_chunk_emitted s \<longrightarrow> set (leg_ids cfg) - {w} \<subseteq> hung_up s)"

lemma hung_after_grows: "hung_up s \<subseteq> hung_after why l s"
  by (auto simp: hung_after_def)

lemma hung_ok_frame:
  assumes "hung_ok cfg s" and "hung_up s \<subseteq> hung_up s'" "winner_leg_id s' = winner_leg_id s"
    "winner_first_chunk_emitted s' = winner_first_chunk_emitted s"
  shows "hung_ok cfg s'"
  using assms unfolding hung_ok_def by auto

lemma hung_ok_step:
  assumes "race_step cfg a s = Some s'" and ok: "hung_ok cfg s" and core: "core_ok cfg s"
  shows "hung_ok cfg s'"
  using assms(1)
proof (cases rule: race_step_cases)
  case watch
  then show ?thesis
    by (cases rule: watch_cases; intro hung_ok_frame [OF ok]; simp add: race_updates hung_after_grows)
next
  case consume
  then show ?thesis
    by (cases rule: consume_cases; intro hung_ok_frame [OF ok]; simp add: race_updates hung_after_grows tear_down_frame)
next
  case (announce l c)
  then have "winner_leg_id s = Some l" "cancelled_legs s \<subseteq> hung_up s"
    using winner_okD(3) [of cfg s l] core by (auto simp: core_ok_def cancel_ok_def)
  then show ?thesis
    unfolding announce(3) by (auto simp: hung_ok_def race_updates)
next
  case (claim l c)
  then show ?thesis
    using core by (auto simp: hung_ok_def core_ok_def emitted_ok_def)
qed (rule hung_ok_frame [OF ok]; simp add: race_updates hung_after_grows)+

text \<open>
  C33. By the time the consumer sees the first chunk of the winner, the cancel callback of every other
  leg has been called: no loser keeps its upstream request.
\<close>

theorem losers_hung_up:
  assumes "race_reaches cfg s" and "(c, Some w) \<in> set (yielded s)" and "l \<in> set (leg_ids cfg)" and "l \<noteq> w"
  shows "l \<in> hung_up s"
proof -
  have "hung_ok cfg s"
    using assms(1)
  proof (induction rule: race_reaches.induct)
    case race_start
    show ?case by (simp add: hung_ok_def race_init_def)
  next
    case (race_next s a s')
    then show ?case by (intro hung_ok_step [OF race_next(2)] core_ok_reaches)
  qed
  moreover have "winner_leg_id s = Some w \<and> winner_first_chunk_emitted s"
  proof -
    have sent: "(c, Some w) \<in> set (sent s)" and ok: "output_ok cfg s"
      using assms(2) race_ok_reaches [OF assms(1)] by (simp_all add: sent_def race_ok_def)
    then have e: "winner_first_chunk_emitted s"
      by (auto simp: output_ok_def only_keepalives_def split: if_splits)
    with ok obtain v ks xs where "winner_leg_id s = Some v" "only_keepalives ks" "sent s = ks @ tagged v xs"
      by (auto simp: output_ok_def delivers_def)
    with sent e show ?thesis
      by (cases xs) (auto simp: only_keepalives_def)
  qed
  ultimately show ?thesis
    using assms(3,4) by (auto simp: hung_ok_def)
qed

text \<open>Legs in the middle of their stream have been started.\<close>

fun mid_pc :: "leg_pc \<Rightarrow> bool" where
  "mid_pc Delayed = False"
| "mid_pc Entering = False"
| "mid_pc Leaving = False"
| "mid_pc (Ending b) = False"
| "mid_pc Gone = False"
| "mid_pc _ = True"

definition started_ok :: "race_config \<Rightarrow> race \<Rightarrow> bool" where
  "started_ok cfg s \<longleftrightarrow> (\<forall>l. mid_pc (leg_task s l) \<longrightarrow> l \<in> streaming_started s) \<and>
     (handicap_accelerate s \<longrightarrow> (\<exists>m \<in> streaming_started s. late_pc (leg_task s m)))"

definition waited_ok :: "race_config \<Rightarrow> race \<Rightarrow> bool" where
  "waited_ok cfg s \<longleftrightarrow> (\<forall>l. leg_task s l = Entering \<longrightarrow> start_delay cfg l \<le> clock s \<or> handicap_accelerate s)"

lemma quiet_move_mid: "quiet_move cfg s l pc pc' \<Longrightarrow> mid_pc pc' \<Longrightarrow> mid_pc pc"
  by (induction rule: quiet_move.induct) simp_all

lemma after_interrupt_mid [simp]: "\<not> mid_pc (after_interrupt pc)" "after_interrupt pc \<noteq> Entering"
  by (cases pc; simp add: after_interrupt_def)+

lemma started_ok_frame:
  assumes "started_ok cfg s" and "streaming_started s' = streaming_started s" "handicap_accelerate s' = handicap_accelerate s"
    and "\<And>l. mid_pc (leg_task s' l) \<Longrightarrow> mid_pc (leg_task s l)" "\<And>l. late_pc (leg_task s l) \<Longrightarrow> late_pc (leg_task s' l)"
  shows "started_ok cfg s'"
  using assms unfolding started_ok_def by metis

lemma started_ok_step:
  assumes "race_step cfg a s = Some s'" and ok: "started_ok cfg s"
  shows "started_ok cfg s'"
  using assms(1)
proof (cases rule: race_step_cases)
  case watch
  then show ?thesis by (intro started_ok_frame [OF ok]) (simp_all add: watch_frame)
next
  case consume
  then show ?thesis by (intro started_ok_frame [OF ok]) (simp_all add: consume_frame)
next
  case orchestrate
  show ?thesis unfolding orchestrate(3) by (intro started_ok_frame [OF ok]) (simp_all add: race_updates)
next
  case (quiet l pc)
  show ?thesis
    unfolding quiet(3) using quiet_move_mid [OF quiet(2)] quiet_move_not_late [OF quiet(2)]
    by (intro started_ok_frame [OF ok]) (auto split: if_splits)
next
  case (enter l)
  have "\<exists>m \<in> streaming_started s. m \<noteq> l \<and> late_pc (leg_task s m)" if "handicap_accelerate s"
    using ok that enter(2) unfolding started_ok_def by (metis late_pc.simps(6))
  with ok show ?thesis unfolding enter(5) by (auto simp: started_ok_def)
next
  case (release l)
  with ok show ?thesis unfolding release(3) by (force simp: started_ok_def)
next
  case (finish l b acc)
  with ok show ?thesis unfolding finish(4) by (force simp: started_ok_def)
qed (rule started_ok_frame [OF ok]; force simp: race_updates split: if_splits)+

lemma waited_ok_step:
  assumes "race_step cfg a s = Some s'" and ok: "waited_ok cfg s"
  shows "waited_ok cfg s'"
  using assms(1)
proof (cases rule: race_step_cases)
  case watch
  with ok show ?thesis by (simp add: waited_ok_def watch_frame)
next
  case consume
  with ok show ?thesis by (simp add: waited_ok_def consume_frame)
next
  case orchestrate
  show ?thesis unfolding orchestrate(3) using ok by (simp add: waited_ok_def race_updates)
next
  case (quiet l pc)
  have "pc = Entering \<Longrightarrow> start_delay cfg l \<le> clock s \<or> handicap_accelerate s"
    using quiet(2) by cases auto
  with ok show ?thesis unfolding quiet(3) by (auto simp: waited_ok_def)
next
  case (elapse t)
  with ok show ?thesis by (force simp: waited_ok_def)
qed (use ok in \<open>auto simp: waited_ok_def race_updates split: if_splits\<close>)

text \<open>
  A leg opens its stream only when its start delay has passed, or when another leg that had
  opened its stream before has ended.
\<close>

lemma head_start_respected:
  assumes "race_reaches cfg s" and "race_step cfg (Enter l) s = Some s'" and "leg_task s' l = Reading False"
  shows "start_delay cfg l \<le> clock s \<or> (\<exists>m \<in> streaming_started s. m \<noteq> l \<and> late_pc (leg_task s m))"
proof -
  have "started_ok cfg s \<and> waited_ok cfg s"
    using assms(1)
  proof (induction rule: race_reaches.induct)
    case race_start
    show ?case by (simp add: started_ok_def waited_ok_def race_init_def)
  next
    case (race_next s a s')
    then show ?case using started_ok_step [OF race_next(2)] waited_ok_step [OF race_next(2)] by blast
  qed
  moreover have "leg_task s l = Entering"
    using assms(2) by (auto simp: leg_action_def enter_def split: if_splits)
  ultimately show ?thesis
    unfolding started_ok_def waited_ok_def by (metis late_pc.simps(6))
qed

end
