(* ===== verification/Race_Liveness.thy ===== *)
theory Race_Liveness
  imports Race_Invariants
begin

text \<open>
  A race neither gets stuck nor runs on: every step except keepalives and the passing of time makes a
  measure smaller, and as long as the race is on some coroutine can go on, if no stream stalls.
\<close>

section \<open>A measure\<close>

definition leg_number :: "race_config \<Rightarrow> nat" where
  "leg_number cfg = length (leg_ids cfg)"

fun pc_cost :: "nat \<Rightarrow> leg_pc \<Rightarrow> nat \<Rightarrow> nat" where
  "pc_cost n Delayed k = (n + 8) * k + 16"
| "pc_cost n Entering k = (n + 8) * k + 15"
| "pc_cost n (Reading won) k = (n + 8) * k + 10"
| "pc_cost n (Checking c won) k = (n + 8) * k + n + 17"
| "pc_cost n (Claiming c) k = (n + 8) * k + n + 16"
| "pc_cost n (Claimed c) k = (n + 8) * k + n + 15"
| "pc_cost n Announced k = (n + 8) * k + n + 11"
| "pc_cost n Failing k = 8"
| "pc_cost n Releasing k = 7"
| "pc_cost n Leaving k = 6"
| "pc_cost n (Ending b) k = 5"
| "pc_cost n Gone k = 0"

definition dog_cost :: "race \<Rightarrow> string \<Rightarrow> nat" where
  "dog_cost s l = (if watchdog s l = None then 0 else if lock_owner s = Some l then 2 else 3)"

definition leg_cost :: "race_config \<Rightarrow> race \<Rightarrow> string \<Rightarrow> nat" where
  "leg_cost cfg s l = pc_cost (leg_number cfg) (leg_task s l) (length (todo s l)) + dog_cost s l + (if l \<in> cancel_requested s then 1 else 0)"

fun watcher_cost :: "nat \<Rightarrow> watcher_pc \<Rightarrow> nat" where
  "watcher_cost n Watching = 2 * n + 5"
| "watcher_cost n Deciding = 2 * n + 4"
| "watcher_cost n Awaiting_First_Chunk = 2 * n + 3"
| "watcher_cost n (Stopping ls) = 2 * length ls + 2"
| "watcher_cost n Watcher_Over = 0"

fun consumer_cost :: "nat \<Rightarrow> consumer_pc \<Rightarrow> nat" where
  "consumer_cost n Consuming = 3 * n + 4"
| "consumer_cost n Finishing = n + 1"
| "consumer_cost n Finished = 0"
| "consumer_cost n Aborting = 3 * n + 3"
| "consumer_cost n (Abort_Stopping ls) = 2 * length ls + n + 2"
| "consumer_cost n Aborted = 0"

definition side_cost :: "race_config \<Rightarrow> race \<Rightarrow> nat" where
  "side_cost cfg s = watcher_cost (leg_number cfg) (watcher s) + consumer_cost (leg_number cfg) (consumer s) +
     (if orchestrating s then 2 else 0) + length (race_queue s)"

definition race_cost :: "race_config \<Rightarrow> race \<Rightarrow> nat" where
  "race_cost cfg s = (\<Sum>l \<in> set (leg_ids cfg). leg_cost cfg s l) + side_cost cfg s"

lemma sum_one_smaller:
  assumes "finite A" and "l \<in> A" and "\<And>m. m \<in> A \<Longrightarrow> m \<noteq> l \<Longrightarrow> f' m = f m" and "f' l + k \<le> (f l :: nat)"
  shows "(\<Sum>m \<in> A. f' m) + k \<le> (\<Sum>m \<in> A. f m)"
proof -
  have "(\<Sum>m \<in> A - {l}. f' m) = (\<Sum>m \<in> A - {l}. f m)"
    using assms(3) by (intro sum.cong) auto
  then show ?thesis
    using assms(1,2,4) by (simp add: sum.remove [of A l])
qed

lemma sum_spread:
  assumes "finite A" and "\<And>m. m \<in> A \<Longrightarrow> f' m \<le> (f m :: nat) + 1"
  shows "(\<Sum>m \<in> A. f' m) \<le> (\<Sum>m \<in> A. f m) + card A"
proof -
  have "(\<Sum>m \<in> A. f' m) \<le> (\<Sum>m \<in> A. f m + 1)"
    using assms(2) by (rule sum_mono)
  then show ?thesis
    unfolding sum.distrib by simp
qed

lemma card_legs: "card (set (leg_ids cfg)) \<le> leg_number cfg"
  by (simp add: leg_number_def card_length)

text \<open>A step of one leg: its own cost pays for what it adds to the queue.\<close>

lemma cost_leg_step:
  assumes "l \<in> set (leg_ids cfg)"
    and "\<And>m. m \<noteq> l \<Longrightarrow> leg_cost cfg s' m = leg_cost cfg s m" and "leg_cost cfg s' l + k < leg_cost cfg s l"
    and "side_cost cfg s' = side_cost cfg s + k"
  shows "race_cost cfg s' < race_cost cfg s"
  using sum_one_smaller [of "set (leg_ids cfg)" l "leg_cost cfg s'" "leg_cost cfg s" "Suc k"] assms by (simp add: race_cost_def)

lemma cost_side_step:
  assumes "\<And>m. leg_cost cfg s' m = leg_cost cfg s m" and "side_cost cfg s' < side_cost cfg s"
  shows "race_cost cfg s' < race_cost cfg s"
  using assms by (simp add: race_cost_def)

text \<open>A step that may ask for the cancellation of one leg or of all.\<close>

lemma cost_request_one:
  assumes "\<And>m. m \<noteq> l \<Longrightarrow> leg_cost cfg s' m \<le> leg_cost cfg s m" and "leg_cost cfg s' l \<le> leg_cost cfg s l + 1"
    and "side_cost cfg s' + 1 < side_cost cfg s"
  shows "race_cost cfg s' < race_cost cfg s"
proof -
  have "(\<Sum>m \<in> set (leg_ids cfg). leg_cost cfg s' m) \<le> (\<Sum>m \<in> set (leg_ids cfg). leg_cost cfg s m + (if m = l then 1 else 0))"
    using assms(1,2) by (intro sum_mono) (metis add.right_neutral)
  then have "(\<Sum>m \<in> set (leg_ids cfg). leg_cost cfg s' m) \<le> (\<Sum>m \<in> set (leg_ids cfg). leg_cost cfg s m) + 1"
    by (simp add: sum.distrib sum.delta split: if_splits)
  with assms(3) show ?thesis
    by (simp add: race_cost_def)
qed

lemma cost_request_all:
  assumes "\<And>m. leg_cost cfg s' m \<le> leg_cost cfg s m + 1" and "side_cost cfg s' + leg_number cfg < side_cost cfg s"
  shows "race_cost cfg s' < race_cost cfg s"
  using sum_spread [of "set (leg_ids cfg)" "leg_cost cfg s'" "leg_cost cfg s"] assms card_legs [of cfg] by (simp add: race_cost_def)

lemma leg_cost_same:
  assumes "leg_task s' m = leg_task s m" "todo s' m = todo s m" "watchdog s' m = watchdog s m"
    "lock_owner s' = Some m \<longleftrightarrow> lock_owner s = Some m" "m \<in> cancel_requested s' \<longleftrightarrow> m \<in> cancel_requested s"
  shows "leg_cost cfg s' m = leg_cost cfg s m"
  using assms by (simp add: leg_cost_def dog_cost_def)

lemma quiet_move_cost:
  "quiet_move cfg s l pc pc' \<Longrightarrow> pc_cost n pc' (length (todo s l)) < pc_cost n pc (length (todo s l))"
  by (induction rule: quiet_move.induct) simp_all

lemma after_interrupt_cost: "pc \<noteq> Gone \<Longrightarrow> pc_cost n (after_interrupt pc) k \<le> pc_cost n pc k"
  by (cases pc) (simp_all add: after_interrupt_def)

fun busy :: "action \<Rightarrow> bool" where
  "busy (Elapse t) = False"
| "busy Cancel_Client = False"
| "busy Keepalive = False"
| "busy _ = True"

lemmas leg_costs = leg_cost_def dog_cost_def side_cost_def race_updates

lemma watch_cost:
  assumes "watch cfg s = Some s'"
  shows "race_cost cfg s' < race_cost cfg s"
  using assms
proof (cases rule: watch_cases)
  case (stop l ls)
  then show ?thesis
    by (intro cost_request_one [of l]) (auto simp: leg_costs requested_after_def)
qed (intro cost_side_step; auto simp: leg_costs leg_number_def)+

lemma consume_cost:
  assumes "consume cfg s = Some s'"
  shows "race_cost cfg s' < race_cost cfg s"
  using assms
proof (cases rule: consume_cases)
  case (stop l ls)
  then show ?thesis
    by (intro cost_request_one [of l]) (auto simp: leg_costs requested_after_def)
next
  case finishing
  then show ?thesis
    by (intro cost_request_all) (auto simp: leg_costs tear_down_frame)
next
  case aborted
  then show ?thesis
    by (intro cost_request_all) (auto simp: leg_costs tear_down_frame)
qed (intro cost_side_step; auto simp: leg_costs leg_number_def)+

lemma interrupt_cost:
  assumes "l \<in> set (leg_ids cfg)" "leg_task s l \<noteq> Gone" "l \<in> cancel_requested s \<or> l \<in> hung_up s \<and> is_reading (leg_task s l)"
    and "s' = (to_pc s l (after_interrupt (leg_task s l)))\<lparr>cancel_requested := cancel_requested s - {l}\<rparr>"
  shows "race_cost cfg s' < race_cost cfg s"
proof (rule cost_leg_step [OF assms(1), of s' s 0])
  show "leg_cost cfg s' l + 0 < leg_cost cfg s l"
  proof (cases "l \<in> cancel_requested s")
    case True
    then show ?thesis
      using after_interrupt_cost [OF assms(2), of "leg_number cfg" "length (todo s l)"] assms(4) by (simp add: leg_cost_def dog_cost_def)
  next
    case False
    with assms(3) obtain won where "leg_task s l = Reading won"
      by (auto simp: is_reading_def split: leg_pc.splits)
    with False assms(4) show ?thesis
      by (simp add: leg_cost_def dog_cost_def after_interrupt_def)
  qed
qed (use assms(4) in \<open>auto simp: leg_costs\<close>)

lemma stop_losers_cost:
  assumes "l \<in> set (leg_ids cfg)" "leg_task s l = Announced" "s' = move l (Reading True) (stop_loser_tasks cfg l s)"
  shows "race_cost cfg s' < race_cost cfg s"
proof -
  define s1 where "s1 = to_pc s l (Reading True)"
  have "(\<Sum>m \<in> set (leg_ids cfg). leg_cost cfg s1 m) + Suc (leg_number cfg) \<le> (\<Sum>m \<in> set (leg_ids cfg). leg_cost cfg s m)"
    by (rule sum_one_smaller [of _ l]) (use assms(1,2) in \<open>auto simp: leg_costs s1_def\<close>)
  moreover have "(\<Sum>m \<in> set (leg_ids cfg). leg_cost cfg s' m) \<le> (\<Sum>m \<in> set (leg_ids cfg). leg_cost cfg s1 m) + card (set (leg_ids cfg))"
    by (rule sum_spread) (auto simp: leg_costs assms(3) s1_def)
  moreover have "side_cost cfg s' = side_cost cfg s"
    by (simp add: leg_costs assms(3))
  ultimately show ?thesis
    using card_legs [of cfg] by (simp add: race_cost_def)
qed

lemma busy_step_cost:
  assumes "race_step cfg a s = Some s'" and "busy a" and lock: "lock_ok cfg s"
  shows "race_cost cfg s' < race_cost cfg s"
  using assms(1)
proof (cases rule: race_step_cases)
  case watch
  then show ?thesis by (rule watch_cost)
next
  case consume
  then show ?thesis by (rule consume_cost)
next
  case (interrupt l)
  then show ?thesis by (rule interrupt_cost)
next
  case (stop_losers l)
  then show ?thesis by (intro stop_losers_cost) simp_all
next
  case orchestrate
  then show ?thesis by (intro cost_side_step) (auto simp: leg_costs)
next
  case close
  then show ?thesis by (intro cost_side_step) (auto simp: leg_costs)
next
  case (quiet l pc)
  then show ?thesis
    using quiet_move_cost [OF quiet(2), of "leg_number cfg"] by (intro cost_leg_step [of l _ _ _ 0]) (auto simp: leg_costs)
next
  case (pass l c)
  then show ?thesis by (intro cost_leg_step [of l _ _ _ 1]) (auto simp: leg_costs)
next
  case (announce l c)
  then show ?thesis by (intro cost_leg_step [of l _ _ _ 1]) (auto simp: leg_costs)
next
  case (timed_out l)
  with lock have "l \<in> set (leg_ids cfg)" "watchdog s l \<noteq> None"
    by (auto simp: lock_ok_def)
  with timed_out show ?thesis by (intro cost_leg_step [of l _ _ _ 0]) (auto simp: leg_costs requested_after_def)
next
  case (enter l)
  then show ?thesis by (intro cost_leg_step [of l _ _ _ 0]) (auto simp: leg_costs lock_free_def)
next
  case (receive l won c cs)
  then show ?thesis by (intro cost_leg_step [of l _ _ _ 0]) (auto simp: leg_costs)
next
  case (claim l c)
  then show ?thesis by (intro cost_leg_step [of l _ _ _ 0]) (auto simp: leg_costs)
next
  case (fail l)
  then show ?thesis by (intro cost_leg_step [of l _ _ _ 0]) (auto simp: leg_costs)
next
  case (release l)
  then show ?thesis by (intro cost_leg_step [of l _ _ _ 0]) (auto simp: leg_costs)
next
  case (drain l)
  then show ?thesis by (intro cost_leg_step [of l _ _ _ 0]) (auto simp: leg_costs)
next
  case (finish l b acc)
  then show ?thesis by (intro cost_leg_step [of l _ _ _ 0]) (auto simp: leg_costs)
next
  case (timeout l t)
  then show ?thesis by (intro cost_leg_step [of l _ _ _ 0]) (auto simp: leg_costs lock_free_def)
next
  case (too_late l t)
  then show ?thesis by (intro cost_leg_step [of l _ _ _ 0]) (auto simp: leg_costs lock_free_def)
qed (use \<open>busy a\<close> in simp_all)

lemma idle_action_cases: "\<not> busy a \<Longrightarrow> (\<exists>t. a = Elapse t) \<or> a = Cancel_Client \<or> a = Keepalive"
  by (cases a) simp_all

lemma idle_step_cost:
  assumes "race_step cfg a s = Some s'" and "\<not> busy a"
  shows "race_cost cfg s' \<le> race_cost cfg s + (if a = Keepalive then 1 else 0)"
proof -
  consider t where "a = Elapse t" "s' = s\<lparr>clock := clock s + t\<rparr>"
    | "a = Cancel_Client" "s' = s\<lparr>client_cancelled := True\<rparr>"
    | "a = Keepalive" "s' = (emit keepalive_chunk None s)\<lparr>next_keepalive := clock s + keepalive_interval cfg\<rparr>"
    using idle_action_cases [OF assms(2)] assms(1) by (auto simp: keepalive_def split: if_splits)
  then have "(\<forall>m. leg_cost cfg s' m = leg_cost cfg s m) \<and> side_cost cfg s' \<le> side_cost cfg s + (if a = Keepalive then 1 else 0)"
    by cases (simp_all add: leg_cost_def dog_cost_def side_cost_def emit_def)
  then show ?thesis
    by (simp add: race_cost_def)
qed

text \<open>
  C23. A race does not run on: in every run the number of steps of its coroutines is bounded by a
  measure of the legs (their number and the lengths of their streams) and the number of keepalives
  sent, whatever the order of the steps.
\<close>

theorem race_steps_bounded:
  assumes "race_run cfg as (race_init cfg) = Some s"
  shows "length (filter busy as) + race_cost cfg s \<le> race_cost cfg (race_init cfg) + length (filter (\<lambda>a. a = Keepalive) as)"
proof -
  have "length (filter busy as) + race_cost cfg s \<le> race_cost cfg s0 + length (filter (\<lambda>a. a = Keepalive) as)"
    if "race_reaches cfg s0" "race_run cfg as s0 = Some s" for s0
    using that
  proof (induction as arbitrary: s0)
    case (Cons a as)
    then obtain s1 where s1: "race_step cfg a s0 = Some s1" "race_run cfg as s1 = Some s"
      by (auto split: option.splits)
    have IH: "length (filter busy as) + race_cost cfg s \<le> race_cost cfg s1 + length (filter (\<lambda>a. a = Keepalive) as)"
      using Cons.IH race_next [OF Cons.prems(1) s1(1)] s1(2) by blast
    have "lock_ok cfg s0"
      using core_ok_reaches [OF Cons.prems(1)] by (simp add: core_ok_def)
    then have "if busy a then race_cost cfg s1 < race_cost cfg s0 else race_cost cfg s1 \<le> race_cost cfg s0 + (if a = Keepalive then 1 else 0)"
      using busy_step_cost [OF s1(1)] idle_step_cost [OF s1(1)] by simp
    with IH show ?case by (auto split: if_splits)
  qed simp
  with race_start assms show ?thesis by blast
qed

section \<open>Progress\<close>

text \<open>A leg that is not through can go on, at the latest when its delay is over.\<close>

lemma leg_can_go_on:
  assumes "lock_free s" and "l \<in> set (leg_ids cfg)" and "leg_task s l \<noteq> Gone" and "leg_end (leg_of cfg l) \<noteq> Stalled"
  shows "\<exists>a t s'. busy a \<and> t \<ge> 0 \<and> race_step cfg a (s\<lparr>clock := clock s + t\<rparr>) = Some s'"
proof (cases "l \<in> cancel_requested s")
  case True
  with assms show ?thesis
    by (intro exI [of _ "Interrupt l"] exI [of _ "0 :: real"]) (simp add: interrupt_def)
next
  case False
  define t where "t = max 0 (start_delay cfg l - clock s)"
  define s1 where "s1 = s\<lparr>clock := clock s + t\<rparr>"
  have s1: "lock_free s1" "l \<notin> cancel_requested s1" "start_delay cfg l \<le> clock s1" "leg_task s1 l = leg_task s l" "todo s1 l = todo s l" "t \<ge> 0"
    using assms(1) False by (simp_all add: s1_def t_def lock_free_def)
  have "\<exists>a s'. busy a \<and> race_step cfg a s1 = Some s'"
  proof (cases "leg_task s l")
    case Delayed
    with s1 assms(2) show ?thesis by (intro exI [of _ "Wake l"]) (simp add: leg_action_def wake_leg_def)
  next
    case Entering
    with s1 assms(2) show ?thesis by (intro exI [of _ "Enter l"]) (simp add: leg_action_def enter_def)
  next
    case (Reading won)
    with s1 assms(2,4) show ?thesis
      by (intro exI [of _ "Receive l"]) (simp add: leg_action_def receive_def split: list.split stream_end.split)
  next
    case (Checking c won)
    with s1 assms(2) show ?thesis by (intro exI [of _ "Check l"]) (simp add: leg_action_def check_chunk_def)
  next
    case (Claiming c)
    with s1 assms(2) show ?thesis by (intro exI [of _ "Claim l"]) (simp add: leg_action_def claim_def)
  next
    case (Claimed c)
    with s1 assms(2) show ?thesis by (intro exI [of _ "Announce l"]) (simp add: leg_action_def announce_def)
  next
    case Announced
    with s1 assms(2) show ?thesis by (intro exI [of _ "Stop_Losers l"]) (simp add: leg_action_def stop_losers_def)
  next
    case Failing
    with s1 assms(2) show ?thesis by (intro exI [of _ "Fail l"]) (simp add: leg_action_def fail_def)
  next
    case Releasing
    with s1 assms(2) show ?thesis by (intro exI [of _ "Release l"]) (simp add: leg_action_def request_pending_leg_acceleration_def)
  next
    case Leaving
    with s1 assms(2) show ?thesis by (intro exI [of _ "Drain l"]) (simp add: leg_action_def drain_def)
  next
    case (Ending b)
    with s1 assms(2) show ?thesis by (intro exI [of _ "Finish l"]) (simp add: leg_action_def finish_def)
  qed (use assms(3) in simp)
  with s1(6) show ?thesis
    unfolding s1_def by blast
qed

text \<open>The consumer is told when all legs are through.\<close>

definition sentinel_ok :: "race \<Rightarrow> bool" where
  "sentinel_ok s \<longleftrightarrow> (consumer s = Consuming \<and> \<not> orchestrating s \<longrightarrow> None \<in> set (race_queue s))"

lemma sentinel_ok_step:
  assumes "race_step cfg a s = Some s'" and ok: "sentinel_ok s"
  shows "sentinel_ok s'"
  using assms(1)
proof (cases rule: race_step_cases)
  case watch
  then show ?thesis
    by (cases rule: watch_cases) (use ok in \<open>simp_all add: sentinel_ok_def race_updates\<close>)
next
  case consume
  then show ?thesis
    by (cases rule: consume_cases) (use ok in \<open>simp_all add: sentinel_ok_def race_updates tear_down_frame\<close>)
qed (use ok in \<open>simp_all add: sentinel_ok_def race_updates\<close>)

lemma sentinel_ok_reaches: "race_reaches cfg s \<Longrightarrow> sentinel_ok s"
proof (induction rule: race_reaches.induct)
  case race_start
  show ?case by (simp add: sentinel_ok_def race_init_def)
next
  case (race_next s a s')
  show ?case by (rule sentinel_ok_step [OF race_next(2,3)])
qed

lemma clock_now: "s\<lparr>clock := clock s + 0\<rparr> = s"
  by simp

lemma consumer_can_go_on:
  assumes "\<not> orchestrating s" and "sentinel_ok s" and "winner_leg_id s = None \<or> winner_first_chunk_emitted s"
    and "consumer s \<noteq> Finished" "consumer s \<noteq> Aborted"
  shows "\<exists>s'. consume cfg s = Some s'"
proof (cases "consumer s")
  case Consuming
  with assms(1,2) obtain x q where "race_queue s = x # q"
    by (cases "race_queue s") (auto simp: sentinel_ok_def)
  with Consuming show ?thesis by (cases x) (simp_all add: consume_def)
next
  case (Abort_Stopping ls)
  then show ?thesis by (cases ls) (simp_all add: consume_def)
next
  case Aborting
  with assms(3) show ?thesis by (auto simp: consume_def)
qed (use assms(4,5) in \<open>simp_all add: consume_def\<close>)

lemma race_can_go_on:
  assumes reach: "race_reaches cfg s" and flows: "\<forall>l \<in> set (leg_ids cfg). leg_end (leg_of cfg l) \<noteq> Stalled"
    and "consumer s \<noteq> Finished" "consumer s \<noteq> Aborted"
  shows "\<exists>a t s'. busy a \<and> t \<ge> 0 \<and> race_step cfg a (s\<lparr>clock := clock s + t\<rparr>) = Some s'"
proof -
  have lock: "lock_ok cfg s" and first: "first_chunk_ok s" and winner: "winner_ok cfg s" and sentinel: "sentinel_ok s"
    using core_ok_reaches [OF reach] sentinel_ok_reaches [OF reach] by (simp_all add: core_ok_def)
  have now: "\<exists>a t s'. busy a \<and> t \<ge> 0 \<and> race_step cfg a (s\<lparr>clock := clock s + t\<rparr>) = Some s'"
    if "busy a" "race_step cfg a s = Some s'" for a s'
    by (rule exI [of _ a], rule exI [of _ 0], rule exI [of _ s']) (use that in simp)
  consider (held) l where "lock_owner s = Some l" | (leg) l where "l \<in> set (leg_ids cfg)" "leg_task s l \<noteq> Gone" "lock_free s"
    | (through) "\<forall>l \<in> set (leg_ids cfg). leg_task s l = Gone"
    by (cases "lock_owner s") (auto simp: lock_free_def)
  then show ?thesis
  proof cases
    case (held l)
    with lock have "l \<in> set (leg_ids cfg)" by (simp add: lock_ok_def)
    with held show ?thesis by (intro now [of "Timed_Out l"]) (simp_all add: timed_out_def)
  next
    case (leg l)
    then show ?thesis using leg_can_go_on [of s l cfg] flows by blast
  next
    case through
    show ?thesis
    proof (cases "orchestrating s")
      case True
      with through show ?thesis by (intro now [of Orchestrate]) (simp_all add: orchestrate_def list_all_iff)
    next
      case False
      have "winner_leg_id s = None \<or> winner_first_chunk_emitted s"
      proof (rule ccontr)
        assume "\<not> ?thesis"
        then obtain w where "winner_leg_id s = Some w" "is_claimed (leg_task s w)"
          using first by (auto simp: first_chunk_ok_def)
        with winner_okD(1) [OF winner] through show False by force
      qed
      with False sentinel assms(3,4) obtain s' where "consume cfg s = Some s'"
        using consumer_can_go_on by blast
      then show ?thesis by (intro now [of Consume s']) simp_all
    qed
  qed
qed

text \<open>
  C22. A race never gets stuck: if the streams of its legs all end or fail, then from every state that can
  be reached (also after the client has cancelled or the consumer has closed the stream) some
  continuation brings the race to its end, whatever has happened before.
\<close>

theorem race_can_finish:
  assumes "race_reaches cfg s" and "\<forall>l \<in> set (leg_ids cfg). leg_end (leg_of cfg l) \<noteq> Stalled"
  shows "\<exists>as s'. race_run cfg as s = Some s' \<and> (consumer s' = Finished \<or> consumer s' = Aborted)"
  using assms(1)
proof (induction "race_cost cfg s" arbitrary: s rule: less_induct)
  case less
  show ?case
  proof (cases "consumer s = Finished \<or> consumer s = Aborted")
    case True
    then show ?thesis by (intro exI [of _ "[]"]) auto
  next
    case False
    then obtain a t s2 where a: "busy a" "t \<ge> 0" "race_step cfg a (s\<lparr>clock := clock s + t\<rparr>) = Some s2"
      using race_can_go_on [OF less.prems assms(2)] by blast
    define s1 where "s1 = s\<lparr>clock := clock s + t\<rparr>"
    obtain as where as: "race_run cfg as s = Some s1"
      using a(2) clock_now [of s] by (cases "t = 0") (auto simp: s1_def intro: that [of "[]"] that [of "[Elapse t]"])
    have reach: "race_reaches cfg s1"
      using race_run_reaches [OF less.prems as] .
    have "race_cost cfg s2 < race_cost cfg s1"
      using busy_step_cost [of cfg a s1 s2] a core_ok_reaches [OF reach] by (simp add: s1_def core_ok_def)
    moreover have "race_cost cfg s1 = race_cost cfg s"
      unfolding race_cost_def by (intro arg_cong2 [where f = "(+)"] sum.cong leg_cost_same) (simp_all add: side_cost_def s1_def)
    ultimately obtain bs s' where bs: "race_run cfg bs s2 = Some s'" "consumer s' = Finished \<or> consumer s' = Aborted"
      using less.hyps [of s2] race_next [OF reach, of a s2] a(3) by (auto simp: s1_def)
    have "race_run cfg (as @ a # bs) s = Some s'"
      using as a(3) bs(1) by (simp add: race_run_append s1_def)
    with bs(2) show ?thesis by blast
  qed
qed

end
