(* ===== verification/Parallel_Theorems.thy ===== *)
theory Parallel_Theorems
  imports Parallel_Orchestrator Race_Theorems Race_Liveness Thinking_Cycle
begin

text \<open>
  The parallel completion as a whole: the legs of a plan have names of their own and the timings of the
  plan, a response that is not streamed is put together from the stream of the winner alone, and a
  thinker whose executor is a parallel selector takes turns with it, although the two kinds of turns are
  chosen by different components.
\<close>

section \<open>Legs\<close>

lemma no_dash_in_number: "CHR ''-'' \<notin> set (py_str_nat n)"
  using py_str_nat_digits [of n] by (auto simp: all_digits_def list_all_iff py_isdigit_def Let_def)

lemma leg_name_inject:
  assumes "leg_name i a = leg_name j b"
  shows "i = j"
proof -
  have "takeWhile (\<lambda>c. c \<noteq> CHR ''-'') (py_str_nat n @ CHR ''-'' # xs) = py_str_nat n" for n xs
    using no_dash_in_number [of n] by (subst takeWhile_append2) auto
  then have "py_str_nat i = py_str_nat j"
    using assms unfolding leg_name_def by (metis append_Cons append_Nil same_append_eq)
  then show ?thesis
    using digits_val_py_str_nat by metis
qed

lemma race_legs_of:
  "race_legs (race_of cd call plan request context) =
     map (\<lambda>(i, node). build_race_leg call request context i node) (enumerate 0 (parallel_children (root_node plan)))"
  by (simp add: race_of_def)

lemma leg_id_build [simp]: "leg_id (build_race_leg call request context i node) = leg_name i (leaf_selector node)"
  by (simp add: build_race_leg_def Let_def split: prod.split)

lemma leg_ids_distinct: "distinct (leg_ids (race_of cd call plan request context))"
proof -
  have "inj_on (\<lambda>p. leg_name (fst p) (leaf_selector (snd p))) (set (enumerate 0 ns))" for ns :: "CompositeLeafNode list"
    by (rule inj_onI) (auto dest: leg_name_inject simp: in_set_enumerate_eq)
  then show ?thesis
    unfolding leg_ids_def race_legs_of by (simp add: distinct_map comp_def case_prod_unfold inj_on_def)
qed

text \<open>Every leg is found under its name.\<close>

lemma leg_of_build:
  assumes "i < length (parallel_children (root_node plan))"
  defines "node \<equiv> parallel_children (root_node plan) ! i"
  shows "leg_name i (leaf_selector node) \<in> set (leg_ids (race_of cd call plan request context))"
    and "leg_of (race_of cd call plan request context) (leg_name i (leaf_selector node)) = build_race_leg call request context i node"
proof -
  let ?cfg = "race_of cd call plan request context" and ?l = "leg_name i (leaf_selector node)"
  have leg: "build_race_leg call request context i node \<in> set (race_legs ?cfg)"
    using assms(1) unfolding race_legs_of node_def by (force simp: in_set_enumerate_eq)
  then show "?l \<in> set (leg_ids ?cfg)"
    unfolding leg_ids_def by (metis imageI leg_id_build set_map)
  obtain g where g: "find (\<lambda>g. leg_id g = ?l) (race_legs ?cfg) = Some g"
    using leg by (cases "find (\<lambda>g. leg_id g = ?l) (race_legs ?cfg)") (auto simp: find_None_iff)
  then have "g \<in> set (race_legs ?cfg)" "leg_id g = leg_id (build_race_leg call request context i node)"
    by (auto simp: find_Some_iff)
  with leg leg_ids_distinct [of cd call plan request "context"] have "g = build_race_leg call request context i node"
    unfolding leg_ids_def by (metis distinct_map inj_onD)
  with g show "leg_of ?cfg ?l = build_race_leg call request context i node"
    by (simp add: leg_of_def)
qed

section \<open>The response that is not streamed\<close>

lemma keepalive_not_collected: "coerce_stream_chunk_to_dict cd (chunk_content keepalive_chunk) = None"
proof -
  have "payload_lines ('': keep-alive'' @ [CHR 0x0A, CHR 0x0A]) = []"
    by code_simp
  then show ?thesis
    by (simp add: keepalive_chunk_def)
qed

lemma as_processed_content [simp]: "chunk_content (as_processed c) = chunk_content c"
  by (cases c) simp_all

lemma collect_as_processed: "fold (collect_chunk cd) (map as_processed cs) a = fold (collect_chunk cd) cs a"
  by (induction cs arbitrary: a) (simp_all add: collect_chunk_def)

lemma collect_keepalives:
  "only_keepalives ks \<Longrightarrow> fold (collect_chunk cd) (map (as_processed \<circ> fst) ks) a = a"
proof (induction ks arbitrary: a)
  case (Cons k ks)
  then have "k = (keepalive_chunk, None)" "only_keepalives ks"
    by (auto simp: only_keepalives_def)
  with Cons.IH show ?case
    by (simp add: collect_chunk_def keepalive_not_collected)
qed simp

lemma map_fst_tagged: "map (as_processed \<circ> fst) (tagged w xs) = map as_processed xs"
  by (cases xs) (simp_all add: comp_def)

text \<open>
  A response that is not streamed is put together from one leg: when the race of a parallel plan is
  over and neither the client nor the server has broken it off, the response is the one collected from
  the chunks of the winner, from its first token on; if no leg that has no time limit offered a token
  it is the empty response. Keepalives leave no trace in it.
\<close>

lemma parallel_response_from_winner:
  assumes "execute_parallel cd call plan request context = Inr cfg"
    and "race_reaches cfg s" and "undisturbed s" and "consumer s = Finished"
  shows "(\<exists>i < length (parallel_children (root_node plan)).
      let w = leg_name i (leaf_selector (parallel_children (root_node plan) ! i)) in
      prize cfg w \<noteq> [] \<and> parallel_response cd now s = collect_streaming_envelope_to_response cd now (prize cfg w)) \<or>
    (parallel_response cd now s = collect_streaming_envelope_to_response cd now [] \<and>
     (\<forall>l \<in> set (leg_ids cfg). leg_ttft_timeout (leg_of cfg l) \<le> 0 \<longrightarrow> prize cfg l = []))"
proof -
  have cfg: "cfg = race_of cd call plan request context"
    using assms(1) by (simp add: execute_parallel_def split: if_splits)
  have response: "parallel_response cd now s = collect_streaming_envelope_to_response cd now xs"
    if "only_keepalives ks" "yielded s = ks @ tagged w xs" for ks w xs
    using that unfolding parallel_response_def collect_streaming_envelope_to_response_def collect_chunks_def race_stream_def
    by (simp add: collect_keepalives map_fst_tagged collect_as_processed)
  obtain ks where ks: "only_keepalives ks" and
    "(\<exists>w \<in> set (leg_ids cfg). prize cfg w \<noteq> [] \<and> yielded s = ks @ tagged w (prize cfg w)) \<or>
     (yielded s = ks \<and> (\<forall>l \<in> set (leg_ids cfg). leg_ttft_timeout (leg_of cfg l) \<le> 0 \<longrightarrow> prize cfg l = []))"
    using undisturbed_outcome [OF assms(2-4)] by blast
  then consider (won) w where "w \<in> set (leg_ids cfg)" "prize cfg w \<noteq> []" "yielded s = ks @ tagged w (prize cfg w)"
    | (none) "yielded s = ks" "\<forall>l \<in> set (leg_ids cfg). leg_ttft_timeout (leg_of cfg l) \<le> 0 \<longrightarrow> prize cfg l = []"
    by blast
  then show ?thesis
  proof cases
    case (won w)
    then obtain i where "i < length (parallel_children (root_node plan))"
        "w = leg_name i (leaf_selector (parallel_children (root_node plan) ! i))"
      unfolding cfg leg_ids_def race_legs_of by (auto simp: in_set_enumerate_eq)
    with won response [OF ks won(3)] show ?thesis
      by (auto simp: Let_def)
  next
    case none
    with response [OF ks, of "[]" "[]"] show ?thesis by simp
  qed
qed

section \<open>Collected messages\<close>

text \<open>The deltas of the first choices of the chunks that hold a JSON object.\<close>

definition chunk_delta :: "codec \<Rightarrow> stream_chunk \<Rightarrow> jdict list" where
  "chunk_delta cd c =
     (case coerce_stream_chunk_to_dict cd (chunk_content c) of
        None \<Rightarrow> []
      | Some raw \<Rightarrow> (case first_choice raw of None \<Rightarrow> [] | Some ch \<Rightarrow>
          (case as_dict (dict_get ''delta'' ch) of None \<Rightarrow> [] | Some d \<Rightarrow> [d])))"

definition stream_deltas :: "codec \<Rightarrow> stream_chunk list \<Rightarrow> jdict list" where
  "stream_deltas cd cs = concat (map (chunk_delta cd) cs)"

definition text_of :: "string \<Rightarrow> jdict \<Rightarrow> string" where
  "text_of key d = (case as_str (dict_get key d) of None \<Rightarrow> [] | Some s \<Rightarrow> s)"

definition delta_calls :: "jdict \<Rightarrow> jdict list" where
  "delta_calls d = (case as_list (dict_get ''tool_calls'' d) of None \<Rightarrow> [] | Some xs \<Rightarrow> List.map_filter as_dict xs)"

definition call_piece :: "jdict \<Rightarrow> string" where
  "call_piece c = (case as_dict (dict_get ''function'' c) of None \<Rightarrow> [] | Some f \<Rightarrow> text_of ''arguments'' f)"

definition pieces_for :: "int \<Rightarrow> jdict list \<Rightarrow> string" where
  "pieces_for i calls = concat (map call_piece (filter (\<lambda>c. as_int (dict_get ''index'' c) = Some i) calls))"

lemma concat_append_text_delta: "concat (append_text_delta d key parts) = concat parts @ text_of key d"
  by (auto simp: append_text_delta_def text_of_def split: option.splits)

lemma note_envelope_parts [simp]:
  "content_parts (note_envelope raw a) = content_parts a" "reasoning_parts (note_envelope raw a) = reasoning_parts a"
  "tool_calls_acc (note_envelope raw a) = tool_calls_acc a"
  by (simp_all add: note_envelope_def)

lemma collect_chunk_parts:
  "concat (content_parts (collect_chunk cd c a)) = concat (content_parts a) @ concat (map (text_of ''content'') (chunk_delta cd c))"
  "concat (reasoning_parts (collect_chunk cd c a)) = concat (reasoning_parts a) @
     concat (map (\<lambda>d. text_of ''reasoning_content'' d @ text_of ''reasoning'' d @ text_of ''thinking'' d) (chunk_delta cd c))"
  "tool_calls_acc (collect_chunk cd c a) = fold (\<lambda>d. merge_tool_call_deltas (dict_get ''tool_calls'' d)) (chunk_delta cd c) (tool_calls_acc a)"
  by (simp_all add: collect_chunk_def chunk_delta_def note_choice_def note_delta_def Let_def concat_append_text_delta split: option.splits)

lemma call_arguments_merge: "call_arguments (merge_call raw c) = call_arguments c @ call_piece raw"
  by (simp add: merge_call_def call_piece_def text_of_def Let_def split: option.splits)

lemma call_at_update [simp]: "call_at (AList.update j c calls) i = (if i = j then c else call_at calls i)"
  by (simp add: call_at_def update_conv')

lemma merge_raw_calls_arguments:
  assumes "\<And>c. c \<in> set (List.map_filter as_dict xs) \<Longrightarrow> as_int (dict_get ''index'' c) \<noteq> None"
  shows "call_arguments (call_at (fold merge_raw_call xs calls) i) =
    call_arguments (call_at calls i) @ pieces_for i (List.map_filter as_dict xs)"
  using assms
proof (induction xs arbitrary: calls)
  case (Cons x xs)
  have IH: "call_arguments (call_at (fold merge_raw_call xs calls') i) = call_arguments (call_at calls' i) @ pieces_for i (List.map_filter as_dict xs)" for calls'
    using Cons.prems by (intro Cons.IH) (simp add: map_filter_simps split: option.splits)
  show ?case
  proof (cases x)
    case (JDict raw)
    then obtain j where "as_int (dict_get ''index'' raw) = Some j"
      using Cons.prems [of raw] by (auto simp: map_filter_simps)
    with JDict show ?thesis
      by (auto simp: IH map_filter_simps pieces_for_def call_index_def Let_def call_arguments_merge)
  qed (simp_all add: IH map_filter_simps)
qed (simp add: pieces_for_def map_filter_simps)

lemma merge_deltas_arguments:
  assumes "\<forall>d \<in> set ds. \<forall>c \<in> set (delta_calls d). as_int (dict_get ''index'' c) \<noteq> None"
  shows "call_arguments (call_at (fold (\<lambda>d. merge_tool_call_deltas (dict_get ''tool_calls'' d)) ds calls) i) =
    call_arguments (call_at calls i) @ pieces_for i (concat (map delta_calls ds))"
  using assms
proof (induction ds arbitrary: calls)
  case (Cons d ds)
  have "call_arguments (call_at (merge_tool_call_deltas (dict_get ''tool_calls'' d) calls) i) =
      call_arguments (call_at calls i) @ pieces_for i (delta_calls d)"
    using Cons.prems merge_raw_calls_arguments [of _ calls i]
    by (cases "dict_get ''tool_calls'' d") (auto simp: delta_calls_def pieces_for_def)
  with Cons show ?case
    by (simp add: pieces_for_def)
qed (simp add: pieces_for_def)

lemma collect_chunks_parts:
  "concat (content_parts (fold (collect_chunk cd) cs a)) = concat (content_parts a) @ concat (map (text_of ''content'') (stream_deltas cd cs))"
  "concat (reasoning_parts (fold (collect_chunk cd) cs a)) = concat (reasoning_parts a) @
     concat (map (\<lambda>d. text_of ''reasoning_content'' d @ text_of ''reasoning'' d @ text_of ''thinking'' d) (stream_deltas cd cs))"
  "tool_calls_acc (fold (collect_chunk cd) cs a) =
     fold (\<lambda>d. merge_tool_call_deltas (dict_get ''tool_calls'' d)) (stream_deltas cd cs) (tool_calls_acc a)"
  by (induction cs arbitrary: a) (simp_all add: collect_chunk_parts stream_deltas_def)

text \<open>The numbers of the calls in a stream, in order; the table has an entry for each of them.\<close>

definition call_numbers :: "jdict list \<Rightarrow> int list" where
  "call_numbers calls = sort (remdups (List.map_filter (\<lambda>c. as_int (dict_get ''index'' c)) calls))"

definition table_for :: "jdict list \<Rightarrow> call_table \<Rightarrow> bool" where
  "table_for calls table \<longleftrightarrow> distinct (map fst table) \<and> set (map fst table) = set (call_numbers calls)"

lemma table_for_raw:
  assumes "\<And>c. c \<in> set (List.map_filter as_dict xs) \<Longrightarrow> as_int (dict_get ''index'' c) \<noteq> None" "table_for calls table"
  shows "table_for (calls @ List.map_filter as_dict xs) (fold merge_raw_call xs table)"
  using assms
proof (induction xs arbitrary: calls table)
  case (Cons x xs)
  show ?case
  proof (cases x)
    case (JDict raw)
    then obtain j where j: "as_int (dict_get ''index'' raw) = Some j"
      using Cons.prems(1) [of raw] by (auto simp: map_filter_simps)
    with Cons.prems(2) have "table_for (calls @ [raw]) (merge_raw_call x table)"
      by (auto simp: JDict table_for_def call_numbers_def map_filter_def call_index_def Let_def distinct_update dom_update)
    moreover have "as_int (dict_get ''index'' c) \<noteq> None" if "c \<in> set (List.map_filter as_dict xs)" for c
      using Cons.prems(1) [of c] that by (simp add: JDict map_filter_simps)
    ultimately show ?thesis
      using Cons.IH [of "calls @ [raw]" "merge_raw_call x table"] by (simp add: JDict map_filter_simps)
  qed (use Cons in \<open>simp_all add: map_filter_simps\<close>)
qed (simp add: map_filter_simps)

lemma table_for_deltas:
  assumes "\<forall>d \<in> set ds. \<forall>c \<in> set (delta_calls d). as_int (dict_get ''index'' c) \<noteq> None" "table_for calls table"
  shows "table_for (calls @ concat (map delta_calls ds)) (fold (\<lambda>d. merge_tool_call_deltas (dict_get ''tool_calls'' d)) ds table)"
  using assms
proof (induction ds arbitrary: calls table)
  case (Cons d ds)
  have "table_for (calls @ delta_calls d) (merge_tool_call_deltas (dict_get ''tool_calls'' d) table)"
    using Cons.prems table_for_raw [of _ calls table]
    by (cases "dict_get ''tool_calls'' d") (auto simp: delta_calls_def)
  from Cons.IH [OF _ this] Cons.prems(1) show ?case by simp
qed simp

lemma table_numbers: "table_for calls table \<Longrightarrow> sort (map fst table) = call_numbers calls"
  unfolding table_for_def call_numbers_def by (intro sorted_distinct_set_unique) auto

definition reasoning_of :: "jdict \<Rightarrow> string" where
  "reasoning_of d = text_of ''reasoning_content'' d @ text_of ''reasoning'' d @ text_of ''thinking'' d"

text \<open>
  C34. The collected message is the stream put together: its text is the concatenation of the text of all
  deltas in order; its three reasoning fields are the concatenation of their reasoning fields, and missing when there is
  none; its tool calls are those that the stream numbers, in the order of the numbers, each with the concatenation of the
  pieces of arguments sent for its number, whatever the order in which the pieces of different calls arrive,
  if all pieces are numbered; and there is no such field when the stream has no calls.
\<close>

theorem collected_message:
  assumes "\<forall>d \<in> set (stream_deltas cd cs). \<forall>c \<in> set (delta_calls d). as_int (dict_get ''index'' c) \<noteq> None"
    and "message = acc_message (collect_chunks cd cs)" and "reasoning = concat (map reasoning_of (stream_deltas cd cs))"
    and "pieces = concat (map delta_calls (stream_deltas cd cs))"
  shows "dict_get ''content'' message = JStr (concat (map (text_of ''content'') (stream_deltas cd cs))) \<and>
    (\<forall>k \<in> {''reasoning_content'', ''reasoning'', ''thinking''}. dict_get k message = (if reasoning = [] then JNull else JStr reasoning)) \<and>
    (\<exists>calls. dict_get ''tool_calls'' message = (if pieces = [] then JNull else JList (map call_json calls)) \<and>
       map call_arguments calls = map (\<lambda>i. pieces_for i pieces) (call_numbers pieces))"
proof -
  let ?acc = "collect_chunks cd cs" let ?table = "tool_calls_acc ?acc"
  let ?calls = "map (call_at ?table) (call_numbers pieces)"
  have parts: "concat (content_parts ?acc) = concat (map (text_of ''content'') (stream_deltas cd cs))" "concat (reasoning_parts ?acc) = reasoning"
    and table: "?table = fold (\<lambda>d. merge_tool_call_deltas (dict_get ''tool_calls'' d)) (stream_deltas cd cs) []"
    by (simp_all add: collect_chunks_def collect_chunks_parts empty_acc_def assms(3) reasoning_of_def [abs_def])
  have "table_for [] []" by (simp add: table_for_def call_numbers_def map_filter_def)
  from table_for_deltas [OF assms(1) this] have ok: "table_for pieces ?table" by (simp add: table assms(4))
  have "\<forall>c \<in> set pieces. as_int (dict_get ''index'' c) \<noteq> None" using assms(1,4) by auto
  then have "set (call_numbers pieces) = {} \<longleftrightarrow> pieces = []"
    by (auto simp: call_numbers_def map_filter_def filter_empty_conv)
  with ok have empty: "?table = [] \<longleftrightarrow> pieces = []"
    unfolding table_for_def by (metis list.map_disc_iff set_empty)
  have "dict_get ''tool_calls'' message = (if pieces = [] then JNull else JList (map call_json ?calls))"
    using empty table_numbers [OF ok] by (auto simp: assms(2) acc_message_def dict_get_def Let_def)
  moreover have "map call_arguments ?calls = map (\<lambda>i. pieces_for i pieces) (call_numbers pieces)"
    using merge_deltas_arguments [OF assms(1), of "[]"] by (simp add: table assms(4) call_at_def new_call_def)
  moreover have "dict_get ''content'' message = JStr (concat (map (text_of ''content'') (stream_deltas cd cs)))"
    "\<forall>k \<in> {''reasoning_content'', ''reasoning'', ''thinking''}. dict_get k message = (if reasoning = [] then JNull else JStr reasoning)"
    using parts by (auto simp: assms(2) acc_message_def dict_get_def Let_def)
  ultimately show ?thesis by blast
qed

section \<open>Thinker and parallel executor\<close>

text \<open>
  A turn of a session whose selector is a thinker group with a parallel executor: the parallel
  completion takes the turn if it is the executor's; otherwise the coordinator selects a branch of the
  group. Both read and write the cycle state of the context.
\<close>

datatype thinker_turn = Executor_Turn CompositeRoutePlan | Branch_Turn CompositeLeafNode

definition thinker_parallel_turn ::
  "(real \<Rightarrow> string) \<Rightarrow> CompositeRoutePlan \<Rightarrow> CompositeLeafNode list \<Rightarrow> RequestContext \<Rightarrow> (thinker_turn \<times> RequestContext) option" where
  "thinker_parallel_turn fs plan children ctx =
     (case try_select_special_thinker_parallel_executor fs plan (Some ctx) of
        Inr (Some p, Some ctx') \<Rightarrow> Some (Executor_Turn p, ctx')
      | Inr (None, Some ctx') \<Rightarrow>
          (case select_interleaved_thinking_weighted_cycle_leaf (enumerate 0 children) (plan_normalized_selector plan)
             (stored_cycle_state (Some ctx')) False (Some ctx') of
             (Inr b, Some ctx'') \<Rightarrow> Some (Branch_Turn (snd b), ctx'')
           | _ \<Rightarrow> None)
      | _ \<Rightarrow> None)"

fun thinker_parallel_turns ::
  "(real \<Rightarrow> string) \<Rightarrow> CompositeRoutePlan \<Rightarrow> CompositeLeafNode list \<Rightarrow> RequestContext \<Rightarrow> nat \<Rightarrow> thinker_turn option list" where
  "thinker_parallel_turns fs plan children ctx 0 = []"
| "thinker_parallel_turns fs plan children ctx (Suc k) =
     (case thinker_parallel_turn fs plan children ctx of
        None \<Rightarrow> [None]
      | Some (t, ctx') \<Rightarrow> Some t # thinker_parallel_turns fs plan children ctx' k)"

text \<open>The group: an executor that stands for a parallel selector, with weight 1 as the parser gives it, and a thinker.\<close>

definition parallel_thinker_group ::
  "(real \<Rightarrow> string) \<Rightarrow> CompositeRoutePlan \<Rightarrow> CompositeLeafNode \<Rightarrow> CompositeLeafNode \<Rightarrow> CompositeLeafNode list \<Rightarrow> RoutingSurface \<Rightarrow>
   CompositeRoutePlan \<Rightarrow> bool" where
  "parallel_thinker_group fs plan e t children surface p \<longleftrightarrow>
     root_node plan = WeightedGroupNode children \<and> (children = [e, t] \<or> children = [t, e]) \<and>
     has_embedded e \<and> \<not> is_thinker e \<and> resolved_weight e = 1 \<and> is_thinker t \<and> \<not> has_embedded t \<and>
     is_parallel_composite_plan p \<and>
     parse fs ((parallel_input (the (embedded_selector (leaf_selector e))) None)\<lparr>ri_surface := surface\<rparr>) = Inr p"

lemma surface_cycle_key: "resolve_composite_routing_surface (Some (ext_set WEIGHTED_CYCLE_STATE_KEY v ctx)) = resolve_composite_routing_surface (Some ctx)"
proof -
  have "ext_get ''call_purpose'' (ext_set WEIGHTED_CYCLE_STATE_KEY v ctx) = ext_get ''call_purpose'' ctx"
    "ext_get COMPOSITE_ROUTING_SURFACE_KEY (ext_set WEIGHTED_CYCLE_STATE_KEY v ctx) = ext_get COMPOSITE_ROUTING_SURFACE_KEY ctx"
    by (simp_all add: key_defs)
  then show ?thesis
    by (simp only: resolve_composite_routing_surface_def option.case)
qed

lemma special_sequence_group:
  assumes "parallel_thinker_group fs plan e t children surface p"
  shows "special_sequence children = Some [(0, e), (1, t)]"
    and "\<exists>i j. build_interleaved_thinking_sequence (enumerate 0 children) = [(i, e), (j, t)]"
  using assms
  by (auto simp: parallel_thinker_group_def special_sequence_def build_interleaved_thinking_sequence_def is_thinker_def
      enumerate_eq_zip)

definition pair_start :: "CompositeRoutePlan \<Rightarrow> CompositeLeafNode \<Rightarrow> CompositeLeafNode \<Rightarrow> RequestContext \<Rightarrow> nat" where
  "pair_start plan e t ctx = cycle_start [(0, e), (1, t)] (plan_normalized_selector plan) (stored_cycle_state (Some ctx)) False"

lemma pair_start_range: "pair_start plan e t ctx = 0 \<or> pair_start plan e t ctx = 1"
  using cycle_start_bound [of "[(0, e), (1, t)]" "plan_normalized_selector plan" "stored_cycle_state (Some ctx)" False]
  by (auto simp: pair_start_def)

lemma pair_start_stored:
  "n < 2 \<Longrightarrow> pair_start plan e t (ext_set WEIGHTED_CYCLE_STATE_KEY (cycle_state_dict [(0, e), (1, t)] (plan_normalized_selector plan) n) ctx) = n"
  using cycle_start_stored [of "[(0, e), (1, t)]" n "plan_normalized_selector plan" False]
  by (simp add: pair_start_def stored_cycle_state_def)

lemma thinker_parallel_turn_taken:
  assumes "parallel_thinker_group fs plan e t children surface p" and "resolve_composite_routing_surface (Some ctx) = surface"
  shows "thinker_parallel_turn fs plan children ctx =
    Some (if pair_start plan e t ctx = 0 then Executor_Turn p else Branch_Turn t,
      ext_set WEIGHTED_CYCLE_STATE_KEY
        (cycle_state_dict [(0, e), (1, t)] (plan_normalized_selector plan) (1 - pair_start plan e t ctx)) ctx)"
proof -
  let ?sq = "[(0, e), (1, t)] :: (nat \<times> CompositeLeafNode) list"
  obtain emb where emb: "embedded_selector (leaf_selector e) = Some emb" "emb \<noteq> []"
    using assms(1) by (auto simp: parallel_thinker_group_def has_embedded_def split: option.splits)
  have "parallel_input emb (Some ctx) = (parallel_input emb None)\<lparr>ri_surface := surface\<rparr>"
    using assms(2) by (simp add: parallel_input_def)
  with emb assms(1) have p: "parse fs (parallel_input emb (Some ctx)) = Inr p" "is_parallel_composite_plan p"
    by (simp_all add: parallel_thinker_group_def)
  have group: "root_node plan = WeightedGroupNode children" "\<not> thinker_annotation (leaf_selector e)" "thinker_annotation (leaf_selector t)"
    using assms(1) by (simp_all add: parallel_thinker_group_def is_thinker_def)
  note special = special_sequence_group(1) [OF assms(1)]
  show ?thesis
  proof (cases "pair_start plan e t ctx = 0")
    case True
    then have "try_select_special_thinker_parallel_executor fs plan (Some ctx) =
        Inr (Some p, Some (ext_set WEIGHTED_CYCLE_STATE_KEY (cycle_state_dict ?sq (plan_normalized_selector plan) 1) ctx))"
      using group special emb p
      by (cases emb) (simp_all add: try_select_special_thinker_parallel_executor_def pair_start_def Let_def bind_res_simps)
    with True show ?thesis by (simp add: thinker_parallel_turn_def)
  next
    case False
    then have one: "pair_start plan e t ctx = 1"
      using pair_start_range [of plan e t ctx] by simp
    then have none: "try_select_special_thinker_parallel_executor fs plan (Some ctx) = Inr (None, Some ctx)"
      using group special by (simp add: try_select_special_thinker_parallel_executor_def pair_start_def Let_def)
    obtain i j where sq: "build_interleaved_thinking_sequence (enumerate 0 children) = [(i, e), (j, t)]"
      using special_sequence_group(2) [OF assms(1)] by blast
    have seqs: "sequence_selectors [(i, e), (j, t)] = sequence_selectors ?sq" and size: "length [(i, e), (j, t)] = length ?sq"
      by (simp_all add: sequence_selectors_def)
    have same: "cycle_start [(i, e), (j, t)] sel st False = cycle_start ?sq sel st False"
      "cycle_state_dict [(i, e), (j, t)] sel n = cycle_state_dict ?sq sel n" for sel st n
      unfolding cycle_start_def cycle_state_dict_def seqs size if_False by (rule refl)+
    show ?thesis
      using one by (simp add: thinker_parallel_turn_def none select_interleaved_thinking_weighted_cycle_leaf_def sq same Let_def pair_start_def)
  qed
qed

text \<open>
  A thinker and a parallel executor take turns: in a session whose selector is a group of a parallel
  selector and a thinker, the turns of the executor, which the parallel completion takes, and the turns
  of the thinker, which the routing coordinator selects, alternate strictly, in whichever state the
  cycle starts.
\<close>

lemma thinker_alternates_with_parallel:
  assumes "parallel_thinker_group fs plan e t children surface p" and "resolve_composite_routing_surface (Some ctx) = surface"
  shows "thinker_parallel_turns fs plan children ctx k =
    map (\<lambda>j. Some (if even (pair_start plan e t ctx + j) then Executor_Turn p else Branch_Turn t)) [0..<k]"
  using assms(2)
proof (induction k arbitrary: ctx)
  case (Suc k)
  let ?i = "pair_start plan e t ctx"
  let ?c = "ext_set WEIGHTED_CYCLE_STATE_KEY (cycle_state_dict [(0, e), (1, t)] (plan_normalized_selector plan) (1 - ?i)) ctx"
  have next_start: "pair_start plan e t ?c = 1 - ?i"
    by (rule pair_start_stored) simp
  have "thinker_parallel_turns fs plan children ctx (Suc k) =
      Some (if ?i = 0 then Executor_Turn p else Branch_Turn t) # thinker_parallel_turns fs plan children ?c k"
    by (simp add: thinker_parallel_turn_taken [OF assms(1) Suc.prems])
  also have "thinker_parallel_turns fs plan children ?c k =
      map (\<lambda>j. Some (if even (1 - ?i + j) then Executor_Turn p else Branch_Turn t)) [0..<k]"
    using Suc.IH [of ?c] Suc.prems surface_cycle_key next_start by simp
  finally show ?case
    using pair_start_range [of plan e t ctx] by (auto simp: upt_conv_Cons map_Suc_upt [symmetric] simp del: upt_Suc)
qed simp

end
