(* ===== verification/Parallel_Examples.thy ===== *)
theory Parallel_Examples
  imports Parallel_Theorems Selector_Examples
begin

text \<open>
  Runs of a parallel completion with two legs: the first token of leg \<^verbatim>\<open>a:m\<close> wins against
  \<^verbatim>\<open>b:n\<close>, which starts two seconds later. The properties of the race are applied to states of these
  runs, and the turns of a thinker and a parallel executor to a parsed selector.
\<close>

section \<open>A race of two legs\<close>

definition plain_codec :: codec where
  "plain_codec = \<lparr>loads = (\<lambda>s. None), utf8_text = (\<lambda>b. b)\<rparr>"

definition token :: "string \<Rightarrow> stream_chunk" where
  "token text = Raw (DictContent [(''choices'', JList [JDict [(''delta'', JDict [(''content'', JStr text)])]])])"

definition sample_completion :: completion_fn where
  "sample_completion request context =
     Streams (if req_model request = ''a:m'' then [token ''Hi'', token '' there''] else [token ''Ho'']) Exhausted"

definition sample_request :: ChatRequest where
  "sample_request = \<lparr>req_model = ''[handicap=2]a:m!b:n'', req_messages = [], req_extra_body = None\<rparr>"

definition parallel_leaf :: "string \<Rightarrow> string \<Rightarrow> string \<Rightarrow> string \<Rightarrow> real \<Rightarrow> CompositeLeafNode" where
  "parallel_leaf raw normalized b m handicap = CompositeLeafNode
     \<lparr>raw_selector = raw, normalized_selector = normalized, weight_annotation = None, first_annotation = False,
      thinker_annotation = False, max_context_tokens = None, handicap_seconds = Finite handicap,
      ttft_timeout_seconds = Finite 0, leaf_uri_params = [], leaf_backend_type = b, leaf_model_name = m,
      embedded_selector = None\<rparr>"

definition race_plan :: CompositeRoutePlan where
  "race_plan =
     \<lparr>plan_source_selector = ''[handicap=2]a:m!b:n'', plan_normalized_selector = ''[handicap=2]a:m!b:n'',
      root_node = ParallelGroupNode
        [parallel_leaf ''[handicap=2]a:m'' ''a:m'' ''a'' ''m'' 2, parallel_leaf ''b:n'' ''b:n'' ''b'' ''n'' 0]\<rparr>"

lemma parse_race_plan: "parse no_float (plain_input ''[handicap=2]a:m!b:n'') = Inr race_plan"
  by (simp add: input_eval race_plan_def parallel_leaf_def)

definition sample_race :: race_config where
  "sample_race = \<lparr>race_codec = plain_codec, race_legs =
     [\<lparr>leg_id = ''parallel-0-a:m'', leg_handicap = 2, leg_ttft_timeout = 0, leg_chunks = [token ''Hi'', token '' there''],
       leg_end = Exhausted, cancel_raises = False\<rparr>,
      \<lparr>leg_id = ''parallel-1-b:n'', leg_handicap = 0, leg_ttft_timeout = 0, leg_chunks = [token ''Ho''],
       leg_end = Exhausted, cancel_raises = False\<rparr>],
     watch_client = True, send_keepalives = True, keepalive_interval = 5\<rparr>"

lemma execute_sample: "execute_parallel plain_codec sample_completion race_plan sample_request None = Inr sample_race"
  by (simp add: execute_parallel_def race_of_def race_plan_def parallel_leaf_def is_parallel_composite_plan_def sample_race_def
      build_race_leg_def stream_factory_def sample_completion_def leg_name_def sample_request_def enumerate_eq_zip
      py_str_nat.simps digit_char_def)

abbreviation "leg_a \<equiv> ''parallel-0-a:m''"
abbreviation "leg_b \<equiv> ''parallel-1-b:n''"

text \<open>Leg a wins, its stream ends, and the consumer takes all that was emitted.\<close>

definition first_token_run :: "action list" where
  "first_token_run = [Elapse 5, Keepalive, Wake leg_a, Enter leg_a, Receive leg_a, Check leg_a, Claim leg_a, Announce leg_a,
     Consume, Consume]"

definition winning_run :: "action list" where
  "winning_run = first_token_run @ [Stop_Losers leg_a, Interrupt leg_b, Drain leg_b, Finish leg_b, Receive leg_a, Check leg_a,
     Receive leg_a, Drain leg_a, Finish leg_a, Orchestrate, Consume, Consume, Consume]"

definition first_token_state :: race where
  "first_token_state = the (race_run sample_race first_token_run (race_init sample_race))"

definition won_state :: race where
  "won_state = the (race_run sample_race winning_run (race_init sample_race))"

lemmas race_eval = sample_race_def leg_ids_def leg_of_def token_def race_init_def max_handicap_def start_delay_def
  leg_action_def wake_leg_def enter_def receive_def check_chunk_def claim_def announce_def stop_losers_def drain_def finish_def
  interrupt_def orchestrate_def consume_def tear_down_def keepalive_def emit_def put_sentinel_def move_def
  mark_race_stopped_def should_stop_def lock_free_def stop_loser_protocols_def stop_loser_tasks_def losers_def
  request_leg_cancel_def cancel_leg_task_def should_defer_winner_cancel_def set_winner_event_def is_reading_def

lemmas token_eval = dict_has_meaningful_delta_content_def openai_dict_has_reasoning_output_def reasoning_value_def or_else_def
  has_text_def delta_field_has_content_def dict_get_def

lemma first_token_reached:
  "\<exists>s. race_run sample_race first_token_run (race_init sample_race) = Some s \<and>
     yielded s = [(keepalive_chunk, None), (token ''Hi'', Some leg_a)]"
  by (simp add: first_token_run_def race_eval token_eval py_defs)

lemma won_reached:
  "\<exists>s. race_run sample_race winning_run (race_init sample_race) = Some s \<and> undisturbed s \<and> consumer s = Finished \<and>
     yielded s = [(keepalive_chunk, None), (token ''Hi'', Some leg_a), (token '' there'', None)]"
  by (simp add: winning_run_def first_token_run_def race_eval token_eval py_defs undisturbed_def)

lemma first_token_state_reached:
  "race_reaches sample_race first_token_state"
  "yielded first_token_state = [(keepalive_chunk, None), (token ''Hi'', Some leg_a)]"
  using first_token_reached race_run_reaches [OF race_start] by (auto simp: first_token_state_def)

lemma won_state_reached:
  "race_run sample_race winning_run (race_init sample_race) = Some won_state"
  "race_reaches sample_race won_state" "undisturbed won_state" "consumer won_state = Finished"
  "yielded won_state = [(keepalive_chunk, None), (token ''Hi'', Some leg_a), (token '' there'', None)]"
  using won_reached race_run_reaches [OF race_start] by (auto simp: won_state_def)

lemma sample_prizes: "prize sample_race leg_a = [token ''Hi'', token '' there'']" "prize sample_race leg_b = [token ''Ho'']"
  by (simp_all add: prize_def offer_def race_eval token_eval py_defs)

section \<open>Applications of the properties of the race\<close>

theorem race_delivers_one_leg_witness:
  "yielded first_token_state = [(keepalive_chunk, None), (token ''Hi'', Some leg_a)] \<and>
   (\<exists>ks. only_keepalives ks \<and> (yielded first_token_state = ks \<or> (\<exists>w \<in> set (leg_ids sample_race). \<exists>xs.
      winner_leg_id first_token_state = Some w \<and> xs \<noteq> [] \<and> prefix xs (prize sample_race w) \<and>
      yielded first_token_state = ks @ tagged w xs)))"
  using race_delivers_one_leg [OF first_token_state_reached(1)] first_token_state_reached(2) by blast

theorem undisturbed_race_outcome_witness:
  "\<exists>ks. only_keepalives ks \<and> (\<exists>w \<in> set (leg_ids sample_race). prize sample_race w \<noteq> [] \<and>
      yielded won_state = ks @ tagged w (prize sample_race w))"
proof -
  have "\<not> (\<forall>l \<in> set (leg_ids sample_race). leg_ttft_timeout (leg_of sample_race l) \<le> 0 \<longrightarrow> prize sample_race l = [])"
    using sample_prizes(1) by (auto simp: sample_race_def leg_ids_def leg_of_def)
  with undisturbed_race_outcome [OF won_state_reached(2-4)] show ?thesis by blast
qed

theorem losers_hung_up_witness: "leg_b \<in> hung_up first_token_state"
proof -
  have "(token ''Hi'', Some leg_a) \<in> set (yielded first_token_state)"
    by (simp add: first_token_state_reached)
  then show ?thesis
    by (rule losers_hung_up [OF first_token_state_reached(1)]) (simp_all add: leg_ids_def sample_race_def)
qed

text \<open>Leg b waits two seconds.\<close>

definition waited_state :: race where
  "waited_state = the (race_run sample_race [Elapse 3, Wake leg_b] (race_init sample_race))"

lemma waited_reached:
  "race_run sample_race [Elapse 3, Wake leg_b] (race_init sample_race) = Some waited_state"
  "\<exists>s'. race_step sample_race (Enter leg_b) waited_state = Some s' \<and> leg_task s' leg_b = Reading False"
  by (simp_all add: waited_state_def race_eval)

theorem head_start_respected_witness:
  "race_run sample_race [Wake leg_b] (race_init sample_race) = None \<and>
   (start_delay sample_race leg_b \<le> clock waited_state \<or>
    (\<exists>m \<in> streaming_started waited_state. m \<noteq> leg_b \<and> late_pc (leg_task waited_state m)))"
proof -
  obtain s' where "race_step sample_race (Enter leg_b) waited_state = Some s'" "leg_task s' leg_b = Reading False"
    using waited_reached(2) by blast
  then have "start_delay sample_race leg_b \<le> clock waited_state \<or>
      (\<exists>m \<in> streaming_started waited_state. m \<noteq> leg_b \<and> late_pc (leg_task waited_state m))"
    by (rule head_start_respected [OF race_run_reaches [OF race_start waited_reached(1)]])
  moreover have "race_run sample_race [Wake leg_b] (race_init sample_race) = None"
    by (simp add: race_eval)
  ultimately show ?thesis by blast
qed

theorem race_steps_bounded_witness:
  "length (filter busy winning_run) + race_cost sample_race won_state \<le> race_cost sample_race (race_init sample_race) + 1"
  using race_steps_bounded [OF won_state_reached(1)] by (simp add: winning_run_def first_token_run_def)

theorem race_can_finish_witness:
  "\<exists>as s'. race_run sample_race as first_token_state = Some s' \<and> (consumer s' = Finished \<or> consumer s' = Aborted)"
  by (rule race_can_finish [OF first_token_state_reached(1)]) (simp add: leg_ids_def leg_of_def sample_race_def)

theorem parallel_response_from_winner_witness:
  "parse no_float (plain_input ''[handicap=2]a:m!b:n'') = Inr race_plan \<and>
   (\<exists>i < length (parallel_children (root_node race_plan)).
     let w = leg_name i (leaf_selector (parallel_children (root_node race_plan) ! i)) in
     prize sample_race w \<noteq> [] \<and>
     parallel_response plain_codec 0 won_state = collect_streaming_envelope_to_response plain_codec 0 (prize sample_race w))"
proof -
  have "\<not> (\<forall>l \<in> set (leg_ids sample_race). leg_ttft_timeout (leg_of sample_race l) \<le> 0 \<longrightarrow> prize sample_race l = [])"
    using sample_prizes(1) by (auto simp: sample_race_def leg_ids_def leg_of_def)
  with parallel_response_from_winner [OF execute_sample won_state_reached(2-4), of 0] parse_race_plan show ?thesis by blast
qed

section \<open>A collected message\<close>

definition call_delta :: "int \<Rightarrow> string \<Rightarrow> stream_chunk" where
  "call_delta i piece = Raw (DictContent [(''choices'', JList [JDict [(''delta'', JDict [(''tool_calls'',
     JList [JDict [(''index'', JInt i), (''function'', JDict [(''arguments'', JStr piece)])]])])]])])"

definition interleaved_calls :: "stream_chunk list" where
  "interleaved_calls = [call_delta 0 ''{a'', call_delta 1 ''{b'', token ''Hi'', call_delta 0 '':1}'', call_delta 1 '':2}'']"

lemma interleaved_deltas:
  "stream_deltas plain_codec interleaved_calls =
     map (\<lambda>(i, piece). [(''tool_calls'', JList [JDict [(''index'', JInt i), (''function'', JDict [(''arguments'', JStr piece)])]])])
       [(0, ''{a''), (1, ''{b'')] @ [(''content'', JStr ''Hi'')] #
     map (\<lambda>(i, piece). [(''tool_calls'', JList [JDict [(''index'', JInt i), (''function'', JDict [(''arguments'', JStr piece)])]])])
       [(0, '':1}''), (1, '':2}'')]"
  by (simp add: stream_deltas_def interleaved_calls_def chunk_delta_def call_delta_def token_def dict_get_def first_choice_def)

theorem collected_message_witness:
  "dict_get ''content'' (acc_message (collect_chunks plain_codec interleaved_calls)) = JStr ''Hi'' \<and>
   (\<exists>calls. dict_get ''tool_calls'' (acc_message (collect_chunks plain_codec interleaved_calls)) = JList (map call_json calls) \<and>
      map call_arguments calls = [''{a:1}'', ''{b:2}''])"
proof -
  have "\<forall>d \<in> set (stream_deltas plain_codec interleaved_calls). \<forall>c \<in> set (delta_calls d). as_int (dict_get ''index'' c) \<noteq> None"
    by (simp add: interleaved_deltas delta_calls_def dict_get_def map_filter_simps)
  from collected_message [OF this refl refl refl] show ?thesis
    by (simp add: interleaved_deltas delta_calls_def dict_get_def map_filter_simps pieces_for_def call_piece_def text_of_def call_numbers_def)
qed

section \<open>A thinker and a parallel executor\<close>

definition think_branch :: CompositeLeafNode where
  "think_branch = CompositeLeafNode ((sample_leaf ''[thinker]t:big'' ''t:big'' 1 ''t'' ''big'')\<lparr>thinker_annotation := True\<rparr>)"

definition parallel_branch :: CompositeLeafNode where
  "parallel_branch = CompositeLeafNode ((sample_leaf ''a:m!b:n'' ''a:m!b:n'' 1 [] [])\<lparr>embedded_selector := Some ''a:m!b:n''\<rparr>)"

definition thinker_plan :: CompositeRoutePlan where
  "thinker_plan =
     \<lparr>plan_source_selector = ''[thinker]t:big^a:m!b:n'', plan_normalized_selector = ''[weight=1][thinker]t:big^[weight=1]a:m!b:n'',
      root_node = WeightedGroupNode [think_branch, parallel_branch]\<rparr>"

definition executor_plan :: CompositeRoutePlan where
  "executor_plan =
     \<lparr>plan_source_selector = ''a:m!b:n'', plan_normalized_selector = ''a:m!b:n'',
      root_node = ParallelGroupNode [parallel_leaf ''a:m'' ''a:m'' ''a'' ''m'' 0, parallel_leaf ''b:n'' ''b:n'' ''b'' ''n'' 0]\<rparr>"

lemma parse_thinker_plan: "parse no_float (plain_input ''[thinker]t:big^a:m!b:n'') = Inr thinker_plan"
  by (simp add: input_eval thinker_plan_def think_branch_def parallel_branch_def sample_leaf_def)

lemma thinker_plan_group:
  "parallel_thinker_group no_float thinker_plan parallel_branch think_branch [think_branch, parallel_branch] MAIN executor_plan"
  by (simp add: parallel_thinker_group_def thinker_plan_def executor_plan_def parallel_leaf_def think_branch_def parallel_branch_def
      has_embedded_def is_thinker_def sample_leaf_def is_parallel_composite_plan_def parallel_input_def
      resolved_weight_def input_eval)

definition new_session :: RequestContext where
  "new_session = \<lparr>ctx_session_id = None, extensions = []\<rparr>"

theorem thinker_alternates_with_parallel_witness:
  "parse no_float (plain_input ''[thinker]t:big^a:m!b:n'') = Inr thinker_plan \<and>
   thinker_parallel_turns no_float thinker_plan [think_branch, parallel_branch] new_session 4 =
     [Some (Executor_Turn executor_plan), Some (Branch_Turn think_branch),
      Some (Executor_Turn executor_plan), Some (Branch_Turn think_branch)]"
proof -
  have "resolve_composite_routing_surface (Some new_session) = MAIN"
    by (simp add: resolve_composite_routing_surface_def new_session_def ext_get_def dict_get_def)
  from thinker_alternates_with_parallel [OF thinker_plan_group this, of 4]
  show ?thesis
    by (simp add: parse_thinker_plan upt_rec pair_start_def stored_cycle_state_def new_session_def ext_get_def dict_get_def cycle_start_def)
qed

end
