(* ===== verification/Loop_Window.thy ===== *)
theory Loop_Window
  imports Py_Prelude
begin

text \<open>
  The sliding-window loop detector for streamed answers (\<^verbatim>\<open>TokenWindowLoopDetector\<close> of
  \<^verbatim>\<open>token_window_loop_detector.py\<close>): it keeps the recent text, records where each window of a fixed size
  was seen, and reports a loop when one window was seen often enough within a short distance. Python's
  \<^verbatim>\<open>hash\<close> is an argument. The configuration numbers are natural numbers, as the detector is set up with.
\<close>

section \<open>Events and text\<close>

record LoopDetectionEvent =
  ev_pattern :: string
  ev_pattern_length :: nat
  ev_repetition_count :: nat
  ev_total_length :: nat
  ev_confidence :: real
  ev_buffer_content :: string
  ev_timestamp :: real

datatype loop_exn = ZeroDivisionError

text \<open>\<open>window n i s\<close> is \<^verbatim>\<open>s[i : i + n]\<close>, \<open>last_chars n s\<close> is \<^verbatim>\<open>s[-n:]\<close> for a positive \<open>n\<close>.\<close>

definition window :: "nat \<Rightarrow> nat \<Rightarrow> string \<Rightarrow> string" where
  "window n i s = take n (drop i s)"

definition last_chars :: "nat \<Rightarrow> string \<Rightarrow> string" where
  "last_chars n s = drop (length s - n) s"

fun py_count :: "string \<Rightarrow> string \<Rightarrow> nat" where
  "py_count sub [] = 0"
| "py_count sub (c # s) =
     (if py_startswith (c # s) sub then Suc (py_count sub (drop (length sub - 1) s)) else py_count sub s)"

definition py_isalpha :: "char \<Rightarrow> bool" where
  "py_isalpha c \<longleftrightarrow> (let n = (of_char c :: nat) in
     (65 \<le> n \<and> n \<le> 90) \<or> (97 \<le> n \<and> n \<le> 122) \<or> n = 170 \<or> n = 181 \<or> n = 186 \<or> (192 \<le> n \<and> n \<noteq> 215 \<and> n \<noteq> 247))"

definition fences :: "string \<Rightarrow> nat" where
  "fences content = py_count ''```'' content"

text \<open>Of the characters of a divider only those below code point 256 exist in the model.\<close>

definition is_divider :: "string \<Rightarrow> bool" where
  "is_divider content \<longleftrightarrow> py_strip content \<noteq> [] \<and> list_all (\<lambda>c. c \<in> set ''+-_=*'') (py_strip content)"

section \<open>State\<close>

definition CONTENT_LOOP_THRESHOLD :: nat where
  "CONTENT_LOOP_THRESHOLD = 10"

definition CONTENT_CHUNK_SIZE :: nat where
  "CONTENT_CHUNK_SIZE = 50"

definition MAX_HISTORY_LENGTH :: nat where
  "MAX_HISTORY_LENGTH = 1000"

record window_detector =
  content_loop_threshold :: nat
  content_chunk_size :: nat
  max_history_length :: nat
  stream_content_history :: string
  content_stats :: "int \<Rightarrow> nat list option"
  last_content_index :: nat
  loop_detected :: bool
  in_code_block :: bool
  window_enabled :: bool
  window_events :: "LoopDetectionEvent list"

definition mk_window_detector :: "nat \<Rightarrow> nat \<Rightarrow> nat \<Rightarrow> window_detector" where
  "mk_window_detector threshold chunk_size history =
     \<lparr>content_loop_threshold = threshold, content_chunk_size = chunk_size, max_history_length = history,
      stream_content_history = [], content_stats = (\<lambda>_. None), last_content_index = 0, loop_detected = False,
      in_code_block = False, window_enabled = True, window_events = []\<rparr>"

definition window_threshold :: "window_detector \<Rightarrow> nat" where
  "window_threshold w = (if content_loop_threshold w = 0 then CONTENT_LOOP_THRESHOLD else content_loop_threshold w)"

definition history_bound :: "window_detector \<Rightarrow> nat" where
  "history_bound w = (if max_history_length w = 0 then MAX_HISTORY_LENGTH else max_history_length w)"

section \<open>Analysis\<close>

text \<open>The letters of a chunk, counted up to a threshold.\<close>

fun count_letters :: "nat \<Rightarrow> nat \<Rightarrow> string \<Rightarrow> nat" where
  "count_letters threshold n [] = n"
| "count_letters threshold n (c # cs) =
     (if py_isalpha c then (if n + 1 \<ge> threshold then n + 1 else count_letters threshold (n + 1) cs)
      else count_letters threshold n cs)"

definition mostly_letters :: "string \<Rightarrow> bool" where
  "mostly_letters chunk \<longleftrightarrow> \<not> count_letters (length chunk div 2) 0 chunk < length chunk div 2"

definition is_actual_content_match :: "window_detector \<Rightarrow> string \<Rightarrow> nat \<Rightarrow> bool" where
  "is_actual_content_match w current original_index \<longleftrightarrow>
     window (content_chunk_size w) original_index (stream_content_history w) = current"

text \<open>Whether the last recorded positions of a chunk lie close together; the average is a division by zero for the threshold 1.\<close>

definition close_together :: "nat \<Rightarrow> nat \<Rightarrow> nat list \<Rightarrow> loop_exn + bool" where
  "close_together threshold chunk_size indices =
     (let recent = drop (length indices - threshold) indices in
      if threshold = 1 then Inl ZeroDivisionError
      else Inr ((real (last recent) - real (hd recent)) / real (threshold - 1) \<le> real chunk_size * 1.5))"

definition is_loop_detected_for_chunk ::
  "(string \<Rightarrow> int) \<Rightarrow> string \<Rightarrow> window_detector \<Rightarrow> (loop_exn + bool) \<times> window_detector" where
  "is_loop_detected_for_chunk hash chunk w =
     (if \<not> mostly_letters chunk then (Inr False, w)
      else (case content_stats w (hash chunk) of
              None \<Rightarrow> (Inr False, w\<lparr>content_stats := (content_stats w)(hash chunk \<mapsto> [last_content_index w])\<rparr>)
            | Some indices \<Rightarrow>
                if \<not> is_actual_content_match w chunk (hd indices) then (Inr False, w)
                else
                  (let indices' = indices @ [last_content_index w];
                       w' = w\<lparr>content_stats := (content_stats w)(hash chunk \<mapsto> indices')\<rparr> in
                   if length indices' < window_threshold w then (Inr False, w')
                   else (close_together (window_threshold w) (content_chunk_size w) indices', w'))))"

lemma is_loop_frame [simp]:
  "stream_content_history (snd (is_loop_detected_for_chunk hash c w)) = stream_content_history w"
  "last_content_index (snd (is_loop_detected_for_chunk hash c w)) = last_content_index w"
  "content_chunk_size (snd (is_loop_detected_for_chunk hash c w)) = content_chunk_size w"
  "content_loop_threshold (snd (is_loop_detected_for_chunk hash c w)) = content_loop_threshold w"
  "max_history_length (snd (is_loop_detected_for_chunk hash c w)) = max_history_length w"
  "loop_detected (snd (is_loop_detected_for_chunk hash c w)) = loop_detected w"
  "in_code_block (snd (is_loop_detected_for_chunk hash c w)) = in_code_block w"
  "window_enabled (snd (is_loop_detected_for_chunk hash c w)) = window_enabled w"
  "window_events (snd (is_loop_detected_for_chunk hash c w)) = window_events w"
  by (simp_all add: is_loop_detected_for_chunk_def Let_def split: option.splits)

definition has_more_chunks_to_process :: "window_detector \<Rightarrow> bool" where
  "has_more_chunks_to_process w \<longleftrightarrow> last_content_index w + content_chunk_size w \<le> length (stream_content_history w)"

definition current_chunk :: "window_detector \<Rightarrow> string" where
  "current_chunk w = window (content_chunk_size w) (last_content_index w) (stream_content_history w)"

function analyze_content_chunks_for_loop :: "(string \<Rightarrow> int) \<Rightarrow> window_detector \<Rightarrow> (loop_exn + bool) \<times> window_detector" where
  "analyze_content_chunks_for_loop hash w =
     (if has_more_chunks_to_process w
      then (let (verdict, w') = is_loop_detected_for_chunk hash (current_chunk w) w in
            if verdict = Inr False
            then analyze_content_chunks_for_loop hash (w'\<lparr>last_content_index := last_content_index w' + 1\<rparr>)
            else (verdict, w'))
      else (Inr False, w))"
  by pat_completeness auto

text \<open>The loop ends: the text stays, the index grows.\<close>

termination
proof (relation "measure (\<lambda>(hash, w). Suc (length (stream_content_history w)) - last_content_index w)")
  fix hash w x verdict w'
  assume "has_more_chunks_to_process w" "x = is_loop_detected_for_chunk hash (current_chunk w) w" "(verdict, w') = x"
  then have "w' = snd (is_loop_detected_for_chunk hash (current_chunk w) w)" "last_content_index w \<le> length (stream_content_history w)"
    by (metis snd_conv) (use \<open>has_more_chunks_to_process w\<close> in \<open>simp add: has_more_chunks_to_process_def\<close>)
  then show "((hash, w'\<lparr>last_content_index := last_content_index w' + 1\<rparr>), hash, w)
      \<in> measure (\<lambda>(hash, w). Suc (length (stream_content_history w)) - last_content_index w)"
    by simp
qed simp

declare analyze_content_chunks_for_loop.simps [simp del]

section \<open>Operations\<close>

definition reset_content_tracking :: "window_detector \<Rightarrow> window_detector" where
  "reset_content_tracking w = w\<lparr>stream_content_history := [], content_stats := (\<lambda>_. None), last_content_index := 0\<rparr>"

definition shift_indices :: "nat \<Rightarrow> nat list \<Rightarrow> nat list option" where
  "shift_indices n indices =
     (let adjusted = map (\<lambda>i. i - n) (filter (\<lambda>i. i \<ge> n) indices) in if adjusted = [] then None else Some adjusted)"

definition truncate_and_update :: "window_detector \<Rightarrow> window_detector" where
  "truncate_and_update w =
     (if length (stream_content_history w) \<le> history_bound w then w
      else
        (let n = length (stream_content_history w) - history_bound w in
         w\<lparr>stream_content_history := drop n (stream_content_history w), last_content_index := last_content_index w - n,
           content_stats := (\<lambda>k. Option.bind (content_stats w k) (shift_indices n))\<rparr>))"

definition check_content_loop :: "(string \<Rightarrow> int) \<Rightarrow> string \<Rightarrow> window_detector \<Rightarrow> (loop_exn + bool) \<times> window_detector" where
  "check_content_loop hash content w =
     (let w1 = (if fences content \<noteq> 0 \<or> is_divider content then (reset_content_tracking w)\<lparr>loop_detected := False\<rparr> else w);
          w2 = w1\<lparr>in_code_block := (if fences content mod 2 = 1 then \<not> in_code_block w1 else in_code_block w1)\<rparr> in
      if in_code_block w1 \<or> in_code_block w2 \<or> is_divider content then (Inr False, w2)
      else analyze_content_chunks_for_loop hash
        (truncate_and_update (w2\<lparr>stream_content_history := stream_content_history w2 @ content\<rparr>)))"

definition window_event :: "real \<Rightarrow> window_detector \<Rightarrow> LoopDetectionEvent" where
  "window_event now w =
     \<lparr>ev_pattern = ''Repetitive content pattern detected'', ev_pattern_length = content_chunk_size w,
      ev_repetition_count = window_threshold w, ev_total_length = content_chunk_size w * window_threshold w,
      ev_confidence = 1, ev_buffer_content = last_chars 200 (stream_content_history w), ev_timestamp = now\<rparr>"

definition window_process_chunk ::
  "(string \<Rightarrow> int) \<Rightarrow> real \<Rightarrow> string \<Rightarrow> window_detector \<Rightarrow> (loop_exn + LoopDetectionEvent option) \<times> window_detector" where
  "window_process_chunk hash now chunk w =
     (if loop_detected w \<or> \<not> window_enabled w \<or> chunk = [] then (Inr None, w)
      else (case check_content_loop hash chunk w of
              (Inl e, w') \<Rightarrow> (Inl e, w')
            | (Inr False, w') \<Rightarrow> (Inr None, w'\<lparr>loop_detected := False\<rparr>)
            | (Inr True, w') \<Rightarrow>
                (Inr (Some (window_event now w')),
                 w'\<lparr>loop_detected := True, window_events := window_events w' @ [window_event now w']\<rparr>)))"

definition window_enable :: "window_detector \<Rightarrow> window_detector" where
  "window_enable w = w\<lparr>window_enabled := True\<rparr>"

definition window_disable :: "window_detector \<Rightarrow> window_detector" where
  "window_disable w = w\<lparr>window_enabled := False\<rparr>"

definition window_reset :: "window_detector \<Rightarrow> window_detector" where
  "window_reset w = (reset_content_tracking w)\<lparr>loop_detected := False, in_code_block := False, window_events := []\<rparr>"

text \<open>A new configuration: a number that is missing stays, one that is no integer becomes the default.\<close>

record window_config =
  new_chunk_size :: "nat option"
  new_loop_threshold :: "nat option option"
  new_history_length :: "nat option option"

definition window_update_config :: "window_config \<Rightarrow> window_detector \<Rightarrow> window_detector" where
  "window_update_config c w =
     window_reset (w\<lparr>
       content_chunk_size := (case new_chunk_size c of None \<Rightarrow> content_chunk_size w | Some n \<Rightarrow> n),
       content_loop_threshold := (case new_loop_threshold c of None \<Rightarrow> content_loop_threshold w
         | Some None \<Rightarrow> CONTENT_LOOP_THRESHOLD | Some (Some n) \<Rightarrow> n),
       max_history_length := (case new_history_length c of None \<Rightarrow> max_history_length w
         | Some None \<Rightarrow> MAX_HISTORY_LENGTH | Some (Some n) \<Rightarrow> n)\<rparr>)"

text \<open>What is saved around a check of a whole text; the events are not.\<close>

definition window_restore :: "window_detector \<Rightarrow> window_detector \<Rightarrow> window_detector" where
  "window_restore saved w =
     w\<lparr>stream_content_history := stream_content_history saved, content_stats := content_stats saved,
       last_content_index := last_content_index saved, loop_detected := loop_detected saved, in_code_block := in_code_block saved\<rparr>"

record LoopDetectionResult =
  has_loop :: bool
  result_pattern :: "string option"
  result_repetitions :: "nat option"
  result_pattern_length :: nat
  result_total_chars :: nat

definition no_loop :: LoopDetectionResult where
  "no_loop = \<lparr>has_loop = False, result_pattern = None, result_repetitions = None, result_pattern_length = 0, result_total_chars = 0\<rparr>"

text \<open>An exception leaves the detector as the check left it: the state is restored only on the normal path.\<close>

definition window_check_for_loops ::
  "(string \<Rightarrow> int) \<Rightarrow> real \<Rightarrow> string \<Rightarrow> window_detector \<Rightarrow> (loop_exn + LoopDetectionResult) \<times> window_detector" where
  "window_check_for_loops hash now content w =
     (if content = [] then (Inr no_loop, w)
      else (case window_process_chunk hash now content (window_reset w) of
              (Inl e, w') \<Rightarrow> (Inl e, w')
            | (Inr None, w') \<Rightarrow> (Inr no_loop, window_restore w w')
            | (Inr (Some ev), w') \<Rightarrow>
                (Inr \<lparr>has_loop = True, result_pattern = Some (ev_pattern ev), result_repetitions = Some (ev_repetition_count ev),
                      result_pattern_length = content_chunk_size w', result_total_chars = ev_total_length ev\<rparr>,
                 window_restore w w')))"

end
