(* ===== verification/Loop_Rolling.thy ===== *)
theory Loop_Rolling
  imports Loop_Window
begin

text \<open>
  The detector for long repeated patterns (\<^verbatim>\<open>RollingHashTracker\<close> of \<^verbatim>\<open>hybrid_detector.py\<close>): a
  Rabin-Karp rolling hash groups the windows of a length, from long to short, and a group is a match when
  enough of its windows are equal, do not overlap and lie close together. The dictionary
  \<^verbatim>\<open>pattern_candidates\<close>, which is only ever cleared, is left out. The smallest length and the number of
  repetitions are positive, as \<open>rolling_setup\<close> of the theorems asks: for 0 repetitions the code divides
  by zero, for length 0 it reads the table of powers from its end.
\<close>

definition HASH_BASE :: int where
  "HASH_BASE = 31"

definition HASH_MOD :: int where
  "HASH_MOD = 2 ^ 32 - 1"

definition MIN_LONG_PATTERN_LENGTH :: nat where
  "MIN_LONG_PATTERN_LENGTH = 60"

definition MAX_LONG_PATTERN_LENGTH :: nat where
  "MAX_LONG_PATTERN_LENGTH = 500"

definition LONG_PATTERN_MIN_REPETITIONS :: nat where
  "LONG_PATTERN_MIN_REPETITIONS = 3"

definition MAX_ROLLING_HISTORY :: nat where
  "MAX_ROLLING_HISTORY = 2000"

record LongPatternMatch =
  match_pattern :: string
  match_repetitions :: nat

record rolling_tracker =
  min_pattern_length :: nat
  max_pattern_length :: nat
  min_repetitions :: nat
  max_history :: nat
  content_chunks :: "string list"
  content_total_len :: nat
  rolling_content :: string
  last_check_length :: nat
  powers :: "int list"

fun power_table :: "nat \<Rightarrow> int list" where
  "power_table 0 = [1]"
| "power_table (Suc n) = (let ps = power_table n in ps @ [(last ps * HASH_BASE) mod HASH_MOD])"

definition mk_rolling_tracker :: "nat \<Rightarrow> nat \<Rightarrow> nat \<Rightarrow> nat \<Rightarrow> rolling_tracker" where
  "mk_rolling_tracker min_len max_len reps history =
     \<lparr>min_pattern_length = min_len, max_pattern_length = max_len, min_repetitions = reps, max_history = history,
      content_chunks = [], content_total_len = 0, rolling_content = [], last_check_length = 0, powers = power_table max_len\<rparr>"

section \<open>Windows of one length\<close>

definition py_ord :: "char \<Rightarrow> int" where
  "py_ord c = of_char c"

definition add_char :: "int \<Rightarrow> char \<Rightarrow> int" where
  "add_char h c = (h * HASH_BASE + py_ord c) mod HASH_MOD"

type_synonym position_table = "(int \<times> nat list) list"

definition note_position :: "int \<Rightarrow> nat \<Rightarrow> position_table \<Rightarrow> position_table" where
  "note_position h i table = AList.update h ((case map_of table h of None \<Rightarrow> [] | Some is \<Rightarrow> is) @ [i]) table"

definition roll_hash :: "rolling_tracker \<Rightarrow> nat \<Rightarrow> nat \<Rightarrow> int \<Rightarrow> int" where
  "roll_hash tr n i h =
     add_char ((h - py_ord (rolling_content tr ! (i - 1)) * powers tr ! (n - 1)) mod HASH_MOD) (rolling_content tr ! (i + n - 1))"

definition roll_step :: "rolling_tracker \<Rightarrow> nat \<Rightarrow> nat \<Rightarrow> int \<times> position_table \<Rightarrow> int \<times> position_table" where
  "roll_step tr n i s = (let h = roll_hash tr n i (fst s) in (h, note_position h i (snd s)))"

definition hash_positions :: "rolling_tracker \<Rightarrow> nat \<Rightarrow> position_table" where
  "hash_positions tr n =
     (let h = foldl add_char 0 (take n (rolling_content tr)) in
      snd (fold (roll_step tr n) [1..<length (rolling_content tr) - n + 1] (h, [(h, [0])])))"

text \<open>The matching positions that do not overlap, from left to right.\<close>

fun distinct_positions :: "string \<Rightarrow> nat \<Rightarrow> string \<Rightarrow> nat \<Rightarrow> nat list \<Rightarrow> nat list" where
  "distinct_positions content n pattern latest [] = []"
| "distinct_positions content n pattern latest (pos # ps) =
     (if pos + n > length content \<or> window n pos content \<noteq> pattern \<or> int pos - int latest < int n
      then distinct_positions content n pattern latest ps
      else pos # distinct_positions content n pattern pos ps)"

definition verify_pattern_match :: "rolling_tracker \<Rightarrow> nat list \<Rightarrow> nat \<Rightarrow> nat list option" where
  "verify_pattern_match tr positions n =
     (if length positions < min_repetitions tr then None
      else
        (let content = rolling_content tr; p0 = hd positions;
             found = p0 # distinct_positions content n (window n p0 content) p0 (tl positions) in
         if length found < min_repetitions tr then None
         else if last found - hd found > n * length found * 2 then None
         else Some found))"

fun first_match :: "rolling_tracker \<Rightarrow> nat \<Rightarrow> nat list list \<Rightarrow> LongPatternMatch option" where
  "first_match tr n [] = None"
| "first_match tr n (positions # rest) =
     (case verify_pattern_match tr positions n of
        Some found \<Rightarrow> Some \<lparr>match_pattern = window n (hd found) (rolling_content tr), match_repetitions = length found\<rparr>
      | None \<Rightarrow> first_match tr n rest)"

definition check_pattern_length :: "rolling_tracker \<Rightarrow> nat \<Rightarrow> LongPatternMatch option" where
  "check_pattern_length tr n =
     (if length (rolling_content tr) < n * min_repetitions tr then None
      else first_match tr n (map snd (hash_positions tr n)))"

section \<open>When a scan runs\<close>

definition compute_check_interval :: "rolling_tracker \<Rightarrow> nat \<Rightarrow> nat" where
  "compute_check_interval tr len =
     (if len \<le> min_pattern_length tr * min_repetitions tr * 2 then min_pattern_length tr
      else min (max (min_pattern_length tr * 2) (len div 3)) (max (min_pattern_length tr * 2) (max_history tr div 2)))"

definition should_run_long_detection :: "rolling_tracker \<Rightarrow> nat \<Rightarrow> bool" where
  "should_run_long_detection tr len \<longleftrightarrow>
     last_check_length tr = 0 \<or> int len - int (last_check_length tr) \<ge> int (compute_check_interval tr len)"

definition materialize_content :: "rolling_tracker \<Rightarrow> rolling_tracker" where
  "materialize_content tr =
     (if content_chunks tr = [] then tr
      else (let content = rolling_content tr @ concat (content_chunks tr) in
            tr\<lparr>rolling_content := content, content_chunks := [], content_total_len := length content\<rparr>))"

definition truncate_content :: "rolling_tracker \<Rightarrow> rolling_tracker" where
  "truncate_content tr =
     (if length (rolling_content tr) > max_history tr
      then (let n = length (rolling_content tr) - max_history tr; content = drop n (rolling_content tr) in
            tr\<lparr>rolling_content := content, content_total_len := length content, last_check_length := last_check_length tr - n\<rparr>)
      else tr)"

text \<open>The lengths of a scan, from long to short.\<close>

definition scan_lengths :: "rolling_tracker \<Rightarrow> nat list" where
  "scan_lengths tr =
     rev [min_pattern_length tr..<Suc (min (max_pattern_length tr) (length (rolling_content tr) div min_repetitions tr))]"

fun scan :: "rolling_tracker \<Rightarrow> nat list \<Rightarrow> LongPatternMatch option" where
  "scan tr [] = None"
| "scan tr (n # ns) = (case check_pattern_length tr n of Some m \<Rightarrow> Some m | None \<Rightarrow> scan tr ns)"

definition add_content :: "string \<Rightarrow> rolling_tracker \<Rightarrow> LongPatternMatch option \<times> rolling_tracker" where
  "add_content new tr =
     (if new = [] then (None, tr)
      else
        (let tr1 = tr\<lparr>content_chunks := content_chunks tr @ [new], content_total_len := content_total_len tr + length new\<rparr> in
         if content_total_len tr1 < min_pattern_length tr1 * min_repetitions tr1 then (None, tr1)
         else if \<not> should_run_long_detection tr1 (content_total_len tr1) then (None, tr1)
         else
           (let tr2 = truncate_content (materialize_content tr1);
                tr3 = tr2\<lparr>last_check_length := length (rolling_content tr2)\<rparr> in
            (scan tr3 (scan_lengths tr3), tr3))))"

definition rolling_reset :: "rolling_tracker \<Rightarrow> rolling_tracker" where
  "rolling_reset tr = tr\<lparr>rolling_content := [], content_chunks := [], content_total_len := 0, last_check_length := 0\<rparr>"

end
