(* ===== verification/Loop_Hybrid.thy ===== *)
theory Loop_Hybrid
  imports Loop_Rolling
begin

text \<open>
  The loop detector that the proxy runs on its answers (\<^verbatim>\<open>HybridLoopDetector\<close> of
  \<^verbatim>\<open>hybrid_detector.py\<close>): the sliding window looks at a piece of text first, the rolling hash when it
  found nothing.
\<close>

record hybrid_detector =
  short_detector :: window_detector
  long_detector :: rolling_tracker
  hybrid_enabled :: bool
  loop_events :: "LoopDetectionEvent list"
  max_event_history :: nat

definition mk_hybrid_detector :: "window_detector \<Rightarrow> rolling_tracker \<Rightarrow> hybrid_detector" where
  "mk_hybrid_detector short long =
     \<lparr>short_detector = short, long_detector = long, hybrid_enabled = True, loop_events = [], max_event_history = 100\<rparr>"

definition default_hybrid_detector :: hybrid_detector where
  "default_hybrid_detector = mk_hybrid_detector (mk_window_detector 10 50 1000)
     (mk_rolling_tracker MIN_LONG_PATTERN_LENGTH MAX_LONG_PATTERN_LENGTH LONG_PATTERN_MIN_REPETITIONS MAX_ROLLING_HISTORY)"

text \<open>
  The configurations that the proxy registers: a history of 4096 characters for both detectors and patterns of up to 8192;
  the smallest pattern is a third of the smallest total length of 300 in the infrastructure stage, and that length itself
  in the registration that fills in when no detector is registered yet.
\<close>

definition registered_long_detector :: "nat \<Rightarrow> rolling_tracker" where
  "registered_long_detector min_len = mk_rolling_tracker min_len 8192 3 4096"

definition infrastructure_hybrid_detector :: hybrid_detector where
  "infrastructure_hybrid_detector =
     mk_hybrid_detector (mk_window_detector 6 80 4096) (registered_long_detector (min (max (300 div max 3 1) 60) 8192))"

definition fallback_hybrid_detector :: hybrid_detector where
  "fallback_hybrid_detector = mk_hybrid_detector (mk_window_detector 6 80 4096) (registered_long_detector 300)"

definition truncate_event_history :: "hybrid_detector \<Rightarrow> hybrid_detector" where
  "truncate_event_history d =
     (if length (loop_events d) \<le> max_event_history d then d
      else d\<lparr>loop_events := drop (length (loop_events d) - max_event_history d) (loop_events d)\<rparr>)"

definition keep_event :: "LoopDetectionEvent \<Rightarrow> hybrid_detector \<Rightarrow> hybrid_detector" where
  "keep_event ev d = truncate_event_history (d\<lparr>loop_events := loop_events d @ [ev]\<rparr>)"

definition display_pattern :: "string \<Rightarrow> string" where
  "display_pattern pattern =
     (if length pattern \<le> 100 then pattern else ''Long pattern detected: '' @ take 100 pattern @ ''...'')"

definition long_event :: "real \<Rightarrow> rolling_tracker \<Rightarrow> LongPatternMatch \<Rightarrow> LoopDetectionEvent" where
  "long_event now tr m =
     \<lparr>ev_pattern = display_pattern (match_pattern m), ev_pattern_length = length (match_pattern m),
      ev_repetition_count = match_repetitions m, ev_total_length = length (match_pattern m) * match_repetitions m,
      ev_confidence = 1, ev_buffer_content = last_chars 200 (rolling_content tr), ev_timestamp = now\<rparr>"

definition hybrid_process_chunk ::
  "(string \<Rightarrow> int) \<Rightarrow> real \<Rightarrow> string \<Rightarrow> hybrid_detector \<Rightarrow> (loop_exn + LoopDetectionEvent option) \<times> hybrid_detector" where
  "hybrid_process_chunk hash now chunk d =
     (if \<not> hybrid_enabled d \<or> chunk = [] then (Inr None, d)
      else (case window_process_chunk hash now chunk (short_detector d) of
              (Inl e, w) \<Rightarrow> (Inl e, d\<lparr>short_detector := w\<rparr>)
            | (Inr (Some ev), w) \<Rightarrow> (Inr (Some ev), keep_event ev (d\<lparr>short_detector := w\<rparr>))
            | (Inr None, w) \<Rightarrow>
                (case add_content chunk (long_detector d) of
                   (None, tr) \<Rightarrow> (Inr None, d\<lparr>short_detector := w, long_detector := tr\<rparr>)
                 | (Some m, tr) \<Rightarrow>
                     (let ev = long_event now tr m in
                      (Inr (Some ev), keep_event ev (d\<lparr>short_detector := w, long_detector := tr\<rparr>))))))"

definition hybrid_enable :: "hybrid_detector \<Rightarrow> hybrid_detector" where
  "hybrid_enable d = d\<lparr>hybrid_enabled := True, short_detector := window_enable (short_detector d)\<rparr>"

definition hybrid_disable :: "hybrid_detector \<Rightarrow> hybrid_detector" where
  "hybrid_disable d = d\<lparr>hybrid_enabled := False, short_detector := window_disable (short_detector d)\<rparr>"

definition hybrid_reset :: "hybrid_detector \<Rightarrow> hybrid_detector" where
  "hybrid_reset d =
     d\<lparr>short_detector := window_reset (short_detector d), long_detector := rolling_reset (long_detector d), loop_events := []\<rparr>"

text \<open>A configuration object goes to the short detector; a dictionary may hold an entry for either detector.\<close>

record rolling_config =
  new_min_length :: "nat option"
  new_max_length :: "nat option"
  new_repetitions :: "nat option"
  new_max_history :: "nat option"

definition get_or :: "nat option \<Rightarrow> nat \<Rightarrow> nat" where
  "get_or v d = (case v of None \<Rightarrow> d | Some n \<Rightarrow> n)"

definition rolling_from_config :: "rolling_config \<Rightarrow> rolling_tracker" where
  "rolling_from_config c =
     mk_rolling_tracker (get_or (new_min_length c) MIN_LONG_PATTERN_LENGTH) (get_or (new_max_length c) MAX_LONG_PATTERN_LENGTH)
       (get_or (new_repetitions c) LONG_PATTERN_MIN_REPETITIONS) (get_or (new_max_history c) MAX_ROLLING_HISTORY)"

datatype hybrid_config = Object_Config window_config | Dict_Config "window_config option" "rolling_config option"

fun hybrid_update_config :: "hybrid_config \<Rightarrow> hybrid_detector \<Rightarrow> hybrid_detector" where
  "hybrid_update_config (Object_Config c) d = hybrid_reset (d\<lparr>short_detector := window_update_config c (short_detector d)\<rparr>)"
| "hybrid_update_config (Dict_Config short long) d =
     hybrid_reset (d\<lparr>
       short_detector := (case short of None \<Rightarrow> short_detector d | Some c \<Rightarrow> window_update_config c (short_detector d)),
       long_detector := (case long of None \<Rightarrow> long_detector d | Some c \<Rightarrow> rolling_from_config c)\<rparr>)"

section \<open>Checking a whole text\<close>

definition repeat_text :: "nat \<Rightarrow> string \<Rightarrow> string" where
  "repeat_text n s = concat (replicate n s)"

definition is_simple_repeat :: "string \<Rightarrow> nat \<Rightarrow> bool" where
  "is_simple_repeat content n \<longleftrightarrow>
     length content mod n = 0 \<and> length content div n \<ge> 3 \<and> repeat_text (length content div n) (take n content) = content"

definition simple_repeat_event :: "real \<Rightarrow> string \<Rightarrow> nat \<Rightarrow> LoopDetectionEvent" where
  "simple_repeat_event now content n =
     \<lparr>ev_pattern = take n content, ev_pattern_length = n, ev_repetition_count = length content div n,
      ev_total_length = n * (length content div n), ev_confidence = 0.75, ev_buffer_content = last_chars 200 content, ev_timestamp = now\<rparr>"

definition detect_simple_repeat_loop :: "real \<Rightarrow> string \<Rightarrow> hybrid_detector \<Rightarrow> LoopDetectionEvent option \<times> hybrid_detector" where
  "detect_simple_repeat_loop now content d =
     (case find (is_simple_repeat content) [5..<Suc (min (length content div 2) 200)] of
        None \<Rightarrow> (None, d)
      | Some n \<Rightarrow> (let ev = simple_repeat_event now content n in (Some ev, keep_event ev d)))"

text \<open>The text is processed character by character until an event.\<close>

fun process_characters ::
  "(string \<Rightarrow> int) \<Rightarrow> real \<Rightarrow> string \<Rightarrow> hybrid_detector \<Rightarrow> (loop_exn + LoopDetectionEvent option) \<times> hybrid_detector" where
  "process_characters hash now [] d = (Inr None, d)"
| "process_characters hash now (c # cs) d =
     (case hybrid_process_chunk hash now [c] d of
        (Inr None, d') \<Rightarrow> process_characters hash now cs d'
      | (r, d') \<Rightarrow> (r, d'))"

definition event_result :: "LoopDetectionEvent \<Rightarrow> LoopDetectionResult" where
  "event_result ev =
     \<lparr>has_loop = True, result_pattern = Some (ev_pattern ev), result_repetitions = Some (ev_repetition_count ev),
      result_pattern_length =
        (if ev_repetition_count ev > 0 \<and> ev_total_length ev mod ev_repetition_count ev = 0
         then ev_total_length ev div ev_repetition_count ev else length (ev_pattern ev)),
      result_total_chars = ev_total_length ev\<rparr>"

definition detection_method :: "hybrid_detector \<Rightarrow> LoopDetectionResult \<Rightarrow> string" where
  "detection_method d r =
     (if result_pattern_length r \<le> content_chunk_size (short_detector d) then ''short_pattern'' else ''long_pattern'')"

text \<open>The chunks that wait for the next scan and the total length are neither saved nor restored.\<close>

definition hybrid_restore :: "hybrid_detector \<Rightarrow> hybrid_detector \<Rightarrow> hybrid_detector" where
  "hybrid_restore saved d =
     (let content = rolling_content (long_detector saved) in
      d\<lparr>short_detector := window_restore (short_detector saved) (short_detector d),
        long_detector := (long_detector d)\<lparr>rolling_content := content,
          last_check_length := min (last_check_length (long_detector saved)) (length content)\<rparr>,
        loop_events := loop_events saved\<rparr>)"

definition hybrid_check_for_loops ::
  "(string \<Rightarrow> int) \<Rightarrow> real \<Rightarrow> string \<Rightarrow> hybrid_detector \<Rightarrow> (loop_exn + LoopDetectionResult) \<times> hybrid_detector" where
  "hybrid_check_for_loops hash now content d =
     (if content = [] then (Inr no_loop, d)
      else (case process_characters hash now content (hybrid_reset d) of
              (Inl e, d') \<Rightarrow> (Inl e, hybrid_restore d d')
            | (Inr (Some ev), d') \<Rightarrow> (Inr (event_result ev), hybrid_restore d d')
            | (Inr None, d') \<Rightarrow>
                (case detect_simple_repeat_loop now content d' of
                   (Some ev, d'') \<Rightarrow> (Inr (event_result ev), hybrid_restore d d'')
                 | (None, d'') \<Rightarrow> (Inr no_loop, hybrid_restore d d''))))"

end
