(* ===== verification/Loop_Rolling_Theorems.thy ===== *)
theory Loop_Rolling_Theorems
  imports Loop_Rolling
begin

text \<open>
  What the rolling hash promises: rolling the hash through a text gives the same groups of positions as
  hashing every window afresh; a match is a pattern that really occurs as often as reported; and a
  stream that repeats itself is noticed after a bounded amount of text, without any assumption on the
  hash.
\<close>

section \<open>Windows and periods\<close>

lemma length_window [simp]: "length (window n i s) = min n (length s - i)"
  by (simp add: window_def)

lemma nth_window: "j < n \<Longrightarrow> i + j < length s \<Longrightarrow> window n i s ! j = s ! (i + j)"
  by (simp add: window_def)

lemma window_drop: "window n i (drop k s) = window n (k + i) s"
  by (simp add: window_def add.commute)

lemma window_append: "i + n \<le> length s \<Longrightarrow> window n i (s @ t) = window n i s"
  by (simp add: window_def)

lemma window_shift: "window n (length a + i) (a @ s) = window n i s"
  by (simp add: window_def)

definition periodic :: "nat \<Rightarrow> string \<Rightarrow> bool" where
  "periodic d s \<longleftrightarrow> (\<forall>i. i + d < length s \<longrightarrow> s ! (i + d) = s ! i)"

lemma periodic_drop: "periodic d s \<Longrightarrow> periodic d (drop k s)"
  unfolding periodic_def by (auto simp: add.assoc [symmetric])

lemma periodic_take: "periodic d s \<Longrightarrow> periodic d (take k s)"
  by (simp add: periodic_def)

lemma periodic_multiple: "periodic d s \<Longrightarrow> periodic (k * d) s"
proof (induction k)
  case (Suc k)
  show ?case
    unfolding periodic_def
  proof (intro allI impI)
    fix i
    assume "i + Suc k * d < length s"
    then have i: "(i + k * d) + d < length s" "i + k * d < length s" by simp_all
    then have "s ! ((i + k * d) + d) = s ! (i + k * d)"
      using Suc.prems unfolding periodic_def by blast
    also have "\<dots> = s ! i"
      using Suc.IH [OF Suc.prems] i(2) unfolding periodic_def by blast
    finally show "s ! (i + Suc k * d) = s ! i" by (simp add: ac_simps)
  qed
qed (simp add: periodic_def)

lemma periodic_window:
  assumes "periodic d s" and "i + d + n \<le> length s"
  shows "window n (i + d) s = window n i s"
proof (rule nth_equalityI)
  fix j
  assume "j < length (window n (i + d) s)"
  then have j: "j < n" by simp
  have "s ! ((i + j) + d) = s ! (i + j)"
    using assms j unfolding periodic_def by simp
  with assms(2) j show "window n (i + d) s ! j = window n i s ! j"
    by (simp add: nth_window ac_simps)
qed (use assms(2) in simp)

text \<open>A pattern occurs in a text at positions that do not overlap.\<close>

definition occurs_at :: "string \<Rightarrow> string \<Rightarrow> nat list \<Rightarrow> bool" where
  "occurs_at s p is \<longleftrightarrow> sorted_wrt (\<lambda>i j. i + length p \<le> j) is \<and>
     list_all (\<lambda>i. i + length p \<le> length s \<and> window (length p) i s = p) is"

lemma occurs_at_suffix:
  assumes "occurs_at s p is" and "suffix s t"
  shows "occurs_at t p (map (\<lambda>i. length t - length s + i) is)"
proof -
  obtain a where t: "t = a @ s" using assms(2) by (auto simp: suffix_def)
  show ?thesis
    using assms(1) unfolding occurs_at_def t
    by (auto simp: sorted_wrt_map list_all_iff window_shift)
qed

section \<open>Rolling hash\<close>

definition text_hash :: "string \<Rightarrow> int" where
  "text_hash s = foldl add_char 0 s"

definition raw_hash :: "int \<Rightarrow> string \<Rightarrow> int" where
  "raw_hash h s = foldl (\<lambda>h c. h * HASH_BASE + py_ord c) h s"

lemma HASH_MOD_pos: "HASH_MOD > 1"
  by (simp add: HASH_MOD_def)

lemma add_char_of_mod: "add_char (h mod HASH_MOD) c = (h * HASH_BASE + py_ord c) mod HASH_MOD"
  unfolding add_char_def by (metis mod_add_left_eq mod_mult_left_eq)

lemma foldl_add_char: "foldl add_char (h mod HASH_MOD) s mod HASH_MOD = raw_hash h s mod HASH_MOD"
proof (induction s arbitrary: h)
  case (Cons c s)
  then show ?case using Cons.IH [of "h * HASH_BASE + py_ord c"] by (simp add: raw_hash_def add_char_of_mod)
qed (simp add: raw_hash_def)

lemma add_char_mod [simp]: "add_char h c mod HASH_MOD = add_char h c"
  by (simp add: add_char_def)

lemma foldl_add_char_mod: "s \<noteq> [] \<Longrightarrow> foldl add_char h s mod HASH_MOD = foldl add_char h s"
  by (cases s rule: rev_cases) simp_all

lemma text_hash_raw: "text_hash s = raw_hash 0 s mod HASH_MOD"
  using foldl_add_char [of 0 s] foldl_add_char_mod [of s 0]
  by (cases "s = []") (simp_all add: text_hash_def raw_hash_def)

lemma raw_hash_start: "raw_hash h s = h * HASH_BASE ^ length s + raw_hash 0 s"
proof (induction s arbitrary: h)
  case (Cons c s)
  have "raw_hash h (c # s) = raw_hash (h * HASH_BASE + py_ord c) s" "raw_hash 0 (c # s) = raw_hash (py_ord c) s"
    by (simp_all add: raw_hash_def)
  then show ?case using Cons [of "h * HASH_BASE + py_ord c"] Cons [of "py_ord c"] by (simp add: algebra_simps)
qed (simp add: raw_hash_def)

lemma length_power_table [simp]: "length (power_table n) = Suc n"
  by (induction n) (simp_all add: Let_def)

lemma last_entry: "last (power_table n) = HASH_BASE ^ n mod HASH_MOD"
  using HASH_MOD_pos by (induction n) (simp_all add: Let_def mod_simps mult.commute)

lemma power_table_nth: "k \<le> n \<Longrightarrow> power_table n ! k = HASH_BASE ^ k mod HASH_MOD"
proof (induction n)
  case 0
  then show ?case using HASH_MOD_pos by simp
next
  case (Suc n)
  have "last (power_table n) = HASH_BASE ^ n mod HASH_MOD"
    by (rule last_entry)
  with Suc show ?case
    by (cases "k = Suc n") (simp_all add: Let_def nth_append mod_simps mult.commute)
qed

lemma roll_text_hash:
  assumes "p = HASH_BASE ^ length t mod HASH_MOD"
  shows "add_char ((text_hash (c # t) - py_ord c * p) mod HASH_MOD) d = text_hash (t @ [d])"
proof -
  have raw: "raw_hash 0 (c # t) = py_ord c * HASH_BASE ^ length t + raw_hash 0 t"
    using raw_hash_start [of "py_ord c" t] by (simp add: raw_hash_def)
  have "(text_hash (c # t) - py_ord c * p) mod HASH_MOD = (raw_hash 0 (c # t) - py_ord c * HASH_BASE ^ length t) mod HASH_MOD"
    unfolding assms text_hash_raw by (rule mod_diff_cong) (simp_all add: mod_simps)
  also have "\<dots> = raw_hash 0 t mod HASH_MOD"
    by (simp add: raw)
  finally show ?thesis
    by (simp add: add_char_of_mod) (simp add: text_hash_raw raw_hash_def)
qed

definition rolling_setup :: "rolling_tracker \<Rightarrow> bool" where
  "rolling_setup tr \<longleftrightarrow> powers tr = power_table (max_pattern_length tr) \<and> min_pattern_length tr \<ge> 1 \<and> min_repetitions tr \<ge> 1"

lemma window_split:
  assumes "1 \<le> n" and "i + n < length s"
  shows "\<exists>t. length t = n - 1 \<and> window n i s = s ! i # t \<and> window n (Suc i) s = t @ [s ! (i + n)]"
proof -
  have "window n i s = s ! i # take (n - 1) (drop (Suc i) s)"
    using assms by (cases n) (simp_all add: window_def take_Suc_conv_app_nth Cons_nth_drop_Suc [symmetric])
  moreover have "window n (Suc i) s = take (n - 1) (drop (Suc i) s) @ [s ! (i + n)]"
    using assms by (cases n) (simp_all add: window_def take_Suc_conv_app_nth)
  ultimately show ?thesis using assms by (intro exI [of _ "take (n - 1) (drop (Suc i) s)"]) simp
qed

lemma roll_hash_correct:
  assumes "rolling_setup tr" and "1 \<le> n" "n \<le> max_pattern_length tr" and "1 \<le> i" "i + n \<le> length (rolling_content tr)"
  shows "roll_hash tr n i (text_hash (window n (i - 1) (rolling_content tr))) = text_hash (window n i (rolling_content tr))"
proof -
  let ?s = "rolling_content tr"
  obtain t where t: "length t = n - 1" "window n (i - 1) ?s = ?s ! (i - 1) # t" "window n i ?s = t @ [?s ! (i + n - 1)]"
    using window_split [of n "i - 1" ?s] assms by (cases i) auto
  have "powers tr ! (n - 1) = HASH_BASE ^ length t mod HASH_MOD"
    using assms t by (simp add: rolling_setup_def power_table_nth)
  from roll_text_hash [OF this] show ?thesis
    unfolding roll_hash_def t(2,3) .
qed

section \<open>The table of positions\<close>

definition positions_of :: "string \<Rightarrow> nat \<Rightarrow> nat \<Rightarrow> int \<Rightarrow> nat list" where
  "positions_of s n m k = filter (\<lambda>i. text_hash (window n i s) = k) [0..<m]"

definition table_for :: "string \<Rightarrow> nat \<Rightarrow> nat \<Rightarrow> position_table \<Rightarrow> bool" where
  "table_for s n m table \<longleftrightarrow> table \<noteq> [] \<and> fst (hd table) = text_hash (window n 0 s) \<and> distinct (map fst table) \<and>
     (\<forall>k. map_of table k = (if positions_of s n m k = [] then None else Some (positions_of s n m k)))"

lemma hd_update: "table \<noteq> [] \<Longrightarrow> fst (hd (AList.update k v table)) = fst (hd table)"
  by (cases table) auto

lemma table_for_step:
  assumes "table_for s n m table"
  shows "table_for s n (Suc m) (note_position (text_hash (window n m s)) m table)"
proof -
  have "positions_of s n (Suc m) k = positions_of s n m k @ (if text_hash (window n m s) = k then [m] else [])" for k
    by (simp add: positions_of_def)
  then show ?thesis
    using assms by (auto simp: table_for_def note_position_def hd_update distinct_update update_conv update_nonempty)
qed

lemma fold_roll_step:
  assumes "rolling_setup tr" and "1 \<le> n" "n \<le> max_pattern_length tr" and "m + n \<le> length (rolling_content tr) + 1" and "1 \<le> m"
  shows "\<exists>table. fold (roll_step tr n) [1..<m] (text_hash (window n 0 (rolling_content tr)), [(text_hash (window n 0 (rolling_content tr)), [0])]) =
      (text_hash (window n (m - 1) (rolling_content tr)), table) \<and> table_for (rolling_content tr) n m table"
  using assms(5,4)
proof (induction m rule: nat_induct_at_least)
  case base
  show ?case by (simp add: table_for_def positions_of_def)
next
  case (Suc m)
  then obtain table where IH: "fold (roll_step tr n) [1..<m] (text_hash (window n 0 (rolling_content tr)), [(text_hash (window n 0 (rolling_content tr)), [0])]) =
      (text_hash (window n (m - 1) (rolling_content tr)), table)" "table_for (rolling_content tr) n m table"
    by auto
  have "roll_hash tr n m (text_hash (window n (m - 1) (rolling_content tr))) = text_hash (window n m (rolling_content tr))"
    using roll_hash_correct [OF assms(1-3)] Suc by simp
  then have "roll_step tr n m (text_hash (window n (m - 1) (rolling_content tr)), table) =
      (text_hash (window n m (rolling_content tr)), note_position (text_hash (window n m (rolling_content tr))) m table)"
    by (simp add: roll_step_def Let_def)
  with IH table_for_step [OF IH(2)] Suc.hyps show ?case by simp
qed

lemma hash_positions_table:
  assumes "rolling_setup tr" and "1 \<le> n" "n \<le> max_pattern_length tr" "n \<le> length (rolling_content tr)"
  shows "table_for (rolling_content tr) n (length (rolling_content tr) - n + 1) (hash_positions tr n)"
  using fold_roll_step [OF assms(1-3), of "length (rolling_content tr) - n + 1"] assms(4)
  by (auto simp: hash_positions_def window_def text_hash_def Let_def)

text \<open>
  C36. The rolling hash is an optimisation only: the table it builds in one pass over the text holds, for
  every hash value, exactly the positions whose windows have that value when each window is hashed
  afresh, in ascending order.
\<close>

theorem rolled_table_correct:
  assumes "rolling_setup tr" and "1 \<le> n" "n \<le> max_pattern_length tr" "n \<le> length (rolling_content tr)"
  shows "map_of (hash_positions tr n) k =
    (let is = filter (\<lambda>i. foldl add_char 0 (window n i (rolling_content tr)) = k) [0..<length (rolling_content tr) - n + 1] in
     if is = [] then None else Some is)"
  using hash_positions_table [OF assms] by (simp add: table_for_def positions_of_def text_hash_def Let_def)

section \<open>Matches\<close>

lemma distinct_positions_sound:
  "sorted_wrt (\<lambda>i j. i + n \<le> j) (latest # distinct_positions s n p latest ps) \<and>
   list_all (\<lambda>i. i + n \<le> length s \<and> window n i s = p) (distinct_positions s n p latest ps)"
proof (induction ps arbitrary: latest)
  case (Cons pos ps)
  show ?case
  proof (cases "pos + n > length s \<or> window n pos s \<noteq> p \<or> int pos - int latest < int n")
    case True
    with Cons show ?thesis by simp
  next
    case False
    then have "latest + n \<le> pos" by auto
    with False Cons [of pos] show ?thesis by fastforce
  qed
qed simp

lemma distinct_positions_length: "length (distinct_positions s n p latest ps) \<le> length ps"
  by (induction ps arbitrary: latest) (auto intro: le_SucI)

lemma verify_sound:
  assumes "verify_pattern_match tr positions n = Some found" and "hd positions + n \<le> length (rolling_content tr)"
  shows "hd found = hd positions \<and> occurs_at (rolling_content tr) (window n (hd found) (rolling_content tr)) found \<and>
    min_repetitions tr \<le> length found \<and> last found - hd found \<le> n * length found * 2"
proof -
  let ?s = "rolling_content tr" let ?p = "window n (hd positions) (rolling_content tr)"
  have found: "found = hd positions # distinct_positions ?s n ?p (hd positions) (tl positions)"
    "min_repetitions tr \<le> length found" "last found - hd found \<le> n * length found * 2"
    using assms(1) by (auto simp: verify_pattern_match_def Let_def split: if_splits)
  have "length ?p = n" using assms(2) by simp
  then show ?thesis
    using distinct_positions_sound [of n "hd positions" ?s ?p "tl positions"] found assms(2)
    by (simp add: occurs_at_def)
qed

lemma first_match_sound:
  assumes "first_match tr n table = Some m" and "\<forall>ps \<in> set table. hd ps + n \<le> length (rolling_content tr)"
  shows "\<exists>is. occurs_at (rolling_content tr) (match_pattern m) is \<and> length is = match_repetitions m \<and>
    min_repetitions tr \<le> match_repetitions m \<and> length (match_pattern m) = n \<and> last is - hd is \<le> n * length is * 2"
  using assms
proof (induction table)
  case (Cons ps table)
  show ?case
  proof (cases "verify_pattern_match tr ps n")
    case None
    with Cons show ?thesis by simp
  next
    case (Some found)
    with Cons.prems verify_sound [OF Some] show ?thesis by auto
  qed
qed simp

lemma table_positions:
  assumes "table_for s n m table" and "ps \<in> set (map snd table)"
  shows "ps \<noteq> [] \<and> hd ps < m"
proof -
  obtain k where "(k, ps) \<in> set table" using assms(2) by auto
  then have "map_of table k = Some ps"
    using assms(1) unfolding table_for_def by (intro map_of_is_SomeI) blast+
  then have ps: "ps = positions_of s n m k" "ps \<noteq> []"
    using assms(1) by (auto simp: table_for_def split: if_splits)
  then have "hd ps \<in> set (positions_of s n m k)" by simp
  with ps(2) show ?thesis by (simp add: positions_of_def)
qed

lemma check_pattern_length_sound:
  assumes "check_pattern_length tr n = Some m" and "rolling_setup tr" "1 \<le> n" "n \<le> max_pattern_length tr"
  shows "\<exists>is. occurs_at (rolling_content tr) (match_pattern m) is \<and> length is = match_repetitions m \<and>
    min_repetitions tr \<le> match_repetitions m \<and> length (match_pattern m) = n \<and> last is - hd is \<le> n * length is * 2"
proof -
  have "n * min_repetitions tr \<le> length (rolling_content tr)"
    using assms(1) by (auto simp: check_pattern_length_def split: if_splits)
  moreover have "n \<le> n * min_repetitions tr"
    using assms(2) by (simp add: rolling_setup_def)
  ultimately have n: "n \<le> length (rolling_content tr)" by linarith
  have "\<forall>ps \<in> set (map snd (hash_positions tr n)). hd ps + n \<le> length (rolling_content tr)"
    using table_positions [OF hash_positions_table [OF assms(2-4) n]] n by fastforce
  with assms(1) show ?thesis
    by (intro first_match_sound) (auto simp: check_pattern_length_def split: if_splits)
qed

section \<open>A text that repeats itself is a match\<close>

lemma greedy_positions:
  assumes "sorted_wrt (<) ps" and "\<forall>j. a < j \<and> j \<le> b \<longrightarrow> j * n \<in> set ps" and "\<forall>j \<le> b. window n (j * n) s = p"
    and "length s < (b + 2) * n" "(b + 1) * n \<le> length s" and "a \<le> b" "1 \<le> n"
  shows "distinct_positions s n p (a * n) ps = map (\<lambda>j. j * n) [Suc a..<Suc b]"
  using assms(1,2,6)
proof (induction ps arbitrary: a)
  case Nil
  then have "a = b" by fastforce
  then show ?case by simp
next
  case (Cons pos ps)
  have multiple: "(Suc a) * n = a * n + n" by simp
  consider (near) "pos < a * n + n" | (hit) "a < b" "pos = Suc a * n" | (far) "a = b" "a * n + n \<le> pos"
    using Cons.prems by (cases "a = b") (force, metis add.commute le_neq_implies_less less_Suc_eq_le linorder_not_less
      mult_Suc set_ConsD sorted_wrt.simps(2) less_or_eq_imp_le lessI)
  then show ?case
  proof cases
    case near
    have "j * n \<in> set ps" if "a < j" "j \<le> b" for j
    proof -
      have "pos < j * n"
        using near multiple mult_le_mono1 [of "Suc a" j n] that by linarith
      with Cons.prems(2) that show ?thesis by fastforce
    qed
    moreover have "\<not> int n \<le> int pos - int (a * n)"
      using near by linarith
    ultimately show ?thesis using Cons by simp
  next
    case hit
    have "pos + n \<le> length s"
      using hit assms(5) mult_le_mono1 [of "Suc (Suc a)" "b + 1" n] by simp
    moreover have "j * n \<in> set ps" if "Suc a < j" "j \<le> b" for j
    proof -
      have "pos < j * n" using hit that assms(7) mult_less_mono1 [of "Suc a" j n] by simp
      moreover have "j * n \<in> set (pos # ps)"
        using Cons.prems(2) that by simp
      ultimately show ?thesis by simp
    qed
    moreover have "distinct_positions s n p (Suc a * n) ps = map (\<lambda>j. j * n) [Suc (Suc a)..<Suc b]"
      using Cons.IH [of "Suc a"] Cons.prems(1) calculation(2) hit(1) by simp
    moreover have "window n (Suc a * n) s = p"
      using assms(3) [rule_format, of "Suc a"] hit(1) by simp
    ultimately show ?thesis
      using hit by (simp add: upt_conv_Cons del: upt_Suc)
  next
    case far
    then have "length s < pos + n" using assms(4) by simp
    moreover have "distinct_positions s n p (b * n) ps = []"
      using Cons.IH [of b] Cons.prems(1) by (simp add: not_less [symmetric])
    ultimately show ?thesis using far(1) by simp
  qed
qed

lemma periodic_windows:
  assumes "periodic n s" and "(j + 1) * n \<le> length s"
  shows "window n (j * n) s = window n 0 s"
  using periodic_window [OF periodic_multiple [OF assms(1), of j], of 0 n] assms(2) by simp

lemma periodic_verify:
  assumes "periodic n (rolling_content tr)" and "1 \<le> n" and "n * min_repetitions tr \<le> length (rolling_content tr)"
    and "1 \<le> min_repetitions tr"
  shows "verify_pattern_match tr
    (positions_of (rolling_content tr) n (length (rolling_content tr) - n + 1) (text_hash (window n 0 (rolling_content tr)))) n \<noteq> None"
proof -
  let ?s = "rolling_content tr"
  let ?ps = "positions_of ?s n (length ?s - n + 1) (text_hash (window n 0 ?s))"
  define b where "b = length ?s div n - 1"
  have "min_repetitions tr \<le> length ?s div n"
    using assms(2,3) by (simp add: less_eq_div_iff_mult_less_eq mult.commute)
  then have b: "min_repetitions tr \<le> b + 1" "b + 1 = length ?s div n"
    using assms(4) by (auto simp: b_def)
  have fits: "(b + 1) * n \<le> length ?s" "length ?s < (b + 2) * n"
    using assms(2) b(2) dividend_less_times_div [of n "length ?s"] by (simp_all add: algebra_simps)
  have hits: "j * n \<in> set ?ps" "window n (j * n) ?s = window n 0 ?s" if "j \<le> b" for j
  proof -
    have "(j + 1) * n \<le> length ?s"
      using that fits(1) mult_le_mono1 [of "j + 1" "b + 1" n] by linarith
    then show "window n (j * n) ?s = window n 0 ?s" "j * n \<in> set ?ps"
      using periodic_windows [OF assms(1)] by (auto simp: positions_of_def simp del: upt_Suc)
  qed
  have sorted: "sorted_wrt (<) ?ps"
    by (simp add: positions_of_def sorted_wrt_filter del: upt_Suc)
  have ps: "?ps = 0 # tl ?ps"
    by (simp add: positions_of_def upt_conv_Cons del: upt_Suc)
  have found: "distinct_positions ?s n (window n 0 ?s) (0 * n) (tl ?ps) = map (\<lambda>j. j * n) [Suc 0..<Suc b]"
  proof (rule greedy_positions)
    show "sorted_wrt (<) (tl ?ps)" using sorted by (subst (asm) ps) simp
    show "\<forall>j. 0 < j \<and> j \<le> b \<longrightarrow> j * n \<in> set (tl ?ps)"
    proof (intro allI impI)
      fix j
      assume "0 < j \<and> j \<le> b"
      then have "j * n \<in> set (0 # tl ?ps)" "j * n \<noteq> 0"
        using hits(1) [of j] ps assms(2) by simp_all
      then show "j * n \<in> set (tl ?ps)" by simp
    qed
  qed (use hits(2) fits assms(2) in auto)
  have "b + 1 \<le> length ?ps"
  proof -
    have "length (distinct_positions ?s n (window n 0 ?s) 0 (tl ?ps)) \<le> length (tl ?ps)"
      by (rule distinct_positions_length)
    with found have "b \<le> length (tl ?ps)" by (simp del: upt_Suc)
    then show ?thesis by (subst ps) simp
  qed
  moreover have "hd ?ps = 0" by (subst ps) simp
  moreover have "last (0 # map (\<lambda>j. j * n) [Suc 0..<Suc b]) = b * n"
    by (cases b) simp_all
  ultimately show ?thesis
    using b(1) found by (simp add: verify_pattern_match_def Let_def del: upt_Suc)
qed

lemma periodic_match:
  assumes "periodic n (rolling_content tr)" and "rolling_setup tr" and "1 \<le> n" "n \<le> max_pattern_length tr"
    and "n * min_repetitions tr \<le> length (rolling_content tr)"
  shows "check_pattern_length tr n \<noteq> None"
proof -
  let ?s = "rolling_content tr"
  have "n * 1 \<le> n * min_repetitions tr"
    using assms(2) unfolding rolling_setup_def by (intro mult_le_mono2) simp
  then have table: "table_for ?s n (length ?s - n + 1) (hash_positions tr n)"
    using assms(2-5) by (intro hash_positions_table) linarith+
  then obtain ps rest where ps: "hash_positions tr n = (text_hash (window n 0 ?s), ps) # rest"
    unfolding table_for_def by (cases "hash_positions tr n") auto
  then have "ps = positions_of ?s n (length ?s - n + 1) (text_hash (window n 0 ?s))"
    using table unfolding table_for_def by (auto dest: spec [of _ "text_hash (window n 0 ?s)"] split: if_splits)
  then have "verify_pattern_match tr ps n \<noteq> None"
    using periodic_verify [OF assms(1,3,5)] assms(2) by (simp add: rolling_setup_def)
  with ps assms(5) show ?thesis
    by (auto simp: check_pattern_length_def)
qed

lemma scan_Some: "scan tr ns = Some m \<Longrightarrow> \<exists>n \<in> set ns. check_pattern_length tr n = Some m"
  by (induction ns) (auto split: option.splits)

lemma scan_None: "scan tr ns = None \<Longrightarrow> n \<in> set ns \<Longrightarrow> check_pattern_length tr n = None"
  by (induction ns) (auto split: option.splits)

lemma periodic_scan:
  assumes "periodic n (rolling_content tr)" and "rolling_setup tr" and "min_pattern_length tr \<le> n" "n \<le> max_pattern_length tr"
    and "n * min_repetitions tr \<le> length (rolling_content tr)"
  shows "scan tr (scan_lengths tr) \<noteq> None"
proof -
  have "n \<le> length (rolling_content tr) div min_repetitions tr"
    using assms(2,5) less_eq_div_iff_mult_less_eq [of "min_repetitions tr" n "length (rolling_content tr)"]
    unfolding rolling_setup_def by linarith
  with assms(4) have "n \<le> min (max_pattern_length tr) (length (rolling_content tr) div min_repetitions tr)"
    by (rule min.boundedI)
  with assms(3) have member: "n \<in> set (scan_lengths tr)"
    unfolding scan_lengths_def set_rev set_upt atLeastLessThan_iff less_Suc_eq_le by (rule conjI)
  have "1 \<le> n"
    using assms(2,3) by (simp add: rolling_setup_def)
  from periodic_match [OF assms(1,2) this assms(4,5)] show ?thesis
    by (rule contrapos_nn) (erule scan_None [OF _ member])
qed

section \<open>Streams\<close>

fun rolling_run :: "string list \<Rightarrow> rolling_tracker \<Rightarrow> LongPatternMatch option list \<times> rolling_tracker" where
  "rolling_run [] tr = ([], tr)"
| "rolling_run (c # cs) tr =
     (let (m, tr1) = add_content c tr; (ms, tr2) = rolling_run cs tr1 in (m # ms, tr2))"

definition pending :: "rolling_tracker \<Rightarrow> string" where
  "pending tr = concat (content_chunks tr)"

definition scan_gap :: "rolling_tracker \<Rightarrow> nat" where
  "scan_gap tr = max (min_pattern_length tr * min_repetitions tr) (max (min_pattern_length tr * 2) (max_history tr div 2))"

text \<open>The state between two calls, after the text \<open>t\<close>.\<close>

definition rolling_ok :: "rolling_tracker \<Rightarrow> string \<Rightarrow> bool" where
  "rolling_ok tr t \<longleftrightarrow> rolling_setup tr \<and> min_pattern_length tr * min_repetitions tr \<le> max_history tr \<and>
     suffix (rolling_content tr @ pending tr) t \<and> content_total_len tr = length (rolling_content tr) + length (pending tr) \<and>
     last_check_length tr = length (rolling_content tr) \<and> length (rolling_content tr) \<le> max_history tr \<and>
     min (max_history tr) (length t - length (pending tr)) \<le> length (rolling_content tr) \<and>
     length (pending tr) < scan_gap tr"

lemma interval_bound: "compute_check_interval tr len \<le> scan_gap tr"
  by (auto simp: compute_check_interval_def scan_gap_def)

lemma few_bound: "min_pattern_length tr * min_repetitions tr \<le> scan_gap tr"
  by (simp add: scan_gap_def)

text \<open>What a call does, when it scans and when it does not.\<close>

definition scanned :: "rolling_tracker \<Rightarrow> string \<Rightarrow> rolling_tracker" where
  "scanned tr s = tr\<lparr>rolling_content := s, content_chunks := [], content_total_len := length s, last_check_length := length s\<rparr>"

lemma add_content_cases:
  assumes "content_total_len tr = length (rolling_content tr) + length (pending tr)" and "add_content c tr = (m, tr')"
  obtains (wait) "m = None" "tr' = tr\<lparr>content_chunks := content_chunks tr @ filter (\<lambda>x. x \<noteq> []) [c],
      content_total_len := content_total_len tr + length c\<rparr>"
    "c = [] \<or> content_total_len tr + length c < min_pattern_length tr * min_repetitions tr \<or>
      \<not> should_run_long_detection tr (content_total_len tr + length c)"
  | (scan) s where "s = last_chars (max_history tr) (rolling_content tr @ pending tr @ c)" "tr' = scanned tr s"
      "m = scan tr' (scan_lengths tr')"
proof -
  have same: "tr\<lparr>content_chunks := content_chunks tr, content_total_len := content_total_len tr\<rparr> = tr"
    by simp
  define t where "t = tr\<lparr>content_chunks := content_chunks tr @ [c], content_total_len := content_total_len tr + length c\<rparr>"
  have "should_run_long_detection t = should_run_long_detection tr"
    by (simp add: fun_eq_iff should_run_long_detection_def compute_check_interval_def t_def)
  consider (empty) "c = []" | (few) "c \<noteq> []" "content_total_len tr + length c < min_pattern_length tr * min_repetitions tr"
    | (soon) "c \<noteq> []" "\<not> should_run_long_detection tr (content_total_len tr + length c)"
    | (go) "c \<noteq> []" "\<not> content_total_len tr + length c < min_pattern_length tr * min_repetitions tr"
      "should_run_long_detection tr (content_total_len tr + length c)"
    by blast
  then show thesis
  proof cases
    case empty
    then show thesis using assms(2) same by (intro wait) (auto simp: add_content_def)
  next
    case few
    then show thesis using assms(2) by (intro wait) (auto simp: add_content_def Let_def)
  next
    case soon
    then show thesis
      using assms(2) \<open>should_run_long_detection t = _\<close> by (intro wait) (auto simp: add_content_def Let_def t_def split: if_splits)
  next
    case go
    let ?s = "last_chars (max_history tr) (rolling_content tr @ pending tr @ c)"
    have "truncate_content (materialize_content t) =
        tr\<lparr>rolling_content := ?s, content_chunks := [], content_total_len := length ?s,
          last_check_length := last_check_length tr - (length (rolling_content tr @ pending tr @ c) - length ?s)\<rparr>"
      by (simp add: truncate_content_def materialize_content_def t_def last_chars_def pending_def Let_def)
    with go assms(2) \<open>should_run_long_detection t = _\<close> show thesis
      by (intro scan [OF refl]) (auto simp: add_content_def Let_def t_def scanned_def)
  qed
qed

lemma length_last_chars [simp]: "length (last_chars n s) = min n (length s)"
  by (simp add: last_chars_def)

lemma suffix_last_chars: "suffix (last_chars n s) s"
  by (simp add: last_chars_def suffix_drop)

lemma scanned_simps [simp]:
  "rolling_content (scanned tr s) = s" "pending (scanned tr s) = []" "content_total_len (scanned tr s) = length s"
  "last_check_length (scanned tr s) = length s" "max_history (scanned tr s) = max_history tr"
  "min_pattern_length (scanned tr s) = min_pattern_length tr" "max_pattern_length (scanned tr s) = max_pattern_length tr"
  "min_repetitions (scanned tr s) = min_repetitions tr" "scan_gap (scanned tr s) = scan_gap tr" "powers (scanned tr s) = powers tr"
  by (simp_all add: scanned_def pending_def scan_gap_def)

lemma add_content_config:
  assumes "add_content c tr = (m, tr')"
  shows "max_history tr' = max_history tr \<and> min_pattern_length tr' = min_pattern_length tr \<and> powers tr' = powers tr \<and>
    max_pattern_length tr' = max_pattern_length tr \<and> min_repetitions tr' = min_repetitions tr"
  using assms by (auto simp: add_content_def truncate_content_def materialize_content_def Let_def split: if_splits)

lemma rolling_ok_add:
  assumes ok: "rolling_ok tr t" and add: "add_content c tr = (m, tr')"
  shows "rolling_ok tr' (t @ c)"
proof -
  have total: "content_total_len tr = length (rolling_content tr) + length (pending tr)"
    using ok by (simp add: rolling_ok_def)
  from total add show ?thesis
  proof (cases rule: add_content_cases)
    case wait
    have pend: "pending tr' = pending tr @ c"
      using wait(2) by (cases "c = []") (simp_all add: pending_def)
    have "length (pending tr) + length c < scan_gap tr"
      using wait(3) ok interval_bound [of tr "content_total_len tr + length c"]
        few_bound [of tr] by (auto simp: rolling_ok_def should_run_long_detection_def)
    with ok wait(2) pend show ?thesis
      by (auto simp: rolling_ok_def rolling_setup_def scan_gap_def suffix_def)
  next
    case (scan s)
    have "0 < scan_gap tr"
      using ok by (simp add: rolling_ok_def rolling_setup_def scan_gap_def less_max_iff_disj)
    moreover have "suffix s (t @ c)"
      using ok scan(1) suffix_last_chars [of "max_history tr" "rolling_content tr @ pending tr @ c"]
      by (simp add: rolling_ok_def) (metis append.assoc same_suffix_suffix suffix_order.trans)
    ultimately show ?thesis
      using ok scan(1,2) by (auto simp: rolling_ok_def rolling_setup_def)
  qed
qed

lemma rolling_match_sound:
  assumes ok: "rolling_ok tr t" and add: "add_content c tr = (Some m, tr')"
  shows "\<exists>is. occurs_at (t @ c) (match_pattern m) is \<and> length is = match_repetitions m \<and>
    min_repetitions tr \<le> match_repetitions m \<and> min_pattern_length tr \<le> length (match_pattern m) \<and>
    length (match_pattern m) \<le> max_pattern_length tr \<and> last is - hd is \<le> length (match_pattern m) * length is * 2"
proof -
  have ok': "rolling_ok tr' (t @ c)" by (rule rolling_ok_add [OF ok add])
  note config = add_content_config [OF add]
  have total: "content_total_len tr = length (rolling_content tr) + length (pending tr)"
    using ok by (simp add: rolling_ok_def)
  from total add have found: "scan tr' (scan_lengths tr') = Some m"
    by (cases rule: add_content_cases) simp_all
  then obtain n where n: "n \<in> set (scan_lengths tr')" "check_pattern_length tr' n = Some m"
    using scan_Some by blast
  then have range: "min_pattern_length tr \<le> n" "n \<le> max_pattern_length tr"
    using config by (auto simp: scan_lengths_def less_Suc_eq_le simp del: upt_Suc)
  have ready: "rolling_setup tr'" "1 \<le> n"
    using ok' range(1) config by (auto simp: rolling_ok_def rolling_setup_def)
  obtain js where js: "occurs_at (rolling_content tr') (match_pattern m) js" "length js = match_repetitions m"
    "min_repetitions tr' \<le> match_repetitions m" "length (match_pattern m) = n" "last js - hd js \<le> n * length js * 2"
    using check_pattern_length_sound [OF n(2) ready] range config by auto
  have "suffix (rolling_content tr' @ pending tr') (t @ c)" "pending tr' = []"
    using ok' total add by (auto simp: rolling_ok_def elim: add_content_cases)
  then have shifted: "occurs_at (t @ c) (match_pattern m) (map (\<lambda>i. length (t @ c) - length (rolling_content tr') + i) js)"
    (is "occurs_at _ _ ?is")
    using js(1) by (intro occurs_at_suffix) simp_all
  have "js \<noteq> []"
    using js(2,3) ready(1) by (auto simp: rolling_setup_def)
  then have "last ?is - hd ?is = last js - hd js"
    by (simp add: last_map hd_map)
  with shifted js range config show ?thesis
    by (intro exI [of _ ?is]) simp
qed

section \<open>A loop is noticed\<close>

lemma scan_other_fields [simp]:
  "scan (tr\<lparr>content_chunks := x, content_total_len := y\<rparr>) ns = scan tr ns"
  "scan_lengths (tr\<lparr>content_chunks := x, content_total_len := y\<rparr>) = scan_lengths tr"
proof -
  let ?tr = "tr\<lparr>content_chunks := x, content_total_len := y\<rparr>"
  have "roll_step ?tr n = roll_step tr n" for n
    by (simp add: fun_eq_iff roll_step_def roll_hash_def)
  then have "hash_positions ?tr n = hash_positions tr n" for n
    by (simp add: hash_positions_def)
  moreover have "verify_pattern_match ?tr ps n = verify_pattern_match tr ps n" for n ps
    by (simp add: verify_pattern_match_def)
  then have "first_match ?tr n ps = first_match tr n ps" for n ps
    by (induction ps) (simp_all split: option.split)
  ultimately have "check_pattern_length ?tr n = check_pattern_length tr n" for n
    by (simp add: check_pattern_length_def)
  then show "scan ?tr ns = scan tr ns"
    by (induction ns) (simp_all split: option.split)
qed (simp add: scan_lengths_def)

text \<open>A run without a match has not scanned yet, or the last scan has found nothing.\<close>

lemma quiet_run:
  assumes "rolling_ok tr t" and "rolling_run cs tr = (ms, tr')" and "set ms \<subseteq> {None}"
  shows "rolling_ok tr' (t @ concat cs) \<and> scan_gap tr' = scan_gap tr \<and> max_history tr' = max_history tr \<and>
    min_pattern_length tr' = min_pattern_length tr \<and> max_pattern_length tr' = max_pattern_length tr \<and>
    min_repetitions tr' = min_repetitions tr \<and>
    (pending tr' = pending tr @ concat cs \<and> scan tr' (scan_lengths tr') = scan tr (scan_lengths tr) \<or>
     scan tr' (scan_lengths tr') = None)"
  using assms
proof (induction cs arbitrary: tr t ms)
  case (Cons c cs)
  obtain m tr1 ms' where run: "add_content c tr = (m, tr1)" "rolling_run cs tr1 = (ms', tr')" "ms = m # ms'"
    using Cons.prems(2) by (auto split: prod.splits)
  have ok: "rolling_ok tr1 (t @ c)"
    by (rule rolling_ok_add [OF Cons.prems(1) run(1)])
  have total: "content_total_len tr = length (rolling_content tr) + length (pending tr)"
    using Cons.prems(1) by (simp add: rolling_ok_def)
  have IH: "rolling_ok tr' (t @ c @ concat cs) \<and> scan_gap tr' = scan_gap tr1 \<and> max_history tr' = max_history tr1 \<and>
      min_pattern_length tr' = min_pattern_length tr1 \<and> max_pattern_length tr' = max_pattern_length tr1 \<and>
      min_repetitions tr' = min_repetitions tr1 \<and>
      (pending tr' = pending tr1 @ concat cs \<and> scan tr' (scan_lengths tr') = scan tr1 (scan_lengths tr1) \<or>
       scan tr' (scan_lengths tr') = None)"
    using Cons.IH [OF ok run(2)] Cons.prems(3) run(3) by simp
  have quiet: "pending tr1 = pending tr @ c \<and> scan tr1 (scan_lengths tr1) = scan tr (scan_lengths tr) \<or>
      scan tr1 (scan_lengths tr1) = None"
    using total run(1)
  proof (cases rule: add_content_cases)
    case wait
    then show ?thesis by (cases "c = []") (simp_all add: pending_def)
  next
    case (scan s)
    then show ?thesis using Cons.prems(3) run(3) by simp
  qed
  have "scan_gap tr1 = scan_gap tr"
    using add_content_config [OF run(1)] by (simp add: scan_gap_def)
  with IH quiet add_content_config [OF run(1)] show ?case by auto
qed simp

lemma suffix_same_length_le: "suffix s (t @ u) \<Longrightarrow> length s \<le> length u \<Longrightarrow> suffix s u"
  using suffix_length_suffix [of s "t @ u" u] by (simp add: suffix_def)

lemma periodic_suffix_part:
  assumes "periodic n u" and "suffix (s @ r) u"
  shows "periodic n s"
proof -
  have "s = take (length s) (drop (length u - length (s @ r)) u)"
    using assms(2) by (auto simp: suffix_def)
  then show ?thesis
    using periodic_take [OF periodic_drop [OF assms(1)]] by metis
qed

lemma rolling_detects:
  assumes "rolling_ok tr t" and "periodic n (concat cs)" and "min_pattern_length tr \<le> n" "n \<le> max_pattern_length tr"
    and "n * min_repetitions tr \<le> max_history tr" and "max_history tr + scan_gap tr \<le> length (concat cs)"
  shows "\<exists>m. Some m \<in> set (fst (rolling_run cs tr))"
proof (rule ccontr)
  obtain ms tr' where run: "rolling_run cs tr = (ms, tr')" by fastforce
  assume "\<not> ?thesis"
  then have "set ms \<subseteq> {None}"
    using run by (auto intro: ccontr)
  note quiet = quiet_run [OF assms(1) run this]
  then have ok: "rolling_ok tr' (t @ concat cs)" by blast
  have pend: "length (pending tr') < scan_gap tr"
    using quiet by (simp add: rolling_ok_def)
  with quiet assms(6) have none: "scan tr' (scan_lengths tr') = None" by auto
  have "length (rolling_content tr' @ pending tr') \<le> length (concat cs)"
    using ok pend quiet assms(6) by (simp add: rolling_ok_def)
  then have "suffix (rolling_content tr' @ pending tr') (concat cs)"
    using ok by (auto simp: rolling_ok_def intro: suffix_same_length_le)
  then have "periodic n (rolling_content tr')"
    by (rule periodic_suffix_part [OF assms(2)])
  moreover have "n * min_repetitions tr' \<le> length (rolling_content tr')"
    using ok quiet pend assms(5,6) by (simp add: rolling_ok_def)
  ultimately show False
    using periodic_scan [of n tr'] ok quiet assms(3,4) none by (simp add: rolling_ok_def)
qed

end
