(* ===== verification/Loop_Window_Theorems.thy ===== *)
theory Loop_Window_Theorems
  imports Loop_Rolling_Theorems
begin

text \<open>
  What the sliding window promises: a reported loop is a window of text that really was seen as often and
  as close together as configured, whatever the hash does; and a stream that repeats itself with a short
  period is reported, however the text is cut into pieces, if the hash keeps the windows of the text
  apart.
\<close>

section \<open>Invariants\<close>

definition bucket_ok :: "(string \<Rightarrow> int) \<Rightarrow> window_detector \<Rightarrow> int \<Rightarrow> nat list \<Rightarrow> bool" where
  "bucket_ok hash w k is \<longleftrightarrow> is \<noteq> [] \<and> sorted_wrt (<) is \<and>
     (\<exists>c. hash c = k \<and> mostly_letters c \<and>
        (\<forall>i \<in> set is. i < last_content_index w \<and> window (content_chunk_size w) i (stream_content_history w) = c))"

definition tracked :: "(string \<Rightarrow> int) \<Rightarrow> window_detector \<Rightarrow> bool" where
  "tracked hash w \<longleftrightarrow> (\<forall>i < last_content_index w. i + content_chunk_size w \<le> length (stream_content_history w)) \<and>
     (\<forall>k is. content_stats w k = Some is \<longrightarrow> bucket_ok hash w k is)"

text \<open>Every window so far was recorded, and none closed a loop.\<close>

definition recorded :: "(string \<Rightarrow> int) \<Rightarrow> window_detector \<Rightarrow> bool" where
  "recorded hash w \<longleftrightarrow> (\<forall>i < last_content_index w. let c = window (content_chunk_size w) i (stream_content_history w) in
     mostly_letters c \<longrightarrow> (\<exists>is. content_stats w (hash c) = Some is \<and> i \<in> set is))"

definition loop_at :: "window_detector \<Rightarrow> nat \<Rightarrow> nat \<Rightarrow> bool" where
  "loop_at w d i \<longleftrightarrow> 1 \<le> d \<and> 2 * d \<le> 3 * content_chunk_size w \<and> (window_threshold w - 1) * d \<le> i \<and>
     mostly_letters (window (content_chunk_size w) i (stream_content_history w)) \<and>
     (\<forall>j < window_threshold w. window (content_chunk_size w) (i - j * d) (stream_content_history w) =
        window (content_chunk_size w) i (stream_content_history w))"

definition covered :: "(string \<Rightarrow> int) \<Rightarrow> window_detector \<Rightarrow> bool" where
  "covered hash w \<longleftrightarrow> recorded hash w \<and> (\<forall>i < last_content_index w. \<forall>d. \<not> loop_at w d i)"

text \<open>A window of text that is repeated closely.\<close>

definition close_repetition :: "nat \<Rightarrow> nat \<Rightarrow> string \<Rightarrow> bool" where
  "close_repetition n t s \<longleftrightarrow> (\<exists>c is. length c = n \<and> mostly_letters c \<and> length is = t \<and> sorted_wrt (<) is \<and>
     (\<forall>i \<in> set is. i + n \<le> length s \<and> window n i s = c) \<and> 2 * (last is - hd is) \<le> 3 * n * (t - 1))"

lemma close_repetition_suffix:
  assumes "close_repetition n t s" and "suffix s u" and "1 \<le> t"
  shows "close_repetition n t u"
proof -
  obtain a where u: "u = a @ s" using assms(2) by (auto simp: suffix_def)
  obtain c js where js: "length c = n" "mostly_letters c" "length js = t" "sorted_wrt (<) js"
    "\<forall>i \<in> set js. i + n \<le> length s \<and> window n i s = c" "2 * (last js - hd js) \<le> 3 * n * (t - 1)"
    using assms(1) unfolding close_repetition_def by blast
  let ?js = "map (\<lambda>i. length a + i) js"
  have "js \<noteq> []" using js(3) assms(3) by auto
  then have "last ?js - hd ?js = last js - hd js"
    by (simp add: last_map hd_map)
  with js show ?thesis
    unfolding close_repetition_def u
    by (intro exI [of _ c] exI [of _ ?js]) (auto simp: sorted_wrt_map window_shift)
qed

section \<open>One window\<close>

lemma bucket_ok_append:
  assumes ok: "bucket_ok hash w k is" and "hash (current_chunk w) = k" "mostly_letters (current_chunk w)"
    and match: "is_actual_content_match w (current_chunk w) (hd is)"
  shows "bucket_ok hash (w\<lparr>last_content_index := Suc (last_content_index w)\<rparr>) k (is @ [last_content_index w])"
proof -
  obtain c where c: "\<forall>i \<in> set is. i < last_content_index w \<and> window (content_chunk_size w) i (stream_content_history w) = c"
    and nonempty: "is \<noteq> []" and sorted: "sorted_wrt (<) is"
    using ok unfolding bucket_ok_def by blast
  then have "c = current_chunk w"
    using match by (simp add: is_actual_content_match_def)
  with c assms(2,3) have "\<forall>i \<in> set (is @ [last_content_index w]). i < Suc (last_content_index w) \<and>
      window (content_chunk_size w) i (stream_content_history w) = current_chunk w"
    by (auto simp: current_chunk_def)
  moreover have "sorted_wrt (<) (is @ [last_content_index w])"
    using sorted c by (simp add: sorted_wrt_append)
  ultimately show ?thesis
    using assms(2,3) unfolding bucket_ok_def by auto
qed

lemma is_loop_cases:
  assumes "is_loop_detected_for_chunk hash c w = (v, w')"
  obtains (skip) "\<not> mostly_letters c" "v = Inr False" "w' = w"
  | (fresh) "mostly_letters c" "content_stats w (hash c) = None" "v = Inr False"
      "w' = w\<lparr>content_stats := (content_stats w)(hash c \<mapsto> [last_content_index w])\<rparr>"
  | (clash) "is" where "content_stats w (hash c) = Some is" "\<not> is_actual_content_match w c (hd is)" "v = Inr False" "w' = w"
  | (again) "is" where "mostly_letters c" "content_stats w (hash c) = Some is" "is_actual_content_match w c (hd is)"
      "w' = w\<lparr>content_stats := (content_stats w)(hash c \<mapsto> is @ [last_content_index w])\<rparr>"
      "v = (if Suc (length is) < window_threshold w then Inr False
        else close_together (window_threshold w) (content_chunk_size w) (is @ [last_content_index w]))"
proof -
  consider (a) "\<not> mostly_letters c" | (b) "mostly_letters c" "content_stats w (hash c) = None"
    | (c) js where "mostly_letters c" "content_stats w (hash c) = Some js" "\<not> is_actual_content_match w c (hd js)"
    | (d) js where "mostly_letters c" "content_stats w (hash c) = Some js" "is_actual_content_match w c (hd js)"
    by (cases "content_stats w (hash c)") auto
  then show thesis
  proof cases
    case a
    with assms have "v = Inr False" "w' = w" by (simp_all add: is_loop_detected_for_chunk_def)
    with a show thesis by (intro skip)
  next
    case b
    with assms have "v = Inr False" "w' = w\<lparr>content_stats := (content_stats w)(hash c \<mapsto> [last_content_index w])\<rparr>"
      by (simp_all add: is_loop_detected_for_chunk_def)
    with b show thesis by (intro fresh)
  next
    case (c js)
    with assms have "v = Inr False" "w' = w" by (simp_all add: is_loop_detected_for_chunk_def)
    with c show thesis by (intro clash)
  next
    case (d js)
    with assms have "v = (if Suc (length js) < window_threshold w then Inr False
        else close_together (window_threshold w) (content_chunk_size w) (js @ [last_content_index w]))"
      "w' = w\<lparr>content_stats := (content_stats w)(hash c \<mapsto> js @ [last_content_index w])\<rparr>"
      by (simp_all add: is_loop_detected_for_chunk_def Let_def split: if_splits)
    with d show thesis by (intro again)
  qed
qed

definition next_index :: "window_detector \<Rightarrow> window_detector" where
  "next_index w = w\<lparr>last_content_index := last_content_index w + 1\<rparr>"

lemma next_index_simps [simp]:
  "stream_content_history (next_index w) = stream_content_history w" "content_stats (next_index w) = content_stats w"
  "content_chunk_size (next_index w) = content_chunk_size w" "last_content_index (next_index w) = Suc (last_content_index w)"
  "window_threshold (next_index w) = window_threshold w"
  "in_code_block (next_index w) = in_code_block w" "loop_detected (next_index w) = loop_detected w"
  by (simp_all add: next_index_def window_threshold_def)

lemma bucket_ok_grows:
  assumes "bucket_ok hash w k is" and "last_content_index w \<le> last_content_index w'" "content_chunk_size w' = content_chunk_size w"
    "stream_content_history w' = stream_content_history w"
  shows "bucket_ok hash w' k is"
  using assms unfolding bucket_ok_def by (metis order_less_le_trans)

lemma tracked_step:
  assumes ok: "tracked hash w" and more: "has_more_chunks_to_process w"
    and "is_loop_detected_for_chunk hash (current_chunk w) w = (v, w')"
  shows "tracked hash (next_index w')"
proof -
  have range: "\<forall>i < Suc (last_content_index w). i + content_chunk_size w \<le> length (stream_content_history w)"
    using ok more by (auto simp: tracked_def has_more_chunks_to_process_def less_Suc_eq)
  have same: "stream_content_history w' = stream_content_history w" "last_content_index w' = last_content_index w"
    "content_chunk_size w' = content_chunk_size w"
    using assms(3) is_loop_frame [of hash "current_chunk w" w] by simp_all
  have old: "bucket_ok hash (next_index w') k js" if "content_stats w k = Some js" for k js
    by (rule bucket_ok_grows [of hash w]) (use ok that same in \<open>auto simp: tracked_def\<close>)
  have buckets: "bucket_ok hash (next_index w') k js" if "content_stats w' k = Some js" for k js
    using assms(3)
  proof (cases rule: is_loop_cases)
    case skip
    with old that show ?thesis by simp
  next
    case (clash ks)
    with old that show ?thesis by simp
  next
    case fresh
    with old that show ?thesis
      by (cases "k = hash (current_chunk w)") (auto simp: bucket_ok_def current_chunk_def)
  next
    case (again ks)
    have "bucket_ok hash (next_index w') (hash (current_chunk w)) (ks @ [last_content_index w])"
      using bucket_ok_append [OF _ refl again(1,3)] ok again(2)
      by (intro bucket_ok_grows [OF bucket_ok_append [OF _ refl again(1,3)]]) (auto simp: tracked_def same)
    with old that again(4) show ?thesis
      by (cases "k = hash (current_chunk w)") auto
  qed
  with range same show ?thesis by (simp add: tracked_def)
qed

lemma close_together_iff:
  assumes "2 \<le> t" and "hd (drop (length is - t) is) \<le> last (drop (length is - t) is)"
  shows "close_together t n is = Inr (2 * (last (drop (length is - t) is) - hd (drop (length is - t) is)) \<le> 3 * n * (t - 1))"
proof -
  let ?a = "hd (drop (length is - t) is)" let ?b = "last (drop (length is - t) is)"
  have "(real ?b - real ?a) / real (t - 1) \<le> real n * 1.5 \<longleftrightarrow> 2 * (real ?b - real ?a) \<le> 3 * real n * real (t - 1)"
    using assms(1) by (simp add: divide_le_eq algebra_simps)
  also have "\<dots> \<longleftrightarrow> real (2 * (?b - ?a)) \<le> real (3 * n * (t - 1))"
    using assms(2) by (simp add: of_nat_diff)
  also have "\<dots> \<longleftrightarrow> 2 * (?b - ?a) \<le> 3 * n * (t - 1)"
    by (rule of_nat_le_iff)
  finally have "(real ?b - real ?a) / real (t - 1) \<le> real n * 1.5 \<longleftrightarrow> 2 * (?b - ?a) \<le> 3 * n * (t - 1)" .
  moreover have "t \<noteq> 1" using assms(1) by simp
  ultimately show ?thesis
    by (simp only: close_together_def Let_def if_False)
qed

lemma recent_sorted:
  assumes "sorted_wrt (<) is" and "1 \<le> t" "t \<le> length is"
  shows "hd (drop (length is - t) is) \<le> (last (drop (length is - t) is) :: nat)"
proof -
  let ?r = "drop (length is - t) is"
  have "sorted_wrt (<) ?r" "?r \<noteq> []"
    using assms by (auto intro: sorted_wrt_drop)
  then show ?thesis by (cases ?r) (auto simp: last_in_set less_imp_le)
qed

lemma step_verdict:
  assumes "tracked hash w" and "has_more_chunks_to_process w" and "2 \<le> window_threshold w"
    and "is_loop_detected_for_chunk hash (current_chunk w) w = (v, w')"
  shows "v = Inr False \<or> v = Inr True \<and> close_repetition (content_chunk_size w) (window_threshold w) (stream_content_history w)"
  using assms(4)
proof (cases rule: is_loop_cases)
  case (again js)
  let ?n = "content_chunk_size w" let ?s = "stream_content_history w" let ?t = "window_threshold w"
  let ?is = "js @ [last_content_index w]" let ?r = "drop (length ?is - ?t) ?is"
  have "bucket_ok hash w (hash (current_chunk w)) js"
    using assms(1) again(2) by (simp add: tracked_def)
  then have ok: "bucket_ok hash (w\<lparr>last_content_index := Suc (last_content_index w)\<rparr>) (hash (current_chunk w)) ?is"
    by (rule bucket_ok_append [OF _ refl again(1,3)])
  then obtain c where c: "mostly_letters c" "sorted_wrt (<) ?is"
      "\<forall>i \<in> set ?is. i < Suc (last_content_index w) \<and> window ?n i ?s = c"
    unfolding bucket_ok_def by auto
  have fits: "\<forall>i \<in> set ?is. i + ?n \<le> length ?s"
    using c(3) assms(2) by (auto simp: has_more_chunks_to_process_def less_Suc_eq_le)
  show ?thesis
  proof (cases "v = Inr False")
    case False
    then have long: "?t \<le> length ?is" and v: "v = close_together ?t ?n ?is"
      using again(5) by (auto split: if_splits)
    have hl: "hd ?r \<le> last ?r"
      using recent_sorted [OF c(2) _ long] assms(3) by simp
    have close: "2 * (last ?r - hd ?r) \<le> 3 * ?n * (?t - 1)" and "v = Inr True"
      using close_together_iff [OF assms(3) hl] False v by auto
    have "set ?r \<subseteq> set ?is" by (rule set_drop_subset)
    moreover have "sorted_wrt (<) ?r" by (rule sorted_wrt_drop [OF c(2)])
    moreover have "length ?r = ?t" using long by simp
    moreover have "length c = ?n"
      using c(3) fits by force
    ultimately have "close_repetition ?n ?t ?s"
      unfolding close_repetition_def using c(1,3) fits close by (intro exI [of _ c] exI [of _ ?r]) blast
    with \<open>v = Inr True\<close> show ?thesis by simp
  qed simp
qed simp_all

text \<open>The last \<open>t\<close> of the positions are not before any \<open>t\<close> of them.\<close>

lemma recent_above:
  assumes "sorted_wrt (<) (is :: nat list)" and "finite A" "A \<subseteq> set is" "t \<le> card A" "1 \<le> t" and "\<forall>a \<in> A. m \<le> a"
  shows "t \<le> length is \<and> m \<le> hd (drop (length is - t) is)"
proof -
  have "card A \<le> card (set is)" using assms(3) by (simp add: card_mono)
  then have long: "t \<le> length is" using assms(4) card_length [of "is"] by linarith
  moreover have "m \<le> hd (drop (length is - t) is)"
  proof (rule ccontr)
    assume less: "\<not> m \<le> hd (drop (length is - t) is)"
    let ?k = "length is - t"
    have k: "?k < length is" using long assms(5) by simp
    have "a \<in> set (drop (Suc ?k) is)" if mem: "a \<in> A" for a
    proof -
      obtain i where i: "i < length is" "is ! i = a"
        using subsetD [OF assms(3) mem] unfolding in_set_conv_nth by blast
      have "m \<le> a" using mem assms(6) by blast
      then have below: "is ! ?k < a"
        using less hd_drop_conv_nth [OF k] by linarith
      have "?k < i"
      proof (rule ccontr)
        assume "\<not> ?k < i"
        then have "i = ?k \<or> i < ?k" by linarith
        then show False
          using sorted_wrt_nth_less [OF assms(1), of i ?k] below i(2) k by auto
      qed
      then show ?thesis
        using i nth_drop [of "Suc ?k" "is" "i - Suc ?k"] nth_mem [of "i - Suc ?k" "drop (Suc ?k) is"] by simp
    qed
    then have "A \<subseteq> set (drop (Suc ?k) is)" by (rule subsetI)
    then have "card A \<le> card (set (drop (Suc ?k) is))"
      by (rule card_mono [OF finite_set])
    also have "\<dots> \<le> length (drop (Suc ?k) is)" by (rule card_length)
    also have "\<dots> < t" using assms(5) long by simp
    finally show False using assms(4) by simp
  qed
  ultimately show ?thesis ..
qed

section \<open>Recording\<close>

definition windows_of :: "nat \<Rightarrow> string \<Rightarrow> string set" where
  "windows_of n s = {window n i s | i. i + n \<le> length s}"

lemma window_in_windows: "i + n \<le> length s \<Longrightarrow> window n i s \<in> windows_of n s"
  by (auto simp: windows_of_def)

lemma windows_suffix: "suffix s t \<Longrightarrow> windows_of n s \<subseteq> windows_of n t"
proof
  fix c
  assume "suffix s t" "c \<in> windows_of n s"
  then obtain a i where "t = a @ s" "c = window n i s" "i + n \<le> length s"
    by (auto simp: suffix_def windows_of_def)
  then have "c = window n (length a + i) t" "length a + i + n \<le> length t"
    by (simp_all add: window_shift)
  then show "c \<in> windows_of n t" unfolding windows_of_def by blast
qed

lemma tracked_bucket_window:
  assumes "tracked hash w" and "content_stats w k = Some is" and "i \<in> set is"
  shows "i < last_content_index w \<and> i + content_chunk_size w \<le> length (stream_content_history w) \<and>
    hash (window (content_chunk_size w) i (stream_content_history w)) = k"
proof -
  have "bucket_ok hash w k is" using assms(1,2) by (simp add: tracked_def)
  then show ?thesis using assms(1,3) by (auto simp: tracked_def bucket_ok_def)
qed

text \<open>Without collisions the positions of a window are all in its bucket.\<close>

lemma collision_free_match:
  assumes ok: "tracked hash w" and more: "has_more_chunks_to_process w"
    and inj: "inj_on hash (windows_of (content_chunk_size w) (stream_content_history w))"
    and stats: "content_stats w (hash (current_chunk w)) = Some js"
  shows "is_actual_content_match w (current_chunk w) (hd js)"
proof -
  have "js \<noteq> []" using ok stats by (auto simp: tracked_def bucket_ok_def)
  then have "hd js \<in> set js" by simp
  note b = tracked_bucket_window [OF ok stats this]
  have "window (content_chunk_size w) (hd js) (stream_content_history w) = current_chunk w"
  proof (rule inj_onD [OF inj])
    show "current_chunk w \<in> windows_of (content_chunk_size w) (stream_content_history w)"
      using more by (auto simp: current_chunk_def has_more_chunks_to_process_def intro: window_in_windows)
  qed (use b in \<open>auto intro: window_in_windows\<close>)
  then show ?thesis by (simp add: is_actual_content_match_def)
qed

lemma recorded_step:
  assumes "tracked hash w" and "has_more_chunks_to_process w"
    and "inj_on hash (windows_of (content_chunk_size w) (stream_content_history w))"
    and "recorded hash w" and "is_loop_detected_for_chunk hash (current_chunk w) w = (v, w')"
  shows "recorded hash (next_index w')"
  using assms(5)
proof (cases rule: is_loop_cases)
  case skip
  with assms(4) show ?thesis by (auto simp: recorded_def current_chunk_def less_Suc_eq Let_def)
next
  case fresh
  with assms(4) show ?thesis by (auto simp: recorded_def current_chunk_def less_Suc_eq Let_def)
next
  case (clash js)
  with collision_free_match [OF assms(1-3)] show ?thesis by blast
next
  case (again js)
  with assms(4) show ?thesis by (fastforce simp: recorded_def current_chunk_def less_Suc_eq Let_def)
qed

lemma loop_found:
  assumes ok: "tracked hash w" and more: "has_more_chunks_to_process w"
    and inj: "inj_on hash (windows_of (content_chunk_size w) (stream_content_history w))"
    and rec: "recorded hash w" and loop: "loop_at w d (last_content_index w)" and t: "2 \<le> window_threshold w"
  shows "fst (is_loop_detected_for_chunk hash (current_chunk w) w) = Inr True"
proof -
  let ?n = "content_chunk_size w" let ?s = "stream_content_history w" let ?t = "window_threshold w" let ?i = "last_content_index w"
  obtain v w' where step: "is_loop_detected_for_chunk hash (current_chunk w) w = (v, w')" by fastforce
  have d: "1 \<le> d" "2 * d \<le> 3 * ?n" "(?t - 1) * d \<le> ?i" "mostly_letters (current_chunk w)"
    "\<forall>j < ?t. window ?n (?i - j * d) ?s = current_chunk w"
    using loop by (simp_all add: loop_at_def current_chunk_def)
  have before: "\<exists>js. content_stats w (hash (current_chunk w)) = Some js \<and> ?i - j * d \<in> set js" if "1 \<le> j" "j < ?t" for j
  proof -
    have "j \<le> ?t - 1" using that(2) by linarith
    then have "j * d \<le> ?i"
      using le_trans [OF mult_le_mono1 d(3)] by blast
    moreover have "0 < j * d" using that(1) d(1) by simp
    ultimately have "?i - j * d < ?i" by linarith
    with rec d(4,5) that show ?thesis unfolding recorded_def Let_def by metis
  qed
  then obtain js where js: "content_stats w (hash (current_chunk w)) = Some js"
    using t by (metis Suc_1 Suc_le_eq less_one order_refl)
  then have again: "v = (if Suc (length js) < ?t then Inr False else close_together ?t ?n (js @ [?i]))"
    using step d(4) collision_free_match [OF ok more inj js]
    by (auto simp: is_loop_detected_for_chunk_def Let_def split: if_splits)
  define A where "A = (\<lambda>j. ?i - j * d) ` {..<?t}"
  have "inj_on (\<lambda>j. ?i - j * d) {..<?t}"
  proof (rule inj_onI)
    fix a b
    assume ab: "a \<in> {..<?t}" "b \<in> {..<?t}" "?i - a * d = ?i - b * d"
    then have "a \<le> ?t - 1" "b \<le> ?t - 1" by auto
    then have "a * d \<le> ?i" "b * d \<le> ?i"
      using le_trans [OF mult_le_mono1 d(3)] by blast+
    with ab(3) have "a * d = b * d" by linarith
    with d(1) show "a = b" by simp
  qed
  then have card: "card A = ?t" by (simp add: A_def card_image)
  have "A \<subseteq> set (js @ [?i])"
  proof
    fix a
    assume "a \<in> A"
    then obtain j where j: "j < ?t" "a = ?i - j * d" by (auto simp: A_def)
    then show "a \<in> set (js @ [?i])" using before [of j] js by (cases "j = 0") auto
  qed
  moreover have "sorted_wrt (<) (js @ [?i])"
    using ok js by (auto simp: tracked_def bucket_ok_def sorted_wrt_append)
  moreover have "\<forall>a \<in> A. ?i - (?t - 1) * d \<le> a"
    by (auto simp: A_def intro!: diff_le_mono2 mult_le_mono1)
  ultimately have recent: "?t \<le> length (js @ [?i]) \<and> ?i - (?t - 1) * d \<le> hd (drop (length (js @ [?i]) - ?t) (js @ [?i]))"
    using recent_above [of "js @ [?i]" A ?t "?i - (?t - 1) * d"] card t by (simp add: A_def)
  let ?r = "drop (length (js @ [?i]) - ?t) (js @ [?i])"
  have "last ?r = last (js @ [?i])"
    by (rule last_drop) (use t in simp)
  then have "last ?r = ?i" by (simp only: last_snoc)
  moreover have "hd ?r \<le> last ?r"
    by (rule recent_sorted) (use \<open>sorted_wrt (<) (js @ [?i])\<close> recent t in auto)
  moreover have "2 * (?i - hd ?r) \<le> 3 * ?n * (?t - 1)"
  proof -
    have "?i - hd ?r \<le> (?t - 1) * d"
      using recent d(3) by linarith
    then have "2 * (?i - hd ?r) \<le> (?t - 1) * (2 * d)" by simp
    also have "\<dots> \<le> (?t - 1) * (3 * ?n)"
      using d(2) by (rule mult_le_mono2)
    finally show ?thesis by (simp add: mult.commute)
  qed
  ultimately have "close_together ?t ?n (js @ [?i]) = Inr True"
    using close_together_iff [OF t, of "js @ [?i]" ?n] by simp
  with step again recent show ?thesis by simp
qed

section \<open>The analysis of a text\<close>

lemma covered_step:
  assumes "tracked hash w" and "has_more_chunks_to_process w" and "2 \<le> window_threshold w"
    and "inj_on hash (windows_of (content_chunk_size w) (stream_content_history w))"
    and "covered hash w" and step: "is_loop_detected_for_chunk hash (current_chunk w) w = (Inr False, w')"
  shows "covered hash (next_index w')"
proof -
  have same: "stream_content_history w' = stream_content_history w" "last_content_index w' = last_content_index w"
    "content_chunk_size w' = content_chunk_size w" "window_threshold w' = window_threshold w"
    using step is_loop_frame [of hash "current_chunk w" w] by (simp_all add: window_threshold_def)
  then have "loop_at (next_index w') d i = loop_at w d i" for d i
    by (simp add: loop_at_def)
  moreover have "\<not> loop_at w d (last_content_index w)" for d
    using loop_found [OF assms(1,2,4) _ _ assms(3)] assms(5) step by (auto simp: covered_def)
  ultimately show ?thesis
    using recorded_step [OF assms(1,2,4) _ step] assms(5) same by (auto simp: covered_def less_Suc_eq)
qed

definition same_setup :: "window_detector \<Rightarrow> window_detector \<Rightarrow> bool" where
  "same_setup w w' \<longleftrightarrow> content_loop_threshold w' = content_loop_threshold w \<and> content_chunk_size w' = content_chunk_size w \<and>
     max_history_length w' = max_history_length w \<and> window_enabled w' = window_enabled w"

lemma same_setup_threshold: "same_setup w w' \<Longrightarrow> window_threshold w' = window_threshold w \<and> history_bound w' = history_bound w"
  by (simp add: same_setup_def window_threshold_def history_bound_def)

lemma same_setup_next [simp]: "same_setup (next_index w) w' = same_setup w w'"
  by (simp add: same_setup_def next_index_def)

lemma same_setup_trans: "same_setup w w1 \<Longrightarrow> same_setup w1 w2 \<Longrightarrow> same_setup w w2"
  by (simp add: same_setup_def)

definition analysed :: "window_detector \<Rightarrow> bool" where
  "analysed w \<longleftrightarrow> length (stream_content_history w) < last_content_index w + content_chunk_size w"

lemma analyze_result:
  assumes "tracked hash w" and "2 \<le> window_threshold w" and "analyze_content_chunks_for_loop hash w = (v, w')"
  shows "(v = Inr True \<and> close_repetition (content_chunk_size w) (window_threshold w) (stream_content_history w) \<or>
      v = Inr False \<and> tracked hash w' \<and> analysed w' \<and>
      (inj_on hash (windows_of (content_chunk_size w) (stream_content_history w)) \<longrightarrow> covered hash w \<longrightarrow> covered hash w')) \<and>
    stream_content_history w' = stream_content_history w \<and> same_setup w w' \<and> in_code_block w' = in_code_block w \<and>
    loop_detected w' = loop_detected w"
  using assms
proof (induction hash w arbitrary: v w' rule: analyze_content_chunks_for_loop.induct)
  case (1 hash w)
  show ?case
  proof (cases "has_more_chunks_to_process w")
    case False
    with "1.prems" show ?thesis
      by (simp add: analyze_content_chunks_for_loop.simps [of hash w] analysed_def has_more_chunks_to_process_def same_setup_def)
  next
    case True
    obtain v1 w1 where step: "is_loop_detected_for_chunk hash (current_chunk w) w = (v1, w1)" by fastforce
    have frame: "stream_content_history w1 = stream_content_history w" "same_setup w w1" "in_code_block w1 = in_code_block w"
      "loop_detected w1 = loop_detected w" "content_chunk_size w1 = content_chunk_size w" "window_threshold w1 = window_threshold w"
      using step is_loop_frame [of hash "current_chunk w" w] by (simp_all add: same_setup_def window_threshold_def)
    show ?thesis
    proof (cases "v1 = Inr False")
      case quiet: True
      then have rest: "analyze_content_chunks_for_loop hash (next_index w1) = (v, w')"
        using "1.prems"(3) True step by (simp add: analyze_content_chunks_for_loop.simps [of hash w] next_index_def)
      have "tracked hash (next_index w1)"
        by (rule tracked_step [OF "1.prems"(1) True step])
      note IH = "1.IH" [OF True step [symmetric] refl quiet, folded next_index_def, OF this _ rest]
      have "covered hash w \<Longrightarrow> inj_on hash (windows_of (content_chunk_size w) (stream_content_history w)) \<Longrightarrow>
          covered hash (next_index w1)"
        using covered_step [OF "1.prems"(1) True "1.prems"(2)] step quiet by blast
      with IH "1.prems"(2) frame same_setup_trans [OF frame(2)] show ?thesis by auto
    next
      case False
      then have "v = v1" "w' = w1"
        using "1.prems"(3) True step by (auto simp: analyze_content_chunks_for_loop.simps [of hash w])
      with step_verdict [OF "1.prems"(1) True "1.prems"(2) step] False frame show ?thesis by blast
    qed
  qed
qed

section \<open>New text\<close>

lemma tracked_append:
  assumes "tracked hash w"
  shows "tracked hash (w\<lparr>stream_content_history := stream_content_history w @ c\<rparr>)"
proof -
  let ?w = "w\<lparr>stream_content_history := stream_content_history w @ c\<rparr>"
  have fits: "i + content_chunk_size w \<le> length (stream_content_history w)" if "i < last_content_index w" for i
    using assms that by (simp add: tracked_def)
  have "bucket_ok hash ?w k js" if "content_stats w k = Some js" for k js
  proof -
    have "bucket_ok hash w k js" using assms that by (simp add: tracked_def)
    then show ?thesis unfolding bucket_ok_def by (auto simp: window_append fits)
  qed
  with fits show ?thesis by (fastforce simp: tracked_def)
qed

lemma covered_append:
  assumes ok: "tracked hash w" and cov: "covered hash w"
  shows "covered hash (w\<lparr>stream_content_history := stream_content_history w @ c\<rparr>)"
proof -
  let ?w = "w\<lparr>stream_content_history := stream_content_history w @ c\<rparr>"
  have fits: "i + content_chunk_size w \<le> length (stream_content_history w)" if "i < last_content_index w" for i
    using ok that by (simp add: tracked_def)
  have "recorded hash ?w"
    using cov by (auto simp: covered_def recorded_def window_append fits Let_def)
  moreover have "loop_at ?w d i = loop_at w d i" if "i < last_content_index w" for d i
  proof -
    have "window (content_chunk_size w) (i - k) (stream_content_history w @ c) =
        window (content_chunk_size w) (i - k) (stream_content_history w)" for k
      using fits [OF that] by (intro window_append) linarith
    then show ?thesis
      using window_append [OF fits [OF that]] by (simp add: loop_at_def window_threshold_def)
  qed
  ultimately show ?thesis using cov by (simp add: covered_def)
qed

lemma shift_indices_Some:
  "shift_indices m is = Some js \<longleftrightarrow> js = map (\<lambda>i. i - m) (filter (\<lambda>i. m \<le> i) is) \<and> js \<noteq> []"
  by (auto simp: shift_indices_def Let_def)

lemma shift_indices_member:
  assumes "m + i \<in> set is"
  shows "\<exists>js. shift_indices m is = Some js \<and> i \<in> set js"
proof -
  let ?js = "map (\<lambda>i. i - m) (filter (\<lambda>i. m \<le> i) is)"
  have "i \<in> set ?js"
    using assms by (auto intro: image_eqI [of _ _ "m + i"])
  then have "shift_indices m is = Some ?js"
    by (cases "?js = []") (simp_all add: shift_indices_def Let_def)
  with \<open>i \<in> set ?js\<close> show ?thesis by blast
qed

lemma tracked_truncate:
  assumes "tracked hash w"
  shows "tracked hash (truncate_and_update w)"
proof (cases "length (stream_content_history w) \<le> history_bound w")
  case False
  define m where "m = length (stream_content_history w) - history_bound w"
  let ?w = "truncate_and_update w" let ?n = "content_chunk_size w"
  have w: "stream_content_history ?w = drop m (stream_content_history w)" "last_content_index ?w = last_content_index w - m"
    "content_stats ?w = (\<lambda>k. Option.bind (content_stats w k) (shift_indices m))" "content_chunk_size ?w = ?n"
    using False by (simp_all add: truncate_and_update_def m_def Let_def)
  have "bucket_ok hash ?w k js" if stats: "content_stats ?w k = Some js" for k js
  proof -
    obtain ks where ks: "content_stats w k = Some ks" "js = map (\<lambda>i. i - m) (filter (\<lambda>i. m \<le> i) ks)" "js \<noteq> []"
      using stats by (auto simp: w bind_eq_Some_conv shift_indices_Some)
    obtain c where c: "hash c = k" "mostly_letters c" "sorted_wrt (<) ks"
      "\<forall>i \<in> set ks. i < last_content_index w \<and> window ?n i (stream_content_history w) = c"
      using assms ks(1) unfolding tracked_def bucket_ok_def by blast
    have "sorted_wrt (\<lambda>i j. i - m < j - m) (filter (\<lambda>i. m \<le> i) ks)"
      by (rule sorted_wrt_mono_rel [OF _ sorted_wrt_filter [OF c(3)]]) auto
    then have "sorted_wrt (<) js" by (simp add: ks(2) sorted_wrt_map)
    moreover have "\<forall>i \<in> set js. i < last_content_index w - m \<and> window ?n i (drop m (stream_content_history w)) = c"
      using c(4) by (auto simp: ks(2) window_drop)
    ultimately show ?thesis
      using ks(3) c(1,2) unfolding bucket_ok_def w by blast
  qed
  moreover have "i + ?n \<le> length (drop m (stream_content_history w))" if "i < last_content_index w - m" for i
  proof -
    have "i + m < last_content_index w" using that by linarith
    then have "i + m + ?n \<le> length (stream_content_history w)" using assms by (simp add: tracked_def)
    then show ?thesis by simp
  qed
  ultimately show ?thesis unfolding tracked_def w by blast
qed (use assms in \<open>simp add: truncate_and_update_def\<close>)

lemma covered_truncate:
  assumes cov: "covered hash w"
  shows "covered hash (truncate_and_update w)"
proof (cases "length (stream_content_history w) \<le> history_bound w")
  case False
  define m where "m = length (stream_content_history w) - history_bound w"
  let ?w = "truncate_and_update w" let ?n = "content_chunk_size w"
  have w: "stream_content_history ?w = drop m (stream_content_history w)" "last_content_index ?w = last_content_index w - m"
    "content_stats ?w = (\<lambda>k. Option.bind (content_stats w k) (shift_indices m))" "content_chunk_size ?w = ?n"
    "window_threshold ?w = window_threshold w"
    using False by (simp_all add: truncate_and_update_def m_def Let_def window_threshold_def)
  have "recorded hash ?w"
    unfolding recorded_def w Let_def
  proof (intro allI impI)
    fix i
    assume i: "i < last_content_index w - m" "mostly_letters (window ?n i (drop m (stream_content_history w)))"
    then obtain js where "content_stats w (hash (window ?n (m + i) (stream_content_history w))) = Some js" "m + i \<in> set js"
      using cov unfolding covered_def recorded_def Let_def by (metis add.commute less_diff_conv window_drop)
    then show "\<exists>js. Option.bind (content_stats w (hash (window ?n i (drop m (stream_content_history w))))) (shift_indices m) =
        Some js \<and> i \<in> set js"
      using shift_indices_member by (simp add: window_drop)
  qed
  moreover have "loop_at w d (m + i)" if "loop_at ?w d i" for d i
  proof -
    have "window ?n (m + i - j * d) (stream_content_history w) = window ?n (i - j * d) (drop m (stream_content_history w))"
      if "j < window_threshold w" for j
    proof -
      have "j \<le> window_threshold w - 1" using that by linarith
      then have "j * d \<le> i"
        using \<open>loop_at ?w d i\<close> le_trans [OF mult_le_mono1] by (auto simp: loop_at_def w)
      then show ?thesis by (simp add: window_drop)
    qed
    with that show ?thesis by (simp add: loop_at_def w window_drop)
  qed
  ultimately show ?thesis
    using cov unfolding covered_def w by (metis add.commute less_diff_conv)
qed (use assms in \<open>simp add: truncate_and_update_def\<close>)

section \<open>A piece of text\<close>

definition window_ok :: "(string \<Rightarrow> int) \<Rightarrow> window_detector \<Rightarrow> string \<Rightarrow> bool" where
  "window_ok hash w t \<longleftrightarrow> 1 \<le> content_chunk_size w \<and> 2 \<le> window_threshold w \<and> window_enabled w \<and> \<not> loop_detected w \<and>
     suffix (stream_content_history w) t \<and> length (stream_content_history w) \<le> history_bound w \<and> tracked hash w \<and> analysed w \<and>
     (in_code_block w \<longrightarrow> stream_content_history w = [])"

definition plain_piece :: "string \<Rightarrow> bool" where
  "plain_piece c \<longleftrightarrow> fences c = 0 \<and> \<not> is_divider c"

text \<open>What the check of a piece leaves when it finds no loop.\<close>

definition quiet_after :: "(string \<Rightarrow> int) \<Rightarrow> string \<Rightarrow> string \<Rightarrow> window_detector \<Rightarrow> window_detector \<Rightarrow> bool" where
  "quiet_after hash t c w w' \<longleftrightarrow> window_ok hash w' (t @ c) \<and> same_setup w w' \<and>
     (inj_on hash (windows_of (content_chunk_size w) (t @ c)) \<longrightarrow> covered hash w \<longrightarrow> covered hash w') \<and>
     (plain_piece c \<and> \<not> in_code_block w \<longrightarrow> \<not> in_code_block w' \<and>
        stream_content_history w' = last_chars (history_bound w) (stream_content_history w @ c))"

lemma truncate_frame:
  "stream_content_history (truncate_and_update w) = last_chars (history_bound w) (stream_content_history w)"
  "same_setup w (truncate_and_update w)" "in_code_block (truncate_and_update w) = in_code_block w"
  "loop_detected (truncate_and_update w) = loop_detected w"
  by (simp_all add: truncate_and_update_def last_chars_def same_setup_def Let_def)

lemma empty_tracked: "content_stats w = (\<lambda>_. None) \<Longrightarrow> last_content_index w = 0 \<Longrightarrow> tracked hash w \<and> covered hash w"
  by (simp add: tracked_def covered_def recorded_def)

lemma analyze_piece:
  assumes "tracked hash w" and cov: "covered hash w0 \<longrightarrow> covered hash w" and "same_setup w0 w" and "\<not> loop_detected w"
    and ok: "1 \<le> content_chunk_size w" "2 \<le> window_threshold w" "window_enabled w" and "suffix (stream_content_history w) t"
    and "analyze_content_chunks_for_loop hash (truncate_and_update (w\<lparr>stream_content_history := stream_content_history w @ c\<rparr>)) = (v, w')"
    and clean: "\<not> in_code_block w"
  shows "v = Inr True \<and> same_setup w0 w' \<and> close_repetition (content_chunk_size w) (window_threshold w) (t @ c) \<or>
    v = Inr False \<and> window_ok hash w' (t @ c) \<and> same_setup w0 w' \<and> \<not> in_code_block w' \<and>
    (inj_on hash (windows_of (content_chunk_size w) (t @ c)) \<longrightarrow> covered hash w0 \<longrightarrow> covered hash w') \<and>
    stream_content_history w' = last_chars (history_bound w) (stream_content_history w @ c)"
proof -
  let ?a = "w\<lparr>stream_content_history := stream_content_history w @ c\<rparr>" let ?b = "truncate_and_update ?a"
  have bound: "history_bound ?a = history_bound w" "same_setup w ?a"
    by (simp_all add: history_bound_def same_setup_def)
  have setups: "same_setup w ?b"
    using same_setup_trans [OF bound(2) truncate_frame(2)] .
  have history: "stream_content_history ?b = last_chars (history_bound w) (stream_content_history w @ c)"
    by (simp add: truncate_frame bound)
  have suff: "suffix (stream_content_history ?b) (t @ c)"
    unfolding history using assms(8) suffix_last_chars same_suffix_suffix by (metis suffix_order.trans)
  have "tracked hash ?b"
    by (intro tracked_truncate tracked_append assms(1))
  moreover have "2 \<le> window_threshold ?b" "content_chunk_size ?b = content_chunk_size w" "window_threshold ?b = window_threshold w"
    using same_setup_threshold [OF setups] ok setups by (simp_all add: same_setup_def)
  ultimately have result: "(v = Inr True \<and> close_repetition (content_chunk_size w) (window_threshold w) (stream_content_history ?b) \<or>
      v = Inr False \<and> tracked hash w' \<and> analysed w' \<and>
      (inj_on hash (windows_of (content_chunk_size w) (stream_content_history ?b)) \<longrightarrow> covered hash ?b \<longrightarrow> covered hash w')) \<and>
      stream_content_history w' = stream_content_history ?b \<and> same_setup ?b w' \<and> in_code_block w' = in_code_block ?b \<and>
      loop_detected w' = loop_detected ?b"
    using analyze_result [OF _ _ assms(9)] by simp
  have all: "same_setup w w'" "same_setup w0 w'"
    using same_setup_trans [OF setups] same_setup_trans [OF assms(3)] result by blast+
  have covered: "covered hash w \<Longrightarrow> covered hash ?b"
    by (intro covered_truncate covered_append assms(1))
  have inj: "inj_on hash (windows_of (content_chunk_size w) (t @ c)) \<Longrightarrow>
      inj_on hash (windows_of (content_chunk_size w) (stream_content_history ?b))"
    by (rule inj_on_subset [OF _ windows_suffix [OF suff]])
  have flags: "\<not> in_code_block ?b" "\<not> loop_detected ?b" using clean assms(4) by (simp_all add: truncate_frame)
  consider (loop) "v = Inr True" "close_repetition (content_chunk_size w) (window_threshold w) (stream_content_history ?b)"
    | (none) "v = Inr False" "tracked hash w'" "analysed w'"
      "inj_on hash (windows_of (content_chunk_size w) (stream_content_history ?b)) \<longrightarrow> covered hash ?b \<longrightarrow> covered hash w'"
    using result by blast
  then show ?thesis
  proof cases
    case loop
    then show ?thesis using close_repetition_suffix [OF loop(2) suff] ok all(2) by simp
  next
    case none
    have "window_ok hash w' (t @ c)"
      using none result flags suff all(1) ok same_setup_threshold [OF all(1)] history
      by (simp add: window_ok_def same_setup_def)
    with none result flags all cov covered inj history show ?thesis by auto
  qed
qed

lemma check_result:
  assumes ok: "window_ok hash w t" and "check_content_loop hash c w = (v, w')"
  shows "v = Inr True \<and> same_setup w w' \<and> close_repetition (content_chunk_size w) (window_threshold w) (t @ c) \<or>
    v = Inr False \<and> quiet_after hash t c w w'"
proof -
  define w1 where "w1 = (if fences c \<noteq> 0 \<or> is_divider c then (reset_content_tracking w)\<lparr>loop_detected := False\<rparr> else w)"
  define w2 where "w2 = w1\<lparr>in_code_block := (if fences c mod 2 = 1 then \<not> in_code_block w1 else in_code_block w1)\<rparr>"
  have check: "(if in_code_block w1 \<or> in_code_block w2 \<or> is_divider c then (Inr False, w2)
      else analyze_content_chunks_for_loop hash (truncate_and_update (w2\<lparr>stream_content_history := stream_content_history w2 @ c\<rparr>))) = (v, w')"
    using assms(2) unfolding check_content_loop_def w2_def w1_def Let_def .
  have plain: "w2 = w" if "plain_piece c"
    using that by (simp add: plain_piece_def w2_def w1_def)
  have setups: "same_setup w w2"
    by (simp add: same_setup_def w2_def w1_def reset_content_tracking_def)
  have w2: "suffix (stream_content_history w2) t" "length (stream_content_history w2) \<le> history_bound w2" "tracked hash w2" "analysed w2"
    "covered hash w \<longrightarrow> covered hash w2" "\<not> loop_detected w2" "window_threshold w2 = window_threshold w"
    "content_chunk_size w2 = content_chunk_size w" "window_enabled w2"
  proof -
    show "suffix (stream_content_history w2) t" "length (stream_content_history w2) \<le> history_bound w2" "analysed w2" "\<not> loop_detected w2"
      "window_enabled w2" "window_threshold w2 = window_threshold w" "content_chunk_size w2 = content_chunk_size w"
      using ok by (auto simp: w2_def w1_def reset_content_tracking_def window_ok_def history_bound_def analysed_def window_threshold_def)
    have "tracked hash w2 \<and> (covered hash w \<longrightarrow> covered hash w2)"
    proof (cases "fences c \<noteq> 0 \<or> is_divider c")
      case True
      then show ?thesis by (intro conjI impI empty_tracked [THEN conjunct1] empty_tracked [THEN conjunct2])
        (simp_all add: w2_def w1_def reset_content_tracking_def)
    next
      case False
      then show ?thesis using plain ok by (simp add: plain_piece_def window_ok_def)
    qed
    then show "tracked hash w2" "covered hash w \<longrightarrow> covered hash w2" by simp_all
  qed
  show ?thesis
  proof (cases "in_code_block w1 \<or> in_code_block w2 \<or> is_divider c")
    case True
    then have "stream_content_history w2 = []"
      using ok by (auto simp: w2_def w1_def reset_content_tracking_def window_ok_def split: if_splits)
    then have "window_ok hash w2 (t @ c)"
      using w2 ok by (simp add: window_ok_def)
    moreover have "v = Inr False" "w' = w2" using check True by auto
    moreover have "\<not> (plain_piece c \<and> \<not> in_code_block w)"
      using True plain by (auto simp: plain_piece_def w1_def split: if_splits)
    ultimately show ?thesis
      using setups w2(5) by (auto simp: quiet_after_def)
  next
    case False
    then have "analyze_content_chunks_for_loop hash (truncate_and_update (w2\<lparr>stream_content_history := stream_content_history w2 @ c\<rparr>)) = (v, w')"
      using check by simp
    with analyze_piece [OF w2(3,5) setups w2(6), of t c v w'] w2 ok False plain show ?thesis
      by (auto simp: quiet_after_def window_ok_def)
  qed
qed

section \<open>Streams\<close>

fun window_run ::
  "(string \<Rightarrow> int) \<Rightarrow> real \<Rightarrow> string list \<Rightarrow> window_detector \<Rightarrow>
   (loop_exn + LoopDetectionEvent option) list \<times> window_detector" where
  "window_run hash now [] w = ([], w)"
| "window_run hash now (c # cs) w =
     (let (r, w1) = window_process_chunk hash now c w; (rs, w2) = window_run hash now cs w1 in (r # rs, w2))"

lemma process_result:
  assumes ok: "window_ok hash w t" and step: "window_process_chunk hash now c w = (r, w')"
  shows "(\<exists>ev. r = Inr (Some ev) \<and> ev_pattern_length ev = content_chunk_size w \<and> ev_repetition_count ev = window_threshold w \<and>
      close_repetition (content_chunk_size w) (window_threshold w) (t @ c)) \<or>
    r = Inr None \<and> quiet_after hash t c w w'"
proof (cases "c = []")
  case True
  then have "r = Inr None" "w' = w"
    using step by (simp_all add: window_process_chunk_def)
  moreover have "last_chars (history_bound w) (stream_content_history w) = stream_content_history w"
    using ok by (simp add: window_ok_def last_chars_def)
  ultimately show ?thesis
    using ok True by (simp add: quiet_after_def same_setup_def)
next
  case False
  obtain v w1 where check: "check_content_loop hash c w = (v, w1)" by fastforce
  have go: "\<not> (loop_detected w \<or> \<not> window_enabled w \<or> c = [])"
    using ok False by (simp add: window_ok_def)
  from check_result [OF ok check] show ?thesis
  proof
    assume loop: "v = Inr True \<and> same_setup w w1 \<and> close_repetition (content_chunk_size w) (window_threshold w) (t @ c)"
    then have "r = Inr (Some (window_event now w1))"
      using check go step by (simp add: window_process_chunk_def)
    with loop same_setup_threshold [of w w1] show ?thesis
      by (simp add: window_event_def same_setup_def)
  next
    assume none: "v = Inr False \<and> quiet_after hash t c w w1"
    then have "w1\<lparr>loop_detected := False\<rparr> = w1"
      by (simp add: quiet_after_def window_ok_def)
    with none check go step show ?thesis
      by (simp add: window_process_chunk_def)
  qed
qed

lemma window_run_length: "length (fst (window_run hash now cs w)) = length cs"
  by (induction cs arbitrary: w) (simp_all split: prod.splits, metis fst_conv)

lemma window_run_append:
  "window_run hash now (as @ bs) w =
     (let (rs, w1) = window_run hash now as w; (qs, w2) = window_run hash now bs w1 in (rs @ qs, w2))"
  by (induction as arbitrary: w) (auto simp: Let_def split: prod.splits)

definition no_event :: "(loop_exn + LoopDetectionEvent option) list \<Rightarrow> bool" where
  "no_event rs \<longleftrightarrow> (\<forall>ev. Inr (Some ev) \<notin> set rs)"

lemma windows_prefix: "windows_of n s \<subseteq> windows_of n (s @ t)"
proof
  fix c
  assume "c \<in> windows_of n s"
  then obtain i where "c = window n i s" "i + n \<le> length s" by (auto simp: windows_of_def)
  then have "c = window n i (s @ t)" "i + n \<le> length (s @ t)" by (simp_all add: window_append)
  then show "c \<in> windows_of n (s @ t)" unfolding windows_of_def by blast
qed

lemma last_chars_last_chars: "last_chars b (last_chars b x @ y) = last_chars b (x @ y)"
  by (cases "length x \<le> b") (simp_all add: last_chars_def add.commute)

text \<open>A run without an event.\<close>

lemma quiet_window_run:
  assumes "window_ok hash w t" and "window_run hash now cs w = (rs, w')" and "no_event rs"
  shows "window_ok hash w' (t @ concat cs) \<and> same_setup w w' \<and>
    (inj_on hash (windows_of (content_chunk_size w) (t @ concat cs)) \<longrightarrow> covered hash w \<longrightarrow> covered hash w') \<and>
    (list_all plain_piece cs \<and> \<not> in_code_block w \<longrightarrow> \<not> in_code_block w' \<and>
       stream_content_history w' = last_chars (history_bound w) (stream_content_history w @ concat cs))"
  using assms
proof (induction cs arbitrary: w t rs)
  case Nil
  then show ?case by (simp add: same_setup_def window_ok_def last_chars_def)
next
  case (Cons c cs)
  obtain r w1 qs where run: "window_process_chunk hash now c w = (r, w1)" "window_run hash now cs w1 = (qs, w')" "rs = r # qs"
    using Cons.prems(2) by (auto split: prod.splits)
  have quiet: "quiet_after hash t c w w1"
    using process_result [OF Cons.prems(1) run(1)] Cons.prems(3) run(3) by (auto simp: no_event_def)
  have "window_ok hash w1 (t @ c)" and size: "content_chunk_size w1 = content_chunk_size w" "history_bound w1 = history_bound w"
    using quiet same_setup_threshold [of w w1] by (auto simp: quiet_after_def same_setup_def)
  note IH = Cons.IH [OF this(1) run(2)]
  have "no_event qs" using Cons.prems(3) run(3) by (simp add: no_event_def)
  note IH = IH [OF this]
  have inj: "inj_on hash (windows_of (content_chunk_size w) (t @ c))"
    if "inj_on hash (windows_of (content_chunk_size w) (t @ c @ concat cs))"
    using inj_on_subset [OF that] windows_prefix [of _ "t @ c" "concat cs"] by simp
  have setups: "same_setup w w'"
    using IH quiet same_setup_trans by (auto simp: quiet_after_def)
  show ?case
    using IH quiet setups inj size by (auto simp: quiet_after_def last_chars_last_chars)
qed

lemma fresh_window_ok:
  assumes "2 \<le> t" and "1 \<le> n"
  shows "window_ok hash (mk_window_detector t n h) [] \<and> covered hash (mk_window_detector t n h)"
  using assms empty_tracked [of "mk_window_detector t n h" hash]
  by (simp add: window_ok_def mk_window_detector_def window_threshold_def analysed_def)

lemma last_chars_take:
  assumes "l \<le> length y" and "l \<le> b"
  shows "last_chars l (last_chars b (x @ y)) = last_chars l y"
  using assms by (simp add: last_chars_def)

text \<open>The end of a text that repeats itself closes a loop.\<close>

lemma periodic_loop_at:
  assumes "periodic d u" and "1 \<le> d" "2 * d \<le> 3 * content_chunk_size w" and "\<forall>c \<in> windows_of (content_chunk_size w) u. mostly_letters c"
    and "(window_threshold w - 1) * d + content_chunk_size w = length u"
    and "last_chars (length u) (stream_content_history w) = u" and "length u \<le> length (stream_content_history w)"
  shows "loop_at w d (length (stream_content_history w) - content_chunk_size w)"
proof -
  let ?n = "content_chunk_size w" let ?s = "stream_content_history w" let ?t = "window_threshold w"
  define m where "m = length ?s - length u"
  have u: "drop m ?s = u" using assms(6) by (simp add: last_chars_def m_def)
  have at: "length ?s - ?n = m + (?t - 1) * d"
    using assms(5,7) by (simp add: m_def)
  have windows: "window ?n (m + k * d) ?s = window ?n 0 u" if "k \<le> ?t - 1" for k
  proof -
    have "k * d \<le> (?t - 1) * d" using that by (rule mult_le_mono1)
    then have "0 + k * d + ?n \<le> length u" using assms(5) by linarith
    from periodic_window [OF periodic_multiple [OF assms(1)] this] show ?thesis
      using window_drop [of ?n "k * d" m ?s] u by simp
  qed
  have "window ?n (m + (?t - 1) * d - j * d) ?s = window ?n 0 u" if "j < ?t" for j
  proof -
    have "j \<le> ?t - 1" using that by linarith
    then have "j * d \<le> (?t - 1) * d" by (rule mult_le_mono1)
    then have "m + (?t - 1) * d - j * d = m + ((?t - 1) * d - j * d)" by linarith
    also have "\<dots> = m + (?t - 1 - j) * d" by (simp only: diff_mult_distrib)
    finally have "m + (?t - 1) * d - j * d = m + (?t - 1 - j) * d" .
    then show ?thesis using windows [of "?t - 1 - j"] by simp
  qed
  moreover have "mostly_letters (window ?n 0 u)"
    using assms(4,5) window_in_windows [of 0 ?n u] by simp
  ultimately show ?thesis
    unfolding loop_at_def at using assms(2,3) windows [of "?t - 1"] by simp
qed

lemma detected_stays: "loop_detected w \<Longrightarrow> no_event (fst (window_run hash now cs w))"
proof (induction cs)
  case (Cons c cs)
  then show ?case by (cases "window_run hash now cs w") (simp add: window_process_chunk_def no_event_def)
qed (simp add: no_event_def)

lemma event_detected: "window_process_chunk hash now c w = (Inr (Some ev), w') \<Longrightarrow> loop_detected w'"
  by (auto simp: window_process_chunk_def split: if_splits prod.splits sum.splits bool.splits)

lemma run_event_sound:
  assumes "window_ok hash w t" and "i < length cs" and "fst (window_run hash now cs w) ! i = Inr (Some ev)"
  shows "close_repetition (content_chunk_size w) (window_threshold w) (t @ concat (take (Suc i) cs)) \<and>
    ev_pattern_length ev = content_chunk_size w \<and> ev_repetition_count ev = window_threshold w"
  using assms
proof (induction cs arbitrary: w t i)
  case (Cons c cs)
  obtain r w1 where step: "window_process_chunk hash now c w = (r, w1)" by fastforce
  then have results: "fst (window_run hash now (c # cs) w) = r # fst (window_run hash now cs w1)"
    by (simp split: prod.splits)
  show ?case
  proof (cases i)
    case 0
    with Cons.prems(3) results have "r = Inr (Some ev)" by simp
    with process_result [OF Cons.prems(1) step] 0 show ?thesis by auto
  next
    case (Suc j)
    then have later: "fst (window_run hash now cs w1) ! j = Inr (Some ev)" "j < length cs"
      using Cons.prems(2,3) results by simp_all
    have "length (fst (window_run hash now cs w1)) = length cs"
      by (rule window_run_length)
    then have "\<not> loop_detected w1"
      using detected_stays [of w1 hash now cs] later nth_mem [of j "fst (window_run hash now cs w1)"]
      by (auto simp: no_event_def)
    then have quiet: "quiet_after hash t c w w1"
      using process_result [OF Cons.prems(1) step] step event_detected by blast
    then have "window_ok hash w1 (t @ c)" "content_chunk_size w1 = content_chunk_size w" "window_threshold w1 = window_threshold w"
      using same_setup_threshold [of w w1] by (auto simp: quiet_after_def same_setup_def)
    with Cons.IH [of w1 "t @ c" j] later Suc show ?thesis by simp
  qed
qed simp

text \<open>
  The sliding window raises no false alarm: whatever the hash function does, when it reports a loop,
  the text received so far (all pieces up to this one, put together) contains a window of the configured
  size, made up of letters for at least one half, at as many positions as the threshold says, the last
  one not farther from the first than one and a half window sizes per repetition.
\<close>

lemma window_event_sound:
  assumes "2 \<le> t" and "1 \<le> n" and "i < length cs"
    and "fst (window_run hash now cs (mk_window_detector t n h)) ! i = Inr (Some ev)"
  shows "close_repetition n t (concat (take (Suc i) cs)) \<and> ev_pattern_length ev = n \<and> ev_repetition_count ev = t"
proof -
  have "window_ok hash (mk_window_detector t n h) []"
    using fresh_window_ok [OF assms(1,2)] by simp
  from run_event_sound [OF this assms(3,4)] assms(1) show ?thesis
    by (simp add: mk_window_detector_def window_threshold_def)
qed

text \<open>
  C35. The sliding window does not miss a loop: if the last pieces of a stream repeat themselves with a
  period of at most one and a half window sizes, for as long as the threshold asks, then a loop has been
  reported, wherever the stream is cut into pieces and whatever came before. This is for text whose windows are letters for
  at least one half (repeated digits or tables are never reported), pieces without fences and dividers, a stream that is not
  in a code block, a history that holds the repetitions, a threshold of 2 or more, and a hash that keeps the windows of
  the stream apart.
\<close>

theorem window_detects_repetition:
  assumes "2 \<le> t" and "1 \<le> n" and "\<not> in_code_block (snd (window_run hash now js (mk_window_detector t n h)))"
    and "list_all plain_piece cs" and "periodic d (concat cs)" and "1 \<le> d" "2 * d \<le> 3 * n"
    and "\<forall>c \<in> windows_of n (concat cs). mostly_letters c"
    and "(t - 1) * d + n \<le> length (concat cs)" and "(t - 1) * d + n \<le> h"
    and "inj_on hash (windows_of n (concat (js @ cs)))"
  shows "\<exists>ev. Inr (Some ev) \<in> set (fst (window_run hash now (js @ cs) (mk_window_detector t n h)))"
proof (rule ccontr)
  let ?w = "mk_window_detector t n h" let ?l = "(t - 1) * d + n"
  obtain rs w1 where run1: "window_run hash now js ?w = (rs, w1)" by fastforce
  obtain qs w2 where run2: "window_run hash now cs w1 = (qs, w2)" by fastforce
  assume "\<not> ?thesis"
  then have none: "no_event rs" "no_event qs"
    using run1 run2 by (auto simp: window_run_append no_event_def)
  have fresh: "window_ok hash ?w []" "covered hash ?w"
    using fresh_window_ok [OF assms(1,2)] by simp_all
  have w: "content_chunk_size ?w = n" "window_threshold ?w = t" "history_bound ?w = h"
    using assms(1,2,10) by (auto simp: mk_window_detector_def window_threshold_def history_bound_def)
  note q1 = quiet_window_run [OF fresh(1) run1 none(1), simplified]
  note q2 = quiet_window_run [OF q1 [THEN conjunct1] run2 none(2), simplified]
  have same: "content_chunk_size w1 = n" "window_threshold w1 = t" "history_bound w1 = h"
    "content_chunk_size w2 = n" "window_threshold w2 = t"
    using q1 q2 w same_setup_threshold [of ?w w1] same_setup_threshold [of w1 w2] by (auto simp: same_setup_def)
  have "inj_on hash (windows_of n (concat js))"
    by (rule inj_on_subset [OF assms(11)]) (simp add: windows_prefix)
  then have cov: "covered hash w2"
    using q1 q2 fresh(2) assms(11) w same by simp
  have history: "stream_content_history w2 = last_chars h (stream_content_history w1 @ concat cs)"
    using q2 assms(3,4) run1 same by simp
  define u where "u = last_chars ?l (concat cs)"
  have u: "length u = ?l" "periodic d u"
    using assms(9) periodic_drop [OF assms(5)] by (simp_all add: u_def last_chars_def)
  have suffix_u: "last_chars (length u) (stream_content_history w2) = u"
    using last_chars_take [OF assms(9,10)] unfolding u(1) history by (simp only: u_def)
  have long: "length u \<le> length (stream_content_history w2)"
    using assms(9,10) by (simp add: history u(1))
  have "windows_of n u \<subseteq> windows_of n (concat cs)"
    unfolding u_def by (intro windows_suffix suffix_last_chars)
  then have "loop_at w2 d (length (stream_content_history w2) - content_chunk_size w2)"
    using assms(6-8) u long suffix_u same by (intro periodic_loop_at [of _ u]) auto
  moreover have "length (stream_content_history w2) - content_chunk_size w2 < last_content_index w2"
  proof -
    have "length (stream_content_history w2) < last_content_index w2 + n"
      using q2 same by (simp add: window_ok_def analysed_def)
    then show ?thesis using long u(1) same(4) by linarith
  qed
  ultimately show False
    using cov unfolding covered_def by blast
qed

end
