(* ===== verification/Loop_Theorems.thy ===== *)
theory Loop_Theorems
  imports Loop_Hybrid Loop_Window_Theorems
begin

text \<open>
  What the loop detector of the proxy promises: the first loop it reports is a repetition in the text;
  every stream that gets stuck in a loop is reported after a bounded amount of text, whatever came
  before and however the text is cut into pieces; and the check of a whole text finds every text that is
  a repetition.
\<close>

section \<open>Streams\<close>

fun hybrid_run ::
  "(string \<Rightarrow> int) \<Rightarrow> real \<Rightarrow> string list \<Rightarrow> hybrid_detector \<Rightarrow>
   (loop_exn + LoopDetectionEvent option) list \<times> hybrid_detector" where
  "hybrid_run hash now [] d = ([], d)"
| "hybrid_run hash now (c # cs) d =
     (let (r, d1) = hybrid_process_chunk hash now c d; (rs, d2) = hybrid_run hash now cs d1 in (r # rs, d2))"

lemma keep_event_detectors [simp]:
  "short_detector (keep_event ev d) = short_detector d" "long_detector (keep_event ev d) = long_detector d"
  "hybrid_enabled (keep_event ev d) = hybrid_enabled d"
  by (simp_all add: keep_event_def truncate_event_history_def)

section \<open>The short detector raises no exception\<close>

lemma analyze_no_exn:
  "window_threshold w \<noteq> 1 \<Longrightarrow> \<exists>b. fst (analyze_content_chunks_for_loop hash w) = Inr b \<and>
     same_setup w (snd (analyze_content_chunks_for_loop hash w))"
proof (induction hash w rule: analyze_content_chunks_for_loop.induct)
  case (1 hash w)
  obtain v w1 where step: "is_loop_detected_for_chunk hash (current_chunk w) w = (v, w1)" by fastforce
  have same: "same_setup w w1" "window_threshold w1 = window_threshold w"
    using step is_loop_frame [of hash "current_chunk w" w] by (simp_all add: same_setup_def window_threshold_def)
  have v: "\<exists>b. v = Inr b"
    using step by (cases rule: is_loop_cases) (use "1.prems" in \<open>auto simp: close_together_def Let_def\<close>)
  show ?case
  proof (cases "has_more_chunks_to_process w \<and> v = Inr False")
    case True
    then have "analyze_content_chunks_for_loop hash w = analyze_content_chunks_for_loop hash (next_index w1)"
      using step by (simp add: analyze_content_chunks_for_loop.simps [of hash w] next_index_def)
    moreover have "window_threshold (next_index w1) \<noteq> 1"
      using "1.prems" same(2) by simp
    ultimately show ?thesis
      using "1.IH" [OF _ step [symmetric] refl] True same_setup_trans [OF same(1)]
      unfolding next_index_def [symmetric] by auto
  next
    case False
    then show ?thesis
      using step v same by (auto simp: analyze_content_chunks_for_loop.simps [of hash w] same_setup_def)
  qed
qed

lemma check_no_exn:
  assumes "window_threshold w \<noteq> 1"
  shows "\<exists>b w'. check_content_loop hash c w = (Inr b, w') \<and> same_setup w w'"
proof -
  define w1 where "w1 = (if fences c \<noteq> 0 \<or> is_divider c then (reset_content_tracking w)\<lparr>loop_detected := False\<rparr> else w)"
  define w2 where "w2 = w1\<lparr>in_code_block := (if fences c mod 2 = 1 then \<not> in_code_block w1 else in_code_block w1)\<rparr>"
  let ?a = "truncate_and_update (w2\<lparr>stream_content_history := stream_content_history w2 @ c\<rparr>)"
  have w2: "same_setup w w2"
    by (simp add: same_setup_def w2_def w1_def reset_content_tracking_def)
  have "same_setup w2 (w2\<lparr>stream_content_history := stream_content_history w2 @ c\<rparr>)"
    by (simp add: same_setup_def)
  then have a: "same_setup w ?a"
    using same_setup_trans [OF w2] same_setup_trans truncate_frame(2) by blast
  then have "window_threshold ?a \<noteq> 1" using same_setup_threshold assms by simp
  from analyze_no_exn [OF this, of hash] obtain b w3 where
    "analyze_content_chunks_for_loop hash ?a = (Inr b, w3)" "same_setup ?a w3"
    by (metis prod.collapse)
  moreover have "check_content_loop hash c w =
      (if in_code_block w1 \<or> in_code_block w2 \<or> is_divider c then (Inr False, w2) else analyze_content_chunks_for_loop hash ?a)"
    unfolding check_content_loop_def w2_def w1_def Let_def ..
  ultimately show ?thesis
    using w2 same_setup_trans [OF a] by auto
qed

lemma process_no_exn:
  assumes "window_threshold w \<noteq> 1"
  shows "\<exists>r w'. window_process_chunk hash now c w = (Inr r, w') \<and> same_setup w w'"
proof -
  obtain b w' where "check_content_loop hash c w = (Inr b, w')" "same_setup w w'"
    using check_no_exn [OF assms] by blast
  then show ?thesis
    by (cases b) (auto simp: window_process_chunk_def same_setup_def)
qed

section \<open>Every loop is reported\<close>

definition hybrid_ready :: "hybrid_detector \<Rightarrow> bool" where
  "hybrid_ready d \<longleftrightarrow> hybrid_enabled d \<and> window_threshold (short_detector d) \<noteq> 1 \<and> (\<exists>t. rolling_ok (long_detector d) t)"

definition same_rolling :: "rolling_tracker \<Rightarrow> rolling_tracker \<Rightarrow> bool" where
  "same_rolling tr tr' \<longleftrightarrow> max_history tr' = max_history tr \<and> min_pattern_length tr' = min_pattern_length tr \<and>
     max_pattern_length tr' = max_pattern_length tr \<and> min_repetitions tr' = min_repetitions tr"

text \<open>A piece leads to an event, or the long detector has taken it without a match.\<close>

lemma hybrid_step:
  assumes "hybrid_ready d" and "hybrid_process_chunk hash now c d = (r, d')"
  shows "hybrid_ready d' \<and> same_rolling (long_detector d) (long_detector d') \<and>
    ((\<exists>ev. r = Inr (Some ev)) \<or> r = Inr None \<and> add_content c (long_detector d) = (None, long_detector d'))"
proof (cases "c = []")
  case True
  with assms show ?thesis
    by (auto simp: hybrid_process_chunk_def add_content_def same_rolling_def)
next
  case False
  obtain q w where short: "window_process_chunk hash now c (short_detector d) = (Inr q, w)" "same_setup (short_detector d) w"
    using process_no_exn assms(1) unfolding hybrid_ready_def by blast
  have w: "window_threshold w \<noteq> 1"
    using same_setup_threshold [OF short(2)] assms(1) by (simp add: hybrid_ready_def)
  obtain t where t: "rolling_ok (long_detector d) t"
    using assms(1) by (auto simp: hybrid_ready_def)
  obtain m tr where long: "add_content c (long_detector d) = (m, tr)" by fastforce
  have tr: "rolling_ok tr (t @ c)" "same_rolling (long_detector d) tr"
    using rolling_ok_add [OF t long] add_content_config [OF long] by (simp_all add: same_rolling_def)
  show ?thesis
    using assms False short(1) long w t tr
    by (cases q; cases m) (auto simp: hybrid_process_chunk_def hybrid_ready_def same_rolling_def Let_def)
qed

lemma hybrid_run_ready:
  "hybrid_ready d \<Longrightarrow> hybrid_ready (snd (hybrid_run hash now cs d)) \<and> same_rolling (long_detector d) (long_detector (snd (hybrid_run hash now cs d)))"
proof (induction cs arbitrary: d)
  case (Cons c cs)
  obtain r d1 where step: "hybrid_process_chunk hash now c d = (r, d1)" by fastforce
  with hybrid_step [OF Cons.prems step] Cons.IH [of d1] show ?case
    by (auto simp: same_rolling_def split: prod.splits)
qed (simp add: same_rolling_def)

lemma quiet_hybrid_run:
  assumes "hybrid_ready d" and "\<forall>ev. Inr (Some ev) \<notin> set (fst (hybrid_run hash now cs d))"
  shows "\<forall>m. Some m \<notin> set (fst (rolling_run cs (long_detector d)))"
  using assms
proof (induction cs arbitrary: d)
  case (Cons c cs)
  obtain r d1 where step: "hybrid_process_chunk hash now c d = (r, d1)" by fastforce
  then have "\<forall>ev. r \<noteq> Inr (Some ev)" "\<forall>ev. Inr (Some ev) \<notin> set (fst (hybrid_run hash now cs d1))"
    using Cons.prems(2) by (auto split: prod.splits)
  with hybrid_step [OF Cons.prems(1) step] Cons.IH [of d1] show ?case
    by (auto split: prod.splits)
qed simp

lemma multiple_in_range:
  assumes "1 \<le> d" "d \<le> b" and "2 * a \<le> Suc b"
  shows "\<exists>k. a \<le> k * d \<and> k * d \<le> (b :: nat)"
proof (cases "a \<le> d")
  case True
  with assms show ?thesis by (intro exI [of _ 1]) simp
next
  case False
  let ?k = "(a + d - 1) div d"
  have "?k * d \<le> a + d - 1" by (rule div_times_less_eq_dividend)
  moreover have "a + d - 1 < d + ?k * d"
    using assms(1) dividend_less_times_div [of d "a + d - 1"] by (simp add: mult.commute)
  ultimately have "a \<le> ?k * d" "?k * d \<le> b"
    using False assms by linarith+
  then show ?thesis by blast
qed

lemma fresh_rolling_ok:
  assumes "1 \<le> min_len" "1 \<le> reps" "min_len * reps \<le> hist"
  shows "rolling_ok (mk_rolling_tracker min_len max_len reps hist) []"
  using assms by (simp add: rolling_ok_def rolling_setup_def mk_rolling_tracker_def pending_def scan_gap_def less_max_iff_disj)

text \<open>
  The longest pattern that a detector can find: its repetitions have to fit into the history, whatever maximum is configured.
\<close>

definition longest_pattern :: "nat \<Rightarrow> nat \<Rightarrow> nat \<Rightarrow> nat" where
  "longest_pattern max_len reps hist = min max_len (hist div reps)"

text \<open>
  C28. No loop goes unnoticed: from whatever state a detector has come to, when the stream gets stuck in a
  loop whose period is at most the maximal pattern length and whose repetitions fit into the history, an event is reported
  before the repeated text is longer than the history and one interval between two scans, however it is cut into
  pieces, also inside code blocks and whatever the hash function does. The threshold of the short detector is not 1, and
  the smallest pattern length is at most about half of the largest one that fits. With the configurations that the proxy
  registers these are 6144 characters for periods of up to 1365, with the defaults of the class 3000 for periods of up to 500.
\<close>

theorem hybrid_detects_every_loop:
  assumes "t \<noteq> 1" and "1 \<le> min_len" "1 \<le> reps" "2 * min_len \<le> Suc (longest_pattern max_len reps hist)"
    and "periodic d (concat cs)" and "1 \<le> d" "d \<le> longest_pattern max_len reps hist"
    and "hist + max (min_len * reps) (max (min_len * 2) (hist div 2)) \<le> length (concat cs)"
  shows "\<exists>ev. Inr (Some ev) \<in> set (fst (hybrid_run hash now cs (snd (hybrid_run hash now js
    (mk_hybrid_detector (mk_window_detector t n h) (mk_rolling_tracker min_len max_len reps hist))))))"
proof (rule ccontr)
  let ?d0 = "mk_hybrid_detector (mk_window_detector t n h) (mk_rolling_tracker min_len max_len reps hist)"
  let ?d1 = "snd (hybrid_run hash now js ?d0)"
  have fits: "k \<le> max_len \<and> k * reps \<le> hist" if "k \<le> longest_pattern max_len reps hist" for k
    using that order_trans [OF mult_le_mono1 [of k "hist div reps" reps] div_times_less_eq_dividend [of hist reps]]
    by (auto simp: longest_pattern_def)
  have "min_len \<le> longest_pattern max_len reps hist" using assms(2,4) by linarith
  then have "hybrid_ready ?d0"
    using fresh_rolling_ok [OF assms(2,3)] assms(1) fits
    by (auto simp: hybrid_ready_def mk_hybrid_detector_def mk_window_detector_def window_threshold_def CONTENT_LOOP_THRESHOLD_def)
  then have ready: "hybrid_ready ?d1" "same_rolling (long_detector ?d0) (long_detector ?d1)"
    using hybrid_run_ready by blast+
  then obtain u where u: "rolling_ok (long_detector ?d1) u"
    by (auto simp: hybrid_ready_def)
  have config: "min_pattern_length (long_detector ?d1) = min_len" "max_pattern_length (long_detector ?d1) = max_len"
    "min_repetitions (long_detector ?d1) = reps" "max_history (long_detector ?d1) = hist"
    using ready(2) by (simp_all add: same_rolling_def mk_hybrid_detector_def mk_rolling_tracker_def)
  obtain k where k: "min_len \<le> k * d" "k * d \<le> longest_pattern max_len reps hist"
    using multiple_in_range [OF assms(6,7,4)] by blast
  have "\<exists>m. Some m \<in> set (fst (rolling_run cs (long_detector ?d1)))"
    using rolling_detects [OF u periodic_multiple [OF assms(5)], of k] k(1) fits [OF k(2)] assms(8) by (simp add: config scan_gap_def)
  moreover assume "\<not> ?thesis"
  ultimately show False
    using quiet_hybrid_run [OF ready(1), of hash now cs] by blast
qed

text \<open>The detectors that the proxy registers.\<close>

lemma registered_detectors_detect:
  assumes "d0 \<in> {infrastructure_hybrid_detector, fallback_hybrid_detector}" and "periodic d (concat cs)" and "1 \<le> d" "d \<le> 1365" "6144 \<le> length (concat cs)"
  shows "\<exists>ev. Inr (Some ev) \<in> set (fst (hybrid_run hash now cs (snd (hybrid_run hash now js d0))))"
  using assms hybrid_detects_every_loop [of 6 100 3 8192 4096 d cs hash now js 80 4096]
    hybrid_detects_every_loop [of 6 300 3 8192 4096 d cs hash now js 80 4096]
  by (auto simp: longest_pattern_def infrastructure_hybrid_detector_def fallback_hybrid_detector_def registered_long_detector_def)

text \<open>A pattern that does not fit into the history as often as it has to be repeated is never matched.\<close>

lemma first_match_length: "first_match tr n ps = Some m \<Longrightarrow> length (match_pattern m) \<le> n"
  by (induction ps) (auto simp: window_def split: option.splits)

lemma scan_length: "scan tr ns = Some m \<Longrightarrow> \<exists>n \<in> set ns. length (match_pattern m) \<le> n"
  by (induction ns) (auto simp: check_pattern_length_def split: option.splits if_splits dest: first_match_length)

lemma match_fits_history:
  assumes "add_content new tr = (Some m, tr')"
  shows "length (match_pattern m) \<le> max_history tr div min_repetitions tr"
proof -
  let ?tr1 = "tr\<lparr>content_chunks := content_chunks tr @ [new], content_total_len := content_total_len tr + length new\<rparr>"
  define tr2 where "tr2 = truncate_content (materialize_content ?tr1)"
  have "scan (tr2\<lparr>last_check_length := length (rolling_content tr2)\<rparr>) (scan_lengths (tr2\<lparr>last_check_length := length (rolling_content tr2)\<rparr>)) = Some m"
    using assms by (auto simp: add_content_def tr2_def Let_def split: if_splits)
  from scan_length [OF this] have "length (match_pattern m) \<le> length (rolling_content tr2) div min_repetitions tr2"
    by (auto simp: scan_lengths_def simp del: upt_Suc)
  moreover have "length (rolling_content tr2) \<le> max_history tr" "min_repetitions tr2 = min_repetitions tr"
    by (auto simp: tr2_def truncate_content_def materialize_content_def Let_def)
  ultimately show ?thesis
    by (metis div_le_mono order_trans)
qed

section \<open>The first report is true\<close>

lemma hybrid_run_length: "length (fst (hybrid_run hash now cs d)) = length cs"
  by (induction cs arbitrary: d) (simp_all split: prod.splits, metis fst_conv)

definition true_report :: "hybrid_detector \<Rightarrow> string \<Rightarrow> LoopDetectionEvent \<Rightarrow> bool" where
  "true_report d s ev \<longleftrightarrow>
     close_repetition (content_chunk_size (short_detector d)) (window_threshold (short_detector d)) s \<and>
       ev_pattern_length ev = content_chunk_size (short_detector d) \<and> ev_repetition_count ev = window_threshold (short_detector d) \<or>
     (\<exists>p is. occurs_at s p is \<and> length is = ev_repetition_count ev \<and> length p = ev_pattern_length ev \<and>
        min_repetitions (long_detector d) \<le> length is \<and> min_pattern_length (long_detector d) \<le> length p \<and>
        last is - hd is \<le> 2 * length p * length is)"

lemma hybrid_first_event:
  assumes "window_ok hash (short_detector d) t" and "rolling_ok (long_detector d) t" and "hybrid_enabled d"
    and "hybrid_process_chunk hash now c d = (r, d')"
  shows "(\<exists>ev. r = Inr (Some ev) \<and> true_report d (t @ c) ev) \<or>
    r = Inr None \<and> window_ok hash (short_detector d') (t @ c) \<and> rolling_ok (long_detector d') (t @ c) \<and> hybrid_enabled d' \<and>
    same_setup (short_detector d) (short_detector d') \<and> same_rolling (long_detector d) (long_detector d')"
proof (cases "c = []")
  case True
  with assms show ?thesis by (auto simp: hybrid_process_chunk_def same_setup_def same_rolling_def)
next
  case False
  obtain q w where short: "window_process_chunk hash now c (short_detector d) = (q, w)" by fastforce
  obtain m tr where long: "add_content c (long_detector d) = (m, tr)" by fastforce
  from process_result [OF assms(1) short] show ?thesis
  proof (elim disjE exE conjE)
    fix ev
    assume "q = Inr (Some ev)" "ev_pattern_length ev = content_chunk_size (short_detector d)"
      "ev_repetition_count ev = window_threshold (short_detector d)"
      "close_repetition (content_chunk_size (short_detector d)) (window_threshold (short_detector d)) (t @ c)"
    then show ?thesis
      using assms(3,4) False short by (auto simp: hybrid_process_chunk_def true_report_def)
  next
    assume q: "q = Inr None" "quiet_after hash t c (short_detector d) w"
    show ?thesis
    proof (cases m)
      case None
      then show ?thesis
        using assms(3,4) False short long q rolling_ok_add [OF assms(2) long] add_content_config [OF long]
        by (auto simp: hybrid_process_chunk_def quiet_after_def same_rolling_def)
    next
      case (Some x)
      then have r: "r = Inr (Some (long_event now tr x))"
        using assms(3,4) False short long q by (auto simp: hybrid_process_chunk_def Let_def)
      obtain js where "occurs_at (t @ c) (match_pattern x) js" "length js = match_repetitions x"
        "min_repetitions (long_detector d) \<le> match_repetitions x" "min_pattern_length (long_detector d) \<le> length (match_pattern x)"
        "last js - hd js \<le> length (match_pattern x) * length js * 2"
        using rolling_match_sound [OF assms(2) long [unfolded Some]] by blast
      then have "true_report d (t @ c) (long_event now tr x)"
        unfolding true_report_def long_event_def by (intro disjI2 exI [of _ "match_pattern x"] exI [of _ js]) (simp add: ac_simps)
      with r show ?thesis by blast
    qed
  qed
qed


lemma true_report_same:
  assumes "same_setup (short_detector d) (short_detector d1)" and "same_rolling (long_detector d) (long_detector d1)"
  shows "true_report d1 = true_report d"
  using assms same_setup_threshold [OF assms(1)] by (intro ext) (simp add: true_report_def same_setup_def same_rolling_def)

lemma hybrid_run_first_event:
  assumes "window_ok hash (short_detector d) t" and "rolling_ok (long_detector d) t" and "hybrid_enabled d" and "i < length cs"
    and "no_event (take i (fst (hybrid_run hash now cs d)))"
  shows "fst (hybrid_run hash now cs d) ! i = Inr None \<or>
    (\<exists>ev. fst (hybrid_run hash now cs d) ! i = Inr (Some ev) \<and> true_report d (t @ concat (take (Suc i) cs)) ev)"
  using assms
proof (induction cs arbitrary: d t i)
  case (Cons c cs)
  obtain r d1 where step: "hybrid_process_chunk hash now c d = (r, d1)" by fastforce
  then have results: "fst (hybrid_run hash now (c # cs) d) = r # fst (hybrid_run hash now cs d1)"
    by (simp split: prod.splits)
  note first = hybrid_first_event [OF Cons.prems(1-3) step]
  show ?case
  proof (cases i)
    case 0
    with first results show ?thesis by auto
  next
    case (Suc j)
    then have "no_event (r # take j (fst (hybrid_run hash now cs d1)))" "j < length cs"
      using Cons.prems(4,5) results by simp_all
    then have "\<forall>ev. r \<noteq> Inr (Some ev)" and later: "no_event (take j (fst (hybrid_run hash now cs d1)))" "j < length cs"
      by (auto simp: no_event_def)
    with first have next_ok: "window_ok hash (short_detector d1) (t @ c)" "rolling_ok (long_detector d1) (t @ c)" "hybrid_enabled d1"
      and "same_setup (short_detector d) (short_detector d1)" "same_rolling (long_detector d) (long_detector d1)"
      by blast+
    then show ?thesis
      using Cons.IH [OF next_ok later(2,1)] results Suc true_report_same [of d d1] by simp
  qed
qed simp

text \<open>
  C29. The detector raises no false alarm: as long as it has reported nothing, each piece of the stream is
  answered without an exception, and the first report is true of the text received so far. Either a
  window of the configured size, the reported length, is repeated as often as the short detector asks, the reported
  number, and as closely; or the text holds a pattern of the reported length at as many places that do not overlap as
  reported, enough of them and close together, with a length of at least the configured minimum. This holds whatever
  the hash function does, for a short threshold of 2 or more (with 1 the detector raises).
\<close>

theorem hybrid_event_sound:
  assumes "2 \<le> t" "1 \<le> n" and "1 \<le> min_len" "1 \<le> reps" "min_len * reps \<le> hist"
    and "d = mk_hybrid_detector (mk_window_detector t n h) (mk_rolling_tracker min_len max_len reps hist)"
    and "i < length cs" and "no_event (take i (fst (hybrid_run hash now cs d)))"
  shows "fst (hybrid_run hash now cs d) ! i = Inr None \<or>
    (\<exists>ev. fst (hybrid_run hash now cs d) ! i = Inr (Some ev) \<and>
       (close_repetition n t (concat (take (Suc i) cs)) \<and> ev_pattern_length ev = n \<and> ev_repetition_count ev = t \<or>
        (\<exists>p is. occurs_at (concat (take (Suc i) cs)) p is \<and> length is = ev_repetition_count ev \<and> length p = ev_pattern_length ev \<and>
           reps \<le> length is \<and> min_len \<le> length p \<and> last is - hd is \<le> 2 * length p * length is)))"
proof -
  have d: "short_detector d = mk_window_detector t n h" "long_detector d = mk_rolling_tracker min_len max_len reps hist" "hybrid_enabled d"
    by (simp_all add: assms(6) mk_hybrid_detector_def)
  have "content_chunk_size (short_detector d) = n" "window_threshold (short_detector d) = t"
    "min_repetitions (long_detector d) = reps" "min_pattern_length (long_detector d) = min_len"
    using assms(1) by (simp_all add: d mk_window_detector_def window_threshold_def mk_rolling_tracker_def)
  moreover have "window_ok hash (short_detector d) []" "rolling_ok (long_detector d) []"
    using fresh_window_ok [OF assms(1,2)] fresh_rolling_ok [OF assms(3-5)] by (simp_all add: d)
  ultimately show ?thesis
    using hybrid_run_first_event [OF _ _ d(3) assms(7,8), of "[]"] by (simp add: true_report_def)
qed

section \<open>Checking a whole text\<close>

lemma length_repeat [simp]: "length (repeat_text k p) = k * length p"
  by (induction k) (simp_all add: repeat_text_def)

lemma take_repeat: "1 \<le> k \<Longrightarrow> take (length p) (repeat_text k p) = p"
  by (cases k) (simp_all add: repeat_text_def)

lemma reset_threshold [simp]: "window_threshold (window_reset w) = window_threshold w"
  by (simp add: window_reset_def reset_content_tracking_def window_threshold_def)

lemma hybrid_threshold:
  assumes "window_threshold (short_detector d) \<noteq> 1" and "hybrid_process_chunk hash now c d = (r, d')"
  shows "window_threshold (short_detector d') = window_threshold (short_detector d) \<and> (\<exists>v. r = Inr v)"
proof -
  obtain q w where "window_process_chunk hash now c (short_detector d) = (Inr q, w)" "same_setup (short_detector d) w"
    using process_no_exn [OF assms(1)] by blast
  with assms(2) same_setup_threshold [of "short_detector d" w] show ?thesis
    by (cases q) (auto simp: hybrid_process_chunk_def Let_def split: if_splits prod.splits option.splits)
qed

lemma process_characters_no_exn:
  "window_threshold (short_detector d) \<noteq> 1 \<Longrightarrow> \<exists>r d'. process_characters hash now cs d = (Inr r, d')"
proof (induction cs arbitrary: d)
  case (Cons c cs)
  obtain r d1 where step: "hybrid_process_chunk hash now [c] d = (r, d1)" by fastforce
  with hybrid_threshold [OF Cons.prems step] Cons show ?case
    by (auto split: option.splits)
qed simp

lemma simple_repeat_found:
  assumes "3 \<le> k" and "5 \<le> length p" "length p \<le> 200"
  shows "\<exists>ev d'. detect_simple_repeat_loop now (repeat_text k p) d = (Some ev, d')"
proof -
  have "2 * length p \<le> k * length p" using assms(1) by (intro mult_le_mono1) linarith
  then have "length p \<le> length (repeat_text k p) div 2" unfolding length_repeat by linarith
  then have "length p \<in> set [5..<Suc (min (length (repeat_text k p) div 2) 200)]"
    using assms(2,3) unfolding set_upt by auto
  moreover have "is_simple_repeat (repeat_text k p) (length p)"
    using assms(1,2) by (auto simp: is_simple_repeat_def take_repeat)
  ultimately have "find (is_simple_repeat (repeat_text k p)) [5..<Suc (min (length (repeat_text k p) div 2) 200)] \<noteq> None"
    unfolding find_None_iff by blast
  then show ?thesis
    by (auto simp: detect_simple_repeat_loop_def Let_def simp del: upt_Suc)
qed

text \<open>
  The check of a whole text finds every text that is nothing but a pattern of 5 to 200 characters
  repeated three times or more, in any state of the detector, also when it is switched off and whatever
  its thresholds are, except for the short threshold 1 (the long detector is set up with positive
  numbers and its table of powers). Afterwards the recorded events, the text and the
  positions of the short detector and the scanned text of the long one are what they were.
\<close>

lemma check_finds_repetition:
  assumes "3 \<le> k" and "5 \<le> length p" "length p \<le> 200" and "window_threshold (short_detector d) \<noteq> 1" and "rolling_setup (long_detector d)"
  shows "\<exists>r d'. hybrid_check_for_loops hash now (repeat_text k p) d = (Inr r, d') \<and> has_loop r \<and> loop_events d' = loop_events d \<and>
    stream_content_history (short_detector d') = stream_content_history (short_detector d) \<and>
    content_stats (short_detector d') = content_stats (short_detector d) \<and>
    last_content_index (short_detector d') = last_content_index (short_detector d) \<and>
    rolling_content (long_detector d') = rolling_content (long_detector d)"
proof -
  have "window_threshold (short_detector (hybrid_reset d)) \<noteq> 1"
    using assms(4) by (simp add: hybrid_reset_def)
  from process_characters_no_exn [OF this] obtain q d1 where
    run: "process_characters hash now (repeat_text k p) (hybrid_reset d) = (Inr q, d1)" by blast
  obtain ev d2 where repeat: "detect_simple_repeat_loop now (repeat_text k p) d1 = (Some ev, d2)"
    using simple_repeat_found [OF assms(1-3)] by blast
  have "repeat_text k p \<noteq> []"
    using assms(1,2) by (metis length_0_conv length_repeat mult_is_0 not_numeral_le_zero)
  then show ?thesis
    by (cases q) (simp_all add: hybrid_check_for_loops_def run repeat event_result_def hybrid_restore_def window_restore_def Let_def)
qed

end
