(* ===== verification/Loop_Examples.thy ===== *)
theory Loop_Examples
  imports Loop_Theorems
begin

text \<open>
  Concrete inputs for the theorems on loop detection, and three behaviours of the check of a whole text
  and of the rolling hash that differ from their descriptions.
\<close>

section \<open>Rolling hash\<close>

definition aba_tracker :: rolling_tracker where
  "aba_tracker = (mk_rolling_tracker 1 2 2 4)\<lparr>rolling_content := ''aba''\<rparr>"

theorem rolled_table_correct_witness: "map_of (hash_positions aba_tracker 1) 97 = Some [0, 2]"
proof -
  have "rolling_setup aba_tracker"
    by (simp add: rolling_setup_def aba_tracker_def mk_rolling_tracker_def)
  moreover have "filter (\<lambda>i. foldl add_char 0 (window 1 i (rolling_content aba_tracker)) = 97) [0..<length (rolling_content aba_tracker) - 1 + 1] = [0, 2]"
    by code_simp
  moreover have "max_pattern_length aba_tracker = 2" "length (rolling_content aba_tracker) = 3"
    by (simp_all add: aba_tracker_def mk_rolling_tracker_def)
  ultimately show ?thesis
    using rolled_table_correct [of aba_tracker 1 97] by simp
qed

section \<open>Sliding window\<close>

definition spread_hash :: "string \<Rightarrow> int" where
  "spread_hash s = foldl add_char 0 s"

lemma windows_code: "n \<le> length s \<Longrightarrow> windows_of n s = set (map (\<lambda>i. window n i s) [0..<Suc (length s - n)])"
  unfolding windows_of_def set_map set_upt by (auto simp: image_iff Bex_def)

lemma ab_hash: "spread_hash ''ab'' = 3105" "spread_hash ''ba'' = 3135" "spread_hash ''a'' = 97"
  by code_simp+

lemma periodic_code: "periodic d s \<longleftrightarrow> list_all (\<lambda>i. s ! (i + d) = s ! i) [0..<length s - d]"
  by (auto simp: periodic_def list_all_iff)

lemma ab_windows: "windows_of 2 ''abab'' = {''ab'', ''ba''}"
  by (simp add: windows_code window_def upt_conv_Cons insert_commute)

lemma ab_letters: "mostly_letters ''ab''" "mostly_letters ''ba''"
  by code_simp+

lemma ab_plain: "list_all plain_piece [''a'', ''ba'', ''b'']" "list_all plain_piece [''ab'', ''ab'']"
  unfolding plain_piece_def by code_simp+

lemma ab_periodic: "periodic 2 ''abab''"
  unfolding periodic_code by code_simp

theorem window_detects_repetition_witness:
  "\<exists>ev. Inr (Some ev) \<in> set (fst (window_run spread_hash 0 [''a'', ''ba'', ''b''] (mk_window_detector 2 2 10)))"
proof -
  have "inj_on spread_hash {''ab'', ''ba''}" by (simp add: ab_hash)
  moreover have "\<not> in_code_block (mk_window_detector 2 2 10)" by (simp add: mk_window_detector_def)
  ultimately show ?thesis
    using window_detects_repetition [of 2 2 spread_hash 0 "[]" 10 "[''a'', ''ba'', ''b'']" 2] ab_windows ab_letters ab_plain(1) ab_periodic
    by simp
qed

lemma ab_run:
  "\<exists>ev. fst (window_run spread_hash 0 [''ab'', ''ab''] (mk_window_detector 2 2 10)) = [Inr None, Inr (Some ev)]"
proof -
  note defs = window_process_chunk_def check_content_loop_def mk_window_detector_def truncate_and_update_def history_bound_def
    is_loop_detected_for_chunk_def has_more_chunks_to_process_def current_chunk_def window_def is_actual_content_match_def
    window_threshold_def close_together_def Let_def
  have quiet: "fences ''ab'' = 0" "\<not> is_divider ''ab''" by code_simp+
  show ?thesis
    by (simp add: analyze_content_chunks_for_loop.simps defs quiet ab_letters ab_hash)
qed

lemma window_event_example:
  "\<exists>ev. fst (window_run spread_hash 0 [''ab'', ''ab''] (mk_window_detector 2 2 10)) ! 1 = Inr (Some ev) \<and>
     close_repetition 2 2 ''abab'' \<and> ev_repetition_count ev = 2"
proof -
  obtain ev where ev: "fst (window_run spread_hash 0 [''ab'', ''ab''] (mk_window_detector 2 2 10)) = [Inr None, Inr (Some ev)]"
    using ab_run by blast
  then show ?thesis
    using window_event_sound [of 2 2 1 "[''ab'', ''ab'']" spread_hash 0 10 ev] by (simp add: numeral_2_eq_2 del: window_run.simps)
qed

section \<open>Both detectors\<close>

definition small_window :: "string \<Rightarrow> window_detector" where
  "small_window s = (mk_window_detector 2 50 1000)\<lparr>stream_content_history := s\<rparr>"

definition small_tracker :: rolling_tracker where
  "small_tracker = mk_rolling_tracker 1 2 2 4"

definition small_tracker' :: rolling_tracker where
  "small_tracker' = small_tracker\<lparr>rolling_content := ''ab'', content_total_len := 2, last_check_length := 2\<rparr>"

definition small_detector :: hybrid_detector where
  "small_detector = mk_hybrid_detector (small_window []) small_tracker"

lemma small_detector_mk: "small_detector = mk_hybrid_detector (mk_window_detector 2 50 1000) (mk_rolling_tracker 1 2 2 4)"
  by (simp add: small_detector_def small_tracker_def small_window_def mk_window_detector_def)

theorem hybrid_detects_every_loop_witness:
  "\<forall>hash. \<exists>ev. Inr (Some ev) \<in> set (fst (hybrid_run hash 0 [''aba'', ''bab''] (snd (hybrid_run hash 0 [''```x''] small_detector))))"
proof
  fix hash
  have "periodic 2 ''ababab''" unfolding periodic_code by code_simp
  then show "\<exists>ev. Inr (Some ev) \<in> set (fst (hybrid_run hash 0 [''aba'', ''bab''] (snd (hybrid_run hash 0 [''```x''] small_detector))))"
    using hybrid_detects_every_loop [of 2 1 2 2 4 2 "[''aba'', ''bab'']" hash 0 "[''```x'']" 50 1000]
    by (simp add: small_detector_mk longest_pattern_def del: hybrid_run.simps)
qed

lemma small_long_steps:
  "add_content ''ab'' small_tracker = (None, small_tracker')"
  "fst (add_content ''ab'' small_tracker') = Some \<lparr>match_pattern = ''ab'', match_repetitions = 2\<rparr>"
  by code_simp+

lemma small_short_steps:
  "window_process_chunk hash 0 ''ab'' (small_window []) = (Inr None, small_window ''ab'')"
  "window_process_chunk hash 0 ''ab'' (small_window ''ab'') = (Inr None, small_window ''abab'')"
proof -
  note defs = window_process_chunk_def check_content_loop_def small_window_def mk_window_detector_def truncate_and_update_def
    history_bound_def has_more_chunks_to_process_def Let_def
  have quiet: "fences ''ab'' = 0" "\<not> is_divider ''ab''" by code_simp+
  show "window_process_chunk hash 0 ''ab'' (small_window []) = (Inr None, small_window ''ab'')"
    "window_process_chunk hash 0 ''ab'' (small_window ''ab'') = (Inr None, small_window ''abab'')"
    by (simp_all add: analyze_content_chunks_for_loop.simps defs quiet)
qed

lemma small_run:
  "\<exists>ev. fst (hybrid_run hash 0 [''ab'', ''ab''] small_detector) = [Inr None, Inr (Some ev)]"
proof -
  obtain tr where "add_content ''ab'' small_tracker' = (Some \<lparr>match_pattern = ''ab'', match_repetitions = 2\<rparr>, tr)"
    using small_long_steps(2) by (metis prod.collapse)
  then show ?thesis
    by (simp add: small_detector_def mk_hybrid_detector_def hybrid_process_chunk_def small_long_steps(1) small_short_steps Let_def
      split: prod.splits)
qed

theorem hybrid_event_sound_witness:
  "\<exists>ev p is. fst (hybrid_run spread_hash 0 [''ab'', ''ab''] small_detector) ! 1 = Inr (Some ev) \<and>
     occurs_at ''abab'' p is \<and> length is = ev_repetition_count ev \<and> length p = ev_pattern_length ev"
proof -
  obtain ev where run: "fst (hybrid_run spread_hash 0 [''ab'', ''ab''] small_detector) = [Inr None, Inr (Some ev)]"
    using small_run by blast
  have short: "\<not> close_repetition 50 2 ''abab''"
    by (auto simp: close_repetition_def length_Suc_conv numeral_2_eq_2)
  show ?thesis
    using hybrid_event_sound [OF _ _ _ _ _ small_detector_mk, of 1 "[''ab'', ''ab'']" spread_hash 0] short
    unfolding run by (auto simp: no_event_def)
qed

theorem check_finds_repetition_witness:
  "\<exists>r d'. hybrid_check_for_loops spread_hash 0 (repeat_text 3 ''abcde'') default_hybrid_detector = (Inr r, d') \<and> has_loop r"
proof -
  have "window_threshold (short_detector default_hybrid_detector) \<noteq> 1"
    by (simp add: default_hybrid_detector_def mk_hybrid_detector_def mk_window_detector_def window_threshold_def)
  moreover have "rolling_setup (long_detector default_hybrid_detector)"
    by (simp add: default_hybrid_detector_def mk_hybrid_detector_def mk_rolling_tracker_def rolling_setup_def
        MIN_LONG_PATTERN_LENGTH_def LONG_PATTERN_MIN_REPETITIONS_def)
  ultimately show ?thesis
    using check_finds_repetition [of 3 "''abcde''" default_hybrid_detector spread_hash 0] by auto
qed

section \<open>Differences from the descriptions\<close>

text \<open>
  The check of a whole text is documented to restore the state of the detector. The pieces that wait for
  the next scan are neither saved nor restored: a check leaves the checked text in the long detector,
  where it comes before the rest of the stream, and it drops the text that was waiting.
\<close>

lemma check_keeps_checked_text:
  assumes "content_chunk_size (short_detector d) = 50" "content_loop_threshold (short_detector d) = 10" "max_history_length (short_detector d) = 1000"
    and "min_pattern_length (long_detector d) = 60" "min_repetitions (long_detector d) = 3"
    and "hybrid_enabled d" "window_enabled (short_detector d)"
  shows "content_chunks (long_detector (snd (hybrid_check_for_loops hash 0 ''ab'' d))) = [''a'', ''b'']"
proof -
  have quiet: "\<not> is_divider ''a''" "\<not> is_divider ''b''" "fences ''a'' = 0" "fences ''b'' = 0" by code_simp+
  note defs = hybrid_check_for_loops_def hybrid_process_chunk_def window_process_chunk_def check_content_loop_def
    truncate_and_update_def history_bound_def has_more_chunks_to_process_def hybrid_reset_def window_reset_def
    reset_content_tracking_def rolling_reset_def add_content_def detect_simple_repeat_loop_def hybrid_restore_def window_restore_def Let_def
  show ?thesis
    by (simp add: defs analyze_content_chunks_for_loop.simps quiet assms)
qed

lemma check_leaves_text_behind: "content_chunks (long_detector (snd (hybrid_check_for_loops hash 0 ''ab'' default_hybrid_detector))) = [''a'', ''b'']"
  by (rule check_keeps_checked_text) (simp_all add: default_hybrid_detector_def mk_hybrid_detector_def mk_window_detector_def
      mk_rolling_tracker_def MIN_LONG_PATTERN_LENGTH_def LONG_PATTERN_MIN_REPETITIONS_def)

lemma check_drops_waiting_text:
  assumes "d = default_hybrid_detector\<lparr>long_detector := (long_detector default_hybrid_detector)\<lparr>content_chunks := [''waiting''], content_total_len := 7\<rparr>\<rparr>"
  shows "content_chunks (long_detector (snd (hybrid_check_for_loops hash 0 ''ab'' d))) = [''a'', ''b'']"
  by (rule check_keeps_checked_text) (simp_all add: assms default_hybrid_detector_def mk_hybrid_detector_def mk_window_detector_def
      mk_rolling_tracker_def MIN_LONG_PATTERN_LENGTH_def LONG_PATTERN_MIN_REPETITIONS_def)

text \<open>The modulus of the rolling hash is called a large prime, and is divisible by 3.\<close>

lemma HASH_MOD_composite: "HASH_MOD = 3 * 1431655765"
  by (simp add: HASH_MOD_def)

text \<open>The check of a whole text passes single characters, none of which is a code fence: code blocks are not skipped there.\<close>

lemma no_fence_in_a_character: "fences [c] = 0"
  by (simp add: fences_def py_startswith_def)

text \<open>With the threshold 1 the second occurrence of a window ends in a division by zero.\<close>

lemma threshold_one_raises: "close_together 1 n is = Inl ZeroDivisionError"
  by (simp add: close_together_def Let_def)

end
