(* ===== verification/Session_Cancel.thy ===== *)
theory Session_Cancel
  imports Routing_Context Rate_Limit_State Keyed_Machine
begin

text \<open>
  Cancellation of the work of a session: the coordinator that remembers cancelled sessions and the work
  registered for them (\<^verbatim>\<open>session_cancellation_coordinator.py\<close>), the guard in front of all backend work
  (\<^verbatim>\<open>backend_work_guard.py\<close>), the key of a session (\<^verbatim>\<open>session_key_resolver.py\<close>, \<^verbatim>\<open>session_key.py\<close>) and the
  clean-up at the end of a session (\<^verbatim>\<open>session_cancellation_cleanup_eos_subscriber.py\<close>). The store is a
  \<^verbatim>\<open>cachetools.TTLCache\<close>, an argument as in \<open>Rate_Limit_State\<close>. Registered work is anything with a method
  \<^verbatim>\<open>cancel\<close>; the model records which \<^verbatim>\<open>cancel\<close> calls are made, for which session. Exceptions of these
  calls are swallowed. The lock is held while a session is marked and its work is taken over, but not while that work is
  cancelled: the loops that do this are part of the state, and each of their calls is a step of its own, between which
  anything may happen.
\<close>

section \<open>Session keys\<close>

record SessionKey =
  protocol :: string
  primary_id :: string
  group_id :: "string option"

definition mk_session_key :: "string \<Rightarrow> string \<Rightarrow> string option \<Rightarrow> exn + SessionKey" where
  "mk_session_key p i g =
     (if py_strip i = [] then Inl (value_error ''primary_id cannot be empty'')
      else Inr \<lparr>protocol = p, primary_id = i, group_id = g\<rparr>)"

text \<open>What the resolver reads of a request: an attribute with the conversation, or else an extra body.\<close>

datatype request_conversation = Conversation_Attribute json | Extra_Body json | No_Conversation

record HttpContext = RequestContext +
  ctx_request_id :: "string option"
  ctx_headers :: jdict
  ctx_domain_request :: "request_conversation option"

definition stripped_text :: "json \<Rightarrow> string option" where
  "stripped_text v =
     (case as_str v of None \<Rightarrow> None | Some s \<Rightarrow> if py_strip s = [] then None else Some (py_strip s))"

fun conversation_of_request :: "request_conversation \<Rightarrow> string option" where
  "conversation_of_request (Conversation_Attribute v) = stripped_text v"
| "conversation_of_request (Extra_Body b) =
     (case as_dict b of None \<Rightarrow> None | Some d \<Rightarrow> stripped_text (dict_get ''conversation_id'' d))"
| "conversation_of_request No_Conversation = None"

definition conversation_of :: "HttpContext \<Rightarrow> string option" where
  "conversation_of ctx =
     (case stripped_text (dict_get ''x-conversation-id'' (ctx_headers ctx)) of
        Some g \<Rightarrow> Some g
      | None \<Rightarrow> Option.bind (ctx_domain_request ctx) conversation_of_request)"

definition resolve_session_key :: "HttpContext option \<Rightarrow> SessionKey option" where
  "resolve_session_key context =
     (case context of
        None \<Rightarrow> None
      | Some ctx \<Rightarrow>
          (case ctx_request_id ctx of
             None \<Rightarrow> None
           | Some rid \<Rightarrow>
               (if py_strip rid = [] then None
                else (case mk_session_key ''http'' (py_strip rid) (conversation_of ctx) of
                        Inl _ \<Rightarrow> None
                      | Inr k \<Rightarrow> Some k))))"

section \<open>The coordinator\<close>

datatype ClientTerminationReason = CLIENT_DISCONNECTED | CLIENT_CANCELLED | UNKNOWN_CLIENT_TERMINATION

fun reason_value :: "ClientTerminationReason \<Rightarrow> string" where
  "reason_value CLIENT_DISCONNECTED = ''client_disconnected''"
| "reason_value CLIENT_CANCELLED = ''client_cancelled''"
| "reason_value UNKNOWN_CLIENT_TERMINATION = ''unknown_client_termination''"

record 'w CancellationState =
  cancelled :: bool
  cancel_reason :: ClientTerminationReason
  cancelled_at :: real
  cancellables :: "'w list"

record ('c, 'w) coordinator =
  cancel_cache :: 'c
  cancel_calls :: "(SessionKey \<times> 'w) list"
  cancelling :: "(SessionKey \<times> 'w list) list"

definition DEFAULT_CANCELLATION_TTL_SECONDS :: real where
  "DEFAULT_CANCELLATION_TTL_SECONDS = 3600"

definition CANCELLATION_MAXSIZE :: nat where
  "CANCELLATION_MAXSIZE = 100000"

type_synonym ('c, 'w) cancel_store = "('c, SessionKey, 'w CancellationState) cache_ops"

definition cached_state :: "('c, 'w) cancel_store \<Rightarrow> real \<Rightarrow> SessionKey \<Rightarrow> ('c, 'w) coordinator \<Rightarrow> 'w CancellationState option \<times> ('c, 'w) coordinator" where
  "cached_state C now k s = (cpeek C now k (cancel_cache s), s\<lparr>cancel_cache := ctouch C now k (cancel_cache s)\<rparr>)"

definition is_cancelled :: "('c, 'w) cancel_store \<Rightarrow> real \<Rightarrow> SessionKey \<Rightarrow> ('c, 'w) coordinator \<Rightarrow> bool \<times> ('c, 'w) coordinator" where
  "is_cancelled C now k s =
     (case cached_state C now k s of (st, s') \<Rightarrow> (case st of None \<Rightarrow> False | Some x \<Rightarrow> cancelled x, s'))"

definition put_cached_state :: "('c, 'w) cancel_store \<Rightarrow> real \<Rightarrow> SessionKey \<Rightarrow> 'w CancellationState \<Rightarrow> ('c, 'w) coordinator \<Rightarrow> ('c, 'w) coordinator" where
  "put_cached_state C now k st s = s\<lparr>cancel_cache := cset C now k st (cancel_cache s)\<rparr>"

definition change_state ::
  "('c, 'w) cancel_store \<Rightarrow> SessionKey \<Rightarrow> ('w CancellationState \<Rightarrow> 'w CancellationState) \<Rightarrow> ('c, 'w) coordinator \<Rightarrow> ('c, 'w) coordinator" where
  "change_state C k f s = s\<lparr>cancel_cache := cmut C k f (cancel_cache s)\<rparr>"

definition call_cancel :: "SessionKey \<Rightarrow> 'w list \<Rightarrow> ('c, 'w) coordinator \<Rightarrow> ('c, 'w) coordinator" where
  "call_cancel k ws s = s\<lparr>cancel_calls := cancel_calls s @ map (Pair k) ws\<rparr>"

definition start_cancelling :: "SessionKey \<Rightarrow> 'w list \<Rightarrow> ('c, 'w) coordinator \<Rightarrow> ('c, 'w) coordinator" where
  "start_cancelling k ws s = s\<lparr>cancelling := cancelling s @ [(k, ws)]\<rparr>"

text \<open>The locked part of a cancellation, and the next call of one of the loops that are under way.\<close>

definition cancel_session ::
  "('c, 'w) cancel_store \<Rightarrow> real \<Rightarrow> SessionKey \<Rightarrow> ClientTerminationReason \<Rightarrow> ('c, 'w) coordinator \<Rightarrow> ('c, 'w) coordinator" where
  "cancel_session C now k r s0 =
     (case cached_state C now k s0 of
        (None, s) \<Rightarrow> put_cached_state C now k \<lparr>cancelled = True, cancel_reason = r, cancelled_at = now, cancellables = []\<rparr> s
      | (Some st, s) \<Rightarrow>
          (if cancelled st then s
           else start_cancelling k (cancellables st)
             (change_state C k (\<lambda>x. x\<lparr>cancelled := True, cancel_reason := r, cancelled_at := now, cancellables := []\<rparr>) s)))"

definition cancel_next :: "nat \<Rightarrow> ('c, 'w) coordinator \<Rightarrow> ('c, 'w) coordinator" where
  "cancel_next i s =
     (if i < length (cancelling s) then
        (case cancelling s ! i of
           (k, w # ws) \<Rightarrow> (call_cancel k [w] s)\<lparr>cancelling := (cancelling s)[i := (k, ws)]\<rparr>
         | (k, []) \<Rightarrow> s)
      else s)"

definition register_cancellable ::
  "('c, 'w) cancel_store \<Rightarrow> real \<Rightarrow> SessionKey \<Rightarrow> 'w \<Rightarrow> ('c, 'w) coordinator \<Rightarrow> ('c, 'w) coordinator" where
  "register_cancellable C now k w s0 =
     (case cached_state C now k s0 of
        (None, s) \<Rightarrow>
          change_state C k (\<lambda>x. x\<lparr>cancellables := cancellables x @ [w]\<rparr>)
            (put_cached_state C now k \<lparr>cancelled = False, cancel_reason = UNKNOWN_CLIENT_TERMINATION, cancelled_at = now, cancellables = []\<rparr> s)
      | (Some st, s) \<Rightarrow>
          (if cancelled st then call_cancel k [w] s
           else change_state C k (\<lambda>x. x\<lparr>cancellables := cancellables x @ [w]\<rparr>) s))"

definition key_json :: "SessionKey \<Rightarrow> json" where
  "key_json k = JDict [(''protocol'', JStr (protocol k)), (''primary_id'', JStr (primary_id k)),
     (''group_id'', case group_id k of None \<Rightarrow> JNull | Some g \<Rightarrow> JStr g)]"

definition session_cancelled_error :: "SessionKey \<Rightarrow> ClientTerminationReason \<Rightarrow> exn" where
  "session_cancelled_error k r =
     \<lparr>exn_class = SessionCancelledError, exn_message = ''Session cancelled: '' @ primary_id k,
      exn_details = [(''session_key'', key_json k), (''reason'', JStr (reason_value r))], exn_status = 499, exn_code = None\<rparr>"

definition ensure_not_cancelled ::
  "('c, 'w) cancel_store \<Rightarrow> real \<Rightarrow> SessionKey \<Rightarrow> ('c, 'w) coordinator \<Rightarrow> (exn + unit) \<times> ('c, 'w) coordinator" where
  "ensure_not_cancelled C now k s =
     (case cached_state C now k s of
        (st, s') \<Rightarrow> (case st of None \<Rightarrow> Inr ()
                    | Some x \<Rightarrow> if cancelled x then Inl (session_cancelled_error k (cancel_reason x)) else Inr (), s'))"

definition cleanup_cancellation :: "('c, 'w) cancel_store \<Rightarrow> real \<Rightarrow> SessionKey \<Rightarrow> ('c, 'w) coordinator \<Rightarrow> ('c, 'w) coordinator" where
  "cleanup_cancellation C now k s =
     (if cpeek C now k (cancel_cache s) = None then s else s\<lparr>cancel_cache := cpop C now k (cancel_cache s)\<rparr>)"

text \<open>The event at the end of a session names its identifier only.\<close>

definition handle_eos_event :: "('c, 'w) cancel_store \<Rightarrow> real \<Rightarrow> string option \<Rightarrow> ('c, 'w) coordinator \<Rightarrow> ('c, 'w) coordinator" where
  "handle_eos_event C now session_id s =
     (case session_id of
        None \<Rightarrow> s
      | Some i \<Rightarrow> (case mk_session_key ''http'' i None of Inl _ \<Rightarrow> s | Inr k \<Rightarrow> cleanup_cancellation C now k s))"

section \<open>The guard\<close>

definition unscoped_error :: "string \<Rightarrow> HttpContext \<Rightarrow> exn" where
  "unscoped_error purpose ctx =
     \<lparr>exn_class = LLMProxyError, exn_message = ''Unscoped HTTP backend work blocked (missing request_id/session scope)'',
      exn_details = [(''purpose'', JStr purpose),
        (''request_id'', case ctx_request_id ctx of None \<Rightarrow> JNull | Some i \<Rightarrow> JStr i)],
      exn_status = 500, exn_code = None\<rparr>"

definition ensure_session_active ::
  "('c, 'w) cancel_store option \<Rightarrow> bool \<Rightarrow> real \<Rightarrow> HttpContext option \<Rightarrow> string \<Rightarrow> bool \<Rightarrow> ('c, 'w) coordinator \<Rightarrow>
   (exn + SessionKey option) \<times> ('c, 'w) coordinator" where
  "ensure_session_active C strict now context purpose require_scope s =
     (let key = resolve_session_key context in
      case context of
        Some ctx \<Rightarrow>
          (if require_scope \<and> strict \<and> key = None then (Inl (unscoped_error purpose ctx), s)
           else (case (C, key) of
                   (Some ops, Some k) \<Rightarrow> (case ensure_not_cancelled ops now k s of (r, s') \<Rightarrow> (map_sum id (\<lambda>_. key) r, s'))
                 | _ \<Rightarrow> (Inr key, s)))
      | None \<Rightarrow> (Inr key, s))"

definition guard_is_cancelled ::
  "('c, 'w) cancel_store option \<Rightarrow> real \<Rightarrow> SessionKey option \<Rightarrow> ('c, 'w) coordinator \<Rightarrow> bool \<times> ('c, 'w) coordinator" where
  "guard_is_cancelled C now key s =
     (case (C, key) of (Some ops, Some k) \<Rightarrow> is_cancelled ops now k s | _ \<Rightarrow> (False, s))"

text \<open>
  A guarded stream: the answer of the coordinator before the first chunk and with every chunk, at the time
  the chunk arrives, decides whether the stream goes on.
\<close>

fun guarded_chunks :: "(real \<Rightarrow> bool) \<Rightarrow> (real \<times> 'a) list \<Rightarrow> 'a list" where
  "guarded_chunks stopped [] = []"
| "guarded_chunks stopped ((t, chunk) # rest) = (if stopped t then [] else chunk # guarded_chunks stopped rest)"

definition wrap_stream_with_cancellation :: "(real \<Rightarrow> bool) \<Rightarrow> real \<Rightarrow> (real \<times> 'a) list \<Rightarrow> 'a list" where
  "wrap_stream_with_cancellation stopped start stream = (if stopped start then [] else guarded_chunks stopped stream)"

end
