(* ===== verification/Cancel_Theorems.thy ===== *)
theory Cancel_Theorems
  imports Session_Cancel "HOL-Library.Multiset"
begin

text \<open>
  What the cancellation coordinator promises: a cancelled session stays shut for backend work, and the
  work registered for it is cancelled exactly once, whatever happens to other sessions meanwhile.
\<close>

section \<open>Runs\<close>

datatype 'w cancel_event =
    Check SessionKey | Ensure SessionKey | Cancel SessionKey ClientTerminationReason | Register SessionKey 'w
  | Cancel_Next nat | Cleanup SessionKey | End_Of_Session "string option"

fun cancel_step :: "('c, 'w) cancel_store \<Rightarrow> real \<Rightarrow> 'w cancel_event \<Rightarrow> ('c, 'w) coordinator \<Rightarrow> ('c, 'w) coordinator" where
  "cancel_step C now (Check k) s = snd (is_cancelled C now k s)"
| "cancel_step C now (Ensure k) s = snd (ensure_not_cancelled C now k s)"
| "cancel_step C now (Cancel k r) s = cancel_session C now k r s"
| "cancel_step C now (Register k w) s = register_cancellable C now k w s"
| "cancel_step C now (Cancel_Next i) s = cancel_next i s"
| "cancel_step C now (Cleanup k) s = cleanup_cancellation C now k s"
| "cancel_step C now (End_Of_Session i) s = handle_eos_event C now i s"

fun timed :: "real \<Rightarrow> (real \<times> 'e) list \<Rightarrow> real \<Rightarrow> bool" where
  "timed a [] b \<longleftrightarrow> a \<le> b"
| "timed a ((t, e) # es) b \<longleftrightarrow> a \<le> t \<and> timed t es b"

lemma timed_le: "timed a es b \<Longrightarrow> a \<le> b"
  by (induction a es b rule: timed.induct) auto

text \<open>The sessions an event stores something for, and the sessions it forgets.\<close>

fun stores_key :: "'w cancel_event \<Rightarrow> SessionKey set" where
  "stores_key (Cancel k r) = {k}"
| "stores_key (Register k w) = {k}"
| "stores_key _ = {}"

fun forgets_key :: "'w cancel_event \<Rightarrow> SessionKey set" where
  "forgets_key (Cleanup k) = {k}"
| "forgets_key (End_Of_Session (Some i)) = {\<lparr>protocol = ''http'', primary_id = i, group_id = None\<rparr>}"
| "forgets_key _ = {}"

abbreviation peek_state :: "('c, 'w) cancel_store \<Rightarrow> real \<Rightarrow> SessionKey \<Rightarrow> ('c, 'w) coordinator \<Rightarrow> 'w CancellationState option" where
  "peek_state C t k s \<equiv> cpeek C t k (cancel_cache s)"

abbreviation cancel_room :: "('c, 'w) cancel_store \<Rightarrow> nat \<Rightarrow> SessionKey set \<Rightarrow> real \<Rightarrow> ('c, 'w) coordinator \<Rightarrow> bool" where
  "cancel_room C n K now s \<equiv> keys_within C n K now (cancel_cache s)"

definition calls_for :: "SessionKey \<Rightarrow> ('c, 'w) coordinator \<Rightarrow> 'w list" where
  "calls_for k s = map snd (filter (\<lambda>x. fst x = k) (cancel_calls s))"

text \<open>The calls that the loops under way still have to make for a session.\<close>

definition outstanding_for :: "SessionKey \<Rightarrow> ('c, 'w) coordinator \<Rightarrow> 'w list" where
  "outstanding_for k s = concat (map snd (filter (\<lambda>x. fst x = k) (cancelling s)))"

lemma cancel_next_cache [simp]: "cancel_cache (cancel_next i s) = cancel_cache s"
  by (simp add: cancel_next_def call_cancel_def split: prod.split list.split)

lemmas cancel_defs = is_cancelled_def ensure_not_cancelled_def cancel_session_def register_cancellable_def cleanup_cancellation_def
  handle_eos_event_def cached_state_def put_cached_state_def change_state_def call_cancel_def start_cancelling_def mk_session_key_def calls_for_def outstanding_for_def

text \<open>An event leaves other sessions alone.\<close>

lemma other_session:
  assumes laws: "ttl_cache_laws C n ttl" and "cancel_room C n K t s" "stores_key e \<subseteq> K" "k \<notin> stores_key e" "k \<notin> forgets_key e" "t \<le> u"
  shows "peek_state C u k (cancel_step C t e s) = peek_state C u k s"
  using assms(2-6)
  by (cases e) (auto simp: cancel_defs peek_touch [OF laws] peek_mut [OF laws] peek_pop [OF laws] peek_later [OF laws]
      keys_within_def peek_set_within [OF laws, where K = K] split: option.splits)


lemma room_later: "keys_within C n K t c \<Longrightarrow> t \<le> u \<Longrightarrow> keys_within C n K u c"
  unfolding keys_within_def by (meson order_trans)

lemma room_parts:
  assumes "ttl_cache_laws C n ttl" "keys_within C n K t c"
  shows "keys_within C n K t (ctouch C t k c)" "keys_within C n K t (cmut C k f c)" "keys_within C n K t (cpop C t k c)"
  using assms(2) unfolding keys_within_def
  by (auto simp: peek_touch [OF assms(1)] peek_mut [OF assms(1)] peek_pop [OF assms(1)] split: if_splits) blast+

lemma room_step:
  assumes "ttl_cache_laws C n ttl" "cancel_room C n K t s" "stores_key e \<subseteq> K"
  shows "cancel_room C n K t (cancel_step C t e s)"
  using assms(2,3)
  by (cases e) (simp_all add: cancel_defs room_parts [OF assms(1)] keys_within_set [OF assms(1)] split: option.split)

text \<open>The entry of a session, with a property of it, for all times up to a bound.\<close>

definition held :: "('c, 'w) cancel_store \<Rightarrow> real \<Rightarrow> real \<Rightarrow> SessionKey \<Rightarrow> ('w CancellationState \<Rightarrow> bool) \<Rightarrow> ('c, 'w) coordinator \<Rightarrow> bool" where
  "held C t b k P s \<longleftrightarrow> (\<exists>st. P st \<and> (\<forall>u. t \<le> u \<and> u \<le> b \<longrightarrow> peek_state C u k s = Some st))"

lemma heldI: "(\<And>u. t \<le> u \<Longrightarrow> u \<le> b \<Longrightarrow> peek_state C u k s = Some st) \<Longrightarrow> P st \<Longrightarrow> held C t b k P s"
  unfolding held_def by blast

lemma held_other:
  assumes "ttl_cache_laws C n ttl" "cancel_room C n K t s" "stores_key e \<subseteq> K" "k \<notin> stores_key e" "k \<notin> forgets_key e" "held C t b k P s"
  shows "held C t b k P (cancel_step C t e s)"
  using assms(6) other_session [OF assms(1-5)] unfolding held_def by (metis order_trans)

lemma held_later: "held C t b k P s \<Longrightarrow> t \<le> u \<Longrightarrow> held C u b k P s"
  unfolding held_def by (meson order_trans)

text \<open>An entry that is marked as cancelled stays so.\<close>

lemma cancelled_stays:
  assumes laws: "ttl_cache_laws C n ttl" and "cancel_room C n K t s" "stores_key e \<subseteq> K" "k \<notin> forgets_key e" "t \<le> b" and held: "held C t b k cancelled s"
  shows "held C t b k cancelled (cancel_step C t e s)"
proof (cases "k \<in> stores_key e")
  case True
  then obtain st where "cancelled st" "peek_state C t k s = Some st"
    using held assms(5) by (auto simp: held_def)
  with True held show ?thesis
    by (cases e) (auto simp: cancel_defs held_def peek_touch [OF laws])
qed (use held_other [OF assms(1-3) _ assms(4) held] in blast)

lemma cancelled_run:
  assumes laws: "ttl_cache_laws C n ttl" and "timed t es b" "cancel_room C n K t s" "held C t b k cancelled s"
    and "\<forall>x \<in> set es. stores_key (snd x) \<subseteq> K \<and> k \<notin> forgets_key (snd x)"
  shows "held C b b k cancelled (run_steps (cancel_step C) es s)"
  using assms(2-)
proof (induction es arbitrary: s t)
  case Nil
  then show ?case using held_later by auto
next
  case (Cons x es)
  obtain u e where x: "x = (u, e)" by fastforce
  then have u: "t \<le> u" "timed u es b" and e: "stores_key e \<subseteq> K" "k \<notin> forgets_key e"
    using Cons.prems(1,4) by auto
  have "cancel_room C n K u s" "held C u b k cancelled s"
    using room_later [OF Cons.prems(2) u(1)] held_later [OF Cons.prems(3) u(1)] .
  then show ?case
    using Cons.IH [OF u(2) room_step [OF laws _ e(1)] cancelled_stays [OF laws _ e timed_le [OF u(2)]]] Cons.prems(4) x by simp
qed

lemma cancel_held:
  assumes laws: "ttl_cache_laws C n ttl" and "t \<le> b" "b < t + ttl" and "peek_state C t k s \<noteq> None \<Longrightarrow> peek_state C b k s \<noteq> None"
  shows "held C t b k cancelled (cancel_session C t k r s)"
proof (cases "peek_state C t k s")
  case None
  with assms(2,3) show ?thesis
    by (auto intro!: heldI simp: cancel_defs peek_set [OF laws])
next
  case (Some st)
  then have stay: "peek_state C u k s = Some st" if "t \<le> u" "u \<le> b" for u
    using that assms(4) peek_later [OF laws that(1), of k "cancel_cache s"] peek_later [OF laws that(2), of k "cancel_cache s"] by auto
  show ?thesis
    unfolding held_def
    by (intro exI [of _ "if cancelled st then st else st\<lparr>cancelled := True, cancel_reason := r, cancelled_at := t, cancellables := []\<rparr>"])
      (auto simp: Some stay cancel_defs peek_touch [OF laws] peek_mut [OF laws])
qed

text \<open>
  C16. The gate in front of backend work stays shut: once a session was cancelled, every call of the guard for a
  request of this session raises the cancellation error, as long as the entry lives (the time to live from
  the cancellation, or from the first registration of work when there is one), whatever is registered,
  checked, cancelled or cleaned up for other sessions and whatever else is registered for this one;
  provided that the store has room for the sessions that are named.
\<close>

theorem cancelled_session_shut:
  assumes "ttl_cache_laws C n ttl" and "resolve_session_key (Some ctx) = Some k"
    and "timed t es b" "b < t + ttl" and "peek_state C t k s \<noteq> None \<Longrightarrow> peek_state C b k s \<noteq> None"
    and "keys_within C n K t (cancel_cache s)" "k \<in> K" "\<forall>x \<in> set es. stores_key (snd x) \<subseteq> K \<and> k \<notin> forgets_key (snd x)"
  shows "\<exists>reason s'. ensure_session_active (Some C) strict b (Some ctx) purpose scope (run_steps (cancel_step C) ((t, Cancel k r) # es) s) =
    (Inl (session_cancelled_error k reason), s')"
proof -
  have "held C t b k cancelled (cancel_session C t k r s)"
    using cancel_held [OF assms(1) timed_le [OF assms(3)] assms(4,5)] .
  moreover have "cancel_room C n K t (cancel_session C t k r s)"
    using room_step [OF assms(1,6), of "Cancel k r"] assms(7) by simp
  ultimately have "held C b b k cancelled (run_steps (cancel_step C) es (cancel_session C t k r s))"
    using cancelled_run [OF assms(1,3)] assms(8) by blast
  then show ?thesis
    using assms(2) by (auto simp: held_def ensure_session_active_def ensure_not_cancelled_def cached_state_def Let_def)
qed

section \<open>Registered work\<close>

text \<open>The work that events register for a session, and whether they cancel it.\<close>

fun registered :: "SessionKey \<Rightarrow> (real \<times> 'w cancel_event) list \<Rightarrow> 'w list" where
  "registered k [] = []"
| "registered k ((t, e) # es) = (case e of Register k' w \<Rightarrow> if k' = k then [w] else [] | _ \<Rightarrow> []) @ registered k es"

definition cancels :: "SessionKey \<Rightarrow> 'w cancel_event \<Rightarrow> bool" where
  "cancels k e \<longleftrightarrow> (\<exists>r. e = Cancel k r)"

text \<open>A step of a loop turns an outstanding call into one that is made.\<close>

definition all_calls :: "SessionKey \<Rightarrow> ('c, 'w) coordinator \<Rightarrow> 'w multiset" where
  "all_calls k s = mset (calls_for k s) + mset (outstanding_for k s)"

lemma cancel_next_calls [simp]: "all_calls k (cancel_next i s) = all_calls k s"
proof (cases "i < length (cancelling s)")
  case True
  obtain k' ws where x: "cancelling s ! i = (k', ws)" by fastforce
  have split: "cancelling s = take i (cancelling s) @ (k', ws) # drop (Suc i) (cancelling s)"
    using id_take_nth_drop [OF True] x by simp
  have upd: "(cancelling s)[i := y] = take i (cancelling s) @ y # drop (Suc i) (cancelling s)" for y
    using upd_conv_take_nth_drop [OF True] .
  show ?thesis
  proof (cases ws)
    case Nil
    with x show ?thesis by (simp add: cancel_next_def)
  next
    case (Cons w ws')
    have out: "outstanding_for k s = concat (map snd (filter (\<lambda>x. fst x = k) (take i (cancelling s)))) @ (if k' = k then ws else []) @
        concat (map snd (filter (\<lambda>x. fst x = k) (drop (Suc i) (cancelling s))))"
      unfolding outstanding_for_def by (subst split) simp
    show ?thesis
      using True x Cons out by (simp add: cancel_next_def all_calls_def calls_for_def call_cancel_def outstanding_for_def upd)
  qed
qed (simp add: cancel_next_def)

text \<open>The entry and the calls of a session for which \<open>ws\<close> was registered, cancelled or not.\<close>

definition work_ok :: "('c, 'w) cancel_store \<Rightarrow> real \<Rightarrow> real \<Rightarrow> SessionKey \<Rightarrow> 'w list \<Rightarrow> bool \<Rightarrow> ('c, 'w) coordinator \<Rightarrow> bool" where
  "work_ok C t b k ws shut s \<longleftrightarrow>
     all_calls k s = (if shut then mset ws else {#}) \<and>
     (if ws = [] \<and> \<not> shut then \<forall>u. t \<le> u \<and> u \<le> b \<longrightarrow> peek_state C u k s = None
      else held C t b k (\<lambda>st. cancelled st = shut \<and> cancellables st = (if shut then [] else ws)) s)"

lemma calls_other: "k \<notin> stores_key e \<Longrightarrow> all_calls k (cancel_step C t e s) = all_calls k s"
proof (cases "\<exists>i. e = Cancel_Next i")
  case False
  then show "k \<notin> stores_key e \<Longrightarrow> ?thesis"
    by (cases e) (auto simp: all_calls_def cancel_defs split: option.splits)
qed auto

lemma work_later: "work_ok C t b k ws shut s \<Longrightarrow> t \<le> u \<Longrightarrow> work_ok C u b k ws shut s"
  using held_later [of C t b k _ s u] unfolding work_ok_def by (auto split: if_splits)

lemma work_other:
  assumes "ttl_cache_laws C n ttl" "cancel_room C n K t s" "stores_key e \<subseteq> K" "k \<notin> stores_key e" "k \<notin> forgets_key e" "work_ok C t b k ws shut s"
  shows "work_ok C t b k ws shut (cancel_step C t e s)"
  using assms(6) held_other [OF assms(1-5)] other_session [OF assms(1-5)] calls_other [OF assms(4), of C t s]
  unfolding work_ok_def by (auto split: if_splits)

lemma work_cancel:
  assumes laws: "ttl_cache_laws C n ttl" and "t \<le> b" "b < t + ttl" and ok: "work_ok C t b k ws shut s"
  shows "work_ok C t b k ws True (cancel_session C t k r s)"
proof (cases "peek_state C t k s")
  case None
  then have "ws = []" "\<not> shut" using ok assms(2) by (auto simp: work_ok_def held_def split: if_splits)
  with None ok assms(2,3) show ?thesis
    unfolding work_ok_def by (auto intro!: heldI simp: all_calls_def cancel_defs peek_set [OF laws])
next
  case (Some st)
  then have "\<not> (ws = [] \<and> \<not> shut)" "cancelled st = shut" "cancellables st = (if shut then [] else ws)"
    and stay: "\<forall>u. t \<le> u \<and> u \<le> b \<longrightarrow> peek_state C u k s = Some st"
    using ok assms(2) by (auto simp: work_ok_def held_def split: if_splits)
  moreover have "all_calls k s = (if shut then mset ws else {#})"
    using ok by (simp add: work_ok_def)
  ultimately show ?thesis
    unfolding work_ok_def by (auto intro!: heldI simp: all_calls_def Some cancel_defs peek_touch [OF laws] peek_mut [OF laws] comp_def)
qed

lemma work_register:
  assumes laws: "ttl_cache_laws C n ttl" and "t \<le> b" "b < t + ttl" and ok: "work_ok C t b k ws shut s"
  shows "work_ok C t b k (ws @ [w]) shut (register_cancellable C t k w s)"
proof (cases "peek_state C t k s")
  case None
  then have "ws = []" "\<not> shut" using ok assms(2) by (auto simp: work_ok_def held_def split: if_splits)
  with None ok assms(2,3) show ?thesis
    unfolding work_ok_def by (auto intro!: heldI simp: all_calls_def cancel_defs peek_set [OF laws] peek_mut [OF laws])
next
  case (Some st)
  then have "\<not> (ws = [] \<and> \<not> shut)" "cancelled st = shut" "cancellables st = (if shut then [] else ws)"
    and stay: "\<forall>u. t \<le> u \<and> u \<le> b \<longrightarrow> peek_state C u k s = Some st"
    using ok assms(2) by (auto simp: work_ok_def held_def split: if_splits)
  moreover have "all_calls k s = (if shut then mset ws else {#})"
    using ok by (simp add: work_ok_def)
  ultimately show ?thesis
    unfolding work_ok_def by (auto intro!: heldI simp: all_calls_def Some cancel_defs peek_touch [OF laws] peek_mut [OF laws] comp_def)
qed

lemma work_run:
  assumes laws: "ttl_cache_laws C n ttl" and "timed t es b" "b < t + ttl" "cancel_room C n K t s" "work_ok C t b k ws shut s"
    and "\<forall>x \<in> set es. stores_key (snd x) \<subseteq> K \<and> k \<notin> forgets_key (snd x)"
  shows "work_ok C b b k (ws @ registered k es) (shut \<or> (\<exists>x \<in> set es. cancels k (snd x))) (run_steps (cancel_step C) es s)"
  using assms(2-)
proof (induction es arbitrary: s t ws shut)
  case Nil
  then show ?case using work_later by auto
next
  case (Cons x es)
  obtain u e where x: "x = (u, e)" by fastforce
  then have u: "t \<le> u" "timed u es b" "u \<le> b" "b < u + ttl" and e: "stores_key e \<subseteq> K" "k \<notin> forgets_key e"
    using Cons.prems(1,2,5) timed_le [of u es b] by auto
  have room: "cancel_room C n K u s" and ok: "work_ok C u b k ws shut s"
    using room_later [OF Cons.prems(3) u(1)] work_later [OF Cons.prems(4) u(1)] .
  let ?ws = "case e of Register k' w \<Rightarrow> if k' = k then [w] else [] | _ \<Rightarrow> []"
  have "work_ok C u b k (ws @ ?ws) (shut \<or> cancels k e) (cancel_step C u e s)"
  proof (cases "k \<in> stores_key e")
    case True
    with work_cancel [OF laws u(3,4) ok] work_register [OF laws u(3,4) ok] show ?thesis
      by (cases e) (auto simp: cancels_def)
  next
    case False
    with work_other [OF laws room e(1) False e(2) ok] show ?thesis
      by (cases e) (auto simp: cancels_def)
  qed
  from Cons.IH [OF u(2,4) room_step [OF laws room e(1)] this] Cons.prems(5) x show ?case
    by (simp add: disj_assoc)
qed

text \<open>
  C15. The work of a cancelled session is cancelled exactly once: through any interleaving of operations, with the \<^verbatim>\<open>cancel\<close>
  calls of a cancellation as steps of their own outside the lock, the calls that are made for a session together with those
  that its loops still have to make are one for each piece of work registered for it, no matter whether it was
  registered before or after the cancellation, when the session was cancelled, however often; and none when it was not. This is
  within the time to live from the first of these operations (an hour by default), for a session that is not cleaned up
  meanwhile and a store with room for the sessions that are named; other sessions have no influence.
\<close>

theorem work_cancelled_exactly_once:
  assumes "ttl_cache_laws C n ttl" and "timed t es b" "b < t + ttl" and "keys_within C n K t (cancel_cache s)"
    and "\<forall>u. t \<le> u \<longrightarrow> peek_state C u k s = None" "calls_for k s = []" "outstanding_for k s = []"
    and "\<forall>x \<in> set es. stores_key (snd x) \<subseteq> K \<and> k \<notin> forgets_key (snd x)"
  shows "mset (calls_for k (run_steps (cancel_step C) es s)) + mset (outstanding_for k (run_steps (cancel_step C) es s)) =
    (if \<exists>x \<in> set es. cancels k (snd x) then mset (registered k es) else {#})"
proof -
  have "work_ok C t b k [] False s"
    using assms(5-7) by (simp add: work_ok_def all_calls_def)
  from work_run [OF assms(1-4) this assms(8)] show ?thesis
    by (simp add: work_ok_def all_calls_def)
qed

section \<open>Guarded streams\<close>

text \<open>A guarded stream delivers chunks up to the cancellation and none after it.\<close>

lemma guarded_stream_prefix:
  "wrap_stream_with_cancellation stopped start stream =
     (if stopped start then [] else map snd (takeWhile (\<lambda>x. \<not> stopped (fst x)) stream))"
proof -
  have "guarded_chunks stopped stream = map snd (takeWhile (\<lambda>x. \<not> stopped (fst x)) stream)"
    by (induction stopped stream rule: guarded_chunks.induct) auto
  then show ?thesis by (simp add: wrap_stream_with_cancellation_def)
qed

end
