(* ===== verification/Cancel_Examples.thy ===== *)
theory Cancel_Examples
  imports Cancel_Theorems Reference_Cache
begin

text \<open>Session cancellation on concrete calls, with the reference cache in place of the store.\<close>

definition example_store :: "((SessionKey, nat CancellationState) list_cache, nat) cancel_store" where
  "example_store = list_cache CANCELLATION_MAXSIZE DEFAULT_CANCELLATION_TTL_SECONDS"

definition no_sessions :: "((SessionKey, nat CancellationState) list_cache, nat) coordinator" where
  "no_sessions = \<lparr>cancel_cache = [], cancel_calls = [], cancelling = []\<rparr>"

definition http_key :: "string \<Rightarrow> SessionKey" where
  "http_key i = \<lparr>protocol = ''http'', primary_id = i, group_id = None\<rparr>"

definition http_context :: "string \<Rightarrow> HttpContext" where
  "http_context i = \<lparr>ctx_session_id = None, extensions = [], ctx_request_id = Some i, ctx_headers = [], ctx_domain_request = None\<rparr>"

lemma cancel_store_laws: "ttl_cache_laws example_store 100000 3600"
  using list_cache_laws [of 100000 3600]
  by (simp add: example_store_def CANCELLATION_MAXSIZE_def DEFAULT_CANCELLATION_TTL_SECONDS_def)

lemma empty_peek [simp]: "cpeek example_store t k [] = None"
  by (simp add: example_store_def list_peek_def)

lemma two_sessions_fit: "keys_within example_store 100000 {http_key ''r1'', http_key ''r2''} 0 (cancel_cache no_sessions)"
  by (simp add: keys_within_def no_sessions_def card_insert_if)

text \<open>Work is registered while the cancellation of earlier work is under way.\<close>

definition some_calls :: "(real \<times> nat cancel_event) list" where
  "some_calls = [(1, Register (http_key ''r1'') 1), (2, Register (http_key ''r2'') 2), (3, Cancel (http_key ''r1'') CLIENT_DISCONNECTED),
     (4, Register (http_key ''r1'') 3), (5, Cancel (http_key ''r1'') CLIENT_CANCELLED), (6, Cleanup (http_key ''r2'')), (7, Cancel_Next 0)]"

theorem work_cancelled_exactly_once_witness:
  "mset (calls_for (http_key ''r1'') (run_steps (cancel_step example_store) some_calls no_sessions)) +
     mset (outstanding_for (http_key ''r1'') (run_steps (cancel_step example_store) some_calls no_sessions)) = {#1, 3#}"
proof -
  have "\<forall>x \<in> set some_calls. stores_key (snd x) \<subseteq> {http_key ''r1'', http_key ''r2''} \<and> http_key ''r1'' \<notin> forgets_key (snd x)"
    by (simp add: some_calls_def http_key_def)
  moreover have "timed 0 some_calls 8" by (simp add: some_calls_def)
  moreover have "registered (http_key ''r1'') some_calls = [1, 3]" "\<exists>x \<in> set some_calls. cancels (http_key ''r1'') (snd x)"
    by (simp_all add: some_calls_def http_key_def cancels_def)
  ultimately show ?thesis
    using work_cancelled_exactly_once [OF cancel_store_laws, of 0 some_calls 8, OF _ _ two_sessions_fit, of "http_key ''r1''"]
    by (simp add: no_sessions_def calls_for_def outstanding_for_def)
qed

theorem cancelled_session_shut_witness:
  "\<exists>reason s'. ensure_session_active (Some example_store) True 3000 (Some (http_context ''r1'')) ''failover_attempt'' False
     (run_steps (cancel_step example_store) [(0, Cancel (http_key ''r1'') CLIENT_DISCONNECTED), (1, Register (http_key ''r2'') 2), (2, Cleanup (http_key ''r2''))] no_sessions) =
     (Inl (session_cancelled_error (http_key ''r1'') reason), s')"
proof -
  let ?es = "[(1, Register (http_key ''r2'') 2), (2, Cleanup (http_key ''r2''))]"
  have "resolve_session_key (Some (http_context ''r1'')) = Some (http_key ''r1'')"
    by code_simp
  moreover have "\<forall>x \<in> set ?es. stores_key (snd x) \<subseteq> {http_key ''r1'', http_key ''r2''} \<and> http_key ''r1'' \<notin> forgets_key (snd x)"
    by (simp add: http_key_def)
  moreover have "timed 0 ?es 3000" by simp
  ultimately show ?thesis
    using cancelled_session_shut [OF cancel_store_laws, of "http_context ''r1''" "http_key ''r1''" 0 ?es 3000 no_sessions
        "{http_key ''r1'', http_key ''r2''}" True "''failover_attempt''" False CLIENT_DISCONNECTED] two_sessions_fit
    by (simp add: no_sessions_def del: run_steps.simps)
qed

section \<open>Differences from the descriptions\<close>

text \<open>
  Registered work is kept for an hour from the first registration of its session and is not kept longer by
  later calls: work of a session that runs longer is not cancelled with it.
\<close>

lemma long_running_work_not_cancelled:
  "all_calls k (run_steps (cancel_step example_store) [(0, Register k 1), (3601, Cancel k CLIENT_DISCONNECTED)] no_sessions) = {#}"
  by (simp add: all_calls_def cancel_defs no_sessions_def example_store_def list_peek_def list_set_def list_touch_def list_evict_def list_mut_def
      DEFAULT_CANCELLATION_TTL_SECONDS_def CANCELLATION_MAXSIZE_def list_items_def AList.delete_eq)

text \<open>
  The cleaning up at the end of a session makes a key without the conversation, which differs from the key of a
  request with a conversation: the entry of such a session stays until it expires.
\<close>

lemma eos_keeps_conversation_session:
  assumes "group_id k = Some g" "t \<le> u"
  shows "cpeek example_store u k (cancel_cache (handle_eos_event example_store t i s)) = cpeek example_store u k (cancel_cache s)"
  using assms peek_pop [OF cancel_store_laws assms(2)]
  by (auto simp: handle_eos_event_def mk_session_key_def cleanup_cancellation_def split: option.split)

end
