(* ===== verification/Py_Regex.thy ===== *)
theory Py_Regex
  imports Loop_Window
begin

text \<open>
  The part of Python's \<^verbatim>\<open>re\<close> that the retry hints use: patterns that ignore case, matched by backtracking. A match
  function returns all ways to match in the order in which the backtracking tries them; the first one counts.
  Repetitions are greedy and over single characters.
\<close>

datatype rx =
    Lit string
  | Class "char \<Rightarrow> bool"
  | Many0 "char \<Rightarrow> bool"
  | Many1 "char \<Rightarrow> bool"
  | Seq rx rx
  | Alt rx rx
  | Opt rx
  | Group nat rx
  | Word_Boundary
  | End_Of_Text

text \<open>A position in the text: what is before it (backwards), what is after it, and the groups matched so far.\<close>

type_synonym rx_pos = "string \<times> string \<times> (nat \<times> string) list"

definition py_isword :: "char \<Rightarrow> bool" where
  "py_isword c \<longleftrightarrow> py_isalpha c \<or> py_isdigit c \<or> c = CHR ''_'' \<or>
     (let n = (of_char c :: nat) in n = 178 \<or> n = 179 \<or> n = 185 \<or> n = 188 \<or> n = 189 \<or> n = 190)"

definition word_at :: "string \<Rightarrow> bool" where
  "word_at s \<longleftrightarrow> (case s of [] \<Rightarrow> False | c # _ \<Rightarrow> py_isword c)"

text \<open>The ways to take characters of a class from the front, the longest first.\<close>

fun greedy :: "(char \<Rightarrow> bool) \<Rightarrow> string \<Rightarrow> string \<Rightarrow> (string \<times> string) list" where
  "greedy p prior [] = [(prior, [])]"
| "greedy p prior (c # s) = (if p c then greedy p (c # prior) s @ [(prior, c # s)] else [(prior, c # s)])"

fun rx_match :: "rx \<Rightarrow> rx_pos \<Rightarrow> rx_pos list" where
  "rx_match (Lit w) (prior, rest, groups) =
     (if py_lower (take (length w) rest) = py_lower w
      then [(rev (take (length w) rest) @ prior, drop (length w) rest, groups)] else [])"
| "rx_match (Class p) (prior, rest, groups) =
     (case rest of c # s \<Rightarrow> if p c then [(c # prior, s, groups)] else [] | [] \<Rightarrow> [])"
| "rx_match (Many0 p) (prior, rest, groups) = map (\<lambda>(b, r). (b, r, groups)) (greedy p prior rest)"
| "rx_match (Many1 p) (prior, rest, groups) =
     (case rest of c # s \<Rightarrow> if p c then map (\<lambda>(b, r). (b, r, groups)) (greedy p (c # prior) s) else [] | [] \<Rightarrow> [])"
| "rx_match (Seq x y) pos = concat (map (rx_match y) (rx_match x pos))"
| "rx_match (Alt x y) pos = rx_match x pos @ rx_match y pos"
| "rx_match (Opt x) pos = rx_match x pos @ [pos]"
| "rx_match (Group n x) (prior, rest, groups) =
     map (\<lambda>(b, r, g). (b, r, (n, rev (take (length b - length prior) b)) # g)) (rx_match x (prior, rest, groups))"
| "rx_match Word_Boundary (prior, rest, groups) = (if word_at prior \<noteq> word_at rest then [(prior, rest, groups)] else [])"
| "rx_match End_Of_Text (prior, rest, groups) = (if rest = [] then [(prior, rest, groups)] else [])"

definition rx_first :: "rx_pos list \<Rightarrow> (nat \<rightharpoonup> string) option" where
  "rx_first ps = (case ps of [] \<Rightarrow> None | (_, _, groups) # _ \<Rightarrow> Some (map_of groups))"

text \<open>\<^verbatim>\<open>pattern.match(text)\<close> and \<^verbatim>\<open>pattern.search(text)\<close>, with the groups of the match.\<close>

definition re_match :: "rx \<Rightarrow> string \<Rightarrow> (nat \<rightharpoonup> string) option" where
  "re_match r text = rx_first (rx_match r ([], text, []))"

fun rx_search_from :: "rx \<Rightarrow> string \<Rightarrow> string \<Rightarrow> (nat \<rightharpoonup> string) option" where
  "rx_search_from r prior [] = rx_first (rx_match r (prior, [], []))"
| "rx_search_from r prior (c # s) =
     (case rx_first (rx_match r (prior, c # s, [])) of Some m \<Rightarrow> Some m | None \<Rightarrow> rx_search_from r (c # prior) s)"

definition re_search :: "rx \<Rightarrow> string \<Rightarrow> (nat \<rightharpoonup> string) option" where
  "re_search r text = rx_search_from r [] text"

definition rx_seq :: "rx list \<Rightarrow> rx" where
  "rx_seq rs = foldr Seq rs (Lit [])"

fun rx_alt :: "rx list \<Rightarrow> rx" where
  "rx_alt [] = Class (\<lambda>_. False)"
| "rx_alt [r] = r"
| "rx_alt (r # rs) = Alt r (rx_alt rs)"

end
