(* ===== verification/Retry_After.thy ===== *)
theory Retry_After
  imports Py_Regex Routing_Context
begin

text \<open>
  How long to wait after a failure (\<^verbatim>\<open>src/core/services/resilience/retry_after.py\<close>): the hint is read from
  the attributes, the details, the headers and at last the texts of an error of the proxy. Reading an HTTP date
  (\<^verbatim>\<open>email.utils\<close>) is an argument; floats are exact.
\<close>

section \<open>Failures\<close>

text \<open>An error of the proxy with the attributes the hints are read from; its text is its message.\<close>

record failure = exn +
  reset_at :: json
  retry_after :: json
  response_headers :: "jdict option"

section \<open>Patterns\<close>

definition rx_number :: rx where
  "rx_number = Seq (Many1 py_isdigit) (Opt (Seq (Lit ''.'') (Many1 py_isdigit)))"

definition plural :: "string \<Rightarrow> rx" where
  "plural w = Seq (Lit w) (Opt (Lit ''s''))"

definition rx_unit :: rx where
  "rx_unit = rx_alt [plural ''second'', plural ''sec'', Lit ''sec'', Lit ''s'', plural ''minute'', plural ''min'', Lit ''min'', Lit ''m'',
     plural ''hour'', plural ''hr'', Lit ''hr'', Lit ''h'']"

definition MESSAGE_AFTER_OR_IN_RE :: rx where
  "MESSAGE_AFTER_OR_IN_RE =
     rx_seq [Alt (Lit ''after'') (Lit ''in''), Many1 py_isspace, Group 1 rx_number, Many0 py_isspace, Group 2 rx_unit, Word_Boundary]"

definition MESSAGE_WAIT_RE :: rx where
  "MESSAGE_WAIT_RE =
     rx_seq [Lit ''wait'', Many1 py_isspace, Group 1 rx_number, Many0 py_isspace, Opt (Group 2 rx_unit), Word_Boundary]"

definition MESSAGE_DURATION_RE :: rx where
  "MESSAGE_DURATION_RE =
     (let seconds_part = Seq rx_number (Lit ''s''); minutes_part = Seq (Many1 py_isdigit) (Lit ''m'') in
      rx_seq [Word_Boundary,
        Group 1 (rx_alt [rx_seq [Many1 py_isdigit, Lit ''h'', Opt minutes_part, Opt seconds_part], Seq minutes_part (Opt seconds_part), seconds_part]),
        Word_Boundary])"

definition DURATION_RE :: rx where
  "DURATION_RE =
     rx_seq [Many0 py_isspace, Opt (Seq (Group 1 rx_number) (Lit ''h'')), Opt (Seq (Group 2 rx_number) (Lit ''m'')),
       Opt (Seq (Group 3 rx_number) (Lit ''s'')), Many0 py_isspace, End_Of_Text]"

section \<open>Durations\<close>

fun finite_non_negative :: "pyfloat \<Rightarrow> real option" where
  "finite_non_negative (Finite r) = (if 0 \<le> r then Some r else None)"
| "finite_non_negative _ = None"

fun normalize_seconds :: "json \<Rightarrow> real option" where
  "normalize_seconds (JInt i) = finite_non_negative (Finite (real_of_int i))"
| "normalize_seconds (JFloat f) = finite_non_negative f"
| "normalize_seconds (JStr s) = Option.bind (py_float s) finite_non_negative"
| "normalize_seconds _ = None"

text \<open>A matched number as a float; the patterns match only numbers.\<close>

definition number_value :: "string \<Rightarrow> real" where
  "number_value s = (case normalize_seconds (JStr s) of None \<Rightarrow> 0 | Some r \<Rightarrow> r)"

definition part_value :: "(nat \<rightharpoonup> string) \<Rightarrow> nat \<Rightarrow> real \<Rightarrow> real" where
  "part_value groups n multiplier = (case groups n of None \<Rightarrow> 0 | Some s \<Rightarrow> number_value s * multiplier)"

definition parse_duration_hint :: "json \<Rightarrow> real option" where
  "parse_duration_hint duration =
     (case as_str duration of
        None \<Rightarrow> None
      | Some text \<Rightarrow>
          (let stripped = py_strip text in
           if stripped = [] then None
           else (case normalize_seconds (JStr stripped) of
                   Some r \<Rightarrow> Some r
                 | None \<Rightarrow>
                     (case re_match DURATION_RE stripped of
                        None \<Rightarrow> None
                      | Some g \<Rightarrow>
                          (if g 1 = None \<and> g 2 = None \<and> g 3 = None then None
                           else Some (part_value g 1 3600 + part_value g 2 60 + part_value g 3 1))))))"

section \<open>Headers and details\<close>

definition py_upper :: "string \<Rightarrow> string" where
  "py_upper s = map (\<lambda>c. if py_isalpha c \<and> (97 \<le> (of_char c :: nat) \<and> (of_char c :: nat) \<le> 122) then char_of ((of_char c :: nat) - 32) else c) s"

fun title_from :: "bool \<Rightarrow> string \<Rightarrow> string" where
  "title_from inside [] = []"
| "title_from inside (c # s) = (if inside then py_lower [c] else py_upper [c]) @ title_from (py_isalpha c) s"

definition py_title :: "string \<Rightarrow> string" where
  "py_title s = title_from False s"

definition headers_get :: "jdict \<Rightarrow> string \<Rightarrow> json" where
  "headers_get headers key =
     (case find (\<lambda>k. dict_has k headers) [key, py_lower key, py_upper key, py_title key] of
        Some k \<Rightarrow> dict_get k headers
      | None \<Rightarrow> (case find (\<lambda>(k, v). py_lower k = py_lower key) headers of Some (k, v) \<Rightarrow> v | None \<Rightarrow> JNull))"

definition parse_retry_hint_header :: "(string \<Rightarrow> real option) \<Rightarrow> real \<Rightarrow> json \<Rightarrow> real option" where
  "parse_retry_hint_header http_date now v =
     (case normalize_seconds v of
        Some r \<Rightarrow> Some r
      | None \<Rightarrow> (case as_str v of
                  None \<Rightarrow> None
                | Some s \<Rightarrow> map_option (\<lambda>d. max 0 (d - now)) (http_date s)))"

definition first_value :: "('a \<Rightarrow> 'b option) \<Rightarrow> 'a list \<Rightarrow> 'b option" where
  "first_value f xs = (case List.map_filter f xs of [] \<Rightarrow> None | y # _ \<Rightarrow> Some y)"

definition extract_from_headers :: "(string \<Rightarrow> real option) \<Rightarrow> real \<Rightarrow> jdict \<Rightarrow> real option" where
  "extract_from_headers http_date now headers =
     first_value (\<lambda>key. parse_retry_hint_header http_date now (headers_get headers key)) [''retry-after'', ''retry_after'', ''retryAfter'']"

definition list_of :: "json \<Rightarrow> json list" where
  "list_of v = (case as_list v of None \<Rightarrow> [] | Some xs \<Rightarrow> xs)"

definition detail_objects :: "jdict \<Rightarrow> jdict list" where
  "detail_objects payload =
     List.map_filter as_dict
       (list_of (dict_get ''details'' payload) @
        (case as_dict (dict_get ''error'' payload) of None \<Rightarrow> [] | Some nested \<Rightarrow> list_of (dict_get ''details'' nested)))"

definition metadata_delay :: "jdict \<Rightarrow> real option" where
  "metadata_delay detail =
     (case as_dict (dict_get ''metadata'' detail) of
        None \<Rightarrow> None
      | Some metadata \<Rightarrow>
          first_value (\<lambda>key. parse_duration_hint (headers_get metadata key))
            [''quotaResetDelay'', ''retryDelay'', ''retry_after_seconds'', ''retry_after'', ''retryAfter''])"

definition extract_google_retry_after :: "jdict \<Rightarrow> real option" where
  "extract_google_retry_after details =
     first_value (\<lambda>detail. case parse_duration_hint (dict_get ''retryDelay'' detail) of Some r \<Rightarrow> Some r | None \<Rightarrow> metadata_delay detail)
       (detail_objects details)"

definition extract_from_details :: "(string \<Rightarrow> real option) \<Rightarrow> real \<Rightarrow> jdict \<Rightarrow> real option" where
  "extract_from_details http_date now details =
     (case first_value (\<lambda>key. normalize_seconds (headers_get details key)) [''retry_after_seconds'', ''retry_after'', ''retryAfter''] of
        Some r \<Rightarrow> Some r
      | None \<Rightarrow>
          (case Option.bind (as_dict (dict_get ''headers'' details)) (extract_from_headers http_date now) of
             Some r \<Rightarrow> Some r
           | None \<Rightarrow> extract_google_retry_after details))"

definition extract_from_reset_at :: "real \<Rightarrow> failure \<Rightarrow> real option" where
  "extract_from_reset_at now e =
     (case normalize_seconds (reset_at e) of
        None \<Rightarrow> None
      | Some r \<Rightarrow> if r \<ge> now \<or> r > 10 ^ 9 then Some (max 0 (r - now)) else Some r)"

section \<open>Messages\<close>

definition duration_multiplier :: "string \<Rightarrow> real" where
  "duration_multiplier unit =
     (let u = py_lower unit in
      if u \<in> set [''s'', ''sec'', ''secs'', ''second'', ''seconds''] then 1
      else if u \<in> set [''m'', ''min'', ''mins'', ''minute'', ''minutes''] then 60
      else if u \<in> set [''h'', ''hr'', ''hrs'', ''hour'', ''hours''] then 3600
      else 1)"

definition unit_duration :: "rx \<Rightarrow> string \<Rightarrow> real option" where
  "unit_duration pattern message =
     (case re_search pattern message of
        None \<Rightarrow> None
      | Some g \<Rightarrow> Some (number_value (case g 1 of None \<Rightarrow> [] | Some s \<Rightarrow> s) * duration_multiplier (case g 2 of None \<Rightarrow> ''s'' | Some u \<Rightarrow> u)))"

definition extract_from_message :: "string \<Rightarrow> real option" where
  "extract_from_message message =
     (if message = [] then None
      else (case unit_duration MESSAGE_AFTER_OR_IN_RE message of
              Some r \<Rightarrow> Some r
            | None \<Rightarrow>
                (case unit_duration MESSAGE_WAIT_RE message of
                   Some r \<Rightarrow> Some r
                 | None \<Rightarrow>
                     (case re_search MESSAGE_DURATION_RE message of
                        None \<Rightarrow> None
                      | Some g \<Rightarrow> parse_duration_hint (case g 1 of None \<Rightarrow> JNull | Some s \<Rightarrow> JStr s)))))"

definition message_text :: "json \<Rightarrow> string list" where
  "message_text v = (case as_str v of None \<Rightarrow> [] | Some s \<Rightarrow> if py_strip s = [] then [] else [s])"

definition collect_message_candidates :: "failure \<Rightarrow> string list" where
  "collect_message_candidates e =
     rev (remdups (rev
       (message_text (JStr (exn_message e)) @ message_text (headers_get (exn_details e) ''message'') @
        (case as_dict (dict_get ''error'' (exn_details e)) of None \<Rightarrow> [] | Some nested \<Rightarrow> message_text (headers_get nested ''message'')) @
        message_text (JStr (exn_message e)))))"

definition extract_retry_after_seconds :: "(string \<Rightarrow> real option) \<Rightarrow> real \<Rightarrow> failure \<Rightarrow> real option" where
  "extract_retry_after_seconds http_date now e =
     (case extract_from_reset_at now e of
        Some r \<Rightarrow> Some r
      | None \<Rightarrow>
     (case normalize_seconds (retry_after e) of
        Some r \<Rightarrow> Some r
      | None \<Rightarrow>
     (case extract_from_details http_date now (exn_details e) of
        Some r \<Rightarrow> Some r
      | None \<Rightarrow>
     (case Option.bind (response_headers e) (extract_from_headers http_date now) of
        Some r \<Rightarrow> Some r
      | None \<Rightarrow> first_value extract_from_message (collect_message_candidates e)))))"

end
