(* ===== verification/Failure_Strategy.thy ===== *)
theory Failure_Strategy
  imports Retry_After
begin

text \<open>
  What to do about a failed backend call (\<^verbatim>\<open>failure_handling_strategy.py\<close>, \<^verbatim>\<open>failure_strategy_interface.py\<close>): wait
  and call again, go to another backend, or report the error; and the budget of a request that the recursive
  attempts share (\<^verbatim>\<open>stream_recovery_budget.py\<close>). The text of a number in a message (\<open>show_number\<close>), the
  discovery of backends (which gets a set of names, here in some order) and the clock are arguments; the
  explanation of a decision, which is only logged, is left out.
\<close>

section \<open>Decisions\<close>

datatype FailureDecision = WAIT_AND_RETRY | FAILOVER_IMMEDIATE | SURFACE_ERROR

record FailureHandlingResult =
  fh_decision :: FailureDecision
  fh_wait_seconds :: "real option"
  fh_next_backend :: "string option"
  fh_error_to_surface :: "failure option"

record FailureHandlingConfig =
  max_silent_wait :: real
  total_timeout_budget :: real
  keepalive_interval :: real
  max_failover_hops :: int
  min_retry_wait :: real

definition default_failure_config :: FailureHandlingConfig where
  "default_failure_config =
     \<lparr>max_silent_wait = 60, total_timeout_budget = 90, keepalive_interval = 8, max_failover_hops = 5, min_retry_wait = 1\<rparr>"

definition surface :: "failure \<Rightarrow> FailureHandlingResult" where
  "surface e = \<lparr>fh_decision = SURFACE_ERROR, fh_wait_seconds = None, fh_next_backend = None, fh_error_to_surface = Some e\<rparr>"

definition failure_of :: "exn \<Rightarrow> failure" where
  "failure_of e = exn.extend e \<lparr>reset_at = JNull, retry_after = JNull, response_headers = None\<rparr>"

definition is_failure :: "failure \<Rightarrow> exn_class list \<Rightarrow> bool" where
  "is_failure e cs = isinstance (exn.truncate e) cs"

text \<open>The error for an exhausted budget; only the time budget adds the elapsed time.\<close>

definition exhausted_error :: "string \<Rightarrow> string \<Rightarrow> (string \<times> json) list \<Rightarrow> string list \<Rightarrow> failure" where
  "exhausted_error message model elapsed attempted =
     failure_of (mk_routing_error message
       ([(''code'', JStr ''temporarily_unavailable''), (''category'', JStr ''availability''), (''retryable'', JBool True),
         (''reason'', JStr ''attempt_budget_exhausted''), (''model'', JStr model)] @ elapsed @
        [(''attempted_backends'', JList (map JStr attempted))]))"

section \<open>Recoverable errors\<close>

definition is_recoverable_error :: "(string \<Rightarrow> real option) \<Rightarrow> real \<Rightarrow> failure \<Rightarrow> bool" where
  "is_recoverable_error http_date now e =
     (if is_failure e [AuthenticationError, ValidationError, InvalidRequestError] then False
      else if is_failure e [RateLimitExceededError] then True
      else if exn_status e = 429 then True
      else if exn_status e = 503 then extract_retry_after_seconds http_date now e \<noteq> None
      else if exn_status e \<in> set [400, 401, 403, 500] then False
      else if exn_code e \<in> set [Some ''invalid_api_key'', Some ''model_not_found'', Some ''invalid_request''] then False
      else if exn_code e \<in> set [Some ''rate_limit'', Some ''rate_limit_exceeded'', Some ''quota_exceeded''] then True
      else list_ex (\<lambda>w. py_contains w (py_lower (exn_message e))) [''timeout'', ''connection'', ''network'', ''temporarily''])"

definition has_provider_retry_after_header :: "failure \<Rightarrow> bool" where
  "has_provider_retry_after_header e \<longleftrightarrow>
     dict_has ''retry_after_seconds'' (exn_details e) \<or>
     (case as_dict (dict_get ''headers'' (exn_details e)) of
        None \<Rightarrow> False
      | Some headers \<Rightarrow> dict_get ''retry-after'' headers \<noteq> JNull \<or> dict_get ''Retry-After'' headers \<noteq> JNull)"

definition find_alternatives ::
  "(string \<Rightarrow> string list \<Rightarrow> string list) option \<Rightarrow> string \<Rightarrow> string \<Rightarrow> string list \<Rightarrow> string list option \<Rightarrow> string list" where
  "find_alternatives discovery model current attempted available =
     (let exclude = remdups (attempted @ [current]) in
      case available of
        Some bs \<Rightarrow> filter (\<lambda>b. b \<notin> set exclude) bs
      | None \<Rightarrow> (case discovery of None \<Rightarrow> [] | Some find_instances \<Rightarrow> find_instances model exclude))"

definition wait_time :: "FailureHandlingConfig \<Rightarrow> failure \<Rightarrow> real \<Rightarrow> real" where
  "wait_time cfg e hint = max (hint + (if has_provider_retry_after_header e then 1 else 0)) (min_retry_wait cfg)"

record strategy =
  st_config :: FailureHandlingConfig
  st_discovery :: "(string \<Rightarrow> string list \<Rightarrow> string list) option"
  show_number :: "real \<Rightarrow> string"
  http_date :: "string \<Rightarrow> real option"

definition decide_recovery ::
  "strategy \<Rightarrow> real \<Rightarrow> failure \<Rightarrow> string \<Rightarrow> string \<Rightarrow> string list \<Rightarrow> real \<Rightarrow> bool \<Rightarrow> string list option \<Rightarrow> FailureHandlingResult" where
  "decide_recovery S now e model current attempted elapsed content_begun available =
     (let cfg = st_config S in
      if content_begun then surface e
      else if int (length attempted) \<ge> max_failover_hops cfg then
        surface (exhausted_error (''Attempt budget exhausted. Max failover hops ('' @ py_str_int (max_failover_hops cfg) @
          '') exceeded for model '' @ model @ ''.'') model [] attempted)
      else if elapsed \<ge> total_timeout_budget cfg then
        surface (exhausted_error (''Attempt budget exhausted. Total timeout budget ('' @ show_number S (total_timeout_budget cfg) @
          ''s) exceeded for model '' @ model @ ''.'') model [(''elapsed_time'', JFloat (Finite elapsed))] attempted)
      else
        (let hint = extract_retry_after_seconds (http_date S) now e;
             short = (case hint of
                 None \<Rightarrow> None
               | Some h \<Rightarrow>
                   (if is_recoverable_error (http_date S) now e \<and> h \<le> max_silent_wait cfg \<and>
                      wait_time cfg e h \<le> total_timeout_budget cfg - elapsed
                    then Some (wait_time cfg e h) else None)) in
         case short of
           Some w \<Rightarrow> \<lparr>fh_decision = WAIT_AND_RETRY, fh_wait_seconds = Some w, fh_next_backend = None, fh_error_to_surface = None\<rparr>
         | None \<Rightarrow>
             (case find_alternatives (st_discovery S) model current attempted available of
                b # _ \<Rightarrow> \<lparr>fh_decision = FAILOVER_IMMEDIATE, fh_wait_seconds = None, fh_next_backend = Some b, fh_error_to_surface = None\<rparr>
              | [] \<Rightarrow> surface e)))"

section \<open>The recovery budget\<close>

definition BUDGET_START_TIME_KEY :: string where "BUDGET_START_TIME_KEY = ''recovery_budget_start_time''"
definition ATTEMPTED_BACKENDS_KEY :: string where "ATTEMPTED_BACKENDS_KEY = ''attempted_backends''"
definition RETRY_ATTEMPT_KEY :: string where "RETRY_ATTEMPT_KEY = ''retry_attempt''"
definition MEANINGFUL_OUTPUT_EMITTED_KEY :: string where "MEANINGFUL_OUTPUT_EMITTED_KEY = ''meaningful_output_emitted''"

record StreamRecoveryBudget =
  budget_start_time :: real
  attempted_backends :: "string list"
  budget_retry_attempt :: int
  meaningful_output_emitted :: bool

text \<open>\<^verbatim>\<open>int(text)\<close> of a stripped text: a sign and digits, single underscores between them.\<close>

definition py_int :: "string \<Rightarrow> int option" where
  "py_int s =
     (if int_digits s > INT_MAX_STR_DIGITS then None
      else case py_strip s of
        [] \<Rightarrow> None
      | c # r \<Rightarrow> (if c = CHR ''+'' then (if digitpart r then Some (int (digits_val (drop_underscores r))) else None)
                 else if c = CHR ''-'' then (if digitpart r then Some (- int (digits_val (drop_underscores r))) else None)
                 else if digitpart (c # r) then Some (int (digits_val (drop_underscores (c # r)))) else None))"

fun coerce_retry_attempt :: "json \<Rightarrow> int" where
  "coerce_retry_attempt (JInt i) = max 0 i"
| "coerce_retry_attempt (JBool b) = (if b then 1 else 0)"
| "coerce_retry_attempt (JFloat (Finite r)) = (if of_int \<lfloor>r\<rfloor> = r then max 0 \<lfloor>r\<rfloor> else 0)"
| "coerce_retry_attempt (JStr s) = (if py_strip s = [] then 0 else (case py_int s of None \<Rightarrow> 0 | Some i \<Rightarrow> max 0 i))"
| "coerce_retry_attempt _ = 0"

definition ext_default :: "string \<Rightarrow> json \<Rightarrow> RequestContext \<Rightarrow> RequestContext" where
  "ext_default k v ctx = (if dict_has k (extensions ctx) then ctx else ext_set k v ctx)"

text \<open>A stored start time is finite; nothing stores another one.\<close>

fun as_number :: "json \<Rightarrow> real option" where
  "as_number (JInt i) = Some (real_of_int i)"
| "as_number (JBool b) = Some (if b then 1 else 0)"
| "as_number (JFloat (Finite r)) = Some r"
| "as_number _ = None"

definition stored_backends :: "json \<Rightarrow> string list" where
  "stored_backends v = (case as_list v of None \<Rightarrow> [] | Some xs \<Rightarrow> List.map_filter as_str xs)"

fun as_bool :: "json \<Rightarrow> bool" where
  "as_bool (JBool b) = b"
| "as_bool _ = False"

definition get_or_init_stream_recovery_budget :: "real \<Rightarrow> RequestContext \<Rightarrow> StreamRecoveryBudget \<times> RequestContext" where
  "get_or_init_stream_recovery_budget now ctx0 =
     (let ctx1 = ext_default MEANINGFUL_OUTPUT_EMITTED_KEY (JBool False) (ext_default RETRY_ATTEMPT_KEY (JInt 0)
            (ext_default ATTEMPTED_BACKENDS_KEY (JList []) (ext_default BUDGET_START_TIME_KEY (JFloat (Finite now)) ctx0)));
          start = as_number (ext_get BUDGET_START_TIME_KEY ctx1);
          ctx2 = (if start = None then ext_set BUDGET_START_TIME_KEY (JFloat (Finite now)) ctx1 else ctx1);
          backends = stored_backends (ext_get ATTEMPTED_BACKENDS_KEY ctx2);
          ctx3 = ext_set ATTEMPTED_BACKENDS_KEY (JList (map JStr backends)) ctx2;
          retry = coerce_retry_attempt (ext_get RETRY_ATTEMPT_KEY ctx3);
          ctx4 = ext_set RETRY_ATTEMPT_KEY (JInt retry) ctx3;
          emitted = as_bool (ext_get MEANINGFUL_OUTPUT_EMITTED_KEY ctx4);
          ctx5 = ext_set MEANINGFUL_OUTPUT_EMITTED_KEY (JBool emitted) ctx4 in
      (\<lparr>budget_start_time = (case start of None \<Rightarrow> now | Some r \<Rightarrow> r), attempted_backends = backends,
        budget_retry_attempt = retry, meaningful_output_emitted = emitted\<rparr>, ctx5))"

definition mark_stream_meaningful_output :: "real \<Rightarrow> RequestContext \<Rightarrow> RequestContext" where
  "mark_stream_meaningful_output now ctx =
     ext_set MEANINGFUL_OUTPUT_EMITTED_KEY (JBool True) (snd (get_or_init_stream_recovery_budget now ctx))"

end
