(* ===== verification/Failure_Recovery.thy ===== *)
theory Failure_Recovery
  imports Failure_Strategy Recovery_Bridge
begin

text \<open>
  Recovery from failed backend calls (\<^verbatim>\<open>failure_recovery_executor.py\<close>, with the plans of
  \<^verbatim>\<open>failover_planner.py\<close>, \<^verbatim>\<open>failover_coordinator.py\<close>, \<^verbatim>\<open>failover_strategy.py\<close> and \<^verbatim>\<open>failover_service.py\<close>) and the
  recursion of \<^verbatim>\<open>BackendCompletionFlow.call_completion\<close> through it. What a single backend call does (its
  outcome, how long it takes, what it stores in the context), the target of a request, the availability check, the
  preparation of a call, the cancellation gates and the instances that serve a model are an environment, a
  function of the time, which passes only in backend calls and in waits.
\<close>

section \<open>Failover routes and plans\<close>

record FailoverAttempt =
  fa_backend :: string
  fa_model :: string

record FailoverRouteConfig =
  route_policy :: string
  route_elements :: "string list"

type_synonym failover_routes = "(string \<times> FailoverRouteConfig) list"

definition failover_route :: "failover_routes \<Rightarrow> string \<Rightarrow> FailoverRouteConfig option" where
  "failover_route routes model =
     (case map_of routes model of
        Some r \<Rightarrow> Some r
      | None \<Rightarrow> map_option snd (find (\<lambda>(k, r). py_lower (py_strip k) \<in> set [''default'', ''*'']) routes))"

definition route_attempt :: "string \<Rightarrow> string \<Rightarrow> FailoverAttempt option" where
  "route_attempt default_backend element =
     (let parsed = parse_model_backend element default_backend in
      if pm_backend_type parsed = [] \<or> pm_model_name parsed = [] then None
      else Some \<lparr>fa_backend = pm_backend_type parsed, fa_model = pm_model_name parsed\<rparr>)"

definition get_failover_attempts :: "failover_routes \<Rightarrow> string \<Rightarrow> string \<Rightarrow> FailoverAttempt list" where
  "get_failover_attempts routes model default_backend =
     (case failover_route routes model of
        None \<Rightarrow> []
      | Some r \<Rightarrow> List.map_filter (route_attempt default_backend) (route_elements r))"

definition add_failover_route :: "string \<Rightarrow> FailoverRouteConfig \<Rightarrow> failover_routes \<Rightarrow> failover_routes" where
  "add_failover_route k r routes = AList.update k r routes"

definition remove_failover_route :: "string \<Rightarrow> failover_routes \<Rightarrow> bool \<times> failover_routes" where
  "remove_failover_route k routes = (if map_of routes k = None then (False, routes) else (True, AList.delete k routes))"

definition clear_failover_routes :: "failover_routes \<Rightarrow> failover_routes" where
  "clear_failover_routes routes = []"

text \<open>
  What the planner knows of backends: whether the circuit breaker is configured, which backends are disabled
  for good, and for the active ones whether they work.
\<close>

record planner =
  pl_filter :: bool
  pl_disabled :: "string list"
  pl_functional :: "string \<Rightarrow> bool option"
  pl_use_strategy :: bool
  pl_strategy :: "(string \<Rightarrow> string \<Rightarrow> failure + FailoverAttempt list) option"
  pl_routes :: failover_routes

definition plan_keeps :: "planner \<Rightarrow> FailoverAttempt \<Rightarrow> bool" where
  "plan_keeps P a \<longleftrightarrow>
     fa_backend a \<notin> set (pl_disabled P) \<and>
     (case pl_functional P (fa_backend a) of
        Some ok \<Rightarrow> ok
      | None \<Rightarrow> (case pl_functional P (fa_backend a @ '':default'') of Some ok \<Rightarrow> ok | None \<Rightarrow> True))"

definition filter_unhealthy_backends :: "planner \<Rightarrow> FailoverAttempt list \<Rightarrow> FailoverAttempt list" where
  "filter_unhealthy_backends P plan =
     (if \<not> pl_filter P then plan
      else (let filtered = filter (plan_keeps P) plan in if filtered = [] then plan else filtered))"

definition get_failover_plan :: "planner \<Rightarrow> string \<Rightarrow> string option \<Rightarrow> failure + FailoverAttempt list" where
  "get_failover_plan P model backend =
     (let b = (case backend of None \<Rightarrow> [] | Some x \<Rightarrow> x);
          from_routes = Inr (filter_unhealthy_backends P (get_failover_attempts (pl_routes P) model b)) in
      case (if pl_use_strategy P then pl_strategy P else None) of
        None \<Rightarrow> from_routes
      | Some pick_plan \<Rightarrow>
          (case pick_plan model b of
             Inr plan \<Rightarrow> Inr (filter_unhealthy_backends P plan)
           | Inl e \<Rightarrow> if is_failure e [BackendError, RateLimitExceededError] then from_routes else Inl e))"

section \<open>The environment of a call\<close>

text \<open>
  An answer, or in a stream the chunk that reports an error. A run that has used up its fuel has no outcome; it keeps
  the log of its backend calls, each with the time it started at.
\<close>

datatype 'r reply = Reply 'r | Error_Chunk failure

record 'r run =
  run_outcome :: "(failure + 'r reply) option"
  run_time :: real
  run_context :: "RequestContext option"
  run_attempts :: "(real \<times> string) list"

type_synonym 'r callback = "real \<Rightarrow> ChatRequest \<Rightarrow> bool \<Rightarrow> RequestContext option \<Rightarrow> 'r run"

text \<open>
  The resolver (\<open>env_target\<close>) may fail and may change the context. \<open>env_prepare\<close> stands for the session, the acquired
  backend and the prepared request, \<open>env_call_gate\<close> for the check for cancellation right before the connector is
  invoked, \<open>env_call\<close> for the invocation with what it takes and stores. \<open>env_gate\<close> and \<open>env_wait_gate\<close> are the checks
  of the recovery executor. \<open>env_normalize\<close> is the exception normalizer. \<open>env_thinks\<close> says whether the answer is the
  turn of a thinker, and \<open>env_memo\<close> is the text of such an answer when the client sees it in the stream.
\<close>

record 'r completion_env =
  env_target :: "real \<Rightarrow> ChatRequest \<Rightarrow> RequestContext option \<Rightarrow> (exn + BackendTarget) \<times> RequestContext option"
  env_available :: "real \<Rightarrow> string \<Rightarrow> string \<Rightarrow> failure option"
  env_prepare :: "real \<Rightarrow> ChatRequest \<Rightarrow> BackendTarget \<Rightarrow> RequestContext option \<Rightarrow> failure option \<times> RequestContext option"
  env_call_gate :: "real \<Rightarrow> RequestContext option \<Rightarrow> failure option"
  env_call :: "real \<Rightarrow> ChatRequest \<Rightarrow> BackendTarget \<Rightarrow> RequestContext option \<Rightarrow> (failure + 'r) \<times> real \<times> RequestContext option"
  env_normalize :: "failure \<Rightarrow> failure"
  env_thinks :: "RequestContext option \<Rightarrow> bool"
  env_memo :: "'r \<Rightarrow> string option"
  env_gate :: "real \<Rightarrow> failure option"
  env_wait_gate :: "real \<Rightarrow> failure option"
  env_alternatives :: "(real \<Rightarrow> string \<Rightarrow> string list \<Rightarrow> string list) option"
  env_strategy :: "strategy option"
  env_random :: "real \<Rightarrow> real"
  env_planner :: planner
  env_routes :: "string list"

definition finished :: "failure + 'r reply \<Rightarrow> real \<Rightarrow> RequestContext option \<Rightarrow> 'r run" where
  "finished r now ctx = \<lparr>run_outcome = Some r, run_time = now, run_context = ctx, run_attempts = []\<rparr>"

definition out_of_fuel :: "real \<Rightarrow> RequestContext option \<Rightarrow> 'r run" where
  "out_of_fuel now ctx = \<lparr>run_outcome = None, run_time = now, run_context = ctx, run_attempts = []\<rparr>"

definition after_attempts :: "(real \<times> string) list \<Rightarrow> 'r run \<Rightarrow> 'r run" where
  "after_attempts xs r = r\<lparr>run_attempts := xs @ run_attempts r\<rparr>"

text \<open>\<^verbatim>\<open>except Exception\<close> lets a cancelled task pass.\<close>

definition is_task_cancelled :: "failure \<Rightarrow> bool" where
  "is_task_cancelled e = is_failure e [CancelledErrorClass]"

definition backend_error :: "string \<Rightarrow> int \<Rightarrow> failure" where
  "backend_error message status =
     failure_of \<lparr>exn_class = BackendError, exn_message = message, exn_details = [], exn_status = status, exn_code = None\<rparr>"

section \<open>Complex failover\<close>

fun json_contains :: "string \<Rightarrow> json \<Rightarrow> bool" where
  "json_contains k (JDict d) = dict_has k d"
| "json_contains k (JList xs) = (JStr k \<in> set xs)"
| "json_contains k (JStr s) = py_contains k s"
| "json_contains k _ = False"

definition extra_get :: "string \<Rightarrow> ChatRequest \<Rightarrow> json" where
  "extra_get k request = (case req_extra_body request of None \<Rightarrow> JNull | Some d \<Rightarrow> dict_get k d)"

definition check_complex_failover :: "'r completion_env \<Rightarrow> ChatRequest \<Rightarrow> string \<Rightarrow> bool" where
  "check_complex_failover env request model =
     (if truthy (extra_get ''failover_routes'' request) then json_contains model (extra_get ''failover_routes'' request)
      else model \<in> set (env_routes env))"

definition with_backend :: "string \<Rightarrow> ChatRequest \<Rightarrow> ChatRequest" where
  "with_backend b request =
     request\<lparr>req_extra_body := Some (dict_set ''backend_type'' (JStr b) (case req_extra_body request of None \<Rightarrow> [] | Some d \<Rightarrow> d))\<rparr>"

definition increment_retry_metadata :: "string \<Rightarrow> RequestContext \<Rightarrow> RequestContext" where
  "increment_retry_metadata reason ctx =
     ext_set ''b2bua_attempt_reason'' (JStr reason) (ext_set ''is_retry'' (JBool True)
       (ext_set ''retry_attempt'' (JInt (coerce_retry_attempt (ext_get ''retry_attempt'' ctx) + 1)) ctx))"

text \<open>The attempts of a plan in order; the error of the last one that failed is reported when all did.\<close>

fun attempt_plan ::
  "'r completion_env \<Rightarrow> 'r callback \<Rightarrow> ChatRequest \<Rightarrow> failure option \<Rightarrow> FailoverAttempt list \<Rightarrow> real \<Rightarrow> RequestContext option \<Rightarrow> 'r run" where
  "attempt_plan env call request last_error [] now ctx =
     finished (Inl (backend_error (case last_error of
         None \<Rightarrow> ''All failover attempts failed. No error details available.''
       | Some e \<Rightarrow> ''All failover attempts failed. Last error: '' @ exn_message e) 502)) now ctx"
| "attempt_plan env call request last_error (a # plan) now ctx =
     (case env_gate env now of
        Some e \<Rightarrow> finished (Inl e) now ctx
      | None \<Rightarrow>
          (let r = call now ((with_backend (fa_backend a) request)\<lparr>req_model := fa_model a\<rparr>) False
                  (map_option (increment_retry_metadata ''failover'') ctx) in
           case run_outcome r of
             Some (Inl e) \<Rightarrow>
               if is_task_cancelled e then r
               else after_attempts (run_attempts r) (attempt_plan env call request (Some e) plan (run_time r) (run_context r))
           | _ \<Rightarrow> r))"

definition attempt_failover_plan ::
  "'r completion_env \<Rightarrow> 'r callback \<Rightarrow> ChatRequest \<Rightarrow> FailoverAttempt list \<Rightarrow> real \<Rightarrow> RequestContext option \<Rightarrow> 'r run" where
  "attempt_failover_plan env call request plan now ctx =
     (case env_gate env now of
        Some e \<Rightarrow> finished (Inl e) now ctx
      | None \<Rightarrow>
          (if plan = [] then finished (Inl (backend_error ''all backends failed'' 502)) now ctx
           else attempt_plan env call request None plan now ctx))"

text \<open>Of what the planning raises, four of Python's own exceptions are reported as a failure of all backends.\<close>

definition planning_error :: "failure \<Rightarrow> failure" where
  "planning_error e =
     (if exn_class e \<in> OtherException ` {''TypeError'', ''ValueError'', ''AttributeError'', ''KeyError''}
      then backend_error ''all backends failed'' 502 else e)"

definition execute_complex_failover ::
  "'r completion_env \<Rightarrow> 'r callback \<Rightarrow> ChatRequest \<Rightarrow> string \<Rightarrow> string \<Rightarrow> real \<Rightarrow> RequestContext option \<Rightarrow> 'r run" where
  "execute_complex_failover env call request model backend now ctx =
     (case env_gate env now of
        Some e \<Rightarrow> finished (Inl e) now ctx
      | None \<Rightarrow>
          (case get_failover_plan (env_planner env) model (Some backend) of
             Inl e \<Rightarrow> finished (Inl (planning_error e)) now ctx
           | Inr plan \<Rightarrow> attempt_failover_plan env call request plan now ctx))"

section \<open>Retry and failover\<close>

text \<open>Waiting in slices of a second, with the gate checked around each slice.\<close>

function wait_slices :: "(real \<Rightarrow> failure option) \<Rightarrow> real \<Rightarrow> real \<Rightarrow> failure option \<times> real" where
  "wait_slices gate now remaining =
     (if remaining \<le> 0 then (None, now)
      else (case gate now of
              Some e \<Rightarrow> (Some e, now)
            | None \<Rightarrow>
                (let slice = min 1 remaining in
                 case gate (now + slice) of
                   Some e \<Rightarrow> (Some e, now + slice)
                 | None \<Rightarrow> wait_slices gate (now + slice) (max 0 (remaining - slice)))))"
  by pat_completeness auto

termination
  by (relation "measure (\<lambda>(gate, now, remaining). nat \<lceil>remaining\<rceil>)") (auto simp: max_def min_def ceiling_diff_one less_nat_zero_code)

declare wait_slices.simps [simp del]

text \<open>The list of attempted backends is the one that the context stores.\<close>

definition store_attempted :: "string list \<Rightarrow> RequestContext option \<Rightarrow> RequestContext option" where
  "store_attempted bs ctx = map_option (ext_set ATTEMPTED_BACKENDS_KEY (JList (map JStr bs))) ctx"

definition allow_again :: "string \<Rightarrow> string list \<Rightarrow> string list" where
  "allow_again backend attempted = (if attempted \<noteq> [] \<and> last attempted = backend then butlast attempted else attempted)"

text \<open>
  In a stream the wait and the retry happen while the stream is read, and a failed retry ends it with an error
  chunk. \<open>stream\<close> is the flag of the call; a request that asks for a stream is called with it.
\<close>

definition as_stream :: "'r run \<Rightarrow> 'r run" where
  "as_stream r = r\<lparr>run_outcome := map_option (\<lambda>out. case out of
       Inl e \<Rightarrow> if is_task_cancelled e then out else Inr (Error_Chunk e) | Inr _ \<Rightarrow> out) (run_outcome r)\<rparr>"

definition execute_retry ::
  "'r completion_env \<Rightarrow> 'r callback \<Rightarrow> bool \<Rightarrow> ChatRequest \<Rightarrow> string \<Rightarrow> real option \<Rightarrow> string list \<Rightarrow> real \<Rightarrow> RequestContext option \<Rightarrow> 'r run" where
  "execute_retry env call stream request backend wait attempted now ctx =
     (case env_gate env now of
        Some e \<Rightarrow> finished (Inl e) now ctx
      | None \<Rightarrow>
          (let ctx1 = map_option (increment_retry_metadata ''retry'') ctx;
               seconds = (case wait of None \<Rightarrow> 0 | Some w \<Rightarrow> max 0 w);
               (stopped, t) = (if stream then (None, now + seconds) else wait_slices (env_wait_gate env) now seconds);
               ctx2 = store_attempted (allow_again backend attempted) ctx1 in
           case stopped of
             Some e \<Rightarrow> finished (Inl e) t ctx1
           | None \<Rightarrow> (if stream then as_stream else id) (call t (with_backend backend request) True ctx2)))"

definition execute_failover ::
  "'r completion_env \<Rightarrow> 'r callback \<Rightarrow> ChatRequest \<Rightarrow> string \<Rightarrow> real \<Rightarrow> RequestContext option \<Rightarrow> 'r run" where
  "execute_failover env call request next_backend now ctx =
     (case env_gate env now of
        Some e \<Rightarrow> finished (Inl e) now ctx
      | None \<Rightarrow> call now (with_backend next_backend request) True (map_option (increment_retry_metadata ''failover'') ctx))"

section \<open>The decision after a failure\<close>

definition apply_failure_strategy ::
  "'r completion_env \<Rightarrow> strategy \<Rightarrow> failure \<Rightarrow> string \<Rightarrow> string \<Rightarrow> string list \<Rightarrow> real \<Rightarrow> bool \<Rightarrow> real \<Rightarrow> FailureHandlingResult" where
  "apply_failure_strategy env S e model backend attempted start content_begun now =
     decide_recovery S now e model backend attempted (now - start) content_begun
       (map_option (\<lambda>find_instances. find_instances now model (attempted @ [backend])) (env_alternatives env))"

definition surfaced_error :: "failure \<Rightarrow> failure" where
  "surfaced_error e =
     (if is_failure e [BackendError, RateLimitExceededError, LLMProxyError] then e
      else backend_error (''Backend call failed: '' @ exn_message e) (exn_status e))"

definition normalized_error :: "failure \<Rightarrow> failure" where
  "normalized_error e = (if is_failure e [BackendError] then e else backend_error (exn_message e) 502)"

definition note_attempt :: "string \<Rightarrow> string list \<Rightarrow> string list" where
  "note_attempt backend attempted = (if backend \<in> set attempted then attempted else attempted @ [backend])"

definition apply_failure_recovery ::
  "'r completion_env \<Rightarrow> 'r callback \<Rightarrow> bool \<Rightarrow> failure \<Rightarrow> string \<Rightarrow> string \<Rightarrow> string list \<Rightarrow> real \<Rightarrow> bool \<Rightarrow> ChatRequest \<Rightarrow> real \<Rightarrow>
   RequestContext option \<Rightarrow> 'r run" where
  "apply_failure_recovery env call stream e model backend attempted start content_begun request now ctx0 =
     (let attempted1 = note_attempt backend attempted;
          ctx1 = store_attempted attempted1 ctx0 in
      case build_next_request (env_random env now) request ctx1 content_begun (Some (exn.truncate e)) of
        (Inl err, ctx) \<Rightarrow> finished (Inl (failure_of err)) now ctx
      | (Inr (Some next), ctx) \<Rightarrow>
          call now next True
            (map_option (\<lambda>c. ext_set ''last_retry_reason'' (JStr ''composite_failover'') (increment_retry_metadata ''composite_failover'' c)) ctx)
      | (Inr None, ctx) \<Rightarrow>
          (case env_strategy env of
             None \<Rightarrow> finished (Inl (if is_failure e [BackendError, RateLimitExceededError, LLMProxyError] then e
                 else backend_error (''Backend call failed: '' @ exn_message e) 502)) now ctx
           | Some S \<Rightarrow>
               (let d = apply_failure_strategy env S (normalized_error e) model backend attempted1 start content_begun now in
                case (fh_decision d, fh_next_backend d) of
                  (WAIT_AND_RETRY, _) \<Rightarrow> execute_retry env call stream request backend (fh_wait_seconds d) attempted1 now ctx
                | (FAILOVER_IMMEDIATE, Some b) \<Rightarrow> execute_failover env call request b now ctx
                | _ \<Rightarrow> finished (Inl (case fh_error_to_surface d of Some e' \<Rightarrow> e' | None \<Rightarrow> surfaced_error e)) now ctx)))"

section \<open>The request of a call\<close>

text \<open>
  The request names its target: a model without a backend, or with another one, is replaced, and the body gets the model,
  the backend and the parameters.
\<close>

definition synchronize_request_with_target :: "ChatRequest \<Rightarrow> BackendTarget \<Rightarrow> ChatRequest" where
  "synchronize_request_with_target request t =
     (let should_update_model = (req_model request \<noteq> tgt_model t \<and>
            (has_explicit_backend_selector (req_model request) \<longrightarrow> py_before (CHR '':'') (req_model request) \<noteq> tgt_backend t));
          K = RESOLVED_URI_PARAMS_EXTRA_BODY_KEY;
          body = (case req_extra_body request of
              None \<Rightarrow> if tgt_uri_params t = [] then None else Some [(K, JDict (tgt_uri_params t))]
            | Some d \<Rightarrow>
                (let d1 = (if tgt_uri_params t = [] then dict_pop K d else dict_set K (JDict (tgt_uri_params t)) d);
                     d2 = dict_set ''model'' (JStr (tgt_model t)) d1 in
                 Some (if tgt_backend t = [] then dict_pop ''backend_type'' d2 else dict_set ''backend_type'' (JStr (tgt_backend t)) d2))) in
      request\<lparr>req_model := (if should_update_model then tgt_model t else req_model request), req_extra_body := body\<rparr>)"

text \<open>For the turn of a thinker, reasoning that the client sent along is taken out of the messages.\<close>

definition is_empty_reasoning_only_message :: "jdict \<Rightarrow> bool" where
  "is_empty_reasoning_only_message message =
     ((case dict_get ''content'' message of JStr s \<Rightarrow> py_strip s = [] | JNull \<Rightarrow> True | _ \<Rightarrow> False) \<and>
      \<not> truthy (dict_get ''tool_calls'' message) \<and> \<not> truthy (dict_get ''tool_call_id'' message) \<and> \<not> truthy (dict_get ''name'' message))"

definition strip_message :: "json \<Rightarrow> json option" where
  "strip_message message =
     (case message of
        JDict d \<Rightarrow>
          (if dict_get ''reasoning_content'' d = JNull then Some message
           else (let stripped = dict_pop ''reasoning_content'' d in
                 if is_empty_reasoning_only_message stripped then None else Some (JDict stripped)))
      | _ \<Rightarrow> Some message)"

definition strip_client_reasoning_content_from_request :: "ChatRequest \<Rightarrow> RequestContext option \<Rightarrow> ChatRequest" where
  "strip_client_reasoning_content_from_request request context =
     (if (case context of None \<Rightarrow> False | Some ctx \<Rightarrow> truthy (ext_get COMPOSITE_SELECTED_LEAF_IS_THINKER_KEY ctx))
      then request\<lparr>req_messages := List.map_filter strip_message (req_messages request)\<rparr> else request)"

definition targeted_request :: "ChatRequest \<Rightarrow> BackendTarget \<Rightarrow> RequestContext option \<Rightarrow> ChatRequest" where
  "targeted_request request t context =
     strip_client_reasoning_content_from_request (synchronize_request_with_target request t) context"

section \<open>The second call after the turn of a thinker\<close>

definition INTERLEAVED_THINKING_ACTIVE_KEY :: string where
  "INTERLEAVED_THINKING_ACTIVE_KEY = ''interleaved_thinking_active''"
definition INTERLEAVED_THINKING_DIAGNOSTIC_KEY :: string where
  "INTERLEAVED_THINKING_DIAGNOSTIC_KEY = ''interleaved_thinking_diagnostic''"
definition INTERLEAVED_THINKING_SUPPRESS_MEMO_INJECTION_KEY :: string where
  "INTERLEAVED_THINKING_SUPPRESS_MEMO_INJECTION_KEY = ''interleaved_thinking_suppress_memo_injection''"

definition thinking_continuation_context :: "bool \<Rightarrow> RequestContext \<Rightarrow> RequestContext" where
  "thinking_continuation_context suppress_memo ctx =
     (let c = foldr ext_pop [COMPOSITE_ROUTING_STATE_KEY, ''resolved_uri_params'', COMPOSITE_SELECTED_LEAF_SELECTOR_KEY,
                INTERLEAVED_THINKING_DIAGNOSTIC_KEY, INTERLEAVED_THINKING_ACTIVE_KEY] ctx;
          c' = ext_set SUPPRESS_THINKER_SELECTION_KEY (JBool True) (ext_set COMPOSITE_SELECTED_LEAF_IS_THINKER_KEY (JBool False) c) in
      if suppress_memo then ext_set INTERLEAVED_THINKING_SUPPRESS_MEMO_INJECTION_KEY (JBool True) c' else c')"

definition append_visible_thinking :: "ChatRequest \<Rightarrow> string \<Rightarrow> ChatRequest" where
  "append_visible_thinking request memo =
     (if py_strip memo = [] then request
      else request\<lparr>req_messages := req_messages request @ [JDict [(''role'', JStr ''assistant''), (''content'', JStr (py_strip memo)),
        (''metadata'', JDict [(''source'', JStr ''interleaved_thinking''), (''kind'', JStr ''visible_thinker_output'')])]]\<rparr>)"

text \<open>The answer of the thinker goes to the session; what the client gets is the answer to its own request.\<close>

definition continue_after_thinking ::
  "'r completion_env \<Rightarrow> 'r callback \<Rightarrow> bool \<Rightarrow> bool \<Rightarrow> ChatRequest \<Rightarrow> 'r \<Rightarrow> real \<Rightarrow> RequestContext option \<Rightarrow> 'r run" where
  "continue_after_thinking env call stream allow_failover original x now ctx =
     (let memo = (if stream then env_memo env x else None) in
      call now (case memo of None \<Rightarrow> original | Some text \<Rightarrow> append_visible_thinking original text) allow_failover
        (map_option (thinking_continuation_context (memo \<noteq> None)) ctx))"

section \<open>A completion call\<close>

definition is_auth_failure :: "failure \<Rightarrow> bool" where
  "is_auth_failure e \<longleftrightarrow> is_failure e [AuthenticationError] \<or> exn_status e = 401"

definition is_cancellation :: "failure \<Rightarrow> bool" where
  "is_cancellation e = is_failure e [SessionCancelledError, CancelledErrorClass]"

text \<open>What leaves the call: in a stream an error is a chunk, except for a cancellation; foreign exceptions are normalised.\<close>

definition leaving_error :: "'r completion_env \<Rightarrow> failure \<Rightarrow> failure" where
  "leaving_error env e =
     (if is_failure e [LLMProxyError] then e
      else if is_failure (env_normalize env e) [LLMProxyError] then env_normalize env e
      else backend_error (''Backend call failed: '' @ exn_message e) 502)"

definition leaving :: "'r completion_env \<Rightarrow> bool \<Rightarrow> 'r run \<Rightarrow> 'r run" where
  "leaving env stream r =
     (case run_outcome r of
        Some (Inl e) \<Rightarrow>
          if is_cancellation e then r
          else if stream then r\<lparr>run_outcome := Some (Inr (Error_Chunk (if is_failure e [LLMProxyError] then e else env_normalize env e)))\<rparr>
          else r\<lparr>run_outcome := Some (Inl (leaving_error env e))\<rparr>
      | _ \<Rightarrow> r)"

definition initialize_retry_metadata :: "RequestContext \<Rightarrow> RequestContext" where
  "initialize_retry_metadata ctx = ext_default ''is_retry'' (JBool False) (ext_default ''retry_attempt'' (JInt 0) ctx)"

definition set_composite_routing_surface :: "RequestContext \<Rightarrow> RequestContext" where
  "set_composite_routing_surface ctx =
     ext_set COMPOSITE_ROUTING_SURFACE_KEY (JStr (surface_value (resolve_composite_routing_surface (Some ctx)))) ctx"

definition begin_context :: "RequestContext \<Rightarrow> RequestContext" where
  "begin_context ctx = set_composite_routing_surface (initialize_retry_metadata ctx)"

text \<open>The budget of the request, which lives in its context; without a context every attempt has a new one.\<close>

definition recovery_budget :: "real \<Rightarrow> RequestContext option \<Rightarrow> (real \<times> string list \<times> bool) \<times> RequestContext option" where
  "recovery_budget now ctx =
     (case ctx of
        None \<Rightarrow> ((now, [], False), None)
      | Some c \<Rightarrow>
          (case get_or_init_stream_recovery_budget now c of
             (b, c') \<Rightarrow> ((budget_start_time b, attempted_backends b, truthy (ext_get MEANINGFUL_OUTPUT_EMITTED_KEY c')), Some c')))"

text \<open>The inner handler, for what the gate, the call and the second call after a thinker raise.\<close>

definition after_failure ::
  "'r completion_env \<Rightarrow> 'r callback \<Rightarrow> bool \<Rightarrow> bool \<Rightarrow> failure \<Rightarrow> BackendTarget \<Rightarrow> real \<times> string list \<times> bool \<Rightarrow> ChatRequest \<Rightarrow> real \<Rightarrow>
   RequestContext option \<Rightarrow> 'r run" where
  "after_failure env call stream allow_failover raised t budget request now ctx =
     (case budget of (start, attempted, content_begun) \<Rightarrow>
      if is_cancellation raised then finished (Inl raised) now ctx
      else let e = env_normalize env raised in
           if is_auth_failure e \<or> \<not> allow_failover then finished (Inl e) now ctx
           else apply_failure_recovery env call stream e (tgt_model t) (tgt_backend t) attempted start content_begun request now ctx)"

text \<open>Step 9: the gate, the connector, and after the turn of a thinker the second call.\<close>

definition execute_call ::
  "'r completion_env \<Rightarrow> 'r callback \<Rightarrow> bool \<Rightarrow> bool \<Rightarrow> ChatRequest \<Rightarrow> ChatRequest \<Rightarrow> BackendTarget \<Rightarrow> real \<times> string list \<times> bool \<Rightarrow> real \<Rightarrow>
   RequestContext option \<Rightarrow> 'r run" where
  "execute_call env call stream allow_failover original request t budget now ctx =
     (case env_call_gate env now ctx of
        Some e \<Rightarrow> after_failure env call stream allow_failover e t budget request now ctx
      | None \<Rightarrow>
          (let (outcome, duration, ctx') = env_call env now request t ctx; finish = now + duration in
           after_attempts [(now, tgt_backend t)]
             (case outcome of
                Inl e \<Rightarrow> after_failure env call stream allow_failover e t budget request finish ctx'
              | Inr x \<Rightarrow>
                  (if \<not> env_thinks env ctx' then finished (Inr (Reply x)) finish ctx'
                   else let r = (continue_after_thinking env call stream allow_failover original x finish ctx')\<lparr>run_context := ctx'\<rparr> in
                        case run_outcome r of
                          Some (Inl e) \<Rightarrow>
                            if stream then r
                            else after_attempts (run_attempts r)
                                   (after_failure env call stream allow_failover e t budget request (run_time r) ctx')
                        | _ \<Rightarrow> r))))"

text \<open>
  The call of a request that is not run as a parallel race. The resolver and complex failover are outside of the handlers;
  a failed preparation is not recovered. The recursion is bounded by \<open>fuel\<close>.
\<close>

fun call_completion :: "nat \<Rightarrow> 'r completion_env \<Rightarrow> bool \<Rightarrow> 'r callback" where
  "call_completion 0 env stream now request allow_failover ctx0 = out_of_fuel now ctx0"
| "call_completion (Suc fuel) env stream now request allow_failover ctx0 =
     (let again = call_completion fuel env stream in
      case env_target env now request (map_option begin_context ctx0) of
        (Inl e, ctx1) \<Rightarrow> finished (Inl (failure_of e)) now ctx1
      | (Inr t, ctx1) \<Rightarrow>
          (let request1 = targeted_request request t ctx1 in
           if allow_failover \<and> check_complex_failover env request1 (tgt_model t)
           then execute_complex_failover env again request1 (tgt_model t) (tgt_backend t) now ctx1
           else (case env_available env now (tgt_backend t) (tgt_model t) of
                   Some e \<Rightarrow> finished (if stream \<and> \<not> is_task_cancelled e then Inr (Error_Chunk e) else Inl e) now ctx1
                 | None \<Rightarrow>
                     (let (budget, ctx2) = recovery_budget now ctx1 in
                      leaving env stream
                        (case env_prepare env now request1 t ctx2 of
                           (Some e, ctx3) \<Rightarrow> finished (Inl e) now ctx3
                         | (None, ctx3) \<Rightarrow> execute_call env again stream allow_failover request request1 t budget now ctx3)))))"

end
