(* ===== verification/Recovery_Theorems.thy ===== *)
theory Recovery_Theorems
  imports Failure_Recovery
begin

text \<open>
  What the recovery from failed backend calls promises: for a request with a context it ends after a bounded number of
  attempts, it leaves a failed backend for good and it stays within the time budget; and in every environment it
  starts nothing for a cancelled session.
\<close>

section \<open>Decisions\<close>

lemma decide_wait:
  assumes "fh_decision (decide_recovery S now e model current attempted elapsed begun available) = WAIT_AND_RETRY"
  shows "\<exists>w. fh_wait_seconds (decide_recovery S now e model current attempted elapsed begun available) = Some w \<and>
    int (length attempted) < max_failover_hops (st_config S) \<and> min_retry_wait (st_config S) \<le> w \<and>
    w \<le> total_timeout_budget (st_config S) - elapsed"
  using assms by (auto simp: decide_recovery_def Let_def surface_def wait_time_def split: if_splits option.splits list.splits)

lemma decide_failover:
  assumes "fh_decision (decide_recovery S now e model current attempted elapsed begun (Some bs)) = FAILOVER_IMMEDIATE"
  shows "\<exists>b. fh_next_backend (decide_recovery S now e model current attempted elapsed begun (Some bs)) = Some b \<and>
    int (length attempted) < max_failover_hops (st_config S) \<and> elapsed < total_timeout_budget (st_config S) \<and>
    b \<notin> set attempted \<and> b \<noteq> current"
proof -
  have alts: "b \<notin> set attempted \<and> b \<noteq> current" if "find_alternatives (st_discovery S) model current attempted (Some bs) = b # cs" for b cs
    using that filter_set [of "\<lambda>b. b \<notin> set (remdups (attempted @ [current]))" bs]
    by (auto simp: find_alternatives_def Let_def filter_eq_Cons_iff)
  show ?thesis
    using assms alts by (auto simp: decide_recovery_def Let_def surface_def split: if_splits option.splits list.splits)
qed

section \<open>Waiting\<close>

text \<open>A wait that is not broken off takes its time, and the gate was open at its end.\<close>

lemma wait_slices_time:
  "wait_slices gate now remaining = (None, t) \<Longrightarrow> 0 \<le> remaining \<Longrightarrow> t = now + remaining \<and> (0 < remaining \<longrightarrow> gate t = None)"
proof (induction gate now remaining rule: wait_slices.induct)
  case (1 gate now remaining)
  show ?case
  proof (cases "remaining \<le> 0")
    case True
    with "1.prems" show ?thesis by (simp add: wait_slices.simps)
  next
    case False
    let ?s = "min 1 remaining"
    have open_gate: "gate now = None" "gate (now + ?s) = None" "wait_slices gate (now + ?s) (max 0 (remaining - ?s)) = (None, t)"
      using "1.prems"(1) False by (auto simp: wait_slices.simps [of gate now] Let_def split: option.splits)
    have "t = now + ?s + max 0 (remaining - ?s)" "0 < max 0 (remaining - ?s) \<longrightarrow> gate t = None"
      using "1.IH" [OF False open_gate(1) refl open_gate(2,3)] by auto
    with False open_gate(2) show ?thesis by (auto simp: max_def min_def split: if_splits)
  qed
qed

section \<open>The budget in the context\<close>

definition budget_stored :: "real \<Rightarrow> string list \<Rightarrow> RequestContext \<Rightarrow> bool" where
  "budget_stored start attempted c \<longleftrightarrow>
     ext_get BUDGET_START_TIME_KEY c = JFloat (Finite start) \<and> ext_get ATTEMPTED_BACKENDS_KEY c = JList (map JStr attempted)"

definition no_composite :: "RequestContext \<Rightarrow> bool" where
  "no_composite c \<longleftrightarrow> ext_get COMPOSITE_ROUTING_STATE_KEY c = JNull"

text \<open>The two contexts have the same budget and the same routing state.\<close>

definition keeps_budget :: "RequestContext \<Rightarrow> RequestContext \<Rightarrow> bool" where
  "keeps_budget c c' \<longleftrightarrow> (\<forall>k \<in> {BUDGET_START_TIME_KEY, ATTEMPTED_BACKENDS_KEY, COMPOSITE_ROUTING_STATE_KEY}.
     map_of (extensions c') k = map_of (extensions c) k)"

lemmas budget_keys = BUDGET_START_TIME_KEY_def ATTEMPTED_BACKENDS_KEY_def RETRY_ATTEMPT_KEY_def MEANINGFUL_OUTPUT_EMITTED_KEY_def
  COMPOSITE_ROUTING_STATE_KEY_def

lemma has_iff: "dict_has k d \<longleftrightarrow> map_of d k \<noteq> None"
  by (auto simp: dict_has_def map_of_eq_None_iff)

lemma ext_get_default: "ext_get k' (ext_default k v c) = (if k' = k \<and> \<not> dict_has k (extensions c) then v else ext_get k' c)"
  by (simp add: ext_default_def)

lemma has_ext: "ext_get k c \<noteq> JNull \<Longrightarrow> dict_has k (extensions c)"
  by (auto simp: ext_get_def dict_get_def has_iff split: option.splits)

lemma has_set [simp]: "dict_has k' (extensions (ext_set k v c)) \<longleftrightarrow> k' = k \<or> dict_has k' (extensions c)"
  by (auto simp: dict_has_def ext_set_def dict_set_def dom_update)

lemma has_default: "dict_has k' (extensions (ext_default k v c)) \<longleftrightarrow> k' = k \<or> dict_has k' (extensions c)"
  by (auto simp: ext_default_def)

lemma map_of_set: "map_of (extensions (ext_set k v c)) k' = (if k' = k then Some v else map_of (extensions c) k')"
  by (simp add: ext_set_def dict_set_def update_conv')

lemma stored_backends_map [simp]: "stored_backends (JList (map JStr xs)) = xs"
  by (simp add: stored_backends_def map_filter_def comp_def)

lemma keeps_refl [simp]: "keeps_budget c c"
  by (simp add: keeps_budget_def)

lemma keeps_trans: "keeps_budget c c' \<Longrightarrow> keeps_budget c' c'' \<Longrightarrow> keeps_budget c c''"
  by (simp add: keeps_budget_def)

lemma keeps_facts:
  assumes "keeps_budget c c'"
  shows "budget_stored start A c' \<longleftrightarrow> budget_stored start A c" "no_composite c' \<longleftrightarrow> no_composite c"
    "dict_has BUDGET_START_TIME_KEY (extensions c') \<longleftrightarrow> dict_has BUDGET_START_TIME_KEY (extensions c)"
    "dict_has ATTEMPTED_BACKENDS_KEY (extensions c') \<longleftrightarrow> dict_has ATTEMPTED_BACKENDS_KEY (extensions c)"
  using assms by (simp_all add: keeps_budget_def budget_stored_def no_composite_def ext_get_def dict_get_def has_iff)

lemma begin_keeps: "keeps_budget c (begin_context c)"
  by (auto simp: keeps_budget_def begin_context_def set_composite_routing_surface_def initialize_retry_metadata_def ext_default_def map_of_set
      budget_keys COMPOSITE_ROUTING_SURFACE_KEY_def)

lemmas budget_simps = recovery_budget_def get_or_init_stream_recovery_budget_def Let_def
  ext_get_default has_default budget_stored_def no_composite_def budget_keys

lemma budget_start:
  assumes "\<not> dict_has BUDGET_START_TIME_KEY (extensions c)" "\<not> dict_has ATTEMPTED_BACKENDS_KEY (extensions c)"
  shows "\<exists>begun c'. recovery_budget now (Some c) = ((now, [], begun), Some c') \<and>
    budget_stored now [] c' \<and> (no_composite c' \<longleftrightarrow> no_composite c)"
  using assms by (simp add: budget_simps) (simp add: stored_backends_def)

lemma budget_again:
  assumes "budget_stored start attempted c"
  shows "\<exists>begun c'. recovery_budget now (Some c) = ((start, attempted, begun), Some c') \<and>
    budget_stored start attempted c' \<and> (no_composite c' \<longleftrightarrow> no_composite c)"
proof -
  have "dict_has BUDGET_START_TIME_KEY (extensions c)" "dict_has ATTEMPTED_BACKENDS_KEY (extensions c)"
    using assms by (auto simp: budget_stored_def intro: has_ext)
  with assms show ?thesis by (simp add: budget_simps)
qed

text \<open>The budget that an attempt in this context works with.\<close>

definition budget_at :: "real \<Rightarrow> real \<Rightarrow> string list \<Rightarrow> RequestContext \<Rightarrow> bool" where
  "budget_at now start A c \<longleftrightarrow> no_composite c \<and>
     (budget_stored start A c \<or> start = now \<and> A = [] \<and> \<not> dict_has BUDGET_START_TIME_KEY (extensions c) \<and>
        \<not> dict_has ATTEMPTED_BACKENDS_KEY (extensions c))"

lemma budget_at_kept: "budget_at now start A c \<Longrightarrow> keeps_budget c c' \<Longrightarrow> budget_at now start A c'"
  by (auto simp: budget_at_def keeps_facts)

lemma budget_read:
  assumes "budget_at now start A c"
  shows "\<exists>begun c'. recovery_budget now (Some c) = ((start, A, begun), Some c') \<and> budget_stored start A c' \<and> no_composite c'"
  using assms budget_start [of c now] budget_again [of start A c now] by (auto simp: budget_at_def)

section \<open>One attempt\<close>

text \<open>
  What the theorems on the number of attempts ask of the environment: a failure strategy with a positive shortest wait, a
  routing service, no configured failover routes and no thinkers, gates that report nothing but cancellations, and
  that resolving, preparing and calling keep the context and its budget and take no negative time.
\<close>

definition recovery_env :: "'r completion_env \<Rightarrow> strategy \<Rightarrow> bool" where
  "recovery_env env S \<longleftrightarrow> env_strategy env = Some S \<and> env_alternatives env \<noteq> None \<and> env_routes env = [] \<and>
     0 < min_retry_wait (st_config S) \<and> (\<forall>ctx. \<not> env_thinks env ctx) \<and>
     (\<forall>now ctx e. env_call_gate env now ctx = Some e \<longrightarrow> is_cancellation e) \<and>
     (\<forall>now request c. \<exists>x c'. env_target env now request (Some c) = (x, Some c') \<and> keeps_budget c c') \<and>
     (\<forall>now request t c. \<exists>x c'. env_prepare env now request t (Some c) = (x, Some c') \<and> keeps_budget c c') \<and>
     (\<forall>now request t c. \<exists>x d c'. env_call env now request t (Some c) = (x, d, Some c') \<and> 0 \<le> d \<and> keeps_budget c c')"

text \<open>A failed backend call takes at least so long.\<close>

definition failures_take :: "'r completion_env \<Rightarrow> real \<Rightarrow> bool" where
  "failures_take env \<delta> \<longleftrightarrow> (\<forall>now request t c e d ctx'. env_call env now request t (Some c) = (Inl e, d, ctx') \<longrightarrow> \<delta> \<le> d)"

definition plain_request :: "ChatRequest \<Rightarrow> bool" where
  "plain_request request \<longleftrightarrow> \<not> truthy (extra_get ''failover_routes'' request)"

lemma plain_with_backend [simp]: "plain_request (with_backend b request) \<longleftrightarrow> plain_request request"
  by (simp add: plain_request_def with_backend_def extra_get_def dict_get_def dict_set_def update_conv' split: option.split)

lemma plain_targeted [simp]: "plain_request request \<Longrightarrow> plain_request (targeted_request request t ctx)"
  by (auto simp: plain_request_def targeted_request_def strip_client_reasoning_content_from_request_def synchronize_request_with_target_def
      extra_get_def dict_get_def dict_set_def dict_pop_def update_conv' map_of_filter_key Let_def RESOLVED_URI_PARAMS_EXTRA_BODY_KEY_def
      split: option.splits)

lemma no_composite_bridge: "no_composite c \<Longrightarrow> build_next_request x request (Some c) begun e = (Inr None, Some c)"
  by (simp add: build_next_request_def no_composite_def load_weighted_state_def load_failover_state_def)

lemma metadata_keeps [simp]:
  "budget_stored start A (increment_retry_metadata reason c) \<longleftrightarrow> budget_stored start A c"
  "no_composite (increment_retry_metadata reason c) \<longleftrightarrow> no_composite c"
  by (simp_all add: increment_retry_metadata_def budget_stored_def no_composite_def budget_keys)

lemma stored_attempted [simp]:
  "budget_stored start A c \<Longrightarrow> budget_stored start B (ext_set ATTEMPTED_BACKENDS_KEY (JList (map JStr B)) c)"
  "no_composite (ext_set ATTEMPTED_BACKENDS_KEY v c) \<longleftrightarrow> no_composite c"
  by (simp_all add: budget_stored_def no_composite_def budget_keys)

text \<open>
  What follows the failure of backend \<open>b\<close>, when \<open>A\<close> are the attempted backends with it: the end, a wait and another call
  for the same backend, or a call for a new one.
\<close>

definition goes_on :: "strategy \<Rightarrow> real \<Rightarrow> string list \<Rightarrow> string \<Rightarrow> real \<Rightarrow> real \<Rightarrow> string \<Rightarrow> string list \<Rightarrow> bool" where
  "goes_on S start A b now t b' A' \<longleftrightarrow> int (length A) < max_failover_hops (st_config S) \<and>
     t \<le> start + total_timeout_budget (st_config S) \<and>
     (b' = b \<and> A' = allow_again b A \<and> now + min_retry_wait (st_config S) \<le> t \<or> b' \<notin> set A \<and> A' = A \<and> now \<le> t)"

lemma goes_on_time: "goes_on S start A b now t b' A' \<Longrightarrow> 0 < min_retry_wait (st_config S) \<Longrightarrow> now \<le> t"
  by (auto simp: goes_on_def)

text \<open>A run that hands on what another one returned.\<close>

definition same_run :: "('r run \<Rightarrow> 'r run) \<Rightarrow> (real \<times> string) list \<Rightarrow> bool" where
  "same_run g xs \<longleftrightarrow> (\<forall>r. run_attempts (g r) = xs @ run_attempts r \<and> (run_outcome (g r) = None \<longleftrightarrow> run_outcome r = None))"

lemma same_run_id [simp]: "same_run id []"
  by (simp add: same_run_def)

lemma same_run_stream [simp]: "same_run as_stream []"
  by (simp add: same_run_def as_stream_def)

lemma same_run_comp: "same_run f xs \<Longrightarrow> same_run g ys \<Longrightarrow> same_run (\<lambda>r. f (g r)) (xs @ ys)"
  by (simp add: same_run_def)

lemma same_run_leaving [simp]: "same_run (leaving env stream) []"
  by (auto simp: same_run_def leaving_def split: option.split sum.split)

lemma same_run_after [simp]: "same_run (after_attempts xs) xs"
  by (simp add: same_run_def after_attempts_def)

lemma execute_retry_wait:
  assumes "0 \<le> w" and "(if stream then (None, now + w) else wait_slices (env_wait_gate env) now w) = (stopped, t)"
  shows "execute_retry env call stream request b (Some w) A now (Some c) =
    (case env_gate env now of
       Some e \<Rightarrow> finished (Inl e) now (Some c)
     | None \<Rightarrow> (case stopped of
         Some e \<Rightarrow> finished (Inl e) t (Some (increment_retry_metadata ''retry'' c))
       | None \<Rightarrow> (if stream then as_stream else id) (call t (with_backend b request) True
           (Some (ext_set ATTEMPTED_BACKENDS_KEY (JList (map JStr (allow_again b A))) (increment_retry_metadata ''retry'' c))))))"
proof (cases "env_gate env now")
  case None
  with assms show ?thesis
    by (cases stream) (auto simp: execute_retry_def store_attempted_def Let_def max_absorb2 split: option.split)
qed (simp add: execute_retry_def)

lemma retry_cases:
  assumes "env_strategy env = Some S" "env_alternatives env \<noteq> None" "0 < min_retry_wait (st_config S)"
    and "budget_stored start A c" "no_composite c"
  shows "(\<exists>r. apply_failure_recovery env call stream e model b A start begun request now (Some c) = r \<and> run_attempts r = [] \<and> run_outcome r \<noteq> None) \<or>
    (\<exists>t b' A' c' g. goes_on S start (note_attempt b A) b now t b' A' \<and> budget_stored start A' c' \<and> no_composite c' \<and> same_run g [] \<and>
       apply_failure_recovery env call stream e model b A start begun request now (Some c) = g (call t (with_backend b' request) True (Some c')))"
    (is "?ends \<or> ?continues")
proof -
  let ?A = "note_attempt b A" let ?res = "apply_failure_recovery env call stream e model b A start begun request now (Some c)"
  let ?c1 = "ext_set ATTEMPTED_BACKENDS_KEY (JList (map JStr ?A)) c"
  obtain find_instances where alts: "env_alternatives env = Some find_instances" using assms(2) by auto
  let ?bs = "find_instances now model (?A @ [b])"
  define d where "d = decide_recovery S now (normalized_error e) model b ?A (now - start) begun (Some ?bs)"
  have c1: "budget_stored start ?A ?c1" "no_composite ?c1" using assms(4,5) by simp_all
  have strategy: "apply_failure_strategy env S (normalized_error e) model b ?A start begun now = d"
    by (simp add: apply_failure_strategy_def alts d_def)
  have res: "?res = (case (fh_decision d, fh_next_backend d) of
      (WAIT_AND_RETRY, _) \<Rightarrow> execute_retry env call stream request b (fh_wait_seconds d) ?A now (Some ?c1)
    | (FAILOVER_IMMEDIATE, Some b') \<Rightarrow> execute_failover env call request b' now (Some ?c1)
    | _ \<Rightarrow> finished (Inl (case fh_error_to_surface d of Some e' \<Rightarrow> e' | None \<Rightarrow> surfaced_error e)) now (Some ?c1))"
    using c1(2)
    by (simp add: apply_failure_recovery_def store_attempted_def no_composite_bridge assms(1) strategy Let_def
        split: FailureDecision.split option.split)
  consider "fh_decision d = WAIT_AND_RETRY" | "fh_decision d = FAILOVER_IMMEDIATE" | "fh_decision d = SURFACE_ERROR"
    by (cases "fh_decision d")
  then show ?thesis
  proof cases
    case 1
    then obtain w where w: "fh_wait_seconds d = Some w" "int (length ?A) < max_failover_hops (st_config S)"
      "min_retry_wait (st_config S) \<le> w" "w \<le> total_timeout_budget (st_config S) - (now - start)"
      using decide_wait unfolding d_def by blast
    let ?c2 = "ext_set ATTEMPTED_BACKENDS_KEY (JList (map JStr (allow_again b ?A))) (increment_retry_metadata ''retry'' ?c1)"
    have c2: "budget_stored start (allow_again b ?A) ?c2" "no_composite ?c2"
      using c1 by (auto intro: stored_attempted(1) [of start ?A])
    obtain stopped t where wait: "(if stream then (None, now + w) else wait_slices (env_wait_gate env) now w) = (stopped, t)" by fastforce
    have res2: "?res = (case env_gate env now of Some e' \<Rightarrow> finished (Inl e') now (Some ?c1)
       | None \<Rightarrow> (case stopped of Some e' \<Rightarrow> finished (Inl e') t (Some (increment_retry_metadata ''retry'' ?c1))
           | None \<Rightarrow> (if stream then as_stream else id) (call t (with_backend b request) True (Some ?c2))))"
      using w(3) assms(3) by (simp only: res 1 w(1) prod.case FailureDecision.case) (rule execute_retry_wait [OF _ wait], linarith)
    show ?thesis
    proof (cases "env_gate env now = None \<and> stopped = None")
      case True
      then have "t = now + w"
        using wait wait_slices_time [of "env_wait_gate env" now w t] w(3) assms(3) by (auto split: if_splits)
      then have "goes_on S start ?A b now t b (allow_again b ?A)"
        using w by (auto simp: goes_on_def)
      moreover have "same_run (if stream then as_stream else id) []" by simp
      moreover have "?res = (if stream then as_stream else id) (call t (with_backend b request) True (Some ?c2))" using True res2 by simp
      ultimately show ?thesis using c2 by blast
    qed (use res2 in \<open>auto simp: finished_def split: option.splits\<close>)
  next
    case 2
    then obtain b' where b': "fh_next_backend d = Some b'" "int (length ?A) < max_failover_hops (st_config S)"
      "now - start < total_timeout_budget (st_config S)" "b' \<notin> set ?A"
      using decide_failover unfolding d_def by blast
    show ?thesis
    proof (cases "env_gate env now")
      case None
      then have "goes_on S start ?A b now now b' ?A" using b' by (auto simp: goes_on_def)
      moreover have "?res = id (call now (with_backend b' request) True (Some (increment_retry_metadata ''failover'' ?c1)))"
        using None res 2 b'(1) by (simp add: execute_failover_def)
      moreover have "budget_stored start ?A (increment_retry_metadata ''failover'' ?c1)" "no_composite (increment_retry_metadata ''failover'' ?c1)"
        using c1 by simp_all
      ultimately show ?thesis using same_run_id by blast
    qed (use res 2 b'(1) in \<open>auto simp: execute_failover_def finished_def\<close>)
  qed (use res in \<open>auto simp: finished_def\<close>)
qed

text \<open>What the resolver says of a request in this context.\<close>

definition targets :: "'r completion_env \<Rightarrow> real \<Rightarrow> ChatRequest \<Rightarrow> RequestContext \<Rightarrow> BackendTarget \<Rightarrow> bool" where
  "targets env now request c t \<longleftrightarrow> fst (env_target env now request (Some (begin_context c))) = Inr t"

lemma execute_call_cases:
  assumes env: "recovery_env env S" and "failures_take env \<delta>"
    and c: "budget_stored start A c" "no_composite c"
  shows "(\<exists>r. execute_call env call stream True original request t (start, A, begun) now (Some c) = r \<and>
      run_attempts r \<in> {[], [(now, tgt_backend t)]} \<and> run_outcome r \<noteq> None) \<or>
    (\<exists>u s b' A' c' g. now \<le> u \<and> now + \<delta> \<le> u \<and> goes_on S start (note_attempt (tgt_backend t) A) (tgt_backend t) u s b' A' \<and>
       budget_stored start A' c' \<and> no_composite c' \<and> same_run g [(now, tgt_backend t)] \<and>
       execute_call env call stream True original request t (start, A, begun) now (Some c) = g (call s (with_backend b' request) True (Some c')))"
proof (cases "env_call_gate env now (Some c)")
  case None
  obtain outcome d c' where call: "env_call env now request t (Some c) = (outcome, d, Some c')" "0 \<le> d" "keeps_budget c c'"
    using env unfolding recovery_env_def by blast
  have think: "\<not> env_thinks env (Some c')" using env by (simp add: recovery_env_def)
  show ?thesis
  proof (cases outcome)
    case (Inr x)
    with None call(1) think show ?thesis by (simp add: execute_call_def finished_def after_attempts_def)
  next
    case (Inl e)
    then have \<delta>: "\<delta> \<le> d" using assms(2) call(1) unfolding failures_take_def by blast
    let ?e = "env_normalize env e" let ?b = "tgt_backend t"
    have run: "execute_call env call stream True original request t (start, A, begun) now (Some c) =
        after_attempts [(now, ?b)] (after_failure env call stream True e t (start, A, begun) request (now + d) (Some c'))"
      using None call(1) Inl by (simp add: execute_call_def)
    show ?thesis
    proof (cases "is_cancellation e \<or> is_auth_failure ?e")
      case True
      with run show ?thesis by (auto simp: after_failure_def finished_def after_attempts_def)
    next
      case False
      then have run2: "execute_call env call stream True original request t (start, A, begun) now (Some c) =
          after_attempts [(now, ?b)] (apply_failure_recovery env call stream ?e (tgt_model t) ?b A start begun request (now + d) (Some c'))"
        using run by (simp add: after_failure_def Let_def)
      have "env_strategy env = Some S" "env_alternatives env \<noteq> None" "0 < min_retry_wait (st_config S)" "budget_stored start A c'" "no_composite c'"
        using env c keeps_facts [OF call(3)] by (simp_all add: recovery_env_def)
      from retry_cases [OF this, of call stream ?e "tgt_model t" ?b begun request "now + d"] show ?thesis
      proof (elim disjE exE conjE)
        fix s b' A' c'' g
        assume step: "goes_on S start (note_attempt ?b A) ?b (now + d) s b' A'" "budget_stored start A' c''" "no_composite c''" "same_run g []"
          "apply_failure_recovery env call stream ?e (tgt_model t) ?b A start begun request (now + d) (Some c') = g (call s (with_backend b' request) True (Some c''))"
        with same_run_comp [OF same_run_after step(4), of "[(now, ?b)]"] have "same_run (\<lambda>r. after_attempts [(now, ?b)] (g r)) [(now, ?b)]" by simp
        moreover have "now \<le> now + d" "now + \<delta> \<le> now + d" using call(2) \<delta> by simp_all
        ultimately show ?thesis using run2 step by metis
      qed (use run2 in \<open>auto simp: after_attempts_def\<close>)
    qed
  qed
next
  case (Some e)
  then have "is_cancellation e" using env by (auto simp: recovery_env_def)
  with Some show ?thesis by (simp add: execute_call_def after_failure_def finished_def)
qed

lemma call_cases:
  assumes env: "recovery_env env S" "failures_take env \<delta>" and "plain_request request" and c: "budget_at now start A c"
  shows "(run_attempts (call_completion (Suc n) env stream now request True (Some c)) = [] \<or>
      (\<exists>t. targets env now request c t \<and> run_attempts (call_completion (Suc n) env stream now request True (Some c)) = [(now, tgt_backend t)])) \<and>
      run_outcome (call_completion (Suc n) env stream now request True (Some c)) \<noteq> None \<or>
    (\<exists>t u s b' A' c' ctx g. targets env now request c t \<and> now \<le> u \<and> now + \<delta> \<le> u \<and>
       goes_on S start (note_attempt (tgt_backend t) A) (tgt_backend t) u s b' A' \<and> budget_at s start A' c' \<and> same_run g [(now, tgt_backend t)] \<and>
       call_completion (Suc n) env stream now request True (Some c) =
         g (call_completion n env stream s (with_backend b' (targeted_request request t ctx)) True (Some c')))"
proof -
  obtain x c1 where target: "env_target env now request (Some (begin_context c)) = (x, Some c1)" "keeps_budget (begin_context c) c1"
    using env(1) unfolding recovery_env_def by blast
  then have c1: "budget_at now start A c1" using c begin_keeps budget_at_kept by blast
  show ?thesis
  proof (cases x)
    case (Inl e)
    with target show ?thesis by (simp add: finished_def)
  next
    case (Inr t)
    let ?request = "targeted_request request t (Some c1)"
    have simple: "\<not> check_complex_failover env ?request (tgt_model t)"
      using env(1) plain_targeted [OF assms(3)] by (simp add: check_complex_failover_def recovery_env_def plain_request_def)
    have t: "targets env now request c t" using target(1) Inr by (simp add: targets_def)
    obtain begun c2 where budget: "recovery_budget now (Some c1) = ((start, A, begun), Some c2)" "budget_stored start A c2" "no_composite c2"
      using budget_read [OF c1] by blast
    obtain y c3 where prepare: "env_prepare env now ?request t (Some c2) = (y, Some c3)" "keeps_budget c2 c3"
      using env(1) unfolding recovery_env_def by blast
    have c3: "budget_stored start A c3" "no_composite c3" using budget(2,3) keeps_facts [OF prepare(2)] by simp_all
    let ?again = "call_completion n env stream"
    show ?thesis
    proof (cases "env_available env now (tgt_backend t) (tgt_model t) = None \<and> y = None")
      case True
      then have run: "call_completion (Suc n) env stream now request True (Some c) =
          leaving env stream (execute_call env ?again stream True request ?request t (start, A, begun) now (Some c3))"
        using target(1) Inr simple budget(1) prepare(1) by simp
      from execute_call_cases [OF env c3, of ?again stream request ?request t begun now] show ?thesis
      proof (elim disjE exE conjE)
        fix r assume "execute_call env ?again stream True request ?request t (start, A, begun) now (Some c3) = r"
          "run_attempts r \<in> {[], [(now, tgt_backend t)]}" "run_outcome r \<noteq> None"
        moreover have "run_attempts (leaving env stream r) = run_attempts r" "run_outcome (leaving env stream r) = None \<longleftrightarrow> run_outcome r = None"
          using same_run_leaving [of env stream] by (simp_all add: same_run_def)
        ultimately show ?thesis using run t by auto
      next
        fix u s b' A' c' g
        assume step: "now \<le> u" "now + \<delta> \<le> u" "goes_on S start (note_attempt (tgt_backend t) A) (tgt_backend t) u s b' A'"
          "budget_stored start A' c'" "no_composite c'" "same_run g [(now, tgt_backend t)]"
          "execute_call env ?again stream True request ?request t (start, A, begun) now (Some c3) = g (?again s (with_backend b' ?request) True (Some c'))"
        have "same_run (\<lambda>r. leaving env stream (g r)) [(now, tgt_backend t)]"
          using same_run_comp [OF same_run_leaving step(6)] by simp
        moreover have "budget_at s start A' c'" using step(4,5) by (simp add: budget_at_def)
        ultimately show ?thesis using t step run by metis
      qed
    next
      case False
      let ?run = "call_completion (Suc n) env stream now request True (Some c)"
      have "\<exists>r. (?run = r \<or> ?run = leaving env stream r) \<and> run_attempts r = [] \<and> run_outcome r \<noteq> None"
      proof (cases "env_available env now (tgt_backend t) (tgt_model t)")
        case None
        with False obtain e where "y = Some e" by auto
        with None target(1) Inr simple budget(1) prepare(1) have "?run = leaving env stream (finished (Inl e) now (Some c3))" by simp
        then show ?thesis by (intro exI [of _ "finished (Inl e) now (Some c3)"]) (simp add: finished_def)
      next
        case (Some e)
        let ?out = "if stream \<and> \<not> is_task_cancelled e then Inr (Error_Chunk e) else Inl e"
        have "?run = finished ?out now (Some c1)" using Some target(1) Inr simple by simp
        then show ?thesis by (intro exI [of _ "finished ?out now (Some c1)"]) (simp add: finished_def)
      qed
      moreover have "run_attempts (leaving env stream r) = run_attempts r" "run_outcome (leaving env stream r) = None \<longleftrightarrow> run_outcome r = None" for r :: "'a run"
        using same_run_leaving [of env stream] by (simp_all add: same_run_def)
      ultimately show ?thesis by metis
    qed
  qed
qed

section \<open>Ending\<close>

text \<open>A request whose context has no budget yet and no composite routing state.\<close>

definition new_request :: "RequestContext \<Rightarrow> bool" where
  "new_request c \<longleftrightarrow> \<not> dict_has BUDGET_START_TIME_KEY (extensions c) \<and> \<not> dict_has ATTEMPTED_BACKENDS_KEY (extensions c) \<and>
     \<not> dict_has COMPOSITE_ROUTING_STATE_KEY (extensions c)"

lemma new_budget: "new_request c \<Longrightarrow> budget_at now now [] c"
  by (auto simp: new_request_def budget_at_def no_composite_def intro: ccontr dest: has_ext)

text \<open>How many failures still fit into the time budget.\<close>

definition failures_left :: "strategy \<Rightarrow> real \<Rightarrow> real \<Rightarrow> real \<Rightarrow> nat" where
  "failures_left S \<delta> start now = nat \<lfloor>(start + total_timeout_budget (st_config S) - now) / \<delta>\<rfloor>"

lemma floor_div_less:
  fixes x y w :: real
  assumes "0 < w" "0 \<le> y" "y + w \<le> x"
  shows "nat \<lfloor>y / w\<rfloor> < nat \<lfloor>x / w\<rfloor>"
proof -
  have "y / w + 1 = (y + w) / w" using assms(1) by (simp add: add_divide_distrib)
  also have "\<dots> \<le> x / w" using assms by (intro divide_right_mono) auto
  finally have "y / w + 1 \<le> x / w" .
  moreover have "0 \<le> y / w" using assms by simp
  ultimately show ?thesis by linarith
qed

lemma failures_left_less:
  assumes "goes_on S start A b u t b' A'" "now + \<delta> \<le> u" "0 < \<delta>" "0 < min_retry_wait (st_config S)"
  shows "failures_left S \<delta> start t < failures_left S \<delta> start now"
  unfolding failures_left_def using assms goes_on_time [OF assms(1,4)] by (intro floor_div_less) (auto simp: goes_on_def)

lemma recovery_ends:
  assumes env: "recovery_env env S" "failures_take env \<delta>" and "0 < \<delta>"
    and "plain_request request" "budget_at now start A c" "failures_left S \<delta> start now \<le> n"
  shows "run_outcome (call_completion (Suc n) env stream now request True (Some c)) \<noteq> None \<and>
    length (run_attempts (call_completion (Suc n) env stream now request True (Some c))) \<le> Suc (failures_left S \<delta> start now)"
  using assms(4-)
proof (induction n arbitrary: request now c A rule: less_induct)
  case n: (less n)
  have wait: "0 < min_retry_wait (st_config S)" using env(1) by (simp add: recovery_env_def)
  from call_cases [OF env n(2,3), of n stream] show ?case
  proof (elim disjE exE conjE)
    fix t u s b' A' c' ctx g
    assume step: "now + \<delta> \<le> u" "goes_on S start (note_attempt (tgt_backend t) A) (tgt_backend t) u s b' A'" "budget_at s start A' c'"
      "same_run g [(now, tgt_backend t)]"
      "call_completion (Suc n) env stream now request True (Some c) =
         g (call_completion n env stream s (with_backend b' (targeted_request request t ctx)) True (Some c'))"
    note less = failures_left_less [OF step(2,1) assms(3) wait]
    then obtain k where k: "n = Suc k" "failures_left S \<delta> start s \<le> k" using n(4) by (cases n) auto
    from n(1) [OF _ _ step(3) k(2), of "with_backend b' (targeted_request request t ctx)"] k(1) n(2) step(4,5) less
    show ?thesis by (auto simp: same_run_def)
  qed auto
qed

text \<open>
  C6. Recovery ends: if a failed backend call takes at least \<open>\<delta>\<close> seconds, the recursion of completion calls through retries
  and failovers returns, after at most as many further backend calls as failures fit into the time budget, whatever the backends
  answer, wherever the resolver sends the requests and however many instances the routing service offers. This is for a
  request with a context, without composite routing, failover routes and thinkers.
\<close>

theorem recovery_terminates:
  assumes "recovery_env env S" "failures_take env \<delta>" "0 < \<delta>" "plain_request request" "new_request c"
    and "k = nat \<lfloor>total_timeout_budget (st_config S) / \<delta>\<rfloor>" and "k < fuel"
  shows "\<exists>out. run_outcome (call_completion fuel env stream now request True (Some c)) = Some out \<and>
    length (run_attempts (call_completion fuel env stream now request True (Some c))) \<le> Suc k"
proof -
  obtain n where n: "fuel = Suc n" "k \<le> n" using assms(7) by (cases fuel) auto
  have "failures_left S \<delta> now now = k" by (simp add: failures_left_def assms(6))
  with recovery_ends [OF assms(1-4) new_budget [OF assms(5)], of now n stream] n show ?thesis by auto
qed

section \<open>Moving on\<close>

text \<open>
  The resolver honours the backend that a request names in its body, when the model of the request names none: no session
  backend and no static route overrides it, and the models it resolves to name no backend.
\<close>

definition honours_backend :: "'r completion_env \<Rightarrow> bool" where
  "honours_backend env \<longleftrightarrow> (\<forall>now request ctx t ctx'. \<not> has_explicit_backend_selector (req_model request) \<longrightarrow>
     env_target env now request ctx = (Inr t, ctx') \<longrightarrow>
       \<not> has_explicit_backend_selector (tgt_model t) \<and> (\<forall>b. extra_get ''backend_type'' request = JStr b \<longrightarrow> tgt_backend t = b))"

lemma named_backend [simp]: "extra_get ''backend_type'' (with_backend b request) = JStr b"
  by (simp add: extra_get_def with_backend_def)

lemma model_with_backend [simp]: "req_model (with_backend b request) = req_model request"
  by (simp add: with_backend_def)

lemma targets_named:
  assumes "honours_backend env" "targets env now request c t" "\<not> has_explicit_backend_selector (req_model request)"
  shows "\<not> has_explicit_backend_selector (req_model (targeted_request request t ctx))"
    "extra_get ''backend_type'' request = JStr b \<Longrightarrow> tgt_backend t = b"
proof -
  obtain ctx' where t: "env_target env now request (Some (begin_context c)) = (Inr t, ctx')"
    using assms(2) unfolding targets_def by (metis prod.collapse)
  then have "\<not> has_explicit_backend_selector (tgt_model t)" using assms(1,3) unfolding honours_backend_def by blast
  with assms(3) show "\<not> has_explicit_backend_selector (req_model (targeted_request request t ctx))"
    by (simp add: targeted_request_def strip_client_reasoning_content_from_request_def synchronize_request_with_target_def Let_def)
  show "extra_get ''backend_type'' request = JStr b \<Longrightarrow> tgt_backend t = b"
    using t assms(1,3) unfolding honours_backend_def by blast
qed

text \<open>How many attempts may follow: one for each hop that is left, one for each shortest wait that fits into the time that is left.\<close>

definition tries_left :: "strategy \<Rightarrow> real \<Rightarrow> string list \<Rightarrow> real \<Rightarrow> nat" where
  "tries_left S start A now = nat (max_failover_hops (st_config S) - int (Suc (length A))) +
     nat \<lfloor>(start + total_timeout_budget (st_config S) - now) / min_retry_wait (st_config S)\<rfloor>"

text \<open>The log of a run for which the backends \<open>A\<close> are used up.\<close>

definition log_ok :: "strategy \<Rightarrow> real \<Rightarrow> string list \<Rightarrow> string option \<Rightarrow> real \<Rightarrow> (real \<times> string) list \<Rightarrow> bool" where
  "log_ok S start A named now xs \<longleftrightarrow> (xs \<noteq> [] \<longrightarrow> fst (hd xs) = now \<and> (\<forall>b. named = Some b \<longrightarrow> snd (hd xs) = b)) \<and> snd ` set xs \<inter> set A = {} \<and>
     distinct (remdups_adj (map snd xs)) \<and>
     int (length (remdups_adj (map snd xs))) \<le> 1 + max 0 (max_failover_hops (st_config S) - int (Suc (length A))) \<and>
     (\<forall>x \<in> set (tl xs). fst x \<le> start + total_timeout_budget (st_config S))"

lemma fresh_attempt: "b \<notin> set A \<Longrightarrow> note_attempt b A = A @ [b]" "allow_again b (A @ [b]) = A"
  by (simp_all add: note_attempt_def allow_again_def)

lemma tries_left_less:
  assumes "goes_on S start (A @ [b]) b u t b' A'" "now \<le> u" "0 < min_retry_wait (st_config S)"
  shows "tries_left S start A' t < tries_left S start A now"
proof (cases "A' = A")
  case True
  let ?f = "\<lambda>t. (start + total_timeout_budget (st_config S) - t) / min_retry_wait (st_config S)"
  have "now + min_retry_wait (st_config S) \<le> t" "t \<le> start + total_timeout_budget (st_config S)"
    using assms True by (auto simp: goes_on_def)
  then have "nat \<lfloor>?f t\<rfloor> < nat \<lfloor>?f now\<rfloor>"
    using assms(3) by (intro floor_div_less) auto
  with True show ?thesis by (simp add: tries_left_def)
next
  case False
  then have t: "A' = A @ [b]" "now \<le> t" "int (Suc (length A)) < max_failover_hops (st_config S)"
    using assms(1,2) by (auto simp: goes_on_def fresh_attempt)
  then have "(start + total_timeout_budget (st_config S) - t) / min_retry_wait (st_config S) \<le>
      (start + total_timeout_budget (st_config S) - now) / min_retry_wait (st_config S)"
    using assms(3) by (simp add: divide_right_mono)
  with t show ?thesis by (simp add: tries_left_def nat_mono floor_mono add_less_le_mono)
qed

lemma log_ok_step:
  assumes "goes_on S start (A @ [b]) b u t b' A'" "b \<notin> set A" "log_ok S start A' (Some b') t xs" "\<forall>x. named = Some x \<longrightarrow> b = x"
  shows "log_ok S start A named now ((now, b) # xs)"
proof -
  have later: "\<forall>x \<in> set xs. fst x \<le> start + total_timeout_budget (st_config S)"
    using assms(1,3) by (cases xs) (auto simp: log_ok_def goes_on_def)
  show ?thesis
  proof (cases "b' = b")
    case True
    then have "A' = A" using assms(1) by (auto simp: goes_on_def fresh_attempt)
    with True assms(2-4) later show ?thesis
      by (cases xs) (auto simp: log_ok_def)
  next
    case False
    then have "A' = A @ [b]" "int (Suc (length A)) < max_failover_hops (st_config S)"
      using assms(1) by (auto simp: goes_on_def)
    with False assms(2-4) later show ?thesis
      by (cases xs) (auto simp: log_ok_def)
  qed
qed

text \<open>The next backend of a request is not among the ones that are used up.\<close>

definition next_fresh :: "string list \<Rightarrow> string option \<Rightarrow> bool" where
  "next_fresh A named \<longleftrightarrow> A = [] \<or> (\<exists>b. named = Some b \<and> b \<notin> set A)"

definition backend_named :: "ChatRequest \<Rightarrow> string option" where
  "backend_named request = (case extra_get ''backend_type'' request of JStr b \<Rightarrow> Some b | _ \<Rightarrow> None)"

lemma recovery_run:
  assumes env: "recovery_env env S" "failures_take env 0" "honours_backend env"
    and "plain_request request" "budget_at now start A c" "\<not> has_explicit_backend_selector (req_model request)"
    and "next_fresh A (backend_named request)" "tries_left S start A now \<le> n"
  shows "run_outcome (call_completion (Suc n) env stream now request True (Some c)) \<noteq> None \<and>
    log_ok S start A (backend_named request) now (run_attempts (call_completion (Suc n) env stream now request True (Some c)))"
  using assms(4-)
proof (induction n arbitrary: request now c A rule: less_induct)
  case n: (less n)
  have wait: "0 < min_retry_wait (st_config S)" using env(1) by (simp add: recovery_env_def)
  have named: "(\<forall>x. backend_named request = Some x \<longrightarrow> tgt_backend t = x) \<and> tgt_backend t \<notin> set A" if "targets env now request c t" for t
    using targets_named(2) [OF env(3) that n(4)] n(5) by (auto simp: backend_named_def next_fresh_def split: json.splits)
  from call_cases [OF env(1,2) n(2,3), of n stream] show ?case
  proof (elim disjE exE conjE)
    fix t u s b' A' c' ctx g
    assume step: "targets env now request c t" "now \<le> u" "goes_on S start (note_attempt (tgt_backend t) A) (tgt_backend t) u s b' A'"
      "budget_at s start A' c'" "same_run g [(now, tgt_backend t)]"
      "call_completion (Suc n) env stream now request True (Some c) =
         g (call_completion n env stream s (with_backend b' (targeted_request request t ctx)) True (Some c'))"
    let ?b = "tgt_backend t" let ?request = "with_backend b' (targeted_request request t ctx)"
    have b: "?b \<notin> set A" "\<forall>x. backend_named request = Some x \<longrightarrow> ?b = x" using named [OF step(1)] by auto
    then have goes_on: "goes_on S start (A @ [?b]) ?b u s b' A'" using step(3) by (simp add: fresh_attempt)
    then obtain k where k: "n = Suc k" "tries_left S start A' s \<le> k"
      using tries_left_less [OF goes_on step(2) wait] n(6) by (cases n) auto
    have "next_fresh A' (backend_named ?request)" "backend_named ?request = Some b'"
      using goes_on b by (auto simp: next_fresh_def backend_named_def goes_on_def fresh_attempt)
    then have r: "run_outcome (call_completion n env stream s ?request True (Some c')) \<noteq> None"
      "log_ok S start A' (Some b') s (run_attempts (call_completion n env stream s ?request True (Some c')))"
      using n(1) [OF _ _ step(4) _ _ k(2), of ?request] k(1) n(2) targets_named(1) [OF env(3) step(1) n(4)] by auto
    from log_ok_step [OF goes_on b(1) r(2) b(2)] r(1) step(5,6) show ?thesis by (simp add: same_run_def)
  qed (use named in \<open>auto simp: log_ok_def\<close>)
qed

text \<open>
  C5. Recovery leaves a failed backend for good: apart from retries of the same backend in a row, no backend is called twice
  for a request, at most as many backends are called as the configuration allows hops, and every call after the first
  one starts within the time budget of the request. This is for a request with a context whose model names no backend,
  without composite routing, failover routes and thinkers, when the resolver honours the backend that the body of
  a request names (which a session backend or a static route would override).
\<close>

theorem recovery_moves_on:
  assumes "recovery_env env S" "honours_backend env" "plain_request request" "new_request c" "\<not> has_explicit_backend_selector (req_model request)"
    and "nat (max_failover_hops (st_config S) - 1) + nat \<lfloor>total_timeout_budget (st_config S) / min_retry_wait (st_config S)\<rfloor> < fuel"
    and "xs = run_attempts (call_completion fuel env stream now request True (Some c))"
  shows "run_outcome (call_completion fuel env stream now request True (Some c)) \<noteq> None \<and>
    distinct (remdups_adj (map snd xs)) \<and> int (length (remdups_adj (map snd xs))) \<le> max 1 (max_failover_hops (st_config S)) \<and>
    (\<forall>x \<in> set (tl xs). fst x \<le> now + total_timeout_budget (st_config S))"
proof -
  obtain n where n: "fuel = Suc n" "tries_left S now [] now \<le> n"
    using assms(6) by (cases fuel) (auto simp: tries_left_def)
  have "failures_take env 0"
    using assms(1) unfolding failures_take_def recovery_env_def by (metis Pair_inject)
  from recovery_run [OF assms(1) this assms(2,3) new_budget [OF assms(4)] assms(5) _ n(2), of stream] n(1) assms(7) show ?thesis
    by (auto simp: next_fresh_def log_ok_def)
qed

section \<open>Cancellation\<close>

text \<open>
  A run that calls no backend from the time of the cancellation on, answers only with the answer of a backend it called
  before, and if it is not a stream ends in time.
\<close>

definition obeys :: "real \<Rightarrow> real \<Rightarrow> bool \<Rightarrow> real \<Rightarrow> 'r run \<Rightarrow> bool" where
  "obeys cancelled D stream now r \<longleftrightarrow> (\<forall>x \<in> set (run_attempts r). fst x < cancelled) \<and>
     (\<forall>x. run_outcome r = Some (Inr (Reply x)) \<longrightarrow> run_attempts r \<noteq> []) \<and>
     (\<not> stream \<longrightarrow> run_time r \<le> max now (cancelled + max 1 D))"

text \<open>What the gates report from that time on, and how long a call takes.\<close>

definition cancelled_env :: "'r completion_env \<Rightarrow> real \<Rightarrow> real \<Rightarrow> bool" where
  "cancelled_env env cancelled D \<longleftrightarrow>
     (\<forall>t ctx. cancelled \<le> t \<longrightarrow> env_call_gate env t ctx \<noteq> None) \<and> (\<forall>t. cancelled \<le> t \<longrightarrow> env_wait_gate env t \<noteq> None) \<and>
     (\<forall>now request t ctx outcome d ctx'. env_call env now request t ctx = (outcome, d, ctx') \<longrightarrow> d \<le> D)"

lemma obeys_finished [simp]: "obeys c D stream now (finished (Inl e) t ctx) \<longleftrightarrow> (\<not> stream \<longrightarrow> t \<le> max now (c + max 1 D))"
  by (simp add: obeys_def finished_def)

lemma obeys_later: "obeys c D stream t r \<Longrightarrow> \<not> stream \<longrightarrow> t \<le> max now (c + max 1 D) \<Longrightarrow> obeys c D stream now r"
  by (auto simp: obeys_def)

lemma obeys_after:
  assumes "obeys c D stream now r" "\<forall>x \<in> set xs. fst x < c"
  shows "obeys c D stream now (after_attempts xs r)"
  using assms by (auto simp: obeys_def after_attempts_def)

lemma obeys_as_stream: "obeys c D stream now r \<Longrightarrow> obeys c D stream now (as_stream r)"
  by (cases "run_outcome r"; cases "the (run_outcome r)") (auto simp: obeys_def as_stream_def split: if_splits)

lemma obeys_leaving: "obeys c D stream now r \<Longrightarrow> obeys c D stream now (leaving env stream' r)"
  by (auto simp: obeys_def leaving_def split: option.splits sum.splits)

lemma wait_slices_stops:
  "\<forall>t. c \<le> t \<longrightarrow> gate t \<noteq> None \<Longrightarrow> snd (wait_slices gate now remaining) \<le> max now (c + 1)"
proof (induction gate now remaining rule: wait_slices.induct)
  case (1 gate now remaining)
  show ?case
  proof (cases "remaining \<le> 0 \<or> gate now \<noteq> None")
    case False
    let ?s = "min 1 remaining"
    have "now < c" using False 1(2) by (meson not_le)
    then have slice: "now + ?s \<le> max now (c + 1)" by (simp add: max_def min_def)
    show ?thesis
    proof (cases "gate (now + ?s)")
      case None
      then have "now + ?s < c" using 1(2) by (metis not_le)
      with 1(1) [OF _ _ refl None 1(2)] False
      have "snd (wait_slices gate (now + ?s) (max 0 (remaining - ?s))) \<le> max now (c + 1)" by auto
      moreover have "wait_slices gate now remaining = wait_slices gate (now + ?s) (max 0 (remaining - ?s))"
        using False None by (simp add: wait_slices.simps [of gate now] Let_def)
      ultimately show ?thesis by simp
    qed (use False slice in \<open>simp add: wait_slices.simps [of gate now] Let_def\<close>)
  qed (auto simp: wait_slices.simps [of gate now])
qed

lemma obeys_plan:
  assumes "\<And>now request allow ctx. obeys c D stream now (call now request allow ctx)"
  shows "obeys c D stream now (attempt_plan env call request last_error plan now ctx)"
proof (induction plan arbitrary: last_error now ctx)
  case (Cons a plan)
  let ?r = "call now ((with_backend (fa_backend a) request)\<lparr>req_model := fa_model a\<rparr>) False (map_option (increment_retry_metadata ''failover'') ctx)"
  have r: "obeys c D stream now ?r" by (rule assms)
  then have time: "\<not> stream \<longrightarrow> run_time ?r \<le> max now (c + max 1 D)" "\<forall>x \<in> set (run_attempts ?r). fst x < c"
    by (simp_all add: obeys_def)
  have "obeys c D stream now (after_attempts (run_attempts ?r) (attempt_plan env call request (Some e) plan (run_time ?r) (run_context ?r)))" for e
    by (rule obeys_after [OF obeys_later [OF Cons.IH time(1)] time(2)])
  with r show ?case by (auto simp: Let_def split: option.split sum.split)
qed simp

lemma obeys_recovery:
  assumes call: "\<And>now request allow ctx. obeys c D stream now (call now request allow ctx)"
    and gate: "\<forall>t. c \<le> t \<longrightarrow> env_wait_gate env t \<noteq> None"
  shows "obeys c D stream now (apply_failure_recovery env call stream e model b A start begun request now ctx)"
proof -
  have retry: "obeys c D stream now (execute_retry env call stream request b w B now ctx')" for w B ctx'
  proof -
    obtain stopped t where t: "(if stream then (None, now + (case w of None \<Rightarrow> 0 | Some w \<Rightarrow> max 0 w))
        else wait_slices (env_wait_gate env) now (case w of None \<Rightarrow> 0 | Some w \<Rightarrow> max 0 w)) = (stopped, t)"
      by fastforce
    have "\<not> stream \<longrightarrow> t \<le> max now (c + max 1 D)"
      using wait_slices_stops [OF gate, of now "case w of None \<Rightarrow> 0 | Some w \<Rightarrow> max 0 w"] t by (auto simp: max_def split: if_splits)
    then show ?thesis
      unfolding execute_retry_def Let_def t
      using obeys_later [OF call, of t now] by (auto intro!: obeys_as_stream split: option.split)
  qed
  have failover: "obeys c D stream now (execute_failover env call request b' now ctx')" for b' ctx'
    using call by (auto simp: execute_failover_def split: option.split)
  show ?thesis
    using call retry failover
    by (auto simp: apply_failure_recovery_def Let_def split: prod.split sum.split option.split FailureDecision.split)
qed

lemma obeys_call:
  assumes env: "cancelled_env env c D" and call: "\<And>now request allow ctx. obeys c D stream now (call now request allow ctx)"
  shows "obeys c D stream now (execute_call env call stream allow original request t budget now ctx)"
proof -
  have failed: "obeys c D stream now (after_failure env call stream allow e t budget request now ctx)" for now e ctx
    using obeys_recovery [OF call] env by (auto simp: after_failure_def cancelled_env_def Let_def split: prod.split)
  show ?thesis
  proof (cases "env_call_gate env now ctx")
    case None
    then have now: "now < c" using env unfolding cancelled_env_def by (meson not_le)
    obtain outcome d ctx' where result: "env_call env now request t ctx = (outcome, d, ctx')" by (metis prod_cases3)
    then have "d \<le> D" using env unfolding cancelled_env_def by blast
    with now have finish: "now + d \<le> max now (c + max 1 D)" by (simp add: max_def)
    let ?r = "\<lambda>x. (continue_after_thinking env call stream allow original x (now + d) ctx')\<lparr>run_context := ctx'\<rparr>"
    have r: "obeys c D stream (now + d) (?r x)" for x
      using call unfolding continue_after_thinking_def obeys_def by (simp add: Let_def)
    have again: "obeys c D stream (now + d) (after_attempts (run_attempts (?r x)) (after_failure env call stream allow e t budget request (run_time (?r x)) ctx'))" for x e
    proof -
      have "\<not> stream \<longrightarrow> run_time (?r x) \<le> max (now + d) (c + max 1 D)" "\<forall>y \<in> set (run_attempts (?r x)). fst y < c"
        using r [of x] by (simp_all add: obeys_def)
      then show ?thesis by (rule obeys_after [OF obeys_later [OF failed]])
    qed
    have reply: "obeys c D stream now (after_attempts [(now, tgt_backend t)] (finished (Inr (Reply x)) (now + d) ctx'))" for x
      using now finish by (simp add: obeys_def after_attempts_def finished_def)
    have later: "obeys c D stream now (after_attempts [(now, tgt_backend t)] r)" if "obeys c D stream (now + d) r" for r
      using now finish obeys_later [OF that] by (intro obeys_after) auto
    show ?thesis
      using later [OF r] later [OF again] later [OF failed] reply
      by (auto simp: execute_call_def None result Let_def split: sum.split option.split)
  qed (simp add: execute_call_def failed)
qed

lemma call_completion_obeys:
  assumes "cancelled_env env c D"
  shows "obeys c D stream now (call_completion fuel env stream now request allow ctx)"
proof (induction fuel arbitrary: now request allow ctx)
  case (Suc fuel)
  let ?again = "call_completion fuel env stream"
  have complex: "obeys c D stream now (execute_complex_failover env ?again request model b now ctx)" for request model b ctx
    using obeys_plan [OF Suc.IH]
    by (auto simp: execute_complex_failover_def attempt_failover_plan_def split: option.split sum.split)
  have chunk: "obeys c D stream now (finished (Inr (Error_Chunk e)) now ctx)" for e ctx
    by (simp add: obeys_def finished_def)
  show ?case
    using complex chunk obeys_leaving [OF obeys_call [OF assms Suc.IH]] obeys_leaving [of c D stream now "finished (Inl e) now ctx'" for e ctx']
    by (auto simp: Let_def split: prod.split sum.split option.split)
qed (simp add: obeys_def out_of_fuel_def)

text \<open>
  C17. No work for a cancelled session: once the gate before the connector and the gate of the waits report the cancellation,
  no backend call of the request starts any more, be it the first one, a retry, a failover, a step of a composite
  selector or of a failover plan, or the call after a thinker; an answer comes only from a backend that was called before;
  and a request that is not streamed ends within a second, or within the time that the call under way takes. This
  holds for every request, every context and every environment, whether the run is over or not.
\<close>

theorem no_attempt_after_cancellation:
  assumes "\<forall>t ctx. cancelled \<le> t \<longrightarrow> env_call_gate env t ctx \<noteq> None" "\<forall>t. cancelled \<le> t \<longrightarrow> env_wait_gate env t \<noteq> None"
    and "\<forall>now request t ctx outcome d ctx'. env_call env now request t ctx = (outcome, d, ctx') \<longrightarrow> d \<le> D"
    and "r = call_completion fuel env stream now request allow_failover ctx"
  shows "(\<forall>x \<in> set (run_attempts r). fst x < cancelled) \<and>
    (\<forall>x. run_outcome r = Some (Inr (Reply x)) \<longrightarrow> run_attempts r \<noteq> []) \<and>
    (\<not> stream \<longrightarrow> run_time r \<le> max now (cancelled + max 1 D))"
  using call_completion_obeys [of env cancelled D stream now fuel request allow_failover ctx] assms
  by (simp add: cancelled_env_def obeys_def)

end
