(* ===== verification/Recovery_Examples.thy ===== *)
theory Recovery_Examples
  imports Recovery_Theorems
begin

text \<open>Recovery with two backends that answer every call with an internal error after a second.\<close>

definition broken :: failure where
  "broken = backend_error ''Internal error'' 500"

definition session_cancelled :: failure where
  "session_cancelled = failure_of \<lparr>exn_class = SessionCancelledError, exn_message = ''Session is cancelled'', exn_details = [],
     exn_status = 499, exn_code = None\<rparr>"

definition default_strategy :: strategy where
  "default_strategy = \<lparr>st_config = default_failure_config, st_discovery = None, show_number = (\<lambda>_. ''90.0''), http_date = (\<lambda>_. None)\<rparr>"

definition no_plans :: planner where
  "no_plans = \<lparr>pl_filter = True, pl_disabled = [], pl_functional = (\<lambda>_. None), pl_use_strategy = False, pl_strategy = None, pl_routes = []\<rparr>"

text \<open>The order of the resolver: a backend in the model of a request, then the one in its body, then the default.\<close>

definition resolved_target :: "ChatRequest \<Rightarrow> BackendTarget" where
  "resolved_target request =
     (if has_explicit_backend_selector (req_model request)
      then \<lparr>tgt_backend = py_before (CHR '':'') (req_model request), tgt_model = py_after (CHR '':'') (req_model request), tgt_uri_params = []\<rparr>
      else \<lparr>tgt_backend = (case backend_named request of Some b \<Rightarrow> b | None \<Rightarrow> ''one''), tgt_model = req_model request, tgt_uri_params = []\<rparr>)"

definition broken_env :: "(real \<Rightarrow> failure option) \<Rightarrow> unit completion_env" where
  "broken_env gate =
     \<lparr>env_target = (\<lambda>now request ctx. (Inr (resolved_target request), ctx)), env_available = (\<lambda>_ _ _. None),
      env_prepare = (\<lambda>now request t ctx. (None, ctx)), env_call_gate = (\<lambda>t ctx. gate t),
      env_call = (\<lambda>now request t ctx. (Inl broken, 1, ctx)), env_normalize = (\<lambda>e. e), env_thinks = (\<lambda>_. False), env_memo = (\<lambda>_. None),
      env_gate = gate, env_wait_gate = gate,
      env_alternatives = Some (\<lambda>now m excluded. filter (\<lambda>b. b \<notin> set excluded) [''one'', ''two'']),
      env_strategy = Some default_strategy, env_random = (\<lambda>_. 0), env_planner = no_plans, env_routes = []\<rparr>"

definition hello :: ChatRequest where
  "hello = \<lparr>req_model = ''model'', req_messages = [], req_extra_body = None\<rparr>"

definition fresh_context :: RequestContext where
  "fresh_context = \<lparr>ctx_session_id = None, extensions = []\<rparr>"

definition cancelled_gate :: "real \<Rightarrow> failure option" where
  "cancelled_gate t = (if t < 1 then None else Some session_cancelled)"

lemma broken_env_simps [simp]:
  "env_target (broken_env gate) now request ctx = (Inr (resolved_target request), ctx)" "env_available (broken_env gate) now b m = None"
  "env_prepare (broken_env gate) now request t ctx = (None, ctx)" "env_call_gate (broken_env gate) now ctx = gate now"
  "env_call (broken_env gate) now request t ctx = (Inl broken, 1, ctx)" "env_normalize (broken_env gate) e = e"
  "env_thinks (broken_env gate) ctx = False" "env_gate (broken_env gate) = gate" "env_wait_gate (broken_env gate) = gate"
  "env_strategy (broken_env gate) = Some default_strategy" "env_routes (broken_env gate) = []"
  by (simp_all add: broken_env_def)

lemma broken_recovery_env: "recovery_env (broken_env (\<lambda>_. None)) default_strategy"
  by (simp add: recovery_env_def) (simp add: broken_env_def default_strategy_def default_failure_config_def)

lemma broken_failures: "failures_take (broken_env gate) 1"
  by (simp add: failures_take_def)

lemma broken_honours: "honours_backend (broken_env gate)"
  by (simp add: honours_backend_def resolved_target_def backend_named_def)

lemma hello_plain: "plain_request hello"
  by (simp add: plain_request_def hello_def extra_get_def)

lemma hello_not_explicit: "\<not> has_explicit_backend_selector (req_model hello)"
  by (simp add: hello_def has_explicit_backend_selector_def py_before_def)

lemma fresh_new: "new_request fresh_context"
  by (simp add: new_request_def fresh_context_def dict_has_def)

lemma default_numbers:
  "max_failover_hops (st_config default_strategy) = 5" "total_timeout_budget (st_config default_strategy) = 90"
  "min_retry_wait (st_config default_strategy) = 1"
  by (simp_all add: default_strategy_def default_failure_config_def)

theorem recovery_terminates_witness:
  "\<exists>out. run_outcome (call_completion 91 (broken_env (\<lambda>_. None)) False 0 hello True (Some fresh_context)) = Some out \<and>
     length (run_attempts (call_completion 91 (broken_env (\<lambda>_. None)) False 0 hello True (Some fresh_context))) \<le> 91"
  using recovery_terminates [OF broken_recovery_env broken_failures _ hello_plain fresh_new refl, of 91 False 0]
  by (simp add: default_numbers del: call_completion.simps)

theorem recovery_moves_on_witness:
  "distinct (remdups_adj (map snd (run_attempts (call_completion 95 (broken_env (\<lambda>_. None)) True 0 hello True (Some fresh_context)))))"
  using recovery_moves_on [OF broken_recovery_env broken_honours hello_plain fresh_new hello_not_explicit _ refl, of 95 True 0]
  by (simp add: default_numbers del: call_completion.simps)

theorem no_attempt_after_cancellation_witness:
  "list_all (\<lambda>x. fst x < 1) (run_attempts (call_completion 3 (broken_env cancelled_gate) False 0 hello True None)) \<and>
     run_time (call_completion 3 (broken_env cancelled_gate) False 0 hello True None) \<le> 2"
  using no_attempt_after_cancellation [of 1 "broken_env cancelled_gate" 1, OF _ _ _ refl, of 3 False 0 hello True None]
  by (simp add: cancelled_gate_def list_all_iff del: call_completion.simps)

section \<open>Recovery without a context\<close>

text \<open>
  Without a context there is nowhere to keep the attempted backends and the start of the budget, so every attempt
  begins with a new budget: two backends that fail are called in turn for ever.
\<close>

lemma broken_simps:
  "normalized_error broken = broken" "is_cancellation broken = False" "is_auth_failure broken = False"
  "is_recoverable_error d t broken = False"
  by (simp_all add: normalized_error_def is_failure_def isinstance_def broken_def backend_error_def failure_of_def exn.extend_def exn.truncate_def
      is_auth_failure_def is_cancellation_def is_recoverable_error_def)

definition other_backend :: "string \<Rightarrow> string" where
  "other_backend b = (if b = ''one'' then ''two'' else ''one'')"

definition go_to :: "string \<Rightarrow> FailureHandlingResult" where
  "go_to b = \<lparr>fh_decision = FAILOVER_IMMEDIATE, fh_wait_seconds = None, fh_next_backend = Some b, fh_error_to_surface = None\<rparr>"

text \<open>While there is time, the strategy sends a request whose only attempted backend failed to the other one.\<close>

lemma go_to_decision:
  assumes "b \<in> {''one'', ''two''}" "now - start < 90"
  shows "apply_failure_strategy (broken_env gate) default_strategy broken m b [b] start False now = go_to (other_backend b)"
proof -
  let ?bs = "filter (\<lambda>x. x \<notin> set [b, b]) [''one'', ''two'']"
  have "find_alternatives None m b [b] (Some ?bs) = [other_backend b]"
    using assms(1) by (auto simp: find_alternatives_def other_backend_def)
  moreover have "st_discovery default_strategy = None" by (simp add: default_strategy_def)
  ultimately have "decide_recovery default_strategy now broken m b [b] (now - start) False (Some ?bs) = go_to (other_backend b)"
    using assms(2) by (simp add: decide_recovery_def default_numbers broken_simps Let_def go_to_def del: filter.simps split: option.split)
  then show ?thesis by (simp add: apply_failure_strategy_def broken_env_def del: filter.simps)
qed

lemma not_complex: "plain_request request \<Longrightarrow> \<not> check_complex_failover (broken_env gate) (targeted_request request t ctx) m"
  using plain_targeted [of request t ctx] by (simp add: check_complex_failover_def plain_request_def)

lemma broken_targets:
  assumes "\<not> has_explicit_backend_selector (req_model request)"
  shows "\<not> has_explicit_backend_selector (req_model (targeted_request request (resolved_target request) ctx))"
  using assms by (simp add: targeted_request_def strip_client_reasoning_content_from_request_def synchronize_request_with_target_def
      resolved_target_def Let_def)

lemma recovery_without_context_never_ends:
  "tgt_backend (resolved_target request) \<in> {''one'', ''two''} \<Longrightarrow> plain_request request \<Longrightarrow> \<not> has_explicit_backend_selector (req_model request) \<Longrightarrow>
    run_outcome (call_completion fuel (broken_env (\<lambda>_. None)) stream now request True None) = None"
proof (induction fuel arbitrary: now request)
  case 0
  show ?case by (simp add: out_of_fuel_def)
next
  case (Suc fuel)
  let ?env = "broken_env (\<lambda>_. None)" let ?t = "resolved_target request" let ?b = "tgt_backend ?t"
  let ?next = "with_backend (other_backend ?b) (targeted_request request ?t None)"
  have "\<not> has_explicit_backend_selector (req_model ?next)" using broken_targets [OF Suc.prems(3)] by simp
  then have "run_outcome (call_completion fuel ?env stream (now + 1) ?next True None) = None"
    using Suc.prems(2) by (intro Suc.IH) (auto simp: resolved_target_def backend_named_def other_backend_def)
  moreover have "apply_failure_recovery ?env call stream broken (tgt_model ?t) ?b [] now False r (now + 1) None =
      call (now + 1) (with_backend (other_backend ?b) r) True None" for call r
    using Suc.prems(1) unfolding apply_failure_recovery_def Let_def store_attempted_def build_next_request_def note_attempt_def
    by (simp add: broken_simps go_to_decision execute_failover_def go_to_def)
  ultimately show ?case
    using not_complex [OF Suc.prems(2)]
    by (simp add: recovery_budget_def execute_call_def after_failure_def broken_simps leaving_def after_attempts_def Let_def)
qed

section \<open>A model that names its backend\<close>

text \<open>
  A request whose model names a backend keeps that model for the failover, and the resolver prefers it over the backend in
  the body: the backend that just failed is called again, although the strategy has chosen the other one.
\<close>

definition pinned_hello :: ChatRequest where
  "pinned_hello = \<lparr>req_model = ''one:model'', req_messages = [], req_extra_body = None\<rparr>"

definition pinned :: "ChatRequest \<Rightarrow> bool" where
  "pinned request \<longleftrightarrow> req_model request = ''one:model'' \<and> plain_request request"

definition silent :: "RequestContext \<Rightarrow> bool" where
  "silent c \<longleftrightarrow> \<not> dict_has MEANINGFUL_OUTPUT_EMITTED_KEY (extensions c) \<or> ext_get MEANINGFUL_OUTPUT_EMITTED_KEY c = JBool False"

lemma one_explicit: "has_explicit_backend_selector ''one:model''" "py_before (CHR '':'') ''one:model'' = ''one''"
  by code_simp+

lemma pinned_target: "pinned request \<Longrightarrow> tgt_backend (resolved_target request) = ''one''"
  by (simp add: pinned_def resolved_target_def one_explicit)

lemma pinned_again: "pinned request \<Longrightarrow> pinned (with_backend b (targeted_request request (resolved_target request) ctx))"
  using plain_targeted [of request "resolved_target request" ctx]
  by (simp add: pinned_def resolved_target_def one_explicit targeted_request_def strip_client_reasoning_content_from_request_def
      synchronize_request_with_target_def Let_def)

lemma silent_kept [simp]:
  "silent (begin_context c) \<longleftrightarrow> silent c" "silent (increment_retry_metadata reason c) \<longleftrightarrow> silent c"
  "silent (ext_set ATTEMPTED_BACKENDS_KEY v c) \<longleftrightarrow> silent c"
  by (simp_all add: silent_def begin_context_def set_composite_routing_surface_def initialize_retry_metadata_def increment_retry_metadata_def
      has_default ext_get_default budget_keys COMPOSITE_ROUTING_SURFACE_KEY_def)

lemma silent_budget:
  assumes "silent c" "recovery_budget now (Some c) = ((start, A, begun), Some c')"
  shows "\<not> begun" "silent c'"
  using assms by (auto simp: silent_def recovery_budget_def get_or_init_stream_recovery_budget_def Let_def ext_get_default has_default budget_keys
      split: if_splits)

lemma pinned_step:
  assumes "pinned request" "silent c" "budget_at now 0 A c" "A \<in> {[], [''one'']}" "now + 1 < 90"
  shows "\<exists>request' c'. pinned request' \<and> silent c' \<and> budget_at (now + 1) 0 [''one''] c' \<and>
    run_attempts (call_completion (Suc n) (broken_env (\<lambda>_. None)) False now request True (Some c)) =
      (now, ''one'') # run_attempts (call_completion n (broken_env (\<lambda>_. None)) False (now + 1) request' True (Some c'))"
proof -
  let ?env = "broken_env (\<lambda>_. None)" let ?t = "resolved_target request" let ?r = "targeted_request request ?t (Some (begin_context c))"
  have "budget_at now 0 A (begin_context c)" using assms(3) begin_keeps budget_at_kept by blast
  then obtain begun c1 where budget: "recovery_budget now (Some (begin_context c)) = ((0, A, begun), Some c1)"
    "budget_stored 0 A c1" "no_composite c1"
    using budget_read by blast
  have c1: "\<not> begun" "silent c1" using silent_budget [OF _ budget(1)] assms(2) by simp_all
  let ?c2 = "increment_retry_metadata ''failover'' (ext_set ATTEMPTED_BACKENDS_KEY (JList [JStr ''one'']) c1)"
  have c2: "silent ?c2" "budget_at (now + 1) 0 [''one''] ?c2"
    using c1 budget(2,3) stored_attempted(1) [of 0 A c1 "[''one'']"] by (simp_all add: budget_at_def)
  have "apply_failure_recovery ?env call False broken (tgt_model ?t) ''one'' A 0 begun ?r (now + 1) (Some c1) =
      call (now + 1) (with_backend ''two'' ?r) True (Some ?c2)" for call
    using assms(4,5) c1(1) budget(3) unfolding apply_failure_recovery_def Let_def store_attempted_def
    by (auto simp: note_attempt_def no_composite_bridge broken_simps go_to_decision execute_failover_def go_to_def other_backend_def)
  then have "run_attempts (call_completion (Suc n) ?env False now request True (Some c)) =
      (now, ''one'') # run_attempts (call_completion n ?env False (now + 1) (with_backend ''two'' ?r) True (Some ?c2))"
    using not_complex [of request] assms(1) budget(1) same_run_leaving [of ?env False]
    by (simp add: execute_call_def after_failure_def broken_simps after_attempts_def Let_def same_run_def pinned_target pinned_def)
  with c2 pinned_again [OF assms(1)] show ?thesis by blast
qed

lemma pinned_run:
  "pinned request \<Longrightarrow> silent c \<Longrightarrow> budget_at (real m) 0 A c \<Longrightarrow> A \<in> {[], [''one'']} \<Longrightarrow> m + k \<le> 89 \<Longrightarrow>
    run_attempts (call_completion k (broken_env (\<lambda>_. None)) False (real m) request True (Some c)) = map (\<lambda>i. (real i, ''one'')) [m ..< m + k]"
proof (induction k arbitrary: m request c A)
  case 0
  then show ?case by (simp add: out_of_fuel_def)
next
  case (Suc k)
  then have "real m + 1 < 90" by simp
  from pinned_step [OF Suc.prems(1-4) this] obtain request' c' where step: "pinned request'" "silent c'" "budget_at (real (Suc m)) 0 [''one''] c'"
    "run_attempts (call_completion (Suc k) (broken_env (\<lambda>_. None)) False (real m) request True (Some c)) =
      (real m, ''one'') # run_attempts (call_completion k (broken_env (\<lambda>_. None)) False (real (Suc m)) request' True (Some c'))"
    unfolding add.commute [of "real m"] of_nat_Suc by blast
  from Suc.IH [OF step(1-3)] Suc.prems(5) step(4) show ?case by (simp add: upt_conv_Cons del: call_completion.simps)
qed

lemma failover_of_pinned_model_repeats:
  "k \<le> 89 \<Longrightarrow> run_attempts (call_completion k (broken_env (\<lambda>_. None)) False 0 pinned_hello True (Some fresh_context)) =
    map (\<lambda>i. (real i, ''one'')) [0 ..< k]"
proof -
  have "pinned pinned_hello" by (simp add: pinned_def pinned_hello_def plain_request_def extra_get_def)
  moreover have "silent fresh_context" by (simp add: silent_def fresh_context_def dict_has_def)
  moreover have "budget_at (real 0) 0 [] fresh_context" using new_budget [OF fresh_new, of 0] by simp
  ultimately show "k \<le> 89 \<Longrightarrow> run_attempts (call_completion k (broken_env (\<lambda>_. None)) False 0 pinned_hello True (Some fresh_context)) =
      map (\<lambda>i. (real i, ''one'')) [0 ..< k]"
    using pinned_run [of pinned_hello fresh_context 0 "[]" k] by (simp del: call_completion.simps)
qed

end
