(* ===== verification/Spec2Isabelle.thy ===== *)
theory Spec2Isabelle
  imports Routing_Examples Resilience_Examples B2bua_Examples Replacement_Examples Tool_Loop_Examples
    Dedup_Examples Health_Examples Parallel_Examples Loop_Examples Cancel_Examples Recovery_Examples
begin

text \<open>
  \<^bold>\<open>The LLM interactive proxy.\<close>

  The proxy receives chat requests, decides which backend and model serve them, calls the backend, and protects clients
  and backends against failures, duplicates and loops. This development models the subsystems that carry this logic.

  \<^bold>\<open>Composite routing\<close> (\<^verbatim>\<open>src/core/services/composite_*.py\<close>, \<^verbatim>\<open>weighted_branch_selector.py\<close>,
  \<^verbatim>\<open>src/core/domain/composite_routing.py\<close>, \<^verbatim>\<open>model_utils.py\<close>). A selector such as \<^verbatim>\<open>[weight=3]a:m^b:n\<close> is parsed into a plan:
  one leaf, a failover group (\<^verbatim>\<open>|\<close>), a weighted group (\<^verbatim>\<open>^\<close>) or a parallel group (\<^verbatim>\<open>!\<close>). The coordinator executes a plan by
  asking a leaf resolver for a target; it keeps hop budgets and branch histories in the extensions of the request context.
  After a run-time failure the recovery bridge continues from the state stored there. A parallel group is a race of
  completions, of which the first one with a token is delivered.

  \<^bold>\<open>Resilience and recovery\<close> (\<^verbatim>\<open>src/core/services/resilience/\<close>, \<^verbatim>\<open>health/\<close>, \<^verbatim>\<open>backend_completion_flow/\<close>,
  \<^verbatim>\<open>failure_handling_strategy.py\<close>, \<^verbatim>\<open>failover_*.py\<close>). Before a call the coordinator asks the health gate, the circuit breaker
  and the rate-limit state; after a call it records the success or passes the error through a chain of handlers that opens
  circuits, sets cooldowns and disables instances. A failed call is then recovered: retried after a wait, moved to
  another backend, or reported.

  \<^bold>\<open>Sessions and requests.\<close> Session identity (B2BUA mapping stores), cancellation of the work of a session, deduplication of
  requests, model replacement for some turns, the guard against endless tool loops, and the detection of loops in
  streamed text.

  \<^bold>\<open>Foundations.\<close>

  \<^item> \<open>Py_Prelude\<close>: the Python the code uses. Results that may raise (a sum, the exception on the left), strings and their
    methods, the literals of \<^verbatim>\<open>int\<close> and \<^verbatim>\<open>float\<close>, loosely typed values, dictionaries. \<open>Py_Regex\<close>: patterns of \<^verbatim>\<open>re\<close> by backtracking.
  \<^item> \<open>Keyed_Machine\<close>: machines with one state per key (locales \<open>machine_invariant\<close>, \<open>keyed_machine\<close>) and components that drive
    others (locale \<open>driven\<close>); every stateful component interprets them.

  \<^bold>\<open>Composite routing: theories and sources.\<close>

  \<^item> \<open>Model_Utils\<close>: \<^verbatim>\<open>model_utils.py\<close>, explicit backend selectors and URI parameters.
  \<^item> \<open>Composite_Domain\<close>: \<^verbatim>\<open>composite_routing.py\<close>, plans, validation envelopes, attempt contexts with hop budget and history window.
  \<^item> \<open>Selector_Parser\<close>, \<open>Selector_Theorems\<close>, \<open>Selector_Examples\<close>: \<^verbatim>\<open>composite_selector_parser.py\<close>. Accepted plans are well formed, keep
    the branches in order and use one operator; rejections are typed and bounded; splitting is lossless.
  \<^item> \<open>Routing_Context\<close>: \<^verbatim>\<open>composite_routing_state.py\<close>, the exception classes and the request context; the interface of a
    dictionary is the locale \<open>dictionary\<close>, interpreted by JSON dictionaries and by context extensions.
  \<^item> \<open>Weighted_Selector\<close>: \<^verbatim>\<open>weighted_branch_selector.py\<close>. A branch is chosen exactly in its share of the unit interval.
  \<^item> \<open>Diagnostics\<close>: \<^verbatim>\<open>composite_diagnostics_publisher.py\<close>.
  \<^item> \<open>Coordinator\<close>, \<open>Coordinator_Theorems\<close>, \<open>Thinking_Cycle\<close>: \<^verbatim>\<open>composite_routing_coordinator.py\<close>. The failover chain refines a
    specification over the verdicts of its branches and selects the first available one; weighted execution resolves a branch
    of the group or raises a typed error; the interleaved thinking cycle is fair. The locale \<open>chain_context\<close> states what the
    chain needs of the stored context.
  \<^item> \<open>Recovery_Bridge\<close>, \<open>Bridge_Theorems\<close>: \<^verbatim>\<open>composite_failure_recovery_bridge.py\<close>. Retries are an inductive step relation whose
    runs are bounded by the stored budget; rerolls try every selector before repeating one; stored states load back.
  \<^item> \<open>Composite_Routing\<close>, \<open>Routing_Examples\<close>: \<^verbatim>\<open>composite_routing_service.py\<close> and the leaf adapter; the error contract of the service
    and the hand-over from coordinator to bridge.
  \<^item> \<open>Parallel_Chunks\<close>, \<open>Parallel_Race\<close>, \<open>Parallel_Orchestrator\<close>: \<^verbatim>\<open>parallel_completion_racer.py\<close>, \<^verbatim>\<open>parallel_completion_orchestrator.py\<close>,
    \<^verbatim>\<open>openai_stream_reasoning.py\<close> and the entry of \<^verbatim>\<open>backend_completion_flow/service.py\<close>. The race is an inductive step relation; a
    step is what one coroutine (leg, watchdog, keepalive, client watcher, consumer) does between two awaits.
    \<open>Race_Steps\<close>, \<open>Race_Invariants\<close>, \<open>Race_Theorems\<close>, \<open>Race_Liveness\<close>, \<open>Parallel_Theorems\<close>, \<open>Parallel_Examples\<close>: in every
    interleaving one leg only is delivered, from its first token and without gaps; the losers are hung up; races end and the
    number of steps is bounded; the collected response is that of the winner.

  \<^bold>\<open>Resilience and recovery: theories and sources.\<close>

  \<^item> \<open>Circuit_Breaker\<close>, \<open>Breaker_Theorems\<close>, \<open>Breaker_Examples\<close>: \<^verbatim>\<open>circuit_breaker_state.py\<close>. The manager refines one three-state circuit
    per instance for every trace; open circuits refuse, thresholds trip, probes recover.
  \<^item> \<open>Rate_Limit_State\<close>, \<open>Reference_Cache\<close>, \<open>Rate_Limit_Theorems\<close>, \<open>Rate_Limit_Examples\<close>: \<^verbatim>\<open>rate_limit_state.py\<close>. The availability checks
    follow one verdict and are invisible; disabled and cooling instances stay refused over traces.
  \<^item> \<open>Upstream_Errors\<close>, \<open>Error_Handlers\<close>: \<^verbatim>\<open>provider_error_classifier.py\<close> and \<^verbatim>\<open>resilience/handlers/\<close>.
  \<^item> \<open>Resilience\<close>, \<open>Resilience_Theorems\<close>, \<open>Resilience_Examples\<close>: \<^verbatim>\<open>resilience/coordinator.py\<close>. The decision before a call, and what recorded
    failures do to later calls over every trace of calls.
  \<^item> \<open>Endpoint_Health\<close>, \<open>Health_Theorems\<close>, \<open>Health_Examples\<close>: \<^verbatim>\<open>health/endpoint_registry.py\<close>, \<^verbatim>\<open>health/state_manager.py\<close>. The two directions
    of the registry agree; failing checks reach the coordinator's gate.
  \<^item> \<open>Retry_After\<close>, \<open>Failure_Strategy\<close>, \<open>Failure_Recovery\<close>, \<open>Recovery_Theorems\<close>, \<open>Recovery_Examples\<close>: \<^verbatim>\<open>resilience/retry_after.py\<close>,
    \<^verbatim>\<open>failure_handling_strategy.py\<close>, \<^verbatim>\<open>stream_recovery_budget.py\<close>, \<^verbatim>\<open>failure_recovery_executor.py\<close>, \<^verbatim>\<open>failover_service.py\<close>,
    \<^verbatim>\<open>failover_planner.py\<close>, the synchronised request of \<^verbatim>\<open>backend_model_resolver.py\<close> and the recursion of \<^verbatim>\<open>call_completion\<close> through
    them, with its two exception handlers and the second call after a thinker. Recovery ends within a bounded number of backend
    calls, does not go back to a failed backend when the resolver honours the one it is asked for, and in every environment
    starts nothing after a cancellation.

  \<^bold>\<open>Sessions and requests: theories and sources.\<close>

  \<^item> \<open>B2bua_Interface\<close> (the locale of a mapping store), \<open>B2bua_Ids\<close>, \<open>B2bua_Memory\<close>, \<open>B2bua_Persistent\<close>, \<open>B2bua_Sessions\<close> with their
    theorems: \<^verbatim>\<open>b2bua_*.py\<close>, \<^verbatim>\<open>auth_scope_resolver_service.py\<close>, \<^verbatim>\<open>client_session_id_extractor_service.py\<close>. Both stores keep the
    contract, so sessions are isolated and continuous, B-leg identifiers unique and the stores bounded.
  \<^item> \<open>Session_Cancel\<close>, \<open>Cancel_Theorems\<close>, \<open>Cancel_Examples\<close>: \<^verbatim>\<open>session_cancellation_coordinator.py\<close>, \<^verbatim>\<open>backend_work_guard.py\<close>,
    \<^verbatim>\<open>session_key_resolver.py\<close>. A cancelled session stays shut and its work is cancelled exactly once; the calls that do this
    outside the lock are steps of their own.
  \<^item> \<open>Request_Dedup\<close>, \<open>Dedup_Theorems\<close>, \<open>Dedup_Examples\<close>: \<^verbatim>\<open>request_deduplication_service.py\<close>. Duplicates are blocked in their window.
  \<^item> \<open>Model_Replacement\<close>, \<open>Replacement_Theorems\<close>, \<open>Replacement_Examples\<close>: \<^verbatim>\<open>model_replacement_service.py\<close> and its domain classes. A
    replacement lasts exactly its turns.
  \<^item> \<open>Tool_Loop_Guard\<close>, \<open>Tool_Loop_Theorems\<close>, \<open>Tool_Loop_Examples\<close>: \<^verbatim>\<open>tool_progress_loop_guard.py\<close>. Endless tool loops are stopped.
  \<^item> \<open>Loop_Window\<close>, \<open>Loop_Rolling\<close>, \<open>Loop_Hybrid\<close>, with \<open>Loop_Window_Theorems\<close>, \<open>Loop_Rolling_Theorems\<close>, \<open>Loop_Theorems\<close>,
    \<open>Loop_Examples\<close>: \<^verbatim>\<open>src/loop_detection/token_window_loop_detector.py\<close> and \<^verbatim>\<open>hybrid_detector.py\<close>. The rolling hash equals the one
    computed afresh; a reported loop is a repetition; every loop within the limits is reported in bounded time.

  \<^bold>\<open>How the model reads the code.\<close> A class or dataclass is a record, an enum a datatype, a method a definition of the same name
  (suffixed or prefixed by its component where two classes share a name: \<open>note_success\<close> and \<open>note_failure\<close> are \<^verbatim>\<open>record_success\<close> and
  \<^verbatim>\<open>record_failure\<close> of the resilience coordinator, \<open>decide_recovery\<close> is \<^verbatim>\<open>decide\<close> of the failure strategy). Mutable state is passed
  explicitly. A method that takes a lock, or contains no \<^verbatim>\<open>await\<close>, is one step; concurrency is the order of the steps in a trace,
  and in the race the choice of the next coroutine. Exceptions are values, so every raise is a branch. Loops are structural
  recursion or recursion on a measure. Only \<open>call_completion\<close> has fuel, since its recursion through recovery need not end; a run
  that has used it up has no outcome but keeps the log of its calls. \<open>recovery_terminates\<close> shows that fuel above
  \<open>budget / \<delta>\<close> is enough for a request with a context whose failed calls take \<open>\<delta>\<close> seconds, \<open>recovery_moves_on\<close> that fuel above
  \<open>hops - 1 + budget / shortest wait\<close> is enough when the resolver honours the named backend, and
  \<open>recovery_without_context_never_ends\<close> that none is enough without a context.

  \<^bold>\<open>Parameters.\<close> The leaf resolver (the backend model resolver), the token estimate, the random sources, the clocks, drawn
  identifiers, set iteration orders and the order of rows with equal sort keys, digests (SHA-256), Python's \<^verbatim>\<open>hash\<close>, its text of
  floats and containers, JSON reading and writing, UTF-8 decoding, HTTP dates, database faults, the completion of a leg of a
  race, the environment of a completion call (the resolver, availability, the preparation and the call itself, gates, the
  exception normalizer, discovery) and the caches of \<^verbatim>\<open>cachetools\<close> are arguments; the resolver, the token estimate and the parts
  of a call may raise anything. Properties hold for all of them except for named hypotheses: the documented laws
  \<open>ttl_cache_laws\<close> of the caches, which \<open>Reference_Cache\<close> satisfies; that a digest or the hash keeps the texts at hand apart;
  that drawn identifiers are new; \<open>recovery_env\<close>, that the parts of a call keep the context with its budget, that time does not
  run backwards and that the configured waits are positive; \<open>honours_backend\<close>, that the resolver goes by the backend named
  in the body of a request; and \<open>failures_leave_no_trace\<close>, that a failed resolution of a leaf does not influence later ones.

  \<^bold>\<open>Idealisations.\<close> Characters are those below code point 256. A finite float is an exact real number; infinities and not-a-number
  are kept where a value comes from a request or an error. Integers are unbounded, but reading one from a text of more than
  4300 digits raises, as in CPython. An operation reads the clocks once; in recovery time passes in calls and waits. A stream is the list of its
  chunks and how it ends. Log messages are left out.

  \<^bold>\<open>Not modelled.\<close> Connectors, HTTP frontends, the streaming pipeline, translation, commands, configuration, authentication,
  usage accounting, wire capture and memory are I/O, provider formats or heuristics over text. The health checkers are network
  probes and timers. The retry loop of \<^verbatim>\<open>retry_policy.py\<close> is run by a library. The older pattern detector of
  \<^verbatim>\<open>src/loop_detection/\<close> (\<^verbatim>\<open>analyzer.py\<close>, \<^verbatim>\<open>detector.py\<close>) is replaced by the hybrid one in the application. The two diagnostic dumps of
  the rate-limit state iterate over a cache that may shrink meanwhile.
\<close>

end
